(* ===== verification/Prelude.thy ===== *)
theory Prelude
  imports Main "HOL-Library.List_Lexorder" "HOL-Library.Char_ord" "HOL-Library.Sublist"
    "HOL-Library.Multiset"
begin

text \<open>
  Shared vocabulary of the development: the fragment of the ECMAScript standard library that
  the TypeScript sources use (arrays, strings, \<open>Set\<close>, \<open>Array.prototype.sort\<close>), and the generic
  lemmas about it.

  Text is \<^typ>\<open>string\<close>: a JavaScript string seen as its sequence of code units, restricted to
  the 8-bit ones; \<open>a < b\<close> on it is the lexicographic order on code units, as in JavaScript.
  Arrays are lists, \<open>undefined\<close> and \<open>null\<close> fields are \<^typ>\<open>'a option\<close>.
\<close>

named_theorems js_defs \<open>definitions of library operations, unfolded on demand\<close>
named_theorems cmp_laws \<open>laws of the comparators handed to the sorting operation\<close>

text \<open>The exceptions the modelled code can raise.\<close>

datatype js_error = TypeError | SyntaxError | Thrown string

text \<open>Characters are compared by their code units, as binary integers when evaluated.\<close>

lemma of_char_int: "(of_char c :: int) = int (of_char c)"
  by (simp add: of_nat_of_char)

lemma less_char_code [code]: "(c1 :: char) < c2 \<longleftrightarrow> (of_char c1 :: int) < of_char c2"
  by (simp only: less_char_def of_char_int of_nat_less_iff)

lemma less_eq_char_code [code]: "(c1 :: char) \<le> c2 \<longleftrightarrow> (of_char c1 :: int) \<le> of_char c2"
  by (simp only: less_eq_char_def of_char_int of_nat_le_iff)

subsection \<open>Arrays\<close>

text \<open>\<open>[...new Set(xs)]\<close>: duplicates go, the first occurrence stays.\<close>

fun js_unique :: "'a list \<Rightarrow> 'a list" where
  "js_unique [] = []"
| "js_unique (x # xs) = x # removeAll x (js_unique xs)"

lemma set_js_unique [simp]: "set (js_unique xs) = set xs"
  by (induction xs) auto

lemma distinct_js_unique [simp]: "distinct (js_unique xs)"
  by (induction xs) (auto simp: distinct_removeAll)

lemma js_unique_distinct: "distinct xs \<Longrightarrow> js_unique xs = xs"
  by (induction xs) auto

lemma js_unique_idem [simp]: "js_unique (js_unique xs) = js_unique xs"
  by (simp add: js_unique_distinct)

lemma length_js_unique_le: "length (js_unique xs) \<le> length xs"
  by (induction xs) (auto intro: order.trans [OF length_removeAll_less_eq])

lemma js_unique_Nil_iff [simp]: "js_unique xs = [] \<longleftrightarrow> xs = []"
  by (cases xs) auto

text \<open>\<open>new Set(xs).size === xs.length\<close>.\<close>

lemma length_js_unique_eq_iff: "length (js_unique xs) = length xs \<longleftrightarrow> distinct xs"
proof (induction xs)
  case (Cons x xs)
  have le: "length (removeAll x (js_unique xs)) \<le> length (js_unique xs)"
    by simp
  show ?case
  proof (cases "x \<in> set xs")
    case True
    then have "length (removeAll x (js_unique xs)) < length (js_unique xs)"
      by (simp add: length_removeAll_less)
    with length_js_unique_le [of xs] True show ?thesis by simp
  next
    case False
    then have "removeAll x (js_unique xs) = js_unique xs" by simp
    with Cons.IH False show ?thesis by simp
  qed
qed simp

text \<open>\<open>xs.slice(-n)\<close> for \<open>n > 0\<close>: the last \<open>n\<close> elements.\<close>

definition slice_last :: "nat \<Rightarrow> 'a list \<Rightarrow> 'a list" where
  "slice_last n xs = drop (length xs - n) xs"

lemma length_slice_last_le [simp]: "length (slice_last n xs) \<le> n"
  by (simp add: slice_last_def)

lemma set_slice_last_subset: "set (slice_last n xs) \<subseteq> set xs"
  by (simp add: slice_last_def set_drop_subset)

lemma distinct_slice_last: "distinct xs \<Longrightarrow> distinct (slice_last n xs)"
  by (simp add: slice_last_def)

lemma find_Some_set: "List.find P xs = Some x \<Longrightarrow> x \<in> set xs \<and> P x"
  by (auto simp: find_Some_iff)

lemma find_None_set: "List.find P xs = None \<longleftrightarrow> (\<forall>x \<in> set xs. \<not> P x)"
  by (auto simp: find_None_iff)

lemma find_eq_Some_iff_distinct:
  assumes "distinct (map f xs)" and "x \<in> set xs"
  shows "List.find (\<lambda>y. f y = f x) xs = Some x"
  using assms by (induction xs) (auto simp: image_iff)

text \<open>Running a list of fallible computations: the first error ends it.\<close>

fun seq_all :: "('e + 'a) list \<Rightarrow> 'e + 'a list" where
  "seq_all [] = Inr []"
| "seq_all (Inl e # xs) = Inl e"
| "seq_all (Inr x # xs) = (case seq_all xs of Inl e \<Rightarrow> Inl e | Inr ys \<Rightarrow> Inr (x # ys))"

subsection \<open>Strings\<close>

abbreviation startsWith :: "string \<Rightarrow> string \<Rightarrow> bool" where
  "startsWith s p \<equiv> prefix p s"

abbreviation endsWith :: "string \<Rightarrow> string \<Rightarrow> bool" where
  "endsWith s p \<equiv> suffix p s"

text \<open>\<open>s.split(c)\<close> for a one-character separator: never empty.\<close>

fun js_split :: "char \<Rightarrow> string \<Rightarrow> string list" where
  "js_split c [] = [[]]"
| "js_split c (x # xs) =
     (if x = c then [] # js_split c xs
      else case js_split c xs of [] \<Rightarrow> [[x]] | w # ws \<Rightarrow> (x # w) # ws)"

text \<open>\<open>xs.join(sep)\<close>.\<close>

fun js_join :: "string \<Rightarrow> string list \<Rightarrow> string" where
  "js_join sep [] = []"
| "js_join sep [w] = w"
| "js_join sep (w # v # ws) = w @ sep @ js_join sep (v # ws)"

lemma js_split_not_Nil [simp]: "js_split c s \<noteq> []"
  by (induction s) (auto split: list.splits)

lemma js_split_no_sep: "c \<notin> set s \<Longrightarrow> js_split c s = [s]"
  by (induction s) auto

lemma js_split_append_sep:
  "c \<notin> set s \<Longrightarrow> js_split c (s @ c # t) = s # js_split c t"
  by (induction s) auto

lemma js_join_split: "js_join [c] (js_split c s) = s"
proof (induction s)
  case (Cons x xs)
  obtain w ws where w: "js_split c xs = w # ws"
    using js_split_not_Nil [of c xs] by (cases "js_split c xs") auto
  from Cons.IH w show ?case by (cases ws) auto
qed simp

lemma js_split_join:
  "ws \<noteq> [] \<Longrightarrow> (\<forall>w \<in> set ws. c \<notin> set w) \<Longrightarrow> js_split c (js_join [c] ws) = ws"
proof (induction "[c]" ws rule: js_join.induct)
  case (2 w)
  then show ?case by (simp add: js_split_no_sep)
next
  case (3 w v ws)
  then show ?case by (simp add: js_split_append_sep)
qed simp

text \<open>The white space \<open>trim\<close> removes, within the modelled code units.\<close>

definition js_space :: "char \<Rightarrow> bool" where
  "js_space c \<longleftrightarrow> (let n = (of_char c :: nat) in (9 \<le> n \<and> n \<le> 13) \<or> n = 32 \<or> n = 160)"

definition js_trim :: "string \<Rightarrow> string" where
  "js_trim s = rev (dropWhile js_space (rev (dropWhile js_space s)))"

lemma js_trim_Nil [simp]: "js_trim [] = []"
  by (simp add: js_trim_def)

lemma dropWhile_idem [simp]: "dropWhile P (dropWhile P xs) = dropWhile P xs"
  by (induction xs) auto

lemma hd_dropWhile_append:
  "dropWhile P xs = ys @ zs \<Longrightarrow> ys \<noteq> [] \<Longrightarrow> dropWhile P ys = ys"
  by (metis dropWhile_eq_self_iff hd_append2 hd_dropWhile append_is_Nil_conv)

lemma js_trim_idem [simp]: "js_trim (js_trim s) = js_trim s"
proof -
  define a where "a = dropWhile js_space s"
  define b where "b = rev (dropWhile js_space (rev a))"
  have t: "js_trim s = b" by (simp add: js_trim_def a_def b_def)
  have "rev a = takeWhile js_space (rev a) @ rev b" by (simp add: b_def)
  then have "a = b @ rev (takeWhile js_space (rev a))"
    by (metis rev_append rev_rev_ident)
  then have ab: "dropWhile js_space s = b @ rev (takeWhile js_space (rev a))"
    by (simp add: a_def)
  have "dropWhile js_space b = b"
  proof (cases "b = []")
    case False
    from hd_dropWhile_append [OF ab False] show ?thesis .
  qed simp
  then show ?thesis unfolding t by (simp add: js_trim_def) (simp add: b_def)
qed

subsection \<open>Decimal text\<close>

definition is_digit :: "char \<Rightarrow> bool" where
  "is_digit c \<longleftrightarrow> (let n = (of_char c :: nat) in 48 \<le> n \<and> n \<le> 57)"

definition digit_val :: "char \<Rightarrow> nat" where
  "digit_val c = of_char c - 48"

definition digit_chr :: "nat \<Rightarrow> char" where
  "digit_chr d = char_of (48 + d)"

text \<open>The value of a run of digits, and the digits of a value.\<close>

definition digits_val :: "string \<Rightarrow> nat" where
  "digits_val s = foldl (\<lambda>n c. 10 * n + digit_val c) 0 s"

fun nat_str :: "nat \<Rightarrow> string" where
  "nat_str n = (if n < 10 then [digit_chr n] else nat_str (n div 10) @ [digit_chr (n mod 10)])"

declare nat_str.simps [simp del]

definition int_str :: "int \<Rightarrow> string" where
  "int_str i = (if i < 0 then CHR ''-'' # nat_str (nat (- i)) else nat_str (nat i))"

lemma of_char_digit_chr: "d < 10 \<Longrightarrow> (of_char (digit_chr d) :: nat) = 48 + d"
  by (simp add: digit_chr_def)

lemma is_digit_digit_chr: "d < 10 \<Longrightarrow> is_digit (digit_chr d)"
  by (simp add: is_digit_def of_char_digit_chr Let_def)

lemma digit_val_digit_chr: "d < 10 \<Longrightarrow> digit_val (digit_chr d) = d"
  by (simp add: digit_val_def of_char_digit_chr)

lemma digits_val_Nil [simp]: "digits_val [] = 0"
  by (simp add: digits_val_def)

lemma digits_val_snoc [simp]: "digits_val (s @ [c]) = 10 * digits_val s + digit_val c"
  by (simp add: digits_val_def)

lemma nat_str_not_Nil [simp]: "nat_str n \<noteq> []"
  by (subst nat_str.simps) simp

lemma nat_str_digits: "c \<in> set (nat_str n) \<Longrightarrow> is_digit c"
proof (induction n rule: nat_str.induct)
  case (1 n)
  then show ?case
    by (cases "n < 10") (auto simp: nat_str.simps [of n] is_digit_digit_chr)
qed

lemma digits_val_nat_str [simp]: "digits_val (nat_str n) = n"
proof (induction n rule: nat_str.induct)
  case (1 n)
  show ?case
  proof (cases "n < 10")
    case True
    then show ?thesis
      by (simp add: nat_str.simps [of n] digits_val_def digit_val_digit_chr)
  next
    case False
    with 1 have "digits_val (nat_str (n div 10)) = n div 10" by simp
    with False show ?thesis
      by (simp add: nat_str.simps [of n] digit_val_digit_chr)
  qed
qed

lemma nat_str_inject [simp]: "nat_str m = nat_str n \<longleftrightarrow> m = n"
  by (metis digits_val_nat_str)

subsection \<open>Sorting with a comparator\<close>

text \<open>
  \<open>xs.sort(cmp)\<close>: ECMAScript requires a stable sort whenever the comparator is consistent, and
  that determines the result; it is computed here by insertion from the right, an element going
  before those it compares equal to.
\<close>

fun js_insert :: "('a \<Rightarrow> 'a \<Rightarrow> int) \<Rightarrow> 'a \<Rightarrow> 'a list \<Rightarrow> 'a list" where
  "js_insert cmp x [] = [x]"
| "js_insert cmp x (y # ys) = (if cmp x y \<le> 0 then x # y # ys else y # js_insert cmp x ys)"

fun js_sort :: "('a \<Rightarrow> 'a \<Rightarrow> int) \<Rightarrow> 'a list \<Rightarrow> 'a list" where
  "js_sort cmp [] = []"
| "js_sort cmp (x # xs) = js_insert cmp x (js_sort cmp xs)"

abbreviation sorted_by :: "('a \<Rightarrow> 'a \<Rightarrow> int) \<Rightarrow> 'a list \<Rightarrow> bool" where
  "sorted_by cmp \<equiv> sorted_wrt (\<lambda>a b. cmp a b \<le> 0)"

lemma mset_js_insert [simp]: "mset (js_insert cmp x xs) = add_mset x (mset xs)"
  by (induction xs) auto

lemma mset_js_sort [simp]: "mset (js_sort cmp xs) = mset xs"
  by (induction xs) auto

lemma set_js_insert [simp]: "set (js_insert cmp x xs) = insert x (set xs)"
  by (induction xs) auto

lemma set_js_sort [simp]: "set (js_sort cmp xs) = set xs"
  by (induction xs) auto

lemma length_js_sort [simp]: "length (js_sort cmp xs) = length xs"
  by (metis mset_js_sort size_mset)

lemma distinct_js_sort [simp]: "distinct (js_sort cmp xs) = distinct xs"
  by (metis mset_eq_imp_distinct_iff mset_js_sort)

lemma distinct_map_js_sort [simp]: "distinct (map f (js_sort cmp xs)) = distinct (map f xs)"
  by (metis mset_eq_imp_distinct_iff mset_js_sort mset_map)

lemma js_sort_Nil_iff [simp]: "js_sort cmp xs = [] \<longleftrightarrow> xs = []"
  by (metis length_0_conv length_js_sort)

text \<open>
  What \<open>sort\<close> needs of a comparator: on the elements satisfying \<open>ok\<close> it is reflexive, swapping
  the arguments swaps the sign, and \<open>\<le> 0\<close> is transitive.
\<close>

locale comparator =
  fixes cmp :: "'a \<Rightarrow> 'a \<Rightarrow> int" and ok :: "'a \<Rightarrow> bool"
  assumes swap: "ok x \<Longrightarrow> ok y \<Longrightarrow> sgn (cmp y x) = - sgn (cmp x y)"
    and le_trans: "ok x \<Longrightarrow> ok y \<Longrightarrow> ok z \<Longrightarrow> cmp x y \<le> 0 \<Longrightarrow> cmp y z \<le> 0 \<Longrightarrow> cmp x z \<le> 0"
begin

lemma total: "ok x \<Longrightarrow> ok y \<Longrightarrow> cmp x y \<le> 0 \<or> cmp y x \<le> 0"
  using swap [of x y] by (auto simp: sgn_if split: if_splits)

lemma refl_zero: "ok x \<Longrightarrow> cmp x x = 0"
  using swap [of x x] by (auto simp: sgn_if split: if_splits)

lemma not_le: "ok x \<Longrightarrow> ok y \<Longrightarrow> \<not> cmp x y \<le> 0 \<Longrightarrow> cmp y x \<le> 0"
  using total by blast

lemma sorted_js_insert:
  assumes "ok x" and "\<forall>y \<in> set ys. ok y" and "sorted_by cmp ys"
  shows "sorted_by cmp (js_insert cmp x ys)"
  using assms
proof (induction ys)
  case (Cons y ys)
  show ?case
  proof (cases "cmp x y \<le> 0")
    case True
    with Cons.prems have "\<forall>z \<in> set ys. cmp x z \<le> 0"
      using le_trans [of x y] by fastforce
    with True Cons.prems show ?thesis by simp
  next
    case False
    with Cons.prems have "cmp y x \<le> 0" using not_le by simp
    with Cons False show ?thesis by simp
  qed
qed simp

lemma sorted_js_sort:
  "(\<forall>x \<in> set xs. ok x) \<Longrightarrow> sorted_by cmp (js_sort cmp xs)"
  by (induction xs) (simp_all add: sorted_js_insert)

lemma js_insert_min:
  "(\<forall>y \<in> set ys. cmp x y \<le> 0) \<Longrightarrow> js_insert cmp x ys = x # ys"
  by (cases ys) auto

lemma js_sort_sorted: "sorted_by cmp xs \<Longrightarrow> js_sort cmp xs = xs"
  by (induction xs) (auto simp: js_insert_min)

end

text \<open>A comparator that tells any two different elements apart: sorting forgets the input order.\<close>

locale strict_comparator = comparator +
  assumes eq_zero: "ok x \<Longrightarrow> ok y \<Longrightarrow> cmp x y = 0 \<Longrightarrow> x = y"
begin

lemma antisym: "ok x \<Longrightarrow> ok y \<Longrightarrow> cmp x y \<le> 0 \<Longrightarrow> cmp y x \<le> 0 \<Longrightarrow> x = y"
  using swap [of x y] eq_zero [of x y] by (auto simp: sgn_if split: if_splits)

lemma sorted_unique:
  "sorted_by cmp xs \<Longrightarrow> sorted_by cmp ys \<Longrightarrow> mset xs = mset ys \<Longrightarrow> (\<forall>x \<in> set xs. ok x) \<Longrightarrow> xs = ys"
proof (induction xs arbitrary: ys)
  case Nil
  then show ?case by simp
next
  case (Cons x xs)
  from Cons.prems(3) obtain y ys' where ys: "ys = y # ys'"
    by (cases ys) auto
  have sets: "set (x # xs) = set ys"
    using Cons.prems(3) by (metis set_mset_mset)
  have "x = y"
  proof (rule ccontr)
    assume ne: "x \<noteq> y"
    with sets ys have "x \<in> set ys'" "y \<in> set xs" by auto
    with Cons.prems(1,2) ys have "cmp y x \<le> 0" "cmp x y \<le> 0" by auto
    moreover have "ok x" "ok y" using Cons.prems(4) \<open>y \<in> set xs\<close> by auto
    ultimately show False using antisym ne by blast
  qed
  with Cons ys show ?case by simp
qed

lemma js_sort_perm:
  "mset xs = mset ys \<Longrightarrow> (\<forall>x \<in> set xs. ok x) \<Longrightarrow> js_sort cmp xs = js_sort cmp ys"
  by (rule sorted_unique) (auto simp: sorted_js_sort dest: mset_eq_setD)

end

text \<open>
  \<open>a < b ? -1 : a > b ? 1 : 0\<close>, the comparator \<open>compareText\<close> of the matcher and the shape of the
  comparison the other sources write out.
\<close>

definition compare_lt :: "'a::linorder \<Rightarrow> 'a \<Rightarrow> int" where
  "compare_lt a b = (if a < b then - 1 else if b < a then 1 else 0)"

lemma compare_lt_zero_iff [simp]: "compare_lt a b = 0 \<longleftrightarrow> a = b"
  by (auto simp: compare_lt_def)

lemma compare_lt_le_zero_iff [simp]: "compare_lt a b \<le> 0 \<longleftrightarrow> a \<le> b"
  by (auto simp: compare_lt_def)

lemma compare_lt_neg_iff [simp]: "compare_lt a b < 0 \<longleftrightarrow> a < b"
  by (auto simp: compare_lt_def)

lemma compare_lt_swap: "compare_lt b a = - compare_lt a b"
  by (auto simp: compare_lt_def)

lemma compare_lt_key_comparator:
  "comparator (\<lambda>a b. compare_lt (f a) (f b)) (\<lambda>_. True)"
  by unfold_locales (auto simp: compare_lt_def sgn_if split: if_splits)

lemma compare_lt_key_strict_comparator:
  "inj f \<Longrightarrow> strict_comparator (\<lambda>a b. compare_lt (f a) (f b)) (\<lambda>_. True)"
  by (intro strict_comparator.intro compare_lt_key_comparator strict_comparator_axioms.intro)
     (simp add: inj_eq)

lemma compare_lt_key_strict_on:
  "inj_on f A \<Longrightarrow> strict_comparator (\<lambda>a b. compare_lt (f a) (f b)) (\<lambda>x. x \<in> A)"
  by unfold_locales (auto simp: compare_lt_def sgn_if inj_on_def split: if_splits)

interpretation lt_cmp: strict_comparator "compare_lt :: 'a::linorder \<Rightarrow> 'a \<Rightarrow> int" "\<lambda>_. True"
  by unfold_locales (auto simp: compare_lt_def sgn_if split: if_splits)

subsection \<open>Map\<close>

text \<open>
  A JavaScript \<open>Map\<close> as an association list in insertion order: setting a present key keeps its
  position. \<open>map_of\<close> is \<open>get\<close>.
\<close>

fun map_set :: "'k \<Rightarrow> 'v \<Rightarrow> ('k \<times> 'v) list \<Rightarrow> ('k \<times> 'v) list" where
  "map_set k v [] = [(k, v)]"
| "map_set k v ((k', v') # rest) = (if k = k' then (k, v) # rest else (k', v') # map_set k v rest)"

lemma map_of_map_set [simp]: "map_of (map_set k v m) = (map_of m)(k \<mapsto> v)"
  by (induction k v m rule: map_set.induct) auto

lemma keys_map_set [simp]: "fst ` set (map_set k v m) = insert k (fst ` set m)"
  by (induction k v m rule: map_set.induct) auto

lemma distinct_keys_map_set: "distinct (map fst m) \<Longrightarrow> distinct (map fst (map_set k v m))"
proof (induction k v m rule: map_set.induct)
  case (2 k v k' v' rest)
  then show ?case using keys_map_set [of k v rest] by (auto simp del: keys_map_set)
qed simp

lemma map_of_eq_mset:
  "distinct (map fst m) \<Longrightarrow> distinct (map fst m') \<Longrightarrow> map_of m = map_of m' \<Longrightarrow> mset m = mset m'"
  by (metis distinct_map map_of_inject_set set_eq_iff_mset_eq_distinct)

lemma map_of_filter_distinct:
  "distinct (map fst m) \<Longrightarrow> map_of (filter P m) k = (case map_of m k of None \<Rightarrow> None | Some v \<Rightarrow> if P (k, v) then Some v else None)"
  by (induction m) (auto simp: map_of_eq_None_iff split: option.splits dest: map_of_SomeD)

end
