(* ===== verification/Js_Number.thy ===== *)
theory Js_Number
  imports Prelude Complex_Main "HOL-Library.Log_Nat"
begin

text \<open>
  JavaScript numbers: IEEE 754 binary64 values as exact rationals, the two infinities and NaN.
  Every arithmetic operation is the exact rational result rounded to the nearest double, ties to
  even, with gradual underflow and overflow to infinity. The sign of zero is not represented.
  \<open>num_str\<close> is \<open>Number.prototype.toString\<close>: the shortest decimal text that reads back as the
  number.
\<close>

datatype jsnum = Fin rat | PInf | NInf | NaN

subsection \<open>Rounding\<close>

definition pow2 :: "int \<Rightarrow> rat" where
  "pow2 e = (if 0 \<le> e then 2 ^ nat e else 1 / 2 ^ nat (- e))"

text \<open>The binary exponent of a positive rational: \<open>2^(ilog2 m) \<le> m\<close>.\<close>

definition ilog2 :: "rat \<Rightarrow> int" where
  "ilog2 m =
     (let (p, q) = quotient_of m; e = bitlen p - bitlen q
      in if pow2 e \<le> m then e else e - 1)"

definition round_half_even :: "rat \<Rightarrow> int" where
  "round_half_even q =
     (let n = \<lfloor>q\<rfloor>; r = q - of_int n
      in if r < 1 / 2 \<or> (r = 1 / 2 \<and> even n) then n else n + 1)"

definition ulp_exp :: "rat \<Rightarrow> int" where
  "ulp_exp m = max (- 1074) (ilog2 m - 52)"

definition rnd :: "rat \<Rightarrow> jsnum" where
  "rnd x =
     (if x = 0 then Fin 0
      else let m = \<bar>x\<bar>;
               e = ulp_exp m;
               r = of_int (round_half_even (m / pow2 e)) * pow2 e
           in if pow2 1024 \<le> r then (if x > 0 then PInf else NInf)
              else Fin (sgn x * r))"

subsection \<open>Operators\<close>

fun jneg :: "jsnum \<Rightarrow> jsnum" where
  "jneg (Fin a) = Fin (- a)"
| "jneg PInf = NInf"
| "jneg NInf = PInf"
| "jneg NaN = NaN"

fun jadd :: "jsnum \<Rightarrow> jsnum \<Rightarrow> jsnum" where
  "jadd (Fin a) (Fin b) = rnd (a + b)"
| "jadd NaN _ = NaN"
| "jadd _ NaN = NaN"
| "jadd PInf NInf = NaN"
| "jadd NInf PInf = NaN"
| "jadd PInf _ = PInf"
| "jadd NInf _ = NInf"
| "jadd _ PInf = PInf"
| "jadd _ NInf = NInf"

definition jsub :: "jsnum \<Rightarrow> jsnum \<Rightarrow> jsnum" where
  "jsub a b = jadd a (jneg b)"

fun jsign :: "jsnum \<Rightarrow> int" where
  "jsign (Fin a) = (if a > 0 then 1 else if a < 0 then - 1 else 0)"
| "jsign PInf = 1"
| "jsign NInf = - 1"
| "jsign NaN = 0"

definition jinf :: "int \<Rightarrow> jsnum" where
  "jinf s = (if s > 0 then PInf else if s < 0 then NInf else NaN)"

fun jmul :: "jsnum \<Rightarrow> jsnum \<Rightarrow> jsnum" where
  "jmul (Fin a) (Fin b) = rnd (a * b)"
| "jmul NaN _ = NaN"
| "jmul _ NaN = NaN"
| "jmul a b = jinf (jsign a * jsign b)"

fun jdiv :: "jsnum \<Rightarrow> jsnum \<Rightarrow> jsnum" where
  "jdiv (Fin a) (Fin b) = (if b = 0 then jinf (jsign (Fin a)) else rnd (a / b))"
| "jdiv NaN _ = NaN"
| "jdiv _ NaN = NaN"
| "jdiv (Fin a) _ = Fin 0"
| "jdiv a (Fin b) = (if b < 0 then jneg a else a)"
| "jdiv _ _ = NaN"

fun jless :: "jsnum \<Rightarrow> jsnum \<Rightarrow> bool" where
  "jless (Fin a) (Fin b) = (a < b)"
| "jless NaN _ = False"
| "jless _ NaN = False"
| "jless PInf _ = False"
| "jless _ NInf = False"
| "jless NInf _ = True"
| "jless _ PInf = True"

definition jle :: "jsnum \<Rightarrow> jsnum \<Rightarrow> bool" where
  "jle a b \<longleftrightarrow> a \<noteq> NaN \<and> b \<noteq> NaN \<and> \<not> jless b a"

text \<open>\<open>===\<close>.\<close>

definition jeq :: "jsnum \<Rightarrow> jsnum \<Rightarrow> bool" where
  "jeq a b \<longleftrightarrow> a = b \<and> a \<noteq> NaN"

definition jmin :: "jsnum \<Rightarrow> jsnum \<Rightarrow> jsnum" where
  "jmin a b = (if a = NaN \<or> b = NaN then NaN else if jless b a then b else a)"

definition jmax :: "jsnum \<Rightarrow> jsnum \<Rightarrow> jsnum" where
  "jmax a b = (if a = NaN \<or> b = NaN then NaN else if jless a b then b else a)"

fun isFinite :: "jsnum \<Rightarrow> bool" where
  "isFinite (Fin _) = True"
| "isFinite _ = False"

abbreviation jnat :: "nat \<Rightarrow> jsnum" where
  "jnat n \<equiv> Fin (of_nat n)"

text \<open>The schema's number checks; \<open>z.number()\<close> itself rejects NaN and the infinities.\<close>

definition z_positive :: "jsnum \<Rightarrow> bool" where
  "z_positive n \<longleftrightarrow> isFinite n \<and> jless (Fin 0) n"

definition z_nonnegative :: "jsnum \<Rightarrow> bool" where
  "z_nonnegative n \<longleftrightarrow> isFinite n \<and> jle (Fin 0) n"

lemma isFinite_iff: "isFinite n \<longleftrightarrow> (\<exists>a. n = Fin a)"
  by (cases n) auto

lemma jless_NaN [simp]: "\<not> jless x NaN"
  by (cases x) auto

lemma jless_irrefl [simp]: "\<not> jless a a"
  by (cases a) auto

lemma jless_trans: "jless a b \<Longrightarrow> jless b c \<Longrightarrow> jless a c"
  by (cases a; cases b; cases c) auto

lemma jle_Fin [simp]: "jle (Fin a) (Fin b) \<longleftrightarrow> a \<le> b"
  by (auto simp: jle_def)

lemma not_jless_Fin: "isFinite a \<Longrightarrow> isFinite b \<Longrightarrow> \<not> jless a b \<longleftrightarrow> jle b a"
  by (auto simp: isFinite_iff)

subsection \<open>The grid of the subnormal numbers\<close>

text \<open>
  Every double is an integer multiple of \<open>2^(-1074)\<close>, so the difference of two of them never
  rounds to zero unless they are equal. \<open>a - b || \<dots>\<close> in a comparator relies on it.
\<close>

definition grid :: "rat \<Rightarrow> bool" where
  "grid x \<longleftrightarrow> (\<exists>k::int. x = of_int k * pow2 (- 1074))"

lemma pow2_pos [simp]: "0 < pow2 e"
  by (simp add: pow2_def)

lemma pow2_nonneg [simp]: "0 \<le> pow2 e"
  by (simp add: less_imp_le)

lemma pow2_neq_0 [simp]: "pow2 e \<noteq> 0"
  using pow2_pos [of e] by linarith

lemma pow2_powi: "pow2 e = 2 powi e"
  by (simp add: pow2_def power_int_def inverse_eq_divide power_one_over)

lemma pow2_add: "pow2 (a + b) = pow2 a * pow2 b"
  by (simp add: pow2_powi power_int_add)

lemma pow2_nat: "0 \<le> e \<Longrightarrow> pow2 e = of_int (2 ^ nat e)"
  by (simp add: pow2_def)

lemma pow2_le_mono: "a \<le> b \<Longrightarrow> pow2 a \<le> pow2 b"
  by (simp add: pow2_powi power_int_increasing)

lemma ilog2_lower: "0 < m \<Longrightarrow> pow2 (ilog2 m) \<le> m"
proof -
  assume m: "0 < m"
  obtain p q where pq: "quotient_of m = (p, q)" by (metis surj_pair)
  have q: "0 < q" using quotient_of_denom_pos [OF pq] .
  have mp: "m = of_int p / of_int q" using quotient_of_div [OF pq] .
  with m q have p: "0 < p" by (simp add: zero_less_divide_iff)
  have bp: "2 ^ nat (bitlen p - 1) \<le> p" and bq: "q < 2 ^ nat (bitlen q)"
    using bitlen_bounds p q by auto
  have "p < 2 ^ nat (bitlen p)" using bitlen_bounds p by blast
  then have l: "1 \<le> bitlen p" "0 \<le> bitlen q"
    using p bitlen_nonneg [of p] bitlen_nonneg [of q] by (cases "bitlen p = 0"; force)+
  have "pow2 (bitlen p - 1) \<le> of_int p"
    using bp l by (subst pow2_nat) (auto simp: of_int_le_iff)
  moreover have "of_int q \<le> pow2 (bitlen q)"
    using bq l by (subst pow2_nat) (auto simp: of_int_le_iff less_imp_le)
  ultimately have "pow2 (bitlen p - 1) / pow2 (bitlen q) \<le> m"
    unfolding mp using q p by (intro frac_le) auto
  moreover have "pow2 (bitlen p - 1) / pow2 (bitlen q) = pow2 (bitlen p - bitlen q - 1)"
    using pow2_add [of "bitlen p - bitlen q - 1" "bitlen q"] by (simp add: algebra_simps)
  ultimately have "pow2 (bitlen p - bitlen q - 1) \<le> m" by simp
  then show ?thesis by (simp add: ilog2_def pq Let_def)
qed

lemma round_half_even_of_int [simp]: "round_half_even (of_int n) = n"
  by (simp add: round_half_even_def)

lemma round_half_even_ge: "of_int n \<le> q \<Longrightarrow> n \<le> round_half_even q"
proof -
  assume "of_int n \<le> q"
  then have "n \<le> \<lfloor>q\<rfloor>" by (simp add: le_floor_iff)
  then show ?thesis by (auto simp: round_half_even_def Let_def)
qed

lemma grid_pow2_mult: "- 1074 \<le> e \<Longrightarrow> grid (of_int n * pow2 e)"
proof -
  assume e: "- 1074 \<le> e"
  have "pow2 e = of_int (2 ^ nat (e + 1074)) * pow2 (- 1074)"
    using pow2_add [of "e + 1074" "- 1074"] e by (simp add: pow2_nat)
  then have "of_int n * pow2 e = of_int (n * 2 ^ nat (e + 1074)) * pow2 (- 1074)"
    by simp
  then show ?thesis unfolding grid_def by blast
qed

lemma grid_0 [simp]: "grid 0"
  unfolding grid_def by (rule exI [of _ 0]) simp

lemma grid_uminus: "grid x \<Longrightarrow> grid (- x)"
  unfolding grid_def by (metis mult_minus_left of_int_minus)

lemma grid_add: "grid x \<Longrightarrow> grid y \<Longrightarrow> grid (x + y)"
  unfolding grid_def by (metis distrib_right of_int_add)

lemma grid_sgn: "grid x \<Longrightarrow> grid (sgn y * x)"
  by (auto simp: sgn_if grid_uminus)

lemma rnd_grid: "rnd x = Fin r \<Longrightarrow> grid r"
  by (auto simp: rnd_def Let_def ulp_exp_def intro!: grid_sgn grid_pow2_mult split: if_splits)

lemma round_positive:
  assumes "grid m" and "0 < m"
  shows "0 < round_half_even (m / pow2 (ulp_exp m))"
proof (cases "ilog2 m - 52 \<le> - 1074")
  case True
  then have e: "ulp_exp m = - 1074" by (simp add: ulp_exp_def)
  from assms(1) obtain k where k: "m = of_int k * pow2 (- 1074)" unfolding grid_def by blast
  have "m / pow2 (ulp_exp m) = of_int k" unfolding e by (simp add: k)
  moreover have "0 < k" using assms(2) k pow2_pos [of "- 1074"] by (simp add: zero_less_mult_iff order_less_not_sym)
  ultimately show ?thesis by simp
next
  case False
  then have "pow2 (ulp_exp m) \<le> pow2 (ilog2 m)"
    by (intro pow2_le_mono) (simp add: ulp_exp_def)
  also have "\<dots> \<le> m" using assms(2) by (rule ilog2_lower)
  finally have "of_int 1 \<le> m / pow2 (ulp_exp m)" by simp
  then have "1 \<le> round_half_even (m / pow2 (ulp_exp m))" by (rule round_half_even_ge)
  then show ?thesis by simp
qed

lemma jsign_rnd:
  assumes "grid x"
  shows "jsign (rnd x) = (if x > 0 then 1 else if x < 0 then - 1 else 0)"
proof (cases "x = 0")
  case False
  have "grid \<bar>x\<bar>" using assms grid_uminus by (simp add: abs_if)
  define r where "r = of_int (round_half_even (\<bar>x\<bar> / pow2 (ulp_exp \<bar>x\<bar>))) * pow2 (ulp_exp \<bar>x\<bar>)"
  have "0 < r"
    using round_positive [OF \<open>grid \<bar>x\<bar>\<close>] False unfolding r_def by simp
  moreover have "rnd x = (if pow2 1024 \<le> r then (if x > 0 then PInf else NInf) else Fin (sgn x * r))"
    using False by (simp only: rnd_def r_def Let_def if_False)
  ultimately show ?thesis using False by (auto simp: sgn_if)
qed (simp add: rnd_def)

text \<open>A finite double, as the arithmetic produces them.\<close>

fun double :: "jsnum \<Rightarrow> bool" where
  "double (Fin a) = grid a"
| "double _ = False"

lemma jsign_jsub:
  assumes "grid a" and "grid b"
  shows "jsign (jsub (Fin a) (Fin b)) = (if b < a then 1 else if a < b then - 1 else 0)"
  using jsign_rnd [of "a - b"] grid_add [OF assms(1) grid_uminus [OF assms(2)]]
  by (simp add: jsub_def)

lemma double_jadd: "isFinite (jadd a b) \<Longrightarrow> double (jadd a b)"
  by (cases a; cases b) (auto simp: isFinite_iff rnd_grid)

lemma double_foldl_jadd:
  "isFinite (foldl jadd (Fin 0) xs) \<Longrightarrow> double (foldl jadd (Fin 0) xs)"
  by (cases xs rule: rev_cases) (auto intro: double_jadd)

subsection \<open>Decimal text of a number\<close>

definition pow10 :: "int \<Rightarrow> rat" where
  "pow10 e = (if 0 \<le> e then 10 ^ nat e else 1 / 10 ^ nat (- e))"

text \<open>The \<open>n\<close> with \<open>10^(n-1) \<le> x < 10^n\<close>.\<close>

definition dec_exp :: "rat \<Rightarrow> int" where
  "dec_exp x =
     (let (p, q) = quotient_of x; d = int (length (nat_str (nat p))) - int (length (nat_str (nat q)))
      in if pow10 d \<le> x then d + 1 else d)"

text \<open>The significand of \<open>k\<close> digits that reads back as \<open>x\<close>, if there is one.\<close>

definition short_digits :: "rat \<Rightarrow> nat \<Rightarrow> nat option" where
  "short_digits x k =
     (let n = dec_exp x; scale = pow10 (n - int k); q = x / scale; lo = \<lfloor>q\<rfloor>;
          good = (\<lambda>s. 10 ^ (k - 1) \<le> s \<and> s < (10::int) ^ k \<and> rnd (of_int s * scale) = Fin x)
      in if good lo \<and> good (lo + 1)
           then Some (nat (if q - of_int lo \<le> of_int (lo + 1) - q then lo else lo + 1))
         else if good lo then Some (nat lo)
         else if good (lo + 1) then Some (nat (lo + 1))
         else None)"

definition pos_str :: "rat \<Rightarrow> string" where
  "pos_str x =
     (let n = dec_exp x;
          s = (case List.find (\<lambda>k. short_digits x k \<noteq> None) [1..<18] of
                 Some k \<Rightarrow> the (short_digits x k)
               | None \<Rightarrow> nat \<lfloor>x / pow10 (n - 17)\<rfloor>);
          ds = nat_str s; k = int (length ds)
      in if k \<le> n \<and> n \<le> 21 then ds @ replicate (nat (n - k)) (CHR ''0'')
         else if 0 < n \<and> n \<le> 21 then take (nat n) ds @ ''.'' @ drop (nat n) ds
         else if - 6 < n \<and> n \<le> 0 then ''0.'' @ replicate (nat (- n)) (CHR ''0'') @ ds
         else (let e = n - 1;
                   tail = ''e'' @ (if e < 0 then ''-'' else ''+'') @ nat_str (nat \<bar>e\<bar>)
               in if k = 1 then ds @ tail else take 1 ds @ ''.'' @ drop 1 ds @ tail))"

fun num_str :: "jsnum \<Rightarrow> string" where
  "num_str (Fin x) =
     (if x = 0 then ''0'' else if x < 0 then CHR ''-'' # pos_str (- x) else pos_str x)"
| "num_str PInf = ''Infinity''"
| "num_str NInf = ''-Infinity''"
| "num_str NaN = ''NaN''"

lemma rnd_exact:
  assumes k: "\<bar>k\<bar> < 2 ^ 53" and e: "- 1074 \<le> e" "e \<le> 971"
  shows "rnd (of_int k * pow2 e) = Fin (of_int k * pow2 e)"
proof (cases "k = 0")
  case False
  define m where "m = of_int \<bar>k\<bar> * pow2 e"
  have m0: "0 < m" using False by (simp add: m_def)
  have "(of_int \<bar>k\<bar> :: rat) < of_int (2 ^ 53)" using k by (simp only: of_int_less_iff)
  then have "of_int \<bar>k\<bar> < pow2 53" by (simp add: pow2_def)
  then have "m < pow2 53 * pow2 e" unfolding m_def by (rule mult_strict_right_mono) simp
  then have lt: "m < pow2 (53 + e)" by (simp add: pow2_add)
  have "ilog2 m < 53 + e"
  proof (rule ccontr)
    assume "\<not> ?thesis"
    then have "pow2 (53 + e) \<le> pow2 (ilog2 m)" by (intro pow2_le_mono) simp
    with ilog2_lower [OF m0] lt show False by linarith
  qed
  then have u: "ulp_exp m \<le> e" using e by (simp add: ulp_exp_def)
  have "pow2 e = of_int (2 ^ nat (e - ulp_exp m)) * pow2 (ulp_exp m)"
    using pow2_add [of "e - ulp_exp m" "ulp_exp m"] u by (simp add: pow2_nat)
  then have "m = of_int (\<bar>k\<bar> * 2 ^ nat (e - ulp_exp m)) * pow2 (ulp_exp m)"
    by (metis m_def mult.assoc of_int_mult)
  then have "m / pow2 (ulp_exp m) = of_int (\<bar>k\<bar> * 2 ^ nat (e - ulp_exp m))"
    by (metis nonzero_divide_eq_eq pow2_neq_0)
  then have r: "of_int (round_half_even (m / pow2 (ulp_exp m))) * pow2 (ulp_exp m) = m"
    by (metis nonzero_divide_eq_eq pow2_neq_0 round_half_even_of_int)
  have "pow2 (53 + e) \<le> pow2 1024" using e by (intro pow2_le_mono) simp
  with lt have nov: "\<not> pow2 1024 \<le> m" by linarith
  have x: "\<bar>of_int k * pow2 e\<bar> = m" by (simp add: m_def abs_mult)
  have "of_int k * pow2 e \<noteq> 0" using False by simp
  then have "rnd (of_int k * pow2 e) = Fin (sgn (of_int k * pow2 e) * m)"
    using nov by (simp only: rnd_def Let_def x r if_False)
  then show ?thesis by (metis x mult_sgn_abs)
qed (simp add: rnd_def)

text \<open>Rounding leaves small dyadic fractions alone; evaluation uses this before the general case.\<close>

definition rnd_general :: "rat \<Rightarrow> jsnum" where
  "rnd_general x =
     (if x = 0 then Fin 0
      else let m = \<bar>x\<bar>;
               e = ulp_exp m;
               r = of_int (round_half_even (m / pow2 e)) * pow2 e
           in if pow2 1024 \<le> r then (if x > 0 then PInf else NInf)
              else Fin (sgn x * r))"

lemma rnd_code [code]:
  "rnd x =
     (let (p, q) = quotient_of x
      in if \<bar>p\<bar> < 8589934592 \<and> 1048576 mod q = 0 then Fin x else rnd_general x)"
proof -
  obtain p q where pq: "quotient_of x = (p, q)" by (metis surj_pair)
  have "rnd x = Fin x" if b: "\<bar>p\<bar> < 8589934592" "1048576 mod q = 0"
  proof -
    have q: "0 < q" using quotient_of_denom_pos [OF pq] .
    from b(2) obtain d where d: "1048576 = q * d" by (metis dvd_def mod_0_imp_dvd)
    have d': "0 < d" "d \<le> 1048576"
    proof -
      show "0 < d" using d q zero_less_mult_pos [of q d] by simp
      then show "d \<le> 1048576" using d q mult_right_mono [of 1 q d] by simp
    qed
    have "\<bar>p * d\<bar> = \<bar>p\<bar> * d" using d' by (simp add: abs_mult)
    also have "\<dots> < 8589934592 * 1048576"
      using b(1) d' by (intro mult_less_le_imp_less) auto
    finally have k: "\<bar>p * d\<bar> < 2 ^ 53" by simp
    have "x = of_int p / of_int q" using quotient_of_div [OF pq] .
    also have "\<dots> = of_int (p * d) / of_int (q * d)" using d' by simp
    also have "\<dots> = of_int (p * d) * pow2 (- 20)" unfolding d [symmetric] by (simp add: pow2_def)
    finally show ?thesis using rnd_exact [OF k, of "- 20"] by simp
  qed
  then show ?thesis by (simp add: pq rnd_def rnd_general_def)
qed


text \<open>Powers of two by squaring, for evaluation.\<close>

primrec pow2_num :: "num \<Rightarrow> int" where
  "pow2_num num.One = 2"
| "pow2_num (num.Bit0 n) = (let a = pow2_num n in a * a)"
| "pow2_num (num.Bit1 n) = (let a = pow2_num n in 2 * (a * a))"

lemma pow2_num: "pow2_num n = 2 ^ nat_of_num n"
  by (induction n) (simp_all add: Let_def power_add)

lemma pow2_code [code]:
  "pow2 0 = 1"
  "pow2 (Int.Pos n) = of_int (pow2_num n)"
  "pow2 (Int.Neg n) = 1 / of_int (pow2_num n)"
  by (simp_all add: pow2_def pow2_num nat_of_num_numeral)

end
