(* ===== verification/Regexp.thy ===== *)
theory Regexp
  imports Prelude
begin

text \<open>
  The regular expressions the sources test strings against. \<open>ends\<close> computes every position at
  which a match that starts at a given position can stop; \<open>RegExp.prototype.test\<close> only asks
  whether there is one, so the order in which a backtracking engine would try them is irrelevant.
  The computation is proved equal to the relational semantics \<open>rx_match\<close>, and, for expressions
  without a word boundary, to the usual language of a regular expression.
\<close>

datatype rx =
    Eps
  | Cls "char \<Rightarrow> bool"
  | Seq rx rx
  | Alt rx rx
  | Star rx
  | WordB

subsection \<open>Matching\<close>

text \<open>\<open>\w\<close> and \<open>\b\<close>.\<close>

definition word_char :: "char \<Rightarrow> bool" where
  "word_char c \<longleftrightarrow>
     (let n = (of_char c :: nat) in
      (48 \<le> n \<and> n \<le> 57) \<or> (65 \<le> n \<and> n \<le> 90) \<or> (97 \<le> n \<and> n \<le> 122) \<or> n = 95)"

definition word_at :: "string \<Rightarrow> nat \<Rightarrow> bool" where
  "word_at s i \<longleftrightarrow> i < length s \<and> word_char (s ! i)"

definition word_boundary :: "string \<Rightarrow> nat \<Rightarrow> bool" where
  "word_boundary s i \<longleftrightarrow> (i > 0 \<and> word_at s (i - 1)) \<noteq> word_at s i"

fun star_ends :: "(nat \<Rightarrow> nat list) \<Rightarrow> nat \<Rightarrow> nat \<Rightarrow> nat list" where
  "star_ends f 0 i = [i]"
| "star_ends f (Suc n) i =
     remdups (i # concat (map (star_ends f n) (filter (\<lambda>j. i < j) (f i))))"

fun ends :: "rx \<Rightarrow> string \<Rightarrow> nat \<Rightarrow> nat list" where
  "ends Eps s i = [i]"
| "ends (Cls P) s i = (if i < length s \<and> P (s ! i) then [Suc i] else [])"
| "ends (Seq a b) s i = remdups (concat (map (ends b s) (ends a s i)))"
| "ends (Alt a b) s i = remdups (ends a s i @ ends b s i)"
| "ends (Star a) s i = star_ends (ends a s) (length s - i) i"
| "ends WordB s i = (if word_boundary s i then [i] else [])"

text \<open>\<open>/^r$/.test(s)\<close> and the unanchored \<open>/r/.test(s)\<close>.\<close>

definition rx_full :: "rx \<Rightarrow> string \<Rightarrow> bool" where
  "rx_full r s \<longleftrightarrow> length s \<in> set (ends r s 0)"

definition rx_search :: "rx \<Rightarrow> string \<Rightarrow> bool" where
  "rx_search r s \<longleftrightarrow> list_ex (\<lambda>i. ends r s i \<noteq> []) [0..<Suc (length s)]"

subsection \<open>Building blocks\<close>

definition Plus :: "rx \<Rightarrow> rx" where
  "Plus r = Seq r (Star r)"

definition Opt :: "rx \<Rightarrow> rx" where
  "Opt r = Alt r Eps"

definition Chr :: "char \<Rightarrow> rx" where
  "Chr c = Cls (\<lambda>x. x = c)"

fun Lit :: "string \<Rightarrow> rx" where
  "Lit [] = Eps"
| "Lit (c # cs) = Seq (Chr c) (Lit cs)"

fun Seqs :: "rx list \<Rightarrow> rx" where
  "Seqs [] = Eps"
| "Seqs [r] = r"
| "Seqs (r # rs) = Seq r (Seqs rs)"

fun Alts :: "rx list \<Rightarrow> rx" where
  "Alts [] = Cls (\<lambda>_. False)"
| "Alts [r] = r"
| "Alts (r # rs) = Alt r (Alts rs)"

fun Times :: "nat \<Rightarrow> rx \<Rightarrow> rx" where
  "Times 0 r = Eps"
| "Times (Suc n) r = Seq r (Times n r)"

text \<open>\<open>r{0,n}\<close>.\<close>

fun UpTo :: "nat \<Rightarrow> rx \<Rightarrow> rx" where
  "UpTo 0 r = Eps"
| "UpTo (Suc n) r = Opt (Seq r (UpTo n r))"

definition between :: "char \<Rightarrow> char \<Rightarrow> char \<Rightarrow> bool" where
  "between lo hi c \<longleftrightarrow> lo \<le> c \<and> c \<le> hi"

definition lower :: "char \<Rightarrow> bool" where
  "lower = between (CHR ''a'') (CHR ''z'')"

definition upper :: "char \<Rightarrow> bool" where
  "upper = between (CHR ''A'') (CHR ''Z'')"

definition digit :: "char \<Rightarrow> bool" where
  "digit = between (CHR ''0'') (CHR ''9'')"

definition one_of :: "string \<Rightarrow> char \<Rightarrow> bool" where
  "one_of s c \<longleftrightarrow> c \<in> set s"

lemma digit_is_digit [simp]: "digit = is_digit"
  by (rule ext) (simp add: digit_def between_def is_digit_def Let_def less_eq_char_def)

subsection \<open>What a match is\<close>

inductive rx_match :: "string \<Rightarrow> rx \<Rightarrow> nat \<Rightarrow> nat \<Rightarrow> bool" for s where
  Eps: "rx_match s Eps i i"
| Cls: "i < length s \<Longrightarrow> P (s ! i) \<Longrightarrow> rx_match s (Cls P) i (Suc i)"
| Seq: "rx_match s a i k \<Longrightarrow> rx_match s b k j \<Longrightarrow> rx_match s (Seq a b) i j"
| AltL: "rx_match s a i j \<Longrightarrow> rx_match s (Alt a b) i j"
| AltR: "rx_match s b i j \<Longrightarrow> rx_match s (Alt a b) i j"
| StarNil: "rx_match s (Star a) i i"
| StarStep: "rx_match s a i k \<Longrightarrow> rx_match s (Star a) k j \<Longrightarrow> rx_match s (Star a) i j"
| WordB: "word_boundary s i \<Longrightarrow> rx_match s WordB i i"

inductive_cases rx_match_EpsE [elim!]: "rx_match s Eps i j"
inductive_cases rx_match_ClsE [elim!]: "rx_match s (Cls P) i j"
inductive_cases rx_match_SeqE [elim!]: "rx_match s (Seq a b) i j"
inductive_cases rx_match_AltE [elim!]: "rx_match s (Alt a b) i j"
inductive_cases rx_match_StarE: "rx_match s (Star a) i j"
inductive_cases rx_match_WordBE [elim!]: "rx_match s WordB i j"

lemma rx_match_mono: "rx_match s r i j \<Longrightarrow> i \<le> j"
  by (induction rule: rx_match.induct) auto

lemma rx_match_bound: "rx_match s r i j \<Longrightarrow> i \<le> length s \<Longrightarrow> j \<le> length s"
  by (induction rule: rx_match.induct) auto

lemma set_star_ends_Suc:
  "set (star_ends f (Suc n) i) = insert i (\<Union>k \<in> {k \<in> set (f i). i < k}. set (star_ends f n k))"
  by (simp only: star_ends.simps set_remdups) auto

lemma star_ends_sound:
  assumes "\<And>i j. j \<in> set (f i) \<Longrightarrow> rx_match s a i j"
  shows "j \<in> set (star_ends f n i) \<Longrightarrow> rx_match s (Star a) i j"
proof (induction n arbitrary: i)
  case (Suc n)
  then show ?case
    unfolding set_star_ends_Suc by (auto intro: rx_match.StarNil rx_match.StarStep assms)
qed (auto intro: rx_match.StarNil)

lemma ends_sound: "j \<in> set (ends r s i) \<Longrightarrow> rx_match s r i j"
proof (induction r arbitrary: i j)
  case (Seq a b)
  then show ?case by (auto intro!: rx_match.Seq)
next
  case (Star r)
  then show ?case by (auto intro: star_ends_sound)
qed (auto intro: rx_match.intros split: if_splits)

text \<open>An iteration that consumes nothing can be left out.\<close>

lemma rx_match_Star_progress:
  assumes "rx_match s (Star a) i j"
  shows "i = j \<or> (\<exists>k. i < k \<and> rx_match s a i k \<and> rx_match s (Star a) k j)"
  using assms
proof (induction "Star a" i j rule: rx_match.induct)
  case (StarStep i k j)
  then show ?case
    using rx_match_mono [OF StarStep.hyps(1)] by (cases "i = k") auto
qed auto

lemma star_ends_complete:
  assumes f: "\<And>i j. i \<le> length s \<Longrightarrow> rx_match s a i j \<Longrightarrow> j \<in> set (f i)"
  shows "rx_match s (Star a) i j \<Longrightarrow> i \<le> length s \<Longrightarrow> length s - i \<le> n \<Longrightarrow> j \<in> set (star_ends f n i)"
proof (induction n arbitrary: i)
  case 0
  then have "i = length s" by simp
  moreover have "i \<le> j" "j \<le> length s"
    using rx_match_mono rx_match_bound 0 by blast+
  ultimately show ?case by simp
next
  case (Suc n)
  from rx_match_Star_progress [OF Suc.prems(1)] show ?case
  proof (elim disjE exE conjE)
    fix k
    assume k: "i < k" "rx_match s a i k" "rx_match s (Star a) k j"
    have "k \<le> length s" using k Suc.prems rx_match_bound by blast
    moreover from this k Suc.prems have "j \<in> set (star_ends f n k)"
      by (intro Suc.IH) auto
    moreover have "k \<in> set (f i)" using f k Suc.prems by blast
    ultimately show ?thesis unfolding set_star_ends_Suc using k(1) by blast
  qed (simp add: set_star_ends_Suc del: star_ends.simps)
qed

lemma ends_complete: "rx_match s r i j \<Longrightarrow> i \<le> length s \<Longrightarrow> j \<in> set (ends r s i)"
proof (induction r arbitrary: i j)
  case (Seq a b)
  then show ?case by (auto dest: rx_match_bound) (meson rx_match_bound)
next
  case (Star r)
  then have "\<And>i j. i \<le> length s \<Longrightarrow> rx_match s r i j \<Longrightarrow> j \<in> set (ends r s i)" by blast
  from star_ends_complete [of s r "ends r s", OF this] Star.prems show ?case by simp
qed auto

lemma ends_iff: "i \<le> length s \<Longrightarrow> j \<in> set (ends r s i) \<longleftrightarrow> rx_match s r i j"
  using ends_sound ends_complete by blast

lemma rx_search_iff: "rx_search r s \<longleftrightarrow> (\<exists>i j. i \<le> length s \<and> rx_match s r i j)"
proof
  assume "rx_search r s"
  then obtain i where "i < Suc (length s)" "ends r s i \<noteq> []"
    unfolding rx_search_def list_ex_iff set_upt by auto
  then show "\<exists>i j. i \<le> length s \<and> rx_match s r i j"
    using ends_sound by (metis less_Suc_eq_le list.set_intros(1) neq_Nil_conv)
next
  assume "\<exists>i j. i \<le> length s \<and> rx_match s r i j"
  then show "rx_search r s"
    unfolding rx_search_def list_ex_iff set_upt using ends_complete
    by (metis atLeastLessThan_iff empty_iff empty_set less_Suc_eq_le zero_le)
qed

subsection \<open>Languages\<close>

inductive_set star_lang :: "string set \<Rightarrow> string set" for L where
  star_Nil: "[] \<in> star_lang L"
| star_app: "u \<in> L \<Longrightarrow> v \<in> star_lang L \<Longrightarrow> u @ v \<in> star_lang L"

fun lang :: "rx \<Rightarrow> string set" where
  "lang Eps = {[]}"
| "lang (Cls P) = {[c] | c. P c}"
| "lang (Seq a b) = {u @ v | u v. u \<in> lang a \<and> v \<in> lang b}"
| "lang (Alt a b) = lang a \<union> lang b"
| "lang (Star a) = star_lang (lang a)"
| "lang WordB = {}"

fun no_boundary :: "rx \<Rightarrow> bool" where
  "no_boundary (Seq a b) = (no_boundary a \<and> no_boundary b)"
| "no_boundary (Alt a b) = (no_boundary a \<and> no_boundary b)"
| "no_boundary (Star a) = no_boundary a"
| "no_boundary WordB = False"
| "no_boundary _ = True"

definition sub :: "string \<Rightarrow> nat \<Rightarrow> nat \<Rightarrow> string" where
  "sub s i j = drop i (take j s)"

lemma sub_self [simp]: "sub s i i = []"
  by (simp add: sub_def)

lemma sub_full [simp]: "sub s 0 (length s) = s"
  by (simp add: sub_def)

lemma sub_append:
  assumes "i \<le> k" and "k \<le> j"
  shows "sub s i k @ sub s k j = sub s i j"
proof -
  have "take j s = take k s @ drop k (take j s)"
    using assms(2) by (metis append_take_drop_id min.absorb1 take_take)
  then have "drop i (take j s) = drop i (take k s) @ drop (i - length (take k s)) (drop k (take j s))"
    by (metis drop_append)
  moreover have "drop (i - length (take k s)) (drop k (take j s)) = drop k (take j s)"
    using assms(1) by (cases "k \<le> length s") auto
  ultimately show ?thesis by (simp add: sub_def)
qed

lemma rx_match_lang: "rx_match s r i j \<Longrightarrow> no_boundary r \<Longrightarrow> sub s i j \<in> lang r"
proof (induction rule: rx_match.induct)
  case (Cls i P)
  then show ?case by (simp add: sub_def take_Suc_conv_app_nth)
next
  case (Seq a i k b j)
  then have "sub s i j = sub s i k @ sub s k j"
    by (simp add: sub_append rx_match_mono)
  with Seq show ?case by auto
next
  case (StarStep a i k j)
  then have "sub s i j = sub s i k @ sub s k j"
    by (simp add: sub_append rx_match_mono)
  with StarStep show ?case by (auto intro: star_lang.intros)
qed (auto intro: star_lang.intros)

lemma lang_rx_match:
  "no_boundary r \<Longrightarrow> u \<in> lang r \<Longrightarrow> rx_match (p @ u @ t) r (length p) (length p + length u)"
proof (induction r arbitrary: p u t)
  case (Seq a b)
  then obtain v w where u: "u = v @ w" "v \<in> lang a" "w \<in> lang b" by auto
  have "rx_match (p @ v @ w @ t) a (length p) (length p + length v)"
    using Seq u by simp
  moreover have "rx_match ((p @ v) @ w @ t) b (length (p @ v)) (length (p @ v) + length w)"
    using Seq u by (intro Seq.IH(2)) auto
  ultimately show ?case unfolding u by (auto intro: rx_match.Seq simp: add.assoc)
next
  case (Star a)
  from Star.prems(2) have "u \<in> star_lang (lang a)" by simp
  then show ?case
  proof (induction arbitrary: p rule: star_lang.induct)
    case star_Nil
    then show ?case by (auto intro: rx_match.StarNil)
  next
    case (star_app v w)
    have "rx_match (p @ v @ w @ t) a (length p) (length p + length v)"
      using Star.IH Star.prems star_app by simp
    moreover have "rx_match ((p @ v) @ w @ t) (Star a) (length (p @ v)) (length (p @ v) + length w)"
      by (rule star_app.IH)
    ultimately show ?case by (auto intro: rx_match.StarStep simp: add.assoc)
  qed
next
  case (Cls P)
  then obtain c where "u = [c]" "P c" by auto
  then show ?case using rx_match.Cls [of "length p" "p @ u @ t" P] by simp
qed (auto intro: rx_match.intros)

lemma rx_full_lang: "no_boundary r \<Longrightarrow> rx_full r s \<longleftrightarrow> s \<in> lang r"
  using rx_match_lang [of s r 0 "length s"] lang_rx_match [of r s "[]" "[]"]
  by (auto simp: rx_full_def ends_iff)

subsection \<open>Languages of the building blocks\<close>

lemma star_lang_Cls: "star_lang {[c] | c. P c} = {s. list_all P s}"
proof (intro set_eqI iffI)
  fix s
  show "s \<in> star_lang {[c] | c. P c} \<Longrightarrow> s \<in> {s. list_all P s}"
    by (induction rule: star_lang.induct) auto
  have "list_all P s \<Longrightarrow> s \<in> star_lang {[c] | c. P c}"
  proof (induction s)
    case (Cons c s)
    then have "[c] @ s \<in> star_lang {[c] | c. P c}"
      by (intro star_lang.star_app) auto
    then show ?case by simp
  qed (rule star_lang.star_Nil)
  then show "s \<in> {s. list_all P s} \<Longrightarrow> s \<in> star_lang {[c] | c. P c}" by simp
qed

lemma lang_Star_Cls [simp]: "lang (Star (Cls P)) = {s. list_all P s}"
  by (simp add: star_lang_Cls)

lemma lang_Plus_Cls [simp]: "lang (Plus (Cls P)) = {s. s \<noteq> [] \<and> list_all P s}"
proof -
  have "lang (Plus (Cls P)) = {u @ v | u v. (\<exists>c. u = [c] \<and> P c) \<and> list_all P v}"
    by (simp add: Plus_def star_lang_Cls)
  also have "\<dots> = {s. s \<noteq> [] \<and> list_all P s}"
    by (auto simp: neq_Nil_conv) (metis append_Cons append_Nil)
  finally show ?thesis .
qed

lemma lang_SeqI: "u \<in> lang a \<Longrightarrow> v \<in> lang b \<Longrightarrow> u @ v \<in> lang (Seq a b)"
  by auto

lemma lang_Opt [simp]: "lang (Opt r) = lang r \<union> {[]}"
  by (auto simp: Opt_def)

lemma lang_Chr [simp]: "lang (Chr c) = {[c]}"
  by (auto simp: Chr_def)

lemma lang_Lit [simp]: "lang (Lit s) = {s}"
  by (induction s) auto

lemma lang_Seq_Lit: "lang (Seq (Lit p) r) = {p @ v | v. v \<in> lang r}"
  by simp

lemma lang_Seq_Cls_Cls: "lang (Seq (Cls P) (Cls Q)) = {[a, b] | a b. P a \<and> Q b}"
  by auto (metis append_Cons append_Nil)

lemma no_boundary_blocks [simp]:
  "no_boundary (Plus r) = no_boundary r" "no_boundary (Opt r) = no_boundary r"
  "no_boundary (Chr c)" "no_boundary (Lit s)"
proof -
  show "no_boundary (Lit s)" by (induction s) (auto simp: Chr_def)
qed (auto simp: Plus_def Opt_def Chr_def)

lemma no_boundary_UpTo [simp]: "no_boundary r \<Longrightarrow> no_boundary (UpTo n r)"
  by (induction n) auto

lemma no_boundary_Times [simp]: "no_boundary r \<Longrightarrow> no_boundary (Times n r)"
  by (induction n) auto

lemma lang_Times_Cls: "lang (Times n (Cls P)) = {s. length s = n \<and> list_all P s}"
proof (induction n)
  case (Suc n)
  have "lang (Times (Suc n) (Cls P)) = {u @ v | u v. (\<exists>c. u = [c] \<and> P c) \<and> length v = n \<and> list_all P v}"
    by (simp add: Suc)
  also have "\<dots> = {s. length s = Suc n \<and> list_all P s}"
    by (auto simp: length_Suc_conv) (metis append_Cons append_Nil)
  finally show ?case .
qed auto

lemma in_lang_Seq_Cls: "s \<in> lang (Seq (Cls P) r) \<longleftrightarrow> s \<noteq> [] \<and> P (hd s) \<and> tl s \<in> lang r"
proof
  assume "s \<noteq> [] \<and> P (hd s) \<and> tl s \<in> lang r"
  then have "[hd s] @ tl s \<in> lang (Seq (Cls P) r)" by (intro lang_SeqI) auto
  then show "s \<in> lang (Seq (Cls P) r)" using \<open>s \<noteq> [] \<and> _\<close> by simp
qed auto

lemma lang_UpTo_Cls: "s \<in> lang (UpTo n (Cls P)) \<longleftrightarrow> length s \<le> n \<and> list_all P s"
proof (induction n arbitrary: s)
  case (Suc n)
  have "s \<in> lang (UpTo (Suc n) (Cls P)) \<longleftrightarrow> s = [] \<or> s \<in> lang (Seq (Cls P) (UpTo n (Cls P)))" by auto
  then show ?case unfolding in_lang_Seq_Cls Suc by (cases s) auto
qed auto

lemma lang_name: "s \<in> lang (Seq (Cls P) (UpTo n (Cls Q))) \<longleftrightarrow> s \<noteq> [] \<and> P (hd s) \<and> length s \<le> Suc n \<and> list_all Q (tl s)"
  unfolding in_lang_Seq_Cls lang_UpTo_Cls by auto

lemma lang_Seq5:
  "s \<in> lang (Seq a (Seq b (Seq c (Seq d e)))) \<longleftrightarrow>
     (\<exists>u v w x y. s = u @ v @ w @ x @ y \<and> u \<in> lang a \<and> v \<in> lang b \<and> w \<in> lang c \<and> x \<in> lang d \<and> y \<in> lang e)"
  by simp blast

text \<open>Every character class of a pattern stays within \<open>P\<close>, and so do the texts it matches.\<close>

fun rx_over :: "(char \<Rightarrow> bool) \<Rightarrow> rx \<Rightarrow> bool" where
  "rx_over P (Cls Q) = (\<forall>c. Q c \<longrightarrow> P c)"
| "rx_over P (Seq a b) = (rx_over P a \<and> rx_over P b)"
| "rx_over P (Alt a b) = (rx_over P a \<and> rx_over P b)"
| "rx_over P (Star a) = rx_over P a"
| "rx_over P _ = True"

lemma lang_over: "rx_over P r \<Longrightarrow> s \<in> lang r \<Longrightarrow> list_all P s"
proof (induction r arbitrary: s)
  case (Star a)
  then have "s \<in> star_lang (lang a)" by simp
  then show ?case by (induction rule: star_lang.induct) (use Star in auto)
qed fastforce+

lemma rx_over_blocks [simp]:
  "rx_over P (Chr c) = P c" "rx_over P (Opt r) = rx_over P r" "rx_over P (Times n r) = (n = 0 \<or> rx_over P r)"
  by (induction n) (auto simp: Chr_def Opt_def)

end
