(* ===== verification/Semver.thy ===== *)
theory Semver
  imports Prelude "HOL-Library.Product_Lexorder"
begin

text \<open>
  Version ordering: \<open>registry/scripts/lib/semver.ts\<close> and the runtime ranges of
  \<open>apps/matcher/src/runtime.ts\<close>. \<open>compareSemver\<close> is shown to be the order induced by an injective
  key into a lexicographic linear order, which makes it a total order on every string, valid or
  not; the range operators are characterised on release versions.
\<close>

subsection \<open>compareSemver\<close>

definition splitVersion :: "string \<Rightarrow> string \<times> string option" where
  "splitVersion version =
     (if CHR ''-'' \<in> set version
      then (takeWhile (\<lambda>c. c \<noteq> CHR ''-'') version,
            Some (tl (dropWhile (\<lambda>c. c \<noteq> CHR ''-'') version)))
      else (version, None))"

text \<open>\<open>NUMERIC = /^\d+$/\<close>.\<close>

definition NUMERIC :: "string \<Rightarrow> bool" where
  "NUMERIC s \<longleftrightarrow> s \<noteq> [] \<and> list_all is_digit s"

definition compareIdentifier :: "string \<Rightarrow> string \<Rightarrow> int" where
  "compareIdentifier a b =
     (let numA = NUMERIC a; numB = NUMERIC b in
      if numA \<and> numB then
        (let x = digits_val a; y = digits_val b in if x < y then - 1 else if x > y then 1 else 0)
      else if numA then - 1
      else if numB then 1
      else if a < b then - 1 else if a > b then 1 else 0)"

fun compareIdentifiers :: "string list \<Rightarrow> string list \<Rightarrow> int" where
  "compareIdentifiers (a # as) (b # bs) =
     (let result = compareIdentifier a b in
      if result \<noteq> 0 then result else compareIdentifiers as bs)"
| "compareIdentifiers as bs = sgn (int (length as) - int (length bs))"

definition compareSemver :: "string \<Rightarrow> string \<Rightarrow> int" where
  "compareSemver a b =
     (let (coreA, preA) = splitVersion a;
          (coreB, preB) = splitVersion b;
          result0 = compareIdentifiers (js_split (CHR ''.'') coreA) (js_split (CHR ''.'') coreB);
          result =
            (if result0 = 0 then
               (case (preA, preB) of
                  (None, Some _) \<Rightarrow> 1
                | (Some _, None) \<Rightarrow> - 1
                | (Some p, Some q) \<Rightarrow>
                    compareIdentifiers (js_split (CHR ''.'') p) (js_split (CHR ''.'') q)
                | (None, None) \<Rightarrow> result0)
             else result0)
      in if result \<noteq> 0 then result
         else if a < b then - 1 else if a > b then 1 else 0)"

subsection \<open>The order it computes\<close>

text \<open>
  SemVer 2.0.0 section 11 as keys: a numeric identifier ranks by value below every alphanumeric
  one; a pre-release ranks below its release; the text itself breaks the remaining ties.
\<close>

definition identifier_key :: "string \<Rightarrow> nat \<times> nat \<times> string" where
  "identifier_key s = (if NUMERIC s then (0, digits_val s, []) else (1, 0, s))"

definition pre_key :: "string option \<Rightarrow> nat \<times> (nat \<times> nat \<times> string) list" where
  "pre_key p = (case p of None \<Rightarrow> (1, []) | Some s \<Rightarrow> (0, map identifier_key (js_split (CHR ''.'') s)))"

definition precedence_key ::
    "string \<Rightarrow> (nat \<times> nat \<times> string) list \<times> nat \<times> (nat \<times> nat \<times> string) list" where
  "precedence_key v =
     (let (core, pre) = splitVersion v
      in (map identifier_key (js_split (CHR ''.'') core), pre_key pre))"

lemma compareIdentifier_key:
  "compareIdentifier a b = compare_lt (identifier_key a) (identifier_key b)"
  by (auto simp: compareIdentifier_def identifier_key_def compare_lt_def Let_def less_prod_def')

lemma compareIdentifiers_key:
  "compareIdentifiers as bs = compare_lt (map identifier_key as) (map identifier_key bs)"
proof (induction as bs rule: compareIdentifiers.induct)
  case (1 a as b bs)
  show ?case
  proof (cases "identifier_key a = identifier_key b")
    case True
    with 1 show ?thesis
      by (simp add: compareIdentifier_key Let_def) (simp add: compare_lt_def)
  next
    case False
    then show ?thesis
      by (auto simp: compareIdentifier_key Let_def compare_lt_def)
  qed
qed (auto simp: compare_lt_def sgn_if neq_Nil_conv)

lemma compareSemver_key:
  "compareSemver a b = compare_lt (precedence_key a, a) (precedence_key b, b)"
proof -
  obtain ca pa cb pb where s: "splitVersion a = (ca, pa)" "splitVersion b = (cb, pb)"
    by (metis surj_pair)
  show ?thesis
    by (simp add: compareSemver_def s compareIdentifiers_key precedence_key_def pre_key_def Let_def
        split: option.split)
       (auto simp: compare_lt_def less_prod_def')
qed

lemma compareSemver_conv_key:
  "compareSemver = (\<lambda>a b. compare_lt (precedence_key a, a) (precedence_key b, b))"
  by (intro ext compareSemver_key)

interpretation semver: strict_comparator compareSemver "\<lambda>_. True"
  unfolding compareSemver_conv_key
  by (rule compare_lt_key_strict_comparator) (simp add: inj_on_def)

subsection \<open>Runtime ranges\<close>

text \<open>
  \<open>BigInt(s)\<close> of a string: surrounding white space is ignored, the empty text is 0, decimal text
  may carry a sign, \<open>0x\<close>, \<open>0o\<close> and \<open>0b\<close> prefixes select a radix; anything else is a
  \<open>SyntaxError\<close>.
\<close>

definition radix_digit :: "char \<Rightarrow> nat" where
  "radix_digit c =
     (let n = (of_char c :: nat) in
      if is_digit c then n - 48
      else if 97 \<le> n \<and> n \<le> 102 then n - 87
      else if 65 \<le> n \<and> n \<le> 70 then n - 55
      else 99)"

definition radix_val :: "nat \<Rightarrow> string \<Rightarrow> int option" where
  "radix_val r s =
     (if s \<noteq> [] \<and> list_all (\<lambda>c. radix_digit c < r) s
      then Some (int (foldl (\<lambda>n c. r * n + radix_digit c) 0 s)) else None)"

definition BigInt :: "string \<Rightarrow> int option" where
  "BigInt s =
     (let t = js_trim s in
      if t = [] then Some 0
      else if NUMERIC t then Some (int (digits_val t))
      else if hd t = CHR ''+'' \<and> NUMERIC (tl t) then Some (int (digits_val (tl t)))
      else if hd t = CHR ''-'' \<and> NUMERIC (tl t) then Some (- int (digits_val (tl t)))
      else if take 2 t \<in> {''0x'', ''0X''} then radix_val 16 (drop 2 t)
      else if take 2 t \<in> {''0o'', ''0O''} then radix_val 8 (drop 2 t)
      else if take 2 t \<in> {''0b'', ''0B''} then radix_val 2 (drop 2 t)
      else None)"

text \<open>\<open>xs[i]\<close>: \<open>undefined\<close> out of range.\<close>

definition js_nth :: "'a list \<Rightarrow> nat \<Rightarrow> 'a option" where
  "js_nth xs i = (if i < length xs then Some (xs ! i) else None)"

definition range_op :: "string \<Rightarrow> string" where
  "range_op rng =
     (if startsWith rng ''>='' then ''>=''
      else if startsWith rng ''^'' then ''^''
      else if startsWith rng ''~'' then ''~''
      else [])"

definition range_upper :: "string \<Rightarrow> int list \<Rightarrow> js_error + string" where
  "range_upper op ns =
     (let major = js_nth ns 0; minor = js_nth ns 1; patch = js_nth ns 2;
          positive = (\<lambda>n. case n of Some i \<Rightarrow> i > 0 | None \<Rightarrow> False);
          succ_text = (\<lambda>n. map_option (\<lambda>i. int_str (i + 1)) n);
          text = (\<lambda>n. case n of Some i \<Rightarrow> int_str i | None \<Rightarrow> ''undefined'')
      in if op = ''~'' then
           (case succ_text minor of None \<Rightarrow> Inl TypeError | Some m \<Rightarrow> Inr (text major @ ''.'' @ m @ ''.0''))
         else if positive major then
           (case succ_text major of None \<Rightarrow> Inl TypeError | Some m \<Rightarrow> Inr (m @ ''.0.0''))
         else if positive minor then
           (case succ_text minor of None \<Rightarrow> Inl TypeError | Some m \<Rightarrow> Inr (''0.'' @ m @ ''.0''))
         else
           (case succ_text patch of None \<Rightarrow> Inl TypeError | Some m \<Rightarrow> Inr (''0.0.'' @ m)))"

definition satisfiesRuntime :: "string \<Rightarrow> string \<Rightarrow> js_error + bool" where
  "satisfiesRuntime version rng =
     (let op = range_op rng;
          floor = drop (length op) rng;
          core = (\<lambda>s. hd (js_split (CHR ''-'') s))
      in if op = [] then Inr (compareSemver version floor = 0)
         else if CHR ''-'' \<in> set version \<and> (CHR ''-'' \<notin> set floor \<or> core version \<noteq> core floor)
         then Inr False
         else if compareSemver version floor < 0 then Inr False
         else if op = ''>='' then Inr True
         else (case those (map BigInt (js_split (CHR ''.'') (core floor))) of
                 None \<Rightarrow> Inl SyntaxError
               | Some ns \<Rightarrow>
                   (case range_upper op ns of
                      Inl e \<Rightarrow> Inl e
                    | Inr upper \<Rightarrow> Inr (compareSemver version upper < 0))))"

subsection \<open>Ranges on release versions\<close>

text \<open>The text of a release version, and what the range operators mean on it.\<close>

definition release :: "nat \<times> nat \<times> nat \<Rightarrow> string" where
  "release v = (case v of (a, b, c) \<Rightarrow> js_join ''.'' [nat_str a, nat_str b, nat_str c])"

definition caret_upper :: "nat \<times> nat \<times> nat \<Rightarrow> nat \<times> nat \<times> nat" where
  "caret_upper v = (case v of (a, b, c) \<Rightarrow>
     if a > 0 then (a + 1, 0, 0) else if b > 0 then (0, b + 1, 0) else (0, 0, c + 1))"

definition tilde_upper :: "nat \<times> nat \<times> nat \<Rightarrow> nat \<times> nat \<times> nat" where
  "tilde_upper v = (case v of (a, b, c) \<Rightarrow> (a, b + 1, 0))"

lemma not_digit_punct [simp]:
  "\<not> is_digit (CHR ''.'')" "\<not> is_digit (CHR ''-'')" "\<not> is_digit (CHR ''>'')"
  "\<not> is_digit (CHR ''^'')" "\<not> is_digit (CHR ''~'')"
  by (simp_all add: is_digit_def)

lemma nat_str_no_punct [simp]:
  "CHR ''.'' \<notin> set (nat_str n)" "CHR ''-'' \<notin> set (nat_str n)"
  "CHR ''>'' \<notin> set (nat_str n)" "CHR ''^'' \<notin> set (nat_str n)" "CHR ''~'' \<notin> set (nat_str n)"
  using nat_str_digits by fastforce+

lemma NUMERIC_nat_str [simp]: "NUMERIC (nat_str n)"
  by (auto simp: NUMERIC_def list_all_iff nat_str_digits)

lemma js_trim_nat_str [simp]: "js_trim (nat_str n) = nat_str n"
proof -
  have ns: "\<not> js_space c" if "is_digit c" for c
    using that by (auto simp: is_digit_def js_space_def Let_def)
  have d: "dropWhile js_space xs = xs" if "\<forall>c \<in> set xs. is_digit c" for xs
    using that ns by (cases xs) auto
  have "\<forall>c \<in> set (nat_str n). is_digit c" by (simp add: nat_str_digits)
  then show ?thesis by (simp add: js_trim_def d)
qed

lemma BigInt_nat_str [simp]: "BigInt (nat_str n) = Some (int n)"
  by (simp add: BigInt_def)

lemma release_no_hyphen [simp]: "CHR ''-'' \<notin> set (release v)"
  by (cases v) (simp add: release_def)

lemma split_release [simp]:
  "js_split (CHR ''.'') (release (a, b, c)) = [nat_str a, nat_str b, nat_str c]"
  unfolding release_def prod.case by (rule js_split_join) auto

lemma split_hyphen_release [simp]: "js_split (CHR ''-'') (release v) = [release v]"
  by (rule js_split_no_sep) simp

lemma precedence_key_release:
  "precedence_key (release (a, b, c)) = ([(0, a, []), (0, b, []), (0, c, [])], 1, [])"
  by (simp add: precedence_key_def splitVersion_def pre_key_def identifier_key_def)

lemma release_inject: "release v = release w \<Longrightarrow> v = w"
  by (cases v; cases w) (metis list.inject nat_str_inject split_release)

lemma compareSemver_release: "compareSemver (release v) (release w) = compare_lt v w"
proof -
  obtain a b c a' b' c' where v: "v = (a, b, c)" "w = (a', b', c')"
    by (metis surj_pair)
  have lt: "(precedence_key (release v), release v) < (precedence_key (release w), release w)
      \<longleftrightarrow> v < w \<or> (v = w \<and> release v < release w)"
    unfolding v precedence_key_release by (auto simp: less_prod_def')
  have gt: "(precedence_key (release w), release w) < (precedence_key (release v), release v)
      \<longleftrightarrow> w < v \<or> (v = w \<and> release w < release v)"
    unfolding v precedence_key_release by (auto simp: less_prod_def')
  show ?thesis
    unfolding compareSemver_key compare_lt_def lt gt by auto
qed

lemma range_op_simps:
  "range_op (''^'' @ s) = ''^''" "range_op (''~'' @ s) = ''~''" "range_op (''>='' @ s) = ''>=''"
  by (simp_all add: range_op_def)

lemma release_not_Nil: "release v \<noteq> []"
  by (cases v) (simp add: release_def)

lemma hd_release: "is_digit (hd (release v))"
proof (cases v)
  case (fields a b c)
  have "hd (release v) = hd (nat_str a)" by (simp add: fields release_def)
  moreover have "hd (nat_str a) \<in> set (nat_str a)" by simp
  ultimately show ?thesis using nat_str_digits by metis
qed

lemma range_op_release: "range_op (release v) = []"
proof -
  obtain c cs where c: "release v = c # cs" "is_digit c"
    using hd_release [of v] release_not_Nil [of v] by (cases "release v") auto
  then show ?thesis by (auto simp: range_op_def)
qed

lemma nat_str_0 [simp]: "nat_str 0 = ''0''"
  by code_simp

lemma int_str_succ [simp]: "int_str (int n + 1) = nat_str (n + 1)"
  by (simp add: int_str_def nat_add_distrib)

lemma range_upper_caret:
  "range_upper ''^'' [int a, int b, int c] = Inr (release (caret_upper (a, b, c)))"
  by (simp add: range_upper_def js_nth_def caret_upper_def release_def Let_def)

lemma range_upper_tilde:
  "range_upper ''~'' [int a, int b, int c] = Inr (release (tilde_upper (a, b, c)))"
  by (simp add: range_upper_def js_nth_def tilde_upper_def release_def Let_def int_str_def)

lemma satisfiesRuntime_exact: "satisfiesRuntime (release v) (release w) = Inr (v = w)"
  by (simp add: satisfiesRuntime_def range_op_release compareSemver_release)

lemma satisfiesRuntime_at_least:
  "satisfiesRuntime (release v) (''>='' @ release w) = Inr (w \<le> v)"
  unfolding satisfiesRuntime_def range_op_simps Let_def by (auto simp: compareSemver_release)

lemma satisfiesRuntime_caret:
  "satisfiesRuntime (release v) (''^'' @ release w) = Inr (w \<le> v \<and> v < caret_upper w)"
  unfolding satisfiesRuntime_def range_op_simps Let_def
  by (cases w) (auto simp: compareSemver_release range_upper_caret)

lemma satisfiesRuntime_tilde:
  "satisfiesRuntime (release v) (''~'' @ release w) = Inr (w \<le> v \<and> v < tilde_upper w)"
  unfolding satisfiesRuntime_def range_op_simps Let_def
  by (cases w) (auto simp: compareSemver_release range_upper_tilde)

lemmas satisfiesRuntime_release =
  satisfiesRuntime_exact satisfiesRuntime_at_least satisfiesRuntime_caret satisfiesRuntime_tilde

lemma satisfiesRuntime_prerelease_gate:
  assumes "CHR ''-'' \<in> set version" and "CHR ''-'' \<notin> set rng" and "range_op rng \<noteq> []"
  shows "satisfiesRuntime version rng = Inr False"
proof -
  have "CHR ''-'' \<notin> set (drop (length (range_op rng)) rng)"
    using assms(2) in_set_dropD by metis
  with assms show ?thesis by (simp add: satisfiesRuntime_def Let_def)
qed

end
