(* ===== verification/Part_Schema.thy ===== *)
theory Part_Schema
  imports Js_Number Regexp Semver
begin

text \<open>
  The Part Definition and what it is made of: \<open>packages/schema/src/part.ts\<close>, \<open>connector.ts\<close>,
  \<open>units.ts\<close> and \<open>electrical.ts\<close>. A Zod object is a record; \<open>X_ok\<close> is the conjunction of the
  checks its schema \<open>X\<close> runs on the fields, and \<open>part_issues\<close>, \<open>connector_issues\<close> are the lists
  the \<open>superRefine\<close> callbacks build. Parsing succeeds when the checks hold and the list is empty.
  The check that a supplier URL is an https URL is the platform's URL parser, a parameter here.
\<close>

subsection \<open>Identifiers\<close>

definition NUMERIC_ID :: rx where
  "NUMERIC_ID = Alt (Chr (CHR ''0'')) (Seq (Cls (between (CHR ''1'') (CHR ''9''))) (Star (Cls digit)))"

definition ident_char :: "char \<Rightarrow> bool" where
  "ident_char c \<longleftrightarrow> digit c \<or> upper c \<or> lower c \<or> c = CHR ''-''"

definition ident_nondigit :: "char \<Rightarrow> bool" where
  "ident_nondigit c \<longleftrightarrow> upper c \<or> lower c \<or> c = CHR ''-''"

definition PRERELEASE_ID :: rx where
  "PRERELEASE_ID =
     Alt NUMERIC_ID
       (Seq (Star (Cls digit)) (Seq (Cls ident_nondigit) (Star (Cls ident_char))))"

definition SEMVER_CORE :: rx where
  "SEMVER_CORE =
     Seq NUMERIC_ID (Seq (Chr (CHR ''.'')) (Seq NUMERIC_ID (Seq (Chr (CHR ''.'')) (Seq NUMERIC_ID
       (Opt (Seq (Chr (CHR ''-''))
          (Seq PRERELEASE_ID (Star (Seq (Chr (CHR ''.'')) PRERELEASE_ID)))))))))"

definition SemVer :: "string \<Rightarrow> bool" where
  "SemVer s = rx_full SEMVER_CORE s"

definition SemVerRange :: "string \<Rightarrow> bool" where
  "SemVerRange s =
     rx_full (Seq (Opt (Alt (Lit ''>='') (Alt (Lit ''^'') (Lit ''~'')))) SEMVER_CORE) s"

datatype PartCategory = Visual | Physical | Location | Communication | Motion | Energy

fun PART_CATEGORY_PREFIX :: "PartCategory \<Rightarrow> string" where
  "PART_CATEGORY_PREFIX Visual = ''V''"
| "PART_CATEGORY_PREFIX Physical = ''P''"
| "PART_CATEGORY_PREFIX Location = ''L''"
| "PART_CATEGORY_PREFIX Communication = ''C''"
| "PART_CATEGORY_PREFIX Motion = ''M''"
| "PART_CATEGORY_PREFIX Energy = ''E''"

definition PartId :: "string \<Rightarrow> bool" where
  "PartId s = rx_full (Seq (Cls (one_of ''VPLCME'')) (Seq (Chr (CHR ''-'')) (Times 3 (Cls digit)))) s"

datatype PartStatus = Draft | Active | Deprecated | Retired

datatype PartInterface = I2c | Spi | Uart | OneWire | Pwm | Adc | Gpio | PowerIf | HostIf

datatype Exposure = ExposureNone | Vent | Window | ProbeExternal

fun category_text :: "PartCategory \<Rightarrow> string" where
  "category_text Visual = ''visual''"
| "category_text Physical = ''physical''"
| "category_text Location = ''location''"
| "category_text Communication = ''communication''"
| "category_text Motion = ''motion''"
| "category_text Energy = ''energy''"

fun status_text :: "PartStatus \<Rightarrow> string" where
  "status_text Draft = ''draft''"
| "status_text Active = ''active''"
| "status_text Deprecated = ''deprecated''"
| "status_text Retired = ''retired''"

fun interface_text :: "PartInterface \<Rightarrow> string" where
  "interface_text I2c = ''i2c''"
| "interface_text Spi = ''spi''"
| "interface_text Uart = ''uart''"
| "interface_text OneWire = ''1-wire''"
| "interface_text Pwm = ''pwm''"
| "interface_text Adc = ''adc''"
| "interface_text Gpio = ''gpio''"
| "interface_text PowerIf = ''power''"
| "interface_text HostIf = ''host''"

definition low_num :: "char \<Rightarrow> bool" where
  "low_num c \<longleftrightarrow> lower c \<or> digit c"

definition Capability :: "string \<Rightarrow> bool" where
  "Capability s =
     rx_full (Seq (Cls lower) (Seq (Star (Cls low_num))
       (Plus (Seq (Chr (CHR ''.'')) (Plus (Cls (\<lambda>c. low_num c \<or> c = CHR ''_''))))))) s"

definition dashed_names :: rx where
  "dashed_names = Seq (Plus (Cls low_num)) (Star (Seq (Chr (CHR ''-'')) (Plus (Cls low_num))))"

definition ConnectorId :: "string \<Rightarrow> bool" where
  "ConnectorId s = rx_full (Seq dashed_names (Seq (Lit ''-v'') (Plus (Cls digit)))) s"

definition hex_low :: "char \<Rightarrow> bool" where
  "hex_low c \<longleftrightarrow> digit c \<or> between (CHR ''a'') (CHR ''f'') c"

definition I2cAddress :: "string \<Rightarrow> bool" where
  "I2cAddress s =
     rx_full (Seq (Lit ''0x'')
       (Alt (Seq (Chr (CHR ''0'')) (Cls (\<lambda>c. one_of ''89'' c \<or> between (CHR ''a'') (CHR ''f'') c)))
       (Alt (Seq (Cls (between (CHR ''1'') (CHR ''6''))) (Cls hex_low))
            (Seq (Chr (CHR ''7'')) (Cls (between (CHR ''0'') (CHR ''7''))))))) s"

subsection \<open>Electrical block\<close>

type_synonym VoltageRange = "jsnum \<times> jsnum"

definition VoltageRange_ok :: "VoltageRange \<Rightarrow> bool" where
  "VoltageRange_ok r \<longleftrightarrow> z_positive (fst r) \<and> z_positive (snd r) \<and> jle (fst r) (snd r)"

record PowerInput =
  input_name :: string
  input_range :: VoltageRange

definition PowerInput_ok :: "PowerInput \<Rightarrow> bool" where
  "PowerInput_ok p \<longleftrightarrow>
     rx_full dashed_names (input_name p) \<and> input_name p \<noteq> ''primary'' \<and> VoltageRange_ok (input_range p)"

record CurrentDraw =
  idle_ma :: jsnum
  active_ma :: jsnum

record Supply =
  output_v :: VoltageRange
  max_output_ma :: jsnum
  capacity_mah :: "jsnum option"

record PartElectrical =
  part_interface :: PartInterface
  connector :: string
  voltage_range :: VoltageRange
  alt_inputs :: "PowerInput list option"
  current_draw_ma :: CurrentDraw
  requires :: "string list"
  conflicts :: "string list"
  i2c_address :: "string option"
  logic_v :: "VoltageRange option"
  part_supply :: "Supply option"

definition opt_ok :: "('a \<Rightarrow> bool) \<Rightarrow> 'a option \<Rightarrow> bool" where
  "opt_ok P x \<longleftrightarrow> (case x of None \<Rightarrow> True | Some v \<Rightarrow> P v)"

definition CurrentDraw_ok :: "CurrentDraw \<Rightarrow> bool" where
  "CurrentDraw_ok c \<longleftrightarrow>
     z_nonnegative (idle_ma c) \<and> z_nonnegative (active_ma c) \<and> jle (idle_ma c) (active_ma c)"

definition Supply_ok :: "Supply \<Rightarrow> bool" where
  "Supply_ok s \<longleftrightarrow>
     VoltageRange_ok (output_v s) \<and> z_positive (max_output_ma s) \<and> opt_ok z_positive (capacity_mah s)"

definition PartElectrical_ok :: "PartElectrical \<Rightarrow> bool" where
  "PartElectrical_ok e \<longleftrightarrow>
     ConnectorId (connector e) \<and>
     VoltageRange_ok (voltage_range e) \<and>
     opt_ok (list_all PowerInput_ok) (alt_inputs e) \<and>
     CurrentDraw_ok (current_draw_ma e) \<and>
     list_all Capability (requires e) \<and>
     list_all PartId (conflicts e) \<and>
     opt_ok I2cAddress (i2c_address e) \<and>
     opt_ok VoltageRange_ok (logic_v e) \<and>
     opt_ok Supply_ok (part_supply e)"

subsection \<open>Mechanical block\<close>

datatype Mount =
    CableGland jsnum
  | Standoffs jsnum "(jsnum \<times> jsnum) list"
  | Tabs jsnum jsnum
  | Cradle
  | External
  | Unspecified

fun Mount_ok :: "Mount \<Rightarrow> bool" where
  "Mount_ok (CableGland d) = z_positive d"
| "Mount_ok (Standoffs d holes) =
     (z_positive d \<and> holes \<noteq> [] \<and>
      list_all (\<lambda>h. z_nonnegative (fst h) \<and> z_nonnegative (snd h)) holes)"
| "Mount_ok (Tabs d spacing) = (z_positive d \<and> z_positive spacing)"
| "Mount_ok Cradle = True"
| "Mount_ok External = True"
| "Mount_ok Unspecified = True"

definition KNOWN_ENVIRONMENT_FLAGS :: "string list" where
  "KNOWN_ENVIRONMENT_FLAGS =
     [''waterproof'', ''needs-airflow'', ''needs-light'', ''needs-line-of-sight'', ''moving-parts'',
      ''rf-radiator'', ''li-ion'']"

definition signed_digits :: rx where
  "signed_digits = Seq (Opt (Chr (CHR ''-''))) (Plus (Cls digit))"

definition TEMP_FLAG :: rx where
  "TEMP_FLAG =
     Seq (Lit ''temp:'') (Seq signed_digits (Seq (Lit ''..'') (Seq signed_digits (Lit ''C''))))"

text \<open>\<open>Number(s)\<close> of text of the shape \<open>-?\d+\<close>, and the two capture groups of \<open>TEMP_FLAG\<close>.\<close>

definition signed_number :: "string \<Rightarrow> jsnum" where
  "signed_number s =
     (if startsWith s ''-'' then rnd (- of_nat (digits_val (tl s))) else rnd (of_nat (digits_val s)))"

definition temp_groups :: "string \<Rightarrow> string \<times> string" where
  "temp_groups flag =
     (let body = drop 5 flag; lo = takeWhile (\<lambda>c. c \<noteq> CHR ''.'') body
      in (lo, takeWhile (\<lambda>c. c \<noteq> CHR ''C'') (drop (length lo + 2) body)))"

definition EnvironmentFlag :: "string \<Rightarrow> bool" where
  "EnvironmentFlag s \<longleftrightarrow>
     s \<in> set KNOWN_ENVIRONMENT_FLAGS \<or>
     (rx_full TEMP_FLAG s \<and>
      (let (lo, hi) = temp_groups s in jless (signed_number lo) (signed_number hi)))"

record PartMechanical =
  footprint_file :: string
  bounding_mm :: "(jsnum \<times> jsnum \<times> jsnum) option"
  mount :: Mount
  exposure :: Exposure
  environment_flags :: "string list"

definition path_char :: "char \<Rightarrow> bool" where
  "path_char c \<longleftrightarrow> upper c \<or> lower c \<or> digit c \<or> c = CHR ''_'' \<or> c = CHR ''-''"

definition footprint_path :: rx where
  "footprint_path =
     Seq (Plus (Cls path_char)) (Seq (Star (Seq (Chr (CHR ''/'')) (Plus (Cls path_char))))
       (Seq (Chr (CHR ''.'')) (Alt (Lit ''step'') (Lit ''stp''))))"

definition PartMechanical_ok :: "PartMechanical \<Rightarrow> bool" where
  "PartMechanical_ok m \<longleftrightarrow>
     rx_full footprint_path (footprint_file m) \<and>
     opt_ok (\<lambda>(x, y, z). z_positive x \<and> z_positive y \<and> z_positive z) (bounding_mm m) \<and>
     Mount_ok (mount m) \<and>
     list_all EnvironmentFlag (environment_flags m)"

subsection \<open>Software, cloud and commerce blocks\<close>

record PartSoftware =
  driver_pkg :: "string option"
  driver_version :: "string option"
  sdk_module :: "string option"
  capabilities :: "string list"
  min_runtime :: string

definition driver_name :: rx where
  "driver_name = Seq (Lit ''hsx-driver-'') (Plus (Cls (\<lambda>c. low_num c \<or> c = CHR ''-'')))"

definition sdk_path :: rx where
  "sdk_path =
     Seq (Plus (Cls lower))
       (Plus (Seq (Chr (CHR ''/'')) (Plus (Cls (\<lambda>c. lower c \<or> c = CHR ''_'')))))"

definition PartSoftware_ok :: "PartSoftware \<Rightarrow> bool" where
  "PartSoftware_ok s \<longleftrightarrow>
     opt_ok (rx_full driver_name) (driver_pkg s) \<and>
     opt_ok SemVer (driver_version s) \<and>
     opt_ok (rx_full sdk_path) (sdk_module s) \<and>
     capabilities s \<noteq> [] \<and> list_all Capability (capabilities s) \<and>
     SemVerRange (min_runtime s) \<and>
     (driver_pkg s = None) = (driver_version s = None)"

datatype PartWidget = LineChart | Stat | Gauge | EventTimeline

datatype PartAlertTemplate = OutOfRange | OnEvent | LowBattery

record PartCloud =
  telemetry_schema :: "string option"
  default_widgets :: "PartWidget list"
  alert_templates :: "PartAlertTemplate list"

definition telemetry_name :: rx where
  "telemetry_name =
     Seq (Cls lower) (Seq (Star (Cls (\<lambda>c. low_num c \<or> c = CHR ''_'')))
       (Seq (Lit ''.v'') (Plus (Cls digit))))"

definition PartCloud_ok :: "PartCloud \<Rightarrow> bool" where
  "PartCloud_ok c \<longleftrightarrow> opt_ok (rx_full telemetry_name) (telemetry_schema c)"

datatype Vendor = Adafruit | Sparkfun | Digikey | Mouser

record Supplier =
  vendor :: Vendor
  sku :: string
  supplier_url :: string

definition Supplier_ok :: "(string \<Rightarrow> bool) \<Rightarrow> Supplier \<Rightarrow> bool" where
  "Supplier_ok https_url s \<longleftrightarrow> sku s \<noteq> [] \<and> https_url (supplier_url s)"

record PartCommerce =
  suppliers :: "Supplier list"
  unit_cost_usd :: "jsnum option"

definition PartCommerce_ok :: "(string \<Rightarrow> bool) \<Rightarrow> PartCommerce \<Rightarrow> bool" where
  "PartCommerce_ok https_url c \<longleftrightarrow>
     list_all (Supplier_ok https_url) (suppliers c) \<and> opt_ok z_positive (unit_cost_usd c)"

definition isValueCapability :: "string \<Rightarrow> bool" where
  "isValueCapability capability \<longleftrightarrow> startsWith capability ''read.'' \<or> startsWith capability ''act.''"

subsection \<open>The Part Definition\<close>

record PartDefinition =
  schema_hint :: "string option"
  part_id :: string
  part_version :: string
  part_name :: string
  category :: PartCategory
  status :: PartStatus
  successor :: "string option"
  electrical :: PartElectrical
  mechanical :: PartMechanical
  software :: PartSoftware
  cloud :: PartCloud
  commerce :: PartCommerce

type_synonym issue = "string list \<times> string"

text \<open>\<open>if (c) issue(path, message)\<close>.\<close>

definition issue_if :: "bool \<Rightarrow> 'a \<Rightarrow> 'a list" where
  "issue_if c x = (if c then [x] else [])"

lemma issue_if_Nil_iff [simp]: "issue_if c x = [] \<longleftrightarrow> \<not> c"
  by (simp add: issue_if_def)

lemma set_issue_if [simp]: "set (issue_if c x) = (if c then {x} else {})"
  by (cases c) (auto simp: issue_if_def)

definition is_passive :: "PartInterface \<Rightarrow> bool" where
  "is_passive i \<longleftrightarrow> i = PowerIf \<or> i = HostIf"

text \<open>The checks at every status.\<close>

definition base_issues :: "PartDefinition \<Rightarrow> issue list" where
  "base_issues part =
     (let e = electrical part; sw = software part; cl = cloud part;
          pre = PART_CATEGORY_PREFIX (category part);
          inputNames = map input_name (case alt_inputs e of None \<Rightarrow> [] | Some xs \<Rightarrow> xs);
          valueCaps = filter isValueCapability (capabilities sw)
      in issue_if (\<not> startsWith (part_id part) (pre @ ''-''))
           ([''id''], category_text (category part) @ '' part ids start with '' @ pre @ ''-'')
       @ issue_if (status part = Deprecated \<and> successor part = None)
           ([''successor''], ''a deprecated part needs a successor'')
       @ issue_if ((status part = Draft \<or> status part = Active) \<and> successor part \<noteq> None)
           ([''successor''], ''a '' @ status_text (status part) @ '' part has no successor'')
       @ issue_if (successor part = Some (part_id part))
           ([''successor''], ''a part can't succeed itself'')
       @ issue_if (category part = Energy \<and> part_supply e = None)
           ([''electrical'', ''supply''], ''energy parts declare supply'')
       @ issue_if ((part_interface e = I2c) \<noteq> (i2c_address e \<noteq> None))
           ([''electrical'', ''i2c_address''], ''i2c parts have an i2c_address; other parts have null'')
       @ issue_if (part_interface e = HostIf \<and>
               (case logic_v e of None \<Rightarrow> True | Some v \<Rightarrow> \<not> jeq (fst v) (snd v)))
           ([''electrical'', ''logic_v''], ''the host declares the one IO voltage it drives, as logic_v [v, v]'')
       @ issue_if (part_interface e = PowerIf \<and> logic_v e \<noteq> None)
           ([''electrical'', ''logic_v''], ''power parts have no signal lines; logic_v is null'')
       @ issue_if (length (js_unique inputNames) \<noteq> length inputNames)
           ([''electrical'', ''alt_inputs''], ''alt_inputs names are unique'')
       @ issue_if (telemetry_schema cl = None \<and> (length (default_widgets cl) > 0 \<or> length (alert_templates cl) > 0))
           ([''cloud'', ''telemetry_schema''], ''default_widgets and alert_templates need a telemetry_schema'')
       @ issue_if (LowBattery \<in> set (alert_templates cl) \<and> ''power.battery'' \<notin> set (capabilities sw))
           ([''cloud'', ''alert_templates''], ''low_battery needs the power.battery capability'')
       @ issue_if (OutOfRange \<in> set (alert_templates cl) \<and>
               \<not> list_ex (\<lambda>c. startsWith c ''read.'' \<and> \<not> endsWith c ''_bool'') valueCaps)
           ([''cloud'', ''alert_templates''], ''out_of_range needs a numeric read.* capability''))"

text \<open>The checks past draft.\<close>

definition release_issues :: "PartDefinition \<Rightarrow> issue list" where
  "release_issues part =
     (let e = electrical part; sw = software part; cl = cloud part;
          whr = ''a '' @ status_text (status part) @ '' part'';
          valueCaps = filter isValueCapability (capabilities sw);
          caps = js_join '', '' valueCaps;
          iface = interface_text (part_interface e)
      in issue_if (mount (mechanical part) = Unspecified)
           ([''mechanical'', ''mount''], ''only draft parts may leave mount unspecified'')
       @ issue_if (bounding_mm (mechanical part) = None)
           ([''mechanical'', ''bounding_mm''], ''only draft parts may leave bounding_mm null'')
       @ issue_if (length (suppliers (commerce part)) = 0)
           ([''commerce'', ''suppliers''], ''only draft parts may have no supplier'')
       @ issue_if (unit_cost_usd (commerce part) = None)
           ([''commerce'', ''unit_cost_usd''], ''only draft parts may leave unit_cost_usd null'')
       @ (if \<not> is_passive (part_interface e) \<or> length valueCaps > 0 then
            issue_if (driver_pkg sw = None)
              ([''software'', ''driver_pkg''], whr @ '' with '' @ iface @ '' or read/act capabilities needs a driver'')
          @ issue_if (sdk_module sw = None)
              ([''software'', ''sdk_module''], whr @ '' with '' @ iface @ '' or read/act capabilities needs an sdk_module'')
          else [])
       @ (if length valueCaps > 0 then
            issue_if (telemetry_schema cl = None)
              ([''cloud'', ''telemetry_schema''], whr @ '' with '' @ caps @ '' needs a telemetry_schema'')
          @ issue_if (length (default_widgets cl) = 0)
              ([''cloud'', ''default_widgets''], whr @ '' with '' @ caps @ '' needs a default widget'')
          else [])
       @ issue_if (\<not> is_passive (part_interface e) \<and> logic_v e = None)
           ([''electrical'', ''logic_v''], whr @ '' on a signal bus declares logic_v''))"

definition part_issues :: "PartDefinition \<Rightarrow> issue list" where
  "part_issues part =
     base_issues part @ (if status part = Draft then [] else release_issues part)"

definition part_fields_ok :: "(string \<Rightarrow> bool) \<Rightarrow> PartDefinition \<Rightarrow> bool" where
  "part_fields_ok https_url p \<longleftrightarrow>
     PartId (part_id p) \<and> SemVer (part_version p) \<and> part_name p \<noteq> [] \<and>
     opt_ok PartId (successor p) \<and>
     PartElectrical_ok (electrical p) \<and> PartMechanical_ok (mechanical p) \<and>
     PartSoftware_ok (software p) \<and> PartCloud_ok (cloud p) \<and>
     PartCommerce_ok https_url (commerce p)"

definition PartDefinition_ok :: "(string \<Rightarrow> bool) \<Rightarrow> PartDefinition \<Rightarrow> bool" where
  "PartDefinition_ok https_url p \<longleftrightarrow> part_fields_ok https_url p \<and> part_issues p = []"

subsection \<open>Connectors\<close>

datatype PinRole = RolePower | RoleGround | RoleSignal | RoleSda | RoleScl

record ConnectorPin =
  pin_n :: int
  pin_name :: string
  pin_role :: PinRole

record ConnectorDefinition =
  conn_schema_hint :: "string option"
  conn_id :: string
  conn_version :: string
  conn_name :: string
  housing :: string
  pins :: "ConnectorPin list"
  interfaces :: "PartInterface list"
  max_voltage :: jsnum

fun pin_issues :: "nat \<Rightarrow> ConnectorPin list \<Rightarrow> issue list" where
  "pin_issues i [] = []"
| "pin_issues i (p # ps) =
     issue_if (pin_n p \<noteq> int i + 1)
       ([''pins'', nat_str i, ''n''], ''pins are numbered 1..n in order; expected '' @ nat_str (i + 1))
     @ pin_issues (Suc i) ps"

definition connector_issues :: "ConnectorDefinition \<Rightarrow> issue list" where
  "connector_issues c =
     pin_issues 0 (pins c) @
     issue_if (\<not> list_ex (\<lambda>p. pin_role p = RoleGround) (pins c))
       ([''pins''], ''a connector needs a ground pin'')"

definition ConnectorDefinition_ok :: "ConnectorDefinition \<Rightarrow> bool" where
  "ConnectorDefinition_ok c \<longleftrightarrow>
     ConnectorId (conn_id c) \<and> SemVer (conn_version c) \<and> conn_name c \<noteq> [] \<and> housing c \<noteq> [] \<and>
     length (pins c) \<ge> 2 \<and> list_all (\<lambda>p. pin_n p > 0 \<and> pin_name p \<noteq> []) (pins c) \<and>
     interfaces c \<noteq> [] \<and> z_positive (max_voltage c) \<and> connector_issues c = []"

subsection \<open>Units of a capability\<close>

text \<open>The unit, \<open>null\<close> for a namespace without values, \<open>undefined\<close> for a missing suffix.\<close>

datatype unit_of = HasUnit string | NoValue | UnknownUnit

definition UNIT_SUFFIXES :: "(string \<times> string) list" where
  "UNIT_SUFFIXES =
     [(''_c'', [CHR 0xB0, CHR ''C'']), (''_pct'', ''%''), (''_hpa'', ''hPa''), (''_g'', ''g''),
      (''_dps'', [CHR 0xB0, CHR ''/'', CHR ''s'']), (''_cm'', ''cm''), (''_lux'', ''lx''),
      (''_deg'', [CHR 0xB0]), (''_bool'', ''true/false'')]"

definition VALUE_NAMESPACES :: "string list" where
  "VALUE_NAMESPACES = [''read'', ''act'']"

definition capabilityUnit :: "string \<Rightarrow> unit_of" where
  "capabilityUnit capability =
     (let namespace = hd (js_split (CHR ''.'') capability) in
      if namespace \<notin> set VALUE_NAMESPACES then NoValue
      else case List.find (\<lambda>(suf, u). endsWith capability suf) UNIT_SUFFIXES of
             None \<Rightarrow> UnknownUnit
           | Some (suf, u) \<Rightarrow> HasUnit u)"

subsection \<open>Voltage windows\<close>

definition usableWindow :: "VoltageRange \<Rightarrow> VoltageRange \<Rightarrow> VoltageRange option" where
  "usableWindow source input =
     (if jless (snd input) (snd source) then None
      else let low = jmax (fst source) (fst input)
           in if jle low (snd source) then Some (low, snd source) else None)"

subsection \<open>What the version grammar admits\<close>

lemma digit_chr_digit_val: "is_digit c \<Longrightarrow> digit_chr (digit_val c) = c"
  by (simp add: is_digit_def digit_chr_def digit_val_def Let_def)

lemma digit_val_less: "is_digit c \<Longrightarrow> digit_val c < 10"
  by (auto simp: is_digit_def digit_val_def Let_def)

lemma nonzero_digit:
  "between (CHR ''1'') (CHR ''9'') c \<longleftrightarrow> is_digit c \<and> c \<noteq> CHR ''0''"
  "is_digit c \<Longrightarrow> c \<noteq> CHR ''0'' \<longleftrightarrow> 0 < digit_val c"
proof -
  have "(of_char c :: nat) = 48 \<longleftrightarrow> c = CHR ''0''"
    using of_char_eq_iff [where 'a = nat, of c "CHR ''0''"] by simp
  then show "between (CHR ''1'') (CHR ''9'') c \<longleftrightarrow> is_digit c \<and> c \<noteq> CHR ''0''"
    and "is_digit c \<Longrightarrow> c \<noteq> CHR ''0'' \<longleftrightarrow> 0 < digit_val c"
    by (auto simp: between_def is_digit_def digit_val_def Let_def less_eq_char_def)
qed

lemma nat_str_digits_val:
  "is_digit c \<Longrightarrow> c \<noteq> CHR ''0'' \<Longrightarrow> list_all is_digit ds \<Longrightarrow>
     nat_str (digits_val (c # ds)) = c # ds \<and> 0 < digits_val (c # ds)"
proof (induction ds rule: rev_induct)
  case Nil
  then show ?case
    using nonzero_digit(2) [of c]
    by (simp add: digits_val_def nat_str.simps digit_val_less digit_chr_digit_val)
next
  case (snoc d ds)
  then have IH: "nat_str (digits_val (c # ds)) = c # ds" "0 < digits_val (c # ds)" and d: "is_digit d"
    by auto
  have v: "digits_val (c # ds @ [d]) = 10 * digits_val (c # ds) + digit_val d"
    using digits_val_snoc [of "c # ds" d] by simp
  have "nat_str (10 * digits_val (c # ds) + digit_val d) =
      nat_str (digits_val (c # ds)) @ [digit_chr (digit_val d)]"
    using IH(2) digit_val_less [OF d] by (subst nat_str.simps) auto
  with v IH d show ?case by (simp add: digit_chr_digit_val)
qed

lemma nat_str_head: "0 < n \<Longrightarrow> hd (nat_str n) \<noteq> CHR ''0''"
proof (induction n rule: nat_str.induct)
  case (1 n)
  show ?case
  proof (cases "n < 10")
    case True
    then have "hd (nat_str n) = digit_chr n" by (simp add: nat_str.simps)
    moreover have "digit_val (digit_chr n) = n" "is_digit (digit_chr n)"
      using True by (simp_all add: digit_val_digit_chr is_digit_digit_chr)
    ultimately show ?thesis using nonzero_digit(2) "1.prems" by metis
  next
    case False
    then have "hd (nat_str n) = hd (nat_str (n div 10))" by (simp add: nat_str.simps [of n])
    with 1 False show ?thesis by simp
  qed
qed

lemma lang_NUMERIC_ID: "lang NUMERIC_ID = range nat_str"
proof (intro set_eqI iffI)
  fix s
  assume "s \<in> lang NUMERIC_ID"
  then consider "s = nat_str 0"
    | c ds where "s = c # ds" "is_digit c" "c \<noteq> CHR ''0''" "list_all is_digit ds"
    by (auto simp: NUMERIC_ID_def star_lang_Cls nonzero_digit(1))
  then show "s \<in> range nat_str"
  proof cases
    case 2
    then show ?thesis using nat_str_digits_val by (metis rangeI)
  qed blast
next
  fix s
  assume "s \<in> range nat_str"
  then obtain n where s: "s = nat_str n" by auto
  show "s \<in> lang NUMERIC_ID"
  proof (cases "n = 0")
    case False
    obtain c ds where c: "nat_str n = c # ds" by (meson nat_str_not_Nil neq_Nil_conv)
    have "c \<noteq> CHR ''0''" using nat_str_head [of n] False c by simp
    moreover have "is_digit c" "list_all is_digit ds"
      using nat_str_digits [of _ n] c by (auto simp: list_all_iff)
    ultimately have "[c] @ ds \<in> lang (Seq (Cls (between (CHR ''1'') (CHR ''9''))) (Star (Cls digit)))"
      by (intro lang_SeqI) (auto simp: star_lang_Cls nonzero_digit(1))
    then show ?thesis unfolding s c NUMERIC_ID_def by simp
  qed (simp add: s NUMERIC_ID_def)
qed

lemma no_boundary_ids [simp]: "no_boundary NUMERIC_ID" "no_boundary PRERELEASE_ID" "no_boundary SEMVER_CORE"
  by (simp_all add: NUMERIC_ID_def PRERELEASE_ID_def SEMVER_CORE_def)

lemma SEMVER_CORE_cases:
  assumes "s \<in> lang SEMVER_CORE"
  obtains v where "s = release v" | v pre where "s = release v @ CHR ''-'' # pre"
proof -
  from assms obtain x y z w where s: "s = x @ ''.'' @ y @ ''.'' @ z @ w"
    and n: "x \<in> lang NUMERIC_ID" "y \<in> lang NUMERIC_ID" "z \<in> lang NUMERIC_ID"
    and w: "w = [] \<or> (\<exists>pre. w = CHR ''-'' # pre)"
    by (auto simp: SEMVER_CORE_def)
  from n obtain a b c where "x = nat_str a" "y = nat_str b" "z = nat_str c"
    unfolding lang_NUMERIC_ID by blast
  with s have "s = release (a, b, c) @ w" by (simp add: release_def)
  with w that show ?thesis by auto
qed

lemma release_SEMVER_CORE: "release v \<in> lang SEMVER_CORE"
proof -
  obtain a b c where v: "v = (a, b, c)" by (metis surj_pair)
  have n: "nat_str n \<in> lang NUMERIC_ID" for n by (simp add: lang_NUMERIC_ID)
  have "nat_str a @ ''.'' @ nat_str b @ ''.'' @ nat_str c @ [] \<in> lang SEMVER_CORE"
    unfolding SEMVER_CORE_def by (intro lang_SeqI n) simp_all
  then show ?thesis by (simp add: v release_def)
qed

lemma SemVer_lang: "SemVer s \<longleftrightarrow> s \<in> lang SEMVER_CORE"
  by (simp add: SemVer_def rx_full_lang)

lemma SemVer_release_iff: "SemVer s \<and> CHR ''-'' \<notin> set s \<longleftrightarrow> (\<exists>v. s = release v)"
proof
  assume s: "SemVer s \<and> CHR ''-'' \<notin> set s"
  then have "s \<in> lang SEMVER_CORE" by (simp add: SemVer_lang)
  then show "\<exists>v. s = release v"
    using s by (elim SEMVER_CORE_cases) auto
next
  assume "\<exists>v. s = release v"
  then show "SemVer s \<and> CHR ''-'' \<notin> set s"
    using release_SEMVER_CORE by (auto simp: SemVer_lang)
qed

lemma BigInt_core_ex:
  "s \<in> lang SEMVER_CORE \<Longrightarrow>
     \<exists>a b c. map BigInt (js_split (CHR ''.'') (hd (js_split (CHR ''-'') s))) =
       [Some (int a), Some (int b), Some (int c)]"
proof (erule SEMVER_CORE_cases)
  fix v assume "s = release v"
  then show ?thesis by (cases v) simp
next
  fix v pre assume "s = release v @ CHR ''-'' # pre"
  then have "hd (js_split (CHR ''-'') s) = release v"
    by (simp add: js_split_append_sep)
  then show ?thesis by (cases v) simp
qed

lemma BigInt_core:
  assumes "s \<in> lang SEMVER_CORE"
  obtains a b c where "map BigInt (js_split (CHR ''.'') (hd (js_split (CHR ''-'') s))) =
       [Some (int a), Some (int b), Some (int c)]"
  using BigInt_core_ex [OF assms] by (elim exE)

lemma SemVerRange_cases:
  assumes "SemVerRange r"
  obtains s where "r = s" "s \<in> lang SEMVER_CORE"
    | s where "r = ''>='' @ s" "s \<in> lang SEMVER_CORE"
    | s where "r = ''^'' @ s" "s \<in> lang SEMVER_CORE"
    | s where "r = ''~'' @ s" "s \<in> lang SEMVER_CORE"
proof -
  from assms obtain u s where "r = u @ s" "s \<in> lang SEMVER_CORE" "u \<in> {[], ''>='', ''^'', ''~''}"
    by (auto simp: SemVerRange_def rx_full_lang)
  then show ?thesis using that by auto
qed

lemma range_upper_total:
  "op \<in> {''^'', ''~''} \<Longrightarrow> \<exists>u. range_upper op [int a, int b, int c] = Inr u"
  using range_upper_caret range_upper_tilde by auto

lemma range_op_SEMVER_CORE: "s \<in> lang SEMVER_CORE \<Longrightarrow> range_op s = []"
proof -
  assume "s \<in> lang SEMVER_CORE"
  then obtain v t where s: "s = release v @ t"
    by (metis SEMVER_CORE_cases append_Nil2)
  obtain c cs where c: "release v = c # cs" "is_digit c"
    using hd_release [of v] release_not_Nil [of v] by (cases "release v") auto
  then show ?thesis unfolding s by (auto simp: range_op_def)
qed

lemma satisfiesRuntime_caret_tilde_total:
  assumes "s \<in> lang SEMVER_CORE" and "op \<in> {''^'', ''~''}"
  shows "\<exists>b. satisfiesRuntime version (op @ s) = Inr b"
proof -
  obtain a b c where
    B: "map BigInt (js_split (CHR ''.'') (hd (js_split (CHR ''-'') s))) = [Some (int a), Some (int b), Some (int c)]"
    using BigInt_core [OF assms(1)] .
  obtain u where u: "range_upper op [int a, int b, int c] = Inr u"
    using range_upper_total [OF assms(2)] by blast
  have op: "range_op (op @ s) = op" "drop (length op) (op @ s) = s"
    using assms(2) range_op_simps by auto
  show ?thesis unfolding satisfiesRuntime_def op Let_def by (simp add: B u) blast
qed

text \<open>
  Runtime ranges are total on what the schema admits: for every version text and every range
  the \<open>SemVerRange\<close> schema accepts, \<open>satisfiesRuntime\<close> returns a boolean; neither \<open>BigInt\<close> nor the
  increment of a missing component can raise.
\<close>

theorem satisfiesRuntime_total:
  assumes "SemVerRange rng"
  shows "\<exists>b. satisfiesRuntime version rng = Inr b"
  using assms
proof (cases rule: SemVerRange_cases)
  case (1 s)
  then show ?thesis by (simp add: satisfiesRuntime_def range_op_SEMVER_CORE)
next
  case (2 s)
  show ?thesis unfolding 2 satisfiesRuntime_def range_op_simps Let_def by simp blast
next
  case (3 s)
  then show ?thesis using satisfiesRuntime_caret_tilde_total [of s "''^''"] by simp
next
  case (4 s)
  then show ?thesis using satisfiesRuntime_caret_tilde_total [of s "''~''"] by simp
qed

theorem satisfiesRuntime_total_witness:
  "\<exists>b. satisfiesRuntime ''0.1.0'' ''^0.1.0-rc.1'' = Inr b"
  by (rule satisfiesRuntime_total) code_simp

subsection \<open>What the part schema guarantees\<close>

lemma PartDefinition_okD:
  assumes "PartDefinition_ok u p"
  shows "part_fields_ok u p" "base_issues p = []" "status p \<noteq> Draft \<Longrightarrow> release_issues p = []"
  using assms by (auto simp: PartDefinition_ok_def part_issues_def split: if_splits)

lemma host_logic:
  assumes "PartDefinition_ok u p" and "part_interface (electrical p) = HostIf"
  shows "\<exists>v. logic_v (electrical p) = Some (v, v) \<and> z_positive v"
proof -
  have "base_issues p = []" by (rule PartDefinition_okD [OF assms(1)])
  then obtain r where r: "logic_v (electrical p) = Some r" "fst r = snd r"
    using assms(2) by (auto simp: base_issues_def Let_def jeq_def split: option.splits)
  moreover have "VoltageRange_ok r"
    using PartDefinition_okD(1) [OF assms(1)] r(1)
    by (simp add: part_fields_ok_def PartElectrical_ok_def opt_ok_def)
  ultimately show ?thesis by (cases r) (auto simp: VoltageRange_ok_def)
qed

lemma released_cost:
  assumes "PartDefinition_ok u p" and "status p \<noteq> Draft"
  shows "\<exists>c. unit_cost_usd (commerce p) = Some c \<and> z_positive c"
proof -
  have "release_issues p = []" using PartDefinition_okD(3) assms by blast
  then obtain c where "unit_cost_usd (commerce p) = Some c"
    by (auto simp: release_issues_def Let_def)
  with PartDefinition_okD(1) [OF assms(1)] show ?thesis
    by (simp add: part_fields_ok_def PartCommerce_ok_def opt_ok_def)
qed

lemma released_logic:
  assumes "PartDefinition_ok u p" and "status p \<noteq> Draft" and "\<not> is_passive (part_interface (electrical p))"
  shows "\<exists>r. logic_v (electrical p) = Some r" "driver_pkg (software p) \<noteq> None"
  using PartDefinition_okD(3) [OF assms(1,2)] assms(3)
  by (auto simp: release_issues_def Let_def split: if_splits)

text \<open>\<open>0x08\<close> to \<open>0x77\<close>, in lower-case hexadecimal.\<close>

definition hex_val :: "char \<Rightarrow> nat" where
  "hex_val c = (if is_digit c then of_char c - 48 else of_char c - 87)"

lemma hex_low_iff: "hex_low c \<longleftrightarrow> is_digit c \<or> (97 \<le> (of_char c :: nat) \<and> (of_char c :: nat) \<le> 102)"
  by (auto simp: hex_low_def between_def less_eq_char_def)

lemma I2cAddress_shape:
  "I2cAddress s \<longleftrightarrow> (\<exists>a b. s = [CHR ''0'', CHR ''x'', a, b] \<and>
     ((a = CHR ''0'' \<and> (one_of ''89'' b \<or> between (CHR ''a'') (CHR ''f'') b)) \<or>
      (between (CHR ''1'') (CHR ''6'') a \<and> hex_low b) \<or>
      (a = CHR ''7'' \<and> between (CHR ''0'') (CHR ''7'') b)))"
  unfolding I2cAddress_def Chr_def
  by (subst rx_full_lang, simp) (unfold lang_Seq_Lit lang.simps(4) lang_Seq_Cls_Cls, auto)

lemma char_eq_code: "c = d \<longleftrightarrow> (of_char c :: nat) = of_char d"
  by simp

text \<open>
  The I2C address pattern is exactly the 7-bit range outside the reserved addresses: a text
  matches iff it is \<open>0x\<close> and two lower-case hexadecimal digits whose value lies between \<open>0x08\<close>
  and \<open>0x77\<close>.
\<close>

theorem I2cAddress_range:
  "I2cAddress s \<longleftrightarrow>
     (\<exists>a b. s = ''0x'' @ [a, b] \<and> hex_low a \<and> hex_low b \<and>
        8 \<le> 16 * hex_val a + hex_val b \<and> 16 * hex_val a + hex_val b \<le> 119)"
proof -
  note defs = hex_low_iff hex_val_def is_digit_def between_def less_eq_char_def Let_def one_of_def
  have a0: "a = CHR ''0'' \<longleftrightarrow> hex_low a \<and> hex_val a = 0" for a
    unfolding char_eq_code [of a] by (auto simp: defs)
  have a7: "a = CHR ''7'' \<longleftrightarrow> hex_low a \<and> hex_val a = 7" for a
    unfolding char_eq_code [of a] by (auto simp: defs)
  have a16: "between (CHR ''1'') (CHR ''6'') a \<longleftrightarrow> hex_low a \<and> 1 \<le> hex_val a \<and> hex_val a \<le> 6" for a
    by (auto simp: defs)
  have b89: "one_of ''89'' b \<or> between (CHR ''a'') (CHR ''f'') b \<longleftrightarrow> hex_low b \<and> 8 \<le> hex_val b" for b
    by (auto simp: defs char_eq_code [of b])
  have b07: "between (CHR ''0'') (CHR ''7'') b \<longleftrightarrow> hex_low b \<and> hex_val b \<le> 7" for b
    by (auto simp: defs)
  have b15: "hex_low b \<Longrightarrow> hex_val b \<le> 15" for b
    by (auto simp: defs)
  have "((a = CHR ''0'' \<and> (one_of ''89'' b \<or> between (CHR ''a'') (CHR ''f'') b)) \<or>
      (between (CHR ''1'') (CHR ''6'') a \<and> hex_low b) \<or>
      (a = CHR ''7'' \<and> between (CHR ''0'') (CHR ''7'') b)) \<longleftrightarrow>
    hex_low a \<and> hex_low b \<and>
        8 \<le> 16 * hex_val a + hex_val b \<and> 16 * hex_val a + hex_val b \<le> 119" for a b
    unfolding a0 a7 a16 b89 b07 using b15 [of b] by auto
  then show ?thesis unfolding I2cAddress_shape by simp
qed

end
