(* ===== verification/Plan_Schema.thy ===== *)
theory Plan_Schema
  imports Part_Schema
begin

text \<open>
  Build plans and the evidence they rest on: \<open>packages/schema/src/build-plan.ts\<close>. The objects are
  records, the Zod checks are the predicates \<open>X_ok\<close>, and \<open>serializeBuildPlanInput\<close> is the
  canonical JSON text whose digest identifies a plan's input; it is shown not to depend on the
  order in which an object lists its keys.
\<close>

subsection \<open>Pins, profiles and compatibility rows\<close>

record PartPin =
  pin_id :: string
  pin_version :: string

definition PartPin_ok :: "PartPin \<Rightarrow> bool" where
  "PartPin_ok p \<longleftrightarrow> PartId (pin_id p) \<and> SemVer (pin_version p)"

definition Fraction :: "jsnum \<Rightarrow> bool" where
  "Fraction n \<longleftrightarrow> z_positive n \<and> jle n (Fin 1)"

datatype Rail = BrainRail | SourceRail

record Port =
  port_id :: string
  port_interface :: PartInterface
  port_connector :: string
  port_rail :: Rail
  max_current_ma :: jsnum
  port_resources :: "string list"
  port_capacity :: int

record Activity =
  act_part :: PartPin
  active_s :: jsnum
  act_evidence :: string

record AssemblyProfile =
  prof_id :: string
  prof_version :: string
  evidence :: string
  brain_pin :: PartPin
  source_pin :: PartPin
  source_connector :: string
  brain_input :: string
  regulator_efficiency :: jsnum
  quiescent_source_ma :: jsnum
  battery_usable_fraction :: jsnum
  ports :: "Port list"
  activity :: "Activity list"

definition pinKey :: "PartPin \<Rightarrow> string" where
  "pinKey p = pin_id p @ ''@'' @ pin_version p"

definition Port_ok :: "Port \<Rightarrow> bool" where
  "Port_ok p \<longleftrightarrow>
     port_id p \<noteq> [] \<and> port_interface p \<notin> {HostIf, PowerIf} \<and> ConnectorId (port_connector p) \<and>
     z_positive (max_current_ma p) \<and>
     list_all (\<lambda>r. r \<noteq> []) (port_resources p) \<and> port_resources p \<noteq> [] \<and>
     1 \<le> port_capacity p \<and> port_capacity p \<le> 112"

definition Activity_ok :: "Activity \<Rightarrow> bool" where
  "Activity_ok a \<longleftrightarrow> PartPin_ok (act_part a) \<and> z_nonnegative (active_s a) \<and> act_evidence a \<noteq> []"

text \<open>The \<open>superRefine\<close> of a profile.\<close>

definition profile_issues :: "AssemblyProfile \<Rightarrow> string list" where
  "profile_issues p =
     issue_if (length (js_unique (map port_id (ports p))) \<noteq> length (ports p)) ''port ids must be unique''
     @ concat (map (\<lambda>port.
          issue_if (port_interface port \<noteq> I2c \<and> port_capacity port \<noteq> 1) ''only I2C ports can be shared''
          @ issue_if (length (js_unique (port_resources port)) \<noteq> length (port_resources port))
              ''port resources must be unique'') (ports p))
     @ issue_if (length (js_unique (map (pinKey \<circ> act_part) (activity p))) \<noteq> length (activity p))
         ''activity pins must be unique''"

definition AssemblyProfile_ok :: "AssemblyProfile \<Rightarrow> bool" where
  "AssemblyProfile_ok p \<longleftrightarrow>
     1 \<le> length (prof_id p) \<and> length (prof_id p) \<le> 120 \<and> SemVer (prof_version p) \<and>
     1 \<le> length (evidence p) \<and> length (evidence p) \<le> 1000 \<and>
     PartPin_ok (brain_pin p) \<and> PartPin_ok (source_pin p) \<and> ConnectorId (source_connector p) \<and>
     brain_input p \<noteq> [] \<and> Fraction (regulator_efficiency p) \<and>
     z_nonnegative (quiescent_source_ma p) \<and> Fraction (battery_usable_fraction p) \<and>
     list_all Port_ok (ports p) \<and> length (ports p) \<le> 32 \<and>
     list_all Activity_ok (activity p) \<and> length (activity p) \<le> 24 \<and>
     profile_issues p = []"

datatype CompatStatus = Passed | Failed | Pending

record CompatEntry =
  compat_pkg :: string
  compat_driver_ver :: string
  compat_runtime_ver :: string
  compat_brain :: string
  compat_status :: CompatStatus

definition CompatEntry_ok :: "CompatEntry \<Rightarrow> bool" where
  "CompatEntry_ok c \<longleftrightarrow>
     compat_pkg c \<noteq> [] \<and> SemVer (compat_driver_ver c) \<and> SemVer (compat_runtime_ver c) \<and>
     PartId (compat_brain c)"

subsection \<open>Plans\<close>

record WiringEdge =
  edge_part :: PartPin
  edge_port :: string
  edge_rail :: Rail
  edge_connector :: string
  edge_resources :: "string list"

definition WiringEdge_ok :: "WiringEdge \<Rightarrow> bool" where
  "WiringEdge_ok e \<longleftrightarrow>
     PartPin_ok (edge_part e) \<and> edge_port e \<noteq> [] \<and> ConnectorId (edge_connector e) \<and>
     list_all (\<lambda>r. r \<noteq> []) (edge_resources e)"

record PowerBudget =
  average_source_ma :: jsnum
  peak_source_ma :: jsnum
  peak_brain_rail_ma :: jsnum
  usable_capacity_mah :: "jsnum option"
  estimated_life_days :: "jsnum option"

definition PowerBudget_ok :: "PowerBudget \<Rightarrow> bool" where
  "PowerBudget_ok b \<longleftrightarrow>
     z_nonnegative (average_source_ma b) \<and> z_nonnegative (peak_source_ma b) \<and>
     z_nonnegative (peak_brain_rail_ma b) \<and> opt_ok z_positive (usable_capacity_mah b) \<and>
     opt_ok z_nonnegative (estimated_life_days b)"

record BomLine =
  bom_part :: PartPin
  bom_quantity :: nat
  bom_unit_cost_usd :: jsnum

record WiringGraph =
  graph_source :: PartPin
  graph_brain :: PartPin
  graph_brain_input :: string
  graph_peripherals :: "WiringEdge list"

record BuildPlan =
  part_versions :: "PartPin list"
  plan_runtime :: string
  plan_profile :: "string \<times> string"
  wiring_graph :: WiringGraph
  power_budget :: PowerBudget
  bom :: "BomLine list"
  total_cost_usd :: jsnum
  solver_log :: "string list"

definition BuildPlanV1_ok :: "BuildPlan \<Rightarrow> bool" where
  "BuildPlanV1_ok p \<longleftrightarrow>
     list_all PartPin_ok (part_versions p) \<and> 2 \<le> length (part_versions p) \<and> length (part_versions p) \<le> 24 \<and>
     SemVer (plan_runtime p) \<and>
     1 \<le> length (fst (plan_profile p)) \<and> length (fst (plan_profile p)) \<le> 120 \<and> SemVer (snd (plan_profile p)) \<and>
     PartPin_ok (graph_source (wiring_graph p)) \<and> PartPin_ok (graph_brain (wiring_graph p)) \<and>
     graph_brain_input (wiring_graph p) \<noteq> [] \<and>
     list_all WiringEdge_ok (graph_peripherals (wiring_graph p)) \<and>
     length (graph_peripherals (wiring_graph p)) \<le> 24 \<and>
     PowerBudget_ok (power_budget p) \<and>
     list_all (\<lambda>l. PartPin_ok (bom_part l) \<and> bom_quantity l = 1 \<and> z_nonnegative (bom_unit_cost_usd l)) (bom p) \<and>
     2 \<le> length (bom p) \<and> length (bom p) \<le> 24 \<and>
     z_nonnegative (total_cost_usd p) \<and> length (solver_log p) \<le> 256"

record BuildPlanEvidence =
  ev_parts :: "PartDefinition list"
  ev_connectors :: "ConnectorDefinition list"
  ev_profile :: AssemblyProfile
  ev_compat :: "CompatEntry list"

definition BuildPlanEvidence_ok :: "(string \<Rightarrow> bool) \<Rightarrow> BuildPlanEvidence \<Rightarrow> bool" where
  "BuildPlanEvidence_ok https_url e \<longleftrightarrow>
     list_all (PartDefinition_ok https_url) (ev_parts e) \<and> 2 \<le> length (ev_parts e) \<and> length (ev_parts e) \<le> 24 \<and>
     list_all ConnectorDefinition_ok (ev_connectors e) \<and> length (ev_connectors e) \<le> 64 \<and>
     AssemblyProfile_ok (ev_profile e) \<and>
     list_all CompatEntry_ok (ev_compat e) \<and> length (ev_compat e) \<le> 4096"

record BuildPlanMetadata =
  md_schema_version :: int
  md_runtime :: string
  md_profile :: "string \<times> string"
  md_total_cost_usd :: jsnum
  md_input_digest :: string
  md_evidence :: BuildPlanEvidence

definition BuildPlanMetadata_ok :: "(string \<Rightarrow> bool) \<Rightarrow> BuildPlanMetadata \<Rightarrow> bool" where
  "BuildPlanMetadata_ok https_url m \<longleftrightarrow>
     md_schema_version m = 1 \<and> SemVer (md_runtime m) \<and>
     1 \<le> length (fst (md_profile m)) \<and> length (fst (md_profile m)) \<le> 120 \<and> SemVer (snd (md_profile m)) \<and>
     z_nonnegative (md_total_cost_usd m) \<and>
     rx_full (Times 64 (Cls (\<lambda>c. between (CHR ''a'') (CHR ''f'') c \<or> digit c))) (md_input_digest m) \<and>
     BuildPlanEvidence_ok https_url (md_evidence m)"

text \<open>Pin keys determine pins, since a part id holds no \<open>@\<close>.\<close>

lemma pinKey_inject:
  assumes "CHR ''@'' \<notin> set (pin_id p)" and "CHR ''@'' \<notin> set (pin_id q)" and "pinKey p = pinKey q"
  shows "p = q"
proof -
  have "js_split (CHR ''@'') (pinKey r) = pin_id r # js_split (CHR ''@'') (pin_version r)"
    if "CHR ''@'' \<notin> set (pin_id r)" for r
    using js_split_append_sep [OF that] by (simp add: pinKey_def)
  with assms have "pin_id p = pin_id q" by (metis list.inject)
  with assms(3) show ?thesis by (simp add: pinKey_def)
qed

lemma PartId_no_at: "PartId s \<Longrightarrow> CHR ''@'' \<notin> set s"
proof -
  assume "PartId s"
  then obtain c ds where s: "s = [c] @ ''-'' @ ds" "one_of ''VPLCME'' c" "list_all is_digit ds"
    by (auto simp: PartId_def rx_full_lang lang_Times_Cls simp del: Times.simps)
  have "\<not> is_digit (CHR ''@'')" by (simp add: is_digit_def)
  with s show ?thesis by (auto simp: list_all_iff one_of_def)
qed

subsection \<open>Canonical JSON\<close>

text \<open>
  The values \<open>encode\<close> can meet: JSON data, \<open>undefined\<close>, and anything else (functions, dates,
  class instances), on which it throws. \<open>JObj\<close> lists the enumerable own properties in the order
  \<open>Object.entries\<close> yields them.
\<close>

datatype jvalue =
    JNull
  | JBool bool
  | JNum jsnum
  | JStr string
  | JArr "jvalue list"
  | JObj "(string \<times> jvalue) list"
  | JUndefined
  | JOther

definition hex_digit :: "nat \<Rightarrow> char" where
  "hex_digit n = (if n < 10 then char_of (48 + n) else char_of (87 + n))"

text \<open>\<open>JSON.stringify\<close> of a string.\<close>

definition json_char :: "char \<Rightarrow> string" where
  "json_char c =
     (let n = (of_char c :: nat) in
      if c = CHR 0x22 then [CHR 0x5C, CHR 0x22]
      else if c = CHR 0x5C then [CHR 0x5C, CHR 0x5C]
      else if n = 8 then [CHR 0x5C, CHR ''b'']
      else if n = 9 then [CHR 0x5C, CHR ''t'']
      else if n = 10 then [CHR 0x5C, CHR ''n'']
      else if n = 12 then [CHR 0x5C, CHR ''f'']
      else if n = 13 then [CHR 0x5C, CHR ''r'']
      else if n < 32 then [CHR 0x5C, CHR ''u'', CHR ''0'', CHR ''0'', hex_digit (n div 16), hex_digit (n mod 16)]
      else [c])"

definition json_string :: "string \<Rightarrow> string" where
  "json_string s = [CHR 0x22] @ concat (map json_char s) @ [CHR 0x22]"

definition by_key :: "string \<times> 'a \<Rightarrow> string \<times> 'a \<Rightarrow> int" where
  "by_key x y = compare_lt (fst x) (fst y)"

definition plan_identity_error :: js_error where
  "plan_identity_error = Thrown ''Plan identity must contain only finite JSON data''"

definition json_field :: "string \<times> (js_error + string) \<Rightarrow> js_error + string" where
  "json_field kv = (case snd kv of Inl e \<Rightarrow> Inl e | Inr t \<Rightarrow> Inr (json_string (fst kv) @ '':'' @ t))"

lemma jobj_size [termination_simp]:
  "kv \<in> set kvs \<Longrightarrow> size (snd kv) < Suc (size_list (size_prod (\<lambda>_. 0) size) kvs)"
  for kvs :: "(string \<times> jvalue) list"
  by (induction kvs) auto

fun encode :: "jvalue \<Rightarrow> js_error + string" where
  "encode JNull = Inr ''null''"
| "encode (JBool b) = Inr (if b then ''true'' else ''false'')"
| "encode (JStr s) = Inr (json_string s)"
| "encode (JNum n) = (if isFinite n then Inr (num_str n) else Inl plan_identity_error)"
| "encode (JArr xs) =
     (case seq_all (map encode xs) of
        Inl e \<Rightarrow> Inl e
      | Inr ts \<Rightarrow> Inr (''['' @ js_join '','' ts @ '']''))"
| "encode (JObj kvs) =
     (case seq_all (map json_field (js_sort by_key
              (map (\<lambda>kv. (fst kv, encode (snd kv))) (filter (\<lambda>kv. snd kv \<noteq> JUndefined) kvs)))) of
        Inl e \<Rightarrow> Inl e
      | Inr ts \<Rightarrow> Inr ([CHR 0x7B] @ js_join '','' ts @ [CHR 0x7D]))"
| "encode JUndefined = Inl plan_identity_error"
| "encode JOther = Inl plan_identity_error"

text \<open>\<open>JSON.stringify(value, null, 2)\<close> at an indentation; an object leaves undefined values out.\<close>

fun json_pretty :: "string \<Rightarrow> jvalue \<Rightarrow> string" where
  "json_pretty ind JNull = ''null''"
| "json_pretty ind (JBool b) = (if b then ''true'' else ''false'')"
| "json_pretty ind (JStr s) = json_string s"
| "json_pretty ind (JNum n) = (if isFinite n then num_str n else ''null'')"
| "json_pretty ind (JArr xs) =
     (if xs = [] then ''[]''
      else ''[\<newline>'' @ js_join '',\<newline>'' (map (\<lambda>x. ind @ ''  '' @ json_pretty (ind @ ''  '') x) xs) @ ''\<newline>'' @ ind @ '']'')"
| "json_pretty ind (JObj kvs) =
     (let shown = filter (\<lambda>kv. snd kv \<noteq> JUndefined) kvs
      in if shown = [] then [CHR 0x7B, CHR 0x7D]
         else [CHR 0x7B] @ ''\<newline>'' @ js_join '',\<newline>''
                (map (\<lambda>kv. ind @ ''  '' @ json_string (fst kv) @ '': '' @ json_pretty (ind @ ''  '') (snd kv)) shown)
              @ ''\<newline>'' @ ind @ [CHR 0x7D])"
| "json_pretty ind JUndefined = ''null''"
| "json_pretty ind JOther = ''null''"

text \<open>\<open>JSON.stringify\<close>: keys in their own order, undefined members left out.\<close>

fun json_stringify :: "jvalue \<Rightarrow> string option" where
  "json_stringify JNull = Some ''null''"
| "json_stringify (JBool b) = Some (if b then ''true'' else ''false'')"
| "json_stringify (JStr s) = Some (json_string s)"
| "json_stringify (JNum n) = Some (if isFinite n then num_str n else ''null'')"
| "json_stringify (JArr xs) =
     Some (''['' @ js_join '','' (map (\<lambda>x. case json_stringify x of None \<Rightarrow> ''null'' | Some t \<Rightarrow> t) xs) @ '']'')"
| "json_stringify (JObj kvs) =
     Some ([CHR 0x7B] @ js_join '',''
       (concat (map (\<lambda>kv. case json_stringify (snd kv) of None \<Rightarrow> [] | Some t \<Rightarrow> [json_string (fst kv) @ '':'' @ t]) kvs)) @ [CHR 0x7D])"
| "json_stringify JUndefined = None"
| "json_stringify JOther = None"

definition serializeBuildPlanInput :: "jvalue \<Rightarrow> string \<Rightarrow> jvalue \<Rightarrow> js_error + string" where
  "serializeBuildPlanInput spec runtime evidence_json =
     encode (JObj [(''spec'', spec), (''runtime'', JStr runtime), (''evidence'', evidence_json)])"

lemma by_key_comparator:
  "distinct (map fst kvs) \<Longrightarrow> strict_comparator by_key (\<lambda>kv. kv \<in> set kvs)"
  by unfold_locales
     (auto simp: by_key_def compare_lt_def sgn_if eq_key_imp_eq_value split: if_splits
       intro: prod_eqI dest: eq_key_imp_eq_value)

lemma encode_obj_perm:
  assumes "mset kvs = mset kvs'" and "distinct (map fst kvs)"
  shows "encode (JObj kvs) = encode (JObj kvs')"
proof -
  let ?f = "\<lambda>kvs. map (\<lambda>kv. (fst kv, encode (snd kv))) (filter (\<lambda>kv. snd kv \<noteq> JUndefined) kvs)"
  have "distinct (map fst (filter (\<lambda>kv. snd kv \<noteq> JUndefined) kvs))"
    using assms(2) by (rule distinct_map_filter)
  then have "distinct (map fst (?f kvs))" by (simp add: comp_def)
  moreover have "mset (?f kvs) = mset (?f kvs')" using assms(1) by (simp add: mset_filter)
  ultimately have "js_sort by_key (?f kvs) = js_sort by_key (?f kvs')"
    by (intro strict_comparator.js_sort_perm [OF by_key_comparator [of "?f kvs"]]) simp_all
  then show ?thesis by simp
qed

text \<open>The same data, up to the order of object keys at any depth.\<close>

inductive same_json :: "jvalue \<Rightarrow> jvalue \<Rightarrow> bool" where
  same_refl: "same_json v v"
| same_arr: "list_all2 same_json xs ys \<Longrightarrow> same_json (JArr xs) (JArr ys)"
| same_obj: "list_all2 (\<lambda>a b. fst a = fst b \<and> same_json (snd a) (snd b)) kvs kvs' \<Longrightarrow>
     mset kvs' = mset kvs'' \<Longrightarrow> distinct (map fst kvs) \<Longrightarrow> same_json (JObj kvs) (JObj kvs'')"

lemma same_json_undefined: "same_json v w \<Longrightarrow> v = JUndefined \<longleftrightarrow> w = JUndefined"
  by (cases rule: same_json.cases) auto

lemma encode_obj_pointwise:
  assumes "list_all2 (\<lambda>a b. fst a = fst b \<and> (snd a = JUndefined \<longleftrightarrow> snd b = JUndefined) \<and>
             encode (snd a) = encode (snd b)) kvs kvs'"
  shows "encode (JObj kvs) = encode (JObj kvs')"
proof -
  have "map (\<lambda>kv. (fst kv, encode (snd kv))) (filter (\<lambda>kv. snd kv \<noteq> JUndefined) kvs) =
        map (\<lambda>kv. (fst kv, encode (snd kv))) (filter (\<lambda>kv. snd kv \<noteq> JUndefined) kvs')"
    using assms by (induction rule: list_all2_induct) auto
  then show ?thesis by simp
qed

text \<open>
  The canonical text of a plan's input does not depend on the order in which objects list
  their keys: two values with the same data, with keys permuted at any depth, encode to the same
  text (or both fail).
\<close>

theorem encode_key_order:
  assumes "same_json v w"
  shows "encode v = encode w"
  using assms
proof (induction rule: same_json.induct)
  case (same_arr xs ys)
  then have "list_all2 (\<lambda>x y. encode x = encode y) xs ys"
    by (auto elim: list_all2_mono)
  then have "map encode xs = map encode ys" by (induction rule: list_all2_induct) auto
  then show ?case by simp
next
  case (same_obj kvs kvs' kvs'')
  have keys: "map fst kvs = map fst kvs'"
    using same_obj(1) by (induction rule: list_all2_induct) auto
  have "encode (JObj kvs) = encode (JObj kvs')"
    using same_obj(1)
    by (intro encode_obj_pointwise) (erule list_all2_mono, auto simp: same_json_undefined)
  also have "\<dots> = encode (JObj kvs'')"
    using same_obj keys by (intro encode_obj_perm) auto
  finally show ?case .
qed simp

theorem encode_key_order_witness:
  "encode (JObj [(''b'', JNum (Fin 1)), (''a'', JArr [JNull])]) =
   encode (JObj [(''a'', JArr [JNull]), (''b'', JNum (Fin 1))])"
  by (rule encode_key_order, rule same_obj [where kvs' = "[(''b'', JNum (Fin 1)), (''a'', JArr [JNull])]"])
     (auto intro: same_refl)

end
