(* ===== verification/Matcher_Types.thy ===== *)
theory Matcher_Types
  imports Plan_Schema
begin

text \<open>
  The matcher's contract and its power arithmetic: \<open>apps/matcher/src/types.ts\<close>, \<open>power.ts\<close>,
  \<open>rank.ts\<close> and \<open>explain.ts\<close>. Currents, voltages and prices are doubles with their rounding.
\<close>

subsection \<open>The solver's input and output\<close>

datatype Transport = Wifi | Ble | Lora | NoTransport

datatype PowerSource = Battery | Usb | Solar

record SolveSpec =
  spec_capabilities :: "string list"
  transport :: Transport
  power_source :: PowerSource
  interval_s :: jsnum
  target_life_days :: "jsnum option"
  runtime :: string

record SolveInput =
  in_spec :: SolveSpec
  in_parts :: "PartDefinition list"
  in_connectors :: "ConnectorDefinition list"
  in_profiles :: "AssemblyProfile list"
  in_compat :: "CompatEntry list"
  max_steps :: nat
  max_plans :: nat

datatype Constraint = Coverage | Requires | Conflict | I2cClash | RuntimeC | Compatibility | Logic
  | Wiring | Voltage | Current | BatteryLife | Catalogue

fun constraint_text :: "Constraint \<Rightarrow> string" where
  "constraint_text Coverage = ''coverage''"
| "constraint_text Requires = ''requires''"
| "constraint_text Conflict = ''conflict''"
| "constraint_text I2cClash = ''i2c''"
| "constraint_text RuntimeC = ''runtime''"
| "constraint_text Compatibility = ''compatibility''"
| "constraint_text Logic = ''logic''"
| "constraint_text Wiring = ''wiring''"
| "constraint_text Voltage = ''voltage''"
| "constraint_text Current = ''current''"
| "constraint_text BatteryLife = ''battery''"
| "constraint_text Catalogue = ''catalogue''"

record Failure =
  fail_constraint :: Constraint
  fail_detail :: string

abbreviation mk_failure :: "Constraint \<Rightarrow> string \<Rightarrow> Failure" where
  "mk_failure c d \<equiv> \<lparr>fail_constraint = c, fail_detail = d\<rparr>"

datatype SolveResult =
    Solved "BuildPlan list" nat nat
  | Infeasible "string list" "Failure list" string nat
  | SearchLimit nat
  | InvalidInput "string list"

definition pin :: "PartDefinition \<Rightarrow> PartPin" where
  "pin p = \<lparr>pin_id = part_id p, pin_version = part_version p\<rparr>"

definition part_key :: "PartDefinition \<Rightarrow> string" where
  "part_key p = pinKey (pin p)"

definition compareText :: "string \<Rightarrow> string \<Rightarrow> int" where
  "compareText a b = (if a < b then - 1 else if a > b then 1 else 0)"

lemma compareText_compare_lt: "compareText = compare_lt"
  by (intro ext) (simp add: compareText_def compare_lt_def)

definition profile_key :: "AssemblyProfile \<Rightarrow> string" where
  "profile_key p = prof_id p @ ''@'' @ prof_version p"

definition compat_key :: "CompatEntry \<Rightarrow> string" where
  "compat_key x =
     compat_pkg x @ ''@'' @ compat_driver_ver x @ ''/'' @ compat_runtime_ver x @ ''/'' @ compat_brain x"

text \<open>The schema checks of \<open>SolveSpec\<close> and \<open>SolveInput\<close>.\<close>

definition SolveSpec_ok :: "SolveSpec \<Rightarrow> bool" where
  "SolveSpec_ok s \<longleftrightarrow>
     list_all Capability (spec_capabilities s) \<and>
     1 \<le> length (spec_capabilities s) \<and> length (spec_capabilities s) \<le> 24 \<and>
     z_positive (interval_s s) \<and> opt_ok z_positive (target_life_days s) \<and> SemVer (runtime s)"

definition solve_input_duplicates :: "SolveInput \<Rightarrow> string list" where
  "solve_input_duplicates i =
     (let dup = (\<lambda>values what. issue_if (length (js_unique values) \<noteq> length values) (''duplicate '' @ what))
      in dup (map part_key (in_parts i)) ''part pin''
       @ dup (map conn_id (in_connectors i)) ''connector id''
       @ dup (map profile_key (in_profiles i)) ''profile pin''
       @ dup (map compat_key (in_compat i)) ''compatibility tuple'')"

definition SolveInput_ok :: "(string \<Rightarrow> bool) \<Rightarrow> SolveInput \<Rightarrow> bool" where
  "SolveInput_ok https_url i \<longleftrightarrow>
     SolveSpec_ok (in_spec i) \<and>
     list_all (PartDefinition_ok https_url) (in_parts i) \<and> length (in_parts i) \<le> 24 \<and>
     list_all ConnectorDefinition_ok (in_connectors i) \<and> length (in_connectors i) \<le> 64 \<and>
     list_all AssemblyProfile_ok (in_profiles i) \<and> length (in_profiles i) \<le> 32 \<and>
     list_all CompatEntry_ok (in_compat i) \<and> length (in_compat i) \<le> 4096 \<and>
     1 \<le> max_steps i \<and> max_steps i \<le> 1000000 \<and> 1 \<le> max_plans i \<and> max_plans i \<le> 20 \<and>
     solve_input_duplicates i = []"

lemma SolveInput_okD:
  assumes "SolveInput_ok u i"
  shows "\<And>p. p \<in> set (in_parts i) \<Longrightarrow> PartDefinition_ok u p"
    and "distinct (map part_key (in_parts i))"
    and "distinct (map conn_id (in_connectors i))"
    and "distinct (map profile_key (in_profiles i))"
  using assms length_js_unique_eq_iff
  by (force simp: SolveInput_ok_def solve_input_duplicates_def Let_def list_all_iff)+

subsection \<open>Power\<close>

definition containsVoltage :: "VoltageRange \<Rightarrow> VoltageRange \<Rightarrow> bool" where
  "containsVoltage input source \<longleftrightarrow> jle (fst input) (fst source) \<and> jle (snd source) (snd input)"

definition averageCurrent :: "PartDefinition \<Rightarrow> jsnum \<Rightarrow> AssemblyProfile \<Rightarrow> jsnum" where
  "averageCurrent part interval profile =
     (let act = List.find (\<lambda>x. pinKey (act_part x) = part_key part) (activity profile);
          duty = (case act of Some a \<Rightarrow> jmin (Fin 1) (jdiv (active_s a) interval) | None \<Rightarrow> Fin 1);
          idle = idle_ma (current_draw_ma (electrical part));
          active = active_ma (current_draw_ma (electrical part))
      in jadd idle (jmul (jsub active idle) duty))"

text \<open>The input the profile feeds: the connector input, or one of the named alternatives.\<close>

definition brain_input_range :: "PartDefinition \<Rightarrow> AssemblyProfile \<Rightarrow> VoltageRange option" where
  "brain_input_range brain profile =
     (if brain_input profile = ''primary'' then Some (voltage_range (electrical brain))
      else case alt_inputs (electrical brain) of
             None \<Rightarrow> None
           | Some inputs \<Rightarrow> map_option input_range (List.find (\<lambda>p. input_name p = brain_input profile) inputs))"

record RailLoads =
  railPeak :: jsnum
  railAverage :: jsnum
  directPeak :: jsnum
  directAverage :: jsnum

definition active_draw :: "PartDefinition \<Rightarrow> jsnum" where
  "active_draw p = active_ma (current_draw_ma (electrical p))"

text \<open>
  One turn of the loop over the peripherals. The wiring of a complete assignment has an edge for
  every peripheral, so the lookup succeeds.
\<close>

definition add_load :: "WiringEdge list \<Rightarrow> AssemblyProfile \<Rightarrow> SolveSpec \<Rightarrow> RailLoads \<Rightarrow> PartDefinition \<Rightarrow> RailLoads" where
  "add_load wiring profile spec l part =
     (case List.find (\<lambda>x. pinKey (edge_part x) = part_key part) wiring of
        Some e \<Rightarrow>
          (if edge_rail e = BrainRail
           then l\<lparr>railPeak := jadd (railPeak l) (active_draw part),
                  railAverage := jadd (railAverage l) (averageCurrent part (interval_s spec) profile)\<rparr>
           else l\<lparr>directPeak := jadd (directPeak l) (active_draw part),
                  directAverage := jadd (directAverage l) (averageCurrent part (interval_s spec) profile)\<rparr>)
      | None \<Rightarrow> l)"

text \<open>
  The three values \<open>powerBudget\<close> looks up again with \<open>!\<close> (the input range, the source's and the
  brain's supply) are the ones its only caller \<open>wire\<close> has just found to be present, and are
  passed along.
\<close>

definition powerBudget ::
    "PartDefinition \<Rightarrow> PartDefinition \<Rightarrow> PartDefinition list \<Rightarrow> WiringEdge list \<Rightarrow> AssemblyProfile \<Rightarrow>
     SolveSpec \<Rightarrow> VoltageRange \<Rightarrow> Supply \<Rightarrow> Supply \<Rightarrow> PowerBudget" where
  "powerBudget brain source peripherals wiring profile spec input output rail =
     (let sourceMin = jmax (fst (output_v output)) (fst input);
          railMax = snd (output_v rail);
          l = foldl (add_load wiring profile spec)
                \<lparr>railPeak = active_draw brain,
                 railAverage = averageCurrent brain (interval_s spec) profile,
                 directPeak = active_draw source,
                 directAverage = averageCurrent source (interval_s spec) profile\<rparr> peripherals;
          factor = jdiv railMax (jmul sourceMin (regulator_efficiency profile));
          average = jadd (jadd (directAverage l) (jmul (railAverage l) factor)) (quiescent_source_ma profile);
          peak = jadd (jadd (directPeak l) (jmul (railPeak l) factor)) (quiescent_source_ma profile);
          usable = map_option (\<lambda>c. jmul c (battery_usable_fraction profile)) (capacity_mah output)
      in \<lparr>average_source_ma = average, peak_source_ma = peak, peak_brain_rail_ma = railPeak l,
          usable_capacity_mah = usable,
          estimated_life_days =
            (case usable of
               None \<Rightarrow> None
             | Some u \<Rightarrow> if jeq average (Fin 0) then None else Some (jdiv (jdiv u average) (Fin 24)))\<rparr>)"

definition budget_finite :: "PowerBudget \<Rightarrow> bool" where
  "budget_finite b \<longleftrightarrow>
     isFinite (average_source_ma b) \<and> isFinite (peak_source_ma b) \<and> isFinite (peak_brain_rail_ma b) \<and>
     opt_ok isFinite (usable_capacity_mah b) \<and> opt_ok isFinite (estimated_life_days b)"

subsection \<open>Ranking\<close>

text \<open>\<open>a || b\<close> on numbers: zero and NaN are falsy.\<close>

definition jor :: "jsnum \<Rightarrow> jsnum \<Rightarrow> jsnum" where
  "jor a b = (if a = Fin 0 \<or> a = NaN then b else a)"

definition plan_pins_text :: "BuildPlan \<Rightarrow> string" where
  "plan_pins_text p = js_join '','' (map pinKey (part_versions p))"

definition plan_profile_text :: "BuildPlan \<Rightarrow> string" where
  "plan_profile_text p = fst (plan_profile p) @ ''@'' @ snd (plan_profile p)"

definition comparePlans :: "BuildPlan \<Rightarrow> BuildPlan \<Rightarrow> jsnum" where
  "comparePlans a b =
     jor (jsub (total_cost_usd a) (total_cost_usd b))
    (jor (jsub (average_source_ma (power_budget a)) (average_source_ma (power_budget b)))
    (jor (jsub (jnat (length (part_versions a))) (jnat (length (part_versions b))))
    (jor (Fin (of_int (compareText (plan_pins_text a) (plan_pins_text b))))
         (Fin (of_int (compareText (plan_profile_text a) (plan_profile_text b)))))))"

definition sort_plans :: "BuildPlan list \<Rightarrow> BuildPlan list" where
  "sort_plans = js_sort (\<lambda>a b. jsign (comparePlans a b))"

text \<open>
  On plans whose cost and draw are finite doubles, the comparator is the lexicographic order of
  cost, draw, number of parts, pins and profile.
\<close>

definition rankable :: "BuildPlan \<Rightarrow> bool" where
  "rankable p \<longleftrightarrow> double (total_cost_usd p) \<and> double (average_source_ma (power_budget p))"

fun fin_val :: "jsnum \<Rightarrow> rat" where
  "fin_val (Fin a) = a"
| "fin_val _ = 0"

definition rank_key :: "BuildPlan \<Rightarrow> rat \<times> rat \<times> nat \<times> string \<times> string" where
  "rank_key p =
     (fin_val (total_cost_usd p), fin_val (average_source_ma (power_budget p)),
      length (part_versions p), plan_pins_text p, plan_profile_text p)"

lemma jsign_jor: "jsign (jor a b) = (if jsign a = 0 then jsign b else jsign a)"
  by (cases a) (auto simp: jor_def)

lemma double_Fin: "double n \<Longrightarrow> \<exists>a. n = Fin a \<and> grid a"
  by (cases n) auto

lemma grid_of_nat: "grid (of_nat n)"
proof -
  have "grid (of_int (int n) * pow2 0)" by (rule grid_pow2_mult) simp
  then show ?thesis by (simp add: pow2_def)
qed

lemma jsign_compareText: "jsign (Fin (of_int (compareText a b))) = compare_lt a b"
  by (simp add: compareText_compare_lt compare_lt_def)

lemma comparePlans_key:
  assumes "rankable a" and "rankable b"
  shows "jsign (comparePlans a b) = compare_lt (rank_key a) (rank_key b)"
proof -
  obtain c d c' d' where
    f: "total_cost_usd a = Fin c" "grid c" "average_source_ma (power_budget a) = Fin d" "grid d"
       "total_cost_usd b = Fin c'" "grid c'" "average_source_ma (power_budget b) = Fin d'" "grid d'"
    using assms double_Fin unfolding rankable_def by metis
  have s: "jsign (jsub (Fin x) (Fin y)) = - compare_lt y x" if "grid x" "grid y" for x y :: rat
    using jsign_jsub [OF that] by (auto simp: compare_lt_def)
  show ?thesis
    unfolding comparePlans_def jsign_jor f jsign_compareText s [OF f(2) f(6)] s [OF f(4) f(8)]
      s [OF grid_of_nat grid_of_nat]
    by (auto simp: compare_lt_def rank_key_def f less_prod_def')
qed

interpretation plan_rank: comparator "\<lambda>a b. jsign (comparePlans a b)" rankable
  by unfold_locales (auto simp: comparePlans_key compare_lt_def sgn_if split: if_splits)

subsection \<open>Explanation\<close>

definition explain :: "string list \<Rightarrow> Failure list \<Rightarrow> string" where
  "explain cs diagnostics =
     (if length cs = 0 then
        ''No verified assembly can be built from this catalogue and its hardware/compile evidence. Add the missing evidence before changing the request.''
      else
        ''These requirements cannot be met together: ''
        @ js_join '', '' (map (\<lambda>c. if startsWith c ''capability:'' then drop 11 c else c) cs)
        @ ''. Could you relax one or add a compatible part?''
        @ (if list_ex (\<lambda>d. fail_constraint d = BatteryLife) diagnostics
           then '' A larger usable battery capacity or a longer sensing interval may help; either change must be solved again.''
           else []))"

end
