(* ===== verification/Bench.thy ===== *)
theory Bench
  imports Matcher_Types
begin

text \<open>
  A small acceptance catalogue, in the manner of \<open>apps/matcher/src/fixtures.ts\<close>: a host, a battery, a
  climate sensor and one measured profile. It models no code; the concrete instances of the matcher's
  theorems are stated on it.
\<close>

definition bench_part ::
    "string \<Rightarrow> PartCategory \<Rightarrow> PartElectrical \<Rightarrow> PartSoftware \<Rightarrow> PartCloud \<Rightarrow> nat \<Rightarrow> PartDefinition" where
  "bench_part i cat el sw cl cost =
     \<lparr>schema_hint = None, part_id = i, part_version = ''1.0.0'', part_name = i, category = cat,
      status = Active, successor = None, electrical = el,
      mechanical = \<lparr>footprint_file = ''footprint.step'', bounding_mm = Some (Fin 20, Fin 10, Fin 5),
                    mount = Cradle, exposure = ExposureNone, environment_flags = []\<rparr>,
      software = sw, cloud = cl,
      commerce = \<lparr>suppliers = [\<lparr>vendor = Adafruit, sku = ''1'', supplier_url = ''https://example.com/1''\<rparr>],
                  unit_cost_usd = Some (jnat cost)\<rparr>\<rparr>"

definition bench_host :: PartDefinition where
  "bench_host = bench_part ''C-001'' Communication
     \<lparr>part_interface = HostIf, connector = ''usb-c-v1'', voltage_range = (Fin 4, Fin 5),
      alt_inputs = Some [\<lparr>input_name = ''battery'', input_range = (Fin 3, Fin 5)\<rparr>],
      current_draw_ma = \<lparr>idle_ma = Fin 1, active_ma = Fin 65\<rparr>, requires = [], conflicts = [],
      i2c_address = None, logic_v = Some (Fin 3, Fin 3),
      part_supply = Some \<lparr>output_v = (Fin 3, Fin 3), max_output_ma = Fin 800, capacity_mah = None\<rparr>\<rparr>
     \<lparr>driver_pkg = None, driver_version = None, sdk_module = None,
      capabilities = [''bus.i2c'', ''net.wifi'', ''power.3v3''], min_runtime = ''>=0.1.0''\<rparr>
     \<lparr>telemetry_schema = None, default_widgets = [], alert_templates = []\<rparr> 20"

definition bench_battery :: PartDefinition where
  "bench_battery = bench_part ''E-001'' Energy
     \<lparr>part_interface = PowerIf, connector = ''hsx-power-2pin-v1'', voltage_range = (Fin 3, Fin 4),
      alt_inputs = None, current_draw_ma = \<lparr>idle_ma = Fin 0, active_ma = Fin 0\<rparr>, requires = [],
      conflicts = [], i2c_address = None, logic_v = None,
      part_supply = Some \<lparr>output_v = (Fin 3, Fin 4), max_output_ma = Fin 1000, capacity_mah = Some (Fin 3072)\<rparr>\<rparr>
     \<lparr>driver_pkg = None, driver_version = None, sdk_module = None,
      capabilities = [''power.battery''], min_runtime = ''>=0.1.0''\<rparr>
     \<lparr>telemetry_schema = None, default_widgets = [], alert_templates = []\<rparr> 10"

definition bench_sensor :: PartDefinition where
  "bench_sensor = bench_part ''P-001'' Physical
     \<lparr>part_interface = I2c, connector = ''hsx-i2c-4pin-v1'', voltage_range = (Fin 3, Fin 5),
      alt_inputs = None, current_draw_ma = \<lparr>idle_ma = Fin 1, active_ma = Fin 2\<rparr>, requires = [''bus.i2c''],
      conflicts = [], i2c_address = Some ''0x77'', logic_v = Some (Fin 3, Fin 5), part_supply = None\<rparr>
     \<lparr>driver_pkg = Some ''hsx-driver-bme280'', driver_version = Some ''0.1.0'',
      sdk_module = Some ''sensors/environment'', capabilities = [''read.temperature_c''], min_runtime = ''>=0.1.0''\<rparr>
     \<lparr>telemetry_schema = Some ''climate.v1'', default_widgets = [LineChart], alert_templates = []\<rparr> 15"

definition bench_connector :: "string \<Rightarrow> PartInterface \<Rightarrow> ConnectorDefinition" where
  "bench_connector i iface =
     \<lparr>conn_schema_hint = None, conn_id = i, conn_version = ''1.0.0'', conn_name = i, housing = ''JST'',
      pins = [\<lparr>pin_n = 1, pin_name = ''GND'', pin_role = RoleGround\<rparr>, \<lparr>pin_n = 2, pin_name = ''VCC'', pin_role = RolePower\<rparr>],
      interfaces = [iface], max_voltage = Fin 6\<rparr>"

definition bench_profile :: AssemblyProfile where
  "bench_profile =
     \<lparr>prof_id = ''bench'', prof_version = ''1.0.0'', evidence = ''bench measurement'',
      brain_pin = pin bench_host, source_pin = pin bench_battery, source_connector = ''hsx-power-2pin-v1'',
      brain_input = ''battery'', regulator_efficiency = Fin (1/2), quiescent_source_ma = Fin 8,
      battery_usable_fraction = Fin (1/2),
      ports = [\<lparr>port_id = ''i2c'', port_interface = I2c, port_connector = ''hsx-i2c-4pin-v1'', port_rail = BrainRail,
                max_current_ma = Fin 100, port_resources = [''sda'', ''scl''], port_capacity = 10\<rparr>],
      activity = [\<lparr>act_part = pin bench_host, active_s = Fin 1, act_evidence = ''one-second window''\<rparr>]\<rparr>"

definition bench_spec :: "string list \<Rightarrow> jsnum option \<Rightarrow> SolveSpec" where
  "bench_spec caps days =
     \<lparr>spec_capabilities = caps, transport = Wifi, power_source = Battery, interval_s = Fin 64,
      target_life_days = days, runtime = ''0.1.0''\<rparr>"

definition bench_input :: "string list \<Rightarrow> jsnum option \<Rightarrow> SolveInput" where
  "bench_input caps days =
     \<lparr>in_spec = bench_spec caps days, in_parts = [bench_sensor, bench_host, bench_battery],
      in_connectors = [bench_connector ''usb-c-v1'' HostIf, bench_connector ''hsx-power-2pin-v1'' PowerIf,
                       bench_connector ''hsx-i2c-4pin-v1'' I2c],
      in_profiles = [bench_profile],
      in_compat = [\<lparr>compat_pkg = ''hsx-driver-bme280'', compat_driver_ver = ''0.1.0'', compat_runtime_ver = ''0.1.0'',
                    compat_brain = ''C-001'', compat_status = Passed\<rparr>],
      max_steps = 40, max_plans = 3\<rparr>"

definition bench_climate :: SolveInput where
  "bench_climate = bench_input [''read.temperature_c''] (Some (Fin 4))"

lemma bench_parts_ok: "list_all (PartDefinition_ok (\<lambda>_. True)) (in_parts bench_climate)"
  by code_simp

lemma bench_connectors_ok: "list_all ConnectorDefinition_ok (in_connectors bench_climate)"
  by code_simp

lemma bench_profile_ok: "AssemblyProfile_ok bench_profile"
  by code_simp

lemma bench_climate_ok: "SolveInput_ok (\<lambda>_. True) bench_climate"
proof -
  have "SolveSpec_ok (in_spec bench_climate)" "list_all CompatEntry_ok (in_compat bench_climate)"
    "solve_input_duplicates bench_climate = []"
    by code_simp+
  with bench_parts_ok bench_connectors_ok bench_profile_ok show ?thesis
    by (simp add: SolveInput_ok_def bench_climate_def bench_input_def)
qed

end
