(* ===== verification/Matcher_Wiring.thy ===== *)
theory Matcher_Wiring
  imports Matcher_Types Bench
begin

text \<open>
  Feasibility of a set of parts and the allocation of ports: \<open>apps/matcher/src/constraints.ts\<close>.
  The search limit is an exception (\<open>Limit\<close>) carrying the number of steps taken; \<open>wire\<close> is the
  backtracking search of the source, and is shown to compute the best of all admissible
  assignments.
\<close>

subsection \<open>checkParts\<close>

text \<open>
  \<open>satisfiesRuntime\<close> cannot raise on a range the schema admits, and a host's \<open>logic_v\<close> is never
  null (both proved in the schema theories); the corresponding exceptions are folded into
  \<open>False\<close> here.
\<close>

definition runtime_ok :: "string \<Rightarrow> string \<Rightarrow> bool" where
  "runtime_ok version rng \<longleftrightarrow> satisfiesRuntime version rng = Inr True"

definition need_failures :: "PartDefinition list \<Rightarrow> PartDefinition \<Rightarrow> PartDefinition \<Rightarrow> string \<Rightarrow> Failure list" where
  "need_failures parts brain part need =
     issue_if (need \<notin> set (concat (map (\<lambda>p. capabilities (software p)) parts)))
       (mk_failure Requires (part_key part @ '' needs '' @ need))
     @ issue_if ((startsWith need ''bus.'' \<or> startsWith need ''gpio.'') \<and> need \<notin> set (capabilities (software brain)))
       (mk_failure Requires (part_id brain @ '' does not provide '' @ need @ ''; bus expanders are not modeled''))"

definition compiled :: "PartDefinition \<Rightarrow> PartDefinition \<Rightarrow> SolveInput \<Rightarrow> bool" where
  "compiled part brain input \<longleftrightarrow>
     list_ex (\<lambda>row. Some (compat_pkg row) = driver_pkg (software part) \<and>
        Some (compat_driver_ver row) = driver_version (software part) \<and>
        compat_runtime_ver row = runtime (in_spec input) \<and>
        compat_brain row = part_id brain \<and> compat_status row = Passed) (in_compat input)"

definition logic_fits :: "PartDefinition \<Rightarrow> PartDefinition \<Rightarrow> bool" where
  "logic_fits part brain \<longleftrightarrow>
     (case (logic_v (electrical part), logic_v (electrical brain)) of
        (Some l, Some b) \<Rightarrow> containsVoltage l b
      | _ \<Rightarrow> False)"

definition connector_fits :: "PartDefinition \<Rightarrow> SolveInput \<Rightarrow> bool" where
  "connector_fits part input \<longleftrightarrow>
     (case List.find (\<lambda>c. conn_id c = connector (electrical part)) (in_connectors input) of
        None \<Rightarrow> False
      | Some c \<Rightarrow> part_interface (electrical part) \<in> set (interfaces c))"

definition part_failures ::
    "PartDefinition list \<Rightarrow> PartDefinition \<Rightarrow> SolveInput \<Rightarrow> string list \<Rightarrow> PartDefinition \<Rightarrow> Failure list" where
  "part_failures parts brain input addresses part =
     concat (map (need_failures parts brain part) (requires (electrical part)))
     @ concat (map (\<lambda>conflict.
          issue_if (list_ex (\<lambda>p. part_id p = conflict) parts)
            (mk_failure Conflict (part_id part @ '' conflicts with '' @ conflict))) (conflicts (electrical part)))
     @ (case i2c_address (electrical part) of
          None \<Rightarrow> []
        | Some address \<Rightarrow> issue_if (address \<noteq> [] \<and> address \<in> set addresses)
            (mk_failure I2cClash (''I2C address '' @ address @ '' is used twice'')))
     @ issue_if (\<not> runtime_ok (runtime (in_spec input)) (min_runtime (software part)))
         (mk_failure RuntimeC (part_key part @ '' needs runtime '' @ min_runtime (software part)))
     @ issue_if (driver_pkg (software part) \<noteq> None \<and> \<not> compiled part brain input)
         (mk_failure Compatibility
            (''No passed compile for '' @ part_key part @ '' on '' @ part_id brain @ ''/'' @ runtime (in_spec input)))
     @ issue_if (\<not> is_passive (part_interface (electrical part)) \<and> \<not> logic_fits part brain)
         (mk_failure Logic
            (part_key part @ '' cannot use '' @ part_id brain @ [CHR 0x27] @ ''s IO voltage without a modeled level shifter''))
     @ issue_if (\<not> connector_fits part input)
         (mk_failure Wiring (''Missing or incompatible connector definition for '' @ part_key part))"

text \<open>The loop over the parts, with the set of addresses seen so far.\<close>

fun check_loop ::
    "PartDefinition list \<Rightarrow> PartDefinition \<Rightarrow> SolveInput \<Rightarrow> string list \<Rightarrow> PartDefinition list \<Rightarrow> Failure list" where
  "check_loop parts brain input addresses [] = []"
| "check_loop parts brain input addresses (part # rest) =
     part_failures parts brain input addresses part
     @ check_loop parts brain input
         (case i2c_address (electrical part) of
            Some a \<Rightarrow> (if a \<noteq> [] then a # addresses else addresses)
          | None \<Rightarrow> addresses) rest"

definition checkParts :: "PartDefinition list \<Rightarrow> PartDefinition \<Rightarrow> SolveInput \<Rightarrow> Failure list" where
  "checkParts parts brain input = check_loop parts brain input [] parts"

subsection \<open>Wiring\<close>

text \<open>A search outcome: the exception thrown at the step limit, or a value and the steps so far.\<close>

datatype 'a outcome = Limit nat | Done 'a nat

definition step :: "nat \<Rightarrow> nat \<Rightarrow> unit outcome" where
  "step limit steps = (if steps \<ge> limit then Limit steps else Done () (Suc steps))"

datatype WiringResult = Wired "WiringEdge list" PowerBudget | NotWired Failure

text \<open>What the assignment of ports reads and never changes.\<close>

record WireEnv =
  w_brain :: PartDefinition
  w_source :: PartDefinition
  w_peripherals :: "PartDefinition list"
  w_profile :: AssemblyProfile
  w_input :: SolveInput
  w_target :: "jsnum option"
  w_output :: Supply
  w_rail :: Supply
  w_brain_range :: VoltageRange
  w_window :: VoltageRange
  w_ports :: "Port list"

definition port_voltage :: "WireEnv \<Rightarrow> Port \<Rightarrow> VoltageRange" where
  "port_voltage env port = (if port_rail port = BrainRail then output_v (w_rail env) else w_window env)"

text \<open>The part of the loop's guards that does not depend on what is already wired.\<close>

definition port_fits :: "WireEnv \<Rightarrow> PartDefinition \<Rightarrow> Port \<Rightarrow> bool" where
  "port_fits env part port \<longleftrightarrow>
     port_interface port = part_interface (electrical part) \<and>
     port_connector port = connector (electrical part) \<and>
     (case List.find (\<lambda>c. conn_id c = port_connector port) (in_connectors (w_input env)) of
        None \<Rightarrow> False
      | Some c \<Rightarrow> port_interface port \<in> set (interfaces c) \<and>
          \<not> jless (max_voltage c) (snd (port_voltage env port)) \<and>
          containsVoltage (voltage_range (electrical part)) (port_voltage env port)) \<and>
     (let provider = (if port_rail port = BrainRail then w_brain env else w_source env)
      in \<not> list_ex (\<lambda>c. startsWith c ''power.'' \<and> c \<notin> set (capabilities (software provider)))
             (requires (electrical part)))"

text \<open>\<open>peripherals.find(p => pinKey(p) === pinKey(edge.part))!.electrical.current_draw_ma.active\<close>.\<close>

definition edge_draw :: "WireEnv \<Rightarrow> WiringEdge \<Rightarrow> jsnum" where
  "edge_draw env e =
     (case List.find (\<lambda>p. part_key p = pinKey (edge_part e)) (w_peripherals env) of
        Some p \<Rightarrow> active_draw p
      | None \<Rightarrow> NaN)"

definition port_free :: "WireEnv \<Rightarrow> WiringEdge list \<Rightarrow> PartDefinition \<Rightarrow> Port \<Rightarrow> bool" where
  "port_free env wiring part port \<longleftrightarrow>
     (let occupants = filter (\<lambda>e. edge_port e = port_id port) wiring;
          current = foldl (\<lambda>sum e. jadd sum (edge_draw env e)) (active_draw part) occupants
      in int (length occupants) < port_capacity port \<and>
         \<not> list_ex (\<lambda>e. edge_port e \<noteq> port_id port \<and>
              list_ex (\<lambda>r. r \<in> set (port_resources port)) (edge_resources e)) wiring \<and>
         \<not> jless (max_current_ma port) current)"

definition mk_edge :: "PartDefinition \<Rightarrow> Port \<Rightarrow> WiringEdge" where
  "mk_edge part port =
     \<lparr>edge_part = pin part, edge_port = port_id port, edge_rail = port_rail port,
      edge_connector = port_connector port,
      edge_resources = js_sort compareText (port_resources port)\<rparr>"

text \<open>A complete assignment: its budget is checked, and it becomes the best so far if it draws less.\<close>

type_synonym wire_acc = "(WiringEdge list \<times> PowerBudget) option \<times> Failure"

definition assignment_budget :: "WireEnv \<Rightarrow> WiringEdge list \<Rightarrow> PowerBudget" where
  "assignment_budget env wiring =
     powerBudget (w_brain env) (w_source env) (w_peripherals env) wiring (w_profile env)
       (in_spec (w_input env)) (w_brain_range env) (w_output env) (w_rail env)"

definition over_current :: "WireEnv \<Rightarrow> PowerBudget \<Rightarrow> bool" where
  "over_current env b \<longleftrightarrow>
     jless (max_output_ma (w_rail env)) (peak_brain_rail_ma b) \<or>
     jless (max_output_ma (w_output env)) (peak_source_ma b)"

definition misses_target :: "jsnum option \<Rightarrow> PowerBudget \<Rightarrow> bool" where
  "misses_target target b \<longleftrightarrow>
     (case target of
        None \<Rightarrow> False
      | Some days \<Rightarrow> (case estimated_life_days b of None \<Rightarrow> True | Some life \<Rightarrow> jless life days))"

definition wire_leaf :: "WireEnv \<Rightarrow> WiringEdge list \<Rightarrow> wire_acc \<Rightarrow> wire_acc" where
  "wire_leaf env wiring acc =
     (let budget = assignment_budget env wiring in
      if \<not> budget_finite budget
        then (fst acc, mk_failure Current ''Power calculation exceeds the numeric range'')
      else if over_current env budget
        then (fst acc, mk_failure Current
               (prof_id (w_profile env) @ '' exceeds a source or regulator peak-current limit''))
      else if misses_target (w_target env) budget
        then (fst acc, mk_failure BatteryLife
               (prof_id (w_profile env) @ '' does not meet ''
                @ (case w_target env of Some d \<Rightarrow> num_str d | None \<Rightarrow> ''undefined'') @ '' days of battery life''))
      else case fst acc of
             None \<Rightarrow> (Some (wiring, budget), snd acc)
           | Some best \<Rightarrow>
               (if jless (average_source_ma budget) (average_source_ma (snd best))
                then (Some (wiring, budget), snd acc) else acc))"

function (sequential) wire_visit ::
    "WireEnv \<Rightarrow> PartDefinition list \<Rightarrow> WiringEdge list \<Rightarrow> wire_acc \<Rightarrow> nat \<Rightarrow> wire_acc outcome"
and wire_ports ::
    "WireEnv \<Rightarrow> Port list \<Rightarrow> PartDefinition \<Rightarrow> PartDefinition list \<Rightarrow> WiringEdge list \<Rightarrow> wire_acc \<Rightarrow> nat \<Rightarrow>
     wire_acc outcome" where
  "wire_visit env ps wiring acc steps =
     (case step (max_steps (w_input env)) steps of
        Limit n \<Rightarrow> Limit n
      | Done _ steps' \<Rightarrow>
          (case ps of
             [] \<Rightarrow> Done (wire_leaf env wiring acc) steps'
           | part # rest \<Rightarrow> wire_ports env (w_ports env) part rest wiring acc steps'))"
| "wire_ports env [] part rest wiring acc steps = Done acc steps"
| "wire_ports env (port # pts) part rest wiring acc steps =
     (if port_fits env part port \<and> port_free env wiring part port then
        (case wire_visit env rest (wiring @ [mk_edge part port]) acc steps of
           Limit n \<Rightarrow> Limit n
         | Done acc' steps' \<Rightarrow> wire_ports env pts part rest wiring acc' steps')
      else wire_ports env pts part rest wiring acc steps)"
  by pat_completeness auto
termination
  by (relation "measures
        [\<lambda>x. case x of Inl (env, ps, _) \<Rightarrow> length ps | Inr (env, pts, part, rest, _) \<Rightarrow> Suc (length rest),
         \<lambda>x. case x of Inl (env, ps, _) \<Rightarrow> Suc (length (w_ports env)) | Inr (env, pts, part, rest, _) \<Rightarrow> length pts]")
     auto

declare wire_visit.simps [simp del]

definition battery_source :: "Supply \<Rightarrow> PartDefinition \<Rightarrow> bool" where
  "battery_source output source \<longleftrightarrow>
     capacity_mah output \<noteq> None \<and> ''power.battery'' \<in> set (capabilities (software source))"

text \<open>The guards before the search, in the order of the source.\<close>

definition wire_setup ::
    "PartDefinition \<Rightarrow> PartDefinition \<Rightarrow> PartDefinition list \<Rightarrow> AssemblyProfile \<Rightarrow> SolveInput \<Rightarrow> jsnum option \<Rightarrow>
     Failure + WireEnv" where
  "wire_setup brain source peripherals profile input targetDays =
     (case (part_supply (electrical source), part_supply (electrical brain), brain_input_range brain profile) of
        (Some output, Some rail, Some brainInput) \<Rightarrow>
          (let sourceConnector = List.find (\<lambda>c. conn_id c = source_connector profile) (in_connectors input);
               outMin = fst (output_v output); outMax = snd (output_v output);
               env = \<lparr>w_brain = brain, w_source = source, w_peripherals = peripherals, w_profile = profile,
                      w_input = input, w_target = targetDays, w_output = output, w_rail = rail,
                      w_brain_range = brainInput,
                      w_window = (jmax outMin (fst brainInput), outMax),
                      w_ports = js_sort (\<lambda>a b. compareText (port_id a) (port_id b)) (ports profile)\<rparr>
           in if connector (electrical source) \<noteq> source_connector profile \<or>
                 (case sourceConnector of None \<Rightarrow> True | Some c \<Rightarrow> jless (max_voltage c) outMax)
              then Inl (mk_failure Wiring (prof_id profile @ '' does not match the source connector or voltage rating''))
              else if jless (snd brainInput) outMax \<or> jless outMax (fst brainInput) \<or>
                      (\<not> battery_source output source \<and> jless outMin (fst brainInput))
              then Inl (mk_failure Voltage (part_id source @ '' cannot power '' @ part_id brain @ ''/'' @ brain_input profile))
              else if brain_input profile = ''primary'' \<and>
                      (case List.find (\<lambda>c. conn_id c = connector (electrical brain)) (in_connectors input) of
                         None \<Rightarrow> True
                       | Some c \<Rightarrow> jless (max_voltage c) outMax)
              then Inl (mk_failure Voltage (part_id brain @ '' input connector is overvolted''))
              else Inr env)
      | _ \<Rightarrow> Inl (mk_failure Voltage (prof_id profile @ '' has no modeled power path'')))"

definition no_assignment :: "AssemblyProfile \<Rightarrow> Failure" where
  "no_assignment profile = mk_failure Wiring (prof_id profile @ '' has no complete connector/port assignment'')"

definition wire ::
    "PartDefinition \<Rightarrow> PartDefinition \<Rightarrow> PartDefinition list \<Rightarrow> AssemblyProfile \<Rightarrow> SolveInput \<Rightarrow> jsnum option \<Rightarrow> nat \<Rightarrow>
     WiringResult outcome" where
  "wire brain source peripherals profile input targetDays steps =
     (case wire_setup brain source peripherals profile input targetDays of
        Inl f \<Rightarrow> Done (NotWired f) steps
      | Inr env \<Rightarrow>
          (case wire_visit env peripherals [] (None, no_assignment profile) steps of
             Limit n \<Rightarrow> Limit n
           | Done (Some (wiring, budget), _) steps' \<Rightarrow> Done (Wired wiring budget) steps'
           | Done (None, failure) steps' \<Rightarrow> Done (NotWired failure) steps'))"

subsection \<open>The search against an enumeration of all assignments\<close>

definition port_options :: "WireEnv \<Rightarrow> WiringEdge list \<Rightarrow> PartDefinition \<Rightarrow> Port list \<Rightarrow> Port list" where
  "port_options env wiring part = filter (\<lambda>port. port_fits env part port \<and> port_free env wiring part port)"

fun assignments :: "WireEnv \<Rightarrow> PartDefinition list \<Rightarrow> WiringEdge list \<Rightarrow> WiringEdge list list" where
  "assignments env [] wiring = [wiring]"
| "assignments env (part # rest) wiring =
     concat (map (\<lambda>port. assignments env rest (wiring @ [mk_edge part port]))
       (port_options env wiring part (w_ports env)))"

definition admissible :: "WireEnv \<Rightarrow> WiringEdge list \<Rightarrow> bool" where
  "admissible env wiring \<longleftrightarrow>
     (let b = assignment_budget env wiring
      in budget_finite b \<and> \<not> over_current env b \<and> \<not> misses_target (w_target env) b)"

lemma step_Done: "step limit s = Done u s' \<Longrightarrow> s < limit \<and> s' = Suc s"
  by (auto simp: step_def split: if_splits)

lemma step_Limit: "step limit s = Limit n \<Longrightarrow> n = s \<and> limit \<le> s"
  by (auto simp: step_def split: if_splits)

lemma wire_search_refines:
  "wire_visit env ps wiring acc steps = Done acc' steps' \<Longrightarrow>
     acc' = fold (wire_leaf env) (assignments env ps wiring) acc"
  "wire_ports env pts part rest wiring acc steps = Done acc' steps' \<Longrightarrow>
     acc' = fold (wire_leaf env)
       (concat (map (\<lambda>port. assignments env rest (wiring @ [mk_edge part port])) (port_options env wiring part pts))) acc"
proof (induction env ps wiring acc steps and env pts part rest wiring acc steps
       arbitrary: acc' steps' and acc' steps' rule: wire_visit_wire_ports.induct)
  case (1 env ps wiring acc steps)
  then show ?case
    by (subst (asm) wire_visit.simps) (auto split: outcome.splits list.splits dest: step_Done)
next
  case (3 env port pts part rest wiring acc steps)
  then show ?case
    by (auto simp: port_options_def split: outcome.splits if_splits)
qed (auto simp: port_options_def)

lemma wire_steps:
  "wire_visit env ps wiring acc steps = Done acc' steps' \<Longrightarrow> steps < steps' \<and> steps' \<le> max_steps (w_input env)"
  "wire_ports env pts part rest wiring acc steps = Done acc'' steps'' \<Longrightarrow>
     steps \<le> steps'' \<and> (steps \<le> max_steps (w_input env) \<longrightarrow> steps'' \<le> max_steps (w_input env))"
proof (induction env ps wiring acc steps and env pts part rest wiring acc steps
       arbitrary: acc' steps' and acc'' steps'' rule: wire_visit_wire_ports.induct)
  case (1 env ps wiring acc steps)
  show ?case
  proof (cases "step (max_steps (w_input env)) steps")
    case (Done u s1)
    have s1: "steps < max_steps (w_input env)" "s1 = Suc steps" using step_Done [OF Done] by auto
    show ?thesis
    proof (cases ps)
      case Nil
      with "1.prems" Done s1 show ?thesis by (subst (asm) wire_visit.simps) auto
    next
      case (Cons part rest)
      with "1.prems" Done have "wire_ports env (w_ports env) part rest wiring acc s1 = Done acc' steps'"
        by (subst (asm) wire_visit.simps) auto
      from "1.IH" [OF Done Cons this] s1 show ?thesis by auto
    qed
  qed (use "1.prems" in \<open>subst (asm) wire_visit.simps, auto\<close>)
next
  case (3 env port pts part rest wiring acc steps)
  then show ?case by (fastforce split: outcome.splits if_splits)
qed auto

lemma wire_limit:
  "wire_visit env ps wiring acc steps = Limit n \<Longrightarrow> steps \<le> max_steps (w_input env) \<Longrightarrow> n = max_steps (w_input env)"
  "wire_ports env pts part rest wiring acc steps = Limit n' \<Longrightarrow> steps \<le> max_steps (w_input env) \<Longrightarrow>
     n' = max_steps (w_input env)"
proof (induction env ps wiring acc steps and env pts part rest wiring acc steps
       arbitrary: n and n' rule: wire_visit_wire_ports.induct)
  case (1 env ps wiring acc steps)
  then show ?case
    by (auto simp: wire_visit.simps [of env ps] split: outcome.splits list.splits dest: step_Done step_Limit)
next
  case (3 env port pts part rest wiring acc steps)
  then show ?case by (auto split: outcome.splits if_splits dest: wire_steps(1))
qed auto

text \<open>Folding over the assignments keeps the least average draw among the admissible ones.\<close>

definition best_so_far :: "WireEnv \<Rightarrow> WiringEdge list set \<Rightarrow> (WiringEdge list \<times> PowerBudget) option \<Rightarrow> bool" where
  "best_so_far env W best \<longleftrightarrow>
     (case best of
        None \<Rightarrow> \<forall>w \<in> W. \<not> admissible env w
      | Some (w, b) \<Rightarrow> w \<in> W \<and> admissible env w \<and> b = assignment_budget env w \<and>
          (\<forall>w' \<in> W. admissible env w' \<longrightarrow>
             \<not> jless (average_source_ma (assignment_budget env w')) (average_source_ma b)))"

lemma wire_leaf_fst:
  "fst (wire_leaf env w acc) =
     (if \<not> admissible env w then fst acc
      else case fst acc of
             None \<Rightarrow> Some (w, assignment_budget env w)
           | Some best \<Rightarrow>
               (if jless (average_source_ma (assignment_budget env w)) (average_source_ma (snd best))
                then Some (w, assignment_budget env w) else Some best))"
  by (auto simp: wire_leaf_def admissible_def Let_def split: option.splits)

lemma best_so_far_leaf:
  assumes "best_so_far env W (fst acc)"
  shows "best_so_far env (insert w W) (fst (wire_leaf env w acc))"
proof (cases "fst acc")
  case None
  with assms show ?thesis by (auto simp: best_so_far_def wire_leaf_fst)
next
  case (Some best)
  obtain wb b where best: "best = (wb, b)" by (cases best)
  show ?thesis
  proof (cases "admissible env w \<and> jless (average_source_ma (assignment_budget env w)) (average_source_ma b)")
    case True
    have "\<not> jless (average_source_ma (assignment_budget env w')) (average_source_ma (assignment_budget env w))"
      if "w' \<in> W" "admissible env w'" for w'
      using that assms Some best True jless_trans by (fastforce simp: best_so_far_def)
    with True assms Some best show ?thesis by (auto simp: best_so_far_def wire_leaf_fst)
  next
    case False
    with assms Some best show ?thesis by (auto simp: best_so_far_def wire_leaf_fst)
  qed
qed

lemma best_so_far_fold:
  "best_so_far env W (fst acc) \<Longrightarrow> best_so_far env (W \<union> set ws) (fst (fold (wire_leaf env) ws acc))"
proof (induction ws arbitrary: acc W)
  case (Cons w ws)
  from best_so_far_leaf [OF Cons.prems, of w] Cons.IH [of "insert w W" "wire_leaf env w acc"]
  show ?case by simp
qed simp

lemma wire_visit_best:
  assumes "wire_visit env ps [] (None, f) steps = Done acc steps'"
  shows "best_so_far env (set (assignments env ps [])) (fst acc)"
  using best_so_far_fold [of env "{}" "(None, f)" "assignments env ps []"] wire_search_refines(1) [OF assms]
  by (simp add: best_so_far_def)

subsection \<open>What every assignment satisfies\<close>

text \<open>Edge by edge: the \<open>i\<close>-th peripheral sits on a port of the profile that fits it.\<close>

definition edge_ok :: "WireEnv \<Rightarrow> WiringEdge \<Rightarrow> PartDefinition \<Rightarrow> bool" where
  "edge_ok env e part \<longleftrightarrow> (\<exists>port \<in> set (w_ports env). e = mk_edge part port \<and> port_fits env part port)"

text \<open>Over the whole wiring: capacities hold and different ports share no physical resource.\<close>

definition shares_ok :: "WireEnv \<Rightarrow> WiringEdge list \<Rightarrow> bool" where
  "shares_ok env wiring \<longleftrightarrow>
     (\<forall>port \<in> set (w_ports env).
        int (length (filter (\<lambda>e. edge_port e = port_id port) wiring)) \<le> port_capacity port) \<and>
     (\<forall>e \<in> set wiring. \<forall>e' \<in> set wiring. edge_port e \<noteq> edge_port e' \<longrightarrow>
        set (edge_resources e) \<inter> set (edge_resources e') = {})"

lemma mk_edge_sel [simp]:
  "edge_part (mk_edge p q) = pin p" "edge_port (mk_edge p q) = port_id q" "edge_rail (mk_edge p q) = port_rail q"
  "edge_connector (mk_edge p q) = port_connector q" "set (edge_resources (mk_edge p q)) = set (port_resources q)"
  by (simp_all add: mk_edge_def)

lemma shares_ok_snoc:
  assumes "distinct (map port_id (w_ports env))" and "shares_ok env wiring"
    and "port \<in> set (w_ports env)" and "port_free env wiring part port"
  shows "shares_ok env (wiring @ [mk_edge part port])"
proof -
  have "int (length (filter (\<lambda>e. edge_port e = port_id q) (wiring @ [mk_edge part port]))) \<le> port_capacity q"
    if "q \<in> set (w_ports env)" for q
  proof (cases "port_id q = port_id port")
    case True
    then have "q = port" using assms(1,3) that by (metis (mono_tags) distinct_map inj_onD)
    with assms(4) show ?thesis by (simp add: port_free_def Let_def)
  next
    case False
    with assms(2) that show ?thesis by (simp add: shares_ok_def)
  qed
  moreover have "set (edge_resources e) \<inter> set (port_resources port) = {}"
    if "e \<in> set wiring" "edge_port e \<noteq> port_id port" for e
    using assms(4) that by (auto simp: port_free_def Let_def list_ex_iff)
  ultimately show ?thesis
    using assms(2) by (fastforce simp: shares_ok_def)
qed

lemma assignments_shares:
  assumes "distinct (map port_id (w_ports env))"
  shows "w \<in> set (assignments env ps w0) \<Longrightarrow> shares_ok env w0 \<Longrightarrow> shares_ok env w"
proof (induction ps arbitrary: w0)
  case (Cons p ps)
  then show ?case using shares_ok_snoc [OF assms] by (fastforce simp: port_options_def)
qed simp

lemma assignments_edges:
  "w \<in> set (assignments env ps w0) \<Longrightarrow> \<exists>w1. w = w0 @ w1 \<and> list_all2 (edge_ok env) w1 ps"
proof (induction ps arbitrary: w0)
  case (Cons p ps)
  then obtain port where port: "port \<in> set (w_ports env)" "port_fits env p port"
    and "w \<in> set (assignments env ps (w0 @ [mk_edge p port]))"
    by (auto simp: port_options_def)
  with Cons.IH obtain w1 where "w = (w0 @ [mk_edge p port]) @ w1" "list_all2 (edge_ok env) w1 ps"
    by blast
  moreover have "edge_ok env (mk_edge p port) p" using port by (auto simp: edge_ok_def)
  ultimately show ?case by (intro exI [of _ "mk_edge p port # w1"]) auto
qed simp

lemma wire_setup_Inr:
  assumes "wire_setup brain source peripherals profile input target = Inr env"
  shows "w_brain env = brain" "w_source env = source" "w_peripherals env = peripherals"
    "w_profile env = profile" "w_input env = input" "w_target env = target"
    "part_supply (electrical source) = Some (w_output env)" "part_supply (electrical brain) = Some (w_rail env)"
    "brain_input_range brain profile = Some (w_brain_range env)"
    "w_ports env = js_sort (\<lambda>a b. compareText (port_id a) (port_id b)) (ports profile)"
  using assms by (auto simp: wire_setup_def Let_def split: option.splits if_splits)

lemma wire_Wired:
  assumes "wire brain source peripherals profile input target steps = Done (Wired wiring budget) steps'"
  obtains env where "wire_setup brain source peripherals profile input target = Inr env"
    "wiring \<in> set (assignments env peripherals [])" "admissible env wiring"
    "budget = assignment_budget env wiring"
    "\<And>w. w \<in> set (assignments env peripherals []) \<Longrightarrow> admissible env w \<Longrightarrow>
       \<not> jless (average_source_ma (assignment_budget env w)) (average_source_ma budget)"
proof -
  from assms obtain env f where env: "wire_setup brain source peripherals profile input target = Inr env"
    and v: "wire_visit env peripherals [] (None, no_assignment profile) steps = Done (Some (wiring, budget), f) steps'"
    by (auto simp: wire_def split: sum.splits outcome.splits option.splits prod.splits)
  from wire_visit_best [OF v] have
    "wiring \<in> set (assignments env peripherals [])" "admissible env wiring" "budget = assignment_budget env wiring"
    "\<forall>w \<in> set (assignments env peripherals []). admissible env w \<longrightarrow>
       \<not> jless (average_source_ma (assignment_budget env w)) (average_source_ma budget)"
    by (auto simp: best_so_far_def)
  with env that show ?thesis by blast
qed

lemma wire_NotWired:
  assumes "wire brain source peripherals profile input target steps = Done (NotWired f) steps'"
  shows "(\<exists>f. wire_setup brain source peripherals profile input target = Inl f) \<or>
    (\<exists>env. wire_setup brain source peripherals profile input target = Inr env \<and>
       (\<forall>w \<in> set (assignments env peripherals []). \<not> admissible env w))"
proof (cases "wire_setup brain source peripherals profile input target")
  case (Inr env)
  with assms obtain f' where
    v: "wire_visit env peripherals [] (None, no_assignment profile) steps = Done (None, f') steps'"
    by (auto simp: wire_def split: sum.splits outcome.splits option.splits prod.splits)
  from wire_visit_best [OF v] Inr show ?thesis by (auto simp: best_so_far_def)
qed simp

text \<open>The declarative reading of a wiring result: an admissible assignment exists, or none does.\<close>

definition wirable ::
    "PartDefinition \<Rightarrow> PartDefinition \<Rightarrow> PartDefinition list \<Rightarrow> AssemblyProfile \<Rightarrow> SolveInput \<Rightarrow> jsnum option \<Rightarrow> bool" where
  "wirable brain source peripherals profile input target \<longleftrightarrow>
     (case wire_setup brain source peripherals profile input target of
        Inl _ \<Rightarrow> False
      | Inr env \<Rightarrow> \<exists>w \<in> set (assignments env peripherals []). admissible env w)"

lemma wire_decides:
  assumes "wire brain source peripherals profile input target steps = Done r steps'"
  shows "(\<exists>wiring budget. r = Wired wiring budget) \<longleftrightarrow> wirable brain source peripherals profile input target"
proof (cases r)
  case (Wired wiring budget)
  with assms show ?thesis
    by (auto elim!: wire_Wired simp: wirable_def)
next
  case (NotWired f)
  with wire_NotWired [OF assms [unfolded NotWired]] show ?thesis by (auto simp: wirable_def)
qed

lemma wire_step_bound:
  assumes "steps \<le> max_steps input"
  shows "wire brain source peripherals profile input target steps = Done r steps' \<Longrightarrow>
      steps \<le> steps' \<and> steps' \<le> max_steps input"
    and "wire brain source peripherals profile input target steps = Limit n \<Longrightarrow> n = max_steps input"
  using assms wire_steps(1) wire_limit(1) wire_setup_Inr(5)
  by (fastforce simp: wire_def split: sum.splits outcome.splits option.splits prod.splits)+

text \<open>
  The load on a port, when its last device is added: the sum in the order the code forms it.
\<close>

definition port_load :: "WireEnv \<Rightarrow> WiringEdge list \<Rightarrow> nat \<Rightarrow> jsnum" where
  "port_load env wiring i =
     foldl (\<lambda>sum e. jadd sum (edge_draw env e)) (edge_draw env (wiring ! i))
       (filter (\<lambda>e. edge_port e = edge_port (wiring ! i)) (take i wiring))"

definition currents_ok :: "WireEnv \<Rightarrow> WiringEdge list \<Rightarrow> bool" where
  "currents_ok env wiring \<longleftrightarrow>
     (\<forall>i < length wiring. \<exists>port \<in> set (w_ports env).
        edge_port (wiring ! i) = port_id port \<and> \<not> jless (max_current_ma port) (port_load env wiring i))"

lemma find_distinct_key:
  "distinct (map f xs) \<Longrightarrow> x \<in> set xs \<Longrightarrow> List.find (\<lambda>y. f y = f x) xs = Some x"
  by (induction xs) (auto simp: image_iff)

lemma edge_draw_mk_edge:
  "distinct (map part_key (w_peripherals env)) \<Longrightarrow> p \<in> set (w_peripherals env) \<Longrightarrow>
     edge_draw env (mk_edge p port) = active_draw p"
  using find_distinct_key [of part_key "w_peripherals env" p]
  by (simp add: edge_draw_def flip: part_key_def)

lemma currents_ok_snoc:
  assumes "currents_ok env wiring" and "port \<in> set (w_ports env)" and "port_free env wiring p port"
    and "edge_draw env (mk_edge p port) = active_draw p"
  shows "currents_ok env (wiring @ [mk_edge p port])"
proof -
  have "\<not> jless (max_current_ma port) (port_load env (wiring @ [mk_edge p port]) (length wiring))"
    using assms(3,4) by (simp add: port_load_def port_free_def Let_def)
  moreover have "port_load env (wiring @ [e]) i = port_load env wiring i" if "i < length wiring" for i e
    using that by (simp add: port_load_def nth_append)
  ultimately show ?thesis
    using assms(1,2) by (auto simp: currents_ok_def less_Suc_eq nth_append)
qed

lemma assignments_currents:
  assumes "distinct (map part_key (w_peripherals env))"
  shows "w \<in> set (assignments env ps w0) \<Longrightarrow> set ps \<subseteq> set (w_peripherals env) \<Longrightarrow>
    currents_ok env w0 \<Longrightarrow> currents_ok env w"
proof (induction ps arbitrary: w0)
  case (Cons p ps)
  then obtain port where "port \<in> set (w_ports env)" "port_free env w0 p port"
    and w: "w \<in> set (assignments env ps (w0 @ [mk_edge p port]))"
    by (auto simp: port_options_def)
  with Cons.prems have "currents_ok env (w0 @ [mk_edge p port])"
    by (intro currents_ok_snoc edge_draw_mk_edge assms) auto
  with Cons w show ?case by auto
qed simp

lemma profile_ports_distinct: "AssemblyProfile_ok profile \<Longrightarrow> distinct (map port_id (ports profile))"
  using length_js_unique_eq_iff [of "map port_id (ports profile)"]
  by (auto simp: AssemblyProfile_ok_def profile_issues_def split: if_splits)

lemma wire_setup_ports:
  assumes "wire_setup brain source peripherals profile input target = Inr env"
  shows "mset (w_ports env) = mset (ports profile)" "set (w_ports env) = set (ports profile)"
    and "AssemblyProfile_ok profile \<Longrightarrow> distinct (map port_id (w_ports env))"
proof -
  show m: "mset (w_ports env) = mset (ports profile)" by (simp add: wire_setup_Inr(10) [OF assms])
  show "set (w_ports env) = set (ports profile)" using m by (rule mset_eq_setD)
  have "mset (map port_id (w_ports env)) = mset (map port_id (ports profile))" using m by simp
  then show "AssemblyProfile_ok profile \<Longrightarrow> distinct (map port_id (w_ports env))"
    using profile_ports_distinct mset_eq_imp_distinct_iff by blast
qed


text \<open>Everything an admissible assignment guarantees, gathered for the searches that return one.\<close>

definition sound_wiring :: "WireEnv \<Rightarrow> PartDefinition list \<Rightarrow> WiringEdge list \<Rightarrow> PowerBudget \<Rightarrow> bool" where
  "sound_wiring env peripherals wiring budget \<longleftrightarrow>
     list_all2 (edge_ok env) wiring peripherals \<and> shares_ok env wiring \<and> currents_ok env wiring \<and>
     budget = assignment_budget env wiring \<and> budget_finite budget \<and>
     \<not> jless (max_output_ma (w_rail env)) (peak_brain_rail_ma budget) \<and>
     \<not> jless (max_output_ma (w_output env)) (peak_source_ma budget) \<and>
     (case w_target env of
        None \<Rightarrow> True
      | Some days \<Rightarrow> \<exists>life. estimated_life_days budget = Some life \<and> \<not> jless life days)"

lemma assignment_sound:
  assumes env: "wire_setup brain source peripherals profile input target = Inr env"
    and w: "w \<in> set (assignments env peripherals [])" "admissible env w"
    and ok: "AssemblyProfile_ok profile" "distinct (map part_key peripherals)"
  shows "sound_wiring env peripherals w (assignment_budget env w)"
proof -
  have "shares_ok env []"
    using ok(1) wire_setup_ports(2) [OF env]
    by (auto simp: shares_ok_def AssemblyProfile_ok_def list_all_iff Port_ok_def)
  then have "shares_ok env w"
    using assignments_shares wire_setup_ports(3) [OF env ok(1)] w(1) by blast
  moreover have "currents_ok env w"
    using assignments_currents [OF _ w(1)] ok(2) wire_setup_Inr(3) [OF env] by (simp add: currents_ok_def)
  moreover have "list_all2 (edge_ok env) w peripherals" using assignments_edges [OF w(1)] by simp
  ultimately show ?thesis
    using w(2)
    by (auto simp: sound_wiring_def admissible_def Let_def over_current_def misses_target_def split: option.splits)
qed

subsection \<open>Properties of the wiring search\<close>

text \<open>
  C1. Every wiring the search returns is physically sound: one edge per peripheral, in order, each on a
  port of the profile whose interface, connector, rail voltage and connector rating fit the part;
  no port holds more devices than its capacity or more current than its limit; edges on different ports
  share no resource; the budget is finite, within the peak limits of the source and the host's
  regulator, and meets the battery-life target when one is given.
\<close>

theorem wire_sound:
  assumes "wire brain source peripherals profile input target steps = Done (Wired wiring budget) steps'"
    and "AssemblyProfile_ok profile" and "distinct (map part_key peripherals)"
  shows "\<exists>env. wire_setup brain source peripherals profile input target = Inr env \<and>
    list_all2 (edge_ok env) wiring peripherals \<and> shares_ok env wiring \<and> currents_ok env wiring \<and>
    budget = assignment_budget env wiring \<and> budget_finite budget \<and>
    \<not> jless (max_output_ma (w_rail env)) (peak_brain_rail_ma budget) \<and>
    \<not> jless (max_output_ma (w_output env)) (peak_source_ma budget) \<and>
    (\<forall>days. target = Some days \<longrightarrow>
       (\<exists>life. estimated_life_days budget = Some life \<and> \<not> jless life days))"
proof -
  from assms(1) obtain env where env: "wire_setup brain source peripherals profile input target = Inr env"
    and w: "wiring \<in> set (assignments env peripherals [])" "admissible env wiring"
      "budget = assignment_budget env wiring"
    by (rule wire_Wired)
  from assignment_sound [OF env w(1,2) assms(2,3)] w(3) env wire_setup_Inr(6) [OF env] show ?thesis
    by (auto simp: sound_wiring_def split: option.splits)
qed

definition bench_edge :: WiringEdge where
  "bench_edge = mk_edge bench_sensor (hd (ports bench_profile))"

definition bench_budget :: PowerBudget where
  "bench_budget =
     \<lparr>average_source_ma = Fin 16, peak_source_ma = Fin 142, peak_brain_rail_ma = Fin 67,
      usable_capacity_mah = Some (Fin 1536), estimated_life_days = Some (Fin 4)\<rparr>"

lemma bench_wire:
  "wire bench_host bench_battery [bench_sensor] bench_profile bench_climate (Some (Fin 4)) 0 =
     Done (Wired [bench_edge] bench_budget) 2"
  by code_simp

theorem wire_sound_witness:
  "\<exists>env. wire_setup bench_host bench_battery [bench_sensor] bench_profile bench_climate (Some (Fin 4)) = Inr env \<and>
    edge_ok env bench_edge bench_sensor \<and> shares_ok env [bench_edge] \<and> currents_ok env [bench_edge]"
  using wire_sound [OF bench_wire bench_profile_ok] by auto

text \<open>
  C39. Among all admissible port assignments, in whatever order the ports are tried, the search keeps
  one of least average draw: no complete assignment that passes the budget checks draws less.
\<close>

theorem wire_optimal:
  assumes "wire brain source peripherals profile input target steps = Done (Wired wiring budget) steps'"
    and "wire_setup brain source peripherals profile input target = Inr env"
    and "w \<in> set (assignments env peripherals [])" and "admissible env w"
  shows "\<not> jless (average_source_ma (assignment_budget env w)) (average_source_ma budget)"
  using assms wire_Wired by (metis sum.inject(2))

theorem wire_optimal_witness:
  "\<exists>env. wire_setup bench_host bench_battery [bench_sensor] bench_profile bench_climate (Some (Fin 4)) = Inr env \<and>
     \<not> jless (average_source_ma (assignment_budget env [bench_edge])) (Fin 16)"
proof -
  obtain env where env: "wire_setup bench_host bench_battery [bench_sensor] bench_profile bench_climate (Some (Fin 4)) = Inr env"
    and w: "[bench_edge] \<in> set (assignments env [bench_sensor] [])" "admissible env [bench_edge]"
    by (rule wire_Wired [OF bench_wire])
  from wire_optimal [OF bench_wire env w] env show ?thesis by (auto simp: bench_budget_def)
qed

text \<open>
  C40. The search decides wirability: when it returns within its step limit, it returns a wiring exactly
  when some complete assignment of the peripherals to ports is admissible, and it never takes more than
  \<open>max_steps\<close> steps, whether it returns or stops at the limit.
\<close>

theorem wire_complete:
  assumes "steps \<le> max_steps input"
  shows "(case wire brain source peripherals profile input target steps of
      Done r steps' \<Rightarrow>
        ((\<exists>wiring budget. r = Wired wiring budget) \<longleftrightarrow> wirable brain source peripherals profile input target) \<and>
        steps \<le> steps' \<and> steps' \<le> max_steps input
    | Limit n \<Rightarrow> n = max_steps input)"
  using wire_decides wire_step_bound [OF assms] by (auto split: outcome.splits)

theorem wire_complete_witness:
  "wirable bench_host bench_battery [bench_sensor] bench_profile bench_climate (Some (Fin 4))"
proof -
  have "0 \<le> max_steps bench_climate" by simp
  from wire_complete [OF this, of bench_host bench_battery "[bench_sensor]" bench_profile "Some (Fin 4)"]
  show ?thesis by (simp add: bench_wire)
qed

end
