(* ===== verification/Matcher_Solver.thy ===== *)
theory Matcher_Solver
  imports Matcher_Wiring
begin

text \<open>
  The bounded search of \<open>apps/matcher/src/solver.ts\<close> and the gate from the intake's
  specification, \<open>intake.ts\<close>. The search is compared with the set of all selections of parts: which
  plans are feasible, how many, which are kept, and which conflict set is reported.
\<close>

subsection \<open>Diagnostics\<close>

type_synonym diagnostics = "(string \<times> Failure) list"

definition failure_key :: "Failure \<Rightarrow> string" where
  "failure_key f = constraint_text (fail_constraint f) @ '':'' @ fail_detail f"

definition record_failure :: "Failure \<Rightarrow> diagnostics \<Rightarrow> diagnostics" where
  "record_failure f ds = (if length ds < 100 then map_set (failure_key f) f ds else ds)"

subsection \<open>The search\<close>

fun powerCapability :: "PowerSource \<Rightarrow> string" where
  "powerCapability Battery = ''power.battery''"
| "powerCapability Usb = ''power.5v''"
| "powerCapability Solar = ''power.solar''"

fun transport_text :: "Transport \<Rightarrow> string" where
  "transport_text Wifi = ''wifi''"
| "transport_text Ble = ''ble''"
| "transport_text Lora = ''lora''"
| "transport_text NoTransport = ''none''"

definition active_parts :: "SolveInput \<Rightarrow> PartDefinition list" where
  "active_parts input =
     js_sort (\<lambda>a b. compareText (part_key a) (part_key b)) (filter (\<lambda>p. status p = Active) (in_parts input))"

definition sorted_profiles :: "SolveInput \<Rightarrow> AssemblyProfile list" where
  "sorted_profiles input = js_sort (\<lambda>a b. compareText (profile_key a) (profile_key b)) (in_profiles input)"

definition wanted_caps :: "SolveSpec \<Rightarrow> string list" where
  "wanted_caps spec =
     js_sort compareText (js_unique (spec_capabilities spec @
       (if transport spec = NoTransport then [] else [''net.'' @ transport_text (transport spec)])))"

definition requirements :: "SolveSpec \<Rightarrow> string list" where
  "requirements spec =
     map (\<lambda>c. ''capability:'' @ c) (wanted_caps spec) @
     (if target_life_days spec = None then [] else [''target_life_days''])"

text \<open>What one call of \<open>search\<close> fixes, and what it accumulates.\<close>

record SearchCtx =
  c_input :: SolveInput
  c_required :: "string list"
  c_target :: "jsnum option"
  c_first :: bool

record SearchAcc =
  a_diags :: diagnostics
  a_plans :: "BuildPlan list"
  a_count :: nat

text \<open>The host, source and candidates of a profile.\<close>

record Site =
  s_profile :: AssemblyProfile
  s_brain :: PartDefinition
  s_source :: PartDefinition
  s_candidates :: "PartDefinition list"

definition is_battery_powered :: "PartDefinition \<Rightarrow> bool" where
  "is_battery_powered source \<longleftrightarrow>
     (case part_supply (electrical source) of
        None \<Rightarrow> False
      | Some s \<Rightarrow> (case capacity_mah s of None \<Rightarrow> False | Some c \<Rightarrow> c \<noteq> Fin 0 \<and> c \<noteq> NaN))"

definition mk_site :: "SolveInput \<Rightarrow> AssemblyProfile \<Rightarrow> Site option" where
  "mk_site input profile =
     (let parts = active_parts input; spec = in_spec input;
          brain = List.find (\<lambda>p. part_key p = pinKey (brain_pin profile) \<and>
                    part_interface (electrical p) = HostIf) parts;
          source = List.find (\<lambda>p. part_key p = pinKey (source_pin profile) \<and>
                    part_interface (electrical p) = PowerIf \<and>
                    powerCapability (power_source spec) \<in> set (capabilities (software p))) parts
      in case (brain, source) of
           (Some b, Some s) \<Rightarrow>
             if part_id b = part_id s \<or> (power_source spec = Battery \<and> \<not> is_battery_powered s) then None
             else Some \<lparr>s_profile = profile, s_brain = b, s_source = s,
                    s_candidates = filter (\<lambda>p. part_interface (electrical p) \<noteq> HostIf \<and>
                       part_interface (electrical p) \<noteq> PowerIf \<and> part_id p \<noteq> part_id b \<and> part_id p \<noteq> part_id s) parts\<rparr>
         | _ \<Rightarrow> None)"

definition base_failures :: "SolveInput \<Rightarrow> Site \<Rightarrow> Failure list" where
  "base_failures input site =
     filter (\<lambda>f. fail_constraint f \<noteq> Requires) (checkParts [s_brain site, s_source site] (s_brain site) input)"

text \<open>\<open>sum + p.commerce.unit_cost_usd!\<close>: an active part has a price, and null would add as zero.\<close>

definition part_cost :: "PartDefinition \<Rightarrow> jsnum" where
  "part_cost p = (case unit_cost_usd (commerce p) of Some c \<Rightarrow> c | None \<Rightarrow> Fin 0)"

definition ordered_parts :: "PartDefinition list \<Rightarrow> PartDefinition list" where
  "ordered_parts = js_sort (\<lambda>a b. compareText (part_key a) (part_key b))"

definition bom_total :: "PartDefinition list \<Rightarrow> jsnum" where
  "bom_total ordered = foldl (\<lambda>sum p. jadd sum (part_cost p)) (Fin 0) ordered"

definition duty_lines :: "SolveSpec \<Rightarrow> AssemblyProfile \<Rightarrow> PartDefinition list \<Rightarrow> string list" where
  "duty_lines spec profile ordered =
     map (\<lambda>a. ''Duty '' @ pinKey (act_part a) @ '': min(1, '' @ num_str (active_s a) @ ''/''
            @ num_str (interval_s spec) @ ''); '' @ act_evidence a)
       (js_sort (\<lambda>a b. compareText (pinKey (act_part a)) (pinKey (act_part b)))
          (filter (\<lambda>a. list_ex (\<lambda>p. part_key p = pinKey (act_part a)) ordered) (activity profile)))"

definition solver_lines :: "SolveSpec \<Rightarrow> AssemblyProfile \<Rightarrow> PartDefinition list \<Rightarrow> string list" where
  "solver_lines spec profile ordered =
     [''Active registry pins only; all declared dependencies and requested capabilities covered.'',
      ''IO levels, I2C addresses, conflicts, runtime and exact passed compile tuples checked.'',
      ''Wiring and power evidence: '' @ profile_key profile @ '': '' @ evidence profile,
      ''Unprofiled devices use continuous active current; peak load assumes simultaneous activity.'']
     @ duty_lines spec profile ordered
     @ [''Battery days = usable mAh / source mA / 24; runtime is an estimate within the profile's measured operating window.'']"

definition mk_plan :: "SolveInput \<Rightarrow> Site \<Rightarrow> PartDefinition list \<Rightarrow> WiringEdge list \<Rightarrow> PowerBudget \<Rightarrow> BuildPlan" where
  "mk_plan input site selected wiring budget =
     (let ordered = ordered_parts selected; profile = s_profile site in
      \<lparr>part_versions = map pin ordered, plan_runtime = runtime (in_spec input),
       plan_profile = (prof_id profile, prof_version profile),
       wiring_graph = \<lparr>graph_source = pin (s_source site), graph_brain = pin (s_brain site),
                       graph_brain_input = brain_input profile, graph_peripherals = wiring\<rparr>,
       power_budget = budget,
       bom = map (\<lambda>p. \<lparr>bom_part = pin p, bom_quantity = 1, bom_unit_cost_usd = part_cost p\<rparr>) ordered,
       total_cost_usd = bom_total ordered,
       solver_log = solver_lines (in_spec input) profile ordered\<rparr>)"

text \<open>\<open>plans.push(plan); plans.sort(comparePlans); if (plans.length > max) plans.pop()\<close>.\<close>

definition push_plan :: "nat \<Rightarrow> BuildPlan \<Rightarrow> BuildPlan list \<Rightarrow> BuildPlan list" where
  "push_plan limit plan plans =
     (let sorted = sort_plans (plans @ [plan])
      in if length sorted > limit then butlast sorted else sorted)"

definition leaf :: "SearchCtx \<Rightarrow> Site \<Rightarrow> PartDefinition list \<Rightarrow> SearchAcc \<Rightarrow> nat \<Rightarrow> (bool \<times> SearchAcc) outcome" where
  "leaf ctx site selected acc steps =
     (let input = c_input ctx; failures = checkParts selected (s_brain site) input in
      if failures \<noteq> [] then Done (False, acc\<lparr>a_diags := fold record_failure failures (a_diags acc)\<rparr>) steps
      else case wire (s_brain site) (s_source site) (drop 2 selected) (s_profile site) input (c_target ctx) steps of
             Limit n \<Rightarrow> Limit n
           | Done (NotWired failure) steps' \<Rightarrow>
               Done (False, acc\<lparr>a_diags := record_failure failure (a_diags acc)\<rparr>) steps'
           | Done (Wired wiring budget) steps' \<Rightarrow>
               if \<not> isFinite (bom_total (ordered_parts selected))
               then Done (False, acc\<lparr>a_diags := record_failure
                      (mk_failure Catalogue ''BOM cost exceeds the numeric range'') (a_diags acc)\<rparr>) steps'
               else Done (True, acc\<lparr>a_count := Suc (a_count acc),
                      a_plans := push_plan (max_plans input) (mk_plan input site selected wiring budget) (a_plans acc)\<rparr>) steps')"

definition provided :: "PartDefinition list \<Rightarrow> string set" where
  "provided parts = set (concat (map (\<lambda>p. capabilities (software p)) parts))"

text \<open>\<open>visit(index)\<close>: \<open>rest\<close> is \<open>candidates.slice(index)\<close>.\<close>

fun visit ::
    "SearchCtx \<Rightarrow> Site \<Rightarrow> PartDefinition list \<Rightarrow> PartDefinition list \<Rightarrow> SearchAcc \<Rightarrow> nat \<Rightarrow> (bool \<times> SearchAcc) outcome" where
  "visit ctx site [] selected acc steps =
     (case step (max_steps (c_input ctx)) steps of
        Limit n \<Rightarrow> Limit n
      | Done _ s1 \<Rightarrow>
          if list_ex (\<lambda>c. c \<notin> provided selected) (c_required ctx) then Done (False, acc) s1
          else leaf ctx site selected acc s1)"
| "visit ctx site (candidate # rest) selected acc steps =
     (case step (max_steps (c_input ctx)) steps of
        Limit n \<Rightarrow> Limit n
      | Done _ s1 \<Rightarrow>
          if list_ex (\<lambda>c. c \<notin> provided (selected @ candidate # rest)) (c_required ctx) then Done (False, acc) s1
          else case visit ctx site rest selected acc s1 of
                 Limit n \<Rightarrow> Limit n
               | Done (found, acc1) s2 \<Rightarrow>
                   if found \<and> c_first ctx then Done (True, acc1) s2
                   else if list_ex (\<lambda>p. part_id p = part_id candidate) selected then Done (False, acc1) s2
                   else case visit ctx site rest (selected @ [candidate]) acc1 s2 of
                          Limit n \<Rightarrow> Limit n
                        | Done (found', acc2) s3 \<Rightarrow> Done (found' \<and> c_first ctx, acc2) s3)"

fun search_profiles :: "SearchCtx \<Rightarrow> AssemblyProfile list \<Rightarrow> SearchAcc \<Rightarrow> nat \<Rightarrow> SearchAcc outcome" where
  "search_profiles ctx [] acc steps = Done acc steps"
| "search_profiles ctx (profile # rest) acc steps =
     (case step (max_steps (c_input ctx)) steps of
        Limit n \<Rightarrow> Limit n
      | Done _ s1 \<Rightarrow>
          (case mk_site (c_input ctx) profile of
             None \<Rightarrow> search_profiles ctx rest acc s1
           | Some site \<Rightarrow>
               if base_failures (c_input ctx) site \<noteq> []
               then search_profiles ctx rest
                      (acc\<lparr>a_diags := fold record_failure (base_failures (c_input ctx) site) (a_diags acc)\<rparr>) s1
               else case visit ctx site (s_candidates site) [s_brain site, s_source site] acc s1 of
                      Limit n \<Rightarrow> Limit n
                    | Done (found, acc1) s2 \<Rightarrow>
                        if found \<and> c_first ctx then Done acc1 s2 else search_profiles ctx rest acc1 s2))"

definition needs_ctx :: "SolveInput \<Rightarrow> string list \<Rightarrow> bool \<Rightarrow> SearchCtx" where
  "needs_ctx input needs firstOnly =
     \<lparr>c_input = input,
      c_required = map (drop 11) (filter (\<lambda>n. startsWith n ''capability:'') needs),
      c_target = (if ''target_life_days'' \<in> set needs then target_life_days (in_spec input) else None),
      c_first = firstOnly\<rparr>"

definition search :: "SolveInput \<Rightarrow> string list \<Rightarrow> bool \<Rightarrow> diagnostics \<Rightarrow> nat \<Rightarrow> SearchAcc outcome" where
  "search input needs firstOnly diags steps =
     search_profiles (needs_ctx input needs firstOnly) (sorted_profiles input)
       \<lparr>a_diags = diags, a_plans = [], a_count = 0\<rparr> steps"

subsection \<open>solve\<close>

definition coverage_diags :: "SolveInput \<Rightarrow> diagnostics \<Rightarrow> diagnostics" where
  "coverage_diags input diags =
     (let ds = fold record_failure
            (map (\<lambda>c. mk_failure Coverage (''No active part provides '' @ c))
               (filter (\<lambda>c. \<not> list_ex (\<lambda>p. c \<in> set (capabilities (software p))) (active_parts input))
                  (wanted_caps (in_spec input)))) diags
      in if ds = []
         then record_failure (mk_failure Catalogue ''No active host/source/profile combination can cover this request'') ds
         else ds)"

text \<open>Deletion minimisation of the conflict set.\<close>

fun minimise ::
    "SolveInput \<Rightarrow> string list \<Rightarrow> string list \<Rightarrow> diagnostics \<Rightarrow> nat \<Rightarrow> (string list \<times> diagnostics) outcome" where
  "minimise input [] conflict diags steps = Done (conflict, diags) steps"
| "minimise input (requirement # rest) conflict diags steps =
     (let reduced = filter (\<lambda>r. r \<noteq> requirement) conflict in
      case search input reduced True diags steps of
        Limit n \<Rightarrow> Limit n
      | Done acc s1 \<Rightarrow>
          minimise input rest (if a_count acc = 0 then reduced else conflict) (a_diags acc) s1)"

definition solve_input :: "SolveInput \<Rightarrow> SolveResult" where
  "solve_input input =
     (if target_life_days (in_spec input) \<noteq> None \<and> power_source (in_spec input) \<noteq> Battery
      then InvalidInput [''target_life_days requires a battery power source'']
      else let reqs = requirements (in_spec input) in
        case search input reqs False [] 0 of
          Limit n \<Rightarrow> SearchLimit n
        | Done acc s1 \<Rightarrow>
            if a_count acc \<noteq> 0 then Solved (a_plans acc) (a_count acc) s1
            else case minimise input reqs reqs (coverage_diags input (a_diags acc)) s1 of
                   Limit n \<Rightarrow> SearchLimit n
                 | Done (conflict, diags) s2 \<Rightarrow>
                     let failures = js_sort (\<lambda>a b. compareText (failure_key a) (failure_key b)) (map snd diags)
                     in Infeasible conflict failures (explain conflict failures) s2)"

text \<open>The outcome of the schema check is the argument: its issues, or the parsed input.\<close>

definition solve :: "string list + SolveInput \<Rightarrow> SolveResult" where
  "solve parsed = (case parsed of Inl issues \<Rightarrow> InvalidInput issues | Inr input \<Rightarrow> solve_input input)"

subsection \<open>What a selection of parts yields\<close>

text \<open>The value of \<open>wire\<close> when it returns: it does not depend on the steps taken before.\<close>

definition wire_value ::
    "PartDefinition \<Rightarrow> PartDefinition \<Rightarrow> PartDefinition list \<Rightarrow> AssemblyProfile \<Rightarrow> SolveInput \<Rightarrow> jsnum option \<Rightarrow>
     WiringResult" where
  "wire_value brain source peripherals profile input target =
     (case wire_setup brain source peripherals profile input target of
        Inl f \<Rightarrow> NotWired f
      | Inr env \<Rightarrow>
          (case fold (wire_leaf env) (assignments env peripherals []) (None, no_assignment profile) of
             (Some (wiring, budget), _) \<Rightarrow> Wired wiring budget
           | (None, failure) \<Rightarrow> NotWired failure))"

lemma wire_Done_value:
  "wire brain source peripherals profile input target steps = Done r steps' \<Longrightarrow>
     r = wire_value brain source peripherals profile input target"
  by (auto simp: wire_def wire_value_def split: sum.splits outcome.splits option.splits prod.splits
      dest!: wire_search_refines(1))

definition selection_plan :: "SolveInput \<Rightarrow> jsnum option \<Rightarrow> Site \<Rightarrow> PartDefinition list \<Rightarrow> BuildPlan option" where
  "selection_plan input target site selected =
     (if checkParts selected (s_brain site) input \<noteq> [] then None
      else case wire_value (s_brain site) (s_source site) (drop 2 selected) (s_profile site) input target of
             NotWired _ \<Rightarrow> None
           | Wired wiring budget \<Rightarrow>
               if isFinite (bom_total (ordered_parts selected)) then Some (mk_plan input site selected wiring budget)
               else None)"

text \<open>All selections of a site, the one the code tries first at the head.\<close>

fun selections :: "PartDefinition list \<Rightarrow> PartDefinition list \<Rightarrow> PartDefinition list list" where
  "selections [] selected = [selected]"
| "selections (c # rest) selected =
     selections rest selected @
     (if list_ex (\<lambda>p. part_id p = part_id c) selected then [] else selections rest (selected @ [c]))"

definition covered_plan :: "SearchCtx \<Rightarrow> Site \<Rightarrow> PartDefinition list \<Rightarrow> BuildPlan option" where
  "covered_plan ctx site selected =
     (if set (c_required ctx) \<subseteq> provided selected
      then selection_plan (c_input ctx) (c_target ctx) site selected else None)"

definition site_of :: "SolveInput \<Rightarrow> AssemblyProfile \<Rightarrow> Site option" where
  "site_of input profile =
     (case mk_site input profile of
        None \<Rightarrow> None
      | Some site \<Rightarrow> if base_failures input site = [] then Some site else None)"

definition site_plans :: "SearchCtx \<Rightarrow> Site \<Rightarrow> BuildPlan list" where
  "site_plans ctx site =
     List.map_filter (covered_plan ctx site) (selections (s_candidates site) [s_brain site, s_source site])"

definition all_plans :: "SearchCtx \<Rightarrow> AssemblyProfile list \<Rightarrow> BuildPlan list" where
  "all_plans ctx profiles =
     concat (map (\<lambda>profile. case site_of (c_input ctx) profile of None \<Rightarrow> [] | Some site \<Rightarrow> site_plans ctx site) profiles)"

definition push_all :: "SearchCtx \<Rightarrow> BuildPlan list \<Rightarrow> SearchAcc \<Rightarrow> SearchAcc \<Rightarrow> bool" where
  "push_all ctx ps acc acc' \<longleftrightarrow>
     a_count acc' = a_count acc + length ps \<and>
     a_plans acc' = fold (push_plan (max_plans (c_input ctx))) ps (a_plans acc)"

lemma push_all_Nil [simp]: "push_all ctx [] acc acc' \<longleftrightarrow> a_count acc' = a_count acc \<and> a_plans acc' = a_plans acc"
  by (simp add: push_all_def)

lemma push_all_append: "push_all ctx ps acc acc1 \<Longrightarrow> push_all ctx qs acc1 acc2 \<Longrightarrow> push_all ctx (ps @ qs) acc acc2"
  by (simp add: push_all_def)

lemma provided_mono: "set xs \<subseteq> set ys \<Longrightarrow> provided xs \<subseteq> provided ys"
  by (auto simp: provided_def)

lemma selections_range: "sel \<in> set (selections cs selected) \<Longrightarrow> set selected \<subseteq> set sel \<and> set sel \<subseteq> set selected \<union> set cs"
  by (induction cs selected rule: selections.induct) (fastforce split: if_splits)+

text \<open>The pruned subtrees hold no covering selection.\<close>

lemma pruned_covered:
  assumes "list_ex (\<lambda>c. c \<notin> provided (selected @ cs)) (c_required ctx)" and "sel \<in> set (selections cs selected)"
  shows "covered_plan ctx site sel = None"
proof -
  have "set sel \<subseteq> set (selected @ cs)" using selections_range [OF assms(2)] by simp
  from provided_mono [OF this] assms(1) show ?thesis
    by (auto simp: covered_plan_def list_ex_iff)
qed

lemma pruned_plans:
  "list_ex (\<lambda>c. c \<notin> provided (selected @ cs)) (c_required ctx) \<Longrightarrow>
     List.map_filter (covered_plan ctx site) (selections cs selected) = []"
  using pruned_covered [of selected cs ctx _ site]
  by (auto simp: map_filter_def filter_empty_conv)

lemma leaf_plan:
  assumes "leaf ctx site selected acc steps = Done (found, acc') steps'"
  shows "push_all ctx (case selection_plan (c_input ctx) (c_target ctx) site selected of None \<Rightarrow> [] | Some p \<Rightarrow> [p]) acc acc'"
    and "found \<longleftrightarrow> selection_plan (c_input ctx) (c_target ctx) site selected \<noteq> None"
  using assms
  by (auto simp: leaf_def Let_def selection_plan_def push_all_def
      split: if_splits outcome.splits WiringResult.splits dest!: wire_Done_value)

lemma map_filter_append [simp]: "List.map_filter f (xs @ ys) = List.map_filter f xs @ List.map_filter f ys"
  by (simp add: map_filter_def)

lemma map_filter_Nil [simp]: "List.map_filter f [] = []"
  by (simp add: map_filter_def)

lemma map_filter_single: "List.map_filter f [x] = (case f x of None \<Rightarrow> [] | Some y \<Rightarrow> [y])"
  by (simp add: map_filter_def split: option.splits)

text \<open>One step of each loop, when it returns.\<close>

lemma visit_Nil_Done:
  assumes "visit ctx site [] selected acc steps = Done (found, acc') steps'"
  obtains (pruned) "list_ex (\<lambda>c. c \<notin> provided selected) (c_required ctx)" "\<not> found" "acc' = acc"
  | (leaf) s1 where "\<not> list_ex (\<lambda>c. c \<notin> provided selected) (c_required ctx)"
      "leaf ctx site selected acc s1 = Done (found, acc') steps'"
  using assms by (auto split: outcome.splits if_splits)

lemma visit_Cons_Done:
  assumes "visit ctx site (c # rest) selected acc steps = Done (found, acc') steps'"
  obtains (pruned) "list_ex (\<lambda>x. x \<notin> provided (selected @ c # rest)) (c_required ctx)" "\<not> found" "acc' = acc"
  | (stop) s1 where "c_first ctx" "found" "visit ctx site rest selected acc s1 = Done (True, acc') steps'"
  | (clash) found1 s1 where "visit ctx site rest selected acc s1 = Done (found1, acc') steps'" "\<not> (found1 \<and> c_first ctx)"
      "list_ex (\<lambda>p. part_id p = part_id c) selected" "\<not> found"
  | (both) found1 acc1 s1 s2 found2 where "visit ctx site rest selected acc s1 = Done (found1, acc1) s2"
      "\<not> (found1 \<and> c_first ctx)" "\<not> list_ex (\<lambda>p. part_id p = part_id c) selected"
      "visit ctx site rest (selected @ [c]) acc1 s2 = Done (found2, acc') steps'" "found \<longleftrightarrow> found2 \<and> c_first ctx"
  using assms by (auto split: outcome.splits if_splits prod.splits)

lemma search_Cons_Done:
  assumes "search_profiles ctx (profile # rest) acc steps = Done acc' steps'"
  obtains (skip) d s1 where "site_of (c_input ctx) profile = None"
      "search_profiles ctx rest (acc\<lparr>a_diags := d\<rparr>) s1 = Done acc' steps'"
  | (site) site found acc1 s1 s2 where "site_of (c_input ctx) profile = Some site"
      "visit ctx site (s_candidates site) [s_brain site, s_source site] acc s1 = Done (found, acc1) s2"
      "if found \<and> c_first ctx then acc' = acc1 else search_profiles ctx rest acc1 s2 = Done acc' steps'"
proof (cases "mk_site (c_input ctx) profile")
  case None
  with assms obtain s1 where "search_profiles ctx rest (acc\<lparr>a_diags := a_diags acc\<rparr>) s1 = Done acc' steps'"
    by (auto split: outcome.splits)
  with None show ?thesis by (intro skip [of "a_diags acc" s1]) (auto simp: site_of_def)
next
  case (Some x)
  show ?thesis
  proof (cases "base_failures (c_input ctx) x = []")
    case True
    with Some assms obtain found acc1 s1 s2 where
      "visit ctx x (s_candidates x) [s_brain x, s_source x] acc s1 = Done (found, acc1) s2"
      "if found \<and> c_first ctx then acc' = acc1 else search_profiles ctx rest acc1 s2 = Done acc' steps'"
      by (auto split: outcome.splits if_splits prod.splits)
    with Some True show ?thesis by (intro site) (auto simp: site_of_def)
  next
    case False
    with Some assms obtain s1 where "search_profiles ctx rest (acc\<lparr>a_diags :=
        fold record_failure (base_failures (c_input ctx) x) (a_diags acc)\<rparr>) s1 = Done acc' steps'"
      by (auto split: outcome.splits)
    with Some False show ?thesis by (intro skip) (auto simp: site_of_def)
  qed
qed

lemma covered_leaf:
  "\<not> list_ex (\<lambda>c. c \<notin> provided selected) (c_required ctx) \<Longrightarrow>
     covered_plan ctx site selected = selection_plan (c_input ctx) (c_target ctx) site selected"
  by (auto simp: covered_plan_def list_ex_iff)

text \<open>The exhaustive search adds exactly the plans of the covering selections, in order.\<close>

lemma visit_all:
  assumes "\<not> c_first ctx"
  shows "visit ctx site cs selected acc steps = Done (found, acc') steps' \<Longrightarrow>
    push_all ctx (List.map_filter (covered_plan ctx site) (selections cs selected)) acc acc'"
proof (induction cs arbitrary: selected acc steps found acc' steps')
  case Nil
  then show ?case
  proof (cases rule: visit_Nil_Done)
    case pruned
    with pruned_plans [of selected "[]" ctx site] show ?thesis by simp
  next
    case (leaf s1)
    with leaf_plan(1) [OF leaf(2)] show ?thesis by (auto simp: map_filter_single covered_leaf split: option.splits)
  qed
next
  case (Cons c cs)
  from Cons.prems show ?case
  proof (cases rule: visit_Cons_Done)
    case pruned
    then show ?thesis unfolding pruned_plans [OF pruned(1)] by simp
  next
    case (both found1 acc1 s1 s2 found2)
    with push_all_append [OF Cons.IH [OF both(1)] Cons.IH [OF both(4)]] show ?thesis by simp
  qed (use assms Cons.IH in auto)
qed

lemma search_profiles_all:
  assumes "\<not> c_first ctx"
  shows "search_profiles ctx profiles acc steps = Done acc' steps' \<Longrightarrow> push_all ctx (all_plans ctx profiles) acc acc'"
proof (induction profiles arbitrary: acc steps)
  case (Cons profile rest)
  from Cons.prems show ?case
  proof (cases rule: search_Cons_Done)
    case (skip d s1)
    with Cons.IH [OF skip(2)] show ?thesis by (simp add: all_plans_def push_all_def)
  next
    case (site site found acc1 s1 s2)
    with assms have "search_profiles ctx rest acc1 s2 = Done acc' steps'" by simp
    from push_all_append [OF visit_all [OF assms site(2)] Cons.IH [OF this]] site(1) show ?thesis
      by (simp add: all_plans_def site_plans_def)
  qed
qed (simp add: all_plans_def)

text \<open>Stopping at the first plan: a plan is found exactly when there is one.\<close>

lemma visit_first:
  assumes "c_first ctx"
  shows "visit ctx site cs selected acc steps = Done (found, acc') steps' \<Longrightarrow>
    (found \<longleftrightarrow> List.map_filter (covered_plan ctx site) (selections cs selected) \<noteq> []) \<and>
    a_count acc' = (if found then Suc (a_count acc) else a_count acc)"
proof (induction cs arbitrary: selected acc steps found acc' steps')
  case Nil
  then show ?case
  proof (cases rule: visit_Nil_Done)
    case pruned
    with pruned_plans [of selected "[]" ctx site] show ?thesis by simp
  next
    case (leaf s1)
    with leaf_plan [OF leaf(2)] show ?thesis
      by (auto simp: map_filter_single covered_leaf push_all_def split: option.splits)
  qed
next
  case (Cons c cs)
  from Cons.prems show ?case
  proof (cases rule: visit_Cons_Done)
    case pruned
    then show ?thesis unfolding pruned_plans [OF pruned(1)] by simp
  next
    case (stop s1)
    with Cons.IH [OF stop(3)] show ?thesis by auto
  next
    case (clash found1 s1)
    with Cons.IH [OF clash(1)] assms show ?thesis by auto
  next
    case (both found1 acc1 s1 s2 found2)
    with Cons.IH [OF both(1)] Cons.IH [OF both(4)] assms show ?thesis by auto
  qed
qed

lemma search_profiles_first:
  assumes "c_first ctx"
  shows "search_profiles ctx profiles acc steps = Done acc' steps' \<Longrightarrow>
    a_count acc \<le> a_count acc' \<and> (a_count acc' = a_count acc \<longleftrightarrow> all_plans ctx profiles = [])"
proof (induction profiles arbitrary: acc steps)
  case (Cons profile rest)
  from Cons.prems show ?case
  proof (cases rule: search_Cons_Done)
    case (skip d s1)
    with Cons.IH [OF skip(2)] show ?thesis by (simp add: all_plans_def)
  next
    case (site site found acc1 s1 s2)
    with visit_first [OF assms site(2)] Cons.IH [of acc1 s2] assms show ?thesis
      by (auto simp: all_plans_def site_plans_def split: if_splits)
  qed
qed (simp add: all_plans_def)

subsection \<open>The step limit\<close>

text \<open>An outcome in_limit the limit: a value after at most \<open>limit\<close> steps, or the limit itself.\<close>

definition in_limit :: "nat \<Rightarrow> nat \<Rightarrow> 'a outcome \<Rightarrow> bool" where
  "in_limit limit steps r \<longleftrightarrow>
     (case r of Limit n \<Rightarrow> n = limit | Done _ s \<Rightarrow> steps \<le> s \<and> s \<le> limit)"

lemma in_limit_Done [simp]: "in_limit limit steps (Done v s) \<longleftrightarrow> steps \<le> s \<and> s \<le> limit"
  by (simp add: in_limit_def)

lemma in_limit_Limit [simp]: "in_limit limit steps (Limit n) \<longleftrightarrow> n = limit"
  by (simp add: in_limit_def)

lemma in_limit_mono: "in_limit limit s r \<Longrightarrow> s' \<le> s \<Longrightarrow> in_limit limit s' r"
  by (cases r) auto

lemma in_limit_step: "s \<le> limit \<Longrightarrow> in_limit limit s (step limit s)"
  by (simp add: step_def)

lemma in_limit_wire:
  "steps \<le> max_steps input \<Longrightarrow> in_limit (max_steps input) steps (wire b s ps profile input target steps)"
  by (cases "wire b s ps profile input target steps") (auto dest: wire_step_bound)

lemma in_limit_leaf:
  "steps \<le> max_steps (c_input ctx) \<Longrightarrow> in_limit (max_steps (c_input ctx)) steps (leaf ctx site selected acc steps)"
  using in_limit_wire [of steps "c_input ctx" "s_brain site" "s_source site" "drop 2 selected" "s_profile site" "c_target ctx"]
  by (auto simp: leaf_def Let_def split: outcome.splits WiringResult.splits)

lemma in_limit_visit:
  "steps \<le> max_steps (c_input ctx) \<Longrightarrow> in_limit (max_steps (c_input ctx)) steps (visit ctx site cs selected acc steps)"
proof (induction cs arbitrary: selected acc steps)
  case Nil
  then show ?case
    using in_limit_leaf [of "Suc steps" ctx site selected acc] by (auto simp: step_def intro: in_limit_mono)
next
  case (Cons c cs)
  show ?case
  proof (cases "steps < max_steps (c_input ctx)")
    case True
    then have IH: "in_limit (max_steps (c_input ctx)) (Suc steps) (visit ctx site cs selected acc (Suc steps))"
      by (intro Cons.IH) simp
    show ?thesis
    proof (cases "visit ctx site cs selected acc (Suc steps)")
      case (Limit n)
      with IH True show ?thesis by (simp add: step_def)
    next
      case (Done fa s2)
      obtain found acc1 where fa: "fa = (found, acc1)" by (cases fa)
      from IH Done have s2: "Suc steps \<le> s2" "s2 \<le> max_steps (c_input ctx)" by auto
      with Cons.IH [OF s2(2), of "selected @ [c]" acc1] Done fa True show ?thesis
        by (auto simp: step_def split: outcome.splits prod.splits)
    qed
  qed (use Cons.prems in \<open>simp add: step_def\<close>)
qed

lemma in_limit_search_profiles:
  "steps \<le> max_steps (c_input ctx) \<Longrightarrow> in_limit (max_steps (c_input ctx)) steps (search_profiles ctx profiles acc steps)"
proof (induction profiles arbitrary: acc steps)
  case (Cons profile rest)
  show ?case
  proof (cases "steps < max_steps (c_input ctx)")
    case True
    have rest: "in_limit (max_steps (c_input ctx)) steps (search_profiles ctx rest acc1 s)"
      if "steps \<le> s" "s \<le> max_steps (c_input ctx)" for acc1 s
      using Cons.IH [OF that(2)] that(1) by (rule in_limit_mono)
    have visit: "in_limit (max_steps (c_input ctx)) (Suc steps) (visit ctx site cs selected acc (Suc steps))" for site cs selected
      using True by (intro in_limit_visit) simp
    show ?thesis
    proof (cases "mk_site (c_input ctx) profile")
      case (Some site)
      with True rest visit [of site "s_candidates site" "[s_brain site, s_source site]"] show ?thesis
        by (auto simp: step_def split: outcome.splits prod.splits)
    qed (use True rest in \<open>simp add: step_def\<close>)
  qed (use Cons.prems in \<open>simp add: step_def\<close>)
qed simp

lemma in_limit_search:
  "steps \<le> max_steps input \<Longrightarrow> in_limit (max_steps input) steps (search input needs firstOnly diags steps)"
  using in_limit_search_profiles [of steps "needs_ctx input needs firstOnly"]
  by (simp add: search_def needs_ctx_def)

lemma in_limit_minimise:
  "steps \<le> max_steps input \<Longrightarrow> in_limit (max_steps input) steps (minimise input todo conflict diags steps)"
proof (induction todo arbitrary: conflict diags steps)
  case (Cons r todo)
  from in_limit_search [OF Cons.prems, of "filter (\<lambda>x. x \<noteq> r) conflict" True diags] show ?case
    by (auto simp: Let_def split: outcome.splits intro!: in_limit_mono [OF Cons.IH])
qed simp

subsection \<open>Keeping the best plans\<close>

text \<open>\<open>push\<close>, \<open>sort\<close> and \<open>pop\<close> for any comparator, and what the kept list is among all pushed.\<close>

definition push_best :: "('a \<Rightarrow> 'a \<Rightarrow> int) \<Rightarrow> nat \<Rightarrow> 'a \<Rightarrow> 'a list \<Rightarrow> 'a list" where
  "push_best cmp k x xs =
     (let ys = js_sort cmp (xs @ [x]) in if length ys > k then butlast ys else ys)"

lemma push_plan_best: "push_plan k = push_best (\<lambda>a b. jsign (comparePlans a b)) k"
  by (intro ext) (simp add: push_plan_def push_best_def sort_plans_def)

definition best_of :: "('a \<Rightarrow> 'a \<Rightarrow> int) \<Rightarrow> nat \<Rightarrow> 'a list \<Rightarrow> 'a list \<Rightarrow> bool" where
  "best_of cmp k pushed kept \<longleftrightarrow>
     sorted_by cmp kept \<and> length kept = min k (length pushed) \<and> mset kept \<subseteq># mset pushed \<and>
     (\<forall>x \<in># mset pushed - mset kept. \<forall>y \<in> set kept. cmp y x \<le> 0)"

context comparator
begin

lemma sorted_butlast_last:
  "sorted_by cmp xs \<Longrightarrow> y \<in> set (butlast xs) \<Longrightarrow> cmp y (last xs) \<le> 0"
  by (cases xs rule: rev_cases) (auto simp: sorted_wrt_append)

lemma best_of_push:
  assumes b: "best_of cmp k pushed kept" and ok: "\<forall>y \<in> set (pushed @ [x]). ok y"
  shows "best_of cmp k (pushed @ [x]) (push_best cmp k x kept)"
proof -
  define ys where "ys = js_sort cmp (kept @ [x])"
  define E where "E = mset pushed - mset kept"
  from b have E: "mset pushed = mset kept + E" and len: "length kept = min k (length pushed)"
    and above: "\<And>e y. e \<in># E \<Longrightarrow> y \<in> set kept \<Longrightarrow> cmp y e \<le> 0"
    by (auto simp: best_of_def E_def)
  have sub: "set kept \<subseteq> set pushed" using E by (metis mset_subset_eq_add_left set_mset_mono set_mset_mset)
  have m: "mset ys = add_mset x (mset kept)" by (simp add: ys_def)
  have srt: "sorted_by cmp ys" unfolding ys_def using ok sub by (intro sorted_js_sort) auto
  show ?thesis
  proof (cases "length ys > k")
    case False
    then have "length kept = length pushed" using len by (simp add: ys_def)
    then have "E = {#}" using arg_cong [OF E, of size] by simp
    have "length ys = Suc (length pushed)" using \<open>length kept = length pushed\<close> by (simp add: ys_def)
    with False srt E m \<open>E = {#}\<close> show ?thesis
      by (auto simp: best_of_def push_best_def ys_def [symmetric])
  next
    case True
    then have lk: "length kept = k" "length pushed \<ge> k" using len by (auto simp: ys_def)
    define d where "d = last ys"
    have yne: "ys \<noteq> []" using True by auto
    then have ys: "ys = butlast ys @ [d]" by (simp add: d_def)
    have md: "add_mset d (mset (butlast ys)) = add_mset x (mset kept)"
      using m ys by (metis append_butlast_last_id mset.simps mset_append union_mset_add_mset_right add.right_neutral)
    have whole: "mset (pushed @ [x]) = mset (butlast ys) + add_mset d E" using E md by simp
    have "cmp y e \<le> 0" if "e \<in># add_mset d E" and y: "y \<in> set (butlast ys)" for e y
    proof (cases "e = d")
      case True
      with sorted_butlast_last [OF srt y] show ?thesis by (simp add: d_def)
    next
      case False
      with that have e: "e \<in># E" by simp
      show ?thesis
      proof (cases "y \<in> set kept")
        case True
        with above e show ?thesis by blast
      next
        case False
        with y md have yx: "y = x" by (metis insertE set_mset_add_mset_insert set_mset_mset insertI2)
        have "d \<noteq> x" using md False y yx by (metis add_mset_add_mset_same_iff set_mset_mset)
        with md have d: "d \<in> set kept" by (metis insertE insertI1 set_mset_add_mset_insert set_mset_mset)
        have "e \<in> set pushed" using e E by (metis set_mset_mset union_iff)
        with ok sub d have "ok x" "ok d" "ok e" by auto
        moreover have "cmp x d \<le> 0" using sorted_butlast_last [OF srt y] yx by (simp add: d_def)
        ultimately show ?thesis using above [OF e d] le_trans yx by blast
      qed
    qed
    moreover have "sorted_by cmp (butlast ys)" using srt ys by (metis sorted_wrt_append)
    moreover have "length (butlast ys) = k" using lk by (simp add: ys_def)
    moreover have "mset (pushed @ [x]) - mset (butlast ys) = add_mset d E" unfolding whole by simp
    moreover have "mset (butlast ys) \<subseteq># mset (pushed @ [x])" unfolding whole by simp
    ultimately show ?thesis
      using True lk by (simp add: best_of_def push_best_def ys_def [symmetric] del: mset_append)
  qed
qed

lemma best_of_fold:
  "best_of cmp k pushed kept \<Longrightarrow> \<forall>y \<in> set (pushed @ xs). ok y \<Longrightarrow>
     best_of cmp k (pushed @ xs) (fold (push_best cmp k) xs kept)"
proof (induction xs arbitrary: pushed kept)
  case (Cons x xs)
  then have "best_of cmp k (pushed @ [x]) (push_best cmp k x kept)" by (intro best_of_push) auto
  from Cons.IH [OF this] Cons.prems show ?case by simp
qed simp

lemma best_of_all: "\<forall>y \<in> set xs. ok y \<Longrightarrow> best_of cmp k xs (fold (push_best cmp k) xs [])"
  using best_of_fold [of k "[]" "[]" xs] by (simp add: best_of_def)

end

subsection \<open>Feasibility is monotone in the requirements\<close>

lemma assignments_target: "assignments (env\<lparr>w_target := t\<rparr>) ps w = assignments env ps w"
proof (induction ps arbitrary: w)
  case (Cons p ps)
  have "port_voltage (env\<lparr>w_target := t\<rparr>) = port_voltage env" "edge_draw (env\<lparr>w_target := t\<rparr>) = edge_draw env"
    by (simp_all add: fun_eq_iff port_voltage_def edge_draw_def)
  then have "port_fits (env\<lparr>w_target := t\<rparr>) = port_fits env" "port_free (env\<lparr>w_target := t\<rparr>) = port_free env"
    by (auto simp: fun_eq_iff port_fits_def port_free_def split: option.splits)
  then have "port_options (env\<lparr>w_target := t\<rparr>) w p = port_options env w p"
    by (simp add: fun_eq_iff port_options_def)
  with Cons show ?case by simp
qed simp

lemma admissible_no_target: "admissible env w \<Longrightarrow> admissible (env\<lparr>w_target := None\<rparr>) w"
  by (simp add: admissible_def assignment_budget_def over_current_def misses_target_def Let_def)

lemma wire_setup_target:
  "wire_setup b s ps profile input t' = map_sum id (\<lambda>env. env\<lparr>w_target := t'\<rparr>) (wire_setup b s ps profile input t)"
  by (auto simp: wire_setup_def Let_def split: option.splits)

lemma wirable_no_target: "wirable b s ps profile input t \<Longrightarrow> wirable b s ps profile input None"
  by (auto simp: wirable_def wire_setup_target [of b s ps profile input None t] assignments_target
      split: sum.splits intro: admissible_no_target)

lemma wire_value_wirable:
  "(\<exists>w bd. wire_value b s ps profile input t = Wired w bd) \<longleftrightarrow> wirable b s ps profile input t"
proof (cases "wire_setup b s ps profile input t")
  case (Inr env)
  have "best_so_far env (set (assignments env ps []))
      (fst (fold (wire_leaf env) (assignments env ps []) (None, no_assignment profile)))"
    using best_so_far_fold [of env "{}" "(None, no_assignment profile)" "assignments env ps []"]
    by (simp add: best_so_far_def)
  with Inr show ?thesis
    by (auto simp: wire_value_def wirable_def best_so_far_def split: prod.splits option.splits)
qed (simp add: wire_value_def wirable_def)

lemma selection_plan_Some_iff:
  "selection_plan input t site selected \<noteq> None \<longleftrightarrow>
     checkParts selected (s_brain site) input = [] \<and>
     wirable (s_brain site) (s_source site) (drop 2 selected) (s_profile site) input t \<and>
     isFinite (bom_total (ordered_parts selected))"
  by (auto simp: selection_plan_def wire_value_wirable [symmetric] split: WiringResult.splits)

lemma needs_ctx_sel [simp]:
  "c_input (needs_ctx input needs b) = input" "c_first (needs_ctx input needs b) = b"
  by (simp_all add: needs_ctx_def)

definition feasible :: "SolveInput \<Rightarrow> string list \<Rightarrow> bool" where
  "feasible input needs \<longleftrightarrow> all_plans (needs_ctx input needs False) (sorted_profiles input) \<noteq> []"

text \<open>In words: some profile has a site and a selection of its candidates that covers what is required,
  passes every pairwise check and can be wired within the target.\<close>

lemma feasible_iff:
  "feasible input needs \<longleftrightarrow>
     (\<exists>profile \<in> set (in_profiles input). \<exists>site. site_of input profile = Some site \<and>
        (\<exists>selected \<in> set (selections (s_candidates site) [s_brain site, s_source site]).
           set (c_required (needs_ctx input needs False)) \<subseteq> provided selected \<and>
           selection_plan input (c_target (needs_ctx input needs False)) site selected \<noteq> None))"
proof -
  have *: "List.map_filter f xs \<noteq> [] \<longleftrightarrow> (\<exists>x \<in> set xs. f x \<noteq> None)" for f :: "PartDefinition list \<Rightarrow> BuildPlan option" and xs
    by (auto simp: map_filter_def filter_empty_conv)
  have **: "(case x of None \<Rightarrow> [] | Some site \<Rightarrow> f site) \<noteq> [] \<longleftrightarrow> (\<exists>site. x = Some site \<and> f site \<noteq> [])"
    for x and f :: "Site \<Rightarrow> BuildPlan list" by (cases x) auto
  have "c_input (needs_ctx input needs False) = input" by (simp add: needs_ctx_def)
  moreover have cc: "concat (map f xs) \<noteq> [] \<longleftrightarrow> (\<exists>x \<in> set xs. f x \<noteq> [])" for f :: "AssemblyProfile \<Rightarrow> BuildPlan list" and xs
    by auto
  ultimately show ?thesis
    unfolding feasible_def all_plans_def cc ** site_plans_def * covered_plan_def
    by (auto simp: sorted_profiles_def)
qed

lemma feasible_mono:
  assumes "set needs' \<subseteq> set needs" and "feasible input needs"
  shows "feasible input needs'"
proof -
  from assms(2) obtain profile site selected where
    site: "profile \<in> set (in_profiles input)" "site_of input profile = Some site"
      "selected \<in> set (selections (s_candidates site) [s_brain site, s_source site])"
    and req: "set (c_required (needs_ctx input needs False)) \<subseteq> provided selected"
    and sel: "selection_plan input (c_target (needs_ctx input needs False)) site selected \<noteq> None"
    by (auto simp: feasible_iff)
  have "set (c_required (needs_ctx input needs' False)) \<subseteq> set (c_required (needs_ctx input needs False))"
    using assms(1) by (auto simp: needs_ctx_def)
  moreover have "selection_plan input (c_target (needs_ctx input needs' False)) site selected \<noteq> None"
    using sel assms(1) unfolding selection_plan_Some_iff
    by (auto simp: needs_ctx_def split: if_splits intro: wirable_no_target)
  ultimately show ?thesis using site req unfolding feasible_iff by blast
qed

lemma all_plans_first: "all_plans (needs_ctx input needs b) ps = all_plans (needs_ctx input needs False) ps"
proof -
  have "covered_plan (needs_ctx input needs b) = covered_plan (needs_ctx input needs False)"
    by (intro ext) (simp add: covered_plan_def needs_ctx_def)
  moreover have "c_input (needs_ctx input needs b) = c_input (needs_ctx input needs False)"
    by (simp add: needs_ctx_def)
  ultimately show ?thesis by (simp only: all_plans_def site_plans_def)
qed

lemma search_first_feasible:
  "search input needs True diags steps = Done acc steps' \<Longrightarrow> a_count acc = 0 \<longleftrightarrow> \<not> feasible input needs"
proof -
  assume "search input needs True diags steps = Done acc steps'"
  then have "search_profiles (needs_ctx input needs True) (sorted_profiles input)
      \<lparr>a_diags = diags, a_plans = [], a_count = 0\<rparr> steps = Done acc steps'"
    by (simp add: search_def)
  from search_profiles_first [OF _ this] show ?thesis
    by (simp add: feasible_def all_plans_first [of input needs True])
qed

lemma search_full:
  assumes "search input needs False diags steps = Done acc steps'"
  shows "a_count acc = length (all_plans (needs_ctx input needs False) (sorted_profiles input))"
    and "a_plans acc = fold (push_plan (max_plans input)) (all_plans (needs_ctx input needs False) (sorted_profiles input)) []"
  using search_profiles_all [OF _ assms [unfolded search_def]]
  by (simp_all add: push_all_def needs_ctx_def)

lemma minimise_minimal:
  assumes "minimise input todo conflict diags steps = Done (result, diags') steps'" and "\<not> feasible input conflict"
  shows "\<not> feasible input result \<and> set result \<subseteq> set conflict \<and>
    (\<forall>r \<in> set todo. r \<in> set result \<longrightarrow> feasible input (filter (\<lambda>x. x \<noteq> r) result))"
  using assms
proof (induction todo arbitrary: conflict diags steps)
  case (Cons r todo)
  define reduced where "reduced = filter (\<lambda>x. x \<noteq> r) conflict"
  from Cons.prems(1) obtain acc s1 where
    s: "search input reduced True diags steps = Done acc s1"
    and m: "minimise input todo (if a_count acc = 0 then reduced else conflict) (a_diags acc) s1 = Done (result, diags') steps'"
    by (auto simp: reduced_def [symmetric] Let_def split: outcome.splits)
  have nf: "\<not> feasible input (if a_count acc = 0 then reduced else conflict)"
    using search_first_feasible [OF s] Cons.prems(2) by simp
  note IH = Cons.IH [OF m nf]
  have "feasible input (filter (\<lambda>x. x \<noteq> r) result)" if "r \<in> set result"
  proof -
    from that IH have "a_count acc \<noteq> 0" by (auto simp: reduced_def split: if_splits)
    with search_first_feasible [OF s] have "feasible input reduced" by simp
    moreover have "set (filter (\<lambda>x. x \<noteq> r) result) \<subseteq> set reduced"
      using IH \<open>a_count acc \<noteq> 0\<close> by (auto simp: reduced_def)
    ultimately show ?thesis by (rule feasible_mono [rotated])
  qed
  with IH show ?case by (auto simp: reduced_def split: if_splits)
qed simp

subsection \<open>What every plan satisfies\<close>

lemma active_parts_set: "set (active_parts input) = {p \<in> set (in_parts input). status p = Active}"
  by (auto simp: active_parts_def)

lemma mk_site_Some:
  assumes "mk_site input profile = Some site"
  shows "s_profile site = profile" "{s_brain site, s_source site} \<subseteq> set (active_parts input)"
    "part_key (s_brain site) = pinKey (brain_pin profile)" "part_interface (electrical (s_brain site)) = HostIf"
    "part_key (s_source site) = pinKey (source_pin profile)" "part_interface (electrical (s_source site)) = PowerIf"
    "powerCapability (power_source (in_spec input)) \<in> set (capabilities (software (s_source site)))"
    "part_id (s_brain site) \<noteq> part_id (s_source site)" "set (s_candidates site) \<subseteq> set (active_parts input)"
  using assms
  by (auto simp: mk_site_def Let_def find_Some_iff split: option.splits if_splits)

lemma selections_shape:
  "sel \<in> set (selections cs selected) \<Longrightarrow> distinct (map part_id selected) \<Longrightarrow>
     (\<exists>rest. sel = selected @ rest \<and> set rest \<subseteq> set cs) \<and> distinct (map part_id sel)"
proof (induction cs selected rule: selections.induct)
  case (2 c cs selected)
  show ?case
  proof (cases "sel \<in> set (selections cs selected)")
    case True
    with 2 show ?thesis by fastforce
  next
    case False
    with 2 have c: "\<not> list_ex (\<lambda>p. part_id p = part_id c) selected"
      and s: "sel \<in> set (selections cs (selected @ [c]))" by (auto split: if_splits)
    with "2.prems" have "distinct (map part_id (selected @ [c]))" by (auto simp: list_ex_iff)
    with "2.IH"(2) [OF c s] show ?thesis by auto
  qed
qed simp

text \<open>
  A plan the code may ship: the parts it pins, the checks they pass together, the wiring and its
  budget, and the price.
\<close>

definition valid_plan :: "SolveInput \<Rightarrow> BuildPlan \<Rightarrow> bool" where
  "valid_plan input plan \<longleftrightarrow>
     (\<exists>profile \<in> set (in_profiles input). \<exists>brain source peripherals env.
        set (brain # source # peripherals) \<subseteq> {p \<in> set (in_parts input). status p = Active} \<and>
        distinct (map part_id (brain # source # peripherals)) \<and>
        part_key brain = pinKey (brain_pin profile) \<and> part_key source = pinKey (source_pin profile) \<and>
        powerCapability (power_source (in_spec input)) \<in> set (capabilities (software source)) \<and>
        set (wanted_caps (in_spec input)) \<subseteq> provided (brain # source # peripherals) \<and>
        checkParts (brain # source # peripherals) brain input = [] \<and>
        wire_setup brain source peripherals profile input (target_life_days (in_spec input)) = Inr env \<and>
        sound_wiring env peripherals (graph_peripherals (wiring_graph plan)) (power_budget plan) \<and>
        part_versions plan = map pin (ordered_parts (brain # source # peripherals)) \<and>
        plan_profile plan = (prof_id profile, prof_version profile) \<and>
        total_cost_usd plan = bom_total (ordered_parts (brain # source # peripherals)) \<and>
        isFinite (total_cost_usd plan))"

lemma wire_value_Wired:
  assumes "wire_value brain source peripherals profile input target = Wired wiring budget"
  obtains env where "wire_setup brain source peripherals profile input target = Inr env"
    "wiring \<in> set (assignments env peripherals [])" "admissible env wiring" "budget = assignment_budget env wiring"
proof -
  from assms obtain env f where env: "wire_setup brain source peripherals profile input target = Inr env"
    and v: "fold (wire_leaf env) (assignments env peripherals []) (None, no_assignment profile) = (Some (wiring, budget), f)"
    by (auto simp: wire_value_def split: sum.splits option.splits prod.splits)
  have "best_so_far env {} None" by (simp add: best_so_far_def)
  then have "best_so_far env (set (assignments env peripherals [])) (Some (wiring, budget))"
    using best_so_far_fold [of env "{}" "(None, no_assignment profile)" "assignments env peripherals []"] v
    by simp
  then have "wiring \<in> set (assignments env peripherals [])" "admissible env wiring" "budget = assignment_budget env wiring"
    by (simp_all add: best_so_far_def)
  with env that show ?thesis by blast
qed

lemma wanted_required: "c_required (needs_ctx input (requirements (in_spec input)) b) = wanted_caps (in_spec input)"
proof -
  have "filter (\<lambda>n. startsWith n ''capability:'') (map (\<lambda>c. ''capability:'' @ c) cs) = map (\<lambda>c. ''capability:'' @ c) cs" for cs
    by (induction cs) auto
  then show ?thesis by (simp add: needs_ctx_def requirements_def comp_def)
qed

lemma wanted_target: "c_target (needs_ctx input (requirements (in_spec input)) b) = target_life_days (in_spec input)"
  by (auto simp: needs_ctx_def requirements_def)

lemma catalogue_inj:
  assumes "SolveInput_ok u input" and "distinct (map part_id ps)" and "set ps \<subseteq> set (in_parts input)"
  shows "distinct (map part_key ps)"
proof -
  from SolveInput_okD(2) [OF assms(1)] have "inj_on part_key (set (in_parts input))" by (simp add: distinct_map)
  then have "inj_on part_key (set ps)" using assms(3) by (rule inj_on_subset)
  with assms(2) show ?thesis by (simp add: distinct_map)
qed

lemma all_plans_valid:
  assumes ok: "SolveInput_ok u input"
    and plan: "plan \<in> set (all_plans (needs_ctx input (requirements (in_spec input)) False) (sorted_profiles input))"
  shows "valid_plan input plan"
proof -
  let ?ctx = "needs_ctx input (requirements (in_spec input)) False"
  from plan obtain profile site selected where
    p: "profile \<in> set (in_profiles input)" "site_of input profile = Some site"
      "selected \<in> set (selections (s_candidates site) [s_brain site, s_source site])"
      "covered_plan ?ctx site selected = Some plan"
    by (auto simp: all_plans_def site_plans_def map_filter_def sorted_profiles_def split: option.splits dest!: sym [of "Some _"])
  from p(2) have site: "mk_site input profile = Some site" by (auto simp: site_of_def split: option.splits if_splits)
  note S = mk_site_Some [OF site]
  from selections_shape [OF p(3)] S(8) obtain peripherals where
    sel: "selected = s_brain site # s_source site # peripherals" "set peripherals \<subseteq> set (s_candidates site)"
      "distinct (map part_id selected)" by auto
  from p(4) wanted_required wanted_target have
    cov: "set (wanted_caps (in_spec input)) \<subseteq> provided selected"
      "selection_plan input (target_life_days (in_spec input)) site selected = Some plan"
    by (auto simp: covered_plan_def split: if_splits)
  from cov(2) obtain wiring budget where
    chk: "checkParts selected (s_brain site) input = []" "isFinite (bom_total (ordered_parts selected))"
    and w: "wire_value (s_brain site) (s_source site) peripherals profile input (target_life_days (in_spec input)) = Wired wiring budget"
    and pl: "plan = mk_plan input site selected wiring budget"
    using S(1) sel(1) by (auto simp: selection_plan_def split: if_splits WiringResult.splits)
  from wire_value_Wired [OF w] obtain env where
    env: "wire_setup (s_brain site) (s_source site) peripherals profile input (target_life_days (in_spec input)) = Inr env"
      "wiring \<in> set (assignments env peripherals [])" "admissible env wiring" "budget = assignment_budget env wiring" .
  have act: "set selected \<subseteq> {p \<in> set (in_parts input). status p = Active}"
    using sel S(2,9) active_parts_set by auto
  have "AssemblyProfile_ok profile" using ok p(1) by (auto simp: SolveInput_ok_def list_all_iff)
  moreover have "distinct (map part_key peripherals)"
    using catalogue_inj [OF ok, of peripherals] sel act by auto
  ultimately have "sound_wiring env peripherals wiring budget"
    using assignment_sound [OF env(1-3)] env(4) by simp
  then show ?thesis
    unfolding valid_plan_def
    using p(1) S act sel(1,3) cov(1) chk env(1) pl
    by (intro bexI [of _ profile] exI [of _ "s_brain site"] exI [of _ "s_source site"]
        exI [of _ peripherals] exI [of _ env]) (simp_all add: mk_plan_def Let_def)
qed

lemma foldl_cost: "foldl (\<lambda>sum p. jadd sum (part_cost p)) a ps = foldl jadd a (map part_cost ps)"
  by (induction ps arbitrary: a) auto

lemma valid_plan_rankable: "valid_plan input plan \<Longrightarrow> rankable plan"
  using double_foldl_jadd double_jadd
  by (auto simp: valid_plan_def rankable_def sound_wiring_def bom_total_def foldl_cost budget_finite_def
      assignment_budget_def powerBudget_def Let_def)

lemma best_of_subset: "best_of cmp k pushed kept \<Longrightarrow> set kept \<subseteq> set pushed"
  unfolding best_of_def using set_mset_mono by fastforce

lemma kept_best:
  assumes "SolveInput_ok u input" and "search input (requirements (in_spec input)) False [] 0 = Done acc s"
  shows "best_of (\<lambda>a b. jsign (comparePlans a b)) (max_plans input)
    (all_plans (needs_ctx input (requirements (in_spec input)) False) (sorted_profiles input)) (a_plans acc)"
proof -
  have "\<forall>p \<in> set (all_plans (needs_ctx input (requirements (in_spec input)) False) (sorted_profiles input)). rankable p"
    using all_plans_valid [OF assms(1)] valid_plan_rankable by blast
  from plan_rank.best_of_all [OF this] search_full(2) [OF assms(2)] show ?thesis
    by (simp add: push_plan_best)
qed

lemma solve_Solved:
  assumes "solve (Inr input) = Solved plans n steps"
  obtains acc where "search input (requirements (in_spec input)) False [] 0 = Done acc steps" "a_count acc \<noteq> 0"
    "plans = a_plans acc" "n = a_count acc"
  using assms by (auto simp: solve_def solve_input_def Let_def split: if_splits outcome.splits prod.splits)

lemma solve_Infeasible:
  assumes "solve (Inr input) = Infeasible conflict diags expl steps"
  obtains acc s1 d where "search input (requirements (in_spec input)) False [] 0 = Done acc s1" "a_count acc = 0"
    "minimise input (requirements (in_spec input)) (requirements (in_spec input))
       (coverage_diags input (a_diags acc)) s1 = Done (conflict, d) steps"
  using assms by (auto simp: solve_def solve_input_def Let_def split: if_splits outcome.splits prod.splits)

subsection \<open>Properties of the solver\<close>


definition bench_solution :: "BuildPlan list \<times> nat" where
  "bench_solution = (case solve (Inr bench_climate) of Solved plans n steps \<Rightarrow> (plans, n) | _ \<Rightarrow> ([], 0))"

lemma bench_solved: "solve (Inr bench_climate) = Solved (fst bench_solution) 1 6 \<and> length (fst bench_solution) = 1"
proof -
  have "(case solve (Inr bench_climate) of Solved plans n steps \<Rightarrow> n = 1 \<and> steps = 6 \<and> length plans = 1 | _ \<Rightarrow> False)"
    by code_simp
  then show ?thesis by (auto simp: bench_solution_def split: SolveResult.splits)
qed


text \<open>
  C31. The solver counts and ranks exactly: \<open>feasible_count\<close> is the number of feasible selections over
  all profiles, and the plans returned are the best \<open>max_plans\<close> of them, in the order of price, average
  draw, number of parts, pins and profile; no plan left out ranks before one returned.
\<close>

theorem solve_plans_best:
  assumes "SolveInput_ok url input" and "solve (Inr input) = Solved plans n steps"
  shows "n = length (all_plans (needs_ctx input (requirements (in_spec input)) False) (sorted_profiles input)) \<and>
    best_of (\<lambda>a b. jsign (comparePlans a b)) (max_plans input)
      (all_plans (needs_ctx input (requirements (in_spec input)) False) (sorted_profiles input)) plans"
  using assms(2) kept_best [OF assms(1)] search_full(1) by (auto elim!: solve_Solved)

theorem solve_plans_best_witness:
  "length (all_plans (needs_ctx bench_climate (requirements (in_spec bench_climate)) False) (sorted_profiles bench_climate)) = 1"
  using solve_plans_best [OF bench_climate_ok conjunct1 [OF bench_solved]] by simp

text \<open>
  C36. The conflict set of an infeasible request is inclusion-minimal: it is a subset of the requirements
  that no selection of parts satisfies, and dropping any one of its members leaves a satisfiable set.
\<close>

theorem solve_conflict_minimal:
  assumes "solve (Inr input) = Infeasible conflict diags expl steps"
  shows "set conflict \<subseteq> set (requirements (in_spec input)) \<and> \<not> feasible input conflict \<and>
    (\<forall>r \<in> set conflict. feasible input (filter (\<lambda>x. x \<noteq> r) conflict))"
  using assms
proof (rule solve_Infeasible)
  fix acc s1 d
  assume s: "search input (requirements (in_spec input)) False [] 0 = Done acc s1" "a_count acc = 0"
    and m: "minimise input (requirements (in_spec input)) (requirements (in_spec input))
       (coverage_diags input (a_diags acc)) s1 = Done (conflict, d) steps"
  have "\<not> feasible input (requirements (in_spec input))"
    using search_full(1) [OF s(1)] s(2) by (simp add: feasible_def)
  from minimise_minimal [OF m this] show ?thesis by auto
qed

definition bench_motion :: SolveInput where
  "bench_motion = bench_input [''read.motion_bool''] None"

definition bench_refusal :: "Failure list \<times> string \<times> nat" where
  "bench_refusal = (case solve (Inr bench_motion) of Infeasible c f e n \<Rightarrow> (f, e, n) | _ \<Rightarrow> ([], [], 0))"

lemma bench_infeasible:
  "solve (Inr bench_motion) =
     Infeasible [''capability:read.motion_bool''] (fst bench_refusal) (fst (snd bench_refusal)) (snd (snd bench_refusal))"
proof -
  have "(case solve (Inr bench_motion) of Infeasible c f e n \<Rightarrow> c = [''capability:read.motion_bool''] | _ \<Rightarrow> False)"
    by code_simp
  then show ?thesis by (auto simp: bench_refusal_def split: SolveResult.splits)
qed

theorem solve_conflict_minimal_witness:
  "\<not> feasible bench_motion [''capability:read.motion_bool''] \<and> feasible bench_motion []"
  using solve_conflict_minimal [OF bench_infeasible] by simp

text \<open>
  C24. The search is bounded and decides the request: it never counts more than \<open>max_steps\<close> steps and
  keeps at most \<open>max_plans\<close> plans; it answers \<open>solved\<close> only for a feasible request, with at least one feasible
  selection counted, and \<open>infeasible\<close> only when no selection of active parts in any profile satisfies all requirements;
  input is refused only for a life target without a battery.
\<close>

theorem solve_decides:
  assumes "SolveInput_ok url input"
  shows "(case solve (Inr input) of
      Solved plans n steps \<Rightarrow> feasible input (requirements (in_spec input)) \<and> 0 < n \<and>
        length plans = min (max_plans input) n \<and> steps \<le> max_steps input
    | Infeasible conflict diags expl steps \<Rightarrow> \<not> feasible input (requirements (in_spec input)) \<and> steps \<le> max_steps input
    | SearchLimit steps \<Rightarrow> steps = max_steps input
    | InvalidInput issues \<Rightarrow> target_life_days (in_spec input) \<noteq> None \<and> power_source (in_spec input) \<noteq> Battery)"
proof -
  let ?reqs = "requirements (in_spec input)"
  have lim: "in_limit (max_steps input) 0 (search input ?reqs False [] 0)"
    by (rule in_limit_search) simp
  show ?thesis
  proof (cases "search input ?reqs False [] 0")
    case (Limit n)
    with lim show ?thesis by (auto simp: solve_def solve_input_def Let_def)
  next
    case (Done acc s1)
    with lim have s1: "s1 \<le> max_steps input" by simp
    note full = search_full(1) [OF Done] kept_best [OF assms Done]
    have "in_limit (max_steps input) s1 (minimise input ?reqs ?reqs (coverage_diags input (a_diags acc)) s1)"
      by (rule in_limit_minimise [OF s1])
    with Done s1 full show ?thesis
      by (auto simp: solve_def solve_input_def Let_def feasible_def best_of_def split: outcome.splits prod.splits)
  qed
qed

theorem solve_decides_witness: "feasible bench_climate (requirements (in_spec bench_climate))"
  using solve_decides [OF bench_climate_ok] bench_solved by simp

subsection \<open>From the intake's specification\<close>

text \<open>
  The fields of the settled specification that \<open>fromIntakeSpec\<close> reads. \<open>transport\<close> and \<open>source\<close> have their
  enumerated types.
\<close>

record IntakeDoc =
  doc_settled :: bool
  doc_capabilities :: "string list"
  doc_interval_s :: jsnum
  doc_accuracy :: "string option"
  doc_flags :: "string list"
  doc_transport :: Transport
  doc_source :: PowerSource
  doc_target :: "jsnum option"
  doc_open_questions :: nat

definition capability_list_ok :: "string list \<Rightarrow> bool" where
  "capability_list_ok cs \<longleftrightarrow> list_all Capability cs \<and> 1 \<le> length cs \<and> length cs \<le> 24"

definition IntakeSpec_ok :: "IntakeDoc \<Rightarrow> bool" where
  "IntakeSpec_ok d \<longleftrightarrow>
     doc_settled d \<and> capability_list_ok (doc_capabilities d) \<and> z_positive (doc_interval_s d) \<and>
     opt_ok z_positive (doc_target d) \<and> doc_open_questions d = 0"

text \<open>\<open>parse\<close> raises a \<open>ZodError\<close> where the schema fails.\<close>

definition fromIntakeSpec :: "IntakeDoc \<Rightarrow> string \<Rightarrow> js_error + SolveSpec" where
  "fromIntakeSpec d rt =
     (if \<not> IntakeSpec_ok d then Inl (Thrown ''ZodError'')
      else if doc_flags d \<noteq> [] \<or> (case doc_accuracy d of None \<Rightarrow> False | Some a \<Rightarrow> js_trim a \<noteq> [])
      then Inl (Thrown ''Environmental flags and accuracy requirements need a matcher model before solving'')
      else let s = \<lparr>spec_capabilities = doc_capabilities d, transport = doc_transport d,
                    power_source = doc_source d, interval_s = doc_interval_s d,
                    target_life_days = doc_target d, runtime = rt\<rparr>
           in if SolveSpec_ok s then Inr s else Inl (Thrown ''ZodError''))"

text \<open>
  The matcher accepts an intake specification exactly when it is settled, has no open question, no
  environmental flag and no accuracy text, passes the field checks and comes with a SemVer runtime; what
  it accepts is a valid solver specification carrying the document's fields unchanged.
\<close>

theorem fromIntakeSpec_gate:
  "(\<exists>s. fromIntakeSpec d rt = Inr s \<and> SolveSpec_ok s \<and>
      spec_capabilities s = doc_capabilities d \<and> interval_s s = doc_interval_s d \<and>
      target_life_days s = doc_target d \<and> runtime s = rt) \<longleftrightarrow>
    IntakeSpec_ok d \<and> doc_flags d = [] \<and> (\<nexists>a. doc_accuracy d = Some a \<and> js_trim a \<noteq> []) \<and> SemVer rt"
  by (auto simp: fromIntakeSpec_def IntakeSpec_ok_def SolveSpec_ok_def capability_list_ok_def Let_def
      split: option.splits)

end
