(* ===== verification/Registry.thy ===== *)
theory Registry
  imports Part_Schema Bench
begin

text \<open>
  The registry's own checks, \<open>registry/scripts\<close>: the cross-part rules of \<open>lib/rules.ts\<close>, the voltage
  path of the golden builds (\<open>lib/power.ts\<close>, \<open>golden-builds.ts\<close>) and the catalogue intake reads
  (\<open>catalogue.ts\<close>). Characters above 8 bits in messages are written as their UTF-8 bytes.
\<close>

abbreviation (input) en_dash :: string where
  "en_dash \<equiv> [CHR 0xE2, CHR 0x80, CHR 0x93]"

subsection \<open>Golden builds and their power path\<close>

record GoldenBuild =
  gb_id :: string
  gb_name :: string
  gb_requires :: "string list"
  gb_optional :: "string list"
  gb_supply :: string
  gb_brain_input :: string

definition GOLDEN_BUILDS :: "GoldenBuild list" where
  "GOLDEN_BUILDS =
     [\<lparr>gb_id = ''fridge-monitor'', gb_name = ''Fridge monitor'',
       gb_requires = [''read.temperature_c'', ''read.humidity_pct'', ''net.wifi'', ''power.battery''],
       gb_optional = [''read.acceleration_g'', ''power.charge''],
       gb_supply = ''power.battery'', gb_brain_input = ''5v-pin''\<rparr>,
      \<lparr>gb_id = ''presence-alert'', gb_name = ''Presence alert'',
       gb_requires = [''read.motion_bool'', ''net.wifi'', ''power.5v''],
       gb_optional = [''read.distance_cm'', ''read.illuminance_lux''],
       gb_supply = ''power.5v'', gb_brain_input = ''primary''\<rparr>,
      \<lparr>gb_id = ''plant-waterer'', gb_name = ''Plant waterer'',
       gb_requires = [''read.soil_moisture_pct'', ''act.position_deg'', ''net.wifi'', ''power.5v''],
       gb_optional = [''read.illuminance_lux''],
       gb_supply = ''power.5v'', gb_brain_input = ''primary''\<rparr>]"

record PoweredPeripheral =
  pp_capability :: string
  pp_part :: string
  pp_rail :: string
  pp_window :: VoltageRange

record PowerAssignment =
  pa_supply :: string
  pa_brain :: string
  pa_brain_input :: string
  pa_window :: VoltageRange
  pa_peripherals :: "PoweredPeripheral list"

datatype PowerCheck = PowerOk PowerAssignment | PowerProblems "string list"

definition byId :: "PartDefinition \<Rightarrow> PartDefinition \<Rightarrow> int" where
  "byId a b = (if part_id a < part_id b then - 1 else if part_id a > part_id b then 1 else 0)"

definition volts :: "VoltageRange \<Rightarrow> string" where
  "volts w = num_str (fst w) @ en_dash @ num_str (snd w) @ '' V''"

text \<open>The parts that provide the supply capability and have a supply, with its output, by id.\<close>

definition path_supplies :: "GoldenBuild \<Rightarrow> PartDefinition list \<Rightarrow> (PartDefinition \<times> VoltageRange) list" where
  "path_supplies build parts =
     js_sort (\<lambda>a b. byId (fst a) (fst b))
       (concat (map (\<lambda>p. case part_supply (electrical p) of None \<Rightarrow> [] | Some s \<Rightarrow> [(p, output_v s)])
          (filter (\<lambda>p. gb_supply build \<in> set (capabilities (software p))) parts)))"

definition path_brains :: "PartDefinition list \<Rightarrow> PartDefinition list" where
  "path_brains parts = js_sort byId (filter (\<lambda>p. part_interface (electrical p) = HostIf) parts)"

definition path_needs :: "GoldenBuild \<Rightarrow> string list" where
  "path_needs build = filter (\<lambda>c. startsWith c ''read.'' \<or> startsWith c ''act.'') (gb_requires build)"

definition brain_window :: "string \<Rightarrow> PartDefinition \<Rightarrow> VoltageRange option" where
  "brain_window inputName brain =
     (if inputName = ''primary'' then Some (voltage_range (electrical brain))
      else case alt_inputs (electrical brain) of
             None \<Rightarrow> None
           | Some inputs \<Rightarrow> map_option input_range (List.find (\<lambda>i. input_name i = inputName) inputs))"

text \<open>The rail a candidate runs from, and the window it then works in.\<close>

definition peripheral_window :: "PartDefinition \<Rightarrow> VoltageRange \<Rightarrow> PartDefinition \<Rightarrow> PartDefinition \<Rightarrow> VoltageRange option" where
  "peripheral_window supply output brain p =
     (let rail = (if ''power.5v'' \<in> set (requires (electrical p))
                  then (if ''power.5v'' \<in> set (capabilities (software supply)) then Some output else None)
                  else map_option output_v (part_supply (electrical brain)))
      in case rail of None \<Rightarrow> None | Some r \<Rightarrow> usableWindow r (voltage_range (electrical p)))"

definition candidates_for :: "PartDefinition list \<Rightarrow> string \<Rightarrow> PartDefinition list" where
  "candidates_for parts capability =
     js_sort byId (filter (\<lambda>p. capability \<in> set (capabilities (software p))) parts)"

definition powered :: "PartDefinition \<Rightarrow> VoltageRange \<Rightarrow> PartDefinition \<Rightarrow> string \<Rightarrow> PartDefinition \<Rightarrow> PoweredPeripheral list" where
  "powered supply output brain capability p =
     (case peripheral_window supply output brain p of
        None \<Rightarrow> []
      | Some w \<Rightarrow>
          [\<lparr>pp_capability = capability, pp_part = part_id p,
            pp_rail = (if ''power.5v'' \<in> set (requires (electrical p)) then part_id supply else part_id brain @ '' rail''),
            pp_window = w\<rparr>])"

text \<open>The loop over the needed capabilities: the peripherals found, and the problems of those missing.\<close>

fun power_needs ::
    "PartDefinition list \<Rightarrow> PartDefinition \<Rightarrow> VoltageRange \<Rightarrow> PartDefinition \<Rightarrow> string list \<Rightarrow>
     PoweredPeripheral list \<times> string list" where
  "power_needs parts supply output brain [] = ([], [])"
| "power_needs parts supply output brain (capability # rest) =
     (let (found, problems) = power_needs parts supply output brain rest;
          candidates = candidates_for parts capability
      in if candidates = [] then (found, problems)
         else case concat (map (powered supply output brain capability) candidates) of
                x # _ \<Rightarrow> (x # found, problems)
              | [] \<Rightarrow> (found, (''no part providing '' @ capability @ '' runs from '' @ part_id supply @ '' or ''
                              @ part_id brain @ [CHR 0x27] @ ''s rail'') # problems))"

text \<open>One pair of a supply and a brain: its assignment, or its problems.\<close>

definition power_pair ::
    "GoldenBuild \<Rightarrow> PartDefinition list \<Rightarrow> (PartDefinition \<times> VoltageRange) \<times> PartDefinition \<Rightarrow>
     string list + PowerAssignment" where
  "power_pair build parts x =
     (let ((supply, output), brain) = x; inputName = gb_brain_input build in
      case brain_window inputName brain of
        None \<Rightarrow> Inl [part_id brain @ '' has no \"'' @ inputName @ ''\" input'']
      | Some input \<Rightarrow>
          (case usableWindow output input of
             None \<Rightarrow> Inl [part_id supply @ '' ('' @ volts output @ '') can't feed '' @ part_id brain @ '' ''
                        @ inputName @ '' ('' @ volts input @ '')'']
           | Some window \<Rightarrow>
               (let (peripherals, problems) = power_needs parts supply output brain (path_needs build) in
                if problems = []
                then Inr \<lparr>pa_supply = part_id supply, pa_brain = part_id brain, pa_brain_input = inputName,
                          pa_window = window, pa_peripherals = peripherals\<rparr>
                else Inl problems)))"

fun try_pairs :: "('a \<Rightarrow> string list + PowerAssignment) \<Rightarrow> string list \<Rightarrow> 'a list \<Rightarrow> PowerCheck" where
  "try_pairs f problems [] = PowerProblems (js_unique problems)"
| "try_pairs f problems (x # xs) =
     (case f x of Inr a \<Rightarrow> PowerOk a | Inl ps \<Rightarrow> try_pairs f (problems @ ps) xs)"

definition checkPowerPath :: "GoldenBuild \<Rightarrow> PartDefinition list \<Rightarrow> PowerCheck" where
  "checkPowerPath build parts =
     (let supplies = path_supplies build parts; brains = path_brains parts;
          problems = issue_if (supplies = []) (''no part supplies '' @ gb_supply build)
                   @ issue_if (brains = []) ''no host part''
      in try_pairs (power_pair build parts) problems (List.product supplies brains))"

subsection \<open>Registry files and issues\<close>

text \<open>
  A file as read: not JSON, JSON the schema rejects with its issues, or the parsed value. The schema
  checks are those of \<open>PartDefinition\<close>, \<open>ConnectorDefinition\<close>, \<open>I2cShared\<close> and \<open>KnownIssues\<close>.
\<close>

datatype 'a content = ParseError string | SchemaError "issue list" | Parsed 'a

record 'a RawFile =
  raw_path :: string
  raw_name :: string
  raw_content :: "'a content"

record I2cSharedEntry =
  sh_address :: string
  sh_parts :: "string list"
  sh_note :: string

record KnownIssue =
  ki_part :: string
  ki_host :: string
  ki_note :: string

definition I2cShared_ok :: "I2cSharedEntry list \<Rightarrow> bool" where
  "I2cShared_ok xs \<longleftrightarrow>
     list_all (\<lambda>e. I2cAddress (sh_address e) \<and> list_all PartId (sh_parts e) \<and> 2 \<le> length (sh_parts e) \<and> sh_note e \<noteq> []) xs"

definition KnownIssues_ok :: "KnownIssue list \<Rightarrow> bool" where
  "KnownIssues_ok xs \<longleftrightarrow> list_all (\<lambda>e. PartId (ki_part e) \<and> PartId (ki_host e) \<and> ki_note e \<noteq> []) xs"

datatype RuleId = RJson | RSchema | RFolderId | RConnectorName | RDuplicateVersion | RFootprint
  | RConnectorUnknown | RConnectorInterface | RSuccessorUnknown | RConflictUnknown
  | RRequiresUnprovided | RCapabilityUnit | RI2cClash | RLogicLevel | RGoldenBuild | RPowerPath

fun rule_text :: "RuleId \<Rightarrow> string" where
  "rule_text RJson = ''json''"
| "rule_text RSchema = ''schema''"
| "rule_text RFolderId = ''folder-id''"
| "rule_text RConnectorName = ''connector-name''"
| "rule_text RDuplicateVersion = ''duplicate-version''"
| "rule_text RFootprint = ''footprint''"
| "rule_text RConnectorUnknown = ''connector-unknown''"
| "rule_text RConnectorInterface = ''connector-interface''"
| "rule_text RSuccessorUnknown = ''successor-unknown''"
| "rule_text RConflictUnknown = ''conflict-unknown''"
| "rule_text RRequiresUnprovided = ''requires-unprovided''"
| "rule_text RCapabilityUnit = ''capability-unit''"
| "rule_text RI2cClash = ''i2c-clash''"
| "rule_text RLogicLevel = ''logic-level''"
| "rule_text RGoldenBuild = ''golden-build''"
| "rule_text RPowerPath = ''power-path''"

record RegistryIssue =
  ri_rule :: RuleId
  ri_file :: string
  ri_message :: string

abbreviation mk_issue :: "RuleId \<Rightarrow> string \<Rightarrow> string \<Rightarrow> RegistryIssue" where
  "mk_issue r f m \<equiv> \<lparr>ri_rule = r, ri_file = f, ri_message = m\<rparr>"

record RegistryInput =
  reg_parts :: "PartDefinition RawFile list"
  reg_connectors :: "ConnectorDefinition RawFile list"
  reg_i2c_shared :: "I2cSharedEntry list RawFile"
  reg_known_issues :: "KnownIssue list RawFile"
  reg_footprint_exists :: "string \<Rightarrow> string \<Rightarrow> bool"
  reg_golden_builds :: "GoldenBuild list"

record RegistryResult =
  res_issues :: "RegistryIssue list"
  res_parts :: "(PartDefinition RawFile \<times> PartDefinition) list"
  res_connectors :: "ConnectorDefinition list"

definition is_live :: "PartDefinition \<Rightarrow> bool" where
  "is_live p \<longleftrightarrow> status p \<in> {Draft, Active}"

text \<open>\<open>parseFile\<close>: the issues it pushes, and the value.\<close>

definition parse_issues :: "'a RawFile \<Rightarrow> RegistryIssue list" where
  "parse_issues file =
     (case raw_content file of
        ParseError e \<Rightarrow> [mk_issue RJson (raw_path file) (''not valid JSON: '' @ e)]
      | SchemaError is \<Rightarrow>
          map (\<lambda>(path, message). mk_issue RSchema (raw_path file)
                 ((if path = [] then ''(root)'' else js_join ''.'' path) @ '': '' @ message)) is
      | Parsed _ \<Rightarrow> [])"

definition parsed_value :: "'a RawFile \<Rightarrow> 'a option" where
  "parsed_value file = (case raw_content file of Parsed v \<Rightarrow> Some v | _ \<Rightarrow> None)"

subsection \<open>validateRegistry\<close>

definition connector_issues_of :: "ConnectorDefinition RawFile \<Rightarrow> RegistryIssue list" where
  "connector_issues_of file =
     parse_issues file @
     (case parsed_value file of
        None \<Rightarrow> []
      | Some c \<Rightarrow> issue_if (conn_id c \<noteq> raw_name file)
          (mk_issue RConnectorName (raw_path file)
             (''id \"'' @ conn_id c @ ''\" must match the file name \"'' @ raw_name file @ ''.json\"'')))"

definition parsed_connectors :: "RegistryInput \<Rightarrow> ConnectorDefinition list" where
  "parsed_connectors input = List.map_filter parsed_value (reg_connectors input)"

text \<open>\<open>new Map(connectors.map(c => [c.id, c]))\<close>: a later file of the same id wins.\<close>

definition connector_by_id :: "ConnectorDefinition list \<Rightarrow> string \<Rightarrow> ConnectorDefinition option" where
  "connector_by_id connectors i = List.find (\<lambda>c. conn_id c = i) (rev connectors)"

definition version_key :: "PartDefinition \<Rightarrow> string" where
  "version_key p = part_id p @ ''@'' @ part_version p"

text \<open>The checks on one parsed part; \<open>seen\<close> maps the versions of earlier files to their paths.\<close>

definition part_file_issues ::
    "RegistryInput \<Rightarrow> ConnectorDefinition list \<Rightarrow> (string \<times> string) list \<Rightarrow> PartDefinition RawFile \<Rightarrow> PartDefinition \<Rightarrow>
     RegistryIssue list" where
  "part_file_issues input connectors seen file part =
     issue_if (part_id part \<noteq> raw_name file)
       (mk_issue RFolderId (raw_path file)
          (''id \"'' @ part_id part @ ''\" must match its folder \"parts/'' @ raw_name file @ ''\"''))
     @ (case map_of seen (version_key part) of
          None \<Rightarrow> []
        | Some first \<Rightarrow> [mk_issue RDuplicateVersion (raw_path file) (version_key part @ '' is already defined in '' @ first)])
     @ issue_if ((status part = Active \<or> status part = Deprecated) \<and>
           \<not> reg_footprint_exists input (raw_name file) (footprint_file (mechanical part)))
         (mk_issue RFootprint (raw_path file)
            (''status \"'' @ status_text (status part) @ ''\" needs parts/'' @ raw_name file @ ''/''
             @ footprint_file (mechanical part) @ '' to exist; keep the part a draft until it does''))
     @ (case connector_by_id connectors (connector (electrical part)) of
          None \<Rightarrow> [mk_issue RConnectorUnknown (raw_path file)
                    (''connector \"'' @ connector (electrical part) @ ''\" has no file in connectors/'')]
        | Some c \<Rightarrow> issue_if (part_interface (electrical part) \<notin> set (interfaces c))
            (mk_issue RConnectorInterface (raw_path file)
               (''connector \"'' @ conn_id c @ ''\" doesn't carry interface \"''
                @ interface_text (part_interface (electrical part)) @ ''\" (it carries ''
                @ js_join '', '' (map interface_text (interfaces c)) @ '')'')))
     @ concat (map (\<lambda>cap. issue_if (capabilityUnit cap = UnknownUnit)
          (mk_issue RCapabilityUnit (raw_path file)
             (''capability \"'' @ cap @ ''\" needs a unit suffix (_c, _pct, '' @ [CHR 0xE2, CHR 0x80, CHR 0xA6]
              @ ''; see scripts/lib/units.ts)''))) (capabilities (software part)))"

fun part_loop ::
    "RegistryInput \<Rightarrow> ConnectorDefinition list \<Rightarrow> (string \<times> string) list \<Rightarrow> PartDefinition RawFile list \<Rightarrow>
     RegistryIssue list" where
  "part_loop input connectors seen [] = []"
| "part_loop input connectors seen (file # rest) =
     (case parsed_value file of
        None \<Rightarrow> parse_issues file @ part_loop input connectors seen rest
      | Some part \<Rightarrow>
          parse_issues file @ part_file_issues input connectors seen file part @
          part_loop input connectors
            (if map_of seen (version_key part) = None then map_set (version_key part) (raw_path file) seen else seen) rest)"

definition parsed_parts :: "RegistryInput \<Rightarrow> (PartDefinition RawFile \<times> PartDefinition) list" where
  "parsed_parts input =
     List.map_filter (\<lambda>file. map_option (Pair file) (parsed_value file)) (reg_parts input)"

definition live_parts :: "RegistryInput \<Rightarrow> (PartDefinition RawFile \<times> PartDefinition) list" where
  "live_parts input = filter (\<lambda>fp. is_live (snd fp)) (parsed_parts input)"

definition provided_caps :: "RegistryInput \<Rightarrow> string list" where
  "provided_caps input = concat (map (\<lambda>fp. capabilities (software (snd fp))) (live_parts input))"

definition reference_issues :: "RegistryInput \<Rightarrow> PartDefinition RawFile \<times> PartDefinition \<Rightarrow> RegistryIssue list" where
  "reference_issues input fp =
     (let (file, part) = fp; knownIds = map (part_id \<circ> snd) (parsed_parts input) in
      (case successor part of
         None \<Rightarrow> []
       | Some s \<Rightarrow> issue_if (s \<notin> set knownIds)
           (mk_issue RSuccessorUnknown (raw_path file) (''successor \"'' @ s @ ''\" is not a part in the registry'')))
      @ concat (map (\<lambda>i. issue_if (i \<notin> set knownIds)
           (mk_issue RConflictUnknown (raw_path file) (''conflicts lists \"'' @ i @ ''\", which is not a part in the registry'')))
           (conflicts (electrical part)))
      @ (if is_live part then
           concat (map (\<lambda>need. issue_if (need \<notin> set (provided_caps input))
             (mk_issue RRequiresUnprovided (raw_path file)
                (''requires \"'' @ need @ ''\", which no draft or active part provides''))) (requires (electrical part)))
         else []))"

text \<open>\<open>byAddress\<close>: the ids of the live parts at each address, in order of appearance.\<close>

definition add_address :: "PartDefinition \<Rightarrow> (string \<times> string list) list \<Rightarrow> (string \<times> string list) list" where
  "add_address part m =
     (case i2c_address (electrical part) of
        None \<Rightarrow> m
      | Some a \<Rightarrow>
          (let ids = (case map_of m a of None \<Rightarrow> [] | Some xs \<Rightarrow> xs)
           in map_set a (if part_id part \<in> set ids then ids else ids @ [part_id part]) m))"

definition by_address :: "RegistryInput \<Rightarrow> (string \<times> string list) list" where
  "by_address input = fold (\<lambda>fp. add_address (snd fp)) (live_parts input) []"

definition parsed_shared :: "RegistryInput \<Rightarrow> I2cSharedEntry list" where
  "parsed_shared input = (case parsed_value (reg_i2c_shared input) of None \<Rightarrow> [] | Some xs \<Rightarrow> xs)"

definition address_issues :: "RegistryInput \<Rightarrow> RegistryIssue list" where
  "address_issues input =
     (let shared = parsed_shared input; file = raw_path (reg_i2c_shared input) in
      concat (map (\<lambda>(address, ids).
        issue_if (2 \<le> length ids \<and>
            \<not> list_ex (\<lambda>e. sh_address e = address \<and> list_all (\<lambda>i. i \<in> set (sh_parts e)) ids) shared)
          (mk_issue RI2cClash file
             (js_join '', '' ids @ '' all default to I2C address '' @ address
              @ ''; add an entry saying why that's safe, or change one part''))) (by_address input))
      @ concat (map (\<lambda>e.
        issue_if (\<not> list_all (\<lambda>i. i \<in> set (case map_of (by_address input) (sh_address e) of None \<Rightarrow> [] | Some ids \<Rightarrow> ids))
                      (sh_parts e))
          (mk_issue RI2cClash file
             (''entry for '' @ sh_address e @ '' lists '' @ js_join '', '' (sh_parts e)
              @ '', but they don't all default to that address any more''))) shared))"

definition parsed_known :: "RegistryInput \<Rightarrow> KnownIssue list" where
  "parsed_known input = (case parsed_value (reg_known_issues input) of None \<Rightarrow> [] | Some xs \<Rightarrow> xs)"

definition host_levels :: "RegistryInput \<Rightarrow> (string \<times> jsnum) list" where
  "host_levels input =
     concat (map (\<lambda>fp. case logic_v (electrical (snd fp)) of
        Some v \<Rightarrow> (if part_interface (electrical (snd fp)) = HostIf then [(part_id (snd fp), fst v)] else [])
      | None \<Rightarrow> []) (live_parts input))"

text \<open>The host levels a live peripheral cannot work at.\<close>

definition level_mismatches :: "RegistryInput \<Rightarrow> PartDefinition \<Rightarrow> (string \<times> jsnum) list" where
  "level_mismatches input part =
     (case logic_v (electrical part) of
        None \<Rightarrow> []
      | Some rng \<Rightarrow>
          if part_interface (electrical part) = HostIf then []
          else filter (\<lambda>(host, io). \<not> (jle (fst rng) io \<and> jle io (snd rng))) (host_levels input))"

definition level_issues :: "RegistryInput \<Rightarrow> PartDefinition RawFile \<times> PartDefinition \<Rightarrow> RegistryIssue list" where
  "level_issues input fp =
     (let (file, part) = fp; rng = (case logic_v (electrical part) of Some r \<Rightarrow> r | None \<Rightarrow> (NaN, NaN)) in
      concat (map (\<lambda>(host, io).
        issue_if (\<not> list_ex (\<lambda>k. ki_part k = part_id part \<and> ki_host k = host) (parsed_known input))
          (mk_issue RLogicLevel (raw_path file)
             (''signal lines work at '' @ volts rng @ '', but '' @ host @ '' drives '' @ num_str io
              @ '' V IO; change the part, or record the level shifting a build needs in known-issues.json'')))
        (level_mismatches input part)))"

definition mismatched :: "RegistryInput \<Rightarrow> string list" where
  "mismatched input =
     concat (map (\<lambda>fp. map (\<lambda>(host, io). part_id (snd fp) @ ''|'' @ host) (level_mismatches input (snd fp))) (live_parts input))"

definition known_issues_issues :: "RegistryInput \<Rightarrow> RegistryIssue list" where
  "known_issues_issues input =
     concat (map (\<lambda>k. issue_if (ki_part k @ ''|'' @ ki_host k \<notin> set (mismatched input))
       (mk_issue RLogicLevel (raw_path (reg_known_issues input))
          (''entry for '' @ ki_part k @ '' and '' @ ki_host k
           @ '' doesn't match a logic-level mismatch any more; remove it''))) (parsed_known input))"

definition golden_issues :: "RegistryInput \<Rightarrow> GoldenBuild \<Rightarrow> RegistryIssue list" where
  "golden_issues input build =
     concat (map (\<lambda>cap. issue_if (cap \<notin> set (provided_caps input))
        (mk_issue RGoldenBuild ''scripts/golden-builds.ts''
           (gb_name build @ '' needs \"'' @ cap @ ''\", which no draft or active part provides'')))
        (gb_requires build @ gb_optional build))
     @ (case checkPowerPath build (map snd (live_parts input)) of
          PowerOk _ \<Rightarrow> []
        | PowerProblems ps \<Rightarrow>
            [mk_issue RPowerPath ''scripts/golden-builds.ts''
               (gb_name build @ '' has no voltage-compatible power path: '' @ js_join ''; '' ps)])"

definition validateRegistry :: "RegistryInput \<Rightarrow> RegistryResult" where
  "validateRegistry input =
     \<lparr>res_issues =
        concat (map connector_issues_of (reg_connectors input))
        @ part_loop input (parsed_connectors input) [] (reg_parts input)
        @ concat (map (reference_issues input) (parsed_parts input))
        @ parse_issues (reg_i2c_shared input)
        @ address_issues input
        @ parse_issues (reg_known_issues input)
        @ concat (map (level_issues input) (live_parts input))
        @ known_issues_issues input
        @ concat (map (golden_issues input) (reg_golden_builds input)),
      res_parts = parsed_parts input,
      res_connectors = parsed_connectors input\<rparr>"

definition formatIssues :: "RegistryIssue list \<Rightarrow> string" where
  "formatIssues issues =
     js_join ''\<newline>'' (map (\<lambda>i. ''  '' @ ri_file i @ ''\<newline>    ['' @ rule_text (ri_rule i) @ ''] '' @ ri_message i) issues)"

text \<open>\<open>loadParts\<close>: the parsed parts, or the first bad file's error.\<close>

fun loadParts :: "PartDefinition RawFile list \<Rightarrow> js_error + PartDefinition list" where
  "loadParts [] = Inr []"
| "loadParts (file # rest) =
     (case raw_content file of
        ParseError e \<Rightarrow> Inl (Thrown (raw_path file @ '': '' @ e))
      | SchemaError _ \<Rightarrow> Inl (Thrown (raw_path file @ '': invalid part; run pnpm --filter @albusforge/registry validate''))
      | Parsed p \<Rightarrow> map_sum id (Cons p) (loadParts rest))"

subsection \<open>Power paths\<close>

lemma usableWindow_Some:
  assumes "usableWindow source input = Some w" and "VoltageRange_ok source" and "VoltageRange_ok input"
  shows "jle (fst source) (fst w)" "jle (fst input) (fst w)" "jle (fst w) (snd w)" "snd w = snd source" "jle (snd w) (snd input)"
proof -
  from assms(2,3) obtain a b c d where f: "fst source = Fin a" "snd source = Fin b" "fst input = Fin c" "snd input = Fin d"
    by (auto simp: VoltageRange_ok_def z_positive_def isFinite_iff)
  show "jle (fst source) (fst w)" "jle (fst input) (fst w)" "jle (fst w) (snd w)" "snd w = snd source" "jle (snd w) (snd input)"
    using assms(1) by (auto simp: usableWindow_def Let_def f jmax_def split: if_splits)
qed

lemma try_pairs_Ok: "try_pairs f problems xs = PowerOk a \<Longrightarrow> \<exists>x \<in> set xs. f x = Inr a"
  by (induction f problems xs rule: try_pairs.induct) (auto split: sum.splits)

lemma try_pairs_Problems: "try_pairs f problems xs = PowerProblems ps \<Longrightarrow> \<forall>x \<in> set xs. \<exists>e. f x = Inl e"
  by (induction f problems xs rule: try_pairs.induct) (auto split: sum.splits)

lemma power_needs_complete:
  assumes "power_needs parts supply output brain needs = (found, [])"
  shows "map pp_capability found = filter (\<lambda>c. candidates_for parts c \<noteq> []) needs \<and>
    (\<forall>x \<in> set found. \<exists>p \<in> set parts. pp_part x = part_id p \<and> pp_capability x \<in> set (capabilities (software p)) \<and>
       peripheral_window supply output brain p = Some (pp_window x))"
  using assms
proof (induction needs arbitrary: found)
  case (Cons c needs)
  obtain found1 problems1 where r: "power_needs parts supply output brain needs = (found1, problems1)"
    by (cases "power_needs parts supply output brain needs")
  show ?case
  proof (cases "candidates_for parts c = []")
    case True
    with Cons r show ?thesis by simp
  next
    case False
    with Cons.prems r obtain x xs where
      x: "concat (map (powered supply output brain c) (candidates_for parts c)) = x # xs" "found = x # found1" "problems1 = []"
      by (auto split: list.splits)
    then have "x \<in> set (concat (map (powered supply output brain c) (candidates_for parts c)))" by simp
    then obtain p where "p \<in> set (candidates_for parts c)" "x \<in> set (powered supply output brain c p)" by auto
    with Cons.IH [of found1] r x False show ?thesis
      by (auto simp: powered_def candidates_for_def split: option.splits)
  qed
qed simp

text \<open>
  A power path the check accepts is one: the supply provides the build's supply capability, feeds the
  named input of a host over the returned window, and every read or act capability the build requires
  that some part provides is covered by a part with a usable window on its rail. The check refuses only
  when every pair of a supply and a host fails.
\<close>

theorem power_path_decides:
  "(case checkPowerPath build parts of
      PowerOk a \<Rightarrow>
        (\<exists>supply \<in> set parts. \<exists>s brain input.
           part_supply (electrical supply) = Some s \<and> gb_supply build \<in> set (capabilities (software supply)) \<and>
           brain \<in> set parts \<and> part_interface (electrical brain) = HostIf \<and>
           pa_supply a = part_id supply \<and> pa_brain a = part_id brain \<and>
           brain_window (gb_brain_input build) brain = Some input \<and>
           usableWindow (output_v s) input = Some (pa_window a) \<and>
           map pp_capability (pa_peripherals a) = filter (\<lambda>c. candidates_for parts c \<noteq> []) (path_needs build) \<and>
           (\<forall>x \<in> set (pa_peripherals a). \<exists>p \<in> set parts. pp_part x = part_id p \<and>
              pp_capability x \<in> set (capabilities (software p)) \<and>
              peripheral_window supply (output_v s) brain p = Some (pp_window x)))
    | PowerProblems ps \<Rightarrow>
        (\<forall>x \<in> set (List.product (path_supplies build parts) (path_brains parts)). \<exists>e. power_pair build parts x = Inl e))"
proof (cases "checkPowerPath build parts")
  case (PowerOk a)
  then have "\<exists>x \<in> set (List.product (path_supplies build parts) (path_brains parts)). power_pair build parts x = Inr a"
    unfolding checkPowerPath_def Let_def by (rule try_pairs_Ok)
  then obtain sp outp brain where
    x: "(sp, outp) \<in> set (path_supplies build parts)" "brain \<in> set (path_brains parts)"
      "power_pair build parts ((sp, outp), brain) = Inr a" by auto
  from x(1) obtain s where s: "sp \<in> set parts" "part_supply (electrical sp) = Some s" "outp = output_v s"
    "gb_supply build \<in> set (capabilities (software sp))"
    by (auto simp: path_supplies_def split: option.splits dest!: sym [of "Some _"])
  from x(2) have b: "brain \<in> set parts" "part_interface (electrical brain) = HostIf" by (auto simp: path_brains_def)
  from x(3) obtain inp window found where
    w: "brain_window (gb_brain_input build) brain = Some inp" "usableWindow outp inp = Some window"
      "power_needs parts sp outp brain (path_needs build) = (found, [])"
      "a = \<lparr>pa_supply = part_id sp, pa_brain = part_id brain, pa_brain_input = gb_brain_input build,
            pa_window = window, pa_peripherals = found\<rparr>"
    by (auto simp: power_pair_def Let_def split: option.splits prod.splits if_splits)
  note needs = power_needs_complete [OF w(3)]
  from s b w(1,2) needs have "part_supply (electrical sp) = Some s \<and> gb_supply build \<in> set (capabilities (software sp)) \<and>
      brain \<in> set parts \<and> part_interface (electrical brain) = HostIf \<and>
      pa_supply a = part_id sp \<and> pa_brain a = part_id brain \<and>
      brain_window (gb_brain_input build) brain = Some inp \<and> usableWindow (output_v s) inp = Some (pa_window a) \<and>
      map pp_capability (pa_peripherals a) = filter (\<lambda>c. candidates_for parts c \<noteq> []) (path_needs build) \<and>
      (\<forall>x \<in> set (pa_peripherals a). \<exists>p \<in> set parts. pp_part x = part_id p \<and>
         pp_capability x \<in> set (capabilities (software p)) \<and> peripheral_window sp (output_v s) brain p = Some (pp_window x))"
    by (simp add: w(4))
  with s(1) PowerOk show ?thesis by (simp only: PowerCheck.case) blast
next
  case (PowerProblems ps)
  then have "\<forall>x \<in> set (List.product (path_supplies build parts) (path_brains parts)). \<exists>e. power_pair build parts x = Inl e"
    unfolding checkPowerPath_def Let_def by (rule try_pairs_Problems)
  with PowerProblems show ?thesis by simp
qed

subsection \<open>A registry without issues\<close>

lemma parse_issues_Nil:
  "parse_issues file = [] \<Longrightarrow> raw_content file \<noteq> SchemaError [] \<Longrightarrow> \<exists>v. raw_content file = Parsed v"
  by (auto simp: parse_issues_def split: content.splits)

lemma part_loop_Nil:
  "part_loop input cs seen files = [] \<Longrightarrow> \<forall>f \<in> set files. raw_content f \<noteq> SchemaError [] \<Longrightarrow>
     (\<forall>f \<in> set files. \<exists>p seen'. raw_content f = Parsed p \<and> part_file_issues input cs seen' f p = []) \<and>
     distinct (map version_key (List.map_filter parsed_value files)) \<and>
     (\<forall>p \<in> set (List.map_filter parsed_value files). map_of seen (version_key p) = None)"
proof (induction files arbitrary: seen)
  case (Cons f files)
  from Cons.prems have "parse_issues f = []" by (auto split: option.splits)
  with Cons.prems parse_issues_Nil obtain p where p: "raw_content f = Parsed p" by force
  then have v: "parsed_value f = Some p" by (simp add: parsed_value_def)
  with Cons.prems have pf: "part_file_issues input cs seen f p = []" by auto
  then have none: "map_of seen (version_key p) = None" by (auto simp: part_file_issues_def split: option.splits)
  with Cons.prems v have "part_loop input cs (map_set (version_key p) (raw_path f) seen) files = []" by simp
  from Cons.IH [OF this] Cons.prems(2) p v pf none show ?case
    by (auto simp: List.map_filter_simps split: if_splits)
qed (simp add: List.map_filter_simps)

text \<open>The address table holds, for each address, the ids of the live parts that default to it.\<close>

definition ids_at :: "(string \<times> string list) list \<Rightarrow> string \<Rightarrow> string list" where
  "ids_at m a = (case map_of m a of None \<Rightarrow> [] | Some ids \<Rightarrow> ids)"

definition address_inv :: "PartDefinition list \<Rightarrow> (string \<times> string list) list \<Rightarrow> bool" where
  "address_inv ps m \<longleftrightarrow>
     distinct (map fst m) \<and>
     (\<forall>a. set (ids_at m a) = part_id ` {p \<in> set ps. i2c_address (electrical p) = Some a})"

lemma address_inv_add:
  assumes "address_inv ps m"
  shows "address_inv (ps @ [p]) (add_address p m)"
proof (cases "i2c_address (electrical p)")
  case None
  then have "{q \<in> set (ps @ [p]). i2c_address (electrical q) = Some b} = {q \<in> set ps. i2c_address (electrical q) = Some b}" for b
    by auto
  with None assms show ?thesis by (simp add: address_inv_def add_address_def)
next
  case (Some a)
  show ?thesis
    unfolding address_inv_def
  proof (intro conjI allI)
    show "distinct (map fst (add_address p m))"
      using assms Some by (simp add: add_address_def address_inv_def distinct_keys_map_set Let_def)
    fix b
    from assms have "set (ids_at m b) = part_id ` {p \<in> set ps. i2c_address (electrical p) = Some b}"
      by (simp add: address_inv_def)
    with Some show "set (ids_at (add_address p m) b) =
        part_id ` {q \<in> set (ps @ [p]). i2c_address (electrical q) = Some b}"
      by (auto simp: add_address_def ids_at_def Let_def split: option.splits)
  qed
qed

lemma address_inv_fold: "address_inv (map snd xs) (fold (\<lambda>fp. add_address (snd fp)) xs [])"
  by (induction xs rule: rev_induct) (simp add: address_inv_def ids_at_def, simp add: address_inv_add)

lemma set_map_filter: "set (List.map_filter f xs) = {y. \<exists>x \<in> set xs. f x = Some y}"
  by (force simp: List.map_filter_def)

lemma map_snd_parsed_parts: "map snd (parsed_parts input) = List.map_filter parsed_value (reg_parts input)"
proof -
  have "map snd (List.map_filter (\<lambda>f. map_option (Pair f) (parsed_value f)) xs) = List.map_filter parsed_value xs"
    for xs :: "PartDefinition RawFile list"
    by (induction xs) (auto simp: List.map_filter_simps split: option.splits)
  then show ?thesis by (simp add: parsed_parts_def)
qed

text \<open>Two live parts of different ids at one address are listed together in \<open>i2c-shared.json\<close>.\<close>

lemma address_issues_Nil:
  assumes "address_issues input = []" and "p \<in> set (map snd (live_parts input))" "q \<in> set (map snd (live_parts input))"
    and "i2c_address (electrical p) = Some a" "i2c_address (electrical q) = Some a" and "part_id p \<noteq> part_id q"
  shows "\<exists>e \<in> set (parsed_shared input). sh_address e = a \<and> {part_id p, part_id q} \<subseteq> set (sh_parts e)"
proof -
  have "address_inv (map snd (live_parts input)) (by_address input)"
    unfolding by_address_def by (rule address_inv_fold)
  then have ids: "{part_id p, part_id q} \<subseteq> set (ids_at (by_address input) a)"
    using assms(2-5) by (auto simp: address_inv_def)
  then obtain xs where xs: "map_of (by_address input) a = Some xs" "{part_id p, part_id q} \<subseteq> set xs"
    by (cases "map_of (by_address input) a") (auto simp: ids_at_def)
  have "2 \<le> length xs"
    using xs(2) assms(6) card_length [of xs] card_mono [of "set xs" "{part_id p, part_id q}"] by simp
  moreover have "(a, xs) \<in> set (by_address input)" using xs(1) by (rule map_of_SomeD)
  ultimately have "list_ex (\<lambda>e. sh_address e = a \<and> list_all (\<lambda>i. i \<in> set (sh_parts e)) xs) (parsed_shared input)"
    using assms(1) by (fastforce simp: address_issues_def Let_def)
  with xs(2) show ?thesis by (auto simp: list_ex_iff list_all_iff)
qed

lemma level_issues_Nil:
  assumes "level_issues input (f, p) = []" and "h \<in> set (map snd (live_parts input))"
    and "part_interface (electrical p) \<noteq> HostIf" "logic_v (electrical p) = Some rng"
    and "part_interface (electrical h) = HostIf" "logic_v (electrical h) = Some io"
  shows "(jle (fst rng) (fst io) \<and> jle (fst io) (snd rng)) \<or>
    (\<exists>k \<in> set (parsed_known input). ki_part k = part_id p \<and> ki_host k = part_id h)"
proof -
  have "(part_id h, fst io) \<in> set (host_levels input)"
    using assms(2,5,6) by (cases io) (auto simp: host_levels_def intro!: bexI [of _ "(_, h)"])
  then have "(jle (fst rng) (fst io) \<and> jle (fst io) (snd rng)) \<or> (part_id h, fst io) \<in> set (level_mismatches input p)"
    using assms(3,4) by (auto simp: level_mismatches_def)
  with assms(1) show ?thesis by (force simp: level_issues_def Let_def list_ex_iff)
qed

lemma golden_issues_Nil:
  "golden_issues input b = [] \<Longrightarrow> set (gb_requires b @ gb_optional b) \<subseteq> set (provided_caps input) \<and>
     (\<exists>a. checkPowerPath b (map snd (live_parts input)) = PowerOk a)"
  by (cases "checkPowerPath b (map snd (live_parts input))") (auto simp: golden_issues_def)

lemma part_file_issues_Nil:
  assumes "part_file_issues input cs seen f p = []"
  shows "part_id p = raw_name f"
    and "\<exists>c \<in> set cs. conn_id c = connector (electrical p) \<and> part_interface (electrical p) \<in> set (interfaces c)"
    and "status p \<in> {Active, Deprecated} \<Longrightarrow> reg_footprint_exists input (raw_name f) (footprint_file (mechanical p))"
proof -
  have conn: "c \<in> set cs \<and> conn_id c = i" if "connector_by_id cs i = Some c" for i c
    using that nth_mem [of _ "rev cs"] by (auto simp: connector_by_id_def find_Some_iff)
  show "part_id p = raw_name f"
    and "status p \<in> {Active, Deprecated} \<Longrightarrow> reg_footprint_exists input (raw_name f) (footprint_file (mechanical p))"
    using assms by (auto simp: part_file_issues_def)
  show "\<exists>c \<in> set cs. conn_id c = connector (electrical p) \<and> part_interface (electrical p) \<in> set (interfaces c)"
    using assms conn by (cases "connector_by_id cs (connector (electrical p))") (auto simp: part_file_issues_def)
qed

text \<open>
  C38. A registry the validator passes is coherent: every part file holds a part of its folder's id, no
  version is defined twice, every connector exists and carries the part's interface, successors and conflicts
  name known parts, released footprints exist, every requirement of a live part is provided by a live part,
  live parts at the same I2C address are listed as shared, every live peripheral works at every live host's IO
  voltage or is a known issue, and every golden build has its capabilities and a power path.
\<close>

theorem validateRegistry_sound:
  assumes clean: "res_issues (validateRegistry input) = []"
    and issues_nonempty: "\<forall>f \<in> set (reg_parts input). raw_content f \<noteq> SchemaError []"
  shows "(\<forall>f \<in> set (reg_parts input). \<exists>p. raw_content f = Parsed p \<and> part_id p = raw_name f \<and>
       (status p \<in> {Active, Deprecated} \<longrightarrow> reg_footprint_exists input (raw_name f) (footprint_file (mechanical p))) \<and>
       (\<exists>c \<in> set (parsed_connectors input). conn_id c = connector (electrical p) \<and>
          part_interface (electrical p) \<in> set (interfaces c))) \<and>
    distinct (map version_key (map snd (parsed_parts input))) \<and>
    (\<forall>p \<in> set (map snd (parsed_parts input)).
       set_option (successor p) \<union> set (conflicts (electrical p)) \<subseteq> part_id ` set (map snd (parsed_parts input))) \<and>
    (\<forall>p \<in> set (map snd (live_parts input)). set (requires (electrical p)) \<subseteq> set (provided_caps input)) \<and>
    (\<forall>p \<in> set (map snd (live_parts input)). \<forall>q \<in> set (map snd (live_parts input)). \<forall>a.
       i2c_address (electrical p) = Some a \<longrightarrow> i2c_address (electrical q) = Some a \<longrightarrow> part_id p \<noteq> part_id q \<longrightarrow>
       (\<exists>e \<in> set (parsed_shared input). sh_address e = a \<and> {part_id p, part_id q} \<subseteq> set (sh_parts e))) \<and>
    (\<forall>p \<in> set (map snd (live_parts input)). \<forall>h \<in> set (map snd (live_parts input)). \<forall>rng io.
       part_interface (electrical p) \<noteq> HostIf \<longrightarrow> logic_v (electrical p) = Some rng \<longrightarrow>
       part_interface (electrical h) = HostIf \<longrightarrow> logic_v (electrical h) = Some io \<longrightarrow>
       (jle (fst rng) (fst io) \<and> jle (fst io) (snd rng)) \<or>
       (\<exists>k \<in> set (parsed_known input). ki_part k = part_id p \<and> ki_host k = part_id h)) \<and>
    (\<forall>b \<in> set (reg_golden_builds input). set (gb_requires b @ gb_optional b) \<subseteq> set (provided_caps input) \<and>
       (\<exists>a. checkPowerPath b (map snd (live_parts input)) = PowerOk a))"
proof (intro conjI)
  from clean have loop: "part_loop input (parsed_connectors input) [] (reg_parts input) = []"
    and refs: "\<forall>fp \<in> set (parsed_parts input). reference_issues input fp = []"
    and addr: "address_issues input = []"
    and lev: "\<forall>fp \<in> set (live_parts input). level_issues input fp = []"
    and gold: "\<forall>b \<in> set (reg_golden_builds input). golden_issues input b = []"
    by (simp_all add: validateRegistry_def)
  have live: "set (live_parts input) \<subseteq> set (parsed_parts input)" "\<forall>fp \<in> set (live_parts input). is_live (snd fp)"
    by (auto simp: live_parts_def)
  note files = part_loop_Nil [OF loop issues_nonempty]
  show "\<forall>f \<in> set (reg_parts input). \<exists>p. raw_content f = Parsed p \<and> part_id p = raw_name f \<and>
       (status p \<in> {Active, Deprecated} \<longrightarrow> reg_footprint_exists input (raw_name f) (footprint_file (mechanical p))) \<and>
       (\<exists>c \<in> set (parsed_connectors input). conn_id c = connector (electrical p) \<and>
          part_interface (electrical p) \<in> set (interfaces c))"
    using files part_file_issues_Nil by meson
  show "distinct (map version_key (map snd (parsed_parts input)))"
    using files unfolding map_snd_parsed_parts by blast
  show "\<forall>p \<in> set (map snd (parsed_parts input)).
       set_option (successor p) \<union> set (conflicts (electrical p)) \<subseteq> part_id ` set (map snd (parsed_parts input))"
    using refs by (force simp: reference_issues_def Let_def split: option.splits)
  show "\<forall>p \<in> set (map snd (live_parts input)). set (requires (electrical p)) \<subseteq> set (provided_caps input)"
    using refs live by (force simp: reference_issues_def Let_def split: option.splits)
  show "\<forall>p \<in> set (map snd (live_parts input)). \<forall>q \<in> set (map snd (live_parts input)). \<forall>a.
       i2c_address (electrical p) = Some a \<longrightarrow> i2c_address (electrical q) = Some a \<longrightarrow> part_id p \<noteq> part_id q \<longrightarrow>
       (\<exists>e \<in> set (parsed_shared input). sh_address e = a \<and> {part_id p, part_id q} \<subseteq> set (sh_parts e))"
    using address_issues_Nil [OF addr] by blast
  show "\<forall>p \<in> set (map snd (live_parts input)). \<forall>h \<in> set (map snd (live_parts input)). \<forall>rng io.
       part_interface (electrical p) \<noteq> HostIf \<longrightarrow> logic_v (electrical p) = Some rng \<longrightarrow>
       part_interface (electrical h) = HostIf \<longrightarrow> logic_v (electrical h) = Some io \<longrightarrow>
       (jle (fst rng) (fst io) \<and> jle (fst io) (snd rng)) \<or>
       (\<exists>k \<in> set (parsed_known input). ki_part k = part_id p \<and> ki_host k = part_id h)"
  proof (intro ballI allI impI)
    fix p h rng io
    assume "p \<in> set (map snd (live_parts input))"
    then obtain f where "(f, p) \<in> set (live_parts input)" by auto
    with lev have "level_issues input (f, p) = []" by blast
    then show "h \<in> set (map snd (live_parts input)) \<Longrightarrow> part_interface (electrical p) \<noteq> HostIf \<Longrightarrow>
      logic_v (electrical p) = Some rng \<Longrightarrow> part_interface (electrical h) = HostIf \<Longrightarrow> logic_v (electrical h) = Some io \<Longrightarrow>
      (jle (fst rng) (fst io) \<and> jle (fst io) (snd rng)) \<or>
      (\<exists>k \<in> set (parsed_known input). ki_part k = part_id p \<and> ki_host k = part_id h)"
      by (rule level_issues_Nil)
  qed
  show "\<forall>b \<in> set (reg_golden_builds input). set (gb_requires b @ gb_optional b) \<subseteq> set (provided_caps input) \<and>
       (\<exists>a. checkPowerPath b (map snd (live_parts input)) = PowerOk a)"
    using gold golden_issues_Nil by blast
qed

definition bench_file :: "'a \<Rightarrow> string \<Rightarrow> 'a RawFile" where
  "bench_file x name = \<lparr>raw_path = name @ ''.json'', raw_name = name, raw_content = Parsed x\<rparr>"

definition bench_registry :: RegistryInput where
  "bench_registry =
     \<lparr>reg_parts = [bench_file bench_host ''C-001'', bench_file bench_battery ''E-001'', bench_file bench_sensor ''P-001''],
      reg_connectors = map (\<lambda>c. bench_file c (conn_id c)) (in_connectors bench_climate),
      reg_i2c_shared = bench_file [] ''i2c-shared'', reg_known_issues = bench_file [] ''known-issues'',
      reg_footprint_exists = (\<lambda>_ _. True),
      reg_golden_builds = [\<lparr>gb_id = ''bench'', gb_name = ''Bench'',
        gb_requires = [''read.temperature_c'', ''net.wifi'', ''power.battery''], gb_optional = [],
        gb_supply = ''power.battery'', gb_brain_input = ''battery''\<rparr>]\<rparr>"

definition bench_build :: GoldenBuild where
  "bench_build = hd (reg_golden_builds bench_registry)"

theorem power_path_decides_witness:
  "\<exists>a. checkPowerPath bench_build [bench_host, bench_battery, bench_sensor] = PowerOk a \<and>
     map pp_capability (pa_peripherals a) = [''read.temperature_c''] \<and>
     (\<exists>p \<in> set [bench_host, bench_battery, bench_sensor]. pp_part (hd (pa_peripherals a)) = part_id p)"
proof -
  have "case checkPowerPath bench_build [bench_host, bench_battery, bench_sensor] of PowerOk a \<Rightarrow> True | PowerProblems ps \<Rightarrow> False"
    by code_simp
  then obtain a where a: "checkPowerPath bench_build [bench_host, bench_battery, bench_sensor] = PowerOk a"
    by (auto split: PowerCheck.splits)
  have "filter (\<lambda>c. candidates_for [bench_host, bench_battery, bench_sensor] c \<noteq> []) (path_needs bench_build) = [''read.temperature_c'']"
    by code_simp
  with power_path_decides [where build = bench_build and parts = "[bench_host, bench_battery, bench_sensor]"]
  have caps: "map pp_capability (pa_peripherals a) = [''read.temperature_c'']"
    and parts: "\<forall>x \<in> set (pa_peripherals a). \<exists>p \<in> set [bench_host, bench_battery, bench_sensor]. pp_part x = part_id p"
    unfolding a PowerCheck.case by metis+
  from caps have "hd (pa_peripherals a) \<in> set (pa_peripherals a)" by (cases "pa_peripherals a") auto
  with parts have "\<exists>p \<in> set [bench_host, bench_battery, bench_sensor]. pp_part (hd (pa_peripherals a)) = part_id p" by (rule bspec)
  with caps a show ?thesis by (intro exI conjI)
qed

theorem validateRegistry_sound_witness:
  "res_issues (validateRegistry bench_registry) = [] \<and>
   distinct (map version_key (map snd (parsed_parts bench_registry))) \<and>
   (\<exists>a. checkPowerPath bench_build (map snd (live_parts bench_registry)) = PowerOk a)"
proof -
  have "bench_build \<in> set (reg_golden_builds bench_registry)" by (simp add: bench_build_def bench_registry_def)
  moreover have clean: "res_issues (validateRegistry bench_registry) = []" by code_simp
  moreover have "\<forall>f \<in> set (reg_parts bench_registry). raw_content f \<noteq> SchemaError []"
    by (simp add: bench_registry_def bench_file_def)
  ultimately show ?thesis using validateRegistry_sound [OF clean] by blast
qed

end
