(* ===== verification/Catalogue.thy ===== *)
theory Catalogue
  imports Registry Bench
begin

text \<open>
  The part catalogue of the intake prompt, \<open>registry/scripts/catalogue.ts\<close>: one entry per part id at its
  highest version, and the text rendered from it. The comment in the source promises the same bytes for
  the parts in any order; that is proved here.
\<close>

record CatalogueCapability =
  cc_capability :: string
  cc_unit :: "string option"
  cc_parts :: "string list"

record CataloguePowerOption =
  po_id :: string
  po_name :: string
  po_provides :: "string list"
  po_output_v :: VoltageRange
  po_max_output_ma :: jsnum
  po_capacity_mah :: "jsnum option"

record CataloguePart =
  cp_id :: string
  cp_version :: string
  cp_name :: string
  cp_category :: PartCategory
  cp_provides :: "string list"
  cp_requires :: "string list"
  cp_voltage_range :: VoltageRange
  cp_current_draw_ma :: CurrentDraw
  cp_exposure :: Exposure
  cp_environment_flags :: "string list"

record Catalogue =
  cat_capabilities :: "CatalogueCapability list"
  cat_environment_flags :: "string list"
  cat_power_options :: "CataloguePowerOption list"
  cat_parts :: "CataloguePart list"

definition byString :: "string \<Rightarrow> string \<Rightarrow> int" where
  "byString a b = (if a < b then - 1 else if a > b then 1 else 0)"

definition sorted_unique_text :: "string list \<Rightarrow> string list" where
  "sorted_unique_text xs = js_sort byString (js_unique xs)"

text \<open>The loop that keeps the highest version of each included part.\<close>

definition keep_latest :: "PartStatus list \<Rightarrow> PartDefinition \<Rightarrow> (string \<times> PartDefinition) list \<Rightarrow> (string \<times> PartDefinition) list" where
  "keep_latest statuses part latest =
     (if status part \<notin> set statuses then latest
      else case map_of latest (part_id part) of
             None \<Rightarrow> map_set (part_id part) part latest
           | Some current \<Rightarrow>
               (if compareSemver (part_version part) (part_version current) > 0
                then map_set (part_id part) part latest else latest))"

definition chosen_parts :: "PartStatus list \<Rightarrow> PartDefinition list \<Rightarrow> PartDefinition list" where
  "chosen_parts statuses parts =
     js_sort (\<lambda>a b. byString (part_id a) (part_id b)) (map snd (fold (keep_latest statuses) parts []))"

definition add_provider :: "string \<Rightarrow> string \<Rightarrow> (string \<times> string list) list \<Rightarrow> (string \<times> string list) list" where
  "add_provider i cap m = map_set cap ((case map_of m cap of None \<Rightarrow> [] | Some xs \<Rightarrow> xs) @ [i]) m"

definition providers :: "PartDefinition list \<Rightarrow> (string \<times> string list) list" where
  "providers chosen = fold (\<lambda>p. fold (add_provider (part_id p)) (capabilities (software p))) chosen []"

text \<open>\<open>capabilityUnit(capability) ?? null\<close>.\<close>

definition unit_or_null :: "string \<Rightarrow> string option" where
  "unit_or_null cap = (case capabilityUnit cap of HasUnit u \<Rightarrow> Some u | _ \<Rightarrow> None)"

definition power_option :: "PartDefinition \<Rightarrow> CataloguePowerOption list" where
  "power_option p =
     (case part_supply (electrical p) of
        Some s \<Rightarrow>
          (if category p = Energy then
             [\<lparr>po_id = part_id p, po_name = part_name p,
               po_provides = sorted_unique_text (filter (\<lambda>c. startsWith c ''power.'') (capabilities (software p))),
               po_output_v = output_v s, po_max_output_ma = max_output_ma s, po_capacity_mah = capacity_mah s\<rparr>]
           else [])
      | None \<Rightarrow> [])"

definition catalogue_part :: "PartDefinition \<Rightarrow> CataloguePart" where
  "catalogue_part p =
     \<lparr>cp_id = part_id p, cp_version = part_version p, cp_name = part_name p, cp_category = category p,
      cp_provides = sorted_unique_text (capabilities (software p)),
      cp_requires = sorted_unique_text (requires (electrical p)),
      cp_voltage_range = voltage_range (electrical p),
      cp_current_draw_ma = current_draw_ma (electrical p),
      cp_exposure = exposure (mechanical p),
      cp_environment_flags = sorted_unique_text (environment_flags (mechanical p))\<rparr>"

definition buildCatalogue :: "PartStatus list \<Rightarrow> PartDefinition list \<Rightarrow> Catalogue" where
  "buildCatalogue statuses parts =
     (let chosen = chosen_parts statuses parts; prov = providers chosen in
      \<lparr>cat_capabilities = map (\<lambda>capability.
          \<lparr>cc_capability = capability, cc_unit = unit_or_null capability,
           cc_parts = sorted_unique_text (case map_of prov capability of None \<Rightarrow> [] | Some xs \<Rightarrow> xs)\<rparr>)
          (sorted_unique_text (map fst prov)),
       cat_environment_flags = sorted_unique_text (concat (map (\<lambda>p. environment_flags (mechanical p)) chosen)),
       cat_power_options = concat (map power_option chosen),
       cat_parts = map catalogue_part chosen\<rparr>)"

definition list_text :: "string list \<Rightarrow> string" where
  "list_text xs = (if length xs > 0 then js_join '', '' xs else ''none'')"

fun exposure_text :: "Exposure \<Rightarrow> string" where
  "exposure_text ExposureNone = ''none''"
| "exposure_text Vent = ''vent''"
| "exposure_text Window = ''window''"
| "exposure_text ProbeExternal = ''probe-external''"

definition capability_line :: "CatalogueCapability \<Rightarrow> string" where
  "capability_line c =
     ''- '' @ cc_capability c @ (case cc_unit c of None \<Rightarrow> [] | Some u \<Rightarrow> (if u = [] then [] else '' ['' @ u @ '']''))
     @ '': '' @ js_join '', '' (cc_parts c)"

definition power_line :: "CataloguePowerOption \<Rightarrow> string" where
  "power_line p =
     ''- '' @ po_id p @ '' '' @ po_name p @ '': '' @ list_text (po_provides p) @ ''; '' @ volts (po_output_v p)
     @ ''; '' @ num_str (po_max_output_ma p) @ '' mA; ''
     @ (case po_capacity_mah p of None \<Rightarrow> ''no storage'' | Some c \<Rightarrow> num_str c @ '' mAh'')"

definition part_line :: "CataloguePart \<Rightarrow> string" where
  "part_line p =
     js_join '' | ''
       [''- '' @ cp_id p @ ''@'' @ cp_version p @ '' '' @ cp_name p,
        category_text (cp_category p), list_text (cp_provides p), list_text (cp_requires p),
        volts (cp_voltage_range p),
        num_str (idle_ma (cp_current_draw_ma p)) @ ''/'' @ num_str (active_ma (cp_current_draw_ma p)) @ '' mA'',
        exposure_text (cp_exposure p), list_text (cp_environment_flags p)]"

definition renderCatalogue :: "Catalogue \<Rightarrow> string" where
  "renderCatalogue c =
     js_join ''\<newline>''
       ([''# Part catalogue'', [], ''## Capabilities (capability [unit]: parts)'']
        @ map capability_line (cat_capabilities c)
        @ [[], ''## Environment flags'', ''- '' @ list_text (cat_environment_flags c),
           [], ''## Power options (id name: provides; output; max current; capacity)'']
        @ map power_line (cat_power_options c)
        @ [[], ''## Parts (id@version name | category | provides | requires | supply V | idle/active mA | exposure | flags)'']
        @ map part_line (cat_parts c))
     @ ''\<newline>''"

subsection \<open>The chosen versions\<close>

text \<open>The same loop on a finite map, which does not see the order of the keys.\<close>

definition latest_upd :: "PartStatus list \<Rightarrow> PartDefinition \<Rightarrow> (string \<rightharpoonup> PartDefinition) \<Rightarrow> (string \<rightharpoonup> PartDefinition)" where
  "latest_upd statuses part f =
     (if status part \<notin> set statuses then f
      else case f (part_id part) of
             None \<Rightarrow> f(part_id part \<mapsto> part)
           | Some current \<Rightarrow>
               (if compareSemver (part_version part) (part_version current) > 0 then f(part_id part \<mapsto> part) else f))"

definition version_rank :: "PartDefinition \<Rightarrow> ((nat \<times> nat \<times> string) list \<times> nat \<times> (nat \<times> nat \<times> string) list) \<times> string" where
  "version_rank p = (precedence_key (part_version p), part_version p)"

lemma compareSemver_pos: "compareSemver (part_version p) (part_version q) > 0 \<longleftrightarrow> version_rank q < version_rank p"
proof -
  have "compareSemver (part_version p) (part_version q) = compare_lt (version_rank p) (version_rank q)"
    by (simp only: compareSemver_key version_rank_def)
  then show ?thesis by (auto simp: compare_lt_def)
qed

lemma compareSemver_le: "compareSemver (part_version q) (part_version p) \<le> 0 \<longleftrightarrow> version_rank q \<le> version_rank p"
  using compareSemver_pos [of q p] by (simp add: not_less [symmetric])

lemma latest_upd_commute:
  assumes "part_id p = part_id q \<Longrightarrow> part_version p = part_version q \<Longrightarrow> p = q"
  shows "latest_upd st p (latest_upd st q f) = latest_upd st q (latest_upd st p f)"
proof (cases "part_id p = part_id q")
  case False
  then show ?thesis
    by (auto simp: latest_upd_def fun_upd_twist split: option.splits)
next
  case True
  show ?thesis
  proof (cases "p = q")
    case False
    with assms True have "version_rank p < version_rank q \<or> version_rank q < version_rank p"
      by (metis linorder_neqE prod.inject version_rank_def)
    with True show ?thesis
      by (cases "f (part_id q)")
         (auto simp: latest_upd_def compareSemver_pos)
  qed simp
qed

lemma map_of_keep_latest: "map_of (keep_latest st p m) = latest_upd st p (map_of m)"
  by (auto simp: keep_latest_def latest_upd_def split: option.splits)

lemma map_of_fold_latest: "map_of (fold (keep_latest st) ps m) = fold (latest_upd st) ps (map_of m)"
  by (induction ps arbitrary: m) (simp_all add: map_of_keep_latest)

lemma distinct_fold_latest: "distinct (map fst m) \<Longrightarrow> distinct (map fst (fold (keep_latest st) ps m))"
  by (induction ps arbitrary: m) (auto simp: keep_latest_def intro: distinct_keys_map_set split: option.splits)

text \<open>What the loop keeps: an included part of the highest version of its id.\<close>

definition highest_version :: "PartStatus list \<Rightarrow> PartDefinition list \<Rightarrow> PartDefinition \<Rightarrow> bool" where
  "highest_version st parts p \<longleftrightarrow>
     p \<in> set parts \<and> status p \<in> set st \<and>
     (\<forall>q \<in> set parts. status q \<in> set st \<longrightarrow> part_id q = part_id p \<longrightarrow>
        compareSemver (part_version q) (part_version p) \<le> 0)"

definition latest_inv :: "PartStatus list \<Rightarrow> PartDefinition list \<Rightarrow> (string \<rightharpoonup> PartDefinition) \<Rightarrow> bool" where
  "latest_inv st ps f \<longleftrightarrow>
     (\<forall>i p. f i = Some p \<longrightarrow> part_id p = i \<and> highest_version st ps p) \<and>
     (\<forall>q \<in> set ps. status q \<in> set st \<longrightarrow> f (part_id q) \<noteq> None)"

lemma latest_inv_upd:
  assumes "latest_inv st ps f"
  shows "latest_inv st (ps @ [x]) (latest_upd st x f)"
proof (cases "status x \<in> set st")
  case False
  with assms show ?thesis by (auto simp: latest_inv_def latest_upd_def highest_version_def)
next
  case st: True
  show ?thesis
  proof (cases "f (part_id x)")
    case None
    with assms st have "highest_version st (ps @ [x]) x"
      unfolding highest_version_def latest_inv_def compareSemver_le by fastforce
    with None assms st show ?thesis
      by (auto simp: latest_inv_def latest_upd_def highest_version_def)
  next
    case (Some c)
    with assms have c: "part_id c = part_id x" "highest_version st ps c" by (auto simp: latest_inv_def)
    show ?thesis
    proof (cases "version_rank c < version_rank x")
      case True
      have "highest_version st (ps @ [x]) x"
        using c True st unfolding highest_version_def compareSemver_le by (auto intro: order.trans less_imp_le)
      with c True Some st assms show ?thesis
        by (auto simp: latest_inv_def latest_upd_def compareSemver_pos highest_version_def)
    next
      case False
      then have "highest_version st (ps @ [x]) c"
        using c st unfolding highest_version_def compareSemver_le by (auto simp: not_less)
      with c False Some st assms show ?thesis
        by (auto simp: latest_inv_def latest_upd_def compareSemver_pos highest_version_def)
    qed
  qed
qed

lemma fold_latest_inv: "latest_inv st ps (fold (latest_upd st) ps Map.empty)"
  by (induction ps rule: rev_induct) (simp add: latest_inv_def, simp add: latest_inv_upd)

lemma latest_entries:
  assumes "(i, p) \<in> set (fold (keep_latest st) parts [])"
  shows "part_id p = i" "highest_version st parts p"
proof -
  have "distinct (map fst (fold (keep_latest st) parts []))" by (rule distinct_fold_latest) simp
  with assms have "map_of (fold (keep_latest st) parts []) i = Some p" by simp
  then have "fold (latest_upd st) parts Map.empty i = Some p" by (simp add: map_of_fold_latest)
  with fold_latest_inv [of st parts] show "part_id p = i" "highest_version st parts p"
    by (auto simp: latest_inv_def)
qed

lemma latest_perm:
  assumes "mset parts = mset parts'" and "distinct (map version_key parts)"
  shows "mset (fold (keep_latest st) parts []) = mset (fold (keep_latest st) parts' [])"
proof (rule map_of_eq_mset)
  have "latest_upd st p \<circ> latest_upd st q = latest_upd st q \<circ> latest_upd st p" if "p \<in> set parts" "q \<in> set parts" for p q
  proof -
    have "p = q" if "part_id p = part_id q" "part_version p = part_version q"
      using assms(2) that \<open>p \<in> set parts\<close> \<open>q \<in> set parts\<close> by (auto simp: distinct_map version_key_def inj_on_def)
    from latest_upd_commute [OF this] show ?thesis by (simp add: fun_eq_iff)
  qed
  then have "fold (latest_upd st) parts = fold (latest_upd st) parts'"
    using assms(1) by (intro fold_multiset_equiv) auto
  then show "map_of (fold (keep_latest st) parts []) = map_of (fold (keep_latest st) parts' [])"
    by (simp add: map_of_fold_latest)
qed (simp_all add: distinct_fold_latest)

lemma byString_compare_lt: "byString = compare_lt"
  by (intro ext) (simp add: byString_def compare_lt_def)

lemma chosen_ids: "distinct (map part_id (chosen_parts st parts))"
proof -
  have "map part_id (map snd (fold (keep_latest st) parts [])) = map fst (fold (keep_latest st) parts [])"
    using latest_entries [of _ _ st parts] by (auto simp: comp_def)
  then show ?thesis using distinct_fold_latest [of "[]" st parts] by (simp only: chosen_parts_def distinct_map_js_sort) simp
qed

lemma chosen_perm:
  assumes "mset parts = mset parts'" and "distinct (map version_key parts)"
  shows "chosen_parts st parts = chosen_parts st parts'"
proof -
  let ?L = "map snd (fold (keep_latest st) parts [])"
  have "distinct (map part_id ?L)"
    using chosen_ids [of st parts] by (simp only: chosen_parts_def distinct_map_js_sort)
  then have "strict_comparator (\<lambda>a b. byString (part_id a) (part_id b)) (\<lambda>p. p \<in> set ?L)"
    unfolding byString_compare_lt by (intro compare_lt_key_strict_on) (simp only: distinct_map)
  moreover have "mset ?L = mset (map snd (fold (keep_latest st) parts' []))"
    using latest_perm [OF assms, of st] by simp
  ultimately show ?thesis
    unfolding chosen_parts_def by (intro strict_comparator.js_sort_perm) auto
qed

subsection \<open>Properties of the catalogue\<close>

text \<open>
  C28. The catalogue text is independent of the order in which the parts are given: any permutation of a
  registry without duplicate versions renders to the same bytes, as the prompt cache requires.
\<close>

theorem catalogue_deterministic:
  assumes "mset parts = mset parts'" and "distinct (map version_key parts)"
  shows "renderCatalogue (buildCatalogue st parts) = renderCatalogue (buildCatalogue st parts')"
  unfolding buildCatalogue_def chosen_perm [OF assms] by (rule refl)

theorem catalogue_deterministic_witness:
  "renderCatalogue (buildCatalogue [Active] [bench_sensor, bench_host, bench_battery]) =
   renderCatalogue (buildCatalogue [Active] [bench_battery, bench_host, bench_sensor])"
  by (rule catalogue_deterministic) (simp, code_simp)

text \<open>
  The catalogue lists each included part id once, in order, at its highest version under SemVer
  precedence, and leaves no included id out.
\<close>

theorem catalogue_latest:
  "sorted_wrt (<) (map cp_id (cat_parts (buildCatalogue st parts))) \<and>
   set (map cp_id (cat_parts (buildCatalogue st parts))) = part_id ` {p \<in> set parts. status p \<in> set st} \<and>
   (\<forall>cp \<in> set (cat_parts (buildCatalogue st parts)). \<exists>p. cp = catalogue_part p \<and> highest_version st parts p)"
proof -
  let ?M = "fold (keep_latest st) parts []"
  have ids: "map cp_id (cat_parts (buildCatalogue st parts)) = map part_id (chosen_parts st parts)"
    by (simp add: buildCatalogue_def Let_def catalogue_part_def)
  have "sorted_by (\<lambda>a b. byString (part_id a) (part_id b)) (chosen_parts st parts)"
    unfolding chosen_parts_def byString_compare_lt
    by (rule comparator.sorted_js_sort [of _ "\<lambda>_. True"]) (rule compare_lt_key_comparator, simp)
  then have "sorted_wrt (\<le>) (map part_id (chosen_parts st parts))"
    by (auto simp: sorted_wrt_map byString_compare_lt compare_lt_def not_less elim!: sorted_wrt_mono_rel [rotated] split: if_splits)
  then have "sorted_wrt (<) (map part_id (chosen_parts st parts))"
    using chosen_ids [of st parts] by (simp add: strict_sorted_iff)
  moreover have "set (map part_id (chosen_parts st parts)) = fst ` set ?M"
    using latest_entries(1) [of _ _ st parts] by (force simp: chosen_parts_def)
  moreover have "fst ` set ?M = part_id ` {p \<in> set parts. status p \<in> set st}"
  proof -
    have "fst ` set ?M = dom (fold (latest_upd st) parts Map.empty)"
      using dom_map_of_conv_image_fst [of ?M] by (simp add: map_of_fold_latest)
    then show ?thesis using fold_latest_inv [of st parts]
      by (force simp: latest_inv_def highest_version_def dom_def)
  qed
  moreover have "\<exists>p. cp = catalogue_part p \<and> highest_version st parts p"
    if "cp \<in> set (cat_parts (buildCatalogue st parts))" for cp
    using that latest_entries(2) [of _ _ st parts] by (auto simp: buildCatalogue_def Let_def chosen_parts_def)
  ultimately show ?thesis unfolding ids by blast
qed

theorem catalogue_latest_witness:
  "\<exists>p. highest_version [Active] [bench_sensor, bench_host] p \<and> cp_id (catalogue_part p) = part_id bench_host"
proof -
  have "status bench_host = Active" by code_simp
  then have "part_id bench_host \<in> part_id ` {p \<in> set [bench_sensor, bench_host]. status p \<in> set [Active]}" by simp
  then have "part_id bench_host \<in> set (map cp_id (cat_parts (buildCatalogue [Active] [bench_sensor, bench_host])))"
    using catalogue_latest [of "[Active]" "[bench_sensor, bench_host]"] by presburger
  then obtain cp where cp: "cp \<in> set (cat_parts (buildCatalogue [Active] [bench_sensor, bench_host]))" "part_id bench_host = cp_id cp"
    unfolding set_map by (rule imageE)
  from catalogue_latest [of "[Active]" "[bench_sensor, bench_host]"] cp(1)
  obtain p where "cp = catalogue_part p" "highest_version [Active] [bench_sensor, bench_host] p" by blast
  with cp(2) show ?thesis by (intro exI [of _ p]) simp
qed

end
