(* ===== verification/Spec_Schema.thy ===== *)
theory Spec_Schema
  imports Matcher_Types
begin

text \<open>
  The structured specification intake produces and the turn the model returns:
  \<open>packages/schema/src/spec.ts\<close>. Optional fields are options, and the schema's checks are
  predicates on the typed values.
\<close>

datatype SpecPowerSource = FromBattery | FromSolar | FromUsb | PowerUnknown

definition Short :: "string \<Rightarrow> bool" where
  "Short s \<longleftrightarrow> length s \<le> 120"

definition Sentence :: "string \<Rightarrow> bool" where
  "Sentence s \<longleftrightarrow> length s \<le> 300"

definition CapabilityId :: "string \<Rightarrow> bool" where
  "CapabilityId s \<longleftrightarrow>
     length s \<le> 64 \<and>
     rx_full (Seq (Cls lower) (Seq (Star (Cls (\<lambda>c. low_num c \<or> c = CHR ''_'')))
       (Plus (Seq (Chr (CHR ''.'')) (Plus (Cls (\<lambda>c. low_num c \<or> c = CHR ''_''))))))) s"

record OpenQuestion =
  q_field :: string
  q_question :: string
  q_options :: "string list option"

definition OpenQuestion_ok :: "OpenQuestion \<Rightarrow> bool" where
  "OpenQuestion_ok q \<longleftrightarrow>
     1 \<le> length (q_field q) \<and> length (q_field q) \<le> 64 \<and>
     1 \<le> length (q_question q) \<and> length (q_question q) \<le> 300 \<and>
     opt_ok (\<lambda>os. list_all (\<lambda>x. 1 \<le> length x \<and> length x \<le> 60) os \<and> 1 \<le> length os \<and> length os \<le> 4) (q_options q)"

record Sense =
  se_what :: "string list"
  se_accuracy :: "string option"
  se_interval_s :: "jsnum option"

record Environment =
  env_location :: string
  env_flags :: "string list"

record Connect =
  co_transport :: Transport
  co_experience :: "string list"

record Power =
  pw_source :: SpecPowerSource
  pw_target_life_days :: "jsnum option"

record Experience =
  ex_alerts :: "string list option"
  ex_dashboard :: "bool option"

definition shorts :: "nat \<Rightarrow> string list \<Rightarrow> bool" where
  "shorts n xs \<longleftrightarrow> list_all Short xs \<and> length xs \<le> n"

definition Sense_ok :: "Sense \<Rightarrow> bool" where
  "Sense_ok s \<longleftrightarrow> shorts 12 (se_what s) \<and> opt_ok Short (se_accuracy s) \<and> opt_ok z_positive (se_interval_s s)"

definition flags_ok :: "string list \<Rightarrow> bool" where
  "flags_ok fs \<longleftrightarrow> list_all (\<lambda>f. length f \<le> 64) fs \<and> length fs \<le> 16"

definition Environment_ok :: "Environment \<Rightarrow> bool" where
  "Environment_ok e \<longleftrightarrow> Short (env_location e) \<and> flags_ok (env_flags e)"

definition Connect_ok :: "Connect \<Rightarrow> bool" where
  "Connect_ok c \<longleftrightarrow> shorts 12 (co_experience c)"

definition Power_ok :: "Power \<Rightarrow> bool" where
  "Power_ok p \<longleftrightarrow> opt_ok z_positive (pw_target_life_days p)"

definition Experience_ok :: "Experience \<Rightarrow> bool" where
  "Experience_ok e \<longleftrightarrow> opt_ok (shorts 12) (ex_alerts e)"

record Spec =
  sp_sense :: Sense
  sp_act :: "string list option"
  sp_environment :: Environment
  sp_connect :: Connect
  sp_power :: Power
  sp_experience :: Experience
  sp_capabilities :: "string list"
  sp_assumptions :: "string list"
  sp_open_questions :: "OpenQuestion list"
  sp_settled :: bool

definition Spec_ok :: "Spec \<Rightarrow> bool" where
  "Spec_ok s \<longleftrightarrow>
     Sense_ok (sp_sense s) \<and> opt_ok (shorts 12) (sp_act s) \<and> Environment_ok (sp_environment s) \<and>
     Connect_ok (sp_connect s) \<and> Power_ok (sp_power s) \<and> Experience_ok (sp_experience s) \<and>
     list_all CapabilityId (sp_capabilities s) \<and> length (sp_capabilities s) \<le> 24 \<and>
     list_all Sentence (sp_assumptions s) \<and> length (sp_assumptions s) \<le> 20 \<and>
     list_all OpenQuestion_ok (sp_open_questions s) \<and> length (sp_open_questions s) \<le> 6"

text \<open>A patch: every field of every section may be absent.\<close>

record SensePatch =
  ps_what :: "string list option"
  ps_accuracy :: "string option"
  ps_interval_s :: "jsnum option"

record EnvironmentPatch =
  pe_location :: "string option"
  pe_flags :: "string list option"

record ConnectPatch =
  pc_transport :: "Transport option"
  pc_experience :: "string list option"

record PowerPatch =
  pp_source :: "SpecPowerSource option"
  pp_target_life_days :: "jsnum option"

record SpecPatch =
  pt_sense :: "SensePatch option"
  pt_act :: "string list option option"
  pt_environment :: "EnvironmentPatch option"
  pt_connect :: "ConnectPatch option"
  pt_power :: "PowerPatch option"
  pt_experience :: "Experience option"
  pt_capabilities :: "string list option"
  pt_assumptions :: "string list option"
  pt_open_questions :: "OpenQuestion list option"

definition SpecPatch_ok :: "SpecPatch \<Rightarrow> bool" where
  "SpecPatch_ok p \<longleftrightarrow>
     opt_ok (\<lambda>s. opt_ok (shorts 12) (ps_what s) \<and> opt_ok Short (ps_accuracy s) \<and> opt_ok z_positive (ps_interval_s s)) (pt_sense p) \<and>
     opt_ok (opt_ok (shorts 12)) (pt_act p) \<and>
     opt_ok (\<lambda>e. opt_ok Short (pe_location e) \<and> opt_ok flags_ok (pe_flags e)) (pt_environment p) \<and>
     opt_ok (\<lambda>c. opt_ok (shorts 12) (pc_experience c)) (pt_connect p) \<and>
     opt_ok (\<lambda>w. opt_ok z_positive (pp_target_life_days w)) (pt_power p) \<and>
     opt_ok Experience_ok (pt_experience p) \<and>
     opt_ok (\<lambda>cs. list_all (\<lambda>c. length c \<le> 64) cs \<and> length cs \<le> 24) (pt_capabilities p) \<and>
     opt_ok (\<lambda>as. list_all Sentence as \<and> length as \<le> 20) (pt_assumptions p) \<and>
     opt_ok (\<lambda>qs. list_all OpenQuestion_ok qs \<and> length qs \<le> 6) (pt_open_questions p)"

datatype ReplyKind = ReplySpec | ReplyOffTopic

record SpecTurn =
  reply_kind :: ReplyKind
  spec_patch :: SpecPatch
  candidate_questions :: "OpenQuestion list"
  turn_assumptions :: "string list"
  turn_reply :: string

definition SpecTurn_ok :: "SpecTurn \<Rightarrow> bool" where
  "SpecTurn_ok t \<longleftrightarrow>
     SpecPatch_ok (spec_patch t) \<and>
     list_all OpenQuestion_ok (candidate_questions t) \<and> length (candidate_questions t) \<le> 6 \<and>
     list_all Sentence (turn_assumptions t) \<and> length (turn_assumptions t) \<le> 10 \<and>
     1 \<le> length (turn_reply t) \<and> length (turn_reply t) \<le> 2000"

end
