(* ===== verification/Intake_Decide.thy ===== *)
theory Intake_Decide
  imports Spec_Schema
begin

text \<open>
  Intake's turn logic and the replies code writes: \<open>apps/intake/src/decide.ts\<close> and
  \<open>replies.ts\<close>. Merging a patch, filtering questions, and deciding whether the specification settles. Dashes in reply texts
  are UTF-8 bytes.
\<close>

subsection \<open>Replies\<close>

datatype ScopeCategory = WeaponsHarm | MainsVoltage | MedicalMonitoring | CovertTracking

abbreviation (input) em_dash :: string where
  "em_dash \<equiv> [CHR 0xE2, CHR 0x80, CHR 0x94]"

fun OUT_OF_SCOPE_REASON :: "ScopeCategory \<Rightarrow> string" where
  "OUT_OF_SCOPE_REASON WeaponsHarm = ''devices meant to hurt people or animals''"
| "OUT_OF_SCOPE_REASON MainsVoltage = ''anything wired to mains electricity''"
| "OUT_OF_SCOPE_REASON MedicalMonitoring = ''devices that monitor or diagnose medical conditions''"
| "OUT_OF_SCOPE_REASON CovertTracking = ''devices that track or record people without their knowledge''"

definition WHAT_WE_BUILD :: string where
  "WHAT_WE_BUILD = ''Albus Forge designs small connected devices that sense something and tell you about it.''"

definition outOfScopeReply :: "ScopeCategory \<Rightarrow> string" where
  "outOfScopeReply c =
     ''Sorry '' @ em_dash @ '' Albus Forge doesn't make '' @ OUT_OF_SCOPE_REASON c
     @ '', so this isn't something I can design. '' @ WHAT_WE_BUILD
     @ '' If that's what you're after, describe the device and I'll start there.''"

definition REFUSAL_REPLY :: string where
  "REFUSAL_REPLY =
     ''Sorry '' @ em_dash @ '' that isn't something I can design. '' @ WHAT_WE_BUILD
     @ '' If that's what you're after, describe the device and I'll start there.''"

definition offTopicReply :: "bool \<Rightarrow> string" where
  "offTopicReply again =
     (if again
      then ''I can't help with that one either '' @ em_dash @ '' designing a device is all I do here. '' @ WHAT_WE_BUILD
           @ '' I'll be here when you have one in mind.''
      else ''That's not something I can help with '' @ em_dash @ '' I only design devices. '' @ WHAT_WE_BUILD
           @ '' Tell me what you'd like one to do and we'll get started.'')"

definition FALLBACK_REPLY :: string where
  "FALLBACK_REPLY =
     ''Something went wrong on my end, so I couldn't get to that '' @ em_dash
     @ '' nothing to do with what you wrote. Send it again in a moment and it should go through.''"

definition TOKEN_CEILING_REPLY :: string where
  "TOKEN_CEILING_REPLY =
     ''This design conversation has reached its length limit, so I can't take more changes here. Start a new build to keep going.''"

definition QUESTIONS_INTRO_ONE :: string where
  "QUESTIONS_INTRO_ONE = ''Thanks. One thing changes which parts I'd pick:''"

definition QUESTIONS_INTRO_MANY :: string where
  "QUESTIONS_INTRO_MANY = ''Thanks. A few things change which parts I'd pick:''"

definition questionsReply :: "OpenQuestion list \<Rightarrow> string" where
  "questionsReply qs =
     (if length qs = 1 then QUESTIONS_INTRO_ONE else QUESTIONS_INTRO_MANY)
     @ ''\<newline>'' @ js_join ''\<newline>'' (map (\<lambda>q. ''- '' @ q_question q) qs)"

definition settledReply :: "string list \<Rightarrow> string" where
  "settledReply assumptions =
     (let shown = slice_last 5 assumptions in
      ''That's everything I need to pick parts.''
      @ (if length shown > 0
         then ''\<newline>\<newline>I'm going with these defaults, and you can change any of them:\<newline>''
              @ js_join ''\<newline>'' (map (\<lambda>a. ''- '' @ a) shown)
         else []))"

definition NEEDS_MORE_REPLY :: string where
  "NEEDS_MORE_REPLY = ''Tell me a bit more about what the device should sense or do, and I'll take it from there.''"

subsection \<open>Merging a patch\<close>

definition SOLVER_RELEVANT_FIELDS :: "string list" where
  "SOLVER_RELEVANT_FIELDS =
     [''sense.what'', ''act.what'', ''power.source'', ''connect.transport'', ''power.target_life_days'', ''environment.flags'']"

definition MAX_CLARIFICATION_ROUNDS :: nat where
  "MAX_CLARIFICATION_ROUNDS = 4"

definition MAX_QUESTIONS_PER_ROUND :: nat where
  "MAX_QUESTIONS_PER_ROUND = 1"

definition MAX_ASSUMPTIONS :: nat where
  "MAX_ASSUMPTIONS = 20"

definition FIELD_LABEL :: "(string \<times> string) list" where
  "FIELD_LABEL =
     [(''sense.what'', ''what it measures''), (''act.what'', ''what it does''),
      (''power.source'', ''how it's powered''), (''connect.transport'', ''how it connects''),
      (''power.target_life_days'', ''how long the battery should last''),
      (''environment.flags'', ''the conditions where it lives'')]"

record Vocabulary =
  voc_capabilities :: "string list"
  voc_flags :: "string list"

definition emptySpec :: Spec where
  "emptySpec =
     \<lparr>sp_sense = \<lparr>se_what = [], se_accuracy = None, se_interval_s = None\<rparr>, sp_act = None,
      sp_environment = \<lparr>env_location = ''unspecified'', env_flags = []\<rparr>,
      sp_connect = \<lparr>co_transport = Wifi, co_experience = []\<rparr>,
      sp_power = \<lparr>pw_source = PowerUnknown, pw_target_life_days = None\<rparr>,
      sp_experience = \<lparr>ex_alerts = None, ex_dashboard = None\<rparr>,
      sp_capabilities = [], sp_assumptions = [], sp_open_questions = [], sp_settled = False\<rparr>"

text \<open>\<open>{ ...base, ...defined(patch) }\<close> on one field: a defined value replaces, an absent one does not.\<close>

definition over :: "'a option \<Rightarrow> 'a \<Rightarrow> 'a" where
  "over p b = (case p of None \<Rightarrow> b | Some v \<Rightarrow> v)"

definition over_opt :: "'a option \<Rightarrow> 'a option \<Rightarrow> 'a option" where
  "over_opt p b = (case p of None \<Rightarrow> b | Some v \<Rightarrow> Some v)"

definition merge_sense :: "SensePatch option \<Rightarrow> Sense \<Rightarrow> Sense" where
  "merge_sense p s =
     (case p of
        None \<Rightarrow> s
      | Some p \<Rightarrow> \<lparr>se_what = over (ps_what p) (se_what s), se_accuracy = over_opt (ps_accuracy p) (se_accuracy s),
                   se_interval_s = over_opt (ps_interval_s p) (se_interval_s s)\<rparr>)"

text \<open>\<open>{ what: [], ...spec.act, ...defined(patch.act) }\<close>, then dropped when it names nothing.\<close>

definition merge_act :: "string list option option \<Rightarrow> string list option \<Rightarrow> string list option" where
  "merge_act p a =
     (let merged = (case p of None \<Rightarrow> a | Some w \<Rightarrow> Some (over w (case a of None \<Rightarrow> [] | Some b \<Rightarrow> b)))
      in if merged = Some [] then None else merged)"

definition merge_environment :: "EnvironmentPatch option \<Rightarrow> Environment \<Rightarrow> Environment" where
  "merge_environment p e =
     (case p of
        None \<Rightarrow> e
      | Some p \<Rightarrow> \<lparr>env_location = over (pe_location p) (env_location e), env_flags = over (pe_flags p) (env_flags e)\<rparr>)"

definition merge_connect :: "ConnectPatch option \<Rightarrow> Connect \<Rightarrow> Connect" where
  "merge_connect p c =
     (case p of
        None \<Rightarrow> c
      | Some p \<Rightarrow> \<lparr>co_transport = over (pc_transport p) (co_transport c),
                   co_experience = over (pc_experience p) (co_experience c)\<rparr>)"

definition merge_power :: "PowerPatch option \<Rightarrow> Power \<Rightarrow> Power" where
  "merge_power p w =
     (case p of
        None \<Rightarrow> w
      | Some p \<Rightarrow> \<lparr>pw_source = over (pp_source p) (pw_source w),
                   pw_target_life_days = over_opt (pp_target_life_days p) (pw_target_life_days w)\<rparr>)"

definition merge_experience :: "Experience option \<Rightarrow> Experience \<Rightarrow> Experience" where
  "merge_experience p e =
     (case p of
        None \<Rightarrow> e
      | Some p \<Rightarrow> \<lparr>ex_alerts = over_opt (ex_alerts p) (ex_alerts e), ex_dashboard = over_opt (ex_dashboard p) (ex_dashboard e)\<rparr>)"

record MergeResult =
  mr_spec :: Spec
  mr_droppedCapabilities :: "string list"
  mr_droppedFlags :: "string list"

definition known_capability :: "Vocabulary \<Rightarrow> string \<Rightarrow> bool" where
  "known_capability v i \<longleftrightarrow> CapabilityId i \<and> i \<in> set (voc_capabilities v)"

definition mergePatch :: "Spec \<Rightarrow> SpecPatch \<Rightarrow> Vocabulary \<Rightarrow> MergeResult" where
  "mergePatch base patch vocabulary =
     (let environment = merge_environment (pt_environment patch) (sp_environment base);
          flags = js_unique (env_flags environment);
          caps = map_option (\<lambda>cs. js_unique (map js_trim cs)) (pt_capabilities patch)
      in \<lparr>mr_spec = base\<lparr>
            sp_sense := merge_sense (pt_sense patch) (sp_sense base),
            sp_act := merge_act (pt_act patch) (sp_act base),
            sp_environment := environment\<lparr>env_flags := filter (\<lambda>f. f \<in> set (voc_flags vocabulary)) flags\<rparr>,
            sp_connect := merge_connect (pt_connect patch) (sp_connect base),
            sp_power := merge_power (pt_power patch) (sp_power base),
            sp_experience := merge_experience (pt_experience patch) (sp_experience base),
            sp_capabilities := (case caps of None \<Rightarrow> sp_capabilities base
                                | Some cs \<Rightarrow> filter (known_capability vocabulary) cs),
            sp_assumptions := slice_last MAX_ASSUMPTIONS (js_unique (sp_assumptions base
              @ (case pt_assumptions patch of None \<Rightarrow> [] | Some as \<Rightarrow> as)))\<rparr>,
          mr_droppedCapabilities = (case caps of None \<Rightarrow> [] | Some cs \<Rightarrow> filter (\<lambda>c. \<not> known_capability vocabulary c) cs),
          mr_droppedFlags = filter (\<lambda>f. f \<notin> set (voc_flags vocabulary)) flags\<rparr>)"

subsection \<open>Questions\<close>

record QuestionFilter =
  qf_kept :: "OpenQuestion list"
  qf_cappedOut :: "OpenQuestion list"
  qf_irrelevant :: "OpenQuestion list"

definition clean_question :: "OpenQuestion \<Rightarrow> OpenQuestion" where
  "clean_question c =
     \<lparr>q_field = js_trim (q_field c), q_question = js_trim (q_question c),
      q_options = (case q_options c of
         None \<Rightarrow> None
       | Some os \<Rightarrow> (let d = js_unique (filter (\<lambda>x. length x > 0) (map js_trim os))
                     in if length d > 0 then Some (take 4 d) else None))\<rparr>"

fun filter_loop :: "bool \<Rightarrow> string list \<Rightarrow> OpenQuestion list \<Rightarrow> QuestionFilter \<Rightarrow> QuestionFilter" where
  "filter_loop capReached seen [] acc = acc"
| "filter_loop capReached seen (candidate # rest) acc =
     (let field = js_trim (q_field candidate); question = clean_question candidate in
      if field \<notin> set SOLVER_RELEVANT_FIELDS
        then filter_loop capReached seen rest (acc\<lparr>qf_irrelevant := qf_irrelevant acc @ [candidate]\<rparr>)
      else if field \<in> set seen then filter_loop capReached seen rest acc
      else if capReached \<or> length (qf_kept acc) \<ge> MAX_QUESTIONS_PER_ROUND
        then filter_loop capReached (field # seen) rest (acc\<lparr>qf_cappedOut := qf_cappedOut acc @ [question]\<rparr>)
      else filter_loop capReached (field # seen) rest (acc\<lparr>qf_kept := qf_kept acc @ [question]\<rparr>))"

definition filterQuestions :: "OpenQuestion list \<Rightarrow> nat \<Rightarrow> QuestionFilter" where
  "filterQuestions candidates roundsUsed =
     filter_loop (roundsUsed \<ge> MAX_CLARIFICATION_ROUNDS) [] candidates \<lparr>qf_kept = [], qf_cappedOut = [], qf_irrelevant = []\<rparr>"

subsection \<open>decide\<close>

datatype TurnStatus = Asking | Planning

record Decision =
  d_spec :: Spec
  d_reply :: string
  d_status :: TurnStatus
  d_newVersion :: bool
  d_confidence :: jsnum
  d_droppedCapabilities :: "string list"
  d_droppedFlags :: "string list"

definition flag_shape :: rx where
  "flag_shape = Seq (Cls low_num) (UpTo 63 (Cls (\<lambda>c. low_num c \<or> c \<in> set '':.-'')))"

definition describeDropped :: "string \<Rightarrow> (string \<Rightarrow> bool) \<Rightarrow> string \<Rightarrow> string" where
  "describeDropped value shape kind = (if shape value then value else ''an unrecognised '' @ kind)"

definition drop_notes :: "MergeResult \<Rightarrow> string list" where
  "drop_notes merged =
     map (\<lambda>c. ''Left out, not in the parts catalogue: '' @ describeDropped c CapabilityId ''capability'')
       (mr_droppedCapabilities merged)
     @ map (\<lambda>f. ''Left out, not a known environment condition: '' @ describeDropped f (rx_full flag_shape) ''condition'')
       (mr_droppedFlags merged)"

definition default_note :: "string \<Rightarrow> string" where
  "default_note field =
     ''No answer on '' @ (case map_of FIELD_LABEL field of Some l \<Rightarrow> l | None \<Rightarrow> field) @ ''; the spec uses a default for it''"

text \<open>The parts of \<open>decide\<close>, in its order: the base, the questions, whether it settles, the specification.\<close>

definition base_spec :: "Spec option \<Rightarrow> Spec" where
  "base_spec previous = (case previous of None \<Rightarrow> emptySpec | Some p \<Rightarrow> p)"

definition turn_questions :: "Spec option \<Rightarrow> SpecTurn \<Rightarrow> nat \<Rightarrow> QuestionFilter" where
  "turn_questions previous turn roundsUsed =
     (let rounds = (if sp_settled (base_spec previous) then MAX_CLARIFICATION_ROUNDS else roundsUsed)
      in filterQuestions (candidate_questions turn) rounds)"

definition settles :: "MergeResult \<Rightarrow> QuestionFilter \<Rightarrow> bool" where
  "settles merged questions \<longleftrightarrow>
     length (sp_capabilities (mr_spec merged)) > 0 \<and> length (qf_kept questions) = 0"

definition defaultsTaken :: "MergeResult \<Rightarrow> QuestionFilter \<Rightarrow> string list" where
  "defaultsTaken merged questions =
     (let capped = filter (\<lambda>q. \<not> list_ex (\<lambda>k. q_field k = q_field q) (qf_kept questions)) (qf_cappedOut questions)
      in if settles merged questions then map default_note (js_unique (map q_field capped)) else [])"

definition decided_spec :: "SpecTurn \<Rightarrow> MergeResult \<Rightarrow> QuestionFilter \<Rightarrow> Spec" where
  "decided_spec turn merged questions =
     (mr_spec merged)\<lparr>
       sp_assumptions := slice_last MAX_ASSUMPTIONS (js_unique
         (sp_assumptions (mr_spec merged) @ turn_assumptions turn @ drop_notes merged @ defaultsTaken merged questions)),
       sp_open_questions := qf_kept questions,
       sp_settled := settles merged questions\<rparr>"

text \<open>The model's reply is used as written only when every question it asked survived.\<close>

definition allSurvived :: "QuestionFilter \<Rightarrow> bool" where
  "allSurvived questions \<longleftrightarrow> length (qf_cappedOut questions) = 0 \<and> length (qf_irrelevant questions) = 0"

definition decided_reply :: "SpecTurn \<Rightarrow> QuestionFilter \<Rightarrow> Spec \<Rightarrow> string" where
  "decided_reply turn questions spec =
     (if allSurvived questions then turn_reply turn
      else if length (qf_kept questions) > 0 then questionsReply (qf_kept questions)
      else if sp_settled spec then settledReply (sp_assumptions spec)
      else NEEDS_MORE_REPLY)"

text \<open>
  \<open>Spec.parse\<close> raises where the specification breaks its schema. Both sides of the comparison by
  \<open>JSON.stringify\<close> are parsed specifications, whose keys are in schema order, so it compares the
  values.
\<close>

definition decide :: "Spec option \<Rightarrow> SpecTurn \<Rightarrow> Vocabulary \<Rightarrow> nat \<Rightarrow> js_error + Decision" where
  "decide previous turn vocabulary roundsUsed =
     (let merged = mergePatch (base_spec previous) (spec_patch turn) vocabulary;
          questions = turn_questions previous turn roundsUsed;
          spec = decided_spec turn merged questions;
          settled = settles merged questions
      in if \<not> Spec_ok spec then Inl (Thrown ''ZodError'')
         else Inr \<lparr>d_spec = spec, d_reply = decided_reply turn questions spec,
                    d_status = (if settled then Planning else Asking),
                    d_newVersion = (previous \<noteq> Some spec \<or> length (qf_kept questions) > 0),
                    d_confidence = (if settled then Fin 1
                      else jmax (Fin 0) (jsub (Fin 1) (jdiv (jnat (length (qf_kept questions))) (jnat (length SOLVER_RELEVANT_FIELDS))))),
                    d_droppedCapabilities = mr_droppedCapabilities merged,
                    d_droppedFlags = mr_droppedFlags merged\<rparr>)"

subsection \<open>Which questions survive\<close>

lemma length_js_trim_le: "length (js_trim s) \<le> length s"
  unfolding js_trim_def by (metis length_dropWhile_le length_rev order_trans)

definition filter_inv :: "bool \<Rightarrow> string list \<Rightarrow> OpenQuestion list \<Rightarrow> QuestionFilter \<Rightarrow> bool" where
  "filter_inv capReached seen ds qf \<longleftrightarrow>
     set (qf_kept qf @ qf_cappedOut qf) \<subseteq> clean_question ` set ds \<and>
     set (map q_field (qf_kept qf @ qf_cappedOut qf)) = set seen \<and> set seen \<subseteq> set SOLVER_RELEVANT_FIELDS \<and>
     (\<forall>c \<in> set ds. js_trim (q_field c) \<in> set SOLVER_RELEVANT_FIELDS \<longrightarrow> js_trim (q_field c) \<in> set seen) \<and>
     distinct (map q_field (qf_kept qf @ qf_cappedOut qf)) \<and>
     length (qf_kept qf) \<le> MAX_QUESTIONS_PER_ROUND \<and> (capReached \<longrightarrow> qf_kept qf = []) \<and>
     (qf_cappedOut qf \<noteq> [] \<longrightarrow> capReached \<or> qf_kept qf \<noteq> []) \<and>
     qf_irrelevant qf = filter (\<lambda>c. js_trim (q_field c) \<notin> set SOLVER_RELEVANT_FIELDS) ds"

lemma q_field_clean [simp]: "q_field (clean_question c) = js_trim (q_field c)"
  by (simp add: clean_question_def)

lemma filter_loop_inv:
  "filter_inv capReached seen ds acc \<Longrightarrow>
     \<exists>seen'. filter_inv capReached seen' (ds @ cs) (filter_loop capReached seen cs acc)"
proof (induction cs arbitrary: seen ds acc)
  case (Cons c cs)
  let ?f = "js_trim (q_field c)"
  have step: "\<exists>seen'. filter_inv capReached seen' (ds @ c # cs) (filter_loop capReached s cs a)"
    if "filter_inv capReached s (ds @ [c]) a" for s a
    using Cons.IH [OF that] by simp
  show ?case
  proof (cases "?f \<in> set SOLVER_RELEVANT_FIELDS")
    case False
    with Cons.prems have "filter_inv capReached seen (ds @ [c]) (acc\<lparr>qf_irrelevant := qf_irrelevant acc @ [c]\<rparr>)"
      by (auto simp: filter_inv_def)
    from step [OF this] False show ?thesis by simp
  next
    case rel: True
    show ?thesis
    proof (cases "?f \<in> set seen")
      case True
      with Cons.prems rel have "filter_inv capReached seen (ds @ [c]) acc" by (auto simp: filter_inv_def)
      from step [OF this] True rel show ?thesis by simp
    next
      case new: False
      have d: "?f \<notin> set (map q_field (qf_kept acc @ qf_cappedOut acc))"
        using Cons.prems new unfolding filter_inv_def by blast
      show ?thesis
      proof (cases "capReached \<or> length (qf_kept acc) \<ge> MAX_QUESTIONS_PER_ROUND")
        case True
        have "filter_inv capReached (?f # seen) (ds @ [c]) (acc\<lparr>qf_cappedOut := qf_cappedOut acc @ [clean_question c]\<rparr>)"
          using Cons.prems rel d True by (auto simp: filter_inv_def MAX_QUESTIONS_PER_ROUND_def)
        from step [OF this] True rel new show ?thesis by (simp add: Let_def)
      next
        case False
        then have "qf_kept acc = []" by (cases "qf_kept acc") (auto simp: MAX_QUESTIONS_PER_ROUND_def)
        then have "filter_inv capReached (?f # seen) (ds @ [c]) (acc\<lparr>qf_kept := qf_kept acc @ [clean_question c]\<rparr>)"
          using Cons.prems rel d False by (auto simp: filter_inv_def MAX_QUESTIONS_PER_ROUND_def)
        from step [OF this] False rel new show ?thesis by (simp add: Let_def)
      qed
    qed
  qed
qed auto

lemma filterQuestions_inv:
  "\<exists>seen. filter_inv (roundsUsed \<ge> MAX_CLARIFICATION_ROUNDS) seen candidates (filterQuestions candidates roundsUsed)"
  using filter_loop_inv [of "roundsUsed \<ge> MAX_CLARIFICATION_ROUNDS" "[]" "[]"
      "\<lparr>qf_kept = [], qf_cappedOut = [], qf_irrelevant = []\<rparr>" candidates]
  by (simp add: filterQuestions_def filter_inv_def)

text \<open>
  The question filter keeps at most one question, none once four rounds are used; the questions it keeps or
  caps are cleaned candidates about distinct solver-relevant fields; the irrelevant ones are exactly the
  candidates about other fields; and it caps a question only when a question is kept or the rounds are used up.
\<close>

theorem filterQuestions_spec:
  "length (qf_kept (filterQuestions cs rounds)) \<le> 1 \<and>
   (rounds \<ge> 4 \<longrightarrow> qf_kept (filterQuestions cs rounds) = []) \<and>
   set (qf_kept (filterQuestions cs rounds) @ qf_cappedOut (filterQuestions cs rounds)) \<subseteq> clean_question ` set cs \<and>
   set (map q_field (qf_kept (filterQuestions cs rounds) @ qf_cappedOut (filterQuestions cs rounds))) \<subseteq> set SOLVER_RELEVANT_FIELDS \<and>
   distinct (map q_field (qf_kept (filterQuestions cs rounds) @ qf_cappedOut (filterQuestions cs rounds))) \<and>
   (qf_cappedOut (filterQuestions cs rounds) \<noteq> [] \<longrightarrow> rounds \<ge> 4 \<or> qf_kept (filterQuestions cs rounds) \<noteq> []) \<and>
   qf_irrelevant (filterQuestions cs rounds) = filter (\<lambda>c. js_trim (q_field c) \<notin> set SOLVER_RELEVANT_FIELDS) cs"
  using filterQuestions_inv [of rounds cs]
  unfolding filter_inv_def MAX_QUESTIONS_PER_ROUND_def MAX_CLARIFICATION_ROUNDS_def by fast

theorem filterQuestions_spec_witness:
  "qf_kept (filterQuestions [\<lparr>q_field = ''power.source'', q_question = ''Battery?'', q_options = None\<rparr>] 4) = []"
  using filterQuestions_spec [of "[\<lparr>q_field = ''power.source'', q_question = ''Battery?'', q_options = None\<rparr>]" 4] by simp

subsection \<open>What the merge and the decision keep\<close>

lemma clean_question_ok:
  assumes "OpenQuestion_ok q" and "js_trim (q_field q) \<in> set SOLVER_RELEVANT_FIELDS"
  shows "OpenQuestion_ok (clean_question q) \<longleftrightarrow> js_trim (q_question q) \<noteq> []"
proof -
  have "length (js_trim (q_field q)) \<le> 64" "length (js_trim (q_question q)) \<le> 300"
    using assms(1) length_js_trim_le [of "q_field q"] length_js_trim_le [of "q_question q"]
    by (auto simp: OpenQuestion_ok_def)
  moreover have "js_trim (q_field q) \<noteq> []" using assms(2) by (auto simp: SOLVER_RELEVANT_FIELDS_def)
  moreover have "list_all (\<lambda>x. 1 \<le> length x \<and> length x \<le> 60) (take 4 (js_unique (filter (\<lambda>x. length x > 0) (map js_trim os))))"
    if "q_options q = Some os" for os
  proof -
    have "length (js_trim x) \<le> 60" if "x \<in> set os" for x
      using that \<open>q_options q = Some os\<close> assms(1) length_js_trim_le [of x]
      by (fastforce simp: OpenQuestion_ok_def opt_ok_def list_all_iff)
    then show ?thesis by (auto simp: list_all_iff Suc_le_eq dest!: in_set_takeD)
  qed
  ultimately show ?thesis
    by (auto simp: OpenQuestion_ok_def clean_question_def opt_ok_def Suc_le_eq Let_def split: option.splits)
qed

lemma opt_ok_simps [simp]: "opt_ok P None" "opt_ok P (Some x) \<longleftrightarrow> P x"
  by (simp_all add: opt_ok_def)

lemma over_ok: "opt_ok P p \<Longrightarrow> P b \<Longrightarrow> P (over p b)" "opt_ok P p \<Longrightarrow> opt_ok P b' \<Longrightarrow> opt_ok P (over_opt p b')"
  by (cases p; simp add: over_def over_opt_def)+

lemma merge_sections_ok:
  assumes p: "SpecPatch_ok p" and s: "Spec_ok s"
  shows "Sense_ok (merge_sense (pt_sense p) (sp_sense s))"
    and "opt_ok (shorts 12) (merge_act (pt_act p) (sp_act s))"
    and "Environment_ok (merge_environment (pt_environment p) (sp_environment s))"
    and "Connect_ok (merge_connect (pt_connect p) (sp_connect s))"
    and "Power_ok (merge_power (pt_power p) (sp_power s))"
    and "Experience_ok (merge_experience (pt_experience p) (sp_experience s))"
proof -
  show "Sense_ok (merge_sense (pt_sense p) (sp_sense s))"
    using p s by (cases "pt_sense p") (simp_all add: SpecPatch_ok_def Spec_ok_def merge_sense_def Sense_ok_def over_ok)
  show "opt_ok (shorts 12) (merge_act (pt_act p) (sp_act s))"
  proof (cases "pt_act p")
    case None
    with s show ?thesis by (simp add: merge_act_def Spec_ok_def Let_def)
  next
    case (Some w)
    then have "opt_ok (shorts 12) w" using p by (simp add: SpecPatch_ok_def)
    moreover have "shorts 12 (case sp_act s of None \<Rightarrow> [] | Some b \<Rightarrow> b)"
      using s by (cases "sp_act s") (simp_all add: Spec_ok_def shorts_def)
    ultimately show ?thesis using Some by (simp add: merge_act_def Let_def over_ok)
  qed
  show "Environment_ok (merge_environment (pt_environment p) (sp_environment s))"
    using p s by (cases "pt_environment p") (simp_all add: SpecPatch_ok_def Spec_ok_def merge_environment_def Environment_ok_def over_ok)
  show "Connect_ok (merge_connect (pt_connect p) (sp_connect s))"
    using p s by (cases "pt_connect p") (simp_all add: SpecPatch_ok_def Spec_ok_def merge_connect_def Connect_ok_def over_ok)
  show "Power_ok (merge_power (pt_power p) (sp_power s))"
    using p s by (cases "pt_power p") (simp_all add: SpecPatch_ok_def Spec_ok_def merge_power_def Power_ok_def over_ok)
  show "Experience_ok (merge_experience (pt_experience p) (sp_experience s))"
    using p s by (cases "pt_experience p") (simp_all add: SpecPatch_ok_def Spec_ok_def merge_experience_def Experience_ok_def over_ok)
qed

lemma list_all_slice_unique: "list_all P xs \<Longrightarrow> list_all P (slice_last n (js_unique xs))"
  using set_slice_last_subset [of n "js_unique xs"] by (auto simp: list_all_iff)

lemma list_all_filter_unique: "list_all P xs \<Longrightarrow> list_all P (filter Q (js_unique xs))"
  by (auto simp: list_all_iff)

lemma length_filter_unique: "length xs \<le> n \<Longrightarrow> length (filter Q (js_unique xs)) \<le> n"
  using length_js_unique_le [of xs] length_filter_le [of Q "js_unique xs"] by linarith

lemma mergePatch_ok:
  assumes "SpecPatch_ok p" and "Spec_ok s"
  shows "Spec_ok (mr_spec (mergePatch s p v))"
proof -
  let ?e = "merge_environment (pt_environment p) (sp_environment s)"
  have e: "Environment_ok (?e\<lparr>env_flags := filter (\<lambda>f. f \<in> set (voc_flags v)) (js_unique (env_flags ?e))\<rparr>)"
    using merge_sections_ok(3) [OF assms]
    by (simp add: Environment_ok_def flags_ok_def list_all_filter_unique length_filter_unique)
  have c: "list_all CapabilityId (sp_capabilities (mr_spec (mergePatch s p v))) \<and> length (sp_capabilities (mr_spec (mergePatch s p v))) \<le> 24"
  proof (cases "pt_capabilities p")
    case None
    with assms show ?thesis by (simp add: mergePatch_def Let_def Spec_ok_def)
  next
    case (Some cs)
    then have "length (map js_trim cs) \<le> 24" using assms(1) by (simp add: SpecPatch_ok_def)
    from length_filter_unique [OF this] Some show ?thesis
      by (simp add: mergePatch_def Let_def known_capability_def list_all_iff)
  qed
  have a: "list_all Sentence (sp_assumptions (mr_spec (mergePatch s p v)))"
    using assms by (cases "pt_assumptions p")
      (simp_all add: mergePatch_def Let_def Spec_ok_def SpecPatch_ok_def list_all_slice_unique)
  have q: "list_all OpenQuestion_ok (sp_open_questions s)" "length (sp_open_questions s) \<le> 6"
    using assms by (auto simp: Spec_ok_def)
  show ?thesis
    using merge_sections_ok [OF assms] e c a q
    by (simp add: Spec_ok_def mergePatch_def Let_def MAX_ASSUMPTIONS_def)
qed

lemma emptySpec_ok: "Spec_ok emptySpec"
  by (simp add: Spec_ok_def emptySpec_def Sense_ok_def Environment_ok_def Connect_ok_def Power_ok_def
      Experience_ok_def shorts_def flags_ok_def opt_ok_def Short_def)

lemma describeDropped_length:
  "length value \<le> 64 \<Longrightarrow> length kind \<le> 48 \<Longrightarrow> length (describeDropped value shape kind) \<le> 64"
  by (simp add: describeDropped_def)

lemma drop_notes_Sentence:
  assumes "SpecPatch_ok p" and "Spec_ok s"
  shows "list_all Sentence (drop_notes (mergePatch s p v))"
proof -
  have c: "length c \<le> 64" if "c \<in> set (mr_droppedCapabilities (mergePatch s p v))" for c
  proof (cases "pt_capabilities p")
    case (Some cs)
    with that obtain x where "x \<in> set cs" "c = js_trim x" by (auto simp: mergePatch_def Let_def)
    with Some assms(1) length_js_trim_le [of x] show ?thesis by (fastforce simp: SpecPatch_ok_def list_all_iff)
  qed (use that in \<open>simp add: mergePatch_def Let_def\<close>)
  have f: "length f \<le> 64" if "f \<in> set (mr_droppedFlags (mergePatch s p v))" for f
    using that merge_sections_ok(3) [OF assms]
    by (auto simp: mergePatch_def Let_def Environment_ok_def flags_ok_def list_all_iff)
  have "length (describeDropped c CapabilityId ''capability'') \<le> 64" if "length c \<le> 64" for c
    using that by (intro describeDropped_length) simp_all
  moreover have "length (describeDropped f (rx_full flag_shape) ''condition'') \<le> 64" if "length f \<le> 64" for f
    using that by (intro describeDropped_length) simp_all
  ultimately show ?thesis
    using c f by (fastforce simp: drop_notes_def list_all_iff Sentence_def)
qed

lemma default_note_Sentence: "f \<in> set SOLVER_RELEVANT_FIELDS \<Longrightarrow> Sentence (default_note f)"
  by (auto simp: SOLVER_RELEVANT_FIELDS_def default_note_def FIELD_LABEL_def Sentence_def)

lemma turn_questions_inv:
  obtains seen where "filter_inv (MAX_CLARIFICATION_ROUNDS \<le> roundsUsed \<or> sp_settled (base_spec previous)) seen
    (candidate_questions turn) (turn_questions previous turn roundsUsed)"
  using filterQuestions_inv [of roundsUsed "candidate_questions turn"]
    filterQuestions_inv [of MAX_CLARIFICATION_ROUNDS "candidate_questions turn"]
  by (cases "sp_settled (base_spec previous)") (auto simp: turn_questions_def)

lemma kept_questions_ok:
  assumes "SpecTurn_ok turn"
  shows "list_all OpenQuestion_ok (qf_kept (turn_questions previous turn r)) \<longleftrightarrow>
    (\<forall>q \<in> set (qf_kept (turn_questions previous turn r)). q_question q \<noteq> [])"
proof -
  have "OpenQuestion_ok q \<longleftrightarrow> q_question q \<noteq> []" if "q \<in> set (qf_kept (turn_questions previous turn r))" for q
  proof -
    obtain seen where "filter_inv (MAX_CLARIFICATION_ROUNDS \<le> r \<or> sp_settled (base_spec previous)) seen
        (candidate_questions turn) (turn_questions previous turn r)" by (rule turn_questions_inv)
    then have "set (qf_kept (turn_questions previous turn r)) \<subseteq> clean_question ` set (candidate_questions turn)"
      "q_field ` set (qf_kept (turn_questions previous turn r)) \<subseteq> set SOLVER_RELEVANT_FIELDS"
      by (auto simp: filter_inv_def)
    with that obtain c where "c \<in> set (candidate_questions turn)" "q = clean_question c" "q_field q \<in> set SOLVER_RELEVANT_FIELDS"
      by blast
    moreover from this assms have "OpenQuestion_ok c" by (simp add: SpecTurn_ok_def list_all_iff)
    ultimately show ?thesis using clean_question_ok [of c] by (simp add: clean_question_def)
  qed
  then show ?thesis by (auto simp: list_all_iff)
qed

lemma defaultsTaken_Sentence: "list_all Sentence (defaultsTaken m (turn_questions previous turn r))"
proof -
  have "set (map q_field (qf_cappedOut (turn_questions previous turn r))) \<subseteq> set SOLVER_RELEVANT_FIELDS"
    by (rule turn_questions_inv [of r previous turn]) (auto simp: filter_inv_def)
  with default_note_Sentence show ?thesis by (fastforce simp: defaultsTaken_def Let_def list_all_iff)
qed

lemma decided_spec_ok:
  assumes prev: "opt_ok Spec_ok previous" and turn: "SpecTurn_ok turn"
  shows "Spec_ok (decided_spec turn (mergePatch (base_spec previous) (spec_patch turn) v) (turn_questions previous turn r)) \<longleftrightarrow>
    (\<forall>q \<in> set (qf_kept (turn_questions previous turn r)). q_question q \<noteq> [])"
proof -
  let ?m = "mergePatch (base_spec previous) (spec_patch turn) v" and ?q = "turn_questions previous turn r"
  have base_ok: "Spec_ok (base_spec previous)" using prev emptySpec_ok by (cases previous) (simp_all add: base_spec_def)
  have patch: "SpecPatch_ok (spec_patch turn)" using turn by (simp add: SpecTurn_ok_def)
  note mok = mergePatch_ok [OF patch base_ok, of v]
  have "list_all Sentence (sp_assumptions (mr_spec ?m) @ turn_assumptions turn @ drop_notes ?m @ defaultsTaken ?m ?q)"
    using mok turn defaultsTaken_Sentence drop_notes_Sentence [OF patch base_ok, of v]
    by (simp add: Spec_ok_def SpecTurn_ok_def)
  note a = list_all_slice_unique [OF this, of MAX_ASSUMPTIONS]
  have "length (qf_kept ?q) \<le> 6"
    by (rule turn_questions_inv [of r previous turn]) (auto simp: filter_inv_def MAX_QUESTIONS_PER_ROUND_def)
  moreover have "length (slice_last MAX_ASSUMPTIONS xs) \<le> 20" for xs :: "string list"
    using length_slice_last_le [of MAX_ASSUMPTIONS xs] by (simp add: MAX_ASSUMPTIONS_def)
  ultimately show ?thesis
    using mok a kept_questions_ok [OF turn, of previous r] unfolding Spec_ok_def decided_spec_def by simp
qed


definition quiet_patch :: SpecPatch where
  "quiet_patch = \<lparr>pt_sense = None, pt_act = None, pt_environment = None, pt_connect = None, pt_power = None,
     pt_experience = None, pt_capabilities = None, pt_assumptions = None, pt_open_questions = None\<rparr>"

definition blank_turn :: SpecTurn where
  "blank_turn = \<lparr>reply_kind = ReplySpec, spec_patch = quiet_patch,
     candidate_questions = [\<lparr>q_field = ''power.source'', q_question = '' '', q_options = None\<rparr>],
     turn_assumptions = [], turn_reply = ''How is it powered?''\<rparr>"



definition settle_turn :: SpecTurn where
  "settle_turn = \<lparr>reply_kind = ReplySpec, spec_patch = quiet_patch\<lparr>pt_capabilities := Some [''read.temperature_c'', ''read.mood'']\<rparr>,
     candidate_questions = [], turn_assumptions = [''USB power''], turn_reply = ''Done.''\<rparr>"


text \<open>
  The reply never asks what code dropped: the model's own text is sent only when every question it asked
  is about the field of a kept one; otherwise code writes the reply, from the kept questions, from the assumptions of a settled
  specification, or as a request for more.
\<close>

theorem decide_reply_consistent:
  assumes "decide previous turn v roundsUsed = Inr d"
  shows "(d_reply d = turn_reply turn \<and>
      (\<forall>c \<in> set (candidate_questions turn). js_trim (q_field c) \<in> q_field ` set (sp_open_questions (d_spec d)))) \<or>
    (sp_open_questions (d_spec d) \<noteq> [] \<and> d_reply d = questionsReply (sp_open_questions (d_spec d))) \<or>
    (sp_settled (d_spec d) \<and> d_reply d = settledReply (sp_assumptions (d_spec d))) \<or>
    (\<not> sp_settled (d_spec d) \<and> d_reply d = NEEDS_MORE_REPLY)"
proof -
  let ?q = "turn_questions previous turn roundsUsed"
  from assms have d: "sp_open_questions (d_spec d) = qf_kept ?q" "d_reply d = decided_reply turn ?q (d_spec d)"
    by (auto simp: decide_def Let_def decided_spec_def split: if_splits)
  have "js_trim (q_field c) \<in> q_field ` set (qf_kept ?q)" if "allSurvived ?q" "c \<in> set (candidate_questions turn)" for c
  proof (rule turn_questions_inv [of roundsUsed previous turn])
    fix seen
    assume "filter_inv (MAX_CLARIFICATION_ROUNDS \<le> roundsUsed \<or> sp_settled (base_spec previous)) seen (candidate_questions turn) ?q"
    then have seen: "\<forall>c \<in> set (candidate_questions turn). js_trim (q_field c) \<in> set SOLVER_RELEVANT_FIELDS \<longrightarrow> js_trim (q_field c) \<in> set seen"
      "set (map q_field (qf_kept ?q @ qf_cappedOut ?q)) = set seen"
      "qf_irrelevant ?q = filter (\<lambda>c. js_trim (q_field c) \<notin> set SOLVER_RELEVANT_FIELDS) (candidate_questions turn)"
      unfolding filter_inv_def by blast+
    from that(1) seen(3) have "filter (\<lambda>c. js_trim (q_field c) \<notin> set SOLVER_RELEVANT_FIELDS) (candidate_questions turn) = []"
      by (simp add: allSurvived_def)
    with that(2) have "js_trim (q_field c) \<in> set SOLVER_RELEVANT_FIELDS" unfolding filter_empty_conv by blast
    with seen(1,2) that show ?thesis by (auto simp: allSurvived_def)
  qed
  with d show ?thesis by (auto simp: decided_reply_def)
qed

theorem decide_reply_consistent_witness:
  "\<exists>d. decide None settle_turn \<lparr>voc_capabilities = [''read.temperature_c''], voc_flags = []\<rparr> 0 = Inr d \<and>
     (d_reply d = turn_reply settle_turn \<or> d_reply d = settledReply (sp_assumptions (d_spec d)))"
proof -
  have "case decide None settle_turn \<lparr>voc_capabilities = [''read.temperature_c''], voc_flags = []\<rparr> 0 of
      Inl e \<Rightarrow> False | Inr d \<Rightarrow> sp_settled (d_spec d) \<and> sp_open_questions (d_spec d) = []"
    by code_simp
  then obtain d where d: "decide None settle_turn \<lparr>voc_capabilities = [''read.temperature_c''], voc_flags = []\<rparr> 0 = Inr d"
    "sp_settled (d_spec d)" "sp_open_questions (d_spec d) = []" by (auto split: sum.splits)
  from decide_reply_consistent [OF d(1)] d show ?thesis by auto
qed

end
