(* ===== verification/Intake_Policy.thy ===== *)
theory Intake_Policy
  imports Intake_Decide
begin

text \<open>
  The scope filter of \<open>apps/intake/src/policy.ts\<close>, pattern by pattern. \<open>fold_unicode\<close> stands for the
  Unicode part of \<open>normalize\<close> (NFKC, lower case, straight apostrophes); the whitespace part is modelled.
\<close>

subsection \<open>Patterns\<close>

definition Lits :: "string list \<Rightarrow> rx" where
  "Lits ws = Alts (map Lit ws)"

text \<open>\<open>words?\<close>: a literal with an optional final \<open>s\<close>.\<close>

definition plural :: "string \<Rightarrow> rx" where
  "plural w = Seq (Lit w) (Opt (Chr (CHR ''s'')))"

definition Plurals :: "string list \<Rightarrow> rx" where
  "Plurals ws = Alts (map plural ws)"

definition Word :: "rx \<Rightarrow> rx" where
  "Word r = Seq WordB (Seq r WordB)"

definition OptLit :: "string \<Rightarrow> rx" where
  "OptLit s = Opt (Lit s)"

definition sp_dash :: rx where
  "sp_dash = Opt (Cls (one_of '' -''))"

definition PERSON :: rx where
  "PERSON = Word (Alts
     [Lits [''wife'', ''husband'', ''partner'', ''girlfriend'', ''boyfriend'', ''spouse'', ''ex''],
      plural ''kid'', Seq (Lit ''child'') (OptLit ''ren''), Lits [''son'', ''daughter''],
      Seq (Lit ''teen'') (Seq (OptLit ''ager'') (Opt (Chr (CHR ''s'')))),
      plural ''employee'', Lit ''staff'', Plurals [''worker'', ''roommate'', ''flatmate''],
      Seq (Lit ''neighbo'') (Seq (Opt (Chr (CHR ''u''))) (plural ''r'')), plural ''tenant'',
      Lits [''someone'', ''somebody'', ''people'', ''person'', ''him'', ''her'', ''them'']])"

definition WEAPONS :: rx where
  "WEAPONS = Word (Alts
     [Plurals [''weapon'', ''firearm'', ''gun'', ''rifle'', ''pistol'', ''taser'', ''explosive'', ''bomb'', ''detonator''],
      Lit ''detonate'', plural ''grenade'', Lits [''ammunition'', ''ammo'']])"

definition TOOL_GUNS :: rx where
  "TOOL_GUNS = Alt
     (Word (Seq (Lits [''glue'', ''heat'', ''nail'', ''spray'', ''staple'', ''caulk'', ''grease'', ''massage'', ''water'',
                       ''nerf'', ''temperature'', ''temp'', ''thermometer'', ''radar'', ''soldering'', ''paint''])
              (Seq sp_dash (plural ''gun''))))
     (Word (Seq (Lits [''bath'', ''seed'', ''photo'']) (Seq sp_dash (plural ''bomb''))))"

definition HURT :: rx where
  "HURT = Word (Lits [''hurt'', ''harm'', ''injure'', ''shock'', ''electrocute'', ''zap'', ''poison'', ''attack'', ''kill'', ''maim''])"

definition VICTIMS :: rx where
  "VICTIMS = Word (Alts
     [Plurals [''intruder'', ''burglar''], Seq (Lit ''thie'') (Lits [''f'', ''ves'']), plural ''trespasser'',
      Lits [''people'', ''person'', ''someone'', ''somebody'', ''anyone'', ''him'', ''her'', ''them''],
      Seq (Lit ''neighbo'') (Seq (Opt (Chr (CHR ''u''))) (plural ''r'')),
      Plurals [''cat'', ''dog'', ''animal'', ''bird'', ''squirrel'']])"

definition space_rx :: rx where
  "space_rx = Cls js_space"

definition MAINS :: rx where
  "MAINS = Alts
     [Word (Lit ''mains''),
      Word (Seqs [Lits [''100'', ''110'', ''115'', ''120'', ''127'', ''220'', ''230'', ''240''],
                  Opt space_rx, OptLit ''-'', Opt space_rx, Lit ''v'', Opt (Alt (plural ''olt'') (Lit ''ac''))]),
      Word (Seqs [Lits [''line'', ''high''], Cls (one_of '' -''), Lit ''voltage'']),
      Word (Seq (Lit ''ac '') (Lits [''mains'', ''line'', ''voltage''])),
      Word (Lits [''light switch'', ''breaker'', ''fuse box'', ''consumer unit'']),
      Word (Seqs [Lit ''wire'', OptLit ''d'', Lit '' '', OptLit ''in'', Lit ''to '',
                  Opt (Alts [Seqs [Lit ''a'', OptLit ''n'', Lit '' ''], Lit ''the '', Lit ''my '']), OptLit ''wall '',
                  Lits [''outlet'', ''socket'']]),
      Word (Seqs [Lit ''hard'', OptLit ''-'', Lit ''wire'', OptLit ''d''])]"

definition MEDICAL :: rx where
  "MEDICAL = Word (Alts
     [Lit ''medical'', Seq (Lit ''diagnos'') (Lits [''e'', ''es'', ''is'', ''ing'', ''tic'']), plural ''patient'',
      Seq (Lit ''blood '') (Lits [''pressure'', ''sugar'', ''glucose'', ''oxygen'']), Lits [''glucose'', ''insulin''],
      Seqs [Lit ''heart'', OptLit '' '', Lit ''rate''], Lits [''heartbeat'', ''ecg'', ''ekg''],
      Seqs [Lit ''pulse'', OptLit '' '', Lit ''ox'', OptLit ''imeter''], Lits [''oximeter'', ''spo2''],
      Plurals [''seizure'', ''arrhythmia''], Lits [''apnoea'', ''apnea'', ''vital signs'', ''fall detection'']])"

definition SPYING :: rx where
  "SPYING = Word (Alt (Seqs [Lit ''spy'', OptLit ''ing'', Lit '' on'']) (Seq (Lit ''stalk'') (Opt (Lits [''ing'', ''er'']))))"

definition apostrophe_opt :: rx where
  "apostrophe_opt = Opt (Chr (CHR 0x27))"

definition COVERT :: rx where
  "COVERT = Word (Alts
     [Seq (Lit ''secret'') (OptLit ''ly''), Seq (Lit ''covert'') (OptLit ''ly''), Lits [''hidden'', ''hide''],
      Seqs [Lit ''without '', Opt (Seq (Plus (Cls word_char)) (Lit '' '')),
            Lits [''knowing'', ''noticing'', ''consent'', ''permission'', ''knowledge'']],
      Seqs [Lit ''won'', apostrophe_opt, Lit ''t '', Lits [''know'', ''notice'']],
      Seqs [Lit ''doesn'', apostrophe_opt, Lit ''t know''], Seqs [Lit ''don'', apostrophe_opt, Lit ''t know'']])"

definition TRACKING :: rx where
  "TRACKING = Word (Seq
     (Lits [''track'', ''trace'', ''follow'', ''locate'', ''location'', ''gps'', ''record'', ''listen'', ''eavesdrop'',
            ''watch'', ''film'', ''camera'', ''microphone'', ''mic''])
     (Star (Cls word_char)))"

subsection \<open>Rules\<close>

datatype ScopeDecision = Allow | OutOfScope ScopeCategory

record Rule =
  rule_category :: ScopeCategory
  rule_all :: "rx list"
  rule_unless :: "rx option"

definition RULES :: "Rule list" where
  "RULES =
     [\<lparr>rule_category = WeaponsHarm, rule_all = [WEAPONS], rule_unless = Some TOOL_GUNS\<rparr>,
      \<lparr>rule_category = WeaponsHarm, rule_all = [HURT, VICTIMS], rule_unless = None\<rparr>,
      \<lparr>rule_category = MainsVoltage, rule_all = [MAINS], rule_unless = None\<rparr>,
      \<lparr>rule_category = MedicalMonitoring, rule_all = [MEDICAL], rule_unless = None\<rparr>,
      \<lparr>rule_category = CovertTracking, rule_all = [SPYING], rule_unless = None\<rparr>,
      \<lparr>rule_category = CovertTracking, rule_all = [COVERT, TRACKING, PERSON], rule_unless = None\<rparr>]"

text \<open>\<open>.replace(/\s+/g, " ")\<close>.\<close>

fun collapse_spaces :: "string \<Rightarrow> string" where
  "collapse_spaces [] = []"
| "collapse_spaces [c] = (if js_space c then '' '' else [c])"
| "collapse_spaces (c # d # s) =
     (if js_space c then (if js_space d then collapse_spaces (d # s) else CHR '' '' # collapse_spaces (d # s))
      else c # collapse_spaces (d # s))"

definition normalize :: "(string \<Rightarrow> string) \<Rightarrow> string \<Rightarrow> string" where
  "normalize fold_unicode text = js_trim (collapse_spaces (fold_unicode text))"

definition rule_applies :: "string \<Rightarrow> Rule \<Rightarrow> bool" where
  "rule_applies s rule \<longleftrightarrow>
     list_all (\<lambda>p. rx_search p s) (rule_all rule) \<and> \<not> (case rule_unless rule of None \<Rightarrow> False | Some u \<Rightarrow> rx_search u s)"

fun screen_rules :: "Rule list \<Rightarrow> string \<Rightarrow> ScopeDecision" where
  "screen_rules [] s = Allow"
| "screen_rules (rule # rules) s = (if rule_applies s rule then OutOfScope (rule_category rule) else screen_rules rules s)"

definition screen :: "(string \<Rightarrow> string) \<Rightarrow> string \<Rightarrow> ScopeDecision" where
  "screen fold_unicode text = screen_rules RULES (normalize fold_unicode text)"

subsection \<open>A match survives the text around it\<close>

definition word_free_ends :: "string \<Rightarrow> string \<Rightarrow> bool" where
  "word_free_ends u v \<longleftrightarrow> (u = [] \<or> \<not> word_char (last u)) \<and> (v = [] \<or> \<not> word_char (hd v))"

lemma word_at_context:
  assumes "word_free_ends u v" and "i \<le> length t"
  shows "word_at (u @ t @ v) (length u + i) = word_at t i"
  using assms by (cases v) (auto simp: word_at_def nth_append word_free_ends_def)

lemma word_boundary_context:
  assumes "word_free_ends u v" and "i \<le> length t"
  shows "word_boundary (u @ t @ v) (length u + i) = word_boundary t i"
proof (cases i)
  case 0
  have "\<not> (0 < length u \<and> word_at (u @ t @ v) (length u - 1))"
    using assms(1) by (cases u rule: rev_cases) (auto simp: word_at_def nth_append word_free_ends_def)
  with 0 word_at_context [OF assms] show ?thesis by (auto simp: word_boundary_def)
next
  case (Suc k)
  have "word_at (u @ t @ v) (length u + k) = word_at t k"
    using assms Suc by (intro word_at_context) auto
  with Suc word_at_context [OF assms] show ?thesis by (simp add: word_boundary_def)
qed

lemma rx_match_context:
  assumes "rx_match t r i j" and "word_free_ends u v"
  shows "i \<le> length t \<Longrightarrow> j \<le> length t \<and> rx_match (u @ t @ v) r (length u + i) (length u + j)"
  using assms(1)
proof (induction rule: rx_match.induct)
  case (Cls i P)
  then show ?case by (auto simp: nth_append intro!: rx_match.Cls [of "length u + i", simplified])
next
  case (WordB i)
  then show ?case using word_boundary_context [OF assms(2)] by (auto intro: rx_match.WordB)
qed (auto intro: rx_match.intros)

lemma rx_search_context: "rx_search r t \<Longrightarrow> word_free_ends u v \<Longrightarrow> rx_search r (u @ t @ v)"
  unfolding rx_search_iff using rx_match_context by (metis add_le_mono le_add1 length_append nat_add_left_cancel_le order_trans)

lemma screen_rules_applies: "rule \<in> set rules \<Longrightarrow> rule_applies s rule \<Longrightarrow> \<exists>c. screen_rules rules s = OutOfScope c"
  by (induction rules) auto

text \<open>
  Surrounding text cannot dodge the scope filter: a phrase that trips a rule without an exception still makes
  the whole message out of scope when any other words stand before and after it, and only the weapons rule has an
  exception.
\<close>

theorem screen_context:
  assumes "rule \<in> set RULES" and "rule_unless rule = None" and "rule_applies t rule"
    and "normalize fold_unicode text = u @ t @ v" and "word_free_ends u v"
  shows "\<exists>c. screen fold_unicode text = OutOfScope c"
proof -
  have "rule_applies (u @ t @ v) rule"
    using assms(2,3,5) by (auto simp: rule_applies_def list_all_iff intro: rx_search_context)
  then show ?thesis
    unfolding screen_def assms(4) using assms(1) by (rule screen_rules_applies [rotated])
qed
definition spy_rule :: Rule where
  "spy_rule = \<lparr>rule_category = CovertTracking, rule_all = [SPYING], rule_unless = None\<rparr>"

theorem screen_context_witness: "\<exists>c. screen id ''a toy to spy on the cat'' = OutOfScope c"
proof -
  have "rule_applies ''spy on'' spy_rule" by code_simp
  moreover have "normalize id ''a toy to spy on the cat'' = ''a toy to '' @ ''spy on'' @ '' the cat''" by code_simp
  moreover have "word_free_ends ''a toy to '' '' the cat''" by code_simp
  ultimately show ?thesis
    by (intro screen_context [of spy_rule]) (simp_all add: RULES_def spy_rule_def)
qed

end
