(* ===== verification/Llm.thy ===== *)
theory Llm
  imports Plan_Schema
begin

text \<open>
  The model-call package \<open>packages/llm\<close>: pricing and metering, the request, the structured call with its retries
  (\<open>call.ts\<close>), the tool loop (\<open>tools.ts\<close>) and the insertion of call records. The provider, the schema parser, the hash and the
  database are parameters; each loop also returns a trace of what it did, in order, for the theorems.
\<close>

subsection \<open>Requests and responses\<close>

datatype Effort = EffLow | EffMedium | EffHigh | EffXhigh | EffMax

record LlmRoute =
  route_name :: string
  route_stage :: string
  route_system :: string
  route_cachedContext :: "string option"
  route_effort :: Effort
  route_maxTokens :: nat
  route_retryMaxTokens :: nat

datatype StopReason = EndTurn | StopSequence | ToolUseStop | MaxTokensStop | RefusalStop | ContextExceeded | PauseTurn

datatype Block = TextBlock string | ThinkingBlock string | ToolUse string string jvalue | OtherBlock

record TokenCounts =
  input_tokens :: nat
  output_tokens :: nat
  cache_read_input_tokens :: "nat option"
  cache_creation_input_tokens :: "nat option"
  cache_creation :: "(nat \<times> nat) option"

text \<open>An iteration of a server-side fallback: its kind, its model when it has one, and its own counts.\<close>

record Iteration =
  it_compaction :: bool
  it_model :: "string option"
  it_counts :: TokenCounts

record LlmUsage =
  us_counts :: TokenCounts
  us_iterations :: "Iteration list option"

record LlmResponse =
  resp_model :: string
  resp_stop_reason :: "StopReason option"
  resp_content :: "Block list"
  resp_usage :: LlmUsage

datatype MessageRole = RoleUser | RoleAssistant | RoleSystem

text \<open>A tool result: the id it answers, whether it is an error, and its JSON, absent when there is none to write.\<close>

record ToolResult =
  tr_id :: string
  tr_is_error :: bool
  tr_content :: "string option"

datatype Content = TextContent string | BlockContent "Block list" | ResultContent "ToolResult list"

record LlmMessage =
  msg_role :: MessageRole
  msg_content :: Content

record SystemBlock =
  sb_text :: string
  sb_cached :: bool

record LlmRequest =
  rq_model :: string
  rq_max_tokens :: nat
  rq_betas :: "string list"
  rq_fallbacks :: string
  rq_thinking :: string
  rq_effort :: Effort
  rq_format :: "jvalue option"
  rq_system :: "SystemBlock list"
  rq_tools :: "jvalue list option"
  rq_messages :: "LlmMessage list"

definition FALLBACK_BETA :: string where
  "FALLBACK_BETA = ''server-side-fallback-2026-07-01''"

text \<open>One cache breakpoint, on the last block of the stable prefix.\<close>

definition systemBlocks :: "LlmRoute \<Rightarrow> SystemBlock list" where
  "systemBlocks route =
     (let texts = (case route_cachedContext route of None \<Rightarrow> [route_system route] | Some c \<Rightarrow> [route_system route, c])
      in map (\<lambda>i. \<lparr>sb_text = texts ! i, sb_cached = (i = length texts - 1)\<rparr>) [0..<length texts])"

definition prefixHash :: "(string \<Rightarrow> string) \<Rightarrow> LlmRoute \<Rightarrow> string" where
  "prefixHash sha256_hex route =
     take 16 (sha256_hex (route_system route @ [CHR 0x00] @ (case route_cachedContext route of None \<Rightarrow> [] | Some c \<Rightarrow> c)))"

text \<open>The schema sent as \<open>output_config.format\<close> comes from the SDK's helper and is a parameter.\<close>

definition buildRequest :: "LlmRoute \<Rightarrow> string \<Rightarrow> nat \<Rightarrow> jvalue \<Rightarrow> LlmMessage list \<Rightarrow> LlmRequest" where
  "buildRequest route model maxTokens format messages =
     \<lparr>rq_model = model, rq_max_tokens = maxTokens, rq_betas = [FALLBACK_BETA], rq_fallbacks = ''default'',
      rq_thinking = ''adaptive'', rq_effort = route_effort route, rq_format = Some format,
      rq_system = systemBlocks route, rq_tools = None, rq_messages = messages\<rparr>"

subsection \<open>Pricing\<close>

record ModelPrice =
  pr_input :: jsnum
  pr_cacheWrite5m :: jsnum
  pr_cacheWrite1h :: jsnum
  pr_cacheRead :: jsnum
  pr_output :: jsnum

text \<open>A decimal literal of the source, as the double it denotes.\<close>

definition lit :: "rat \<Rightarrow> jsnum" where
  "lit q = rnd q"

abbreviation mk_price :: "rat \<Rightarrow> rat \<Rightarrow> rat \<Rightarrow> rat \<Rightarrow> rat \<Rightarrow> ModelPrice" where
  "mk_price i w5 w1 r o' \<equiv>
     \<lparr>pr_input = lit i, pr_cacheWrite5m = lit w5, pr_cacheWrite1h = lit w1, pr_cacheRead = lit r, pr_output = lit o'\<rparr>"

definition PRICES_USD_PER_MTOK :: "(string \<times> ModelPrice) list" where
  "PRICES_USD_PER_MTOK =
     [(''claude-fable-5-1'', mk_price 10 (25/2) 20 (1/4) 50),
      (''claude-opus-5'', mk_price 5 (25/4) 10 (1/2) 25),
      (''claude-opus-4-8'', mk_price 5 (25/4) 10 (1/2) 25),
      (''claude-sonnet-5'', mk_price 2 (5/2) 4 (2/10) 10),
      (''claude-haiku-4-5-20251001'', mk_price 1 (5/4) 2 (1/10) 5),
      (''claude-haiku-4-5'', mk_price 1 (5/4) 2 (1/10) 5)]"

definition price_max :: "ModelPrice \<Rightarrow> ModelPrice \<Rightarrow> ModelPrice" where
  "price_max m p =
     \<lparr>pr_input = jmax (pr_input m) (pr_input p), pr_cacheWrite5m = jmax (pr_cacheWrite5m m) (pr_cacheWrite5m p),
      pr_cacheWrite1h = jmax (pr_cacheWrite1h m) (pr_cacheWrite1h p), pr_cacheRead = jmax (pr_cacheRead m) (pr_cacheRead p),
      pr_output = jmax (pr_output m) (pr_output p)\<rparr>"

definition UNKNOWN_MODEL_PRICE :: ModelPrice where
  "UNKNOWN_MODEL_PRICE =
     (let prices = map snd PRICES_USD_PER_MTOK in foldl price_max (hd prices) (tl prices))"

definition priceFor :: "string \<Rightarrow> ModelPrice \<times> bool" where
  "priceFor model =
     (case map_of PRICES_USD_PER_MTOK model of Some p \<Rightarrow> (p, True) | None \<Rightarrow> (UNKNOWN_MODEL_PRICE, False))"

definition or_zero :: "nat option \<Rightarrow> nat" where
  "or_zero x = (case x of None \<Rightarrow> 0 | Some n \<Rightarrow> n)"

definition costOf :: "TokenCounts \<Rightarrow> ModelPrice \<Rightarrow> jsnum" where
  "costOf counts price =
     (let created = or_zero (cache_creation_input_tokens counts);
          write1h = (case cache_creation counts of Some (m5, h1) \<Rightarrow> h1 | None \<Rightarrow> 0);
          write5m = (case cache_creation counts of Some (m5, h1) \<Rightarrow> m5 | None \<Rightarrow> created)
      in jdiv (jadd (jadd (jadd (jadd (jmul (jnat (input_tokens counts)) (pr_input price))
                 (jmul (jnat write5m) (pr_cacheWrite5m price)))
                 (jmul (jnat write1h) (pr_cacheWrite1h price)))
                 (jmul (jnat (or_zero (cache_read_input_tokens counts))) (pr_cacheRead price)))
                 (jmul (jnat (output_tokens counts)) (pr_output price))) (Fin 1000000))"

text \<open>\<open>Math.round\<close>: half rounds up.\<close>

fun js_round :: "jsnum \<Rightarrow> jsnum" where
  "js_round (Fin a) = Fin (of_int \<lfloor>a + 1 / 2\<rfloor>)"
| "js_round n = n"

definition round6 :: "jsnum \<Rightarrow> jsnum" where
  "round6 usd = jdiv (js_round (jmul usd (Fin 1000000))) (Fin 1000000)"

definition pricedIterations :: "LlmUsage \<Rightarrow> (string \<times> TokenCounts) list" where
  "pricedIterations usage =
     concat (map (\<lambda>it. case it_model it of Some m \<Rightarrow> (if it_compaction it then [] else [(m, it_counts it)]) | None \<Rightarrow> [])
       (case us_iterations usage of None \<Rightarrow> [] | Some xs \<Rightarrow> xs))"

definition pricedModels :: "LlmUsage \<Rightarrow> string \<Rightarrow> string list" where
  "pricedModels usage servedModel =
     (let its = pricedIterations usage in if its \<noteq> [] then map fst its else [servedModel])"

definition costUsd :: "LlmUsage \<Rightarrow> string \<Rightarrow> jsnum" where
  "costUsd usage servedModel =
     (let its = pricedIterations usage in
      if its \<noteq> [] then round6 (foldl (\<lambda>sum e. jadd sum (costOf (snd e) (fst (priceFor (fst e))))) (Fin 0) its)
      else round6 (costOf (us_counts usage) (fst (priceFor servedModel))))"

subsection \<open>Metering\<close>

record CallAttribution =
  at_buildId :: "string option"
  at_tenantId :: "string option"
  at_anonOwnerHash :: "string option"

record LlmCallRecord =
  rec_stage :: string
  rec_model :: string
  rec_costUsd :: jsnum
  rec_inputTokens :: nat
  rec_outputTokens :: nat
  rec_cacheReadInputTokens :: nat
  rec_cacheCreationInputTokens :: nat
  rec_stopReason :: "StopReason option"
  rec_buildId :: "string option"
  rec_tenantId :: "string option"
  rec_anonOwnerHash :: "string option"
  rec_prefixHash :: "string option"

definition toRecord :: "string \<Rightarrow> string option \<Rightarrow> LlmResponse \<Rightarrow> CallAttribution \<Rightarrow> LlmCallRecord" where
  "toRecord stage prefix_hash response attribution =
     (let counts = us_counts (resp_usage response) in
      \<lparr>rec_stage = stage, rec_model = resp_model response, rec_costUsd = costUsd (resp_usage response) (resp_model response),
       rec_inputTokens = input_tokens counts, rec_outputTokens = output_tokens counts,
       rec_cacheReadInputTokens = or_zero (cache_read_input_tokens counts),
       rec_cacheCreationInputTokens = or_zero (cache_creation_input_tokens counts),
       rec_stopReason = resp_stop_reason response, rec_buildId = at_buildId attribution,
       rec_tenantId = at_tenantId attribution, rec_anonOwnerHash = at_anonOwnerHash attribution,
       rec_prefixHash = prefix_hash\<rparr>)"

text \<open>\<open>builds\<close> and \<open>llm_calls\<close> as the inserter and the ceiling see them: the owner of a build, and the rows.\<close>

record CallsDb =
  db_owner :: "(string \<times> (string option \<times> string option)) list"
  db_calls :: "LlmCallRecord list"

definition insertCall :: "LlmCallRecord \<Rightarrow> CallsDb \<Rightarrow> CallsDb" where
  "insertCall r db =
     (let (tenant, anon) = (case rec_buildId r of
          None \<Rightarrow> (rec_tenantId r, rec_anonOwnerHash r)
        | Some b \<Rightarrow> (case map_of (db_owner db) b of None \<Rightarrow> (rec_tenantId r, rec_anonOwnerHash r) | Some owner \<Rightarrow> owner))
      in db\<lparr>db_calls := db_calls db @ [r\<lparr>rec_tenantId := tenant, rec_anonOwnerHash := anon\<rparr>]\<rparr>)"

definition record_tokens :: "LlmCallRecord \<Rightarrow> nat" where
  "record_tokens r =
     rec_inputTokens r + rec_outputTokens r + rec_cacheReadInputTokens r + rec_cacheCreationInputTokens r"

definition buildTokensUsed :: "CallsDb \<Rightarrow> string \<Rightarrow> nat" where
  "buildTokensUsed db b = sum_list (map record_tokens (filter (\<lambda>r. rec_buildId r = Some b) (db_calls db)))"

end
