(* ===== verification/Llm_Call.thy ===== *)
theory Llm_Call
  imports Llm
begin

text \<open>
  The structured model call, \<open>packages/llm/src/call.ts\<close>. The world \<open>'w\<close> and the operations on it
  (abort signal, token ceiling, provider, meter, pause) are parameters. One turn of the loop is
  \<open>call_step\<close>; \<open>callStructured\<close> repeats it, which ends because every repeated turn spends a call or a reconnect.
\<close>

datatype CallFailure = Refusal | MaxTokens | InvalidOutput | TokenCeiling | Deadline | ProviderError

datatype DiagnosticReason = InvalidJson | SchemaMismatch | ProviderReason | Aborted

record CallDiagnostic =
  dg_reason :: DiagnosticReason
  dg_paths :: "string list option"
  dg_codes :: "string list option"
  dg_errorName :: "string option"
  dg_status :: "nat option"
  dg_requestId :: "string option"
  dg_causeCode :: "string option"
  dg_attempts :: "nat option"

datatype 'a CallResult = CallOk 'a nat | CallFailed CallFailure nat "CallDiagnostic option"

definition MAX_CALLS :: nat where
  "MAX_CALLS = 3"

definition CONNECTION_BACKOFF_MS :: "nat list" where
  "CONNECTION_BACKOFF_MS = [1000, 3000, 6000]"

definition MAX_REPAIR_DETAIL :: nat where
  "MAX_REPAIR_DETAIL = 1500"

definition MAX_DIAGNOSTIC_PATHS :: nat where
  "MAX_DIAGNOSTIC_PATHS = 10"

definition responseText :: "LlmResponse \<Rightarrow> string" where
  "responseText r = concat (map (\<lambda>b. case b of TextBlock t \<Rightarrow> t | _ \<Rightarrow> []) (resp_content r))"

text \<open>A schema issue: its path, message and code.\<close>

type_synonym schema_issue = "string list \<times> string \<times> string"

datatype 'a Validation = Valid 'a | Invalid string CallDiagnostic

definition plain_diagnostic :: "DiagnosticReason \<Rightarrow> CallDiagnostic" where
  "plain_diagnostic r =
     \<lparr>dg_reason = r, dg_paths = None, dg_codes = None, dg_errorName = None, dg_status = None, dg_requestId = None,
      dg_causeCode = None, dg_attempts = None\<rparr>"

definition issue_path :: "schema_issue \<Rightarrow> string" where
  "issue_path i = (let p = js_join ''.'' (fst i) in if p = [] then ''(root)'' else p)"

definition validate ::
    "(string \<Rightarrow> string + jvalue) \<Rightarrow> (jvalue \<Rightarrow> schema_issue list + 'a) \<Rightarrow> string \<Rightarrow> 'a Validation" where
  "validate json_parse schema text =
     (case json_parse text of
        Inl message \<Rightarrow> Invalid (''Not valid JSON: '' @ message) (plain_diagnostic InvalidJson)
      | Inr json \<Rightarrow>
          (case schema json of
             Inr value \<Rightarrow> Valid value
           | Inl issues \<Rightarrow>
               Invalid (''Schema mismatch: '' @ js_join ''; '' (map (\<lambda>i. issue_path i @ '': '' @ fst (snd i)) issues))
                 ((plain_diagnostic SchemaMismatch)\<lparr>
                    dg_paths := Some (take MAX_DIAGNOSTIC_PATHS (js_unique (map issue_path issues))),
                    dg_codes := Some (js_unique (map (snd \<circ> snd) issues))\<rparr>)))"

definition repairTurn :: "string \<Rightarrow> string \<Rightarrow> LlmMessage list" where
  "repairTurn text detail =
     [\<lparr>msg_role = RoleAssistant, msg_content = TextContent (if js_trim text = [] then ''{}'' else text)\<rparr>,
      \<lparr>msg_role = RoleUser, msg_content = TextContent (''That output was rejected. '' @ take MAX_REPAIR_DETAIL detail
        @ ''\<newline>Return the whole corrected JSON object, matching the schema exactly.'')\<rparr>]"

text \<open>What a thrown value carries: class names, HTTP status, request id and the codes along its cause chain.\<close>

record Fault =
  flt_is_error :: bool
  flt_name :: string
  flt_constructor :: "string option"
  flt_status :: "nat option"
  flt_requestId :: "string option"
  flt_codes :: "string option list"

definition errorClass :: "Fault \<Rightarrow> string option" where
  "errorClass f =
     (if \<not> flt_is_error f then None
      else if flt_name f = ''Error'' then Some (case flt_constructor f of Some c \<Rightarrow> c | None \<Rightarrow> flt_name f)
      else Some (flt_name f))"

definition isAbort :: "bool \<Rightarrow> Fault \<Rightarrow> bool" where
  "isAbort aborted f \<longleftrightarrow> aborted \<or> errorClass f = Some ''APIUserAbortError''"

definition causeCode :: "Fault \<Rightarrow> string option" where
  "causeCode f =
     (if flt_is_error f then (case List.map_filter id (take 5 (flt_codes f)) of [] \<Rightarrow> None | c # _ \<Rightarrow> Some c) else None)"

definition providerDiagnostic :: "Fault \<Rightarrow> bool \<Rightarrow> CallDiagnostic" where
  "providerDiagnostic f aborted =
     (plain_diagnostic (if aborted then Aborted else ProviderReason))\<lparr>
       dg_errorName := errorClass f, dg_status := flt_status f, dg_requestId := flt_requestId f,
       dg_causeCode := causeCode f\<rparr>"

text \<open>What \<open>callStructured\<close> is given: the output format of its schema, and its options as operations on the world.\<close>

record 'w CallOps =
  op_format :: jvalue
  op_aborted :: "'w \<Rightarrow> bool"
  op_ceiling :: "(nat \<times> ('w \<Rightarrow> (js_error + nat) \<times> 'w)) option"
  op_create :: "LlmRequest \<Rightarrow> 'w \<Rightarrow> (Fault + LlmResponse) \<times> 'w"
  op_record :: "LlmResponse \<Rightarrow> 'w \<Rightarrow> 'w"
  op_pause :: "nat \<Rightarrow> 'w \<Rightarrow> 'w"

record LoopState =
  ls_transcript :: "LlmMessage list"
  ls_maxTokens :: nat
  ls_truncationRetried :: bool
  ls_repaired :: bool
  ls_calls :: nat
  ls_attempts :: nat
  ls_reconnects :: nat

datatype CallEvent = Checked nat | Sent LlmRequest | Faulted Fault | Metered LlmResponse | Paused nat

datatype 'a Turn = Again LoopState | Stop "js_error + 'a CallResult"

text \<open>After a response: the meter, then the branches on \<open>stop_reason\<close>.\<close>

definition on_response ::
    "(string \<Rightarrow> 'a Validation) \<Rightarrow> LlmRoute \<Rightarrow> LlmMessage list \<Rightarrow> LoopState \<Rightarrow> LlmResponse \<Rightarrow> 'a Turn" where
  "on_response check route messages st r =
     (let calls = ls_calls st in
      if resp_stop_reason r = Some RefusalStop then Stop (Inr (CallFailed Refusal calls None))
      else if resp_stop_reason r = Some MaxTokensStop then
        (if ls_truncationRetried st then Stop (Inr (CallFailed MaxTokens calls None))
         else Again (st\<lparr>ls_truncationRetried := True, ls_maxTokens := max (ls_maxTokens st) (route_retryMaxTokens route)\<rparr>))
      else if resp_stop_reason r = Some ContextExceeded then Stop (Inr (CallFailed MaxTokens calls None))
      else case check (responseText r) of
             Valid value \<Rightarrow> Stop (Inr (CallOk value calls))
           | Invalid detail diagnostic \<Rightarrow>
               (if ls_repaired st then Stop (Inr (CallFailed InvalidOutput calls (Some diagnostic)))
                else Again (st\<lparr>ls_repaired := True, ls_transcript := messages @ repairTurn (responseText r) detail\<rparr>)))"

text \<open>After a thrown error: reconnect while nothing reached the API and a backoff is left.\<close>

definition on_fault :: "LoopState \<Rightarrow> bool \<Rightarrow> Fault \<Rightarrow> 'a Turn \<times> nat option" where
  "on_fault st aborted_now f =
     (let aborted = isAbort aborted_now f;
          diagnostic = (providerDiagnostic f aborted)\<lparr>dg_attempts := (if ls_attempts st > 1 then Some (ls_attempts st) else None)\<rparr>
      in if \<not> aborted \<and> dg_status diagnostic = None \<and> ls_reconnects st < length CONNECTION_BACKOFF_MS
         then (Again (st\<lparr>ls_reconnects := Suc (ls_reconnects st)\<rparr>), Some (CONNECTION_BACKOFF_MS ! ls_reconnects st))
         else (Stop (Inr (CallFailed (if aborted then Deadline else ProviderError) (ls_calls st) (Some diagnostic))), None))"

definition call_send ::
    "'w CallOps \<Rightarrow> (string \<Rightarrow> 'a Validation) \<Rightarrow> LlmRoute \<Rightarrow> string \<Rightarrow> LlmMessage list \<Rightarrow> LoopState \<Rightarrow> 'w \<Rightarrow>
     'a Turn \<times> 'w \<times> CallEvent list" where
  "call_send ops check route model messages st w =
     (let st1 = st\<lparr>ls_attempts := Suc (ls_attempts st)\<rparr>;
          request = buildRequest route model (ls_maxTokens st) (op_format ops) (ls_transcript st)
      in case op_create ops request w of
           (Inl f, w1) \<Rightarrow>
             (case on_fault st1 (op_aborted ops w1) f of
                (t, Some ms) \<Rightarrow> (t, op_pause ops ms w1, [Sent request, Faulted f, Paused ms])
              | (t, None) \<Rightarrow> (t, w1, [Sent request, Faulted f]))
         | (Inr r, w1) \<Rightarrow>
             (let st2 = st1\<lparr>ls_calls := Suc (ls_calls st1)\<rparr>
              in (on_response check route messages st2 r, op_record ops r w1, [Sent request, Metered r])))"

definition call_step ::
    "'w CallOps \<Rightarrow> (string \<Rightarrow> 'a Validation) \<Rightarrow> LlmRoute \<Rightarrow> string \<Rightarrow> LlmMessage list \<Rightarrow> LoopState \<Rightarrow> 'w \<Rightarrow>
     'a Turn \<times> 'w \<times> CallEvent list" where
  "call_step ops check route model messages st w =
     (if op_aborted ops w then (Stop (Inr (CallFailed Deadline (ls_calls st) None)), w, [])
      else case op_ceiling ops of
             None \<Rightarrow> call_send ops check route model messages st w
           | Some (limit, used) \<Rightarrow>
               (case used w of
                  (Inl e, w1) \<Rightarrow> (Stop (Inl e), w1, [])
                | (Inr n, w1) \<Rightarrow>
                    if n \<ge> limit then (Stop (Inr (CallFailed TokenCeiling (ls_calls st) None)), w1, [Checked n])
                    else (case call_send ops check route model messages st w1 of (t, w2, es) \<Rightarrow> (t, w2, Checked n # es))))"

definition budget_left :: "LoopState \<Rightarrow> nat" where
  "budget_left st = (MAX_CALLS - ls_calls st) + (length CONNECTION_BACKOFF_MS - ls_reconnects st)"

lemma on_response_Again:
  "on_response check route messages st r = Again st' \<Longrightarrow>
     ls_calls st' = ls_calls st \<and> ls_reconnects st' = ls_reconnects st \<and> ls_attempts st' = ls_attempts st"
  by (auto simp: on_response_def Let_def split: if_splits Validation.splits)

lemma call_send_Again:
  assumes "call_send ops check route model messages st w = (Again st', w', es)"
  shows "(ls_calls st' = Suc (ls_calls st) \<and> ls_reconnects st' = ls_reconnects st) \<or>
    (ls_calls st' = ls_calls st \<and> ls_reconnects st' = Suc (ls_reconnects st) \<and> ls_reconnects st < length CONNECTION_BACKOFF_MS)"
proof (cases "op_create ops (buildRequest route model (ls_maxTokens st) (op_format ops) (ls_transcript st)) w")
  case (Pair out w1)
  show ?thesis
  proof (cases out)
    case (Inl f)
    with assms Pair show ?thesis
      by (auto simp: call_send_def on_fault_def Let_def split: if_splits)
  next
    case (Inr r)
    with assms Pair on_response_Again show ?thesis by (fastforce simp: call_send_def Let_def)
  qed
qed

lemma call_step_Again:
  "call_step ops check route model messages st w = (Again st', w', es) \<Longrightarrow>
    (ls_calls st' = Suc (ls_calls st) \<and> ls_reconnects st' = ls_reconnects st) \<or>
    (ls_calls st' = ls_calls st \<and> ls_reconnects st' = Suc (ls_reconnects st) \<and> ls_reconnects st < length CONNECTION_BACKOFF_MS)"
  by (auto simp: call_step_def split: if_splits option.splits prod.splits sum.splits dest: call_send_Again)

function call_loop ::
    "'w CallOps \<Rightarrow> (string \<Rightarrow> 'a Validation) \<Rightarrow> LlmRoute \<Rightarrow> string \<Rightarrow> LlmMessage list \<Rightarrow> LoopState \<Rightarrow> 'w \<Rightarrow> CallEvent list \<Rightarrow>
     (js_error + 'a CallResult) \<times> 'w \<times> CallEvent list" where
  "call_loop ops check route model messages st w trace =
     (if ls_calls st \<ge> MAX_CALLS
      then (Inr (CallFailed (if ls_truncationRetried st then MaxTokens else InvalidOutput) (ls_calls st) None), w, trace)
      else case call_step ops check route model messages st w of
             (Stop r, w', es) \<Rightarrow> (r, w', trace @ es)
           | (Again st', w', es) \<Rightarrow> call_loop ops check route model messages st' w' (trace @ es))"
  by pat_completeness auto
termination
  by (relation "measure (\<lambda>(ops, check, route, model, messages, st, w, trace). budget_left st)")
     (auto simp: budget_left_def dest!: sym [of _ "call_step _ _ _ _ _ _ _"] call_step_Again)

declare call_loop.simps [simp del]

definition start_state :: "LlmRoute \<Rightarrow> LlmMessage list \<Rightarrow> LoopState" where
  "start_state route messages =
     \<lparr>ls_transcript = messages, ls_maxTokens = route_maxTokens route, ls_truncationRetried = False, ls_repaired = False,
      ls_calls = 0, ls_attempts = 0, ls_reconnects = 0\<rparr>"

definition callStructured ::
    "'w CallOps \<Rightarrow> (string \<Rightarrow> 'a Validation) \<Rightarrow> LlmRoute \<Rightarrow> string \<Rightarrow> LlmMessage list \<Rightarrow> 'w \<Rightarrow>
     (js_error + 'a CallResult) \<times> 'w \<times> CallEvent list" where
  "callStructured ops check route model messages w =
     call_loop ops check route model messages (start_state route messages) w []"

subsection \<open>What a trace shows\<close>

definition metered :: "CallEvent list \<Rightarrow> LlmResponse list" where
  "metered tr = List.map_filter (\<lambda>e. case e of Metered r \<Rightarrow> Some r | _ \<Rightarrow> None) tr"

definition sent :: "CallEvent list \<Rightarrow> LlmRequest list" where
  "sent tr = List.map_filter (\<lambda>e. case e of Sent r \<Rightarrow> Some r | _ \<Rightarrow> None) tr"

definition pauses :: "CallEvent list \<Rightarrow> nat list" where
  "pauses tr = List.map_filter (\<lambda>e. case e of Paused ms \<Rightarrow> Some ms | _ \<Rightarrow> None) tr"

lemma trace_append [simp]:
  "metered (xs @ ys) = metered xs @ metered ys" "sent (xs @ ys) = sent xs @ sent ys" "pauses (xs @ ys) = pauses xs @ pauses ys"
  by (simp_all add: metered_def sent_def pauses_def List.map_filter_def)

lemma trace_Cons [simp]:
  "metered [] = []" "sent [] = []" "pauses [] = []"
  "metered (e # es) = (case e of Metered r \<Rightarrow> r # metered es | _ \<Rightarrow> metered es)"
  "sent (e # es) = (case e of Sent r \<Rightarrow> r # sent es | _ \<Rightarrow> sent es)"
  "pauses (e # es) = (case e of Paused ms \<Rightarrow> ms # pauses es | _ \<Rightarrow> pauses es)"
  by (simp_all add: metered_def sent_def pauses_def List.map_filter_def split: CallEvent.splits)

text \<open>Every request follows a reading of the token count below the limit.\<close>

fun ceiling_kept :: "nat \<Rightarrow> CallEvent list \<Rightarrow> bool" where
  "ceiling_kept limit [] = True"
| "ceiling_kept limit (Checked n # Sent rq # es) = (n < limit \<and> ceiling_kept limit es)"
| "ceiling_kept limit (Sent rq # es) = False"
| "ceiling_kept limit (e # es) = ceiling_kept limit es"

lemma ceiling_kept_Checked: "ceiling_kept limit ys \<Longrightarrow> ceiling_kept limit (Checked n # ys)"
  by (cases ys; cases "hd ys") auto

lemma ceiling_kept_append: "ceiling_kept limit xs \<Longrightarrow> ceiling_kept limit ys \<Longrightarrow> ceiling_kept limit (xs @ ys)"
  by (induction limit xs rule: ceiling_kept.induct) (auto intro: ceiling_kept_Checked)

text \<open>A response that does not end the call: truncated, or an answer the schema refuses.\<close>

definition retryable :: "(string \<Rightarrow> 'a Validation) \<Rightarrow> LlmResponse \<Rightarrow> bool" where
  "retryable check r \<longleftrightarrow>
     resp_stop_reason r = Some MaxTokensStop \<or>
     (resp_stop_reason r \<notin> {Some RefusalStop, Some ContextExceeded} \<and> (\<exists>d g. check (responseText r) = Invalid d g))"

definition accepted :: "(string \<Rightarrow> 'a Validation) \<Rightarrow> LlmResponse \<Rightarrow> 'a \<Rightarrow> bool" where
  "accepted check r v \<longleftrightarrow>
     resp_stop_reason r \<notin> {Some RefusalStop, Some MaxTokensStop, Some ContextExceeded} \<and> check (responseText r) = Valid v"

text \<open>The requests a call may send: the caller's messages, or those and one repair turn, at one of two sizes.\<close>

definition allowed_request :: "LlmRoute \<Rightarrow> string \<Rightarrow> jvalue \<Rightarrow> LlmMessage list \<Rightarrow> LlmRequest \<Rightarrow> bool" where
  "allowed_request route model format messages rq \<longleftrightarrow>
     (\<exists>limit ms. limit \<in> {route_maxTokens route, max (route_maxTokens route) (route_retryMaxTokens route)} \<and>
        (ms = messages \<or> (\<exists>t d. ms = messages @ repairTurn t d)) \<and>
        rq = buildRequest route model limit format ms)"

fun call_calls :: "'a CallResult \<Rightarrow> nat" where
  "call_calls (CallOk v n) = n"
| "call_calls (CallFailed f n d) = n"

subsection \<open>The loop invariant\<close>

definition call_inv ::
    "(string \<Rightarrow> 'a Validation) \<Rightarrow> LlmRoute \<Rightarrow> string \<Rightarrow> jvalue \<Rightarrow> LlmMessage list \<Rightarrow> LoopState \<Rightarrow> CallEvent list \<Rightarrow> bool" where
  "call_inv check route model format messages st tr \<longleftrightarrow>
     ls_calls st = length (metered tr) \<and> ls_attempts st = length (sent tr) \<and>
     ls_attempts st = ls_calls st + ls_reconnects st \<and>
     ls_calls st = of_bool (ls_truncationRetried st) + of_bool (ls_repaired st) \<and>
     pauses tr = take (ls_reconnects st) CONNECTION_BACKOFF_MS \<and> ls_reconnects st \<le> length CONNECTION_BACKOFF_MS \<and>
     ls_maxTokens st = (if ls_truncationRetried st then max (route_maxTokens route) (route_retryMaxTokens route) else route_maxTokens route) \<and>
     (if ls_repaired st then (\<exists>t d. ls_transcript st = messages @ repairTurn t d) else ls_transcript st = messages) \<and>
     list_all (allowed_request route model format messages) (sent tr) \<and> list_all (retryable check) (metered tr)"

text \<open>The last event of a call, by its result.\<close>

fun ends_with :: "(string \<Rightarrow> 'a Validation) \<Rightarrow> 'w CallOps \<Rightarrow> js_error + 'a CallResult \<Rightarrow> CallEvent list \<Rightarrow> bool" where
  "ends_with check ops (Inl e) tr = (op_ceiling ops \<noteq> None)"
| "ends_with check ops (Inr (CallOk v n)) tr = (\<exists>pre r. tr = pre @ [Metered r] \<and> accepted check r v)"
| "ends_with check ops (Inr (CallFailed Refusal n d)) tr =
     (\<exists>pre r. tr = pre @ [Metered r] \<and> resp_stop_reason r = Some RefusalStop)"
| "ends_with check ops (Inr (CallFailed MaxTokens n d)) tr =
     (\<exists>pre r. tr = pre @ [Metered r] \<and> resp_stop_reason r \<in> {Some MaxTokensStop, Some ContextExceeded})"
| "ends_with check ops (Inr (CallFailed InvalidOutput n d)) tr =
     (\<exists>pre r detail g. tr = pre @ [Metered r] \<and> check (responseText r) = Invalid detail g \<and> d = Some g)"
| "ends_with check ops (Inr (CallFailed TokenCeiling n d)) tr =
     (\<exists>pre used limit f. tr = pre @ [Checked used] \<and> op_ceiling ops = Some (limit, f) \<and> limit \<le> used)"
| "ends_with check ops (Inr (CallFailed ProviderError n d)) tr = (\<exists>pre f. tr = pre @ [Faulted f])"
| "ends_with check ops (Inr (CallFailed Deadline n d)) tr = True"

definition call_post ::
    "(string \<Rightarrow> 'a Validation) \<Rightarrow> 'w CallOps \<Rightarrow> LlmRoute \<Rightarrow> string \<Rightarrow> LlmMessage list \<Rightarrow> js_error + 'a CallResult \<Rightarrow> CallEvent list \<Rightarrow> bool" where
  "call_post check ops route model messages out tr \<longleftrightarrow>
     length (metered tr) \<le> MAX_CALLS \<and> length (sent tr) \<le> MAX_CALLS + length CONNECTION_BACKOFF_MS \<and>
     pauses tr = take (length (pauses tr)) CONNECTION_BACKOFF_MS \<and>
     list_all (allowed_request route model (op_format ops) messages) (sent tr) \<and>
     list_all (retryable check) (butlast (metered tr)) \<and>
     (case out of Inl e \<Rightarrow> True | Inr res \<Rightarrow> call_calls res = length (metered tr)) \<and> ends_with check ops out tr"

lemma backoffs_length: "length CONNECTION_BACKOFF_MS = 3"
  by (simp add: CONNECTION_BACKOFF_MS_def)

lemma call_inv_checked:
  "call_inv check route model format messages st (tr @ [Checked n]) \<longleftrightarrow> call_inv check route model format messages st tr"
  by (simp add: call_inv_def)

lemma call_inv_request:
  "call_inv check route model format messages st tr \<Longrightarrow>
     allowed_request route model format messages (buildRequest route model (ls_maxTokens st) format (ls_transcript st))"
  by (auto simp: call_inv_def allowed_request_def split: if_splits)

lemma call_inv_counts:
  assumes "call_inv check route model format messages st tr"
  shows "length (metered tr) \<le> 2" "length (sent tr) \<le> 5" "ls_calls st < MAX_CALLS"
    "length (pauses tr) = ls_reconnects st" "pauses tr = take (ls_reconnects st) CONNECTION_BACKOFF_MS"
    "list_all (retryable check) (butlast (metered tr))"
proof -
  have "ls_calls st = of_bool (ls_truncationRetried st) + of_bool (ls_repaired st)" using assms by (simp add: call_inv_def)
  then have "ls_calls st \<le> 2" by (cases "ls_truncationRetried st"; cases "ls_repaired st") simp_all
  with assms show "length (metered tr) \<le> 2" "length (sent tr) \<le> 5" "ls_calls st < MAX_CALLS"
    "length (pauses tr) = ls_reconnects st" "pauses tr = take (ls_reconnects st) CONNECTION_BACKOFF_MS"
    "list_all (retryable check) (butlast (metered tr))"
    by (auto simp: call_inv_def backoffs_length MAX_CALLS_def list_all_iff dest: in_set_butlastD)
qed

text \<open>The branches after a response keep the invariant or end the call.\<close>

lemma on_response_inv:
  assumes inv: "call_inv check route model (op_format ops) messages st tr"
    and st2: "st2 = st\<lparr>ls_attempts := Suc (ls_attempts st), ls_calls := Suc (ls_calls st)\<rparr>"
    and tr2: "tr2 = tr @ [Sent (buildRequest route model (ls_maxTokens st) (op_format ops) (ls_transcript st)), Metered r]"
    and t: "on_response check route messages st2 r = t"
  shows "(case t of
     Again st' \<Rightarrow> call_inv check route model (op_format ops) messages st' tr2
   | Stop out \<Rightarrow> call_post check ops route model messages out tr2)"
proof (cases t)
  case (Again st')
  from t [unfolded this] consider
      (trunc) "resp_stop_reason r = Some MaxTokensStop" "\<not> ls_truncationRetried st"
        "st' = st2\<lparr>ls_truncationRetried := True, ls_maxTokens := max (ls_maxTokens st) (route_retryMaxTokens route)\<rparr>"
    | (repair) detail g where "resp_stop_reason r \<notin> {Some RefusalStop, Some MaxTokensStop, Some ContextExceeded}"
        "check (responseText r) = Invalid detail g" "\<not> ls_repaired st"
        "st' = st2\<lparr>ls_repaired := True, ls_transcript := messages @ repairTurn (responseText r) detail\<rparr>"
    by (auto simp: on_response_def st2 Let_def split: if_splits Validation.splits)
  then have "call_inv check route model (op_format ops) messages st' tr2"
  proof cases
    case trunc
    then show ?thesis using inv call_inv_request [OF inv] by (simp add: call_inv_def tr2 st2 retryable_def)
  next
    case repair
    then show ?thesis using inv call_inv_request [OF inv] by (auto simp: call_inv_def tr2 st2 retryable_def)
  qed
  then show ?thesis by (simp add: Again)
next
  case (Stop out)
  have counts: "length (metered tr2) = Suc (ls_calls st)" "length (metered tr2) \<le> MAX_CALLS"
      "length (sent tr2) \<le> MAX_CALLS + length CONNECTION_BACKOFF_MS" "pauses tr2 = take (length (pauses tr2)) CONNECTION_BACKOFF_MS"
      "list_all (allowed_request route model (op_format ops) messages) (sent tr2)" "list_all (retryable check) (butlast (metered tr2))"
    using inv call_inv_request [OF inv] call_inv_counts [OF inv]
    by (simp_all add: call_inv_def tr2 MAX_CALLS_def backoffs_length)
  from t [unfolded Stop] have "ends_with check ops out tr2 \<and> (case out of Inl e \<Rightarrow> True | Inr res \<Rightarrow> call_calls res = Suc (ls_calls st))"
    by (auto simp: on_response_def st2 tr2 Let_def accepted_def split: if_splits Validation.splits)
  with counts show ?thesis by (simp add: Stop call_post_def split: sum.splits)
qed

lemma on_fault_inv:
  fixes check :: "string \<Rightarrow> 'a Validation"
  assumes inv: "call_inv check route model (op_format ops) messages st tr"
    and st1: "st1 = st\<lparr>ls_attempts := Suc (ls_attempts st)\<rparr>"
    and tr2: "tr2 = tr @ [Sent (buildRequest route model (ls_maxTokens st) (op_format ops) (ls_transcript st)), Faulted f]"
  shows "(case on_fault st1 aborted f of
     (Again st', Some ms) \<Rightarrow> call_inv check route model (op_format ops) messages st' (tr2 @ [Paused ms])
   | (Stop out, None) \<Rightarrow> call_post check ops route model messages out tr2
   | _ \<Rightarrow> False)"
proof -
  note allowed = call_inv_request [OF inv]
  show ?thesis
  proof (cases "\<not> isAbort aborted f \<and> flt_status f = None \<and> ls_reconnects st < length CONNECTION_BACKOFF_MS")
    case True
    then show ?thesis using inv allowed
      by (simp add: on_fault_def Let_def st1 tr2 providerDiagnostic_def call_inv_def take_Suc_conv_app_nth)
  next
    case False
    then obtain fl d where stop: "(on_fault st1 aborted f :: 'a Turn \<times> nat option) = (Stop (Inr (CallFailed fl (ls_calls st) d)), None)"
        "fl \<in> {Deadline, ProviderError}"
      by (auto simp: on_fault_def Let_def st1 providerDiagnostic_def)
    then have "call_post check ops route model messages (Inr (CallFailed fl (ls_calls st) d)) tr2"
      using inv allowed call_inv_counts [OF inv]
      by (auto simp: call_post_def call_inv_def tr2 MAX_CALLS_def backoffs_length)
    then show ?thesis by (simp add: stop(1))
  qed
qed

lemma call_send_inv:
  assumes inv: "call_inv check route model (op_format ops) messages st tr"
    and send: "call_send ops check route model messages st w = (t, w', es)"
  shows "(case t of
     Again st' \<Rightarrow> call_inv check route model (op_format ops) messages st' (tr @ es)
   | Stop out \<Rightarrow> call_post check ops route model messages out (tr @ es))"
proof (cases "op_create ops (buildRequest route model (ls_maxTokens st) (op_format ops) (ls_transcript st)) w")
  case (Pair out w1)
  show ?thesis
  proof (cases out)
    case (Inl f)
    with send Pair on_fault_inv [OF inv refl refl, where aborted = "op_aborted ops w1" and f = f] show ?thesis
      by (auto simp: call_send_def Let_def split: prod.splits option.splits Turn.splits)
  next
    case (Inr r)
    with send Pair have "on_response check route messages
        (st\<lparr>ls_attempts := Suc (ls_attempts st), ls_calls := Suc (ls_calls st)\<rparr>) r = t"
      and es: "es = [Sent (buildRequest route model (ls_maxTokens st) (op_format ops) (ls_transcript st)), Metered r]"
      by (auto simp: call_send_def Let_def)
    from on_response_inv [OF inv refl refl this(1)] show ?thesis unfolding es .
  qed
qed

lemma call_step_inv:
  assumes inv: "call_inv check route model (op_format ops) messages st tr"
    and step: "call_step ops check route model messages st w = (t, w', es)"
  shows "(case t of
     Again st' \<Rightarrow> call_inv check route model (op_format ops) messages st' (tr @ es)
   | Stop out \<Rightarrow> call_post check ops route model messages out (tr @ es))"
proof -
  have quiet: "call_post check ops route model messages out (tr @ es')"
    if "metered es' = []" "sent es' = []" "pauses es' = []" "ends_with check ops out (tr @ es')"
      "case out of Inl e \<Rightarrow> True | Inr res \<Rightarrow> call_calls res = ls_calls st" for out es'
    using that inv call_inv_counts [OF inv] by (simp add: call_post_def call_inv_def MAX_CALLS_def backoffs_length split: sum.splits)
  show ?thesis
  proof (cases "op_aborted ops w")
    case True
    with step quiet [of "[]"] show ?thesis by (auto simp: call_step_def)
  next
    case live: False
    show ?thesis
    proof (cases "op_ceiling ops")
      case None
      with live step call_send_inv [OF inv] show ?thesis by (simp add: call_step_def)
    next
      case (Some c)
      obtain limit used where c: "c = (limit, used)" by (cases c)
      obtain n w1 where used: "used w = (n, w1)" by (cases "used w")
      note step' = step [unfolded call_step_def Some c] live used
      show ?thesis
      proof (cases n)
        case (Inl e)
        with step' quiet [of "[]" "Inl e"] Some show ?thesis by auto
      next
        case (Inr k)
        show ?thesis
        proof (cases "limit \<le> k")
          case True
          with step' Inr quiet [of "[Checked k]" "Inr (CallFailed TokenCeiling (ls_calls st) None)"] Some c
          show ?thesis by auto
        next
          case False
          with step' Inr obtain es' where es': "es = Checked k # es'"
              "call_send ops check route model messages st w1 = (t, w', es')" by (auto split: prod.splits)
          have "call_inv check route model (op_format ops) messages st (tr @ [Checked k])" using inv by (simp add: call_inv_checked)
          moreover have "tr @ es = (tr @ [Checked k]) @ es'" by (simp add: es'(1))
          ultimately show ?thesis using call_send_inv [OF _ es'(2)] by metis
        qed
      qed
    qed
  qed
qed

lemma call_loop_post:
  assumes "call_inv check route model (op_format ops) messages st tr"
    and "call_loop ops check route model messages st w tr = (out, w', tr')"
  shows "call_post check ops route model messages out tr'"
  using assms
proof (induction ops check route model messages st w tr rule: call_loop.induct)
  case (1 ops check route model messages st w tr)
  have more: "\<not> ls_calls st \<ge> MAX_CALLS" using call_inv_counts(3) [OF "1.prems"(1)] by simp
  obtain t w1 es where s: "call_step ops check route model messages st w = (t, w1, es)"
    by (cases "call_step ops check route model messages st w") auto
  note inv' = call_step_inv [OF "1.prems"(1) s]
  show ?case
  proof (cases t)
    case (Stop r)
    then show ?thesis using "1.prems"(2) inv' more by (simp add: call_loop.simps s)
  next
    case (Again st')
    then have "call_loop ops check route model messages st' w1 (tr @ es) = (out, w', tr')"
      using "1.prems"(2) more s by (simp add: call_loop.simps [of _ _ _ _ _ st])
    with "1.IH" [OF more s [symmetric] Again refl] inv' Again show ?thesis by simp
  qed
qed

lemma callStructured_post:
  "callStructured ops check route model messages w = (out, w', tr) \<Longrightarrow> call_post check ops route model messages out tr"
  unfolding callStructured_def
  by (rule call_loop_post) (auto simp: call_inv_def start_state_def)

lemma call_step_kept:
  assumes "op_ceiling ops = Some (limit, used)" and "call_step ops check route model messages st w = (t, w', es)"
  shows "ceiling_kept limit es"
proof (cases "op_aborted ops w")
  case False
  obtain n w1 where u: "used w = (n, w1)" by (cases "used w")
  show ?thesis
  proof (cases "\<exists>k. n = Inr k \<and> k < limit")
    case True
    then obtain k where "n = Inr k" "k < limit" by blast
    moreover obtain es' where es': "call_send ops check route model messages st w1 = (t, w', es')" "es = Checked k # es'"
      using assms False u \<open>n = Inr k\<close> \<open>k < limit\<close> by (auto simp: call_step_def split: prod.splits)
    ultimately show ?thesis by (auto simp: call_send_def Let_def split: prod.splits sum.splits option.splits)
  qed (use assms False u in \<open>auto simp: call_step_def split: sum.splits if_splits\<close>)
qed (use assms in \<open>auto simp: call_step_def\<close>)

lemma call_loop_kept:
  assumes "op_ceiling ops = Some (limit, used)" and "ceiling_kept limit tr"
    and "call_loop ops check route model messages st w tr = (out, w', tr')"
  shows "ceiling_kept limit tr'"
  using assms
proof (induction ops check route model messages st w tr rule: call_loop.induct)
  case (1 ops check route model messages st w tr)
  obtain t w1 es where s: "call_step ops check route model messages st w = (t, w1, es)"
    by (cases "call_step ops check route model messages st w") auto
  have kept: "ceiling_kept limit (tr @ es)"
    using call_step_kept [OF "1.prems"(1) s] "1.prems"(2) by (rule ceiling_kept_append [rotated])
  show ?case
  proof (cases "ls_calls st \<ge> MAX_CALLS")
    case False
    show ?thesis
    proof (cases t)
      case (Again st')
      with "1.prems"(3) False s have "call_loop ops check route model messages st' w1 (tr @ es) = (out, w', tr')"
        by (simp add: call_loop.simps [of _ _ _ _ _ st])
      with "1.IH" [OF False s [symmetric] Again refl] "1.prems"(1) kept show ?thesis by blast
    qed (use "1.prems"(3) False s kept in \<open>simp add: call_loop.simps\<close>)
  qed (use "1.prems" in \<open>simp add: call_loop.simps\<close>)
qed

subsection \<open>Properties of the structured call\<close>

text \<open>
  A scripted provider for the witnesses: the first attempt loses its connection, then come a truncated answer, one that is
  not JSON, and an accepted one.
\<close>

definition script_response :: "StopReason \<Rightarrow> string \<Rightarrow> LlmResponse" where
  "script_response stop text =
     \<lparr>resp_model = ''claude-opus-5'', resp_stop_reason = Some stop, resp_content = [TextBlock text],
      resp_usage = \<lparr>us_counts = \<lparr>input_tokens = 100, output_tokens = 50, cache_read_input_tokens = None,
        cache_creation_input_tokens = None, cache_creation = None\<rparr>, us_iterations = None\<rparr>\<rparr>"

definition script_fault :: Fault where
  "script_fault = \<lparr>flt_is_error = True, flt_name = ''APIConnectionError'', flt_constructor = None, flt_status = None,
     flt_requestId = None, flt_codes = [None, Some ''ECONNRESET'']\<rparr>"

definition script_ops :: "(Fault + LlmResponse) list CallOps" where
  "script_ops = \<lparr>op_format = JNull, op_aborted = (\<lambda>_. False), op_ceiling = Some (5, \<lambda>w. (Inr (4 - length w), w)),
     op_create = (\<lambda>_ w. (hd w, tl w)), op_record = (\<lambda>_ w. w), op_pause = (\<lambda>_ w. w)\<rparr>"

definition script_check :: "string \<Rightarrow> nat Validation" where
  "script_check text = (if text = ''ok'' then Valid 7 else Invalid ''Not valid JSON'' (plain_diagnostic InvalidJson))"

definition script_route :: LlmRoute where
  "script_route = \<lparr>route_name = ''r'', route_stage = ''s'', route_system = ''p'', route_cachedContext = None,
     route_effort = EffLow, route_maxTokens = 10, route_retryMaxTokens = 20\<rparr>"

definition script_world :: "(Fault + LlmResponse) list" where
  "script_world = [Inl script_fault, Inr (script_response MaxTokensStop ''o''), Inr (script_response EndTurn ''no''),
     Inr (script_response EndTurn ''ok'')]"

abbreviation script_call :: "(js_error + nat CallResult) \<times> (Fault + LlmResponse) list \<times> CallEvent list" where
  "script_call \<equiv> callStructured script_ops script_check script_route ''m'' [] script_world"

lemma script_call_ok: "fst script_call = Inr (CallOk 7 3)"
  by code_simp

text \<open>
  C26. A structured call is bounded and accounts for what it spends, whatever the provider does: at most three
  responses, each metered and counted in the result, at most six requests, and pauses that are a prefix of the
  backoff schedule.
\<close>

theorem callStructured_bounded:
  assumes "callStructured ops check route model messages w = (Inr res, w', tr)"
  shows "length (metered tr) \<le> 3 \<and> call_calls res = length (metered tr) \<and> length (sent tr) \<le> 6 \<and>
    (\<exists>k. pauses tr = take k [1000, 3000, 6000])"
  using callStructured_post [OF assms] unfolding call_post_def
  by (auto simp: MAX_CALLS_def CONNECTION_BACKOFF_MS_def)

theorem callStructured_bounded_witness:
  "\<exists>w' tr. script_call = (Inr (CallOk 7 3), w', tr) \<and> length (metered tr) = 3 \<and> length (sent tr) \<le> 6"
proof -
  obtain w' tr where run: "script_call = (Inr (CallOk 7 3), w', tr)" using script_call_ok by (cases script_call) auto
  from callStructured_bounded [OF this] run show ?thesis by auto
qed

text \<open>
  What a structured call sends is the caller's conversation and nothing else: every request is the route's request
  on the given messages, or on those followed by one repair turn, with the route's token limit or the larger retry
  limit; and every response before the last one was truncated or refused by the schema.
\<close>

theorem callStructured_requests:
  assumes "callStructured ops check route model messages w = (out, w', tr)"
  shows "(\<forall>rq \<in> set (sent tr). allowed_request route model (op_format ops) messages rq) \<and>
    (\<forall>r \<in> set (butlast (metered tr)). retryable check r)"
  using callStructured_post [OF assms] unfolding call_post_def list_all_iff by blast

theorem callStructured_requests_witness:
  "\<exists>rq \<in> set (sent (snd (snd script_call))). allowed_request script_route ''m'' JNull [] rq"
proof -
  obtain out w' tr where run: "script_call = (out, w', tr)" by (cases script_call) auto
  have "sent (snd (snd script_call)) \<noteq> []" by code_simp
  then have "hd (sent tr) \<in> set (sent tr)" by (simp add: run)
  moreover have "allowed_request script_route ''m'' JNull [] (hd (sent tr))"
    using callStructured_requests [OF run] calculation by (auto simp: script_ops_def)
  ultimately show ?thesis by (auto simp: run)
qed

text \<open>
  The token ceiling is read before every request: with a ceiling configured, a request goes out only straight after
  a reading below the limit, so a call whose build has used its tokens sends nothing more.
\<close>

theorem callStructured_ceiling:
  assumes "op_ceiling ops = Some (limit, used)" and "callStructured ops check route model messages w = (out, w', tr)"
  shows "ceiling_kept limit tr"
  using call_loop_kept [OF assms(1) _ assms(2) [unfolded callStructured_def]] by simp

theorem callStructured_ceiling_witness: "ceiling_kept 5 (snd (snd script_call)) \<and> sent (snd (snd script_call)) \<noteq> []"
proof -
  obtain out w' tr where run: "script_call = (out, w', tr)" by (cases script_call) auto
  have "sent (snd (snd script_call)) \<noteq> []" by code_simp
  with callStructured_ceiling [OF _ run, of 5 "\<lambda>w. (Inr (4 - length w), w)"] run show ?thesis by (simp add: script_ops_def)
qed

text \<open>
  The result of a structured call is what its last event was: a value only if the schema accepted the last, metered
  response; a refusal, a truncation or invalid output by that response; a provider error by the last thrown error;
  the token ceiling by a reading at or above the limit. Only reading the ceiling can throw.
\<close>

theorem callStructured_outcome:
  assumes "callStructured ops check route model messages w = (out, w', tr)"
  shows "ends_with check ops out tr"
  using callStructured_post [OF assms] unfolding call_post_def by blast

theorem callStructured_outcome_witness: "\<exists>r. last (snd (snd script_call)) = Metered r \<and> accepted script_check r 7"
proof -
  obtain w' tr where run: "script_call = (Inr (CallOk 7 3), w', tr)" using script_call_ok by (cases script_call) auto
  from callStructured_outcome [OF this] run show ?thesis by auto
qed

end
