(* ===== verification/Intake_Turn.thy ===== *)
theory Intake_Turn
  imports Intake_Policy Llm_Call Catalogue
begin

text \<open>
  One intake turn without the database, \<open>apps/intake/src/turn.ts\<close>, with the prompt templates of \<open>prompts.ts\<close> and the
  catalogue snapshot and cache of \<open>catalogue.ts\<close>. The world \<open>'w\<close> holds the provider, the meter, the ceiling and the
  catalogue; a turn is the scope filter, the catalogue, the structured call and the decision, in that order.
\<close>

subsection \<open>Prompt templates\<close>

definition EXTRACT_ROUTE_NAME :: string where
  "EXTRACT_ROUTE_NAME = ''intake.extract.v2''"

record Prompts =
  pr_extract :: string
  pr_turn :: string

text \<open>A placeholder at the head of a text: its key, and what follows it.\<close>

definition placeholder :: "string \<Rightarrow> (string \<times> string) option" where
  "placeholder s =
     (if take 2 s = [CHR 0x7B, CHR 0x7B] then
        (let key = takeWhile word_char (drop 2 s); rest = dropWhile word_char (drop 2 s)
         in if key \<noteq> [] \<and> take 2 rest = [CHR 0x7D, CHR 0x7D] then Some (key, drop 2 rest) else None)
      else None)"

lemma placeholder_shorter: "placeholder s = Some (key, rest) \<Longrightarrow> length rest < length s"
proof -
  assume p: "placeholder s = Some (key, rest)"
  then have "take 2 s \<noteq> []" "rest = drop 2 (dropWhile word_char (drop 2 s))"
    by (auto simp: placeholder_def Let_def split: if_splits)
  then show ?thesis using length_dropWhile_le [of word_char "drop 2 s"] by (cases s) auto
qed

text \<open>\<open>replace(/\{\{(\w+)\}\}/g, \<dots>)\<close>: a placeholder without a value throws.\<close>

function renderTemplate :: "string \<Rightarrow> (string \<times> string) list \<Rightarrow> js_error + string" where
  "renderTemplate template values =
     (case placeholder template of
        Some (key, rest) \<Rightarrow>
          (case map_of values key of
             None \<Rightarrow> Inl (Thrown (''prompt placeholder '' @ [CHR 0x7B, CHR 0x7B] @ key @ [CHR 0x7D, CHR 0x7D] @ '' has no value''))
           | Some v \<Rightarrow> (case renderTemplate rest values of Inl e \<Rightarrow> Inl e | Inr t \<Rightarrow> Inr (v @ t)))
      | None \<Rightarrow>
          (case template of
             [] \<Rightarrow> Inr []
           | c # cs \<Rightarrow> (case renderTemplate cs values of Inl e \<Rightarrow> Inl e | Inr t \<Rightarrow> Inr (c # t))))"
  by pat_completeness auto
termination
  by (relation "measure (\<lambda>(template, values). length template)") (auto simp: placeholder_shorter)

declare renderTemplate.simps [simp del]

subsection \<open>The specification as JSON\<close>

fun source_text :: "SpecPowerSource \<Rightarrow> string" where
  "source_text FromBattery = ''battery''"
| "source_text FromSolar = ''solar''"
| "source_text FromUsb = ''usb''"
| "source_text PowerUnknown = ''unknown''"

fun spec_transport_text :: "Transport \<Rightarrow> string" where
  "spec_transport_text Wifi = ''wifi''"
| "spec_transport_text Ble = ''ble''"
| "spec_transport_text Lora = ''lora''"
| "spec_transport_text NoTransport = ''none''"

definition jopt :: "('a \<Rightarrow> jvalue) \<Rightarrow> 'a option \<Rightarrow> jvalue" where
  "jopt f x = (case x of None \<Rightarrow> JUndefined | Some v \<Rightarrow> f v)"

definition jstrs :: "string list \<Rightarrow> jvalue" where
  "jstrs xs = JArr (map JStr xs)"

definition question_json :: "OpenQuestion \<Rightarrow> jvalue" where
  "question_json q =
     JObj [(''field'', JStr (q_field q)), (''question'', JStr (q_question q)), (''options'', jopt jstrs (q_options q))]"

definition spec_json :: "Spec \<Rightarrow> jvalue" where
  "spec_json s = JObj
     [(''sense'', JObj [(''what'', jstrs (se_what (sp_sense s))), (''accuracy'', jopt JStr (se_accuracy (sp_sense s))),
        (''interval_s'', jopt JNum (se_interval_s (sp_sense s)))]),
      (''act'', jopt (\<lambda>w. JObj [(''what'', jstrs w)]) (sp_act s)),
      (''environment'', JObj [(''location'', JStr (env_location (sp_environment s))), (''flags'', jstrs (env_flags (sp_environment s)))]),
      (''connect'', JObj [(''transport'', JStr (spec_transport_text (co_transport (sp_connect s)))),
        (''experience'', jstrs (co_experience (sp_connect s)))]),
      (''power'', JObj [(''source'', JStr (source_text (pw_source (sp_power s)))),
        (''target_life_days'', jopt JNum (pw_target_life_days (sp_power s)))]),
      (''experience'', JObj [(''alerts'', jopt jstrs (ex_alerts (sp_experience s))),
        (''dashboard'', jopt JBool (ex_dashboard (sp_experience s)))]),
      (''capabilities'', jstrs (sp_capabilities s)), (''assumptions'', jstrs (sp_assumptions s)),
      (''open_questions'', JArr (map question_json (sp_open_questions s))), (''settled'', JBool (sp_settled s))]"

subsection \<open>The catalogue snapshot and its cache\<close>

record CatalogueSnapshot =
  cs_text :: string
  cs_vocabulary :: Vocabulary
  cs_partCount :: nat

definition snapshotFrom :: "PartDefinition list \<Rightarrow> PartStatus list \<Rightarrow> CatalogueSnapshot" where
  "snapshotFrom parts statuses =
     (let catalogue = buildCatalogue statuses parts in
      \<lparr>cs_text = renderCatalogue catalogue,
       cs_vocabulary = \<lparr>voc_capabilities = map cc_capability (cat_capabilities catalogue),
                        voc_flags = cat_environment_flags catalogue\<rparr>,
       cs_partCount = length (cat_parts catalogue)\<rparr>)"

definition catalogueStatuses :: "bool \<Rightarrow> PartStatus list" where
  "catalogueStatuses includeDrafts = (if includeDrafts then [Active, Draft] else [Active])"

text \<open>
  \<open>createCatalogueCache(\<dots>).get\<close> with no load in flight: the clock is read on entry and again when the parts have
  arrived. A failing source leaves the cache as it was.
\<close>

type_synonym cache = "(CatalogueSnapshot \<times> int) option"

definition cache_get ::
    "bool \<Rightarrow> int \<Rightarrow> int \<Rightarrow> int \<Rightarrow> (PartStatus list \<Rightarrow> js_error + PartDefinition list) \<Rightarrow> cache \<Rightarrow> (js_error + CatalogueSnapshot) \<times> cache" where
  "cache_get includeDrafts ttlMs now loaded_at source cached =
     (let statuses = catalogueStatuses includeDrafts;
          load = (case source statuses of
                    Inl e \<Rightarrow> (Inl e, cached)
                  | Inr parts \<Rightarrow> (let s = snapshotFrom parts statuses in (Inr s, Some (s, loaded_at))))
      in case cached of
           Some (snapshot, loaded) \<Rightarrow> if now - loaded < ttlMs then (Inr snapshot, cached) else load
         | None \<Rightarrow> load)"

subsection \<open>runTurn\<close>

record TranscriptMessage =
  tm_role :: MessageRole
  tm_text :: string

datatype ReplyReason = OutOfScopeReason | OffTopicReason | FailureReason CallFailure | ErrorReason

datatype TurnOutcome = SpecOutcome Decision | ReplyOutcome ReplyReason string "ScopeCategory option"

definition EXTRACT_MAX_TOKENS :: nat where
  "EXTRACT_MAX_TOKENS = 8000"

definition EXTRACT_RETRY_MAX_TOKENS :: nat where
  "EXTRACT_RETRY_MAX_TOKENS = 16000"

definition extractRoute :: "Prompts \<Rightarrow> string \<Rightarrow> Effort \<Rightarrow> LlmRoute" where
  "extractRoute prompts catalogueText effort =
     \<lparr>route_name = EXTRACT_ROUTE_NAME, route_stage = ''intake'', route_system = pr_extract prompts,
      route_cachedContext = Some catalogueText, route_effort = effort,
      route_maxTokens = EXTRACT_MAX_TOKENS, route_retryMaxTokens = EXTRACT_RETRY_MAX_TOKENS\<rparr>"

definition turn_values :: "Spec option \<Rightarrow> nat \<Rightarrow> (string \<times> string) list" where
  "turn_values previous roundsUsed =
     (let left = MAX_CLARIFICATION_ROUNDS - roundsUsed;
          settled = (case previous of None \<Rightarrow> False | Some s \<Rightarrow> sp_settled s)
      in [(''rounds_used'', nat_str (min roundsUsed MAX_CLARIFICATION_ROUNDS)),
          (''max_rounds'', nat_str MAX_CLARIFICATION_ROUNDS),
          (''round_rule'', if settled \<or> left = 0
             then ''No rounds are left: ask no questions, and settle with stated assumptions.''
             else ''You may ask questions this turn if an answer would change the parts.''),
          (''spec_json'', json_pretty [] (case previous of None \<Rightarrow> JNull | Some s \<Rightarrow> spec_json s))])"

definition renderTurnContext :: "string \<Rightarrow> Spec option \<Rightarrow> nat \<Rightarrow> js_error + string" where
  "renderTurnContext template previous roundsUsed = renderTemplate template (turn_values previous roundsUsed)"

definition modelMessages :: "TranscriptMessage list \<Rightarrow> string \<Rightarrow> LlmMessage list" where
  "modelMessages transcript turnContext =
     map (\<lambda>m. \<lparr>msg_role = tm_role m, msg_content = TextContent (tm_text m)\<rparr>)
       (if list_ex (\<lambda>m. tm_role m = RoleUser) transcript
        then dropWhile (\<lambda>m. tm_role m \<noteq> RoleUser) transcript else transcript)
     @ [\<lparr>msg_role = RoleSystem, msg_content = TextContent turnContext\<rparr>]"

definition wasOffTopic :: "TranscriptMessage list \<Rightarrow> bool" where
  "wasOffTopic transcript =
     (case filter (\<lambda>m. tm_role m = RoleAssistant) transcript of
        [] \<Rightarrow> False
      | ms \<Rightarrow> tm_text (last ms) = offTopicReply False \<or> tm_text (last ms) = offTopicReply True)"

fun FAILURE_REPLY :: "CallFailure \<Rightarrow> string" where
  "FAILURE_REPLY Refusal = REFUSAL_REPLY"
| "FAILURE_REPLY TokenCeiling = TOKEN_CEILING_REPLY"
| "FAILURE_REPLY MaxTokens = FALLBACK_REPLY"
| "FAILURE_REPLY InvalidOutput = FALLBACK_REPLY"
| "FAILURE_REPLY Deadline = FALLBACK_REPLY"
| "FAILURE_REPLY ProviderError = FALLBACK_REPLY"

record 'w TurnContext =
  tc_provider :: "LlmRequest \<Rightarrow> 'w \<Rightarrow> (Fault + LlmResponse) \<times> 'w"
  tc_model :: string
  tc_effort :: Effort
  tc_meter :: "LlmResponse \<Rightarrow> 'w \<Rightarrow> 'w"
  tc_catalogue :: "'w \<Rightarrow> (js_error + CatalogueSnapshot) \<times> 'w"
  tc_prompts :: Prompts
  tc_tokenCeiling :: nat
  tc_tokensUsed :: "'w \<Rightarrow> (js_error + nat) \<times> 'w"
  tc_aborted :: "'w \<Rightarrow> bool"
  tc_pause :: "nat \<Rightarrow> 'w \<Rightarrow> 'w"
  tc_fold :: "string \<Rightarrow> string"
  tc_format :: jvalue
  tc_check :: "string \<Rightarrow> SpecTurn Validation"

definition turn_ops :: "'w TurnContext \<Rightarrow> 'w CallOps" where
  "turn_ops ctx =
     \<lparr>op_format = tc_format ctx, op_aborted = tc_aborted ctx, op_ceiling = Some (tc_tokenCeiling ctx, tc_tokensUsed ctx),
      op_create = tc_provider ctx, op_record = tc_meter ctx, op_pause = tc_pause ctx\<rparr>"

text \<open>What the answer of the model call makes of the turn.\<close>

definition turn_result ::
    "TranscriptMessage list \<Rightarrow> Spec option \<Rightarrow> nat \<Rightarrow> Vocabulary \<Rightarrow> SpecTurn CallResult \<Rightarrow> js_error + TurnOutcome" where
  "turn_result transcript previous roundsUsed vocabulary result =
     (case result of
        CallFailed failure calls diagnostic \<Rightarrow> Inr (ReplyOutcome (FailureReason failure) (FAILURE_REPLY failure) None)
      | CallOk turn calls \<Rightarrow>
          if reply_kind turn = ReplyOffTopic
          then Inr (ReplyOutcome OffTopicReason (offTopicReply (wasOffTopic transcript)) None)
          else (case decide previous turn vocabulary roundsUsed of Inl e \<Rightarrow> Inl e | Inr d \<Rightarrow> Inr (SpecOutcome d)))"

definition runTurn ::
    "'w TurnContext \<Rightarrow> TranscriptMessage list \<Rightarrow> Spec option \<Rightarrow> nat \<Rightarrow> 'w \<Rightarrow> (js_error + TurnOutcome) \<times> 'w \<times> CallEvent list" where
  "runTurn ctx transcript previous roundsUsed w =
     (if transcript = [] \<or> tm_role (last transcript) \<noteq> RoleUser
      then (Inl (Thrown ''runTurn needs a transcript ending in a user message''), w, [])
      else case screen (tc_fold ctx) (tm_text (last transcript)) of
             OutOfScope cat \<Rightarrow>
               (Inr (ReplyOutcome OutOfScopeReason (outOfScopeReply cat) (Some cat)), w, [])
           | Allow \<Rightarrow>
               (case tc_catalogue ctx w of
                  (Inl e, w1) \<Rightarrow> (Inl e, w1, [])
                | (Inr catalogue, w1) \<Rightarrow>
                    (case renderTurnContext (pr_turn (tc_prompts ctx)) previous roundsUsed of
                       Inl e \<Rightarrow> (Inl e, w1, [])
                     | Inr context_text \<Rightarrow>
                         (let route = extractRoute (tc_prompts ctx) (cs_text catalogue) (tc_effort ctx);
                              messages = modelMessages transcript context_text
                          in case callStructured (turn_ops ctx) (tc_check ctx) route (tc_model ctx) messages w1 of
                               (Inl e, w2, tr) \<Rightarrow> (Inl e, w2, tr)
                             | (Inr result, w2, tr) \<Rightarrow>
                                 (turn_result transcript previous roundsUsed (cs_vocabulary catalogue) result, w2, tr)))))"

subsection \<open>Properties of a turn\<close>

lemma runTurn_cases:
  assumes "runTurn ctx transcript previous rounds w = (out, w', tr)"
  obtains (bad) "transcript = [] \<or> tm_role (last transcript) \<noteq> RoleUser" "\<exists>e. out = Inl e" "w' = w" "tr = []"
  | (scope) cat where "screen (tc_fold ctx) (tm_text (last transcript)) = OutOfScope cat"
      "out = Inr (ReplyOutcome OutOfScopeReason (outOfScopeReply cat) (Some cat))" "w' = w" "tr = []"
  | (early) "\<exists>e. out = Inl e" "tr = []"
  | (called) snap w1 context_text res where
      "screen (tc_fold ctx) (tm_text (last transcript)) = Allow" "tc_catalogue ctx w = (Inr snap, w1)"
      "renderTurnContext (pr_turn (tc_prompts ctx)) previous rounds = Inr context_text"
      "callStructured (turn_ops ctx) (tc_check ctx) (extractRoute (tc_prompts ctx) (cs_text snap) (tc_effort ctx)) (tc_model ctx)
         (modelMessages transcript context_text) w1 = (res, w', tr)"
      "out = (case res of Inl e \<Rightarrow> Inl e | Inr r \<Rightarrow> turn_result transcript previous rounds (cs_vocabulary snap) r)"
  using assms unfolding runTurn_def Let_def
  by (auto split: if_splits ScopeDecision.splits prod.splits sum.splits)

lemma turn_result_cases:
  assumes "turn_result transcript previous rounds vocabulary res = Inr out"
  obtains (failed) f n d where "res = CallFailed f n d" "out = ReplyOutcome (FailureReason f) (FAILURE_REPLY f) None"
  | (off_topic) "out = ReplyOutcome OffTopicReason (offTopicReply (wasOffTopic transcript)) None"
  | (decided) turn n d where "res = CallOk turn n" "reply_kind turn = ReplySpec"
      "decide previous turn vocabulary rounds = Inr d" "out = SpecOutcome d"
  using assms unfolding turn_result_def
  by (cases res; auto split: if_splits sum.splits intro: ReplyKind.exhaust)

text \<open>
  What a turn may say: a message out of scope is answered by its fixed text before the catalogue, the provider or
  the meter is touched; off-topic messages and failed calls get fixed texts; and a specification comes only from \<open>decide\<close> on a
  turn the schema accepted in the last, metered response, with the vocabulary of the catalogue just read.
\<close>

theorem runTurn_replies:
  assumes "runTurn ctx transcript previous rounds w = (Inr out, w', tr)"
  shows "case out of
     ReplyOutcome reason reply cat \<Rightarrow>
       (\<exists>c. reason = OutOfScopeReason \<and> screen (tc_fold ctx) (tm_text (last transcript)) = OutOfScope c \<and>
          reply = outOfScopeReply c \<and> tr = [] \<and> w' = w) \<or>
       (reason = OffTopicReason \<and> reply \<in> {offTopicReply False, offTopicReply True}) \<or>
       (\<exists>f. reason = FailureReason f \<and> reply = FAILURE_REPLY f)
   | SpecOutcome d \<Rightarrow>
       (\<exists>pre r turn snap w1. screen (tc_fold ctx) (tm_text (last transcript)) = Allow \<and> tc_catalogue ctx w = (Inr snap, w1) \<and>
          tr = pre @ [Metered r] \<and> accepted (tc_check ctx) r turn \<and> reply_kind turn = ReplySpec \<and>
          decide previous turn (cs_vocabulary snap) rounds = Inr d)"
  using assms
proof (cases rule: runTurn_cases)
  case (called snap w1 context_text res)
  then obtain r where r: "res = Inr r" "turn_result transcript previous rounds (cs_vocabulary snap) r = Inr out"
    by (auto split: sum.splits)
  note post = callStructured_post [OF called(4) [unfolded r(1)]]
  from r(2) show ?thesis
  proof (cases rule: turn_result_cases)
    case off_topic
    then show ?thesis by (cases "wasOffTopic transcript") simp_all
  next
    case (decided turn n d)
    with post obtain pre x where "tr = pre @ [Metered x]" "accepted (tc_check ctx) x turn"
      by (auto simp: call_post_def)
    with decided called(1,2) show ?thesis by auto
  qed simp
qed auto

definition desk_context :: "(Fault + LlmResponse) list TurnContext" where
  "desk_context =
     \<lparr>tc_provider = (\<lambda>_ w. (hd w, tl w)), tc_model = ''claude-opus-5'', tc_effort = EffLow, tc_meter = (\<lambda>_ w. w),
      tc_catalogue = (\<lambda>w. (Inr \<lparr>cs_text = ''catalogue'', cs_vocabulary = \<lparr>voc_capabilities = [''read.temperature_c''], voc_flags = []\<rparr>,
        cs_partCount = 1\<rparr>, w)),
      tc_prompts = \<lparr>pr_extract = ''Extract.'', pr_turn = ''Go.''\<rparr>,
      tc_tokenCeiling = 1000, tc_tokensUsed = (\<lambda>w. (Inr 0, w)), tc_aborted = (\<lambda>_. False), tc_pause = (\<lambda>_ w. w),
      tc_fold = id, tc_format = JNull,
      tc_check = (\<lambda>t. if t = ''ok'' then Valid settle_turn else Invalid ''Not valid JSON'' (plain_diagnostic InvalidJson))\<rparr>"

definition desk_transcript :: "TranscriptMessage list" where
  "desk_transcript = [\<lparr>tm_role = RoleUser, tm_text = ''hi''\<rparr>]"

definition desk_world :: "(Fault + LlmResponse) list" where
  "desk_world = [Inr (script_response EndTurn ''ok'')]"

abbreviation desk_turn :: "(js_error + TurnOutcome) \<times> (Fault + LlmResponse) list \<times> CallEvent list" where
  "desk_turn \<equiv> runTurn desk_context desk_transcript None 0 desk_world"

lemma desk_screen: "screen id ''hi'' = Allow"
  by code_simp

lemma desk_render: "renderTurnContext ''Go.'' None 0 = Inr ''Go.''"
  by code_simp

lemma desk_call:
  "\<exists>n w' tr. callStructured (turn_ops desk_context) (tc_check desk_context) route model messages desk_world =
     (Inr (CallOk settle_turn n), w', tr) \<and> sent tr \<noteq> []"
  by (simp add: callStructured_def start_state_def call_loop.simps MAX_CALLS_def call_step_def call_send_def turn_ops_def
      desk_context_def desk_world_def script_response_def on_response_def responseText_def)

lemma desk_decide: "case decide None settle_turn \<lparr>voc_capabilities = [''read.temperature_c''], voc_flags = []\<rparr> 0 of Inl e \<Rightarrow> False | Inr d \<Rightarrow> True"
  by code_simp

lemma desk_turn_ok:
  obtains d w' tr where "desk_turn = (Inr (SpecOutcome d), w', tr)" "sent tr \<noteq> []"
proof -
  obtain n w' tr where call: "callStructured (turn_ops desk_context) (tc_check desk_context)
      (extractRoute (tc_prompts desk_context) ''catalogue'' EffLow) ''claude-opus-5'' (modelMessages desk_transcript ''Go.'') desk_world =
      (Inr (CallOk settle_turn n), w', tr)" "sent tr \<noteq> []"
    using desk_call by blast
  obtain d where d: "decide None settle_turn \<lparr>voc_capabilities = [''read.temperature_c''], voc_flags = []\<rparr> 0 = Inr d"
    using desk_decide by (auto split: sum.splits)
  have fields: "tc_fold desk_context = id" "tc_model desk_context = ''claude-opus-5''" "tc_effort desk_context = EffLow"
      "pr_turn (tc_prompts desk_context) = ''Go.''" "tc_catalogue desk_context desk_world = (Inr \<lparr>cs_text = ''catalogue'',
        cs_vocabulary = \<lparr>voc_capabilities = [''read.temperature_c''], voc_flags = []\<rparr>, cs_partCount = 1\<rparr>, desk_world)"
      "last desk_transcript = \<lparr>tm_role = RoleUser, tm_text = ''hi''\<rparr>" "desk_transcript \<noteq> []"
    by (simp_all add: desk_context_def desk_transcript_def)
  have "reply_kind settle_turn = ReplySpec" by (simp add: settle_turn_def)
  with call(1) d have "desk_turn = (Inr (SpecOutcome d), w', tr)"
    by (simp add: runTurn_def fields desk_screen desk_render turn_result_def)
  with call(2) that show ?thesis by blast
qed

theorem runTurn_replies_witness:
  "\<exists>d turn. fst desk_turn = Inr (SpecOutcome d) \<and>
     decide None turn \<lparr>voc_capabilities = [''read.temperature_c''], voc_flags = []\<rparr> 0 = Inr d"
proof -
  obtain d w' tr where run: "desk_turn = (Inr (SpecOutcome d), w', tr)" by (rule desk_turn_ok)
  from runTurn_replies [OF run] obtain turn snap w1 where "tc_catalogue desk_context desk_world = (Inr snap, w1)"
      "decide None turn (cs_vocabulary snap) 0 = Inr d" by auto
  moreover have "fst (tc_catalogue desk_context desk_world) = Inr \<lparr>cs_text = ''catalogue'',
      cs_vocabulary = \<lparr>voc_capabilities = [''read.temperature_c''], voc_flags = []\<rparr>, cs_partCount = 1\<rparr>"
    by (simp add: desk_context_def)
  ultimately show ?thesis using run by auto
qed

lemma repair_roles: "filter (\<lambda>m. msg_role m = RoleSystem) (repairTurn t d) = []"
    "length (filter (\<lambda>m. msg_role m = RoleUser) (repairTurn t d)) = 1"
  by (simp_all add: repairTurn_def)

lemma modelMessages_roles:
  assumes "\<forall>m \<in> set transcript. tm_role m \<in> {RoleUser, RoleAssistant}"
  shows "filter (\<lambda>m. msg_role m = RoleSystem) (modelMessages transcript c) = [\<lparr>msg_role = RoleSystem, msg_content = TextContent c\<rparr>]"
    and "map msg_content (filter (\<lambda>m. msg_role m = RoleUser) (modelMessages transcript c)) =
      map (TextContent \<circ> tm_text) (filter (\<lambda>m. tm_role m = RoleUser) transcript)"
proof -
  have drop: "filter (\<lambda>m. tm_role m = RoleUser) (dropWhile (\<lambda>m. tm_role m \<noteq> RoleUser) xs) = filter (\<lambda>m. tm_role m = RoleUser) xs" for xs
    by (induction xs) auto
  have "filter (\<lambda>m. tm_role m = RoleSystem) transcript = []" using assms by (auto simp: filter_empty_conv)
  moreover have "filter (\<lambda>m. tm_role m = RoleSystem) (dropWhile (\<lambda>m. tm_role m \<noteq> RoleUser) transcript) = []"
    using assms by (fastforce simp: filter_empty_conv dest: set_dropWhileD)
  ultimately show "filter (\<lambda>m. msg_role m = RoleSystem) (modelMessages transcript c) = [\<lparr>msg_role = RoleSystem, msg_content = TextContent c\<rparr>]"
    by (simp add: modelMessages_def filter_map comp_def)
  show "map msg_content (filter (\<lambda>m. msg_role m = RoleUser) (modelMessages transcript c)) =
      map (TextContent \<circ> tm_text) (filter (\<lambda>m. tm_role m = RoleUser) transcript)"
    by (simp add: modelMessages_def filter_map comp_def drop)
qed

text \<open>
  Whose words go where: in every request of a turn the cached prefix is the prompt and the catalogue text, whatever the
  transcript; the only system message is the rendered turn context; the user messages are the person's, in order, with at most one
  repair instruction after them; and the token limit is one of the two constants.
\<close>

theorem runTurn_prompt:
  assumes "runTurn ctx transcript previous rounds w = (out, w', tr)" and "rq \<in> set (sent tr)"
    and "\<forall>m \<in> set transcript. tm_role m \<in> {RoleUser, RoleAssistant}"
  shows "\<exists>snap w1 c extra. tc_catalogue ctx w = (Inr snap, w1) \<and>
    renderTurnContext (pr_turn (tc_prompts ctx)) previous rounds = Inr c \<and>
    map sb_text (rq_system rq) = [pr_extract (tc_prompts ctx), cs_text snap] \<and> map sb_cached (rq_system rq) = [False, True] \<and>
    filter (\<lambda>m. msg_role m = RoleSystem) (rq_messages rq) = [\<lparr>msg_role = RoleSystem, msg_content = TextContent c\<rparr>] \<and>
    map msg_content (filter (\<lambda>m. msg_role m = RoleUser) (rq_messages rq)) =
      map (TextContent \<circ> tm_text) (filter (\<lambda>m. tm_role m = RoleUser) transcript) @ extra \<and>
    length extra \<le> 1 \<and> rq_max_tokens rq \<in> {8000, 16000}"
  using assms(1)
proof (cases rule: runTurn_cases)
  case (called snap w1 c res)
  from callStructured_post [OF called(4)] assms(2)
  have "allowed_request (extractRoute (tc_prompts ctx) (cs_text snap) (tc_effort ctx)) (tc_model ctx) (tc_format ctx)
      (modelMessages transcript c) rq"
    by (simp add: call_post_def list_all_iff turn_ops_def)
  then obtain limit ms where ms: "ms = modelMessages transcript c \<or> (\<exists>t d. ms = modelMessages transcript c @ repairTurn t d)"
    and limit: "limit \<in> {8000, 16000}"
    and rq: "rq = buildRequest (extractRoute (tc_prompts ctx) (cs_text snap) (tc_effort ctx)) (tc_model ctx) limit (tc_format ctx) ms"
    by (auto simp: allowed_request_def extractRoute_def EXTRACT_MAX_TOKENS_def EXTRACT_RETRY_MAX_TOKENS_def)
  have sys: "map sb_text (rq_system rq) = [pr_extract (tc_prompts ctx), cs_text snap]" "map sb_cached (rq_system rq) = [False, True]"
    by (simp_all add: rq buildRequest_def systemBlocks_def extractRoute_def)
  have one: "filter (\<lambda>m. msg_role m = RoleSystem) (rq_messages rq) = [\<lparr>msg_role = RoleSystem, msg_content = TextContent c\<rparr>]"
    using ms by (auto simp: rq buildRequest_def modelMessages_roles [OF assms(3)] repair_roles)
  obtain extra where extra: "map msg_content (filter (\<lambda>m. msg_role m = RoleUser) (rq_messages rq)) =
      map (TextContent \<circ> tm_text) (filter (\<lambda>m. tm_role m = RoleUser) transcript) @ extra" "length extra \<le> 1"
    using ms by (auto simp: rq buildRequest_def modelMessages_roles [OF assms(3)] repair_roles(2))
  have "rq_max_tokens rq \<in> {8000, 16000}" using limit by (simp add: rq buildRequest_def)
  with called(2,3) sys one extra show ?thesis by (intro exI conjI)
qed (use assms(2) in auto)

theorem runTurn_prompt_witness:
  "\<exists>rq. rq \<in> set (sent (snd (snd desk_turn))) \<and> map sb_text (rq_system rq) = [''Extract.'', ''catalogue'']"
proof -
  obtain d w' tr where run: "desk_turn = (Inr (SpecOutcome d), w', tr)" and "sent tr \<noteq> []" by (rule desk_turn_ok)
  then have rq: "hd (sent tr) \<in> set (sent tr)" by simp
  have "\<forall>m \<in> set desk_transcript. tm_role m \<in> {RoleUser, RoleAssistant}" by (simp add: desk_transcript_def)
  from runTurn_prompt [OF run rq this] have "map sb_text (rq_system (hd (sent tr))) = [''Extract.'', ''catalogue'']"
    by (auto simp: desk_context_def)
  with rq run show ?thesis by auto
qed

end
