(* ===== verification/Chat.thy ===== *)
theory Chat
  imports Spec_Schema
begin

text \<open>
  The gateway's chat store, \<open>apps/gateway/src/chat-store.ts\<close>: builds, their messages and specifications, as the tables the
  transactions see. Each operation is one transaction, so it is a function on the tables; the ids the database draws and its clock
  are arguments. Times are microseconds since the epoch. Postgres orders uuids as their lower-case text.
\<close>

subsection \<open>Tables and owners\<close>

datatype BuildStatus = StAsking | StSpecifying | StPlanning | StCoding | StBodying | StReady | StOrdered

fun status_name :: "BuildStatus \<Rightarrow> string" where
  "status_name StAsking = ''asking''"
| "status_name StSpecifying = ''specifying''"
| "status_name StPlanning = ''planning''"
| "status_name StCoding = ''coding''"
| "status_name StBodying = ''bodying''"
| "status_name StReady = ''ready''"
| "status_name StOrdered = ''ordered''"

datatype ChatRole = ChatUser | ChatAssistant

record BuildRow =
  bd_id :: string
  bd_tenantId :: "string option"
  bd_anonOwnerHash :: "string option"
  bd_status :: BuildStatus
  bd_askText :: string
  bd_createdAt :: nat
  bd_updatedAt :: nat

record MessageRow =
  bm_id :: string
  bm_buildId :: string
  bm_role :: ChatRole
  bm_text :: string
  bm_clientMessageId :: "string option"
  bm_createdAt :: nat

record SpecRow =
  sv_buildId :: string
  sv_version :: nat
  sv_data :: Spec
  sv_confidence :: jsnum
  sv_openQuestions :: "OpenQuestion list"

record ChatDb =
  cdb_builds :: "BuildRow list"
  cdb_messages :: "MessageRow list"
  cdb_specs :: "SpecRow list"

record Owner =
  ow_tenantId :: "string option"
  ow_anonHash :: "string option"

definition ownerKey :: "Owner \<Rightarrow> string" where
  "ownerKey owner =
     (case ow_tenantId owner of
        Some t \<Rightarrow> ''tenant:'' @ t
      | None \<Rightarrow> ''anon:'' @ (case ow_anonHash owner of None \<Rightarrow> [] | Some h \<Rightarrow> h))"

definition ownedBy :: "Owner \<Rightarrow> BuildRow \<Rightarrow> bool" where
  "ownedBy owner b \<longleftrightarrow>
     (\<exists>t. ow_tenantId owner = Some t \<and> bd_tenantId b = Some t) \<or>
     (\<exists>h. ow_anonHash owner = Some h \<and> bd_anonOwnerHash b = Some h \<and> bd_tenantId b = None)"

lemma ownedBy_code [code]:
  "ownedBy owner b \<longleftrightarrow>
     (ow_tenantId owner \<noteq> None \<and> bd_tenantId b = ow_tenantId owner) \<or>
     (ow_anonHash owner \<noteq> None \<and> bd_anonOwnerHash b = ow_anonHash owner \<and> bd_tenantId b = None)"
  by (auto simp: ownedBy_def)

subsection \<open>Cursors\<close>

record Cursor =
  cu_micros :: nat
  cu_id :: string

definition uuid_of :: "(char \<Rightarrow> bool) \<Rightarrow> rx" where
  "uuid_of h = Seq (Times 8 (Cls h)) (Seq (Chr (CHR ''-'')) (Seq (Times 4 (Cls h)) (Seq (Chr (CHR ''-''))
     (Seq (Times 4 (Cls h)) (Seq (Chr (CHR ''-'')) (Seq (Times 4 (Cls h)) (Seq (Chr (CHR ''-'')) (Times 12 (Cls h)))))))))"

definition hex_any :: "char \<Rightarrow> bool" where
  "hex_any c \<longleftrightarrow> digit c \<or> between (CHR ''a'') (CHR ''f'') c \<or> between (CHR ''A'') (CHR ''F'') c"

definition isUuid :: "string \<Rightarrow> bool" where
  "isUuid value = rx_full (uuid_of hex_any) value"

definition CURSOR_PATTERN :: rx where
  "CURSOR_PATTERN = Seq (Cls digit) (Seq (UpTo 18 (Cls digit)) (Seq (Chr (CHR ''.'')) (uuid_of hex_low)))"

definition parseCursor :: "string option \<Rightarrow> Cursor option" where
  "parseCursor value =
     (let s = js_trim (case value of None \<Rightarrow> [] | Some v \<Rightarrow> v)
      in if rx_full CURSOR_PATTERN s
         then Some \<lparr>cu_micros = digits_val (takeWhile (\<lambda>c. c \<noteq> CHR ''.'') s), cu_id = tl (dropWhile (\<lambda>c. c \<noteq> CHR ''.'') s)\<rparr>
         else None)"

definition compareCursors :: "Cursor \<Rightarrow> Cursor \<Rightarrow> int" where
  "compareCursors a b =
     (if cu_micros a \<noteq> cu_micros b then (if cu_micros a < cu_micros b then - 1 else 1)
      else if cu_id a < cu_id b then - 1 else if cu_id a > cu_id b then 1 else 0)"

text \<open>\<open>cursorSql\<close>: the position of a message, as the SSE event id.\<close>

definition message_cursor :: "MessageRow \<Rightarrow> string" where
  "message_cursor m = nat_str (bm_createdAt m) @ ''.'' @ bm_id m"

subsection \<open>Reads\<close>

text \<open>The order \<open>(created_at, id)\<close> of messages.\<close>

definition message_order :: "MessageRow \<Rightarrow> MessageRow \<Rightarrow> int" where
  "message_order a b = compare_lt (bm_createdAt a, bm_id a) (bm_createdAt b, bm_id b)"

definition messages_of :: "ChatDb \<Rightarrow> string \<Rightarrow> MessageRow list" where
  "messages_of db b = js_sort message_order (filter (\<lambda>m. bm_buildId m = b) (cdb_messages db))"

text \<open>\<open>ORDER BY created_at DESC, id DESC LIMIT 1\<close>.\<close>

definition latest_message :: "ChatDb \<Rightarrow> string \<Rightarrow> MessageRow option" where
  "latest_message db b = (case messages_of db b of [] \<Rightarrow> None | ms \<Rightarrow> Some (last ms))"

definition lastMessageOf :: "ChatDb \<Rightarrow> string \<Rightarrow> nat \<Rightarrow> nat \<Rightarrow> (MessageRow \<times> bool) option" where
  "lastMessageOf db b withinS now =
     map_option (\<lambda>m. (m, now < bm_createdAt m + 1000000 * withinS)) (latest_message db b)"

definition find_build :: "ChatDb \<Rightarrow> string \<Rightarrow> BuildRow option" where
  "find_build db i = List.find (\<lambda>b. bd_id b = i) (cdb_builds db)"

definition findOwnedBuild :: "ChatDb \<Rightarrow> string \<Rightarrow> Owner \<Rightarrow> BuildRow option" where
  "findOwnedBuild db i owner =
     (if isUuid i then List.find (\<lambda>b. bd_id b = i \<and> ownedBy owner b) (cdb_builds db) else None)"

definition findBuildByFirstMessage :: "ChatDb \<Rightarrow> Owner \<Rightarrow> string \<Rightarrow> BuildRow option" where
  "findBuildByFirstMessage db owner clientMessageId =
     (case js_sort (\<lambda>a b. compare_lt (bd_createdAt a) (bd_createdAt b))
             (filter (\<lambda>b. ownedBy owner b \<and> list_ex (\<lambda>m. bm_buildId m = bd_id b \<and> bm_clientMessageId m = Some clientMessageId \<and>
                bm_role m = ChatUser \<and> bm_text m = bd_askText b) (cdb_messages db)) (cdb_builds db)) of
        [] \<Rightarrow> None | b # _ \<Rightarrow> Some b)"

definition listBuilds :: "ChatDb \<Rightarrow> string \<Rightarrow> BuildRow list" where
  "listBuilds db tenant =
     js_sort (\<lambda>a b. compare_lt (bd_updatedAt b, bd_id b) (bd_updatedAt a, bd_id a)) (filter (\<lambda>b. bd_tenantId b = Some tenant) (cdb_builds db))"

definition latest_spec :: "ChatDb \<Rightarrow> string \<Rightarrow> SpecRow option" where
  "latest_spec db b =
     (case js_sort (\<lambda>x y. compare_lt (sv_version y) (sv_version x)) (filter (\<lambda>s. sv_buildId s = b) (cdb_specs db)) of
        [] \<Rightarrow> None | s # _ \<Rightarrow> Some s)"

definition buildState :: "ChatDb \<Rightarrow> string \<Rightarrow> Owner \<Rightarrow> (BuildStatus \<times> nat option) option" where
  "buildState db i owner =
     map_option (\<lambda>b. (bd_status b, map_option sv_version (latest_spec db (bd_id b))))
       (List.find (\<lambda>b. bd_id b = i \<and> ownedBy owner b) (cdb_builds db))"

definition listMessages :: "ChatDb \<Rightarrow> string \<Rightarrow> Owner \<Rightarrow> MessageRow list" where
  "listMessages db i owner = (if list_ex (\<lambda>b. bd_id b = i \<and> ownedBy owner b) (cdb_builds db) then messages_of db i else [])"

text \<open>\<open>after - lookback\<close> may lie before the epoch, so the comparison is on integers.\<close>

definition messagesSince :: "ChatDb \<Rightarrow> string \<Rightarrow> Owner \<Rightarrow> Cursor option \<Rightarrow> nat \<Rightarrow> MessageRow list" where
  "messagesSince db i owner after lookbackMs =
     filter (\<lambda>m. case after of None \<Rightarrow> True
                 | Some c \<Rightarrow> int (bm_createdAt m) > int (cu_micros c) - 1000 * int lookbackMs) (listMessages db i owner)"

text \<open>\<open>readEventBatch\<close>: the tenant of the session token is resolved in the same snapshot, and is an argument here.\<close>

definition readEventBatch ::
    "ChatDb \<Rightarrow> string \<Rightarrow> string option \<Rightarrow> string option \<Rightarrow> Cursor option \<Rightarrow> nat \<Rightarrow> ((BuildStatus \<times> nat option) \<times> MessageRow list) option" where
  "readEventBatch db i sessionTenant anonHash after lookbackMs =
     (let owner = \<lparr>ow_tenantId = sessionTenant, ow_anonHash = anonHash\<rparr>
      in if sessionTenant = None \<and> anonHash = None then None
         else map_option (\<lambda>state. (state, messagesSince db i owner after lookbackMs)) (buildState db i owner))"

subsection \<open>Writes\<close>

datatype CreateBuildResult = BuildCreated BuildRow MessageRow | BuildReplayed BuildRow

text \<open>\<open>admit\<close> refuses by throwing, which rolls the transaction back.\<close>

definition createBuild ::
    "Owner \<Rightarrow> string \<Rightarrow> string option \<Rightarrow> (bool \<Rightarrow> js_error option) \<Rightarrow> string \<Rightarrow> string \<Rightarrow> nat \<Rightarrow> ChatDb \<Rightarrow>
     (js_error + CreateBuildResult) \<times> ChatDb" where
  "createBuild owner askText clientMessageId admit newBuildId newMessageId now db =
     (case (case clientMessageId of None \<Rightarrow> None | Some c \<Rightarrow> findBuildByFirstMessage db owner c) of
        Some replayed \<Rightarrow> (Inr (BuildReplayed replayed), db)
      | None \<Rightarrow>
          (let isNewOwner = (ow_tenantId owner = None \<and>
                 \<not> list_ex (\<lambda>b. ow_anonHash owner \<noteq> None \<and> bd_anonOwnerHash b = ow_anonHash owner) (cdb_builds db))
           in case admit isNewOwner of
                Some e \<Rightarrow> (Inl e, db)
              | None \<Rightarrow>
                  (let build = \<lparr>bd_id = newBuildId, bd_tenantId = ow_tenantId owner,
                         bd_anonOwnerHash = (if ow_tenantId owner = None then ow_anonHash owner else None),
                         bd_status = StAsking, bd_askText = askText, bd_createdAt = now, bd_updatedAt = now\<rparr>;
                       message = \<lparr>bm_id = newMessageId, bm_buildId = newBuildId, bm_role = ChatUser, bm_text = askText,
                         bm_clientMessageId = clientMessageId, bm_createdAt = now\<rparr>
                   in (Inr (BuildCreated build message),
                       db\<lparr>cdb_builds := cdb_builds db @ [build], cdb_messages := cdb_messages db @ [message]\<rparr>))))"

datatype SubmitMessageResult = MessageCreated MessageRow | MessageReplayed MessageRow | MessagePending string | MessageNotFound

text \<open>\<open>greatest(clock_timestamp(), max(created_at) + 2 microseconds)\<close>.\<close>

definition next_time :: "ChatDb \<Rightarrow> string \<Rightarrow> nat \<Rightarrow> nat" where
  "next_time db b now =
     (case latest_message db b of None \<Rightarrow> now | Some m \<Rightarrow> max now (bm_createdAt m + 2))"

definition insert_user_message :: "string \<Rightarrow> string \<Rightarrow> string option \<Rightarrow> string \<Rightarrow> nat \<Rightarrow> ChatDb \<Rightarrow> MessageRow \<times> ChatDb" where
  "insert_user_message b text clientMessageId newMessageId now db =
     (let message = \<lparr>bm_id = newMessageId, bm_buildId = b, bm_role = ChatUser, bm_text = text,
            bm_clientMessageId = clientMessageId, bm_createdAt = next_time db b now\<rparr>
      in (message, db\<lparr>cdb_messages := cdb_messages db @ [message]\<rparr>))"

definition submitUserMessage ::
    "string \<Rightarrow> Owner \<Rightarrow> string \<Rightarrow> string \<Rightarrow> nat \<Rightarrow> js_error option \<Rightarrow> string \<Rightarrow> nat \<Rightarrow> ChatDb \<Rightarrow> (js_error + SubmitMessageResult) \<times> ChatDb" where
  "submitUserMessage b owner text clientMessageId pendingWithinS admit newMessageId now db =
     (if \<not> isUuid b \<or> \<not> list_ex (\<lambda>r. bd_id r = b \<and> ownedBy owner r) (cdb_builds db) then (Inr MessageNotFound, db)
      else case List.find (\<lambda>m. bm_buildId m = b \<and> bm_clientMessageId m = Some clientMessageId) (cdb_messages db) of
             Some replayed \<Rightarrow> (Inr (MessageReplayed replayed), db)
           | None \<Rightarrow>
               (case lastMessageOf db b pendingWithinS now of
                  Some (m, recent) \<Rightarrow>
                    if bm_role m = ChatUser \<and> recent then (Inr (MessagePending (bm_id m)), db)
                    else (case admit of
                            Some e \<Rightarrow> (Inl e, db)
                          | None \<Rightarrow> (case insert_user_message b text (Some clientMessageId) newMessageId now db of
                                       (message, db') \<Rightarrow> (Inr (MessageCreated message), db')))
                | None \<Rightarrow>
                    (case admit of
                       Some e \<Rightarrow> (Inl e, db)
                     | None \<Rightarrow> (case insert_user_message b text (Some clientMessageId) newMessageId now db of
                                  (message, db') \<Rightarrow> (Inr (MessageCreated message), db')))))"

subsection \<open>The latest message\<close>

abbreviation message_key :: "MessageRow \<Rightarrow> nat \<times> string" where
  "message_key m \<equiv> (bm_createdAt m, bm_id m)"

lemma set_messages_of [simp]: "set (messages_of db b) = {m \<in> set (cdb_messages db). bm_buildId m = b}"
  by (auto simp: messages_of_def)

lemma messages_of_sorted: "sorted_wrt (\<lambda>x y. message_key x \<le> message_key y) (messages_of db b)"
proof -
  have "sorted_by message_order (messages_of db b)"
    unfolding messages_of_def message_order_def
    by (rule comparator.sorted_js_sort [OF compare_lt_key_comparator]) simp
  then show ?thesis by (simp add: message_order_def)
qed

lemma latest_message_None [simp]: "latest_message db b = None \<longleftrightarrow> (\<forall>m \<in> set (cdb_messages db). bm_buildId m \<noteq> b)"
proof -
  have "messages_of db b = [] \<longleftrightarrow> (\<forall>m \<in> set (cdb_messages db). bm_buildId m \<noteq> b)"
    by (simp add: messages_of_def filter_empty_conv)
  then show ?thesis by (auto simp: latest_message_def split: list.splits)
qed

lemma latest_messageD:
  assumes "latest_message db b = Some m"
  shows "m \<in> set (cdb_messages db)" "bm_buildId m = b"
    "\<And>m'. m' \<in> set (cdb_messages db) \<Longrightarrow> bm_buildId m' = b \<Longrightarrow> message_key m' \<le> message_key m"
proof -
  from assms have ne: "messages_of db b \<noteq> []" and m: "m = last (messages_of db b)"
    by (auto simp: latest_message_def split: list.splits)
  have "m \<in> set (messages_of db b)" unfolding m using ne by (rule last_in_set)
  then show "m \<in> set (cdb_messages db)" "bm_buildId m = b" by simp_all
  fix m' assume "m' \<in> set (cdb_messages db)" "bm_buildId m' = b"
  then have "m' \<in> set (messages_of db b)" by simp
  then obtain xs ys where split: "messages_of db b = xs @ m' # ys" by (meson split_list)
  show "message_key m' \<le> message_key m"
    using messages_of_sorted [of db b] m by (cases ys rule: rev_cases) (auto simp: split sorted_wrt_append)
qed

lemma latest_messageI:
  assumes "m \<in> set (cdb_messages db)" "bm_buildId m = b"
    and "\<And>m'. m' \<in> set (cdb_messages db) \<Longrightarrow> bm_buildId m' = b \<Longrightarrow> m' \<noteq> m \<Longrightarrow> message_key m' < message_key m"
  shows "latest_message db b = Some m"
proof (cases "latest_message db b")
  case None
  with assms(1,2) show ?thesis by auto
next
  case (Some l)
  from latest_messageD [OF Some] assms show ?thesis by (metis Some leD)
qed

lemma next_time_after:
  assumes "m \<in> set (cdb_messages db)" "bm_buildId m = b"
  shows "bm_createdAt m + 2 \<le> next_time db b now"
proof (cases "latest_message db b")
  case None
  with assms show ?thesis by auto
next
  case (Some l)
  with latest_messageD(3) [OF Some assms] show ?thesis by (auto simp: next_time_def less_eq_prod_def)
qed

lemma insert_user_message_latest:
  assumes "insert_user_message b text c i now db = (m, db')"
  shows "latest_message db' b = Some m" "m \<notin> set (cdb_messages db)" "cdb_messages db' = cdb_messages db @ [m]"
    "cdb_builds db' = cdb_builds db" "bm_role m = ChatUser" "bm_clientMessageId m = c" "bm_buildId m = b"
    "\<And>m'. m' \<in> set (cdb_messages db) \<Longrightarrow> bm_buildId m' = b \<Longrightarrow> bm_createdAt m' + 2 \<le> bm_createdAt m"
proof -
  from assms show ins: "cdb_messages db' = cdb_messages db @ [m]" "cdb_builds db' = cdb_builds db"
    "bm_role m = ChatUser" "bm_clientMessageId m = c" and b: "bm_buildId m = b"
    by (auto simp: insert_user_message_def Let_def)
  show late: "bm_createdAt m' + 2 \<le> bm_createdAt m" if "m' \<in> set (cdb_messages db)" "bm_buildId m' = b" for m'
    using next_time_after [OF that, of now] assms by (auto simp: insert_user_message_def Let_def)
  then show "m \<notin> set (cdb_messages db)" using b by force
  show "latest_message db' b = Some m"
    using ins(1) b late by (intro latest_messageI) (force simp: less_prod_def)+
qed

lemma submit_created:
  assumes "submitUserMessage b owner text c within_s admit i now db = (Inr (MessageCreated m), db')"
  shows "insert_user_message b text (Some c) i now db = (m, db')"
    "isUuid b" "list_ex (\<lambda>r. bd_id r = b \<and> ownedBy owner r) (cdb_builds db)"
    "List.find (\<lambda>m. bm_buildId m = b \<and> bm_clientMessageId m = Some c) (cdb_messages db) = None"
    "\<And>l. latest_message db b = Some l \<Longrightarrow> bm_role l = ChatAssistant \<or> bm_createdAt l + 1000000 * within_s \<le> now"
  using assms
  by (auto simp: submitUserMessage_def lastMessageOf_def split: if_splits option.splits prod.splits)
     (metis ChatRole.exhaust not_le)

lemma find_snoc: "List.find P (xs @ [x]) = (case List.find P xs of None \<Rightarrow> if P x then Some x else None | Some y \<Rightarrow> Some y)"
  by (induction xs) auto

subsection \<open>Well-formed tables\<close>

text \<open>Keys are unique, messages belong to builds, every build has an owner: the constraints the tables declare.\<close>

definition chat_wf :: "ChatDb \<Rightarrow> bool" where
  "chat_wf db \<longleftrightarrow>
     distinct (map bd_id (cdb_builds db)) \<and> distinct (map bm_id (cdb_messages db)) \<and>
     (\<forall>m \<in> set (cdb_messages db). bm_buildId m \<in> bd_id ` set (cdb_builds db)) \<and>
     (\<forall>b \<in> set (cdb_builds db). bd_tenantId b \<noteq> None \<or> bd_anonOwnerHash b \<noteq> None)"

lemma createBuild_created:
  assumes "createBuild owner ask c admit nb nm now db = (Inr (BuildCreated b m), db')"
  shows "cdb_builds db' = cdb_builds db @ [b]" "cdb_messages db' = cdb_messages db @ [m]" "cdb_specs db' = cdb_specs db"
    "b = \<lparr>bd_id = nb, bd_tenantId = ow_tenantId owner, bd_anonOwnerHash = (if ow_tenantId owner = None then ow_anonHash owner else None),
       bd_status = StAsking, bd_askText = ask, bd_createdAt = now, bd_updatedAt = now\<rparr>"
    "m = \<lparr>bm_id = nm, bm_buildId = nb, bm_role = ChatUser, bm_text = ask, bm_clientMessageId = c, bm_createdAt = now\<rparr>"
    "\<And>x. c = Some x \<Longrightarrow> findBuildByFirstMessage db owner x = None"
  using assms by (auto simp: createBuild_def Let_def split: option.splits)

lemma find_by_first_None:
  "findBuildByFirstMessage db owner c = None \<longleftrightarrow>
     (\<forall>b \<in> set (cdb_builds db). ownedBy owner b \<longrightarrow>
        \<not> (\<exists>m \<in> set (cdb_messages db). bm_buildId m = bd_id b \<and> bm_clientMessageId m = Some c \<and> bm_role m = ChatUser \<and> bm_text m = bd_askText b))"
proof -
  have "(case js_sort f xs of [] \<Rightarrow> None | b # _ \<Rightarrow> Some b) = None \<longleftrightarrow> xs = []" for f and xs :: "BuildRow list"
    using js_sort_Nil_iff [of f xs] by (cases "js_sort f xs") auto
  then show ?thesis unfolding findBuildByFirstMessage_def by (auto simp: filter_empty_conv list_ex_iff)
qed

lemma createBuild_replay:
  assumes fresh: "nb \<notin> bd_id ` set (cdb_builds db)"
    and owner: "ow_tenantId owner \<noteq> None \<or> ow_anonHash owner \<noteq> None"
    and created: "createBuild owner ask (Some c) admit nb nm now db = (Inr (BuildCreated b m), db')"
  shows "findBuildByFirstMessage db' owner c = Some b"
proof -
  note new = createBuild_created [OF created]
  let ?first = "\<lambda>db x. ownedBy owner x \<and> list_ex (\<lambda>m. bm_buildId m = bd_id x \<and> bm_clientMessageId m = Some c \<and>
      bm_role m = ChatUser \<and> bm_text m = bd_askText x) (cdb_messages db)"
  have old: "\<not> ?first db' x" if "x \<in> set (cdb_builds db)" for x
    using that new(6) fresh by (auto simp: find_by_first_None list_ex_iff new(2,5))
  have "ownedBy owner b" using owner by (auto simp: new(4) ownedBy_def)
  then have "?first db' b" by (simp add: new(2,4,5))
  with old have "filter (?first db') (cdb_builds db') = [b]" by (simp add: new(1) filter_empty_conv)
  then show ?thesis unfolding findBuildByFirstMessage_def by simp
qed

text \<open>
  Creating a build is idempotent in the client's message id: once a request created a build, every later request of
  the same owner with that id, whatever its text, is answered with that build and writes nothing.
\<close>

theorem createBuild_idempotent:
  assumes "nb \<notin> bd_id ` set (cdb_builds db)"
    and "ow_tenantId owner \<noteq> None \<or> ow_anonHash owner \<noteq> None"
    and "createBuild owner ask (Some c) admit nb nm now db = (Inr (BuildCreated b m), db')"
  shows "createBuild owner ask' (Some c) admit' nb' nm' now' db' = (Inr (BuildReplayed b), db')"
  using createBuild_replay [OF assms] by (simp add: createBuild_def)

text \<open>
  A stored user message is the newest of its build and leaves room for the reply to the one before it: every earlier
  message is at least two microseconds older. It is stored only when the previous message was an answer or too old to be pending,
  and the same client id then returns it without writing.
\<close>

theorem submitUserMessage_order:
  assumes "submitUserMessage b owner text c within_s admit i now db = (Inr (MessageCreated m), db')"
  shows "latest_message db' b = Some m \<and>
    (\<forall>m' \<in> set (cdb_messages db). bm_buildId m' = b \<longrightarrow> bm_createdAt m' + 2 \<le> bm_createdAt m) \<and>
    (\<forall>l. latest_message db b = Some l \<longrightarrow> bm_role l = ChatAssistant \<or> bm_createdAt l + 1000000 * within_s \<le> now) \<and>
    submitUserMessage b owner text' c within_s' admit' i' now' db' = (Inr (MessageReplayed m), db')"
proof -
  note c = submit_created [OF assms]
  note ins = insert_user_message_latest [OF c(1)]
  have "List.find (\<lambda>m. bm_buildId m = b \<and> bm_clientMessageId m = Some c) (cdb_messages db') = Some m"
    using c(4) ins(6,7) by (simp add: ins(3) find_snoc)
  then have "submitUserMessage b owner text' c within_s' admit' i' now' db' = (Inr (MessageReplayed m), db')"
    using c(2,3) by (simp add: submitUserMessage_def ins(4))
  with ins(1,8) c(5) show ?thesis by blast
qed

text \<open>
  A build is closed to everyone who does not hold it: for an owner that matches neither its tenant nor its unclaimed
  anonymous hash every read is empty and a submission is refused without a write. Claiming a build, which sets its tenant and clears
  the hash, closes it to the anonymous cookie at the next read.
\<close>

theorem chat_isolation:
  assumes "\<forall>b \<in> set (cdb_builds db). bd_id b = i \<longrightarrow> \<not> ownedBy owner b"
  shows "findOwnedBuild db i owner = None \<and> buildState db i owner = None \<and> listMessages db i owner = [] \<and>
    messagesSince db i owner after lookback = [] \<and>
    readEventBatch db i (ow_tenantId owner) (ow_anonHash owner) after lookback = None \<and>
    submitUserMessage i owner text c within_s admit n now db = (Inr MessageNotFound, db)"
proof -
  have "List.find (\<lambda>b. bd_id b = i \<and> ownedBy owner b) (cdb_builds db) = None" using assms by (auto simp: find_None_iff)
  moreover have "\<not> list_ex (\<lambda>b. bd_id b = i \<and> ownedBy owner b) (cdb_builds db)" using assms by (auto simp: list_ex_iff)
  moreover have "ownedBy \<lparr>ow_tenantId = ow_tenantId owner, ow_anonHash = ow_anonHash owner\<rparr> = ownedBy owner"
    by (simp add: ownedBy_def fun_eq_iff)
  ultimately show ?thesis
    by (simp add: findOwnedBuild_def buildState_def listMessages_def messagesSince_def readEventBatch_def
        submitUserMessage_def Let_def)
qed

subsection \<open>Cursors and message order\<close>

lemma uuid_chars: "u \<in> lang (uuid_of h) \<Longrightarrow> list_all (\<lambda>c. h c \<or> c = CHR ''-'') u"
  unfolding uuid_of_def by (auto simp: lang_Times_Cls list_all_iff)

lemma nat_str_length: "n < 10 ^ Suc k \<Longrightarrow> length (nat_str n) \<le> Suc k"
proof (induction k arbitrary: n)
  case (Suc k)
  show ?case
  proof (cases "n < 10")
    case False
    from Suc.prems have "n div 10 < 10 ^ Suc k" by (simp add: less_mult_imp_div_less)
    with Suc.IH False show ?thesis by (subst nat_str.simps) simp
  qed (subst nat_str.simps, simp)
qed (subst nat_str.simps, simp)

lemma js_trim_no_space: "list_all (\<lambda>c. \<not> js_space c) s \<Longrightarrow> js_trim s = s"
proof -
  assume "list_all (\<lambda>c. \<not> js_space c) s"
  then have "dropWhile js_space s = s" "dropWhile js_space (rev s) = rev s"
    by (auto simp: dropWhile_eq_self_iff list_all_iff hd_rev)
  then show ?thesis by (simp add: js_trim_def)
qed

lemma cursor_chars:
  "is_digit c \<Longrightarrow> \<not> js_space c \<and> c \<noteq> CHR ''.''" "hex_low c \<Longrightarrow> \<not> js_space c" "\<not> js_space (CHR ''-'')" "\<not> js_space (CHR ''.'')"
  by (auto simp: is_digit_def js_space_def hex_low_def between_def less_eq_char_def Let_def)

lemma cursor_lang:
  assumes "s \<noteq> []" "length s \<le> 19" "list_all is_digit s" "u \<in> lang (uuid_of hex_low)"
  shows "rx_full CURSOR_PATTERN (s @ CHR ''.'' # u)"
proof -
  from assms(1) obtain d ds where s: "s = d # ds" by (cases s) auto
  have "no_boundary CURSOR_PATTERN" by (simp add: CURSOR_PATTERN_def uuid_of_def)
  moreover have "[d] @ ds @ [CHR ''.''] @ u \<in> lang CURSOR_PATTERN"
    unfolding CURSOR_PATTERN_def using assms s
    by (intro lang_SeqI) (simp_all add: lang_UpTo_Cls)
  ultimately show ?thesis by (simp add: rx_full_lang s)
qed

lemma parse_message_cursor:
  assumes "rx_full (uuid_of hex_low) (bm_id m)" and "bm_createdAt m < 10 ^ 19"
  shows "parseCursor (Some (message_cursor m)) = Some \<lparr>cu_micros = bm_createdAt m, cu_id = bm_id m\<rparr>"
proof -
  have u: "bm_id m \<in> lang (uuid_of hex_low)" using assms(1) by (simp add: rx_full_lang uuid_of_def)
  have d: "list_all is_digit (nat_str (bm_createdAt m))" by (auto simp: list_all_iff nat_str_digits)
  have "list_all (\<lambda>c. \<not> js_space c) (message_cursor m)"
    using uuid_chars [OF u] d cursor_chars by (auto simp: message_cursor_def list_all_iff)
  moreover have "rx_full CURSOR_PATTERN (message_cursor m)"
    using cursor_lang [OF _ _ d u] nat_str_length [of "bm_createdAt m" 18] assms(2) by (simp add: message_cursor_def)
  moreover have "takeWhile (\<lambda>c. c \<noteq> CHR ''.'') (message_cursor m) = nat_str (bm_createdAt m)"
      "dropWhile (\<lambda>c. c \<noteq> CHR ''.'') (message_cursor m) = CHR ''.'' # bm_id m"
    using d cursor_chars(1) by (auto simp: message_cursor_def list_all_iff takeWhile_append2 dropWhile_append2)
  ultimately show ?thesis by (simp add: parseCursor_def js_trim_no_space)
qed

lemma compareCursors_order:
  "compareCursors \<lparr>cu_micros = bm_createdAt a, cu_id = bm_id a\<rparr> \<lparr>cu_micros = bm_createdAt b, cu_id = bm_id b\<rparr> = message_order a b"
  by (auto simp: compareCursors_def message_order_def compare_lt_def)
text \<open>
  Cursors round-trip: the event id of a message parses back to its position, and comparing parsed cursors is the
  order the store lists messages in.
\<close>

theorem cursor_roundtrip:
  assumes "\<forall>m \<in> set (messages_of db b). rx_full (uuid_of hex_low) (bm_id m) \<and> bm_createdAt m < 10 ^ 19"
  shows "map (parseCursor \<circ> Some \<circ> message_cursor) (messages_of db b) =
      map (\<lambda>m. Some \<lparr>cu_micros = bm_createdAt m, cu_id = bm_id m\<rparr>) (messages_of db b) \<and>
    sorted_wrt (\<lambda>x y. compareCursors (the (parseCursor (Some (message_cursor x)))) (the (parseCursor (Some (message_cursor y)))) \<le> 0)
      (messages_of db b)"
proof -
  have p: "parseCursor (Some (message_cursor m)) = Some \<lparr>cu_micros = bm_createdAt m, cu_id = bm_id m\<rparr>"
    if "m \<in> set (messages_of db b)" for m
    using assms that by (intro parse_message_cursor) auto
  have "compareCursors \<lparr>cu_micros = bm_createdAt x, cu_id = bm_id x\<rparr> \<lparr>cu_micros = bm_createdAt y, cu_id = bm_id y\<rparr> \<le> 0"
    if "message_key x \<le> message_key y" for x y
    using that by (simp add: compareCursors_order message_order_def)
  then have "sorted_wrt (\<lambda>x y. compareCursors (the (parseCursor (Some (message_cursor x)))) (the (parseCursor (Some (message_cursor y)))) \<le> 0)
      (messages_of db b)"
    using messages_of_sorted [of db b] p by (auto intro: sorted_wrt_mono_rel [rotated])
  with p show ?thesis by auto
qed

definition desk_build :: string where
  "desk_build = ''00000000-0000-4000-8000-00000000000b''"

definition desk_message :: MessageRow where
  "desk_message = \<lparr>bm_id = ''00000000-0000-4000-8000-0000000000a1'', bm_buildId = desk_build, bm_role = ChatUser, bm_text = ''Hi'',
     bm_clientMessageId = Some ''c1'', bm_createdAt = 5\<rparr>"

definition desk_owner :: Owner where
  "desk_owner = \<lparr>ow_tenantId = None, ow_anonHash = Some ''h''\<rparr>"

definition desk_db :: ChatDb where
  "desk_db = \<lparr>cdb_builds = [\<lparr>bd_id = desk_build, bd_tenantId = None, bd_anonOwnerHash = Some ''h'', bd_status = StAsking,
     bd_askText = ''Hi'', bd_createdAt = 5, bd_updatedAt = 5\<rparr>], cdb_messages = [desk_message], cdb_specs = []\<rparr>"

theorem cursor_roundtrip_witness:
  "map (parseCursor \<circ> Some \<circ> message_cursor) (messages_of desk_db desk_build) =
     [Some \<lparr>cu_micros = 5, cu_id = ''00000000-0000-4000-8000-0000000000a1''\<rparr>]"
proof -
  have ms: "messages_of desk_db desk_build = [desk_message]" by (simp add: messages_of_def desk_db_def desk_message_def)
  have "rx_full (uuid_of hex_low) (bm_id desk_message)" by code_simp
  then have "\<forall>m \<in> set (messages_of desk_db desk_build). rx_full (uuid_of hex_low) (bm_id m) \<and> bm_createdAt m < 10 ^ 19"
    by (simp add: ms desk_message_def)
  from cursor_roundtrip [OF this] show ?thesis by (simp add: ms desk_message_def)
qed

theorem createBuild_idempotent_witness:
  "\<exists>b db'. createBuild desk_owner ''Again'' (Some ''c2'') (\<lambda>_. None) ''n2'' ''m2'' 9 db' = (Inr (BuildReplayed b), db')"
proof -
  have "''n'' \<notin> bd_id ` set (cdb_builds desk_db)" by (simp add: desk_db_def desk_build_def)
  moreover have "ow_tenantId desk_owner \<noteq> None \<or> ow_anonHash desk_owner \<noteq> None" by (simp add: desk_owner_def)
  moreover obtain b m db' where "createBuild desk_owner ''Fan'' (Some ''c2'') (\<lambda>_. None) ''n'' ''m'' 7 desk_db = (Inr (BuildCreated b m), db')"
    by (simp add: createBuild_def findBuildByFirstMessage_def desk_db_def desk_message_def desk_owner_def Let_def)
  ultimately have "createBuild desk_owner ''Again'' (Some ''c2'') (\<lambda>_. None) ''n2'' ''m2'' 9 db' = (Inr (BuildReplayed b), db')"
    by (rule createBuild_idempotent)
  then show ?thesis by blast
qed

theorem submitUserMessage_order_witness:
  "\<exists>m db'. submitUserMessage desk_build desk_owner ''More'' ''c3'' 1 None ''m3'' 9000000 desk_db = (Inr (MessageCreated m), db') \<and>
     latest_message db' desk_build = Some m"
proof -
  have "isUuid desk_build" by code_simp
  then obtain m db' where r: "submitUserMessage desk_build desk_owner ''More'' ''c3'' 1 None ''m3'' 9000000 desk_db = (Inr (MessageCreated m), db')"
    by (simp add: submitUserMessage_def desk_db_def desk_message_def desk_owner_def ownedBy_def lastMessageOf_def latest_message_def
        messages_of_def insert_user_message_def Let_def)
  from submitUserMessage_order [OF r] r show ?thesis by blast
qed

theorem chat_isolation_witness: "listMessages desk_db desk_build \<lparr>ow_tenantId = Some ''t'', ow_anonHash = None\<rparr> = []"
proof -
  have "\<forall>b \<in> set (cdb_builds desk_db). bd_id b = desk_build \<longrightarrow> \<not> ownedBy \<lparr>ow_tenantId = Some ''t'', ow_anonHash = None\<rparr> b"
    by (simp add: desk_db_def ownedBy_def)
  from chat_isolation [OF this] show ?thesis by blast
qed

end
