(* ===== verification/Intake_Handler.thy ===== *)
theory Intake_Handler
  imports Chat Intake_Turn
begin

text \<open>
  Answering a build's latest message, \<open>apps/intake/src/handler.ts\<close>. The reads before the model call and the final transaction are
  functions on the chat tables; the model call between them is its outcome. The lock-and-answer loop of several concurrent calls is a
  step relation in which users may post messages at any moment. Connections, timers and log lines are left out: that a call runs out of
  budget or loses its connection is a step that releases its lock.
\<close>

subsection \<open>Budget\<close>

definition MAX_PASSES :: nat where
  "MAX_PASSES = 3"

definition MIN_CLEANUP_MS :: int where
  "MIN_CLEANUP_MS = 25"

text \<open>\<open>Math.max(40, Math.round(deadlineMs / 15))\<close>; \<open>Math.round\<close> rounds halves up.\<close>

definition defaultReserve :: "int \<Rightarrow> int" where
  "defaultReserve deadlineMs = max 40 ((2 * deadlineMs + 15) div 30)"

record Budget =
  bg_started :: int
  bg_total :: int
  bg_reserveMs :: int

definition startBudget :: "int option \<Rightarrow> int \<Rightarrow> int \<Rightarrow> Budget" where
  "startBudget budgetMs deadlineMs now =
     (let total = (case budgetMs of None \<Rightarrow> deadlineMs + defaultReserve deadlineMs | Some t \<Rightarrow> t)
      in \<lparr>bg_started = now, bg_total = total, bg_reserveMs = max 0 (total - deadlineMs)\<rparr>)"

definition remainingMs :: "Budget \<Rightarrow> int \<Rightarrow> int" where
  "remainingMs b now = bg_total b - (now - bg_started b)"

definition cleanupMs :: "Budget \<Rightarrow> int \<Rightarrow> int" where
  "cleanupMs b now = (if remainingMs b now < MIN_CLEANUP_MS then 0 else remainingMs b now)"

text \<open>The deadline of the model call: the turn's own, or what the budget can spare.\<close>

definition turn_deadline :: "Budget \<Rightarrow> int \<Rightarrow> int \<Rightarrow> int" where
  "turn_deadline b deadlineMs now = min deadlineMs (remainingMs b now - bg_reserveMs b)"

text \<open>The race of the turn against its timer: no result means the timer fired first.\<close>

definition withDeadline :: "(js_error + TurnOutcome) option \<Rightarrow> TurnOutcome" where
  "withDeadline result =
     (case result of
        None \<Rightarrow> ReplyOutcome (FailureReason Deadline) FALLBACK_REPLY None
      | Some (Inl e) \<Rightarrow> ReplyOutcome ErrorReason FALLBACK_REPLY None
      | Some (Inr outcome) \<Rightarrow> outcome)"

subsection \<open>One answer\<close>

definition latestIsUnanswered :: "ChatDb \<Rightarrow> string \<Rightarrow> bool" where
  "latestIsUnanswered db b = (case latest_message db b of None \<Rightarrow> False | Some m \<Rightarrow> bm_role m = ChatUser)"

record Snapshot =
  sn_transcript :: "MessageRow list"
  sn_target :: MessageRow
  sn_latestSpec :: "SpecRow option"
  sn_rounds :: nat
  sn_owner :: "string option \<times> string option"

definition sn_previous :: "Snapshot \<Rightarrow> Spec option" where
  "sn_previous s = map_option sv_data (sn_latestSpec s)"

definition rounds_used :: "ChatDb \<Rightarrow> string \<Rightarrow> nat" where
  "rounds_used db b = length (filter (\<lambda>s. sv_buildId s = b \<and> length (sv_openQuestions s) > 0) (cdb_specs db))"

definition set_status :: "string \<Rightarrow> BuildStatus \<Rightarrow> nat \<Rightarrow> ChatDb \<Rightarrow> ChatDb" where
  "set_status b st now db =
     db\<lparr>cdb_builds := map (\<lambda>r. if bd_id r = b then r\<lparr>bd_status := st, bd_updatedAt := now\<rparr> else r) (cdb_builds db)\<rparr>"

text \<open>Up to the model call: what it is given, or that there is nothing to answer.\<close>

definition answer_read :: "string \<Rightarrow> nat \<Rightarrow> ChatDb \<Rightarrow> (js_error + Snapshot option) \<times> ChatDb" where
  "answer_read b now db =
     (case find_build db b of
        None \<Rightarrow> (Inr None, db)
      | Some build \<Rightarrow>
          (case latest_message db b of
             None \<Rightarrow> (Inr None, db)
           | Some target \<Rightarrow>
               if bm_role target \<noteq> ChatUser then (Inr None, db)
               else if (case latest_spec db b of None \<Rightarrow> False | Some s \<Rightarrow> \<not> Spec_ok (sv_data s)) then (Inl (Thrown ''ZodError''), db)
               else (Inr (Some \<lparr>sn_transcript = messages_of db b, sn_target = target, sn_latestSpec = latest_spec db b,
                        sn_rounds = rounds_used db b, sn_owner = (bd_tenantId build, bd_anonOwnerHash build)\<rparr>),
                     set_status b StSpecifying now db)))"

definition RETRYABLE_REASONS :: "ReplyReason set" where
  "RETRYABLE_REASONS = {FailureReason ProviderError, ErrorReason}"

definition handed_back :: "bool \<Rightarrow> TurnOutcome \<Rightarrow> bool" where
  "handed_back mayRetry outcome \<longleftrightarrow>
     mayRetry \<and> (case outcome of ReplyOutcome reason reply cat \<Rightarrow> reason \<in> RETRYABLE_REASONS | SpecOutcome d \<Rightarrow> False)"

definition outcome_reply :: "TurnOutcome \<Rightarrow> string" where
  "outcome_reply outcome = (case outcome of SpecOutcome d \<Rightarrow> d_reply d | ReplyOutcome reason reply cat \<Rightarrow> reply)"

definition outcome_status :: "Spec option \<Rightarrow> TurnOutcome \<Rightarrow> BuildStatus" where
  "outcome_status previous outcome =
     (case outcome of
        SpecOutcome d \<Rightarrow> (if d_status d = Planning then StPlanning else StAsking)
      | ReplyOutcome reason reply cat \<Rightarrow>
          (if (case previous of None \<Rightarrow> False | Some s \<Rightarrow> sp_settled s) then StPlanning else StAsking))"

record Answered =
  an_message_id :: string
  an_spec_version :: "nat option"
  an_status :: BuildStatus

definition new_spec :: "string \<Rightarrow> Snapshot \<Rightarrow> TurnOutcome \<Rightarrow> SpecRow option" where
  "new_spec b snap outcome =
     (case outcome of
        SpecOutcome d \<Rightarrow>
          if d_newVersion d
          then Some \<lparr>sv_buildId = b, sv_version = (case sn_latestSpec snap of None \<Rightarrow> 0 | Some s \<Rightarrow> sv_version s) + 1, sv_data = d_spec d,
                 sv_confidence = d_confidence d, sv_openQuestions = sp_open_questions (d_spec d)\<rparr>
          else None
      | ReplyOutcome reason reply cat \<Rightarrow> None)"

text \<open>
  The final transaction. The reply's time is read from the answered message in the database; a missing row or a specification version
  that exists already breaks a constraint, which rolls everything back.
\<close>

definition answer_write :: "string \<Rightarrow> Snapshot \<Rightarrow> TurnOutcome \<Rightarrow> string \<Rightarrow> nat \<Rightarrow> ChatDb \<Rightarrow> (js_error + Answered) \<times> ChatDb" where
  "answer_write b snap outcome newMessageId now db =
     (case List.find (\<lambda>m. bm_id m = bm_id (sn_target snap)) (cdb_messages db) of
        None \<Rightarrow> (Inl (Thrown ''23502''), db)
      | Some target \<Rightarrow>
          (let message = \<lparr>bm_id = newMessageId, bm_buildId = b, bm_role = ChatAssistant, bm_text = outcome_reply outcome,
                 bm_clientMessageId = None, bm_createdAt = bm_createdAt target + 1\<rparr>;
               status = outcome_status (sn_previous snap) outcome;
               db1 = db\<lparr>cdb_messages := cdb_messages db @ [message]\<rparr>
           in case new_spec b snap outcome of
                None \<Rightarrow>
                  (Inr \<lparr>an_message_id = newMessageId, an_spec_version = map_option sv_version (sn_latestSpec snap), an_status = status\<rparr>,
                   set_status b status now db1)
              | Some row \<Rightarrow>
                  if list_ex (\<lambda>s. sv_buildId s = b \<and> sv_version s = sv_version row) (cdb_specs db) then (Inl (Thrown ''23505''), db)
                  else (Inr \<lparr>an_message_id = newMessageId, an_spec_version = Some (sv_version row), an_status = status\<rparr>,
                        set_status b status now (db1\<lparr>cdb_specs := cdb_specs db @ [row]\<rparr>))))"

text \<open>\<open>answerLatest\<close>: \<open>meanwhile\<close> is what other transactions did to the tables during the model call.\<close>

definition answerLatest ::
    "(Snapshot \<Rightarrow> TurnOutcome) \<Rightarrow> bool \<Rightarrow> string \<Rightarrow> string \<Rightarrow> nat \<Rightarrow> (ChatDb \<Rightarrow> ChatDb) \<Rightarrow> ChatDb \<Rightarrow> (js_error + Answered option) \<times> ChatDb" where
  "answerLatest turn mayRetry b newMessageId now meanwhile db =
     (case answer_read b now db of
        (Inl e, db1) \<Rightarrow> (Inl e, db1)
      | (Inr None, db1) \<Rightarrow> (Inr None, db1)
      | (Inr (Some snap), db1) \<Rightarrow>
          if handed_back mayRetry (turn snap) then (Inl (Thrown ''TURN_RETRYABLE''), meanwhile db1)
          else (case answer_write b snap (turn snap) newMessageId now (meanwhile db1) of
                  (Inl e, db2) \<Rightarrow> (Inl e, db2)
                | (Inr a, db2) \<Rightarrow> (Inr (Some a), db2)))"

subsection \<open>Concurrent calls\<close>

text \<open>
  Where a call of \<open>answerWhileUnanswered\<close> stands, with the passes it has made: about to try the lock, holding it, running the model for a
  message, about to unlock, about to look once more; and how it ended: with an answer or \<open>noop\<close>, at the pass limit, or by an error.
\<close>

datatype Phase = Absent | Trying nat | Holding nat | Answering nat Snapshot | Releasing nat | Rechecking nat
  | Returned | PassLimit | Erred

record System =
  sy_db :: ChatDb
  sy_lock :: "nat option"
  sy_calls :: "nat \<Rightarrow> Phase"

fun holds :: "Phase \<Rightarrow> bool" where
  "holds (Holding p) = True"
| "holds (Answering p snap) = True"
| "holds (Releasing p) = True"
| "holds _ = False"

fun live :: "Phase \<Rightarrow> bool" where
  "live (Trying p) = True"
| "live (Rechecking p) = True"
| "live ph = holds ph"

abbreviation move :: "System \<Rightarrow> nat \<Rightarrow> Phase \<Rightarrow> System" where
  "move s i ph \<equiv> s\<lparr>sy_calls := (sy_calls s)(i := ph)\<rparr>"

definition fresh_id :: "string \<Rightarrow> ChatDb \<Rightarrow> bool" where
  "fresh_id i db \<longleftrightarrow> i \<notin> bm_id ` set (cdb_messages db)"

definition same_build :: "string \<Rightarrow> ChatDb \<Rightarrow> ChatDb \<Rightarrow> bool" where
  "same_build b db db' \<longleftrightarrow>
     filter (\<lambda>m. bm_buildId m = b) (cdb_messages db') = filter (\<lambda>m. bm_buildId m = b) (cdb_messages db) \<and>
     filter (\<lambda>s. sv_buildId s = b) (cdb_specs db') = filter (\<lambda>s. sv_buildId s = b) (cdb_specs db) \<and>
     distinct (map bm_id (cdb_messages db'))"

inductive turn_step :: "string \<Rightarrow> System \<Rightarrow> System \<Rightarrow> bool" for b where
  Submit: "sy_calls s i = Absent \<Longrightarrow> fresh_id nm (sy_db s) \<Longrightarrow>
     submitUserMessage b owner text c pendingWithinS admit nm now (sy_db s) = (Inr (MessageCreated m), db') \<Longrightarrow>
     turn_step b s ((move s i (Trying 0))\<lparr>sy_db := db'\<rparr>)"
| Trigger: "sy_calls s i = Absent \<Longrightarrow> turn_step b s (move s i (Trying 0))"
| Elsewhere: "same_build b (sy_db s) db' \<Longrightarrow> turn_step b s (s\<lparr>sy_db := db'\<rparr>)"
| Lock: "sy_calls s i = Trying p \<Longrightarrow> p < MAX_PASSES \<Longrightarrow> sy_lock s = None \<Longrightarrow>
     turn_step b s ((move s i (Holding p))\<lparr>sy_lock := Some i\<rparr>)"
| Busy: "sy_calls s i = Trying p \<Longrightarrow> p < MAX_PASSES \<Longrightarrow> sy_lock s = Some j \<Longrightarrow> turn_step b s (move s i Returned)"
| Exhausted: "sy_calls s i = Trying p \<Longrightarrow> \<not> p < MAX_PASSES \<Longrightarrow> turn_step b s (move s i PassLimit)"
| Read: "sy_calls s i = Holding p \<Longrightarrow> p < MAX_PASSES \<Longrightarrow> answer_read b now (sy_db s) = (Inr (Some snap), db') \<Longrightarrow>
     turn_step b s ((move s i (Answering p snap))\<lparr>sy_db := db'\<rparr>)"
| Nothing: "sy_calls s i = Holding p \<Longrightarrow> p < MAX_PASSES \<Longrightarrow> answer_read b now (sy_db s) = (Inr None, db') \<Longrightarrow>
     turn_step b s ((move s i (Releasing p))\<lparr>sy_db := db'\<rparr>)"
| Full: "sy_calls s i = Holding p \<Longrightarrow> \<not> p < MAX_PASSES \<Longrightarrow> turn_step b s (move s i (Releasing p))"
| Write: "sy_calls s i = Answering p snap \<Longrightarrow> fresh_id nm (sy_db s) \<Longrightarrow>
     answer_write b snap outcome nm now (sy_db s) = (Inr a, db') \<Longrightarrow> ph \<in> {Holding (Suc p), Releasing (Suc p)} \<Longrightarrow>
     turn_step b s ((move s i ph)\<lparr>sy_db := db'\<rparr>)"
| Unlock: "sy_calls s i = Releasing p \<Longrightarrow> turn_step b s ((move s i (Rechecking p))\<lparr>sy_lock := None\<rparr>)"
| More: "sy_calls s i = Rechecking p \<Longrightarrow> latestIsUnanswered (sy_db s) b \<Longrightarrow> turn_step b s (move s i (Trying p))"
| Done: "sy_calls s i = Rechecking p \<Longrightarrow> \<not> latestIsUnanswered (sy_db s) b \<Longrightarrow> turn_step b s (move s i Returned)"
| Fail: "live (sy_calls s i) \<Longrightarrow>
     turn_step b s ((move s i Erred)\<lparr>sy_lock := (if holds (sy_calls s i) then None else sy_lock s)\<rparr>)"

subsection \<open>What every operation keeps of a build's messages\<close>

abbreviation build_messages :: "string \<Rightarrow> ChatDb \<Rightarrow> MessageRow list" where
  "build_messages b db \<equiv> filter (\<lambda>m. bm_buildId m = b) (cdb_messages db)"

abbreviation build_specs :: "string \<Rightarrow> ChatDb \<Rightarrow> SpecRow list" where
  "build_specs b db \<equiv> filter (\<lambda>s. sv_buildId s = b) (cdb_specs db)"

text \<open>
  User messages are at least two microseconds apart, and the answers are exactly the messages one microsecond after a user message, one
  at most for each.
\<close>

definition answered_once :: "string \<Rightarrow> ChatDb \<Rightarrow> bool" where
  "answered_once b db \<longleftrightarrow>
     (\<forall>u \<in> set (build_messages b db). \<forall>v \<in> set (build_messages b db). bm_role u = ChatUser \<longrightarrow> bm_role v = ChatUser \<longrightarrow> u \<noteq> v \<longrightarrow>
        bm_createdAt u + 2 \<le> bm_createdAt v \<or> bm_createdAt v + 2 \<le> bm_createdAt u) \<and>
     (\<forall>a \<in> set (build_messages b db). bm_role a = ChatAssistant \<longrightarrow>
        (\<exists>u \<in> set (build_messages b db). bm_role u = ChatUser \<and> bm_createdAt a = bm_createdAt u + 1)) \<and>
     (\<forall>a \<in> set (build_messages b db). \<forall>a' \<in> set (build_messages b db). bm_role a = ChatAssistant \<longrightarrow> bm_role a' = ChatAssistant \<longrightarrow>
        bm_createdAt a = bm_createdAt a' \<longrightarrow> a = a')"

definition versions_ok :: "string \<Rightarrow> ChatDb \<Rightarrow> bool" where
  "versions_ok b db \<longleftrightarrow> (\<exists>n. map sv_version (build_specs b db) = [1..<Suc n])"

definition snapshot_ok :: "string \<Rightarrow> ChatDb \<Rightarrow> Snapshot \<Rightarrow> bool" where
  "snapshot_ok b db snap \<longleftrightarrow>
     sn_target snap \<in> set (build_messages b db) \<and> bm_role (sn_target snap) = ChatUser \<and>
     (\<forall>m \<in> set (build_messages b db). bm_createdAt m \<noteq> bm_createdAt (sn_target snap) + 1) \<and>
     sn_latestSpec snap = latest_spec db b"

abbreviation ids_ok :: "ChatDb \<Rightarrow> bool" where
  "ids_ok db \<equiv> distinct (map bm_id (cdb_messages db))"

text \<open>These facts only depend on the rows of the build.\<close>

lemma same_rows:
  assumes "build_messages b db' = build_messages b db" "build_specs b db' = build_specs b db"
  shows "latest_message db' b = latest_message db b" "latest_spec db' b = latest_spec db b"
    "answered_once b db' = answered_once b db" "versions_ok b db' = versions_ok b db" "snapshot_ok b db' = snapshot_ok b db"
    "latestIsUnanswered db' b = latestIsUnanswered db b"
  using assms unfolding latest_message_def messages_of_def latest_spec_def answered_once_def versions_ok_def snapshot_ok_def [abs_def]
    latestIsUnanswered_def
  by simp_all

lemma set_status_rows [simp]:
  "cdb_messages (set_status b st now db) = cdb_messages db" "cdb_specs (set_status b st now db) = cdb_specs db"
  by (simp_all add: set_status_def)

lemma latest_spec_versions:
  assumes "versions_ok b db"
  shows "(case latest_spec db b of None \<Rightarrow> 0 | Some s \<Rightarrow> sv_version s) = length (build_specs b db)"
proof -
  obtain n where n: "map sv_version (build_specs b db) = [1..<Suc n]" using assms by (auto simp: versions_ok_def)
  then have len: "length (build_specs b db) = n" by (metis diff_Suc_1 length_map length_upt)
  let ?sorted = "js_sort (\<lambda>x y. compare_lt (sv_version y) (sv_version x)) (build_specs b db)"
  have vs: "sv_version ` set (build_specs b db) = {1..n}" using n by (metis atLeastLessThanSuc_atLeastAtMost list.set_map set_upt)
  show ?thesis
  proof (cases ?sorted)
    case Nil
    then have "build_specs b db = []" by (metis js_sort_Nil_iff)
    with Nil len show ?thesis by (simp add: latest_spec_def)
  next
    case (Cons s rest)
    have "comparator (\<lambda>x y. compare_lt (sv_version y) (sv_version x)) (\<lambda>_. True)"
      by unfold_locales (auto simp: compare_lt_def sgn_if split: if_splits)
    from comparator.sorted_js_sort [OF this, of "build_specs b db"] Cons
    have top: "\<forall>x \<in> set rest. sv_version x \<le> sv_version s" by simp
    have "set (s # rest) = set (build_specs b db)" using set_js_sort Cons by metis
    then have "sv_version ` set (s # rest) = {1..n}" using vs by simp
    moreover from this have "1 \<le> n" by (metis atLeastatMost_empty_iff2 image_is_empty list.discI set_empty)
    ultimately have "n \<in> sv_version ` set (s # rest)" "sv_version s \<in> {1..n}" by auto
    then have "sv_version s = n" using top by force
    then show ?thesis using Cons len by (simp add: latest_spec_def)
  qed
qed

lemma submit_keeps:
  assumes "answered_once b db" "ids_ok db" "fresh_id nm db"
    and "submitUserMessage b owner text c within_s admit nm now db = (Inr (MessageCreated m), db')"
  shows "answered_once b db'" "ids_ok db'" "snapshot_ok b db snap \<Longrightarrow> snapshot_ok b db' snap"
    "versions_ok b db' = versions_ok b db"
proof -
  note ins = submit_created(1) [OF assms(4)]
  note new = insert_user_message_latest [OF ins]
  have specs: "cdb_specs db' = cdb_specs db" and idm: "bm_id m = nm" using ins by (auto simp: insert_user_message_def Let_def)
  have late: "bm_createdAt x + 2 \<le> bm_createdAt m" if "x \<in> set (build_messages b db)" for x using that new(8) by auto
  have rows: "build_messages b db' = build_messages b db @ [m]" using new(3,7) by simp
  show "ids_ok db'" using assms(2,3) idm by (simp add: new(3) fresh_id_def)
  show "versions_ok b db' = versions_ok b db" by (simp add: versions_ok_def specs)
  show "snapshot_ok b db' snap" if "snapshot_ok b db snap"
    using that late unfolding snapshot_ok_def rows latest_spec_def specs by fastforce
  show "answered_once b db'"
    using assms(1) late new(5) unfolding answered_once_def rows by fastforce
qed

lemma answer_read_rows:
  assumes "answer_read b now db = (out, db')"
  shows "cdb_messages db' = cdb_messages db" "cdb_specs db' = cdb_specs db"
  using assms by (auto simp: answer_read_def split: option.splits if_splits)

lemma answer_read_snapshot:
  assumes "answer_read b now db = (Inr (Some snap), db')"
  shows "snapshot_ok b db' snap"
proof -
  from assms have latest: "latest_message db b = Some (sn_target snap)" and user: "bm_role (sn_target snap) = ChatUser"
    and spec: "sn_latestSpec snap = latest_spec db b"
    by (auto simp: answer_read_def split: option.splits if_splits)
  note rows = answer_read_rows [OF assms]
  have same: "latest_spec db' b = latest_spec db b" by (simp add: latest_spec_def rows)
  from latest_messageD [OF latest] show ?thesis
    using user spec unfolding snapshot_ok_def same rows by (fastforce simp: less_eq_prod_def)
qed

lemma answer_write_rows:
  assumes "answer_write b snap outcome nm now db = (Inr a, db')" "snapshot_ok b db snap" "ids_ok db"
  obtains m where "cdb_messages db' = cdb_messages db @ [m]" "bm_id m = nm" "bm_buildId m = b" "bm_role m = ChatAssistant"
      "bm_text m = outcome_reply outcome" "bm_createdAt m = bm_createdAt (sn_target snap) + 1"
      "cdb_specs db' = cdb_specs db @ (case new_spec b snap outcome of None \<Rightarrow> [] | Some row \<Rightarrow> [row])"
proof -
  have "sn_target snap \<in> set (cdb_messages db)" using assms(2) by (simp add: snapshot_ok_def)
  then obtain t where t: "List.find (\<lambda>m. bm_id m = bm_id (sn_target snap)) (cdb_messages db) = Some t"
    by (metis (mono_tags, lifting) find_None_iff option.exhaust)
  then have "t \<in> set (cdb_messages db)" "bm_id t = bm_id (sn_target snap)" by (auto simp: find_Some_iff)
  with \<open>sn_target snap \<in> set (cdb_messages db)\<close> assms(3) have "t = sn_target snap" by (metis distinct_map inj_onD)
  with assms(1) t that show thesis
    by (auto simp: answer_write_def Let_def split: option.splits if_splits)
qed

lemma answer_write_keeps:
  assumes "answered_once b db" "ids_ok db" "versions_ok b db" "fresh_id nm db" "snapshot_ok b db snap"
    and "answer_write b snap outcome nm now db = (Inr a, db')"
  shows "answered_once b db'" "ids_ok db'" "versions_ok b db'"
proof -
  obtain m where m: "cdb_messages db' = cdb_messages db @ [m]" "bm_id m = nm" "bm_buildId m = b" "bm_role m = ChatAssistant"
      "bm_createdAt m = bm_createdAt (sn_target snap) + 1"
      "cdb_specs db' = cdb_specs db @ (case new_spec b snap outcome of None \<Rightarrow> [] | Some row \<Rightarrow> [row])"
    by (rule answer_write_rows [OF assms(6,5,2)])
  have rows: "build_messages b db' = build_messages b db @ [m]" using m(1,3) by simp
  show "ids_ok db'" using assms(2,4) m(2) by (simp add: m(1) fresh_id_def)
  have tgt: "sn_target snap \<in> set (build_messages b db)" "bm_role (sn_target snap) = ChatUser"
    and free: "\<forall>x \<in> set (build_messages b db). bm_createdAt x \<noteq> bm_createdAt m"
    using assms(5) m(5) by (auto simp: snapshot_ok_def)
  show "answered_once b db'"
    unfolding answered_once_def rows set_append list.set Un_insert_right Un_empty_right
  proof (intro conjI ballI impI)
    fix u v
    assume "u \<in> insert m (set (build_messages b db))" "v \<in> insert m (set (build_messages b db))"
      "bm_role u = ChatUser" "bm_role v = ChatUser" "u \<noteq> v"
    with m(4) assms(1) show "bm_createdAt u + 2 \<le> bm_createdAt v \<or> bm_createdAt v + 2 \<le> bm_createdAt u"
      unfolding answered_once_def by (metis ChatRole.distinct(1) insertE)
  next
    fix x
    assume "x \<in> insert m (set (build_messages b db))" "bm_role x = ChatAssistant"
    with tgt m(5) assms(1) show "\<exists>u \<in> insert m (set (build_messages b db)). bm_role u = ChatUser \<and> bm_createdAt x = bm_createdAt u + 1"
      unfolding answered_once_def by (metis insertE insertI2)
  next
    fix x y
    assume "x \<in> insert m (set (build_messages b db))" "y \<in> insert m (set (build_messages b db))"
      "bm_role x = ChatAssistant" "bm_role y = ChatAssistant" "bm_createdAt x = bm_createdAt y"
    with free assms(1) show "x = y" unfolding answered_once_def by (metis insertE)
  qed
  obtain n where n: "map sv_version (build_specs b db) = [1..<Suc n]" using assms(3) by (auto simp: versions_ok_def)
  then have len: "length (build_specs b db) = n" by (metis diff_Suc_1 length_map length_upt)
  show "versions_ok b db'"
  proof (cases "new_spec b snap outcome")
    case None
    then show ?thesis using n unfolding versions_ok_def m(6) by auto
  next
    case (Some row)
    then have "sv_buildId row = b" "sv_version row = Suc n"
      using assms(5) latest_spec_versions [OF assms(3)] len
      by (auto simp: new_spec_def snapshot_ok_def split: TurnOutcome.splits if_splits)
    then have "map sv_version (build_specs b db') = [1..<Suc (Suc n)]" using n Some by (simp add: m(6))
    then show ?thesis unfolding versions_ok_def by blast
  qed
qed

text \<open>What a turn read is still enough for its final write: the answered row exists and the next version is free.\<close>

lemma answer_write_ok:
  assumes "versions_ok b db" "snapshot_ok b db snap"
  obtains a db' where "answer_write b snap outcome nm now db = (Inr a, db')" "an_message_id a = nm"
proof -
  obtain n where n: "map sv_version (build_specs b db) = [1..<Suc n]" using assms(1) by (auto simp: versions_ok_def)
  then have len: "length (build_specs b db) = n" by (metis diff_Suc_1 length_map length_upt)
  have "\<not> list_ex (\<lambda>r. sv_buildId r = b \<and> sv_version r = sv_version row) (cdb_specs db)" if "new_spec b snap outcome = Some row" for row
  proof -
    have "sv_version row = Suc n"
      using that assms(2) latest_spec_versions [OF assms(1)] len by (auto simp: new_spec_def snapshot_ok_def split: TurnOutcome.splits if_splits)
    moreover have "sv_version x \<in> set [1..<Suc n]" if "x \<in> set (cdb_specs db)" "sv_buildId x = b" for x
      unfolding n [symmetric] using that by simp
    ultimately show ?thesis by (fastforce simp: list_ex_iff)
  qed
  moreover have "List.find (\<lambda>m. bm_id m = bm_id (sn_target snap)) (cdb_messages db) \<noteq> None"
    using assms(2) by (auto simp: snapshot_ok_def find_None_iff)
  ultimately have "\<exists>a db'. answer_write b snap outcome nm now db = (Inr a, db') \<and> an_message_id a = nm"
    by (auto simp: answer_write_def Let_def split: option.splits)
  with that show thesis by blast
qed

subsection \<open>The invariant of concurrent calls\<close>

definition system_inv :: "string \<Rightarrow> System \<Rightarrow> bool" where
  "system_inv b s \<longleftrightarrow>
     answered_once b (sy_db s) \<and> ids_ok (sy_db s) \<and> versions_ok b (sy_db s) \<and>
     (\<forall>i. holds (sy_calls s i) \<longleftrightarrow> sy_lock s = Some i) \<and>
     (\<forall>i p snap. sy_calls s i = Answering p snap \<longrightarrow> snapshot_ok b (sy_db s) snap) \<and>
     (latestIsUnanswered (sy_db s) b \<longrightarrow> (\<exists>i. live (sy_calls s i) \<or> sy_calls s i \<in> {PassLimit, Erred}))"

lemma live_holds: "holds ph \<Longrightarrow> live ph"
  by (cases ph) auto

text \<open>One call moves to a new phase; the others keep theirs.\<close>

lemma system_inv_move:
  assumes inv: "system_inv b s" and s': "sy_calls s' = (sy_calls s)(i := ph)"
    and db: "answered_once b (sy_db s')" "ids_ok (sy_db s')" "versions_ok b (sy_db s')"
    and others: "\<And>j p snap. j \<noteq> i \<Longrightarrow> sy_calls s j = Answering p snap \<Longrightarrow> snapshot_ok b (sy_db s') snap"
    and own: "\<And>p snap. ph = Answering p snap \<Longrightarrow> snapshot_ok b (sy_db s') snap"
    and lock: "holds ph \<longleftrightarrow> sy_lock s' = Some i" "\<And>j. j \<noteq> i \<Longrightarrow> sy_lock s' = Some j \<longleftrightarrow> sy_lock s = Some j"
    and pending: "latestIsUnanswered (sy_db s') b \<Longrightarrow>
      live ph \<or> ph \<in> {PassLimit, Erred} \<or> (\<exists>j. j \<noteq> i \<and> (live (sy_calls s j) \<or> sy_calls s j \<in> {PassLimit, Erred}))"
  shows "system_inv b s'"
proof -
  have "holds (sy_calls s' j) \<longleftrightarrow> sy_lock s' = Some j" for j
    using inv lock by (cases "j = i") (auto simp: s' system_inv_def)
  moreover have "snapshot_ok b (sy_db s') snap" if "sy_calls s' j = Answering p snap" for j p snap
    using that others own by (cases "j = i") (auto simp: s')
  moreover have "\<exists>j. live (sy_calls s' j) \<or> sy_calls s' j \<in> {PassLimit, Erred}" if "latestIsUnanswered (sy_db s') b"
    using pending [OF that] by (auto simp: s')
  ultimately show ?thesis using db by (simp add: system_inv_def)
qed

text \<open>A step that leaves the tables alone, and one that only reads.\<close>

lemma system_inv_same:
  assumes inv: "system_inv b s" and s': "sy_calls s' = (sy_calls s)(i := ph)"
    and rows: "build_messages b (sy_db s') = build_messages b (sy_db s)" "build_specs b (sy_db s') = build_specs b (sy_db s)" "ids_ok (sy_db s')"
    and own: "\<And>p snap. ph = Answering p snap \<Longrightarrow> snapshot_ok b (sy_db s') snap"
    and lock: "holds ph \<longleftrightarrow> sy_lock s' = Some i" "\<And>j. j \<noteq> i \<Longrightarrow> sy_lock s' = Some j \<longleftrightarrow> sy_lock s = Some j"
    and pending: "latestIsUnanswered (sy_db s) b \<Longrightarrow> live ph \<or> ph \<in> {PassLimit, Erred} \<or> (\<exists>j. j \<noteq> i \<and> live (sy_calls s j))"
  shows "system_inv b s'"
proof (rule system_inv_move [OF inv s' _ rows(3) _ _ own lock])
  note same = same_rows [OF rows(1,2)]
  show "answered_once b (sy_db s')" "versions_ok b (sy_db s')" using inv by (simp_all add: same system_inv_def)
  show "snapshot_ok b (sy_db s') snap" if "sy_calls s j = Answering p snap" for j p snap
    using inv that by (simp add: same system_inv_def)
  show "live ph \<or> ph \<in> {PassLimit, Erred} \<or> (\<exists>j. j \<noteq> i \<and> (live (sy_calls s j) \<or> sy_calls s j \<in> {PassLimit, Erred}))"
    if "latestIsUnanswered (sy_db s') b"
    using pending that by (auto simp: same)
qed

lemma system_inv_lock: "system_inv b s \<Longrightarrow> sy_lock s = Some i \<longleftrightarrow> holds (sy_calls s i)"
  by (simp add: system_inv_def)

lemma system_inv_step:
  assumes "turn_step b s s'" and inv: "system_inv b s"
  shows "system_inv b s'"
  using assms(1)
proof (cases rule: turn_step.cases)
  case (Submit i nm owner tx c within_s admit now m db')
  from inv have db: "answered_once b (sy_db s)" "ids_ok (sy_db s)" "versions_ok b (sy_db s)"
    by (auto simp: system_inv_def)
  have free: "sy_lock s \<noteq> Some i" by (simp add: system_inv_lock [OF inv] Submit(2))
  note keeps = submit_keeps [OF db(1,2) Submit(3,4)]
  show ?thesis
    by (rule system_inv_move [OF inv, of s' i "Trying 0"])
      (use inv Submit(1) keeps db(3) free in \<open>auto simp: system_inv_def\<close>)
next
  case (Trigger i)
  have "sy_lock s \<noteq> Some i" by (simp add: system_inv_lock [OF inv] Trigger(2))
  with Trigger(1) inv show ?thesis by (intro system_inv_same [OF inv, of s' i "Trying 0"]) (auto simp: system_inv_def)
next
  case (Elsewhere db')
  then have "build_messages b db' = build_messages b (sy_db s)" "build_specs b db' = build_specs b (sy_db s)" "ids_ok db'"
    by (auto simp: same_build_def)
  with same_rows [OF this(1,2)] inv Elsewhere(1) show ?thesis by (auto simp: system_inv_def)
next
  case (Read i p now snap db')
  have "sy_lock s = Some i" by (simp add: system_inv_lock [OF inv] Read(2))
  with Read(1) inv answer_read_rows [OF Read(4)] answer_read_snapshot [OF Read(4)] show ?thesis
    by (intro system_inv_same [OF inv, of s' i "Answering p snap"]) (auto simp: system_inv_def)
next
  case (Nothing i p now db')
  have "sy_lock s = Some i" by (simp add: system_inv_lock [OF inv] Nothing(2))
  with Nothing(1) inv answer_read_rows [OF Nothing(4)] show ?thesis
    by (intro system_inv_same [OF inv, of s' i "Releasing p"]) (auto simp: system_inv_def)
next
  case (Write i p snap nm outcome now a db' ph)
  from inv Write(2) have db: "answered_once b (sy_db s)" "ids_ok (sy_db s)" "versions_ok b (sy_db s)" "snapshot_ok b (sy_db s) snap"
    unfolding system_inv_def by blast+
  have lock: "sy_lock s = Some i" by (simp add: system_inv_lock [OF inv] Write(2))
  have alone: "sy_calls s j \<noteq> Answering q sn" if "j \<noteq> i" for j q sn
    using that lock system_inv_lock [OF inv, of j] by (metis holds.simps(2) option.inject)
  show ?thesis
    by (rule system_inv_move [OF inv, of s' i ph])
      (use Write(1,5) alone lock answer_write_keeps [OF db(1-3) Write(3) db(4) Write(4)] in \<open>auto dest: live_holds\<close>)
next
  case (Busy i p j)
  then have j: "holds (sy_calls s j)" using system_inv_lock [OF inv] by blast
  with Busy(2) have "j \<noteq> i" by auto
  show ?thesis using Busy(1) inv j live_holds [OF j] Busy(4) \<open>j \<noteq> i\<close>
    by (intro system_inv_same [OF inv, of s' i Returned]) (auto simp: system_inv_def)
next
  case (Lock i p)
  then show ?thesis by (intro system_inv_same [OF inv, of s' i "Holding p"]) (use inv in \<open>auto simp: system_inv_def\<close>)
next
  case (Exhausted i p)
  have "sy_lock s \<noteq> Some i" by (simp add: system_inv_lock [OF inv] Exhausted(2))
  with Exhausted(1) inv show ?thesis by (intro system_inv_same [OF inv, of s' i PassLimit]) (auto simp: system_inv_def)
next
  case (Full i p)
  have "sy_lock s = Some i" by (simp add: system_inv_lock [OF inv] Full(2))
  with Full(1) inv show ?thesis by (intro system_inv_same [OF inv, of s' i "Releasing p"]) (auto simp: system_inv_def)
next
  case (Unlock i p)
  have "sy_lock s = Some i" by (simp add: system_inv_lock [OF inv] Unlock(2))
  with Unlock(1) inv show ?thesis by (intro system_inv_same [OF inv, of s' i "Rechecking p"]) (auto simp: system_inv_def)
next
  case (More i p)
  have "sy_lock s \<noteq> Some i" by (simp add: system_inv_lock [OF inv] More(2))
  with More(1) inv show ?thesis by (intro system_inv_same [OF inv, of s' i "Trying p"]) (auto simp: system_inv_def)
next
  case (Done i p)
  have "sy_lock s \<noteq> Some i" by (simp add: system_inv_lock [OF inv] Done(2))
  with Done(1,3) inv show ?thesis by (intro system_inv_same [OF inv, of s' i Returned]) (auto simp: system_inv_def)
next
  case (Fail i)
  show ?thesis using Fail(1) inv by (intro system_inv_same [OF inv, of s' i Erred]) (auto simp: system_inv_def)
qed

definition system_init :: "string \<Rightarrow> System \<Rightarrow> bool" where
  "system_init b s \<longleftrightarrow>
     answered_once b (sy_db s) \<and> ids_ok (sy_db s) \<and> versions_ok b (sy_db s) \<and> sy_lock s = None \<and>
     (\<forall>i. sy_calls s i \<in> {Absent, Trying 0}) \<and> (latestIsUnanswered (sy_db s) b \<longrightarrow> (\<exists>i. sy_calls s i = Trying 0))"

lemma system_inv_init: "system_init b s \<Longrightarrow> system_inv b s"
proof -
  assume i: "system_init b s"
  then have "\<not> holds (sy_calls s j) \<and> (\<forall>p snap. sy_calls s j \<noteq> Answering p snap)" for j
    by (auto simp: system_init_def) (metis Phase.distinct holds.simps(4,5) insertE singletonD)+
  with i show ?thesis unfolding system_inv_def system_init_def by (metis live.simps(1) option.distinct(1))
qed

lemma system_inv_reachable:
  assumes "(turn_step b)\<^sup>*\<^sup>* s0 s" and "system_init b s0"
  shows "system_inv b s"
  using assms(1) by (induction rule: rtranclp_induct) (auto intro: system_inv_step system_inv_init [OF assms(2)])

subsection \<open>A whole call\<close>

text \<open>A build whose latest message waits for an answer, on sound tables.\<close>

definition awaits_answer :: "string \<Rightarrow> ChatDb \<Rightarrow> bool" where
  "awaits_answer b db \<longleftrightarrow>
     ids_ok db \<and> versions_ok b db \<and> find_build db b \<noteq> None \<and> latestIsUnanswered db b \<and>
     (case latest_spec db b of None \<Rightarrow> True | Some s \<Rightarrow> Spec_ok (sv_data s))"

lemma find_set_status [simp]: "find_build (set_status b' st now db) b = None \<longleftrightarrow> find_build db b = None"
proof -
  have "List.find (\<lambda>x. bd_id x = b) (map (\<lambda>r. if bd_id r = b' then r\<lparr>bd_status := st, bd_updatedAt := now\<rparr> else r) l) = None \<longleftrightarrow>
      List.find (\<lambda>x. bd_id x = b) l = None" for l
    by (induction l) auto
  then show ?thesis by (simp add: find_build_def set_status_def)
qed

lemma latest_set_status [simp]: "latest_message (set_status b' st now db) b = latest_message db b" "latest_spec (set_status b' st now db) b = latest_spec db b"
  by (simp_all add: latest_message_def messages_of_def latest_spec_def)

lemma awaits_set_status [simp]: "awaits_answer b (set_status b' st now db) = awaits_answer b db"
  by (simp add: awaits_answer_def latestIsUnanswered_def versions_ok_def)

lemma latest_version_pos:
  assumes "versions_ok b db" "latest_spec db b = Some s"
  shows "0 < sv_version s"
proof -
  have "build_specs b db \<noteq> []" using assms(2) by (auto simp: latest_spec_def split: list.splits)
  with latest_spec_versions [OF assms(1)] assms(2) show ?thesis by simp
qed

lemma answer_write_answered:
  assumes "answer_write b snap outcome nm now db = (Inr a, db')" "versions_ok b db" "snapshot_ok b db snap"
  shows "an_message_id a = nm \<and> an_status a = outcome_status (sn_previous snap) outcome \<and>
    (\<forall>v. an_spec_version a = Some v \<longrightarrow> 0 < v \<and> v \<le> Suc (length (build_specs b db))) \<and> (find_build db' x = None \<longleftrightarrow> find_build db x = None)"
proof -
  have pos: "0 < sv_version s \<and> sv_version s \<le> Suc (length (build_specs b db))" if "sn_latestSpec snap = Some s" for s
  proof -
    have l: "latest_spec db b = Some s" using that assms(3) unfolding snapshot_ok_def by metis
    show ?thesis using latest_version_pos [OF assms(2) l] latest_spec_versions [OF assms(2)] by (simp add: l)
  qed
  have new: "0 < sv_version row \<and> sv_version row \<le> Suc (length (build_specs b db))" if "new_spec b snap outcome = Some row" for row
    using that assms(3) latest_spec_versions [OF assms(2)] by (auto simp: new_spec_def snapshot_ok_def split: TurnOutcome.splits if_splits)
  have fb: "find_build (db\<lparr>cdb_messages := ms\<rparr>) x = find_build db x" "find_build (db\<lparr>cdb_messages := ms, cdb_specs := ss\<rparr>) x = find_build db x" for ms ss
    by (simp_all add: find_build_def)
  show ?thesis using assms(1) pos new
    by (auto simp: answer_write_def Let_def fb split: option.splits if_splits)
qed

text \<open>Such a build is either handed back untouched, or answered: the reply of the outcome becomes the latest message.\<close>

lemma answerLatest_awaiting:
  assumes "awaits_answer b db" and t: "latest_message db b = Some t"
  obtains (Back) snap where "sn_target snap = t" "handed_back mayRetry (turn snap)"
      "answerLatest turn mayRetry b nm now id db = (Inl (Thrown ''TURN_RETRYABLE''), set_status b StSpecifying now db)"
    | (Reply) snap a db' m where "sn_target snap = t" "\<not> handed_back mayRetry (turn snap)"
      "answerLatest turn mayRetry b nm now id db = (Inr (Some a), db')"
      "latest_message db' b = Some m" "bm_role m = ChatAssistant" "bm_text m = outcome_reply (turn snap)" "bm_createdAt m = bm_createdAt t + 1"
      "find_build db' b \<noteq> None" "an_message_id a = nm" "an_status a \<in> {StPlanning, StAsking}"
      "\<forall>v. an_spec_version a = Some v \<longrightarrow> 0 < v \<and> v \<le> Suc (length (build_specs b db))"
proof -
  from assms obtain build where bd: "find_build db b = Some build" and user: "bm_role t = ChatUser"
    by (auto simp: awaits_answer_def latestIsUnanswered_def)
  have "\<not> (case latest_spec db b of None \<Rightarrow> False | Some s \<Rightarrow> \<not> Spec_ok (sv_data s))"
    using assms(1) by (simp add: awaits_answer_def split: option.splits)
  then obtain snap where r: "answer_read b now db = (Inr (Some snap), set_status b StSpecifying now db)" and tgt: "sn_target snap = t"
    using t user bd by (simp add: answer_read_def)
  let ?db1 = "set_status b StSpecifying now db"
  have snap: "snapshot_ok b ?db1 snap" by (rule answer_read_snapshot [OF r])
  have v: "versions_ok b ?db1" using assms(1) by (simp add: awaits_answer_def versions_ok_def)
  show thesis
  proof (cases "handed_back mayRetry (turn snap)")
    case True
    then show ?thesis using r tgt by (intro Back) (simp_all add: answerLatest_def)
  next
    case False
    obtain a db' where w: "answer_write b snap (turn snap) nm now ?db1 = (Inr a, db')" by (rule answer_write_ok [OF v snap])
    obtain m where m: "cdb_messages db' = cdb_messages ?db1 @ [m]" "bm_buildId m = b" "bm_role m = ChatAssistant"
        "bm_text m = outcome_reply (turn snap)" "bm_createdAt m = bm_createdAt (sn_target snap) + 1"
      by (rule answer_write_rows [OF w snap]) (use assms(1) in \<open>simp_all add: awaits_answer_def\<close>)
    have "latest_message db' b = Some m"
    proof (rule latest_messageI)
      show "m \<in> set (cdb_messages db')" "bm_buildId m = b" using m by simp_all
      fix x assume "x \<in> set (cdb_messages db')" "bm_buildId x = b" "x \<noteq> m"
      with latest_messageD(3) [OF t] m(1,5) tgt show "message_key x < message_key m" by (fastforce simp: less_eq_prod_def less_prod_def)
    qed
    moreover have "outcome_status (sn_previous snap) (turn snap) \<in> {StPlanning, StAsking}"
      by (auto simp: outcome_status_def split: TurnOutcome.splits)
    ultimately show ?thesis using False r w m tgt bd answer_write_answered [OF w v snap, of b]
      by (intro Reply [of snap a db' m]) (simp_all add: answerLatest_def)
  qed
qed

subsection \<open>A run of two calls\<close>

text \<open>One message, two calls for it: the first answers with the fallback text, the second finds the lock taken.\<close>

definition desk_outcome :: TurnOutcome where
  "desk_outcome = ReplyOutcome (FailureReason MaxTokens) FALLBACK_REPLY None"

definition desk_start :: System where
  "desk_start = \<lparr>sy_db = desk_db, sy_lock = None, sy_calls = (\<lambda>i. if i < 2 then Trying 0 else Absent)\<rparr>"

definition desk_snapshot :: Snapshot where
  "desk_snapshot = \<lparr>sn_transcript = [desk_message], sn_target = desk_message, sn_latestSpec = None, sn_rounds = 0, sn_owner = (None, Some ''h'')\<rparr>"

definition desk_replied :: ChatDb where
  "desk_replied = snd (answer_write desk_build desk_snapshot desk_outcome ''r'' 8 (set_status desk_build StSpecifying 7 desk_db))"

definition desk_end :: System where
  "desk_end = \<lparr>sy_db = desk_replied, sy_lock = None, sy_calls = (\<lambda>i. if i < 2 then Returned else Absent)\<rparr>"

lemma desk_replied_messages:
  "cdb_messages desk_replied = [desk_message, \<lparr>bm_id = ''r'', bm_buildId = desk_build, bm_role = ChatAssistant, bm_text = FALLBACK_REPLY,
     bm_clientMessageId = None, bm_createdAt = 6\<rparr>]"
  by (simp add: desk_replied_def answer_write_def desk_snapshot_def desk_outcome_def new_spec_def outcome_reply_def desk_db_def
      desk_message_def Let_def)

lemma desk_init: "system_init desk_build desk_start"
  by (simp add: system_init_def desk_start_def answered_once_def versions_ok_def desk_db_def desk_message_def latestIsUnanswered_def
      exI [of _ 0])

lemma desk_latest: "latest_message desk_replied desk_build = Some (cdb_messages desk_replied ! 1)"
  by (rule latest_messageI) (auto simp: desk_replied_messages desk_message_def)

lemma desk_reads:
  "answer_read desk_build 7 desk_db = (Inr (Some desk_snapshot), set_status desk_build StSpecifying 7 desk_db)"
  "answer_read desk_build 9 desk_replied = (Inr None, desk_replied)"
proof -
  have "latest_message desk_db desk_build = Some desk_message" "latest_spec desk_db desk_build = None"
    by (simp_all add: latest_message_def messages_of_def latest_spec_def desk_db_def desk_message_def)
  then show "answer_read desk_build 7 desk_db = (Inr (Some desk_snapshot), set_status desk_build StSpecifying 7 desk_db)"
    by (simp add: answer_read_def find_build_def messages_of_def rounds_used_def desk_snapshot_def desk_db_def desk_message_def)
  show "answer_read desk_build 9 desk_replied = (Inr None, desk_replied)"
    by (simp add: answer_read_def desk_latest desk_replied_messages split: option.splits)
qed

definition desk_mid :: System where
  "desk_mid = \<lparr>sy_db = set_status desk_build StSpecifying 7 desk_db, sy_lock = Some 0,
     sy_calls = (\<lambda>i. if i = 0 then Answering 0 desk_snapshot else if i = 1 then Trying 0 else Absent)\<rparr>"

lemma desk_run_mid: "(turn_step desk_build)\<^sup>*\<^sup>* desk_start desk_mid"
proof -
  define s1 where "s1 = (move desk_start 0 (Holding 0))\<lparr>sy_lock := Some 0\<rparr>"
  have "turn_step desk_build desk_start s1" unfolding s1_def by (rule Lock [where p = 0]) (simp_all add: desk_start_def MAX_PASSES_def)
  moreover have "turn_step desk_build s1 ((move s1 0 (Answering 0 desk_snapshot))\<lparr>sy_db := set_status desk_build StSpecifying 7 desk_db\<rparr>)"
    by (rule Read [where p = 0 and now = 7]) (simp_all add: s1_def desk_start_def MAX_PASSES_def desk_reads)
  moreover have "(move s1 0 (Answering 0 desk_snapshot))\<lparr>sy_db := set_status desk_build StSpecifying 7 desk_db\<rparr> = desk_mid"
    by (auto simp: s1_def desk_start_def desk_mid_def fun_eq_iff)
  ultimately show ?thesis by (simp add: converse_rtranclp_into_rtranclp)
qed

lemma desk_run: "(turn_step desk_build)\<^sup>*\<^sup>* desk_start desk_end"
proof -
  define s3 where "s3 = move desk_mid 1 Returned"
  define s4 where "s4 = (move s3 0 (Holding 1))\<lparr>sy_db := desk_replied\<rparr>"
  define s5 where "s5 = (move s4 0 (Releasing 1))\<lparr>sy_db := desk_replied\<rparr>"
  define s6 where "s6 = (move s5 0 (Rechecking 1))\<lparr>sy_lock := None\<rparr>"
  note defs = desk_mid_def s3_def s4_def s5_def s6_def MAX_PASSES_def
  obtain a where w: "answer_write desk_build desk_snapshot desk_outcome ''r'' 8 (set_status desk_build StSpecifying 7 desk_db) = (Inr a, desk_replied)"
    by (simp add: desk_replied_def answer_write_def desk_snapshot_def desk_outcome_def new_spec_def desk_db_def desk_message_def Let_def)
  note desk_run_mid
  also have "turn_step desk_build desk_mid s3" unfolding s3_def by (rule Busy [where p = 0 and j = 0]) (simp_all add: defs)
  also have "turn_step desk_build s3 s4" unfolding s4_def
    by (rule Write [where p = 0 and snap = desk_snapshot and nm = "''r''" and outcome = desk_outcome and now = 8, OF _ _ _])
      (use w in \<open>simp_all add: defs fresh_id_def desk_db_def desk_message_def set_status_def\<close>)
  also have "turn_step desk_build s4 s5" unfolding s5_def by (rule Nothing [where p = 1 and now = 9]) (simp_all add: defs desk_reads)
  also have "turn_step desk_build s5 s6" unfolding s6_def by (rule Unlock [where p = 1]) (simp add: defs)
  also have "turn_step desk_build s6 (move s6 0 Returned)"
    by (rule Done [where p = 1]) (simp_all add: defs latestIsUnanswered_def desk_latest desk_replied_messages)
  also have "move s6 0 Returned = desk_end" by (auto simp: defs desk_end_def fun_eq_iff)
  finally show ?thesis .
qed

text \<open>
  C3. Every answered message is answered once: however many calls for a build run at once, in any interleaving with messages being
  posted, every assistant message directly follows one user message, and no user message has two.
\<close>

theorem answers_exactly_once:
  assumes "system_init b s0" and "(turn_step b)\<^sup>*\<^sup>* s0 s"
    and "a \<in> set (cdb_messages (sy_db s))" "bm_buildId a = b" "bm_role a = ChatAssistant"
  shows "(\<exists>!u. u \<in> set (cdb_messages (sy_db s)) \<and> bm_buildId u = b \<and> bm_role u = ChatUser \<and> bm_createdAt a = bm_createdAt u + 1) \<and>
    (\<forall>a' \<in> set (cdb_messages (sy_db s)). bm_buildId a' = b \<longrightarrow> bm_role a' = ChatAssistant \<longrightarrow> bm_createdAt a' = bm_createdAt a \<longrightarrow> a' = a)"
proof -
  have inv: "answered_once b (sy_db s)" using system_inv_reachable [OF assms(2,1)] by (simp add: system_inv_def)
  then obtain u where u: "u \<in> set (cdb_messages (sy_db s))" "bm_buildId u = b" "bm_role u = ChatUser" "bm_createdAt a = bm_createdAt u + 1"
    using assms(3-5) unfolding answered_once_def by auto
  have "v = u" if "v \<in> set (cdb_messages (sy_db s))" "bm_buildId v = b" "bm_role v = ChatUser" "bm_createdAt a = bm_createdAt v + 1" for v
    using inv u that unfolding answered_once_def by fastforce
  with u have "\<exists>!u. u \<in> set (cdb_messages (sy_db s)) \<and> bm_buildId u = b \<and> bm_role u = ChatUser \<and> bm_createdAt a = bm_createdAt u + 1"
    by blast
  moreover have "a' = a" if "a' \<in> set (cdb_messages (sy_db s))" "bm_buildId a' = b" "bm_role a' = ChatAssistant" "bm_createdAt a' = bm_createdAt a" for a'
    using inv assms(3-5) that unfolding answered_once_def by simp
  ultimately show ?thesis by blast
qed

theorem answers_exactly_once_witness:
  "\<exists>!u. u \<in> set (cdb_messages desk_replied) \<and> bm_buildId u = desk_build \<and> bm_role u = ChatUser \<and> 6 = bm_createdAt u + 1"
  using answers_exactly_once [OF desk_init desk_run, of "cdb_messages desk_replied ! 1"] by (simp add: desk_end_def desk_replied_messages)



text \<open>
  The final write cannot fail on what the turn read: while a call answers, the message it answers is still there and the
  next specification version is free, so the transaction goes through, and the versions of a build are always \<open>1, 2, \<dots>\<close> without a gap.
\<close>

theorem answer_write_succeeds:
  assumes "system_init b s0" and "(turn_step b)\<^sup>*\<^sup>* s0 s" and "sy_calls s i = Answering p snap"
  shows "(\<exists>a db'. answer_write b snap outcome nm now (sy_db s) = (Inr a, db') \<and> an_message_id a = nm) \<and>
    (\<exists>n. map sv_version (filter (\<lambda>r. sv_buildId r = b) (cdb_specs (sy_db s))) = [1..<Suc n])"
proof -
  have inv: "versions_ok b (sy_db s)" "snapshot_ok b (sy_db s) snap"
    using system_inv_reachable [OF assms(2,1)] assms(3) by (auto simp: system_inv_def)
  obtain a db' where "answer_write b snap outcome nm now (sy_db s) = (Inr a, db')" "an_message_id a = nm"
    by (rule answer_write_ok [OF inv])
  with inv(1) show ?thesis unfolding versions_ok_def by blast
qed

theorem answer_write_succeeds_witness:
  "\<exists>a db'. answer_write desk_build desk_snapshot desk_outcome ''r'' 8 (sy_db desk_mid) = (Inr a, db')"
proof -
  have "sy_calls desk_mid 0 = Answering 0 desk_snapshot" by (simp add: desk_mid_def)
  from answer_write_succeeds [OF desk_init desk_run_mid this, of desk_outcome "''r''" 8] show ?thesis by blast
qed

text \<open>
  A call that may not hand the turn back answers it, whatever the turn's outcome: on a build whose latest message is a user message
  and whose stored specification is valid, the reply of the outcome becomes the latest message unless a newer message arrived meanwhile.
\<close>

theorem answerLatest_answers:
  assumes "awaits_answer b db" and "latest_message db b = Some t"
  shows "\<exists>a db' m snap. answerLatest turn False b nm now id db = (Inr (Some a), db') \<and> sn_target snap = t \<and>
     latest_message db' b = Some m \<and> bm_role m = ChatAssistant \<and> bm_text m = outcome_reply (turn snap) \<and> bm_createdAt m = bm_createdAt t + 1"
proof (cases rule: answerLatest_awaiting [OF assms, of False turn nm now, case_names Back Reply])
  case (Back snap)
  then show ?thesis by (simp add: handed_back_def)
next
  case (Reply snap a db' m)
  then show ?thesis by blast
qed

theorem answerLatest_answers_witness:
  "\<exists>a db' m. answerLatest (\<lambda>_. desk_outcome) False desk_build ''r'' 8 id desk_db = (Inr (Some a), db') \<and>
     latest_message db' desk_build = Some m \<and> bm_text m = FALLBACK_REPLY"
proof -
  have latest: "latest_message desk_db desk_build = Some desk_message" "latest_spec desk_db desk_build = None"
    by (simp_all add: latest_message_def messages_of_def latest_spec_def desk_db_def desk_message_def)
  then have "awaits_answer desk_build desk_db"
    by (simp add: awaits_answer_def latestIsUnanswered_def find_build_def desk_db_def desk_message_def versions_ok_def exI [of _ 0])
  from answerLatest_answers [OF this latest(1), of "\<lambda>_. desk_outcome" "''r''" 8] show ?thesis
    by (simp add: outcome_reply_def desk_outcome_def) blast
qed

end
