(* ===== verification/Turn_Scheduler.thy ===== *)
theory Turn_Scheduler
  imports Plan_Schema
begin

text \<open>
  The gateway's side of a turn, \<open>apps/gateway/src/intake.ts\<close>: what an intake response means, the one retry, and the scheduler that runs
  one turn per build at a time and remembers a trigger that came meanwhile. Timers, tokens and log lines are left out; the call to intake,
  its deadline included, is a parameter.
\<close>

subsection \<open>The response of intake\<close>

datatype TurnResult = TurnNoop | TurnDone string "int option" string

definition member_of :: "string \<Rightarrow> (string \<times> jvalue) list \<Rightarrow> jvalue" where
  "member_of k kvs = (case map_of kvs k of None \<Rightarrow> JUndefined | Some v \<Rightarrow> v)"

fun int_of_num :: "jsnum \<Rightarrow> int option" where
  "int_of_num (Fin q) = (let (n, d) = quotient_of q in if d = 1 \<and> \<bar>n\<bar> \<le> 9007199254740991 then Some n else None)"
| "int_of_num _ = None"

fun TurnResult_parse :: "jvalue \<Rightarrow> TurnResult option" where
  "TurnResult_parse (JObj kvs) =
     (if member_of ''noop'' kvs = JBool True then Some TurnNoop
      else case (member_of ''message_id'' kvs, member_of ''spec_version'' kvs, member_of ''status'' kvs) of
             (JStr m, JNull, JStr s) \<Rightarrow> Some (TurnDone m None s)
           | (JStr m, JNum n, JStr s) \<Rightarrow> map_option (\<lambda>v. TurnDone m (Some v) s) (int_of_num n)
           | _ \<Rightarrow> None)"
| "TurnResult_parse _ = None"

text \<open>What a call can end with: an \<open>IntakeError\<close> with its status, or another thrown value with its class.\<close>

datatype IntakeFault = IntakeError string "nat option" | OtherError string bool | NotAnError

record HttpResponse =
  hr_status :: nat
  hr_json :: "jvalue option"

definition response_ok :: "HttpResponse \<Rightarrow> bool" where
  "response_ok r \<longleftrightarrow> 200 \<le> hr_status r \<and> hr_status r \<le> 299"

definition read_turn :: "HttpResponse \<Rightarrow> IntakeFault + TurnResult" where
  "read_turn response =
     (if \<not> response_ok response then Inl (IntakeError (''intake answered '' @ nat_str (hr_status response)) (Some (hr_status response)))
      else case Option.bind (hr_json response) TurnResult_parse of
             None \<Rightarrow> Inl (IntakeError ''intake answered 2xx with an unexpected body'' (Some (hr_status response)))
           | Some result \<Rightarrow> Inr result)"

definition turn_body :: "string \<Rightarrow> bool \<Rightarrow> jvalue" where
  "turn_body buildId mayRetry = JObj [(''build_id'', JStr buildId), (''may_retry'', JBool mayRetry)]"

definition endpoint :: "string \<Rightarrow> string" where
  "endpoint url = rev (dropWhile (\<lambda>c. c = CHR ''/'') (rev url)) @ ''/v1/turns''"

subsection \<open>One turn, with one retry\<close>

fun isRetryable :: "IntakeFault \<Rightarrow> bool" where
  "isRetryable (IntakeError msg st) = (case st of None \<Rightarrow> False | Some n \<Rightarrow> n \<ge> 500)"
| "isRetryable (OtherError name type_error) =
     (if name = ''TimeoutError'' \<or> name = ''AbortError'' then False else type_error)"
| "isRetryable NotAnError = False"

text \<open>One attempt as it is traced: its number, whether intake may hand it back, and its result.\<close>

type_synonym Attempt = "nat \<times> bool \<times> (IntakeFault + TurnResult)"

function attempts_from ::
    "(bool \<Rightarrow> 'w \<Rightarrow> (IntakeFault + TurnResult) \<times> 'w) \<Rightarrow> ('w \<Rightarrow> 'w) \<Rightarrow> nat \<Rightarrow> 'w \<Rightarrow> 'w \<times> Attempt list" where
  "attempts_from turn sleep attempt w =
     (let mayRetry = (attempt = 1); (result, w1) = turn mayRetry w in
      case result of
        Inr _ \<Rightarrow> (w1, [(attempt, mayRetry, result)])
      | Inl error \<Rightarrow>
          if attempt = 1 \<and> isRetryable error
          then (let (w2, rest) = attempts_from turn sleep (Suc attempt) (sleep w1) in (w2, (attempt, mayRetry, result) # rest))
          else (w1, [(attempt, mayRetry, result)]))"
  by pat_completeness auto
termination
  by (relation "measure (\<lambda>(turn, sleep, attempt, w). 2 - attempt)") auto

text \<open>\<open>intake\<close> is null when the service has no URL.\<close>

definition runOnce ::
    "(string \<Rightarrow> bool \<Rightarrow> 'w \<Rightarrow> (IntakeFault + TurnResult) \<times> 'w) option \<Rightarrow> ('w \<Rightarrow> 'w) \<Rightarrow> string \<Rightarrow> 'w \<Rightarrow> 'w \<times> Attempt list" where
  "runOnce intake sleep buildId w =
     (case intake of None \<Rightarrow> (w, []) | Some turn \<Rightarrow> attempts_from (turn buildId) sleep 1 w)"

declare attempts_from.simps [simp del]

subsection \<open>The scheduler\<close>

text \<open>
  The map of running builds with their \<open>again\<close> flag, and the history, newest first: triggers, and the starts and ends of runs.
  A trigger runs up to the first \<open>await\<close> without interruption, so a first run starts together with its trigger; the end of a run, the
  test of \<open>again\<close> and the next start or the removal happen in one step.
\<close>

datatype SchedEvent = Triggered string | Started string | Ended string

record Scheduler =
  sc_running :: "string \<Rightarrow> bool option"
  sc_history :: "SchedEvent list"

definition trigger :: "string \<Rightarrow> Scheduler \<Rightarrow> Scheduler" where
  "trigger b s =
     (case sc_running s b of
        Some _ \<Rightarrow> s\<lparr>sc_running := (sc_running s)(b \<mapsto> True), sc_history := Triggered b # sc_history s\<rparr>
      | None \<Rightarrow> s\<lparr>sc_running := (sc_running s)(b \<mapsto> False), sc_history := Started b # Triggered b # sc_history s\<rparr>)"

definition run_ends :: "string \<Rightarrow> Scheduler \<Rightarrow> Scheduler" where
  "run_ends b s =
     (case sc_running s b of
        None \<Rightarrow> s
      | Some True \<Rightarrow> s\<lparr>sc_running := (sc_running s)(b \<mapsto> False), sc_history := Started b # Ended b # sc_history s\<rparr>
      | Some False \<Rightarrow> s\<lparr>sc_running := (sc_running s)(b := None), sc_history := Ended b # sc_history s\<rparr>)"

definition isRunning :: "string \<Rightarrow> Scheduler \<Rightarrow> bool" where
  "isRunning b s \<longleftrightarrow> sc_running s b \<noteq> None"

definition sched_init :: Scheduler where
  "sched_init = \<lparr>sc_running = (\<lambda>_. None), sc_history = []\<rparr>"

inductive sched_step :: "Scheduler \<Rightarrow> Scheduler \<Rightarrow> bool" where
  SchedTrigger: "sched_step s (trigger b s)"
| SchedEnd: "isRunning b s \<Longrightarrow> sched_step s (run_ends b s)"

subsection \<open>Retries\<close>

text \<open>
  A turn is tried at most twice. Intake may hand back only the first attempt, and there is a second exactly when the first ended in a
  network failure or a 5xx; a 4xx, an unexpected body and the gateway's own timeout are not tried again.
\<close>

theorem runOnce_attempts:
  "(\<exists>r. snd (runOnce (Some turn) sleep b w) = [(1, True, r)] \<and> (\<forall>e. r = Inl e \<longrightarrow> \<not> isRetryable e)) \<or>
   (\<exists>e r. snd (runOnce (Some turn) sleep b w) = [(1, True, Inl e), (2, False, r)] \<and> isRetryable e)"
proof -
  obtain r w1 where t: "turn b True w = (r, w1)" by (metis surj_pair)
  obtain r2 w2 where t2: "turn b False (sleep w1) = (r2, w2)" by (metis surj_pair)
  have "\<exists>w'. attempts_from (turn b) sleep (Suc 1) (sleep w1) = (w', [(2, False, r2)])"
    using t2 by (cases r2) (simp_all add: attempts_from.simps numeral_2_eq_2)
  then show ?thesis using t
    by (cases r) (auto simp: runOnce_def attempts_from.simps [of "turn b" sleep "Suc 0"] numeral_2_eq_2 split: prod.splits)
qed

theorem runOnce_attempts_witness:
  "\<exists>r. snd (runOnce (Some (\<lambda>b m w. (Inl (IntakeError ''intake answered 503'' (Some 503)), w))) id ''b'' ()) = [(1, True, r), (2, False, r)]"
  using runOnce_attempts [of "\<lambda>b m w. (Inl (IntakeError ''intake answered 503'' (Some 503)), w)" id "''b''" "()"]
  by (simp add: runOnce_def attempts_from.simps)

subsection \<open>Every trigger is served\<close>

fun unserved :: "string \<Rightarrow> SchedEvent list \<Rightarrow> bool" where
  "unserved b [] = False"
| "unserved b (Started c # h) = (c \<noteq> b \<and> unserved b h)"
| "unserved b (Triggered c # h) = (c = b \<or> unserved b h)"
| "unserved b (Ended c # h) = unserved b h"

text \<open>Runs started and not ended.\<close>

fun open_runs :: "string \<Rightarrow> SchedEvent list \<Rightarrow> int" where
  "open_runs b [] = 0"
| "open_runs b (Started c # h) = open_runs b h + (if c = b then 1 else 0)"
| "open_runs b (Triggered c # h) = open_runs b h"
| "open_runs b (Ended c # h) = open_runs b h - (if c = b then 1 else 0)"

fun never_two :: "string \<Rightarrow> SchedEvent list \<Rightarrow> bool" where
  "never_two b [] = True"
| "never_two b (e # h) = (open_runs b (e # h) \<in> {0, 1} \<and> never_two b h)"

definition sched_inv :: "Scheduler \<Rightarrow> bool" where
  "sched_inv s \<longleftrightarrow> (\<forall>b. (unserved b (sc_history s) \<longleftrightarrow> sc_running s b = Some True) \<and>
     open_runs b (sc_history s) = (if sc_running s b = None then 0 else 1) \<and>
     never_two b (sc_history s))"

lemma never_two_drop: "never_two b h \<Longrightarrow> open_runs b (drop n h) \<in> {0, 1}"
proof (induction h arbitrary: n)
  case (Cons e h)
  then show ?case by (cases n) auto
qed simp

lemma sched_inv_init: "sched_inv sched_init"
  by (simp add: sched_inv_def sched_init_def)

lemma sched_inv_step: "sched_step s s' \<Longrightarrow> sched_inv s \<Longrightarrow> sched_inv s'"
proof (induction rule: sched_step.induct)
  case (SchedTrigger s c)
  then show ?case
    by (cases "sc_running s c") (auto simp: sched_inv_def trigger_def)
next
  case (SchedEnd c s)
  then obtain a where "sc_running s c = Some a" by (auto simp: isRunning_def)
  with SchedEnd(2) show ?case
    by (cases a) (auto simp: sched_inv_def run_ends_def)
qed

lemma sched_inv_reachable: "sched_step\<^sup>*\<^sup>* sched_init s \<Longrightarrow> sched_inv s"
  by (induction rule: rtranclp_induct) (auto intro: sched_inv_step sched_inv_init)

lemma served: "\<not> unserved b h \<Longrightarrow> i < length h \<Longrightarrow> h ! i = Triggered b \<Longrightarrow> \<exists>j < i. h ! j = Started b"
proof (induction h arbitrary: i)
  case (Cons e h)
  show ?case
  proof (cases i)
    case 0
    with Cons.prems show ?thesis by simp
  next
    case (Suc i')
    show ?thesis
    proof (cases "e = Started b")
      case True
      then show ?thesis using Suc by auto
    next
      case False
      with Cons.prems(1) have "\<not> unserved b h" by (cases e) auto
      with Cons Suc obtain j where "j < i'" "h ! j = Started b" by auto
      then show ?thesis using Suc by (intro exI [of _ "Suc j"]) simp
    qed
  qed
qed simp

text \<open>
  No trigger is lost: whenever no turn for a build is running, every trigger for it was followed by the start of a run, and at no
  moment did two runs for one build overlap.
\<close>

theorem trigger_served:
  assumes "sched_step\<^sup>*\<^sup>* sched_init s"
  shows "(\<not> isRunning b s \<longrightarrow> (\<forall>i < length (sc_history s). sc_history s ! i = Triggered b \<longrightarrow> (\<exists>j < i. sc_history s ! j = Started b))) \<and>
    (\<forall>n. open_runs b (drop n (sc_history s)) \<in> {0, 1})"
proof -
  have inv: "sched_inv s" by (rule sched_inv_reachable [OF assms])
  then have "\<not> isRunning b s \<Longrightarrow> \<not> unserved b (sc_history s)" by (auto simp: sched_inv_def isRunning_def)
  with inv show ?thesis using served never_two_drop unfolding sched_inv_def by blast
qed

text \<open>Two triggers while a run is going on, and both runs.\<close>

definition busy_day :: Scheduler where
  "busy_day = run_ends ''b'' (run_ends ''b'' (trigger ''b'' (trigger ''b'' sched_init)))"

theorem trigger_served_witness:
  "\<not> isRunning ''b'' busy_day \<and> sc_history busy_day ! 3 = Triggered ''b'' \<and> (\<exists>j < 3. sc_history busy_day ! j = Started ''b'')"
proof -
  note defs = busy_day_def run_ends_def trigger_def sched_init_def isRunning_def
  have "sched_step\<^sup>*\<^sup>* sched_init busy_day"
  proof -
    have "sched_step\<^sup>*\<^sup>* sched_init sched_init" by simp
    also have "sched_step sched_init (trigger ''b'' sched_init)" by (rule SchedTrigger)
    also have "sched_step (trigger ''b'' sched_init) (trigger ''b'' (trigger ''b'' sched_init))" by (rule SchedTrigger)
    also have "sched_step (trigger ''b'' (trigger ''b'' sched_init)) (run_ends ''b'' (trigger ''b'' (trigger ''b'' sched_init)))"
      by (rule SchedEnd) (simp add: defs)
    also have "sched_step (run_ends ''b'' (trigger ''b'' (trigger ''b'' sched_init))) busy_day"
      unfolding busy_day_def by (rule SchedEnd) (simp add: defs)
    finally show ?thesis .
  qed
  from trigger_served [OF this, of "''b''"] show ?thesis by (simp add: defs)
qed

subsection \<open>What the gateway needs of intake\<close>

text \<open>
  The contract between the two services, over a world they share. \<open>ready\<close> is a world in which a build waits for its answer. A call that
  succeeds, and every call that may not hand the turn back, answers the build; a call that may hand it back fails only in ways worth a
  retry and leaves the build waiting.
\<close>

locale turn_service =
  fixes turn :: "string \<Rightarrow> bool \<Rightarrow> 'w \<Rightarrow> (IntakeFault + TurnResult) \<times> 'w"
    and ready :: "string \<Rightarrow> 'w \<Rightarrow> bool" and answered :: "string \<Rightarrow> 'w \<Rightarrow> bool"
  assumes last_word: "ready b w \<Longrightarrow> \<exists>r w'. turn b False w = (Inr r, w') \<and> answered b w'"
    and first_word: "ready b w \<Longrightarrow> turn b True w = (Inr r, w') \<Longrightarrow> answered b w'"
    and handed_over: "ready b w \<Longrightarrow> turn b True w = (Inl e, w') \<Longrightarrow> isRetryable e \<and> ready b w'"
begin

lemma runOnce_answered:
  assumes "ready b w" and "\<And>w. ready b w \<Longrightarrow> ready b (sleep w)"
  shows "answered b (fst (runOnce (Some turn) sleep b w)) \<and> (\<exists>k m r. last (snd (runOnce (Some turn) sleep b w)) = (k, m, Inr r))"
proof -
  obtain res w1 where t: "turn b True w = (res, w1)" by (metis surj_pair)
  show ?thesis
  proof (cases res)
    case (Inr r)
    with t have "runOnce (Some turn) sleep b w = (w1, [(1, True, Inr r)])" by (simp add: runOnce_def attempts_from.simps [of "turn b" sleep "Suc 0"])
    with first_word [OF assms(1)] t Inr show ?thesis by auto
  next
    case (Inl e)
    with handed_over [OF assms(1)] t have e: "isRetryable e" "ready b w1" by auto
    with last_word assms(2) obtain r w2 where l: "turn b False (sleep w1) = (Inr r, w2)" "answered b w2" by blast
    have "runOnce (Some turn) sleep b w = (w2, [(1, True, Inl e), (2, False, Inr r)])"
      using t Inl e l
      by (simp add: runOnce_def attempts_from.simps [of "turn b" sleep "Suc 0"] attempts_from.simps [of "turn b" sleep "Suc (Suc 0)"])
    with l show ?thesis by auto
  qed
qed

end

end
