(* ===== verification/Intake_Service.thy ===== *)
theory Intake_Service
  imports Intake_Handler Turn_Scheduler
begin

text \<open>
  Intake's HTTP surface, \<open>apps/intake/src/app.ts\<close> and \<open>db-errors.ts\<close>, and what the gateway makes of it: the route \<open>POST /v1/turns\<close> over
  the chat tables is an instance of the contract \<open>turn_service\<close> the gateway's retry relies on. Here one call runs alone; concurrent calls
  are the subject of \<open>Intake_Handler\<close>.
\<close>

subsection \<open>Errors\<close>

definition TIMEOUT_MESSAGES :: "string list" where
  "TIMEOUT_MESSAGES =
     [''timeout exceeded when trying to connect'', ''Connection terminated due to connection timeout'', ''Query read timeout'']"

definition CONNECTION_MESSAGES :: "string list" where
  "CONNECTION_MESSAGES = [''Connection terminated unexpectedly'', ''Connection terminated'']"

definition CONNECTION_CODES :: "string list" where
  "CONNECTION_CODES = [''ECONNREFUSED'', ''ECONNRESET'', ''ETIMEDOUT'', ''EHOSTUNREACH'', ''ENETUNREACH'', ''EPIPE'']"

definition UNAVAILABLE_CODES :: "string list" where
  "UNAVAILABLE_CODES = [''DB_CLEANUP_TIMEOUT'', ''DB_CLEANUP_FAILED'', ''DB_BUDGET_EXCEEDED'']"

definition UNAVAILABLE_SQLSTATES :: "string list" where
  "UNAVAILABLE_SQLSTATES = [''57014'', ''57P01'', ''57P02'', ''57P03'', ''53300'']"

text \<open>An error as its chain of causes: the code, when it has a string one, and the message of each.\<close>

type_synonym error_chain = "(string option \<times> string) list"

definition link_unavailable :: "string option \<times> string \<Rightarrow> bool" where
  "link_unavailable e \<longleftrightarrow>
     (case fst e of None \<Rightarrow> False | Some code \<Rightarrow> code \<in> set CONNECTION_CODES \<or> code \<in> set UNAVAILABLE_SQLSTATES \<or> code \<in> set UNAVAILABLE_CODES) \<or>
     snd e \<in> set TIMEOUT_MESSAGES \<or> snd e \<in> set CONNECTION_MESSAGES"

definition isDatabaseUnavailable :: "error_chain \<Rightarrow> bool" where
  "isDatabaseUnavailable chain = list_ex link_unavailable (take 5 chain)"

text \<open>The model's errors name the code they carry.\<close>

fun chain_of :: "js_error \<Rightarrow> error_chain" where
  "chain_of (Thrown code) = [(Some code, [])]"
| "chain_of _ = [(None, [])]"

definition error_status :: "js_error \<Rightarrow> nat" where
  "error_status e = (if e = Thrown ''TURN_RETRYABLE'' then 503 else if isDatabaseUnavailable (chain_of e) then 503 else 500)"

subsection \<open>The route\<close>

text \<open>Zod's \<open>uuid\<close>: a version from 1 to 8 and the RFC variant, or one of the two special values.\<close>

definition z_uuid :: rx where
  "z_uuid =
     Alts [Seq (Times 8 (Cls hex_any)) (Seq (Chr (CHR ''-'')) (Seq (Times 4 (Cls hex_any)) (Seq (Chr (CHR ''-''))
             (Seq (Cls (between (CHR ''1'') (CHR ''8''))) (Seq (Times 3 (Cls hex_any)) (Seq (Chr (CHR ''-''))
               (Seq (Cls (one_of ''89abAB'')) (Seq (Times 3 (Cls hex_any)) (Seq (Chr (CHR ''-'')) (Times 12 (Cls hex_any))))))))))),
           Lit ''00000000-0000-0000-0000-000000000000'', Lit ''ffffffff-ffff-ffff-ffff-ffffffffffff'']"

text \<open>The body: a build id and \<open>may_retry\<close>, false when absent.\<close>

fun IntakeTurnRequest :: "jvalue \<Rightarrow> (string \<times> bool) option" where
  "IntakeTurnRequest (JObj kvs) =
     (case (member_of ''build_id'' kvs, member_of ''may_retry'' kvs) of
        (JStr i, JUndefined) \<Rightarrow> if rx_full z_uuid i then Some (i, False) else None
      | (JStr i, JBool m) \<Rightarrow> if rx_full z_uuid i then Some (i, m) else None
      | _ \<Rightarrow> None)"
| "IntakeTurnRequest _ = None"

definition IntakeTurnResponse_ok :: "Answered \<Rightarrow> bool" where
  "IntakeTurnResponse_ok a \<longleftrightarrow>
     rx_full z_uuid (an_message_id a) \<and> (case an_spec_version a of None \<Rightarrow> True | Some v \<Rightarrow> 0 < v) \<and>
     an_status a \<in> {StSpecifying, StAsking, StPlanning}"

definition answered_json :: "Answered \<Rightarrow> jvalue" where
  "answered_json a =
     JObj [(''message_id'', JStr (an_message_id a)),
           (''spec_version'', (case an_spec_version a of None \<Rightarrow> JNull | Some v \<Rightarrow> JNum (Fin (of_nat v)))),
           (''status'', JStr (status_name (an_status a)))]"

text \<open>The passes of \<open>answerWhileUnanswered\<close> for a call that runs alone: it always gets the lock, and the ids are drawn per pass.\<close>

fun answer_passes ::
    "(Snapshot \<Rightarrow> TurnOutcome) \<Rightarrow> bool \<Rightarrow> string \<Rightarrow> (nat \<Rightarrow> string) \<Rightarrow> nat \<Rightarrow> nat \<Rightarrow> Answered option \<Rightarrow> ChatDb \<Rightarrow> (js_error + Answered option) \<times> ChatDb" where
  "answer_passes turn mayRetry b ids now 0 last_answer db = (Inr last_answer, db)"
| "answer_passes turn mayRetry b ids now (Suc left) last_answer db =
     (case answerLatest turn mayRetry b (ids left) now id db of
        (Inl e, db1) \<Rightarrow> (Inl e, db1)
      | (Inr None, db1) \<Rightarrow> (Inr last_answer, db1)
      | (Inr (Some a), db1) \<Rightarrow> answer_passes turn mayRetry b ids now left (Some a) db1)"

definition handle_turn ::
    "(Snapshot \<Rightarrow> TurnOutcome) \<Rightarrow> bool \<Rightarrow> string \<Rightarrow> (nat \<Rightarrow> string) \<Rightarrow> nat \<Rightarrow> ChatDb \<Rightarrow> (js_error + Answered option option) \<times> ChatDb" where
  "handle_turn turn mayRetry b ids now db =
     (if find_build db b = None then (Inr None, db)
      else case answer_passes turn mayRetry b ids now MAX_PASSES None db of (r, db1) \<Rightarrow> (map_sum id Some r, db1))"

definition error_reply :: "nat \<Rightarrow> string \<Rightarrow> HttpResponse" where
  "error_reply st code = \<lparr>hr_status = st, hr_json = Some (JObj [(''error'', JObj [(''code'', JStr code)])])\<rparr>"

definition post_turns ::
    "(Snapshot \<Rightarrow> TurnOutcome) \<Rightarrow> (nat \<Rightarrow> string) \<Rightarrow> nat \<Rightarrow> jvalue \<Rightarrow> ChatDb \<Rightarrow> HttpResponse \<times> ChatDb" where
  "post_turns turn ids now body db =
     (case IntakeTurnRequest body of
        None \<Rightarrow> (error_reply 400 ''BAD_REQUEST'', db)
      | Some (b, mayRetry) \<Rightarrow>
          (case handle_turn turn mayRetry b ids now db of
             (Inl e, db1) \<Rightarrow> (error_reply (error_status e) (if error_status e = 503 then ''UNAVAILABLE'' else ''INTERNAL''), db1)
           | (Inr None, db1) \<Rightarrow> (error_reply 404 ''NOT_FOUND'', db1)
           | (Inr (Some None), db1) \<Rightarrow> (\<lparr>hr_status = 200, hr_json = Some (JObj [(''noop'', JBool True)])\<rparr>, db1)
           | (Inr (Some (Some a)), db1) \<Rightarrow>
               if IntakeTurnResponse_ok a then (\<lparr>hr_status = 200, hr_json = Some (answered_json a)\<rparr>, db1)
               else (error_reply 500 ''INTERNAL'', db1)))"

text \<open>A call as the gateway makes it: body out, response in. The turn, the ids and the clock may differ between the two attempts.\<close>

definition intake_call ::
    "(bool \<Rightarrow> Snapshot \<Rightarrow> TurnOutcome) \<Rightarrow> (bool \<Rightarrow> nat \<Rightarrow> string) \<Rightarrow> (bool \<Rightarrow> nat) \<Rightarrow> string \<Rightarrow> bool \<Rightarrow> ChatDb \<Rightarrow> (IntakeFault + TurnResult) \<times> ChatDb" where
  "intake_call turn ids now b mayRetry db =
     (let (response, db1) = post_turns (turn mayRetry) (ids mayRetry) (now mayRetry) (turn_body b mayRetry) db in (read_turn response, db1))"

subsection \<open>The contract holds\<close>

lemma answered_json_parse:
  assumes "an_status a \<in> {StPlanning, StAsking}"
    and "\<And>v. an_spec_version a = Some v \<Longrightarrow> v \<le> 9007199254740991"
  shows "TurnResult_parse (answered_json a) = Some (TurnDone (an_message_id a) (map_option int (an_spec_version a)) (status_name (an_status a)))"
proof -
  have "int_of_num (Fin (of_nat v)) = Some (int v)" if "an_spec_version a = Some v" for v
  proof -
    have "int v \<le> 9007199254740991" using assms(2) [OF that] by linarith
    then show ?thesis using quotient_of_int [of "int v"] by simp
  qed
  then show ?thesis by (cases "an_spec_version a") (simp_all add: answered_json_def member_of_def)
qed

definition service_ready :: "(bool \<Rightarrow> nat \<Rightarrow> string) \<Rightarrow> string \<Rightarrow> ChatDb \<Rightarrow> bool" where
  "service_ready ids b db \<longleftrightarrow>
     awaits_answer b db \<and> rx_full z_uuid b \<and> (\<forall>m n. rx_full z_uuid (ids m n)) \<and> length (build_specs b db) < 9007199254740991"

lemma request_parses: "rx_full z_uuid b \<Longrightarrow> IntakeTurnRequest (turn_body b m) = Some (b, m)"
  by (simp add: turn_body_def member_of_def)

lemma retryable_status: "error_status (Thrown ''TURN_RETRYABLE'') = 503"
  by (simp add: error_status_def)

text \<open>A call that runs alone on a waiting build: handed back, or answered in its first pass, with a second pass that finds nothing.\<close>

lemma intake_call_cases:
  assumes "service_ready ids b db"
  obtains (Over) e snap where "intake_call turn ids now b m db = (Inl e, set_status b StSpecifying (now m) db)" "isRetryable e" "handed_back m (turn m snap)"
    | (Answer) r db' where "intake_call turn ids now b m db = (Inr r, db')" "\<not> latestIsUnanswered db' b"
proof -
  from assms have aw: "awaits_answer b db" and u: "rx_full z_uuid b" and i: "\<And>m n. rx_full z_uuid (ids m n)"
    and small: "length (build_specs b db) < 9007199254740991" by (auto simp: service_ready_def)
  from aw obtain t build where t: "latest_message db b = Some t" and bd: "find_build db b = Some build"
    by (auto simp: awaits_answer_def latestIsUnanswered_def split: option.splits)
  note defs = intake_call_def post_turns_def handle_turn_def request_parses [OF u] MAX_PASSES_def
  show thesis
  proof (cases rule: answerLatest_awaiting [OF aw t, of m "turn m" "ids m 2" "now m", case_names Back Reply])
    case (Back snap)
    have "intake_call turn ids now b m db =
        (Inl (IntakeError (''intake answered '' @ nat_str 503) (Some 503)), set_status b StSpecifying (now m) db)"
      using Back(3) bd by (simp add: defs retryable_status numeral_3_eq_3 numeral_2_eq_2 read_turn_def response_ok_def error_reply_def)
    then show ?thesis by (rule Over) (use Back(2) in simp_all)
  next
    case (Reply snap a db' msg)
    have done2: "answerLatest (turn m) m b (ids m (Suc 0)) (now m) id db' = (Inr None, db')"
      using Reply(4,5,8) by (auto simp: answerLatest_def answer_read_def split: option.splits)
    have a: "IntakeTurnResponse_ok a" using Reply(9-11) i by (auto simp: IntakeTurnResponse_ok_def split: option.splits)
    have "TurnResult_parse (answered_json a) = Some (TurnDone (an_message_id a) (map_option int (an_spec_version a)) (status_name (an_status a)))"
      using Reply(10,11) small by (intro answered_json_parse) force+
    then have "intake_call turn ids now b m db = (Inr (TurnDone (an_message_id a) (map_option int (an_spec_version a)) (status_name (an_status a))), db')"
      using Reply(3) done2 bd a by (simp add: defs numeral_3_eq_3 numeral_2_eq_2 read_turn_def response_ok_def)
    then show ?thesis by (rule Answer) (simp add: latestIsUnanswered_def Reply(4,5))
  qed
qed

interpretation intake: turn_service "intake_call turn ids now" "service_ready ids" "\<lambda>b db. \<not> latestIsUnanswered db b"
  for turn ids now
proof
  fix b db
  assume ready: "service_ready ids b db"
  show "\<exists>r w'. intake_call turn ids now b False db = (Inr r, w') \<and> \<not> latestIsUnanswered w' b"
    by (rule intake_call_cases [OF ready, of turn now False]) (auto simp: handed_back_def)
next
  fix b db r db'
  assume "service_ready ids b db" "intake_call turn ids now b True db = (Inr r, db')"
  then show "\<not> latestIsUnanswered db' b" by (cases rule: intake_call_cases [of ids b db turn now True]) auto
next
  fix b db e db'
  assume ready: "service_ready ids b db" and c: "intake_call turn ids now b True db = (Inl e, db')"
  show "isRetryable e \<and> service_ready ids b db'"
    by (rule intake_call_cases [OF ready, of turn now True]) (use ready c in \<open>auto simp: service_ready_def\<close>)
qed



end
