(* ===== verification/Auth.thy ===== *)
theory Auth
  imports Chat Llm
begin

text \<open>
  Signing in, \<open>apps/gateway/src/auth-store.ts\<close> and \<open>session-cookie.ts\<close>: one-time codes, users, tenants and their members, sessions and
  the claim of anonymous work. A transaction is a function on the tables; an error rolls it back. The advisory lock per email makes
  \<open>issueCode\<close> and \<open>verifyCode\<close> for one address run one after the other, so they compose as functions. SHA-256 is the parameter
  \<open>sha256\<close>; drawn ids, tokens and codes and the database clock are arguments. Times are milliseconds.
\<close>

subsection \<open>Cookies\<close>

definition SESSION_COOKIE :: string where
  "SESSION_COOKIE = ''__Host-albus_session''"

definition ANON_OWNER_COOKIE :: string where
  "ANON_OWNER_COOKIE = ''__Host-albus_anon''"

definition SESSION_MAX_AGE_S :: nat where
  "SESSION_MAX_AGE_S = 30 * 24 * 60 * 60"

definition COOKIE_ATTRIBUTES :: string where
  "COOKIE_ATTRIBUTES = ''Path=/; Secure; HttpOnly; SameSite=Lax''"

definition token_char :: "char \<Rightarrow> bool" where
  "token_char c \<longleftrightarrow> upper c \<or> lower c \<or> digit c \<or> c = CHR ''_'' \<or> c = CHR ''-''"

definition TOKEN_PATTERN :: rx where
  "TOKEN_PATTERN = Times 43 (Cls token_char)"

text \<open>A \<open>Cookie\<close> header: absent, one line, or several.\<close>

datatype CookieHeader = NoCookie | CookieLine string | CookieLines "string list"

fun raw_cookie :: "CookieHeader \<Rightarrow> string" where
  "raw_cookie NoCookie = []"
| "raw_cookie (CookieLine s) = s"
| "raw_cookie (CookieLines ss) = js_join ''; '' ss"

fun find_cookie :: "string \<Rightarrow> string list \<Rightarrow> string option" where
  "find_cookie name [] = None"
| "find_cookie name (pair # rest) =
     (if CHR ''='' \<notin> set pair then find_cookie name rest
      else if js_trim (takeWhile (\<lambda>c. c \<noteq> CHR ''='') pair) \<noteq> name then find_cookie name rest
      else Some (js_trim (tl (dropWhile (\<lambda>c. c \<noteq> CHR ''='') pair))))"

definition cookieValue :: "CookieHeader \<Rightarrow> string \<Rightarrow> string option" where
  "cookieValue header name =
     (let raw = raw_cookie header in if raw = [] then None else find_cookie name (js_split (CHR '';'') raw))"

definition sessionTokenFromCookieHeader :: "CookieHeader \<Rightarrow> string option" where
  "sessionTokenFromCookieHeader header =
     (case cookieValue header SESSION_COOKIE of
        None \<Rightarrow> None
      | Some value \<Rightarrow> if rx_full TOKEN_PATTERN value then Some value else None)"

definition sessionSetCookie :: "string \<Rightarrow> nat \<Rightarrow> string" where
  "sessionSetCookie token maxAgeS = SESSION_COOKIE @ ''='' @ token @ ''; '' @ COOKIE_ATTRIBUTES @ ''; Max-Age='' @ nat_str maxAgeS"

definition sessionClearCookie :: string where
  "sessionClearCookie = SESSION_COOKIE @ ''=; '' @ COOKIE_ATTRIBUTES @ ''; Max-Age=0''"

definition anonOwnerClearCookie :: string where
  "anonOwnerClearCookie = ANON_OWNER_COOKIE @ ''=; '' @ COOKIE_ATTRIBUTES @ ''; Max-Age=0''"

definition hashSessionToken :: "(string \<Rightarrow> string) \<Rightarrow> string \<Rightarrow> string" where
  "hashSessionToken sha256 token = sha256 token"

subsection \<open>Tables\<close>

datatype TenantRole = Admin | Operator | Viewer

record EmailCode =
  ec_id :: string
  ec_email :: string
  ec_codeHash :: string
  ec_expiresAt :: int
  ec_attempts :: nat
  ec_consumedAt :: "int option"
  ec_createdAt :: int

record UserRow =
  us_id :: string
  us_email :: string

record TenantRow =
  tn_id :: string
  tn_name :: string
  tn_slug :: "string option"

record MemberRow =
  tm_tenantId :: string
  tm_userId :: string
  tm_role :: TenantRole
  tm_createdAt :: int

record SessionRow =
  ss_id :: string
  ss_tokenHash :: string
  ss_userId :: string
  ss_activeTenantId :: string
  ss_parentSessionId :: "string option"
  ss_expiresAt :: int
  ss_revokedAt :: "int option"

record AuthDb =
  ad_codes :: "EmailCode list"
  ad_users :: "UserRow list"
  ad_tenants :: "TenantRow list"
  ad_members :: "MemberRow list"
  ad_sessions :: "SessionRow list"
  ad_builds :: "BuildRow list"
  ad_calls :: "LlmCallRecord list"

record TenantMembership =
  mb_id :: string
  mb_name :: string
  mb_slug :: "string option"
  mb_role :: TenantRole

record Me =
  me_user_id :: string
  me_email :: string
  me_tenant :: TenantMembership
  me_tenants :: "TenantMembership list"

subsection \<open>Codes\<close>

definition CODE_TTL_MS :: int where
  "CODE_TTL_MS = 10 * 60000"

definition CODE_MAX_ATTEMPTS :: nat where
  "CODE_MAX_ATTEMPTS = 5"

definition PERSONAL_TENANT_NAME :: string where
  "PERSONAL_TENANT_NAME = ''Personal''"

text \<open>\<open>toLowerCase\<close> within the modelled code units.\<close>

definition js_lower :: "char \<Rightarrow> char" where
  "js_lower c = (let n = (of_char c :: nat) in if (65 \<le> n \<and> n \<le> 90) \<or> (192 \<le> n \<and> n \<le> 222 \<and> n \<noteq> 215) then char_of (n + 32) else c)"

definition normalizeEmail :: "string \<Rightarrow> string" where
  "normalizeEmail email = map js_lower (js_trim email)"

definition hashCode :: "(string \<Rightarrow> string) \<Rightarrow> string \<Rightarrow> string \<Rightarrow> string" where
  "hashCode sha256 codeId code = sha256 (codeId @ '':'' @ code)"

text \<open>\<open>randomInt(0, 1_000_000).toString().padStart(6, "0")\<close> for the number drawn.\<close>

definition randomCode :: "nat \<Rightarrow> string" where
  "randomCode drawn = replicate (6 - length (nat_str drawn)) (CHR ''0'') @ nat_str drawn"

definition issueCode :: "(string \<Rightarrow> string) \<Rightarrow> string \<Rightarrow> int \<Rightarrow> nat \<Rightarrow> string \<Rightarrow> int \<Rightarrow> AuthDb \<Rightarrow> (string \<times> int) \<times> AuthDb" where
  "issueCode sha256 rawEmail now drawn i dbNow db =
     (let email = normalizeEmail rawEmail; code = randomCode drawn; expiresAt = now + CODE_TTL_MS;
          kept = map (\<lambda>c. if ec_email c = email \<and> ec_consumedAt c = None then c\<lparr>ec_consumedAt := Some now\<rparr> else c) (ad_codes db);
          row = \<lparr>ec_id = i, ec_email = email, ec_codeHash = hashCode sha256 i code, ec_expiresAt = expiresAt, ec_attempts = 0,
                 ec_consumedAt = None, ec_createdAt = dbNow\<rparr>
      in ((code, expiresAt), db\<lparr>ad_codes := kept @ [row]\<rparr>))"

text \<open>The newest live code of an address.\<close>

definition live_code :: "AuthDb \<Rightarrow> string \<Rightarrow> int \<Rightarrow> EmailCode option" where
  "live_code db email now =
     (case js_sort (\<lambda>a b. compare_lt (ec_createdAt b) (ec_createdAt a))
             (filter (\<lambda>c. ec_email c = email \<and> ec_consumedAt c = None \<and> ec_expiresAt c > now) (ad_codes db)) of
        [] \<Rightarrow> None
      | c # _ \<Rightarrow> Some c)"

definition update_code :: "string \<Rightarrow> (EmailCode \<Rightarrow> EmailCode) \<Rightarrow> AuthDb \<Rightarrow> AuthDb" where
  "update_code i f db = db\<lparr>ad_codes := map (\<lambda>c. if ec_id c = i then f c else c) (ad_codes db)\<rparr>"

definition count_miss :: "EmailCode \<Rightarrow> int \<Rightarrow> AuthDb \<Rightarrow> AuthDb" where
  "count_miss live now =
     (let attempts = ec_attempts live + 1
      in update_code (ec_id live)
           (\<lambda>c. c\<lparr>ec_attempts := attempts, ec_consumedAt := (if attempts \<ge> CODE_MAX_ATTEMPTS then Some now else ec_consumedAt c)\<rparr>))"

subsection \<open>Tenants and sessions\<close>

text \<open>The inner join with the tenants, ordered by \<open>(created_at, id)\<close>.\<close>

definition membershipsOf :: "AuthDb \<Rightarrow> string \<Rightarrow> (TenantMembership \<times> int) list" where
  "membershipsOf db userId =
     js_sort (\<lambda>a b. compare_lt (snd a, mb_id (fst a)) (snd b, mb_id (fst b)))
       (concat (map (\<lambda>m. map (\<lambda>t. (\<lparr>mb_id = tn_id t, mb_name = tn_name t, mb_slug = tn_slug t, mb_role = tm_role m\<rparr>, tm_createdAt m))
                           (filter (\<lambda>t. tn_id t = tm_tenantId m) (ad_tenants db)))
                   (filter (\<lambda>m. tm_userId m = userId) (ad_members db))))"

definition meOf :: "AuthDb \<Rightarrow> UserRow \<Rightarrow> string \<Rightarrow> Me option" where
  "meOf db user activeTenantId =
     (let memberships = map fst (membershipsOf db (us_id user)) in
      map_option (\<lambda>active. \<lparr>me_user_id = us_id user, me_email = us_email user, me_tenant = active, me_tenants = memberships\<rparr>)
        (List.find (\<lambda>m. mb_id m = activeTenantId) memberships))"

definition session_live :: "int \<Rightarrow> SessionRow \<Rightarrow> bool" where
  "session_live dbNow s \<longleftrightarrow> ss_revokedAt s = None \<and> ss_expiresAt s > dbNow"

definition liveSession :: "(string \<Rightarrow> string) \<Rightarrow> string \<Rightarrow> int \<Rightarrow> AuthDb \<Rightarrow> (SessionRow \<times> UserRow) option" where
  "liveSession sha256 token dbNow db =
     (case List.find (\<lambda>s. ss_tokenHash s = hashSessionToken sha256 token \<and> session_live dbNow s \<and>
                        list_ex (\<lambda>u. us_id u = ss_userId s) (ad_users db)) (ad_sessions db) of
        None \<Rightarrow> None
      | Some s \<Rightarrow> map_option (Pair s) (List.find (\<lambda>u. us_id u = ss_userId s) (ad_users db)))"

definition is_member :: "AuthDb \<Rightarrow> string \<Rightarrow> string \<Rightarrow> bool" where
  "is_member db userId tenantId = list_ex (\<lambda>m. tm_tenantId m = tenantId \<and> tm_userId m = userId) (ad_members db)"

definition sessionTenantIn :: "(string \<Rightarrow> string) \<Rightarrow> string \<Rightarrow> int \<Rightarrow> AuthDb \<Rightarrow> string option" where
  "sessionTenantIn sha256 token dbNow db =
     map_option ss_activeTenantId
       (List.find (\<lambda>s. ss_tokenHash s = hashSessionToken sha256 token \<and> session_live dbNow s \<and>
                     is_member db (ss_userId s) (ss_activeTenantId s)) (ad_sessions db))"

definition me :: "(string \<Rightarrow> string) \<Rightarrow> string \<Rightarrow> int \<Rightarrow> AuthDb \<Rightarrow> Me option" where
  "me sha256 token dbNow db =
     (case liveSession sha256 token dbNow db of
        None \<Rightarrow> None
      | Some (s, u) \<Rightarrow> meOf db u (ss_activeTenantId s))"

subsection \<open>Verifying a code\<close>

record VerifyInput =
  vi_email :: string
  vi_code :: string
  vi_anonOwnerHash :: "string option"
  vi_currentSessionToken :: "string option"
  vi_sessionMaxAgeS :: int
  vi_now :: int

text \<open>What the database and the token source draw during one call.\<close>

record Drawn =
  dr_userId :: string
  dr_tenantId :: string
  dr_sessionId :: string
  dr_token :: string
  dr_now :: int

datatype VerifyResult = Verified Me string nat nat | Rejected

definition lower_email :: "string \<Rightarrow> string" where
  "lower_email = map js_lower"

text \<open>\<open>INSERT \<dots> ON CONFLICT DO NOTHING\<close> under the unique index on \<open>lower(email)\<close>.\<close>

definition insert_user :: "string \<Rightarrow> string \<Rightarrow> AuthDb \<Rightarrow> AuthDb" where
  "insert_user i email db =
     (if list_ex (\<lambda>u. lower_email (us_email u) = lower_email email) (ad_users db) then db
      else db\<lparr>ad_users := ad_users db @ [\<lparr>us_id = i, us_email = email\<rparr>]\<rparr>)"

definition personal_tenant :: "string \<Rightarrow> string \<Rightarrow> int \<Rightarrow> AuthDb \<Rightarrow> AuthDb" where
  "personal_tenant i userId dbNow db =
     db\<lparr>ad_tenants := ad_tenants db @ [\<lparr>tn_id = i, tn_name = PERSONAL_TENANT_NAME, tn_slug = None\<rparr>],
        ad_members := ad_members db @ [\<lparr>tm_tenantId = i, tm_userId = userId, tm_role = Admin, tm_createdAt = dbNow\<rparr>]\<rparr>"

definition claim_builds :: "string \<Rightarrow> string \<Rightarrow> int \<Rightarrow> BuildRow list \<Rightarrow> BuildRow list" where
  "claim_builds h tenant now =
     map (\<lambda>b. if bd_anonOwnerHash b = Some h \<and> bd_tenantId b = None
              then b\<lparr>bd_tenantId := Some tenant, bd_anonOwnerHash := None, bd_updatedAt := nat (1000 * now)\<rparr> else b)"

definition claim_calls :: "string \<Rightarrow> string \<Rightarrow> LlmCallRecord list \<Rightarrow> LlmCallRecord list" where
  "claim_calls h tenant =
     map (\<lambda>r. if rec_anonOwnerHash r = Some h \<and> rec_tenantId r = None
              then r\<lparr>rec_tenantId := Some tenant, rec_anonOwnerHash := None\<rparr> else r)"

definition claim :: "string option \<Rightarrow> string \<Rightarrow> int \<Rightarrow> AuthDb \<Rightarrow> (nat \<times> nat) \<times> AuthDb" where
  "claim anonOwnerHash tenant now db =
     (case anonOwnerHash of
        None \<Rightarrow> ((0, 0), db)
      | Some h \<Rightarrow>
          ((length (filter (\<lambda>b. bd_anonOwnerHash b = Some h \<and> bd_tenantId b = None) (ad_builds db)),
            length (filter (\<lambda>r. rec_anonOwnerHash r = Some h \<and> rec_tenantId r = None) (ad_calls db))),
           db\<lparr>ad_builds := claim_builds h tenant now (ad_builds db), ad_calls := claim_calls h tenant (ad_calls db)\<rparr>))"

text \<open>Everything after the code was accepted and consumed.\<close>

definition sign_in :: "(string \<Rightarrow> string) \<Rightarrow> VerifyInput \<Rightarrow> Drawn \<Rightarrow> AuthDb \<Rightarrow> (js_error + VerifyResult) \<times> AuthDb" where
  "sign_in sha256 inp dr db =
     (let email = normalizeEmail (vi_email inp); db1 = insert_user (dr_userId dr) email db in
      case List.find (\<lambda>u. lower_email (us_email u) = email) (ad_users db1) of
        None \<Rightarrow> (Inl (Thrown ''user row missing after insert''), db)
      | Some user \<Rightarrow>
          (let db2 = (if membershipsOf db1 (us_id user) = [] then personal_tenant (dr_tenantId dr) (us_id user) (dr_now dr) db1 else db1);
               memberships = map fst (membershipsOf db2 (us_id user));
               current = (case vi_currentSessionToken inp of None \<Rightarrow> None | Some t \<Rightarrow> liveSession sha256 t (dr_now dr) db2);
               active = (case current of
                   Some (s, _) \<Rightarrow>
                     (if ss_userId s = us_id user \<and> list_ex (\<lambda>m. mb_id m = ss_activeTenantId s) memberships then ss_activeTenantId s
                      else mb_id (hd memberships))
                 | None \<Rightarrow> mb_id (hd memberships));
               db3 = db2\<lparr>ad_sessions := ad_sessions db2 @
                 [\<lparr>ss_id = dr_sessionId dr, ss_tokenHash = hashSessionToken sha256 (dr_token dr), ss_userId = us_id user,
                   ss_activeTenantId = active, ss_parentSessionId = None, ss_expiresAt = vi_now inp + vi_sessionMaxAgeS inp * 1000,
                   ss_revokedAt = None\<rparr>]\<rparr>;
               (counts, db4) = claim (vi_anonOwnerHash inp) active (vi_now inp) db3
           in case meOf db4 user active of
                None \<Rightarrow> (Inl (Thrown ''active tenant missing after sign-in''), db)
              | Some m \<Rightarrow> (Inr (Verified m (dr_token dr) (fst counts) (snd counts)), db4)))"

definition verifyCode :: "(string \<Rightarrow> string) \<Rightarrow> VerifyInput \<Rightarrow> Drawn \<Rightarrow> AuthDb \<Rightarrow> (js_error + VerifyResult) \<times> AuthDb" where
  "verifyCode sha256 inp dr db =
     (case live_code db (normalizeEmail (vi_email inp)) (vi_now inp) of
        None \<Rightarrow> (Inr Rejected, db)
      | Some live \<Rightarrow>
          if hashCode sha256 (ec_id live) (vi_code inp) \<noteq> ec_codeHash live
          then (Inr Rejected, count_miss live (vi_now inp) db)
          else (case sign_in sha256 inp dr (update_code (ec_id live) (\<lambda>c. c\<lparr>ec_consumedAt := Some (vi_now inp)\<rparr>) db) of
                  (Inl e, _) \<Rightarrow> (Inl e, db)
                | (Inr r, db') \<Rightarrow> (Inr r, db')))"

subsection \<open>Switching tenants and signing out\<close>

datatype SwitchResult = Switched | Unauthenticated | Forbidden

text \<open>A session and its ancestors; the fuel bounds the chain by the number of sessions.\<close>

fun up_chain :: "SessionRow list \<Rightarrow> nat \<Rightarrow> string \<Rightarrow> SessionRow list" where
  "up_chain ss 0 i = []"
| "up_chain ss (Suc n) i =
     (case List.find (\<lambda>s. ss_id s = i) ss of
        None \<Rightarrow> []
      | Some s \<Rightarrow> s # (case ss_parentSessionId s of None \<Rightarrow> [] | Some p \<Rightarrow> up_chain ss n p))"

definition switchTenant :: "(string \<Rightarrow> string) \<Rightarrow> string \<Rightarrow> string \<Rightarrow> int \<Rightarrow> AuthDb \<Rightarrow> SwitchResult \<times> AuthDb" where
  "switchTenant sha256 token tenantId dbNow db =
     (case List.find (\<lambda>s. ss_tokenHash s = hashSessionToken sha256 token) (ad_sessions db) of
        None \<Rightarrow> (Unauthenticated, db)
      | Some session \<Rightarrow>
          if list_ex (\<lambda>s. \<not> session_live dbNow s \<or> ss_userId s \<noteq> ss_userId session)
               (up_chain (ad_sessions db) (length (ad_sessions db)) (ss_id session)) then (Unauthenticated, db)
          else if \<not> is_member db (ss_userId session) tenantId then (Forbidden, db)
          else if session_live dbNow session
          then (Switched, db\<lparr>ad_sessions := map (\<lambda>s. if ss_id s = ss_id session then s\<lparr>ss_activeTenantId := tenantId\<rparr> else s) (ad_sessions db)\<rparr>)
          else (Unauthenticated, db))"

text \<open>The ids reached from a frontier, level by level.\<close>

fun down_levels :: "SessionRow list \<Rightarrow> nat \<Rightarrow> string list \<Rightarrow> string list" where
  "down_levels ss 0 frontier = []"
| "down_levels ss (Suc n) frontier =
     frontier @ down_levels ss n (map ss_id (filter (\<lambda>s. \<exists>p \<in> set frontier. ss_parentSessionId s = Some p) ss))"

definition family :: "SessionRow list \<Rightarrow> string \<Rightarrow> string list" where
  "family ss i =
     (let up = up_chain ss (length ss) i; root = map ss_id (filter (\<lambda>s. ss_parentSessionId s = None) up)
      in down_levels ss (length ss) root)"

definition revokeSessionFamily :: "(string \<Rightarrow> string) \<Rightarrow> string \<Rightarrow> int \<Rightarrow> AuthDb \<Rightarrow> nat \<times> AuthDb" where
  "revokeSessionFamily sha256 token dbNow db =
     (case liveSession sha256 token dbNow db of
        None \<Rightarrow> (0, db)
      | Some (session, _) \<Rightarrow>
          (let fam = family (ad_sessions db) (ss_id session);
               hit = (\<lambda>s. ss_id s \<in> set fam \<and> ss_revokedAt s = None)
           in (length (filter hit (ad_sessions db)),
               db\<lparr>ad_sessions := map (\<lambda>s. if hit s then s\<lparr>ss_revokedAt := Some dbNow\<rparr> else s) (ad_sessions db)\<rparr>)))"

subsection \<open>What an operation leaves alone\<close>

lemma insert_user_tables [simp]:
  "ad_codes (insert_user i e db) = ad_codes db" "ad_sessions (insert_user i e db) = ad_sessions db"
  "ad_builds (insert_user i e db) = ad_builds db" "ad_calls (insert_user i e db) = ad_calls db"
  "ad_members (insert_user i e db) = ad_members db" "ad_tenants (insert_user i e db) = ad_tenants db"
  by (simp_all add: insert_user_def)

lemma personal_tenant_tables [simp]:
  "ad_codes (personal_tenant i u t db) = ad_codes db" "ad_sessions (personal_tenant i u t db) = ad_sessions db"
  "ad_builds (personal_tenant i u t db) = ad_builds db" "ad_calls (personal_tenant i u t db) = ad_calls db"
  "ad_users (personal_tenant i u t db) = ad_users db"
  by (simp_all add: personal_tenant_def)

lemma claim_tables [simp]:
  "ad_codes (snd (claim h t now db)) = ad_codes db" "ad_sessions (snd (claim h t now db)) = ad_sessions db"
  "ad_users (snd (claim h t now db)) = ad_users db" "ad_members (snd (claim h t now db)) = ad_members db"
  "ad_tenants (snd (claim h t now db)) = ad_tenants db"
  by (simp_all add: claim_def split: option.split)

lemma update_code_tables [simp]:
  "ad_sessions (update_code i f db) = ad_sessions db" "ad_builds (update_code i f db) = ad_builds db"
  "ad_calls (update_code i f db) = ad_calls db" "ad_members (update_code i f db) = ad_members db"
  by (simp_all add: update_code_def)

lemma membershipsOf_cong:
  "ad_members db' = ad_members db \<Longrightarrow> ad_tenants db' = ad_tenants db \<Longrightarrow> membershipsOf db' u = membershipsOf db u"
  by (simp add: membershipsOf_def)

lemma js_lower_idem: "js_lower (js_lower c) = js_lower c"
  by (auto simp: js_lower_def Let_def)

lemma lower_normalize: "lower_email (normalizeEmail e) = normalizeEmail e"
  by (simp add: lower_email_def normalizeEmail_def js_lower_idem)

text \<open>A user is a member of each tenant listed for them.\<close>

lemma membershipsOf_member: "(m, t) \<in> set (membershipsOf db u) \<Longrightarrow> is_member db u (mb_id m)"
  by (auto simp: membershipsOf_def is_member_def list_ex_iff)

text \<open>What signing in does, step by step; it never throws.\<close>

lemma sign_in_result:
  obtains m user active db2 nb nc db' where
    "sign_in sha256 inp dr db = (Inr (Verified m (dr_token dr) nb nc), db')"
    "ad_codes db' = ad_codes db" "mb_id (me_tenant m) = active" "is_member db' (us_id user) active"
    "ad_sessions db' = ad_sessions db @
       [\<lparr>ss_id = dr_sessionId dr, ss_tokenHash = hashSessionToken sha256 (dr_token dr), ss_userId = us_id user, ss_activeTenantId = active,
         ss_parentSessionId = None, ss_expiresAt = vi_now inp + vi_sessionMaxAgeS inp * 1000, ss_revokedAt = None\<rparr>]"
    "user \<in> set (ad_users db')" "lower_email (us_email user) = normalizeEmail (vi_email inp)"
    "ad_builds db2 = ad_builds db" "ad_calls db2 = ad_calls db"
    "claim (vi_anonOwnerHash inp) active (vi_now inp) db2 = ((nb, nc), db')"
proof -
  let ?e = "normalizeEmail (vi_email inp)"
  define db1 where "db1 = insert_user (dr_userId dr) ?e db"
  have "\<exists>u \<in> set (ad_users db1). lower_email (us_email u) = ?e"
    by (auto simp: db1_def insert_user_def list_ex_iff lower_normalize)
  then obtain user where user: "List.find (\<lambda>u. lower_email (us_email u) = ?e) (ad_users db1) = Some user"
    by (metis (mono_tags, lifting) find_None_set option.exhaust)
  define db2 where "db2 = (if membershipsOf db1 (us_id user) = [] then personal_tenant (dr_tenantId dr) (us_id user) (dr_now dr) db1 else db1)"
  have ne: "membershipsOf db2 (us_id user) \<noteq> []"
    by (auto simp: db2_def personal_tenant_def membershipsOf_def)
  let ?ms = "map fst (membershipsOf db2 (us_id user))"
  define current where "current = (case vi_currentSessionToken inp of None \<Rightarrow> None | Some t \<Rightarrow> liveSession sha256 t (dr_now dr) db2)"
  define active where "active = (case current of Some (s, _) \<Rightarrow>
       (if ss_userId s = us_id user \<and> list_ex (\<lambda>m. mb_id m = ss_activeTenantId s) ?ms then ss_activeTenantId s else mb_id (hd ?ms))
     | None \<Rightarrow> mb_id (hd ?ms))"
  have "hd ?ms \<in> set ?ms" using ne by (metis hd_in_set map_is_Nil_conv)
  then have act: "\<exists>m \<in> set ?ms. mb_id m = active"
    by (auto simp: active_def list_ex_iff simp del: set_map split: option.splits)
  define db3 where "db3 = db2\<lparr>ad_sessions := ad_sessions db2 @
     [\<lparr>ss_id = dr_sessionId dr, ss_tokenHash = hashSessionToken sha256 (dr_token dr), ss_userId = us_id user, ss_activeTenantId = active,
       ss_parentSessionId = None, ss_expiresAt = vi_now inp + vi_sessionMaxAgeS inp * 1000, ss_revokedAt = None\<rparr>]\<rparr>"
  obtain nb nc db' where cl: "claim (vi_anonOwnerHash inp) active (vi_now inp) db3 = ((nb, nc), db')" by (metis surj_pair)
  then have tables: "ad_codes db' = ad_codes db3" "ad_sessions db' = ad_sessions db3" "ad_users db' = ad_users db3"
      "ad_members db' = ad_members db3" "ad_tenants db' = ad_tenants db3"
    using claim_tables [of "vi_anonOwnerHash inp" active "vi_now inp" db3] by simp_all
  have ms: "membershipsOf db' (us_id user) = membershipsOf db2 (us_id user)"
    by (rule membershipsOf_cong) (simp_all add: tables db3_def)
  obtain m where m: "List.find (\<lambda>m. mb_id m = active) ?ms = Some m" using act by (metis (mono_tags, lifting) find_None_set option.exhaust)
  then have m_in: "m \<in> set ?ms" "mb_id m = active" using find_Some_set [OF m] by auto
  let ?me = "\<lparr>me_user_id = us_id user, me_email = us_email user, me_tenant = m, me_tenants = ?ms\<rparr>"
  have "meOf db' user active = Some ?me" using m by (simp add: meOf_def ms)
  with cl have "sign_in sha256 inp dr db = (Inr (Verified ?me (dr_token dr) nb nc), db')"
    unfolding sign_in_def Let_def db1_def [symmetric] user option.case db2_def [symmetric] current_def [symmetric]
      active_def [symmetric] db3_def [symmetric] by simp
  moreover have "is_member db' (us_id user) active"
  proof -
    from m_in obtain t where "(m, t) \<in> set (membershipsOf db2 (us_id user))" by auto
    with ms membershipsOf_member [of m t db' "us_id user"] m_in(2) show ?thesis by simp
  qed
  moreover have "user \<in> set (ad_users db')" "lower_email (us_email user) = ?e"
    using find_Some_set [OF user] by (simp_all add: tables db3_def db2_def)
  moreover have "ad_codes db' = ad_codes db" "ad_builds db3 = ad_builds db" "ad_calls db3 = ad_calls db" 
    by (simp_all add: tables db3_def db2_def db1_def)
  ultimately show thesis using cl m_in tables
    by (intro that [of ?me nb nc db' active user db3]) (simp_all add: db3_def db2_def db1_def)
qed

lemma sign_in_verified: "\<exists>m nb nc db'. sign_in sha256 inp dr db = (Inr (Verified m (dr_token dr) nb nc), db')"
  by (rule sign_in_result [of sha256 inp dr db]) blast

subsection \<open>One live code, five guesses\<close>

text \<open>At most one unconsumed code per address, and it has tries left.\<close>

definition codes_inv :: "EmailCode list \<Rightarrow> bool" where
  "codes_inv cs \<longleftrightarrow>
     distinct (map ec_id cs) \<and> distinct (map ec_email (filter (\<lambda>c. ec_consumedAt c = None) cs)) \<and>
     (\<forall>c \<in> set cs. ec_consumedAt c = None \<longrightarrow> ec_attempts c < CODE_MAX_ATTEMPTS)"

text \<open>After \<open>k\<close> wrong guesses at the code of row \<open>r\<close>: it is the one unconsumed code of its address, unless the guesses are used up.\<close>

definition only_code :: "EmailCode \<Rightarrow> nat \<Rightarrow> AuthDb \<Rightarrow> bool" where
  "only_code r k db \<longleftrightarrow>
     (\<forall>c \<in> set (ad_codes db). ec_email c = ec_email r \<and> ec_consumedAt c = None \<longrightarrow> k < CODE_MAX_ATTEMPTS \<and> c = r\<lparr>ec_attempts := k\<rparr>) \<and>
     (k < CODE_MAX_ATTEMPTS \<longrightarrow> r\<lparr>ec_attempts := k\<rparr> \<in> set (ad_codes db) \<and> (\<forall>c \<in> set (ad_codes db). ec_id c = ec_id r \<longrightarrow> c = r\<lparr>ec_attempts := k\<rparr>))"

lemma live_code_Some: "live_code db e now = Some c \<Longrightarrow>
    c \<in> set (ad_codes db) \<and> ec_email c = e \<and> ec_consumedAt c = None \<and> ec_expiresAt c > now"
proof -
  assume "live_code db e now = Some c"
  then have "c \<in> set (js_sort (\<lambda>a b. compare_lt (ec_createdAt b) (ec_createdAt a))
             (filter (\<lambda>c. ec_email c = e \<and> ec_consumedAt c = None \<and> ec_expiresAt c > now) (ad_codes db)))"
    by (auto simp: live_code_def simp del: set_js_sort split: list.splits)
  then show ?thesis by simp
qed

lemma live_code_None: "live_code db e now = None \<longleftrightarrow>
    (\<forall>c \<in> set (ad_codes db). ec_email c = e \<longrightarrow> ec_consumedAt c = None \<longrightarrow> \<not> ec_expiresAt c > now)"
proof -
  have "live_code db e now = None \<longleftrightarrow> filter (\<lambda>c. ec_email c = e \<and> ec_consumedAt c = None \<and> ec_expiresAt c > now) (ad_codes db) = []"
    unfolding live_code_def by (metis (no_types, lifting) js_sort_Nil_iff list.case_eq_if option.distinct(1))
  then show ?thesis by (auto simp: filter_empty_conv)
qed

lemma only_code_live:
  assumes "only_code r k db" and "ec_consumedAt r = None" and "now < ec_expiresAt r"
  shows "live_code db (ec_email r) now = (if k < CODE_MAX_ATTEMPTS then Some (r\<lparr>ec_attempts := k\<rparr>) else None)"
proof (cases "k < CODE_MAX_ATTEMPTS")
  case True
  let ?r = "r\<lparr>ec_attempts := k\<rparr>"
  have "?r \<in> set (ad_codes db)" using assms(1) True by (simp add: only_code_def)
  then have "live_code db (ec_email r) now \<noteq> None" using assms(2,3) unfolding live_code_None by force
  then obtain c where "live_code db (ec_email r) now = Some c" by blast
  with live_code_Some [OF this] assms(1) True show ?thesis by (simp add: only_code_def)
next
  case False
  with assms(1) show ?thesis by (auto simp: live_code_None only_code_def)
qed

lemma only_code_miss:
  assumes "only_code r k db" and "ec_consumedAt r = None" and "k < CODE_MAX_ATTEMPTS"
  shows "only_code r (Suc k) (count_miss (r\<lparr>ec_attempts := k\<rparr>) now db)"
proof -
  let ?r = "r\<lparr>ec_attempts := k\<rparr>"
  let ?f = "\<lambda>c. c\<lparr>ec_attempts := Suc k, ec_consumedAt := (if Suc k \<ge> CODE_MAX_ATTEMPTS then Some now else ec_consumedAt c)\<rparr>"
  have rows: "ad_codes (count_miss ?r now db) = map (\<lambda>c. if ec_id c = ec_id r then ?f c else c) (ad_codes db)"
    by (simp add: count_miss_def update_code_def)
  have mem: "?r \<in> set (ad_codes db)" and uniq: "\<And>c. c \<in> set (ad_codes db) \<Longrightarrow> ec_id c = ec_id r \<Longrightarrow> c = ?r"
    and one: "\<And>c. c \<in> set (ad_codes db) \<Longrightarrow> ec_email c = ec_email r \<Longrightarrow> ec_consumedAt c = None \<Longrightarrow> c = ?r"
    using assms(1,3) by (auto simp: only_code_def)
  have img: "d = ?f ?r \<or> (d \<in> set (ad_codes db) \<and> ec_id d \<noteq> ec_id r)" if "d \<in> set (ad_codes (count_miss ?r now db))" for d
  proof -
    from that obtain c where c: "c \<in> set (ad_codes db)" "d = (if ec_id c = ec_id r then ?f c else c)" unfolding rows by auto
    show ?thesis
    proof (cases "ec_id c = ec_id r")
      case True
      with uniq [OF c(1)] c(2) show ?thesis by simp
    qed (use c in auto)
  qed
  have left: "ec_email d = ec_email r \<Longrightarrow> ec_consumedAt d = None \<Longrightarrow> Suc k < CODE_MAX_ATTEMPTS \<and> d = r\<lparr>ec_attempts := Suc k\<rparr>"
    if "d \<in> set (ad_codes (count_miss ?r now db))" for d
    using img [OF that] one [of d] assms(2) by (auto split: if_splits)
  have "?f ?r \<in> set (ad_codes (count_miss ?r now db))" unfolding rows using mem by (auto intro!: image_eqI [of _ _ ?r])
  then have "r\<lparr>ec_attempts := Suc k\<rparr> \<in> set (ad_codes (count_miss ?r now db))" if "Suc k < CODE_MAX_ATTEMPTS"
    using that by simp
  moreover have "ec_id d = ec_id r \<Longrightarrow> d = r\<lparr>ec_attempts := Suc k\<rparr>"
    if "Suc k < CODE_MAX_ATTEMPTS" "d \<in> set (ad_codes (count_miss ?r now db))" for d
    using img [OF that(2)] that(1) assms(2) by auto
  ultimately show ?thesis using left unfolding only_code_def by blast
qed

text \<open>A series of guesses, one after the other.\<close>

definition guess_all :: "(string \<Rightarrow> string) \<Rightarrow> (VerifyInput \<times> Drawn) list \<Rightarrow> AuthDb \<Rightarrow> AuthDb" where
  "guess_all sha256 = fold (\<lambda>g db. snd (verifyCode sha256 (fst g) (snd g) db))"

lemma wrong_guess:
  assumes "only_code r k db" "ec_consumedAt r = None" "vi_now inp < ec_expiresAt r"
    and "normalizeEmail (vi_email inp) = ec_email r" "hashCode sha256 (ec_id r) (vi_code inp) \<noteq> ec_codeHash r"
  shows "fst (verifyCode sha256 inp dr db) = Inr Rejected" "only_code r (Suc k) (snd (verifyCode sha256 inp dr db))"
proof -
  note live = only_code_live [OF assms(1-3)]
  show "fst (verifyCode sha256 inp dr db) = Inr Rejected" using assms(4,5) by (simp add: verifyCode_def live)
  show "only_code r (Suc k) (snd (verifyCode sha256 inp dr db))"
  proof (cases "k < CODE_MAX_ATTEMPTS")
    case True
    then show ?thesis using assms(4,5) only_code_miss [OF assms(1,2) True] by (simp add: verifyCode_def live)
  next
    case False
    then show ?thesis using assms(1,4) by (simp add: verifyCode_def live only_code_def)
  qed
qed

lemma right_guess:
  assumes "only_code r k db" "ec_consumedAt r = None" "vi_now inp < ec_expiresAt r" "k < CODE_MAX_ATTEMPTS"
    and "normalizeEmail (vi_email inp) = ec_email r" "hashCode sha256 (ec_id r) (vi_code inp) = ec_codeHash r"
  shows "\<exists>m nb nc db'. verifyCode sha256 inp dr db = (Inr (Verified m (dr_token dr) nb nc), db')"
  using sign_in_verified [of sha256 inp dr "update_code (ec_id r) (\<lambda>c. c\<lparr>ec_consumedAt := Some (vi_now inp)\<rparr>) db"]
    assms(4-6) only_code_live [OF assms(1-3)]
  by (auto simp: verifyCode_def)

lemma issueCode_only:
  assumes "issueCode sha256 email now drawn i dbNow db = ((code, expiresAt), db0)" "i \<notin> ec_id ` set (ad_codes db)"
  obtains r where "only_code r 0 db0" "ec_consumedAt r = None" "ec_expiresAt r = expiresAt" "ec_email r = normalizeEmail email"
    "ec_id r = i" "ec_codeHash r = hashCode sha256 i code" "code = randomCode drawn" "expiresAt = now + CODE_TTL_MS"
proof -
  let ?r = "\<lparr>ec_id = i, ec_email = normalizeEmail email, ec_codeHash = hashCode sha256 i code, ec_expiresAt = expiresAt, ec_attempts = 0,
     ec_consumedAt = None, ec_createdAt = dbNow\<rparr>"
  have "only_code ?r 0 db0"
    using assms by (force simp: issueCode_def Let_def only_code_def CODE_MAX_ATTEMPTS_def)
  then show thesis using assms(1) by (intro that [of ?r]) (auto simp: issueCode_def Let_def)
qed

text \<open>
  C16. A code takes five guesses: after a code is issued and any number of wrong guesses at it were made in its lifetime, all of them
  rejected, presenting the right code within the ten minutes signs in exactly when there were fewer than five.
\<close>

theorem code_budget:
  assumes "inj sha256" and "i \<notin> ec_id ` set (ad_codes db)"
    and "issueCode sha256 email now drawn i dbNow db = ((code, expiresAt), db0)"
    and "\<forall>g \<in> set guesses. normalizeEmail (vi_email (fst g)) = normalizeEmail email \<and> vi_code (fst g) \<noteq> code \<and> vi_now (fst g) < now + 600000"
    and "normalizeEmail (vi_email inp) = normalizeEmail email" "vi_code inp = code" "vi_now inp < now + 600000"
  shows "(\<forall>n < length guesses. fst (verifyCode sha256 (fst (guesses ! n)) (snd (guesses ! n)) (guess_all sha256 (take n guesses) db0)) = Inr Rejected) \<and>
    (5 \<le> length guesses \<longrightarrow> fst (verifyCode sha256 inp dr (guess_all sha256 guesses db0)) = Inr Rejected) \<and>
    (length guesses < 5 \<longrightarrow> (\<exists>m builds calls. fst (verifyCode sha256 inp dr (guess_all sha256 guesses db0)) = Inr (Verified m (dr_token dr) builds calls)))"
proof -
  obtain r where r: "only_code r 0 db0" "ec_consumedAt r = None" "ec_expiresAt r = now + 600000" "ec_email r = normalizeEmail email"
      "ec_id r = i" "ec_codeHash r = hashCode sha256 i code"
    by (rule issueCode_only [OF assms(3,2)]) (simp add: CODE_TTL_MS_def)
  have wrong: "hashCode sha256 (ec_id r) c \<noteq> ec_codeHash r" if "c \<noteq> code" for c
    using assms(1) that by (simp add: r hashCode_def inj_eq)
  have only: "only_code r (k + length gs) (guess_all sha256 gs db)" if "only_code r k db" "set gs \<subseteq> set guesses" for k gs db
    using that
  proof (induction gs arbitrary: k db)
    case (Cons g gs)
    have "only_code r (Suc k) (snd (verifyCode sha256 (fst g) (snd g) db))"
      using Cons.prems assms(4) r wrong by (intro wrong_guess) auto
    with Cons.IH [of "Suc k"] Cons.prems show ?case by (simp add: guess_all_def)
  qed (simp add: guess_all_def)
  have "fst (verifyCode sha256 (fst (guesses ! n)) (snd (guesses ! n)) (guess_all sha256 (take n guesses) db0)) = Inr Rejected"
    if "n < length guesses" for n
    using only [OF r(1) set_take_subset] assms(4) r(2-4) wrong nth_mem [OF that] by (intro wrong_guess(1)) auto
  moreover from only [OF r(1), of guesses] have only: "only_code r (length guesses) (guess_all sha256 guesses db0)" by simp
  note live = only_code_live [OF only r(2), of "vi_now inp"]
  have "fst (verifyCode sha256 inp dr (guess_all sha256 guesses db0)) = Inr Rejected" if "5 \<le> length guesses"
    using that live r assms(5-7) by (simp add: verifyCode_def CODE_MAX_ATTEMPTS_def)
  moreover have "\<exists>m builds calls. fst (verifyCode sha256 inp dr (guess_all sha256 guesses db0)) = Inr (Verified m (dr_token dr) builds calls)"
    if "length guesses < 5"
    using that right_guess [OF only r(2), of inp sha256 dr] r assms(5-7) by (fastforce simp: CODE_MAX_ATTEMPTS_def)
  ultimately show ?thesis by blast
qed

subsection \<open>Reachable states\<close>

inductive auth_step :: "(string \<Rightarrow> string) \<Rightarrow> AuthDb \<Rightarrow> AuthDb \<Rightarrow> bool" for sha256 where
  Issue: "i \<notin> ec_id ` set (ad_codes db) \<Longrightarrow> issueCode sha256 email now drawn i dbNow db = (res, db') \<Longrightarrow> auth_step sha256 db db'"
| Verify: "verifyCode sha256 inp dr db = (res, db') \<Longrightarrow> auth_step sha256 db db'"
| Switch: "switchTenant sha256 token tenant dbNow db = (res, db') \<Longrightarrow> auth_step sha256 db db'"
| Revoke: "revokeSessionFamily sha256 token dbNow db = (n, db') \<Longrightarrow> auth_step sha256 db db'"

lemma codes_inv_update:
  assumes "codes_inv cs" and "\<And>c. ec_id (f c) = ec_id c \<and> ec_email (f c) = ec_email c"
    and "\<And>c. c \<in> set cs \<Longrightarrow> ec_consumedAt (f c) = None \<Longrightarrow> ec_consumedAt c = None \<and> ec_attempts (f c) < CODE_MAX_ATTEMPTS"
  shows "codes_inv (map f cs)"
proof -
  have "distinct (map ec_email (filter (\<lambda>c. ec_consumedAt c = None) (map f cs)))"
    if "distinct (map ec_email (filter (\<lambda>c. ec_consumedAt c = None) cs))"
      "\<forall>c \<in> set cs. ec_consumedAt (f c) = None \<longrightarrow> ec_consumedAt c = None" for cs
    using that assms(2) by (induction cs) (auto split: if_splits)
  moreover have "map ec_id (map f cs) = map ec_id cs" using assms(2) by simp
  ultimately show ?thesis using assms(1,3) unfolding codes_inv_def by (metis (no_types, lifting) imageE list.set_map)
qed

lemma codes_inv_snoc:
  "codes_inv cs \<Longrightarrow> ec_id r \<notin> ec_id ` set cs \<Longrightarrow> (\<And>c. c \<in> set cs \<Longrightarrow> ec_email c = ec_email r \<Longrightarrow> ec_consumedAt c \<noteq> None) \<Longrightarrow>
    ec_attempts r < CODE_MAX_ATTEMPTS \<Longrightarrow> codes_inv (cs @ [r])"
  unfolding codes_inv_def by fastforce

lemma codes_inv_verify:
  assumes "codes_inv (ad_codes db)" and "verifyCode sha256 inp dr db = (res, db')"
  shows "codes_inv (ad_codes db')"
proof (cases "live_code db (normalizeEmail (vi_email inp)) (vi_now inp)")
  case None
  with assms show ?thesis by (simp add: verifyCode_def)
next
  case (Some live)
  note l = live_code_Some [OF Some]
  let ?used = "update_code (ec_id live) (\<lambda>c. c\<lparr>ec_consumedAt := Some (vi_now inp)\<rparr>) db"
  have same: "c = live" if "c \<in> set (ad_codes db)" "ec_id c = ec_id live" for c
    using assms(1) that l by (metis (no_types, lifting) codes_inv_def distinct_map inj_on_contraD)
  have miss: "codes_inv (ad_codes (count_miss live (vi_now inp) db))"
    unfolding count_miss_def update_code_def Let_def
    by (simp, rule codes_inv_update [OF assms(1)])
      (use assms(1) in \<open>auto simp: codes_inv_def split: if_splits\<close>)
  have used: "codes_inv (ad_codes ?used)"
    unfolding update_code_def by (simp, rule codes_inv_update [OF assms(1)]) (use assms(1) in \<open>auto simp: codes_inv_def split: if_splits\<close>)
  obtain m nb nc db2 where s: "sign_in sha256 inp dr ?used = (Inr (Verified m (dr_token dr) nb nc), db2)" "ad_codes db2 = ad_codes ?used"
    by (rule sign_in_result [of sha256 inp dr ?used])
  show ?thesis using assms(2) Some s miss used by (auto simp: verifyCode_def split: if_splits)
qed

lemma codes_inv_step: "auth_step sha256 db db' \<Longrightarrow> codes_inv (ad_codes db) \<Longrightarrow> codes_inv (ad_codes db')"
proof (induction rule: auth_step.induct)
  case (Issue i db email now drawn dbNow res db')
  let ?f = "\<lambda>c. if ec_email c = normalizeEmail email \<and> ec_consumedAt c = None then c\<lparr>ec_consumedAt := Some now\<rparr> else c"
  have "codes_inv (map ?f (ad_codes db))" by (rule codes_inv_update) (use Issue in \<open>auto simp: codes_inv_def split: if_splits\<close>)
  moreover obtain row where "ad_codes db' = map ?f (ad_codes db) @ [row]" "ec_id row = i" "ec_email row = normalizeEmail email" "ec_attempts row = 0"
    using Issue(2) by (auto simp: issueCode_def Let_def)
  moreover have "i \<notin> ec_id ` set (map ?f (ad_codes db))" using Issue(1) by auto
  ultimately show ?case by (simp only:) (rule codes_inv_snoc, auto simp: CODE_MAX_ATTEMPTS_def split: if_splits)
qed (auto simp: switchTenant_def revokeSessionFamily_def Let_def intro: codes_inv_verify split: option.splits if_splits prod.splits)

lemma codes_inv_reachable: "(auth_step sha256)\<^sup>*\<^sup>* db0 db \<Longrightarrow> ad_codes db0 = [] \<Longrightarrow> codes_inv (ad_codes db)"
  by (induction rule: rtranclp_induct) (auto simp: codes_inv_def [of "[]"] intro: codes_inv_step)

lemma verified_result:
  assumes "verifyCode sha256 inp dr db = (Inr (Verified m token nb nc), db')"
  obtains live where "live_code db (normalizeEmail (vi_email inp)) (vi_now inp) = Some live"
    "sign_in sha256 inp dr (update_code (ec_id live) (\<lambda>c. c\<lparr>ec_consumedAt := Some (vi_now inp)\<rparr>) db) = (Inr (Verified m token nb nc), db')"
  using assms by (auto simp: verifyCode_def split: option.splits if_splits prod.splits sum.splits)



subsection \<open>Session families\<close>

text \<open>A parent exists before its children, so the sessions form a forest in the order of their insertion.\<close>

definition forest :: "SessionRow list \<Rightarrow> bool" where
  "forest ss \<longleftrightarrow> distinct (map ss_id ss) \<and>
     (\<forall>k < length ss. \<forall>p. ss_parentSessionId (ss ! k) = Some p \<longrightarrow> (\<exists>j < k. ss_id (ss ! j) = p))"

definition child_of :: "SessionRow list \<Rightarrow> string \<Rightarrow> string \<Rightarrow> bool" where
  "child_of ss a b \<longleftrightarrow> (\<exists>s \<in> set ss. ss_id s = a \<and> ss_parentSessionId s = Some b)"

definition related :: "SessionRow list \<Rightarrow> string \<Rightarrow> string \<Rightarrow> bool" where
  "related ss = (\<lambda>a b. child_of ss a b \<or> child_of ss b a)\<^sup>*\<^sup>*"

lemma forest_find: "forest ss \<Longrightarrow> k < length ss \<Longrightarrow> List.find (\<lambda>s. ss_id s = ss_id (ss ! k)) ss = Some (ss ! k)"
  by (rule find_eq_Some_iff_distinct) (auto simp: forest_def)

lemma forest_index: "forest ss \<Longrightarrow> i < length ss \<Longrightarrow> j < length ss \<Longrightarrow> ss_id (ss ! i) = ss_id (ss ! j) \<longleftrightarrow> i = j"
  unfolding forest_def by (metis length_map nth_eq_iff_index_eq nth_map)

lemma up_chain_root:
  assumes "forest ss" and "k < length ss" and "k < n"
  shows "\<exists>j \<le> k. ss_parentSessionId (ss ! j) = None \<and> (child_of ss)\<^sup>*\<^sup>* (ss_id (ss ! k)) (ss_id (ss ! j)) \<and>
    filter (\<lambda>s. ss_parentSessionId s = None) (up_chain ss n (ss_id (ss ! k))) = [ss ! j]"
  using assms(2,3)
proof (induction k arbitrary: n rule: less_induct)
  case (less k)
  obtain n' where n: "n = Suc n'" using less.prems(2) by (cases n) auto
  note found = forest_find [OF assms(1) less.prems(1)]
  show ?case
  proof (cases "ss_parentSessionId (ss ! k)")
    case None
    then show ?thesis using n found by (intro exI [of _ k]) simp
  next
    case (Some p)
    then obtain j where j: "j < k" "ss_id (ss ! j) = p" using assms(1) less.prems(1) by (auto simp: forest_def)
    with less.IH [OF j(1), of n'] less.prems n obtain i where
        i: "i \<le> j" "ss_parentSessionId (ss ! i) = None" "(child_of ss)\<^sup>*\<^sup>* p (ss_id (ss ! i))"
        "filter (\<lambda>s. ss_parentSessionId s = None) (up_chain ss n' p) = [ss ! i]" by auto
    have "child_of ss (ss_id (ss ! k)) p" using Some less.prems(1) by (auto simp: child_of_def)
    with i j Some found n show ?thesis by (intro exI [of _ i]) (auto intro: converse_rtranclp_into_rtranclp)
  qed
qed

lemma down_levels_sound: "x \<in> set (down_levels ss n fr) \<Longrightarrow> \<exists>f \<in> set fr. (child_of ss)\<^sup>*\<^sup>* x f"
proof (induction n arbitrary: fr)
  case (Suc n)
  show ?case
  proof (cases "x \<in> set fr")
    case False
    with Suc.prems have "x \<in> set (down_levels ss n (map ss_id (filter (\<lambda>s. \<exists>p \<in> set fr. ss_parentSessionId s = Some p) ss)))" by simp
    from Suc.IH [OF this] obtain s p where "s \<in> set ss" "p \<in> set fr" "ss_parentSessionId s = Some p" "(child_of ss)\<^sup>*\<^sup>* x (ss_id s)" by auto
    moreover then have "child_of ss (ss_id s) p" by (auto simp: child_of_def)
    ultimately show ?thesis by (meson rtranclp.rtrancl_into_rtrancl)
  qed auto
qed simp

lemma down_levels_complete: "(child_of ss ^^ m) x f \<Longrightarrow> f \<in> set fr \<Longrightarrow> m < n \<Longrightarrow> x \<in> set (down_levels ss n fr)"
proof (induction m arbitrary: f fr n)
  case 0
  then show ?case by (cases n) auto
next
  case (Suc m)
  from Suc.prems(3) obtain n' where n: "n = Suc n'" "m < n'" by (cases n) auto
  from Suc.prems(1) obtain y where y: "(child_of ss ^^ m) x y" "child_of ss y f" by auto
  then have "y \<in> set (map ss_id (filter (\<lambda>s. \<exists>p \<in> set fr. ss_parentSessionId s = Some p) ss))"
    using Suc.prems(2) by (auto simp: child_of_def)
  from Suc.IH [OF y(1) this n(2)] show ?case by (simp add: n)
qed

lemma child_path_length: "forest ss \<Longrightarrow> (child_of ss ^^ m) (ss_id (ss ! k)) f \<Longrightarrow> k < length ss \<Longrightarrow> m \<le> k"
proof (induction m arbitrary: k)
  case (Suc m)
  from relpowp_Suc_D2 [OF Suc.prems(2)] obtain y where y: "child_of ss (ss_id (ss ! k)) y" "(child_of ss ^^ m) y f" by auto
  then obtain i where i: "i < length ss" "ss_id (ss ! i) = ss_id (ss ! k)" "ss_parentSessionId (ss ! i) = Some y"
    by (auto simp: child_of_def in_set_conv_nth)
  then have "i = k" using forest_index [OF Suc.prems(1)] Suc.prems(3) by blast
  with i Suc.prems(1) obtain j where j: "j < k" "ss_id (ss ! j) = y" by (auto simp: forest_def)
  then have "m \<le> j" using Suc.IH [OF Suc.prems(1), of j] y(2) Suc.prems(3) by simp
  with j show ?case by simp
qed simp

text \<open>In a forest, the family of a session is its whole tree.\<close>

lemma family_related:
  assumes f: "forest ss" and "x \<in> set ss" and "y \<in> set ss"
  shows "ss_id y \<in> set (family ss (ss_id x)) \<longleftrightarrow> related ss (ss_id x) (ss_id y)"
proof -
  obtain k where k: "k < length ss" "x = ss ! k" using assms(2) by (auto simp: in_set_conv_nth)
  from up_chain_root [OF f k(1) k(1)] obtain j where j: "j \<le> k" "ss_parentSessionId (ss ! j) = None"
      "(child_of ss)\<^sup>*\<^sup>* (ss_id x) (ss_id (ss ! j))" "family ss (ss_id x) = down_levels ss (length ss) [ss_id (ss ! j)]"
    by (auto simp: family_def k(2))
  let ?r = "ss_id (ss ! j)"
  have top: "\<not> child_of ss ?r p" for p
  proof
    assume "child_of ss ?r p"
    then obtain i where "i < length ss" "ss_id (ss ! i) = ?r" "ss_parentSessionId (ss ! i) = Some p" by (auto simp: child_of_def in_set_conv_nth)
    with forest_index [OF f, of i j] j(1,2) k(1) show False by auto
  qed
  have unique: "p = q" if "child_of ss a p" "child_of ss a q" for a p q
    using that f by (auto simp: child_of_def forest_def distinct_map dest!: inj_onD)
  have down: "ss_id y \<in> set (family ss (ss_id x)) \<longleftrightarrow> (child_of ss)\<^sup>*\<^sup>* (ss_id y) ?r"
  proof
    assume "(child_of ss)\<^sup>*\<^sup>* (ss_id y) ?r"
    then obtain m where m: "(child_of ss ^^ m) (ss_id y) ?r" by (metis rtranclp_imp_relpowp)
    obtain i where i: "i < length ss" "y = ss ! i" using assms(3) by (auto simp: in_set_conv_nth)
    then have "m < length ss" using child_path_length [OF f, of m i ?r] m by simp
    then show "ss_id y \<in> set (family ss (ss_id x))" unfolding j(4) by (intro down_levels_complete [OF m]) simp_all
  next
    assume "ss_id y \<in> set (family ss (ss_id x))"
    from down_levels_sound [OF this [unfolded j(4)]] show "(child_of ss)\<^sup>*\<^sup>* (ss_id y) ?r" by simp
  qed
  have tree: "(child_of ss)\<^sup>*\<^sup>* b ?r" if "related ss a b" "(child_of ss)\<^sup>*\<^sup>* a ?r" for a b
    using that(1) unfolding related_def
  proof (induction rule: rtranclp_induct)
    case (step b c)
    show ?case
    proof (cases "child_of ss c b")
      case True
      then show ?thesis by (rule converse_rtranclp_into_rtranclp) (rule step.IH)
    next
      case False
      with step.hyps have "child_of ss b c" by blast
      with step.IH top unique show ?thesis by (metis converse_rtranclpE)
    qed
  qed (rule that(2))
  have up: "related ss a b" "related ss b a" if "(child_of ss)\<^sup>*\<^sup>* a b" for a b
  proof -
    show "related ss a b" using that unfolding related_def by (rule rtranclp_mono [THEN predicate2D, rotated]) auto
    have "(child_of ss)\<inverse>\<inverse>\<^sup>*\<^sup>* b a" using that by (simp add: rtranclp_conversep)
    then show "related ss b a" unfolding related_def by (rule rtranclp_mono [THEN predicate2D, rotated]) auto
  qed
  have "related ss (ss_id x) (ss_id y)" if "(child_of ss)\<^sup>*\<^sup>* (ss_id y) ?r"
    using up(1) [OF j(3)] up(2) [OF that] unfolding related_def by (rule rtranclp_trans)
  with tree [OF _ j(3)] down show ?thesis by blast
qed

text \<open>
  Signing out ends the whole family: every session connected with the token's by parent links, up or down, is revoked, and no other
  session changes; the count returned is that of the sessions it ended.
\<close>

theorem revoke_family:
  assumes "forest (ad_sessions db)" and "liveSession sha256 token t db = Some (x, u)"
    and "revokeSessionFamily sha256 token t db = (n, db')"
  shows "length (ad_sessions db') = length (ad_sessions db) \<and>
    (\<forall>k < length (ad_sessions db).
       (if related (ad_sessions db) (ss_id x) (ss_id (ad_sessions db ! k)) then \<not> session_live t' (ad_sessions db' ! k)
        else ad_sessions db' ! k = ad_sessions db ! k)) \<and>
    n = length (filter (\<lambda>s. related (ad_sessions db) (ss_id x) (ss_id s) \<and> ss_revokedAt s = None) (ad_sessions db)) \<and> 1 \<le> n"
proof -
  have x: "x \<in> set (ad_sessions db)" "ss_revokedAt x = None"
    using assms(2) find_Some_set by (fastforce simp: liveSession_def session_live_def split: option.splits)+
  note fam = family_related [OF assms(1) x(1)]
  let ?hit = "\<lambda>s. ss_id s \<in> set (family (ad_sessions db) (ss_id x)) \<and> ss_revokedAt s = None"
  have db': "ad_sessions db' = map (\<lambda>s. if ?hit s then s\<lparr>ss_revokedAt := Some t\<rparr> else s) (ad_sessions db)" and n: "n = length (filter ?hit (ad_sessions db))"
    using assms(2,3) by (auto simp: revokeSessionFamily_def Let_def)
  have filt: "filter ?hit (ad_sessions db) = filter (\<lambda>s. related (ad_sessions db) (ss_id x) (ss_id s) \<and> ss_revokedAt s = None) (ad_sessions db)"
    by (rule filter_cong) (simp_all add: fam)
  have "related (ad_sessions db) (ss_id x) (ss_id x)" by (simp add: related_def)
  with x fam have "x \<in> set (filter ?hit (ad_sessions db))" by simp
  then have "1 \<le> n" unfolding n by (metis One_nat_def Suc_leI length_pos_if_in_set)
  then show ?thesis using n filt fam nth_mem by (auto simp: db' session_live_def)
qed

subsection \<open>A visitor signs in\<close>

definition visit_db :: AuthDb where
  "visit_db =
     \<lparr>ad_codes = [], ad_users = [], ad_tenants = [], ad_members = [], ad_sessions = [],
      ad_builds = [\<lparr>bd_id = ''b'', bd_tenantId = None, bd_anonOwnerHash = Some ''h'', bd_status = StAsking, bd_askText = ''Fan'',
                    bd_createdAt = 5, bd_updatedAt = 5\<rparr>],
      ad_calls = []\<rparr>"

definition visit_issued :: AuthDb where
  "visit_issued = snd (issueCode id ''Ann@x.org'' 1000 42 ''k'' 1000 visit_db)"

definition visit_input :: VerifyInput where
  "visit_input =
     \<lparr>vi_email = ''ann@x.org '', vi_code = ''000042'', vi_anonOwnerHash = Some ''h'', vi_currentSessionToken = None,
      vi_sessionMaxAgeS = 3600, vi_now = 2000\<rparr>"

definition visit_drawn :: Drawn where
  "visit_drawn = \<lparr>dr_userId = ''u'', dr_tenantId = ''t'', dr_sessionId = ''s'', dr_token = ''tok'', dr_now = 2000\<rparr>"

lemma visit_email: "normalizeEmail ''ann@x.org '' = ''ann@x.org''" "normalizeEmail ''Ann@x.org'' = ''ann@x.org''"
  by code_simp+

lemma visit_code: "randomCode 42 = ''000042''"
  by code_simp

lemma visit_issue: "issueCode id ''Ann@x.org'' 1000 42 ''k'' 1000 visit_db = ((''000042'', 601000), visit_issued)"
  by (simp add: visit_issued_def issueCode_def Let_def visit_code CODE_TTL_MS_def)

lemma visit_verified:
  "\<exists>m nb nc db'. verifyCode id visit_input visit_drawn visit_issued = (Inr (Verified m ''tok'' nb nc), db')"
proof -
  obtain r where "only_code r 0 visit_issued" "ec_consumedAt r = None" "ec_expiresAt r = 601000" "ec_email r = normalizeEmail ''Ann@x.org''"
      "ec_id r = ''k''" "ec_codeHash r = hashCode id ''k'' ''000042''"
    by (rule issueCode_only [OF visit_issue]) (simp add: visit_db_def)
  from right_guess [OF this(1,2), of visit_input id visit_drawn] this(3-6) show ?thesis
    by (simp add: visit_input_def visit_drawn_def visit_email CODE_MAX_ATTEMPTS_def)
qed

theorem code_budget_witness:
  "\<exists>m builds calls. fst (verifyCode id visit_input visit_drawn
     (guess_all id [(visit_input\<lparr>vi_code := ''999999''\<rparr>, visit_drawn)] visit_issued)) = Inr (Verified m ''tok'' builds calls)"
  using code_budget [OF inj_on_id _ visit_issue, of "[(visit_input\<lparr>vi_code := ''999999''\<rparr>, visit_drawn)]" visit_input visit_drawn]
  by (simp add: visit_db_def visit_input_def visit_drawn_def visit_email)



definition visit_sessions :: "SessionRow list" where
  "visit_sessions =
     (let s = (\<lambda>i p. \<lparr>ss_id = i, ss_tokenHash = i, ss_userId = ''u'', ss_activeTenantId = ''t'', ss_parentSessionId = p, ss_expiresAt = 9000,
                      ss_revokedAt = None\<rparr>)
      in [s ''apex'' None, s ''other'' None, s ''sub'' (Some ''apex'')])"

theorem revoke_family_witness:
  "fst (revokeSessionFamily id ''sub'' 1000 (visit_db\<lparr>ad_users := [\<lparr>us_id = ''u'', us_email = ''ann@x.org''\<rparr>], ad_sessions := visit_sessions\<rparr>)) \<ge> 1"
proof -
  let ?db = "visit_db\<lparr>ad_users := [\<lparr>us_id = ''u'', us_email = ''ann@x.org''\<rparr>], ad_sessions := visit_sessions\<rparr>"
  have f: "forest (ad_sessions ?db)"
    by (auto simp: forest_def visit_sessions_def less_Suc_eq numeral_3_eq_3)
  obtain x u where "liveSession id ''sub'' 1000 ?db = Some (x, u)"
    by (simp add: liveSession_def visit_sessions_def hashSessionToken_def session_live_def)
  from revoke_family [OF f this prod.collapse [symmetric], of 0] show ?thesis by blast
qed

end
