(* ===== verification/Llm_Tools.thy ===== *)
theory Llm_Tools
  imports Llm
begin

text \<open>
  The tool loop, \<open>packages/llm/src/tools.ts\<close>: request, run the tools the model asked for, send the results, until the model answers or
  the iterations are used up. As in the structured call, the world and what is done to it are parameters, and the loop returns a trace.
\<close>

text \<open>What an executor threw: the \<open>code\<close> of an object that has one.\<close>

record ToolFault =
  tf_code :: "string option"

record 'w ToolLoopOptions =
  tl_model :: string
  tl_route :: LlmRoute
  tl_tools :: "jvalue list"
  tl_messages :: "LlmMessage list"
  tl_maxIterations :: nat
  tl_maxTokens :: nat
  tl_aborted :: "'w \<Rightarrow> bool"
  tl_create :: "LlmRequest \<Rightarrow> 'w \<Rightarrow> LlmResponse option \<times> 'w"
  tl_executors :: "string \<Rightarrow> (jvalue \<Rightarrow> 'w \<Rightarrow> (ToolFault + jvalue \<times> jvalue) \<times> 'w) option"
  tl_onResponse :: "LlmResponse \<Rightarrow> 'w \<Rightarrow> 'w"
  tl_onToolCall :: "string \<Rightarrow> jvalue \<Rightarrow> 'w \<Rightarrow> 'w"

datatype ToolFailure = MaxIterations | ToolRefusal | ToolMaxTokens | NoText | ToolProviderError

datatype ToolLoopOutcome = ToolText string nat nat | ToolFailed ToolFailure nat nat

datatype ToolEvent = Requested LlmRequest | Responded LlmResponse | Ran string string

definition buildToolRequest :: "LlmRoute \<Rightarrow> string \<Rightarrow> nat \<Rightarrow> jvalue list \<Rightarrow> LlmMessage list \<Rightarrow> LlmRequest" where
  "buildToolRequest route model maxTokens tools messages =
     \<lparr>rq_model = model, rq_max_tokens = maxTokens, rq_betas = [FALLBACK_BETA], rq_fallbacks = ''default'',
      rq_thinking = ''adaptive'', rq_effort = route_effort route, rq_format = None,
      rq_system = systemBlocks route, rq_tools = Some tools, rq_messages = messages\<rparr>"

definition textOf :: "LlmResponse \<Rightarrow> string" where
  "textOf response =
     js_trim (js_join ''\<newline>'' (concat (map (\<lambda>b. case b of TextBlock t \<Rightarrow> [t] | _ \<Rightarrow> []) (resp_content response))))"

definition tool_uses :: "Block list \<Rightarrow> (string \<times> string \<times> jvalue) list" where
  "tool_uses content = concat (map (\<lambda>b. case b of ToolUse i name input \<Rightarrow> [(i, name, input)] | _ \<Rightarrow> []) content)"

definition error_json :: "string \<Rightarrow> string option" where
  "error_json code = json_stringify (JObj [(''error'', JStr code)])"

text \<open>The calls of one response, in order; an abort during one ends the loop with its error.\<close>

fun run_uses ::
    "'w ToolLoopOptions \<Rightarrow> (string \<times> string \<times> jvalue) list \<Rightarrow> 'w \<Rightarrow> (js_error + ToolResult list) \<times> 'w \<times> ToolEvent list" where
  "run_uses opts [] w = (Inr [], w, [])"
| "run_uses opts ((i, name, input) # uses) w =
     (case tl_executors opts name of
        None \<Rightarrow>
          (let (rest, w1, tr) = run_uses opts uses w
           in (map_sum id (Cons \<lparr>tr_id = i, tr_is_error = True, tr_content = error_json ''unknown_tool''\<rparr>) rest, w1, tr))
      | Some executor \<Rightarrow>
          (case executor input w of
             (Inr (result, note), w1) \<Rightarrow>
               (let (rest, w2, tr) = run_uses opts uses (tl_onToolCall opts name note w1)
                in (map_sum id (Cons \<lparr>tr_id = i, tr_is_error = False, tr_content = json_stringify result\<rparr>) rest, w2, Ran i name # tr))
           | (Inl fault, w1) \<Rightarrow>
               if tl_aborted opts w1 then (Inl (Thrown ''aborted''), w1, [Ran i name])
               else (let (rest, w2, tr) = run_uses opts uses w1;
                         code = (case tf_code fault of None \<Rightarrow> ''failed'' | Some c \<Rightarrow> c)
                     in (map_sum id (Cons \<lparr>tr_id = i, tr_is_error = True, tr_content = error_json code\<rparr>) rest, w2, Ran i name # tr))))"

text \<open>The iterations from \<open>iteration\<close> on, with as many left as the first argument says.\<close>

fun tool_loop ::
    "'w ToolLoopOptions \<Rightarrow> nat \<Rightarrow> nat \<Rightarrow> LlmMessage list \<Rightarrow> nat \<Rightarrow> 'w \<Rightarrow> (js_error + ToolLoopOutcome) \<times> 'w \<times> ToolEvent list" where
  "tool_loop opts 0 iteration messages toolCalls w = (Inr (ToolFailed MaxIterations toolCalls (tl_maxIterations opts)), w, [])"
| "tool_loop opts (Suc left) iteration messages toolCalls w =
     (if tl_aborted opts w then (Inl (Thrown ''AbortError''), w, [])
      else (let request = buildToolRequest (tl_route opts) (tl_model opts) (tl_maxTokens opts) (tl_tools opts) messages in
        case tl_create opts request w of
          (None, w1) \<Rightarrow> (Inr (ToolFailed ToolProviderError toolCalls iteration), w1, [Requested request])
        | (Some response, w1) \<Rightarrow>
            (let w2 = tl_onResponse opts response w1 in
             if resp_stop_reason response = Some RefusalStop
             then (Inr (ToolFailed ToolRefusal toolCalls iteration), w2, [Requested request, Responded response])
             else if resp_stop_reason response = Some MaxTokensStop
             then (Inr (ToolFailed ToolMaxTokens toolCalls iteration), w2, [Requested request, Responded response])
             else if resp_stop_reason response = Some ToolUseStop
             then (let uses = tool_uses (resp_content response) in
               case run_uses opts uses w2 of
                 (Inl e, w3, tr) \<Rightarrow> (Inl e, w3, Requested request # Responded response # tr)
               | (Inr results, w3, tr) \<Rightarrow>
                   (let (out, w4, tr2) = tool_loop opts left (Suc iteration)
                          (messages @ [\<lparr>msg_role = RoleAssistant, msg_content = BlockContent (resp_content response)\<rparr>,
                                       \<lparr>msg_role = RoleUser, msg_content = ResultContent results\<rparr>])
                          (toolCalls + length uses) w3
                    in (out, w4, Requested request # Responded response # tr @ tr2)))
             else (let tx = textOf response in
               (Inr (if tx \<noteq> [] then ToolText tx toolCalls iteration else ToolFailed NoText toolCalls iteration), w2,
                [Requested request, Responded response])))))"

definition runToolLoop :: "'w ToolLoopOptions \<Rightarrow> 'w \<Rightarrow> (js_error + ToolLoopOutcome) \<times> 'w \<times> ToolEvent list" where
  "runToolLoop opts w = tool_loop opts (tl_maxIterations opts) 1 (tl_messages opts) 0 w"

subsection \<open>What the loop sends\<close>

fun requests :: "ToolEvent list \<Rightarrow> LlmRequest list" where
  "requests [] = []"
| "requests (Requested q # tr) = q # requests tr"
| "requests (_ # tr) = requests tr"

fun responses :: "ToolEvent list \<Rightarrow> LlmResponse list" where
  "responses [] = []"
| "responses (Responded r # tr) = r # responses tr"
| "responses (_ # tr) = responses tr"

lemma requests_append [simp]: "requests (xs @ ys) = requests xs @ requests ys"
  by (induction xs rule: requests.induct) auto

lemma responses_append [simp]: "responses (xs @ ys) = responses xs @ responses ys"
  by (induction xs rule: responses.induct) auto

text \<open>The two messages of one exchange: the model's turn and all results, one per call and in the order of the calls.\<close>

definition exchange :: "Block list \<times> ToolResult list \<Rightarrow> LlmMessage list" where
  "exchange e =
     [\<lparr>msg_role = RoleAssistant, msg_content = BlockContent (fst e)\<rparr>, \<lparr>msg_role = RoleUser, msg_content = ResultContent (snd e)\<rparr>]"

definition answers_all :: "Block list \<times> ToolResult list \<Rightarrow> bool" where
  "answers_all e \<longleftrightarrow> map tr_id (snd e) = map fst (tool_uses (fst e))"

lemma run_uses_trace:
  "run_uses opts uses w = (out, w', tr) \<Longrightarrow>
     requests tr = [] \<and> responses tr = [] \<and> (\<forall>results. out = Inr results \<longrightarrow> map tr_id results = map fst uses)"
proof (induction opts uses w arbitrary: out w' tr rule: run_uses.induct)
  case (2 opts i name input uses w)
  obtain rest w1 tr1 where rec: "run_uses opts uses w = (rest, w1, tr1)" by (metis prod_cases3)
  show ?case
  proof (cases "tl_executors opts name")
    case None
    with "2.prems" rec have "out = map_sum id (Cons \<lparr>tr_id = i, tr_is_error = True, tr_content = error_json ''unknown_tool''\<rparr>) rest" "tr = tr1" by simp_all
    with "2.IH"(1) [OF None rec] show ?thesis by (cases rest) auto
  next
    case (Some executor)
    obtain res w2 where ex: "executor input w = (res, w2)" by (metis surj_pair)
    show ?thesis
    proof (cases res)
      case (Inl fault)
      show ?thesis
      proof (cases "tl_aborted opts w2")
        case True
        with "2.prems" Some ex Inl show ?thesis by auto
      next
        case False
        obtain rest w3 tr3 where rec: "run_uses opts uses w2 = (rest, w3, tr3)" by (metis prod_cases3)
        with "2.prems" Some ex Inl False "2.IH"(2) [OF Some ex [symmetric] Inl False rec] show ?thesis
          by (cases rest) (auto split: option.splits)
      qed
    next
      case (Inr rn)
      obtain result note' where rn: "rn = (result, note')" by (metis surj_pair)
      obtain rest w3 tr3 where rec: "run_uses opts uses (tl_onToolCall opts name note' w2) = (rest, w3, tr3)" by (metis prod_cases3)
      with "2.prems" Some ex Inr rn "2.IH"(3) [OF Some ex [symmetric] Inr rn [symmetric] rec] show ?thesis by (cases rest) auto
    qed
  qed
qed auto

text \<open>The trace of a loop: the requests extend the first messages by complete exchanges, and the outcome fits the last response.\<close>

lemma tool_loop_trace:
  "tool_loop opts left iteration messages calls w = (out, w', tr) \<Longrightarrow>
     length (requests tr) \<le> left \<and>
     (\<forall>q \<in> set (requests tr). rq_tools q = Some (tl_tools opts) \<and> rq_max_tokens q = tl_maxTokens opts \<and>
        (\<exists>es. rq_messages q = messages @ concat (map exchange es) \<and> list_all answers_all es)) \<and>
     (\<forall>tx n k. out = Inr (ToolText tx n k) \<longrightarrow> tx \<noteq> [] \<and> iteration + length (requests tr) = Suc k \<and>
        responses tr \<noteq> [] \<and> textOf (last (responses tr)) = tx \<and>
        resp_stop_reason (last (responses tr)) \<notin> {Some RefusalStop, Some MaxTokensStop, Some ToolUseStop}) \<and>
     (\<forall>n k. out = Inr (ToolFailed MaxIterations n k) \<longrightarrow>
        length (requests tr) = left \<and> (\<forall>r \<in> set (responses tr). resp_stop_reason r = Some ToolUseStop))"
proof (induction left arbitrary: iteration messages calls w out w' tr)
  case (Suc left)
  let ?q = "buildToolRequest (tl_route opts) (tl_model opts) (tl_maxTokens opts) (tl_tools opts) messages"
  have own: "rq_tools ?q = Some (tl_tools opts) \<and> rq_max_tokens ?q = tl_maxTokens opts \<and>
      (\<exists>es. rq_messages ?q = messages @ concat (map exchange es) \<and> list_all answers_all es)"
    by (simp add: buildToolRequest_def exI [of _ "[]"])
  obtain res w1 where c: "tl_create opts ?q w = (res, w1)" by (metis surj_pair)
  show ?case
  proof (cases "tl_aborted opts w \<or> res = None")
    case True
    then show ?thesis using Suc.prems c own by (cases "tl_aborted opts w") (auto simp: Let_def)
  next
    case False
    then obtain r where r: "res = Some r" by blast
    let ?w2 = "tl_onResponse opts r w1"
    show ?thesis
    proof (cases "resp_stop_reason r = Some ToolUseStop")
      case False
      with Suc.prems c own r \<open>\<not> (tl_aborted opts w \<or> res = None)\<close> show ?thesis
        by (auto simp: Let_def split: if_splits)
    next
      case True
      obtain ro w3 tr1 where u: "run_uses opts (tool_uses (resp_content r)) ?w2 = (ro, w3, tr1)" by (metis prod_cases3)
      note ut = run_uses_trace [OF u]
      show ?thesis
      proof (cases ro)
        case (Inl e)
        with Suc.prems c own r True u ut \<open>\<not> (tl_aborted opts w \<or> res = None)\<close> show ?thesis by (auto simp: Let_def)
      next
        case (Inr results)
        let ?e = "(resp_content r, results)"
        obtain out2 w4 tr2 where l: "tool_loop opts left (Suc iteration) (messages @ exchange ?e)
            (calls + length (tool_uses (resp_content r))) w3 = (out2, w4, tr2)" by (metis prod_cases3)
        have eqs: "out = out2" "tr = Requested ?q # Responded r # tr1 @ tr2"
          using Suc.prems c r True u Inr l \<open>\<not> (tl_aborted opts w \<or> res = None)\<close> by (auto simp: Let_def exchange_def)
        have "answers_all ?e" using ut Inr by (simp add: answers_all_def)
        then have later: "\<exists>es. rq_messages q = messages @ concat (map exchange es) \<and> list_all answers_all es"
          if "rq_messages q = (messages @ exchange ?e) @ concat (map exchange es)" "list_all answers_all es" for q es
          using that by (intro exI [of _ "?e # es"]) simp
        note ih = Suc.IH [OF l]
        have reqs: "requests tr = ?q # requests tr2" "responses tr = r # responses tr2" using ut by (simp_all add: eqs(2))
        show ?thesis unfolding eqs(1) reqs
        proof (intro conjI allI impI ballI)
          fix q assume "q \<in> set (?q # requests tr2)"
          then show "rq_tools q = Some (tl_tools opts)" "rq_max_tokens q = tl_maxTokens opts" using own ih by auto
          show "\<exists>es. rq_messages q = messages @ concat (map exchange es) \<and> list_all answers_all es"
          proof (cases "q \<in> set (requests tr2)")
            case True
            with ih obtain es where "rq_messages q = (messages @ exchange ?e) @ concat (map exchange es)" "list_all answers_all es" by blast
            then show ?thesis by (rule later)
          qed (use own \<open>q \<in> set (?q # requests tr2)\<close> in simp)
        qed (use ih True in auto)
      qed
    qed
  qed
qed auto

text \<open>
  C35. The tool loop keeps the protocol and its limits: at most \<open>maxIterations\<close> requests, each carrying the caller's messages followed by
  complete exchanges, in which one user message holds exactly one result for each tool call, in order; an answer is the non-empty text
  of the last response, which asked for no tool; and giving up means that every response asked for tools.
\<close>

theorem runToolLoop_protocol:
  assumes "runToolLoop opts w = (out, w', tr)"
  shows "length (requests tr) \<le> tl_maxIterations opts \<and>
    (\<forall>q \<in> set (requests tr). rq_tools q = Some (tl_tools opts) \<and> rq_max_tokens q = tl_maxTokens opts \<and>
       (\<exists>es. rq_messages q = tl_messages opts @ concat (map exchange es) \<and> list_all answers_all es)) \<and>
    (\<forall>tx n k. out = Inr (ToolText tx n k) \<longrightarrow> tx \<noteq> [] \<and> k = length (requests tr) \<and> textOf (last (responses tr)) = tx \<and>
       resp_stop_reason (last (responses tr)) \<notin> {Some RefusalStop, Some MaxTokensStop, Some ToolUseStop}) \<and>
    (\<forall>n k. out = Inr (ToolFailed MaxIterations n k) \<longrightarrow> length (requests tr) = tl_maxIterations opts \<and>
       (\<forall>r \<in> set (responses tr). resp_stop_reason r = Some ToolUseStop))"
  using tool_loop_trace [OF assms [unfolded runToolLoop_def]] by simp

subsection \<open>A scripted conversation\<close>

text \<open>The model asks for a known and an unknown tool, then answers. The world is the number of responses already given.\<close>

definition chat_response :: "StopReason \<Rightarrow> Block list \<Rightarrow> LlmResponse" where
  "chat_response stop content =
     \<lparr>resp_model = ''m'', resp_stop_reason = Some stop, resp_content = content,
      resp_usage = \<lparr>us_counts = \<lparr>input_tokens = 1, output_tokens = 1, cache_read_input_tokens = None, cache_creation_input_tokens = None,
        cache_creation = None\<rparr>, us_iterations = None\<rparr>\<rparr>"

definition chat_options :: "nat ToolLoopOptions" where
  "chat_options =
     \<lparr>tl_model = ''m'',
      tl_route = \<lparr>route_name = ''ask'', route_stage = ''ask'', route_system = ''s'', route_cachedContext = None, route_effort = EffLow,
        route_maxTokens = 100, route_retryMaxTokens = 200\<rparr>,
      tl_tools = [JStr ''read''], tl_messages = [\<lparr>msg_role = RoleUser, msg_content = TextContent ''How warm?''\<rparr>], tl_maxIterations = 3,
      tl_maxTokens = 100, tl_aborted = (\<lambda>_. False),
      tl_create = (\<lambda>q n. (Some (if n = 0 then chat_response ToolUseStop [ToolUse ''1'' ''read'' JNull, ToolUse ''2'' ''guess'' JNull]
        else chat_response EndTurn [TextBlock ''20 degrees'']), Suc n)),
      tl_executors = (\<lambda>name. if name = ''read'' then Some (\<lambda>input n. (Inr (JNum (Fin 20), JNull), n)) else None),
      tl_onResponse = (\<lambda>r n. n), tl_onToolCall = (\<lambda>name note n. n)\<rparr>"

theorem runToolLoop_protocol_witness:
  "\<exists>w tr. runToolLoop chat_options 0 = (Inr (ToolText ''20 degrees'' 2 2), w, tr) \<and> length (requests tr) = 2 \<and> textOf (last (responses tr)) = ''20 degrees''"
proof -
  have "textOf (chat_response EndTurn [TextBlock ''20 degrees'']) = ''20 degrees''" by code_simp
  then obtain w tr where r: "runToolLoop chat_options 0 = (Inr (ToolText ''20 degrees'' 2 2), w, tr)"
    by (simp add: runToolLoop_def chat_options_def numeral_3_eq_3 numeral_2_eq_2 chat_response_def tool_uses_def Let_def)
  from runToolLoop_protocol [OF r] r show ?thesis by auto
qed

end
