(* ===== verification/Js_Date.thy ===== *)
theory Js_Date
  imports Js_Number
begin

text \<open>
  The part of \<open>Date\<close> the sources use: instants are milliseconds since the epoch, and \<open>toISOString\<close> writes them in UTC. The
  civil calendar is the proleptic Gregorian one of ECMAScript, computed in eras of 400 years of 146097 days.
\<close>

definition civil_from_days :: "int \<Rightarrow> int \<times> int \<times> int" where
  "civil_from_days days =
     (let z = days + 719468;
          era = z div 146097;
          doe = z mod 146097;
          yoe = (doe - doe div 1460 + doe div 36524 - doe div 146096) div 365;
          doy = doe - (365 * yoe + yoe div 4 - yoe div 100);
          mp = (5 * doy + 2) div 153;
          d = doy - (153 * mp + 2) div 5 + 1;
          m = (if mp < 10 then mp + 3 else mp - 9)
      in (yoe + era * 400 + (if m \<le> 2 then 1 else 0), m, d))"

definition days_from_civil :: "int \<Rightarrow> int \<Rightarrow> int \<Rightarrow> int" where
  "days_from_civil year m d =
     (let y = (if m \<le> 2 then year - 1 else year);
          era = y div 400;
          yoe = y mod 400;
          doy = (153 * (if m > 2 then m - 3 else m + 9) + 2) div 5 + d - 1;
          doe = yoe * 365 + yoe div 4 - yoe div 100 + doy
      in era * 146097 + doe - 719468)"

definition pad_left :: "nat \<Rightarrow> nat \<Rightarrow> string" where
  "pad_left width n = (let s = nat_str n in replicate (width - length s) (CHR ''0'') @ s)"

definition toISOString :: "int \<Rightarrow> string" where
  "toISOString ms =
     (let (y, m, d) = civil_from_days (ms div 86400000);
          t = ms mod 86400000
      in (if 0 \<le> y \<and> y \<le> 9999 then pad_left 4 (nat y) else (if y < 0 then ''-'' else ''+'') @ pad_left 6 (nat \<bar>y\<bar>)) @
         ''-'' @ pad_left 2 (nat m) @ ''-'' @ pad_left 2 (nat d) @ ''T'' @
         pad_left 2 (nat (t div 3600000)) @ '':'' @ pad_left 2 (nat (t div 60000 mod 60)) @ '':'' @
         pad_left 2 (nat (t div 1000 mod 60)) @ ''.'' @ pad_left 3 (nat (t mod 1000)) @ ''Z'')"

lemma epoch_iso: "toISOString 0 = ''1970-01-01T00:00:00.000Z''"
  by code_simp

lemma leap_day_iso: "toISOString 1709210096789 = ''2024-02-29T12:34:56.789Z''"
  by code_simp

end
