(* ===== verification/Device_Schema.thy ===== *)
theory Device_Schema
  imports Intake_Service Js_Date Auth
begin
text \<open>
  What a device reports and runs: channels and envelopes of \<open>packages/schema/src/telemetry.ts\<close>, capabilities of \<open>observations.ts\<close>, and
  the firmware manifest and compile record of \<open>firmware.ts\<close> with the canonical text of a manifest. An object keyed by channel names is an
  association list in insertion order, with distinct keys; a number that the schema requires to be an integer is an \<^typ>\<open>int\<close>.
\<close>

text \<open>Zod's \<open>int\<close> admits the safe integers only.\<close>

definition MAX_SAFE_INTEGER :: int where
  "MAX_SAFE_INTEGER = 9007199254740991"

definition z_posint :: "int \<Rightarrow> bool" where
  "z_posint n \<longleftrightarrow> 0 < n \<and> n \<le> MAX_SAFE_INTEGER"

subsection \<open>Channels\<close>

record TelemetryChannel =
  tc_unit :: string
  tc_min :: jsnum
  tc_max :: jsnum

definition TelemetryChannel_ok :: "TelemetryChannel \<Rightarrow> bool" where
  "TelemetryChannel_ok c \<longleftrightarrow>
     1 \<le> length (tc_unit c) \<and> length (tc_unit c) \<le> 40 \<and> isFinite (tc_min c) \<and> isFinite (tc_max c) \<and> jle (tc_min c) (tc_max c)"

definition channel_char :: "char \<Rightarrow> bool" where
  "channel_char c \<longleftrightarrow> lower c \<or> digit c \<or> c = CHR ''_''"

definition CHANNEL_KEY :: rx where
  "CHANNEL_KEY = Seq (Cls lower) (UpTo 63 (Cls channel_char))"

type_synonym Channels = "(string \<times> TelemetryChannel) list"

definition ProvisionedChannels_ok :: "Channels \<Rightarrow> bool" where
  "ProvisionedChannels_ok cs \<longleftrightarrow>
     distinct (map fst cs) \<and> list_all (\<lambda>(k, c). rx_full CHANNEL_KEY k \<and> TelemetryChannel_ok c) cs \<and> length cs \<le> 64"

definition TelemetryChannels_ok :: "Channels \<Rightarrow> bool" where
  "TelemetryChannels_ok cs \<longleftrightarrow> ProvisionedChannels_ok cs \<and> cs \<noteq> []"

subsection \<open>Envelopes\<close>

record EnvelopeReading =
  er_c :: string
  er_t :: int
  er_v :: jsnum

record EnvelopeStatus =
  es_batt_mv :: "int option"
  es_rssi :: "int option"
  es_up_s :: int
  es_health :: "string list"

record TelemetryEnvelope =
  te_v :: int
  te_dev :: string
  te_seq :: int
  te_ts :: int
  te_r :: "EnvelopeReading list"
  te_st :: EnvelopeStatus

definition EnvelopeReading_ok :: "EnvelopeReading \<Rightarrow> bool" where
  "EnvelopeReading_ok r \<longleftrightarrow> rx_full CHANNEL_KEY (er_c r) \<and> - 7776000 \<le> er_t r \<and> er_t r \<le> 253402300799 \<and> isFinite (er_v r)"

definition EnvelopeStatus_ok :: "EnvelopeStatus \<Rightarrow> bool" where
  "EnvelopeStatus_ok s \<longleftrightarrow>
     opt_ok (\<lambda>b. 0 \<le> b \<and> b \<le> 100000) (es_batt_mv s) \<and> opt_ok (\<lambda>r. - 150 \<le> r \<and> r \<le> 0) (es_rssi s) \<and>
     0 \<le> es_up_s s \<and> es_up_s s \<le> MAX_SAFE_INTEGER \<and>
     list_all (\<lambda>h. 1 \<le> length h \<and> length h \<le> 64) (es_health s) \<and> length (es_health s) \<le> 16"

definition TelemetryEnvelope_ok :: "TelemetryEnvelope \<Rightarrow> bool" where
  "TelemetryEnvelope_ok e \<longleftrightarrow>
     te_v e = 1 \<and> rx_full z_uuid (te_dev e) \<and> 0 \<le> te_seq e \<and> te_seq e \<le> MAX_SAFE_INTEGER \<and>
     0 < te_ts e \<and> te_ts e \<le> 253402300799 \<and>
     list_all EnvelopeReading_ok (te_r e) \<and> 1 \<le> length (te_r e) \<and> length (te_r e) \<le> 500 \<and> EnvelopeStatus_ok (te_st e)"

subsection \<open>Capabilities\<close>

definition capability_char :: "char \<Rightarrow> bool" where
  "capability_char c \<longleftrightarrow> channel_char c \<or> c = CHR ''.'' \<or> c = CHR ''-''"

definition SensorCapabilityId :: rx where
  "SensorCapabilityId = Seq (Cls lower) (UpTo 63 (Cls capability_char))"

record CapabilityBase =
  cb_id :: string
  cb_profile_id :: string
  cb_profile_version :: int
  cb_enabled :: bool
  cb_required :: bool
  cb_interval_s :: int

datatype SensorCapability =
    ImageCapability CapabilityBase int int int
  | MeasurementCapability CapabilityBase Channels

fun cap_base :: "SensorCapability \<Rightarrow> CapabilityBase" where
  "cap_base (ImageCapability b _ _ _) = b"
| "cap_base (MeasurementCapability b _) = b"

fun cap_channels :: "SensorCapability \<Rightarrow> Channels" where
  "cap_channels (ImageCapability _ _ _ _) = []"
| "cap_channels (MeasurementCapability _ cs) = cs"

fun is_image :: "SensorCapability \<Rightarrow> bool" where
  "is_image (ImageCapability _ _ _ _) = True"
| "is_image (MeasurementCapability _ _) = False"

definition CapabilityBase_ok :: "CapabilityBase \<Rightarrow> bool" where
  "CapabilityBase_ok b \<longleftrightarrow>
     rx_full SensorCapabilityId (cb_id b) \<and> 1 \<le> length (cb_profile_id b) \<and> length (cb_profile_id b) \<le> 128 \<and>
     z_posint (cb_profile_version b) \<and> 1 \<le> cb_interval_s b \<and> cb_interval_s b \<le> 86400"

fun SensorCapability_ok :: "SensorCapability \<Rightarrow> bool" where
  "SensorCapability_ok (ImageCapability b bytes w h) \<longleftrightarrow>
     CapabilityBase_ok b \<and> 0 < bytes \<and> bytes \<le> 1048576 \<and> 0 < w \<and> w \<le> 4096 \<and> 0 < h \<and> h \<le> 4096"
| "SensorCapability_ok (MeasurementCapability b cs) \<longleftrightarrow> CapabilityBase_ok b \<and> TelemetryChannels_ok cs"

text \<open>The \<open>superRefine\<close> loop: an issue for each id and each channel seen before.\<close>

fun capability_issues :: "SensorCapability list \<Rightarrow> string list \<Rightarrow> string list \<Rightarrow> string list" where
  "capability_issues [] ids channels = []"
| "capability_issues (cap # rest) ids channels =
     issue_if (cb_id (cap_base cap) \<in> set ids) ''Duplicate capability ID'' @
     concat (map (\<lambda>k. issue_if (k \<in> set channels) ''Duplicate device channel ID'') (map fst (cap_channels cap))) @
     capability_issues rest (cb_id (cap_base cap) # ids) (map fst (cap_channels cap) @ channels)"

definition DeviceCapabilities_ok :: "SensorCapability list \<Rightarrow> bool" where
  "DeviceCapabilities_ok caps \<longleftrightarrow>
     list_all SensorCapability_ok caps \<and> 1 \<le> length caps \<and> length caps \<le> 64 \<and> capability_issues caps [] [] = []"

subsection \<open>Firmware\<close>

definition Sha256Hex :: "string \<Rightarrow> bool" where
  "Sha256Hex s \<longleftrightarrow> rx_full (Times 64 (Cls hex_low)) s"

record FirmwareFile =
  ff_path :: string
  ff_sha256 :: string
  ff_size :: int

definition FirmwareFile_ok :: "FirmwareFile \<Rightarrow> bool" where
  "FirmwareFile_ok f \<longleftrightarrow>
     ff_path f \<in> {''bootloader.bin'', ''partition-table.bin'', ''albusforge.bin''} \<and> Sha256Hex (ff_sha256 f) \<and>
     0 < ff_size f \<and> ff_size f \<le> 3 * 1024 * 1024"

record FlashLayout =
  fl_chip :: string
  fl_config_offset :: int
  fl_config_size :: int

record FirmwareManifest =
  mf_v :: int
  mf_build_id :: string
  mf_plan_version :: int
  mf_code_version :: int
  mf_profile_id :: string
  mf_runtime :: string
  mf_channels :: Channels
  mf_capabilities :: "SensorCapability list option"
  mf_files :: "FirmwareFile list"
  mf_flash :: FlashLayout

definition FirmwareManifest_ok :: "FirmwareManifest \<Rightarrow> bool" where
  "FirmwareManifest_ok m \<longleftrightarrow>
     mf_v m = 1 \<and> rx_full z_uuid (mf_build_id m) \<and> z_posint (mf_plan_version m) \<and> z_posint (mf_code_version m) \<and>
     1 \<le> length (mf_profile_id m) \<and> length (mf_profile_id m) \<le> 120 \<and> SemVer (mf_runtime m) \<and>
     ProvisionedChannels_ok (mf_channels m) \<and> opt_ok DeviceCapabilities_ok (mf_capabilities m) \<and>
     list_all FirmwareFile_ok (mf_files m) \<and> length (mf_files m) = 3 \<and> length (js_unique (map ff_path (mf_files m))) = 3 \<and>
     mf_flash m = \<lparr>fl_chip = ''esp32s3'', fl_config_offset = 36864, fl_config_size = 24576\<rparr> \<and>
     (mf_channels m \<noteq> [] \<or> (case mf_capabilities m of None \<Rightarrow> False | Some caps \<Rightarrow> list_ex is_image caps))"

record FirmwareJobRequest =
  fj_request_id :: string
  fj_interval_s :: int
  fj_instruction :: string
  fj_based_on :: "int option"
  fj_attempts :: int

definition FirmwareJobRequest_ok :: "FirmwareJobRequest \<Rightarrow> bool" where
  "FirmwareJobRequest_ok j \<longleftrightarrow>
     rx_full z_uuid (fj_request_id j) \<and> 10 \<le> fj_interval_s j \<and> fj_interval_s j \<le> 86400 \<and> length (fj_instruction j) \<le> 500 \<and>
     opt_ok z_posint (fj_based_on j) \<and> 0 \<le> fj_attempts j \<and> fj_attempts j \<le> 3"

record FirmwarePassedRecord =
  fp_job :: "FirmwareJobRequest option"
  fp_candidate_id :: string
  fp_manifest :: FirmwareManifest
  fp_manifest_digest :: string
  fp_image_digest :: string
  fp_idf_version :: string
  fp_bundle_sha256 :: "string option"
  fp_source_sha256 :: string
  fp_instruction :: string
  fp_diagnostics :: string

definition FirmwarePassedRecord_ok :: "FirmwarePassedRecord \<Rightarrow> bool" where
  "FirmwarePassedRecord_ok r \<longleftrightarrow>
     opt_ok FirmwareJobRequest_ok (fp_job r) \<and> 1 \<le> length (fp_candidate_id r) \<and> length (fp_candidate_id r) \<le> 120 \<and>
     FirmwareManifest_ok (fp_manifest r) \<and> Sha256Hex (fp_manifest_digest r) \<and>
     startsWith (fp_image_digest r) ''espressif/idf@sha256:'' \<and> Sha256Hex (drop 21 (fp_image_digest r)) \<and>
     fp_idf_version r = ''5.5.3'' \<and> opt_ok Sha256Hex (fp_bundle_sha256 r) \<and> Sha256Hex (fp_source_sha256 r) \<and>
     length (fp_instruction r) \<le> 500 \<and> length (fp_diagnostics r) \<le> 20000"

subsection \<open>The canonical manifest\<close>

definition jint :: "int \<Rightarrow> jvalue" where
  "jint n = JNum (Fin (of_int n))"

definition channel_json :: "TelemetryChannel \<Rightarrow> jvalue" where
  "channel_json c = JObj [(''unit'', JStr (tc_unit c)), (''min'', JNum (tc_min c)), (''max'', JNum (tc_max c))]"

definition channels_json :: "Channels \<Rightarrow> jvalue" where
  "channels_json cs = JObj (map (\<lambda>(k, c). (k, channel_json c)) cs)"

fun capability_json :: "SensorCapability \<Rightarrow> jvalue" where
  "capability_json (ImageCapability b bytes w h) =
     JObj [(''id'', JStr (cb_id b)), (''profile_id'', JStr (cb_profile_id b)), (''profile_version'', jint (cb_profile_version b)),
           (''enabled'', JBool (cb_enabled b)), (''required'', JBool (cb_required b)), (''interval_s'', jint (cb_interval_s b)),
           (''kind'', JStr ''image''), (''schema'', JStr ''jpeg.v1''),
           (''max_bytes'', jint bytes), (''max_width'', jint w), (''max_height'', jint h)]"
| "capability_json (MeasurementCapability b cs) =
     JObj [(''id'', JStr (cb_id b)), (''profile_id'', JStr (cb_profile_id b)), (''profile_version'', jint (cb_profile_version b)),
           (''enabled'', JBool (cb_enabled b)), (''required'', JBool (cb_required b)), (''interval_s'', jint (cb_interval_s b)),
           (''kind'', JStr ''measurement''), (''schema'', JStr ''readings.v1''), (''channels'', channels_json cs)]"

definition file_json :: "FirmwareFile \<Rightarrow> jvalue" where
  "file_json f = JObj [(''path'', JStr (ff_path f)), (''sha256'', JStr (ff_sha256 f)), (''size'', jint (ff_size f))]"

definition manifest_json :: "FirmwareManifest \<Rightarrow> jvalue" where
  "manifest_json m =
     JObj ([(''v'', jint (mf_v m)), (''build_id'', JStr (mf_build_id m)), (''plan_version'', jint (mf_plan_version m)),
            (''code_version'', jint (mf_code_version m)), (''profile_id'', JStr (mf_profile_id m)), (''runtime'', JStr (mf_runtime m)),
            (''channels'', channels_json (mf_channels m))] @
           (case mf_capabilities m of None \<Rightarrow> [] | Some caps \<Rightarrow> [(''capabilities'', JArr (map capability_json caps))]) @
           [(''files'', JArr (map file_json (mf_files m))),
            (''flash'', JObj [(''chip'', JStr (fl_chip (mf_flash m))), (''config_offset'', jint (fl_config_offset (mf_flash m))),
               (''config_size'', jint (fl_config_size (mf_flash m)))])])"

fun sort_json :: "jvalue \<Rightarrow> jvalue" where
  "sort_json (JArr xs) = JArr (map sort_json xs)"
| "sort_json (JObj kvs) = JObj (map (\<lambda>kv. (fst kv, sort_json (snd kv))) (js_sort by_key kvs))"
| "sort_json v = v"

definition serializeFirmwareManifest :: "FirmwareManifest \<Rightarrow> js_error + string" where
  "serializeFirmwareManifest m =
     (if \<not> FirmwareManifest_ok m then Inl (Thrown ''ZodError'')
      else case json_stringify (sort_json (manifest_json m)) of None \<Rightarrow> Inl TypeError | Some t \<Rightarrow> Inr t)"


subsection \<open>Provisioning\<close>

text \<open>\<open>packages/schema/src/device-provisioning.ts\<close>.\<close>

definition CanonicalToken :: rx where
  "CanonicalToken = Seq (Times 42 (Cls token_char)) (Cls (one_of ''AEIMQUYcgkosw048''))"

record DeviceClaimRequest =
  dc_expected_tenant_id :: string
  dc_build_id :: string
  dc_plan_version :: int
  dc_code_version :: int
  dc_request_id :: string

record DeviceHandoffRequest =
  dh_expected_tenant_id :: string
  dh_expected_version :: int

record DeviceReissueRequest =
  dx_expected_tenant_id :: string
  dx_expected_version :: int
  dx_request_id :: string

definition DeviceClaimRequest_ok :: "DeviceClaimRequest \<Rightarrow> bool" where
  "DeviceClaimRequest_ok r \<longleftrightarrow>
     rx_full z_uuid (dc_expected_tenant_id r) \<and> rx_full z_uuid (dc_build_id r) \<and> z_posint (dc_plan_version r) \<and>
     z_posint (dc_code_version r) \<and> rx_full z_uuid (dc_request_id r)"

definition DeviceHandoffRequest_ok :: "DeviceHandoffRequest \<Rightarrow> bool" where
  "DeviceHandoffRequest_ok r \<longleftrightarrow> rx_full z_uuid (dh_expected_tenant_id r) \<and> z_posint (dh_expected_version r)"

definition DeviceReissueRequest_ok :: "DeviceReissueRequest \<Rightarrow> bool" where
  "DeviceReissueRequest_ok r \<longleftrightarrow>
     rx_full z_uuid (dx_expected_tenant_id r) \<and> z_posint (dx_expected_version r) \<and> rx_full z_uuid (dx_request_id r)"

text \<open>The secret download. Version 2 carries capabilities and the observation URL, version 1 neither.\<close>

record DeviceConfig =
  cf_v :: int
  cf_device_id :: string
  cf_token :: string
  cf_ingest_url :: string
  cf_seq_start :: int
  cf_profile_id :: string
  cf_runtime :: string
  cf_channels :: Channels
  cf_build_id :: string
  cf_plan_version :: int
  cf_code_version :: int
  cf_manifest_digest :: string
  cf_capabilities :: "SensorCapability list option"
  cf_observation_url :: "string option"

definition INGEST_PATH :: string where
  "INGEST_PATH = ''/ingest/v1''"

definition INGEST_URL :: rx where
  "INGEST_URL =
     Seq (Alt (Seq (Lit ''https://'') (Plus (Cls (\<lambda>c. c \<notin> set ''/?#@'' \<and> \<not> js_space c))))
              (Seq (Lit ''http://'') (Seq (Alts [Lit ''localhost'', Lit ''127.0.0.1'', Lit ''[::1]'']) (Opt (Seq (Chr (CHR '':'')) (Plus (Cls digit)))))))
         (Lit INGEST_PATH)"

text \<open>\<open>url.replace(/\/ingest\/v1$/, ...)\<close>.\<close>

definition observation_url_of :: "string \<Rightarrow> string \<Rightarrow> string" where
  "observation_url_of ingest device =
     (let n = length ingest - length INGEST_PATH in
      if length INGEST_PATH \<le> length ingest \<and> drop n ingest = INGEST_PATH
      then take n ingest @ ''/ingest/v2/devices/'' @ device @ ''/observations'' else ingest)"

definition config_base_ok :: "(string \<Rightarrow> bool) \<Rightarrow> DeviceConfig \<Rightarrow> bool" where
  "config_base_ok is_url c \<longleftrightarrow>
     rx_full z_uuid (cf_device_id c) \<and> rx_full CanonicalToken (cf_token c) \<and>
     is_url (cf_ingest_url c) \<and> rx_full INGEST_URL (cf_ingest_url c) \<and>
     0 \<le> cf_seq_start c \<and> cf_seq_start c \<le> MAX_SAFE_INTEGER \<and>
     1 \<le> length (cf_profile_id c) \<and> length (cf_profile_id c) \<le> 120 \<and> SemVer (cf_runtime c) \<and>
     rx_full z_uuid (cf_build_id c) \<and> z_posint (cf_plan_version c) \<and> z_posint (cf_code_version c) \<and> Sha256Hex (cf_manifest_digest c)"

definition DeviceConfigV1_ok :: "(string \<Rightarrow> bool) \<Rightarrow> DeviceConfig \<Rightarrow> bool" where
  "DeviceConfigV1_ok is_url c \<longleftrightarrow>
     cf_v c = 1 \<and> config_base_ok is_url c \<and> TelemetryChannels_ok (cf_channels c) \<and>
     cf_capabilities c = None \<and> cf_observation_url c = None"

text \<open>\<open>Object.assign({}, \<dots>)\<close> over the channels of the measurement capabilities: a later entry replaces an earlier one.\<close>

definition numeric_channels :: "SensorCapability list \<Rightarrow> Channels" where
  "numeric_channels caps = fold (\<lambda>(k, c). map_set k c) (concat (map cap_channels caps)) []"

text \<open>Two texts \<open>JSON.stringify\<close> makes of a channel are equal when the channels are.\<close>

definition DeviceConfigV2_ok :: "(string \<Rightarrow> bool) \<Rightarrow> DeviceConfig \<Rightarrow> bool" where
  "DeviceConfigV2_ok is_url c \<longleftrightarrow>
     cf_v c = 2 \<and> config_base_ok is_url c \<and> ProvisionedChannels_ok (cf_channels c) \<and>
     (case (cf_capabilities c, cf_observation_url c) of
        (Some caps, Some u) \<Rightarrow>
          DeviceCapabilities_ok caps \<and> is_url u \<and> u = observation_url_of (cf_ingest_url c) (cf_device_id c) \<and>
          length (cf_channels c) = length (numeric_channels caps) \<and>
          list_all (\<lambda>(k, ch). map_of (numeric_channels caps) k = Some ch) (cf_channels c)
      | _ \<Rightarrow> False)"

definition DeviceConfig_ok :: "(string \<Rightarrow> bool) \<Rightarrow> DeviceConfig \<Rightarrow> bool" where
  "DeviceConfig_ok is_url c \<longleftrightarrow> DeviceConfigV1_ok is_url c \<or> DeviceConfigV2_ok is_url c"

datatype ProvisioningState = Configuration_ready | Configuration_downloaded | Configuration_expired | Credential_revoked

record DeviceProvisioning =
  dp_device_id :: string
  dp_build_id :: string
  dp_plan_version :: int
  dp_code_version :: int
  dp_credential_version :: int
  dp_state :: ProvisioningState
  dp_handoff_expires_at :: string
  dp_handoff_available :: bool
  dp_created_at :: string

subsection \<open>Channel keys\<close>

text \<open>The capability checks leave no id and no channel twice.\<close>

lemma channel_seen:
  "concat (map (\<lambda>k. issue_if (k \<in> S) e) ks) = [] \<longleftrightarrow> set ks \<inter> S = {}"
  by (auto simp: issue_if_def)

lemma capability_issues_iff:
  assumes "list_all SensorCapability_ok caps"
  shows "capability_issues caps ids channels = [] \<longleftrightarrow>
    distinct (map (cb_id \<circ> cap_base) caps) \<and> set (map (cb_id \<circ> cap_base) caps) \<inter> set ids = {} \<and>
    distinct (map fst (concat (map cap_channels caps))) \<and> set (map fst (concat (map cap_channels caps))) \<inter> set channels = {}"
  using assms
proof (induction caps ids channels rule: capability_issues.induct)
  case (2 cap rest ids channels)
  have d: "distinct (map fst (cap_channels cap))"
    using 2(2) by (cases cap) (auto simp: TelemetryChannels_ok_def ProvisionedChannels_ok_def)
  have rest: "list_all SensorCapability_ok rest" using 2(2) by simp
  show ?case
    unfolding capability_issues.simps append_is_Nil_conv channel_seen issue_if_Nil_iff 2(1) [OF rest]
      list.map concat.simps map_append distinct_append set_append comp_apply distinct.simps list.set
    using d by blast
qed simp


end
