(* ===== verification/Firmware_Candidate.thy ===== *)
theory Firmware_Candidate
  imports Spec_Schema Bench
begin

text \<open>
  The firmware compiler's allow-list, \<open>apps/codegen/src/candidate.ts\<close>: the reviewed board wirings, the choice of one for an accepted
  plan, the generated header and the one supported edit. An accepted plan reaches the compiler only when every pin, port, driver and
  bus resource is named by the list.
\<close>

subsection \<open>Sensors\<close>

definition COMPILER_IMAGE :: string where
  "COMPILER_IMAGE = ''espressif/idf@sha256:8ccd4d2ce413889c6c2bba57e986c670302094efb91c913c6091152e317a7805''"

definition RUNTIME :: string where
  "RUNTIME = ''0.1.0''"

record ChannelRange =
  ch_unit :: string
  ch_min :: int
  ch_max :: int

datatype SensorKey = Bh1750 | Bme280 | Seesaw_soil

record SensorDef =
  sd_macro :: string
  sd_driver_pkg :: string
  sd_i2c_address :: string
  sd_channels :: "(string \<times> ChannelRange) list"

fun SENSORS :: "SensorKey \<Rightarrow> SensorDef" where
  "SENSORS Bh1750 =
     \<lparr>sd_macro = ''HSX_SENSOR_BH1750'', sd_driver_pkg = ''hsx-driver-bh1750'', sd_i2c_address = ''0x23'',
      sd_channels = [(''illuminance'', \<lparr>ch_unit = ''lux'', ch_min = 0, ch_max = 65535\<rparr>)]\<rparr>"
| "SENSORS Bme280 =
     \<lparr>sd_macro = ''HSX_SENSOR_BME280'', sd_driver_pkg = ''hsx-driver-bme280'', sd_i2c_address = ''0x77'',
      sd_channels =
        [(''temperature'', \<lparr>ch_unit = ''degC'', ch_min = - 40, ch_max = 85\<rparr>),
         (''humidity'', \<lparr>ch_unit = ''%RH'', ch_min = 0, ch_max = 100\<rparr>),
         (''pressure'', \<lparr>ch_unit = ''hPa'', ch_min = 300, ch_max = 1100\<rparr>)]\<rparr>"
| "SENSORS Seesaw_soil =
     \<lparr>sd_macro = ''HSX_SENSOR_SEESAW_SOIL'', sd_driver_pkg = ''hsx-driver-seesaw-soil'', sd_i2c_address = ''0x36'',
      sd_channels = [(''soil_moisture'', \<lparr>ch_unit = ''raw'', ch_min = 0, ch_max = 4095\<rparr>)]\<rparr>"

text \<open>The keys in the order the object literal lists them.\<close>

definition sensor_keys :: "SensorKey list" where
  "sensor_keys = [Bh1750, Bme280, Seesaw_soil]"

subsection \<open>Reviewed boards\<close>

record PeripheralOption =
  po_part :: PartPin
  po_sensor :: SensorKey
  po_driver_ver :: string
  po_connectors :: "string list"

record NumericCandidate =
  nc_id :: string
  nc_profile_version :: string
  nc_runtime :: string
  nc_brain :: PartPin
  nc_source :: PartPin
  nc_sda :: nat
  nc_scl :: nat
  nc_resources :: "string list"
  nc_peripherals :: "PeripheralOption list"

definition DEVKITC_CANDIDATE :: NumericCandidate where
  "DEVKITC_CANDIDATE =
     \<lparr>nc_id = ''esp32s3-bh1750-usb-v1'', nc_profile_version = ''1.0.0'', nc_runtime = RUNTIME,
      nc_brain = \<lparr>pin_id = ''C-001'', pin_version = ''1.0.0''\<rparr>, nc_source = \<lparr>pin_id = ''E-005'', pin_version = ''1.0.0''\<rparr>,
      nc_sda = 8, nc_scl = 9, nc_resources = [''GPIO8'', ''GPIO9''],
      nc_peripherals =
        [\<lparr>po_part = \<lparr>pin_id = ''V-005'', pin_version = ''1.0.0''\<rparr>, po_sensor = Bh1750, po_driver_ver = ''0.1.0'',
          po_connectors = [''hsx-i2c-4pin-v1'']\<rparr>]\<rparr>"

definition FREENOVE_CANDIDATE :: NumericCandidate where
  "FREENOVE_CANDIDATE =
     \<lparr>nc_id = ''freenove-esp32s3-n16r8-i2c-usb-v1'', nc_profile_version = ''1.0.0'', nc_runtime = RUNTIME,
      nc_brain = \<lparr>pin_id = ''C-002'', pin_version = ''1.0.0''\<rparr>, nc_source = \<lparr>pin_id = ''E-005'', pin_version = ''1.1.0''\<rparr>,
      nc_sda = 47, nc_scl = 21, nc_resources = [''GPIO47'', ''GPIO21''],
      nc_peripherals =
        [\<lparr>po_part = \<lparr>pin_id = ''V-005'', pin_version = ''1.1.0''\<rparr>, po_sensor = Bh1750, po_driver_ver = ''0.1.0'',
          po_connectors = [''hsx-i2c-4pin-v1'']\<rparr>,
         \<lparr>po_part = \<lparr>pin_id = ''P-001'', pin_version = ''1.1.0''\<rparr>, po_sensor = Bme280, po_driver_ver = ''0.1.0'',
          po_connectors = [''hsx-i2c-4pin-v1'']\<rparr>,
         \<lparr>po_part = \<lparr>pin_id = ''P-006'', pin_version = ''1.0.0''\<rparr>, po_sensor = Seesaw_soil, po_driver_ver = ''0.1.0'',
          po_connectors = [''stemma-i2c-ph-4pin-v1'', ''hsx-i2c-4pin-v1'']\<rparr>]\<rparr>"

definition NUMERIC_CANDIDATES :: "NumericCandidate list" where
  "NUMERIC_CANDIDATES = [DEVKITC_CANDIDATE, FREENOVE_CANDIDATE]"

record NumericSelection =
  ns_candidate :: NumericCandidate
  ns_sensors :: "SensorKey list"
  ns_channels :: "(string \<times> ChannelRange) list"
  ns_interval_s :: jsnum

subsection \<open>Selection\<close>

text \<open>The sorted \<open>id@version\<close> keys, joined; the default sort is by code units.\<close>

definition pin_text :: "PartPin list \<Rightarrow> string" where
  "pin_text values = js_join ''|'' (js_sort compare_lt (map pinKey values))"

definition expectedPins :: "NumericCandidate \<Rightarrow> PeripheralOption list \<Rightarrow> string" where
  "expectedPins candidate peripherals = pin_text (nc_brain candidate # nc_source candidate # map po_part peripherals)"

definition unsupported :: js_error where
  "unsupported = Thrown ''This accepted plan has no supported firmware compiler profile''"

text \<open>The loop over the wired peripherals.\<close>

fun choose_options :: "NumericCandidate \<Rightarrow> WiringEdge list \<Rightarrow> PeripheralOption list \<Rightarrow> js_error + PeripheralOption list" where
  "choose_options candidate [] chosen = Inr chosen"
| "choose_options candidate (edge # wired) chosen =
     (case List.find (\<lambda>p. po_part p = edge_part edge) (nc_peripherals candidate) of
        None \<Rightarrow> Inl unsupported
      | Some opt \<Rightarrow>
          if opt \<in> set chosen \<or> edge_connector edge \<notin> set (po_connectors opt) then Inl unsupported
          else choose_options candidate wired (chosen @ [opt]))"

text \<open>The pins, versions and identities of plan and evidence against the candidate.\<close>

definition pins_differ :: "NumericCandidate \<Rightarrow> PeripheralOption list \<Rightarrow> BuildPlan \<Rightarrow> BuildPlanMetadata \<Rightarrow> bool" where
  "pins_differ candidate chosen plan metadata \<longleftrightarrow>
     (let expected = expectedPins candidate chosen; ev = md_evidence metadata; profile = ev_profile ev in
      plan_runtime plan \<noteq> nc_runtime candidate \<or>
      md_runtime metadata \<noteq> plan_runtime plan \<or>
      snd (plan_profile plan) \<noteq> nc_profile_version candidate \<or>
      md_profile metadata \<noteq> plan_profile plan \<or>
      (prof_id profile, prof_version profile) \<noteq> plan_profile plan \<or>
      pin_text (part_versions plan) \<noteq> expected \<or>
      pin_text (map pin (ev_parts ev)) \<noteq> expected \<or>
      list_ex (\<lambda>p. status p \<noteq> Active) (ev_parts ev) \<or>
      graph_brain (wiring_graph plan) \<noteq> nc_brain candidate \<or>
      graph_source (wiring_graph plan) \<noteq> nc_source candidate \<or>
      brain_pin profile \<noteq> nc_brain candidate \<or>
      source_pin profile \<noteq> nc_source candidate \<or>
      chosen = [])"

definition edge_unsupported :: "NumericCandidate \<Rightarrow> AssemblyProfile \<Rightarrow> WiringEdge \<Rightarrow> bool" where
  "edge_unsupported candidate profile edge \<longleftrightarrow>
     (let resources = js_join '','' (nc_resources candidate) in
      edge_rail edge \<noteq> BrainRail \<or>
      js_join '','' (edge_resources edge) \<noteq> resources \<or>
      \<not> list_ex (\<lambda>port.
           port_id port = edge_port edge \<and> port_interface port = I2c \<and> port_rail port = BrainRail \<and>
           js_join '','' (port_resources port) = resources \<and> port_connector port = edge_connector edge) (ports profile))"

definition driver_unsupported :: "NumericCandidate \<Rightarrow> BuildPlanEvidence \<Rightarrow> PeripheralOption \<Rightarrow> bool" where
  "driver_unsupported candidate ev opt \<longleftrightarrow>
     (let driver = sd_driver_pkg (SENSORS (po_sensor opt)) in
      case List.find (\<lambda>p. pin p = po_part opt) (ev_parts ev) of
        None \<Rightarrow> True
      | Some part \<Rightarrow>
          driver_pkg (software part) \<noteq> Some driver \<or>
          driver_version (software part) \<noteq> Some (po_driver_ver opt) \<or>
          \<not> list_ex (\<lambda>c.
               compat_brain c = pin_id (nc_brain candidate) \<and> compat_pkg c = driver \<and> compat_driver_ver c = po_driver_ver opt \<and>
               compat_runtime_ver c = nc_runtime candidate \<and> compat_status c = Passed) (ev_compat ev))"

fun isInteger :: "jsnum \<Rightarrow> bool" where
  "isInteger (Fin q) = (snd (quotient_of q) = 1)"
| "isInteger _ = False"

text \<open>\<open>Number.isInteger(i) && i >= 10 && i <= 86400\<close>.\<close>

definition interval_ok :: "jsnum \<Rightarrow> bool" where
  "interval_ok i \<longleftrightarrow> isInteger i \<and> \<not> jless i (Fin 10) \<and> \<not> jless (Fin 86400) i"

definition spec_unsupported :: "Spec \<Rightarrow> bool" where
  "spec_unsupported spec \<longleftrightarrow>
     co_transport (sp_connect spec) \<noteq> Wifi \<or> pw_source (sp_power spec) \<noteq> FromUsb \<or>
     \<not> (case se_interval_s (sp_sense spec) of None \<Rightarrow> False | Some i \<Rightarrow> interval_ok i)"

text \<open>The channels of the sensors, in order; a key two sensors share is refused.\<close>

fun add_channels :: "(string \<times> ChannelRange) list \<Rightarrow> (string \<times> ChannelRange) list \<Rightarrow> js_error + (string \<times> ChannelRange) list" where
  "add_channels [] channels = Inr channels"
| "add_channels ((key, rng) # rest) channels =
     (if map_of channels key \<noteq> None then Inl unsupported else add_channels rest (channels @ [(key, rng)]))"

definition selectNumericCandidate ::
    "(string \<Rightarrow> bool) \<Rightarrow> BuildPlan \<Rightarrow> BuildPlanMetadata \<Rightarrow> Spec \<Rightarrow> js_error + NumericSelection" where
  "selectNumericCandidate https_url plan metadata spec =
     (if \<not> BuildPlanV1_ok plan then Inl (Thrown ''ZodError'')
      else if \<not> BuildPlanMetadata_ok https_url metadata then Inl (Thrown ''ZodError'')
      else case List.find (\<lambda>c. nc_id c = fst (plan_profile plan)) NUMERIC_CANDIDATES of
        None \<Rightarrow> Inl unsupported
      | Some candidate \<Rightarrow>
          (let wired = graph_peripherals (wiring_graph plan) in
           case choose_options candidate wired [] of
             Inl e \<Rightarrow> Inl e
           | Inr chosen \<Rightarrow>
               if pins_differ candidate chosen plan metadata \<or>
                  list_ex (edge_unsupported candidate (ev_profile (md_evidence metadata))) wired \<or>
                  list_ex (driver_unsupported candidate (md_evidence metadata)) chosen \<or>
                  spec_unsupported spec
               then Inl unsupported
               else (let sensors = map po_sensor chosen in
                     case add_channels (concat (map (sd_channels \<circ> SENSORS) sensors)) [] of
                       Inl e \<Rightarrow> Inl e
                     | Inr channels \<Rightarrow>
                         Inr \<lparr>ns_candidate = candidate, ns_sensors = sensors, ns_channels = channels,
                              ns_interval_s = the (se_interval_s (sp_sense spec))\<rparr>)))"

definition candidateInterval :: "(string \<Rightarrow> bool) \<Rightarrow> BuildPlan \<Rightarrow> BuildPlanMetadata \<Rightarrow> Spec \<Rightarrow> js_error + jsnum" where
  "candidateInterval https_url plan metadata spec = map_sum id ns_interval_s (selectNumericCandidate https_url plan metadata spec)"

subsection \<open>Generated text\<close>

definition macro_line :: "NumericSelection \<Rightarrow> SensorKey \<Rightarrow> string" where
  "macro_line selection key =
     ''#define '' @ sd_macro (SENSORS key) @ '' '' @
     (if list_ex (\<lambda>k. sd_macro (SENSORS k) = sd_macro (SENSORS key)) (ns_sensors selection) then ''1'' else ''0'')"

definition channel_name :: rx where
  "channel_name = Seq (Cls lower) (UpTo 63 (Cls (\<lambda>c. lower c \<or> digit c \<or> c = CHR ''_'')))"

definition profile_name :: rx where
  "profile_name = Seq (Cls (\<lambda>c. lower c \<or> digit c)) (UpTo 119 (Cls (\<lambda>c. lower c \<or> digit c \<or> c = CHR ''-'')))"

definition numericProfileHeader :: "NumericSelection \<Rightarrow> js_error + string" where
  "numericProfileHeader selection =
     (let candidate = ns_candidate selection in
      case ns_channels selection of
        [] \<Rightarrow> Inl unsupported
      | (first, rng) # rest \<Rightarrow>
          if \<not> rx_full channel_name first then Inl unsupported
          else if \<not> rx_full profile_name (nc_id candidate) then Inl unsupported
          else Inr (''#pragma once\<newline>/* Generated from the accepted plan's compiler candidate. */\<newline>#define HSX_PROFILE_ID '' @
            json_string (nc_id candidate) @ ''\<newline>#define HSX_RUNTIME '' @ json_string (nc_runtime candidate) @
            ''\<newline>#define HSX_CHANNEL '' @ json_string first @ ''\<newline>#define HSX_SDA '' @ nat_str (nc_sda candidate) @
            ''\<newline>#define HSX_SCL '' @ nat_str (nc_scl candidate) @ ''\<newline>'' @
            js_join ''\<newline>'' (map (macro_line selection) sensor_keys) @ ''\<newline>''))"

definition renderApp :: "jsnum \<Rightarrow> js_error + string" where
  "renderApp interval =
     (if \<not> interval_ok interval then Inl (Thrown ''Unsupported sample interval'')
      else Inr (''#include '' @ json_string ''hsx-sdk.h'' @ ''\<newline>extern '' @ json_string ''C'' @
             '' void app_main(void) { hsx_run('' @ num_str interval @ ''); }\<newline>''))"

text \<open>Letters of a pattern with the \<open>i\<close> flag.\<close>

definition to_lower :: "char \<Rightarrow> char" where
  "to_lower c = (if upper c then char_of ((of_char c :: nat) + 32) else c)"

fun ILit :: "string \<Rightarrow> rx" where
  "ILit [] = Eps"
| "ILit (c # cs) = Seq (Cls (\<lambda>x. to_lower x = c)) (ILit cs)"

definition edit_pattern :: rx where
  "edit_pattern =
     Seq (ILit ''set '') (Seq (Opt (Alt (ILit ''sample '') (ILit ''upload ''))) (Seq (ILit ''interval to '')
       (Seq (Seq (Cls digit) (UpTo 4 (Cls digit))) (ILit '' seconds''))))"

text \<open>The digits of a match are those of its group, since the rest of the pattern has none. The message has an en dash in the source.\<close>

definition editInterval :: "string \<Rightarrow> js_error + int" where
  "editInterval instruction =
     (let t = js_trim instruction in
      if \<not> rx_full edit_pattern t
      then Inl (Thrown ''Supported edit: Set interval to 60 seconds (10-86400 seconds)'')
      else (let v = int (digits_val (filter digit t)) in
            case renderApp (Fin (of_int v)) of Inl e \<Rightarrow> Inl e | Inr _ \<Rightarrow> Inr v))"

subsection \<open>Pin texts identify pins\<close>

lemma PartPin_no_bar:
  assumes "PartPin_ok p"
  shows "CHR ''|'' \<notin> set (pinKey p)"
proof -
  let ?id = "Seq (Cls (one_of ''VPLCME'')) (Seq (Chr (CHR ''-'')) (Times 3 (Cls digit)))"
  have "rx_over (\<lambda>c. c \<noteq> CHR ''|'') ?id" by (auto simp: one_of_def digit_def is_digit_def simp del: Times.simps)
  moreover have "pin_id p \<in> lang ?id" using assms by (simp add: PartPin_ok_def PartId_def rx_full_lang del: Times.simps lang.simps)
  ultimately have "list_all (\<lambda>c. c \<noteq> CHR ''|'') (pin_id p)" by (rule lang_over)
  moreover have "rx_over (\<lambda>c. c \<noteq> CHR ''|'') SEMVER_CORE"
    by (auto simp: SEMVER_CORE_def NUMERIC_ID_def PRERELEASE_ID_def ident_nondigit_def ident_char_def digit_def is_digit_def lower_def
        upper_def between_def)
  then have "list_all (\<lambda>c. c \<noteq> CHR ''|'') (pin_version p)" by (rule lang_over) (use assms in \<open>simp add: PartPin_ok_def SemVer_lang\<close>)
  ultimately show ?thesis by (auto simp: pinKey_def list_all_iff)
qed

lemma pinKey_inj_ok: "inj_on pinKey {p. PartPin_ok p}"
  by (auto intro!: inj_onI pinKey_inject PartId_no_at simp: PartPin_ok_def)

lemma pin_text_mset:
  assumes "list_all PartPin_ok xs" "list_all PartPin_ok ys" "xs \<noteq> []" "ys \<noteq> []" and eq: "pin_text xs = pin_text ys"
  shows "mset xs = mset ys"
proof -
  have split: "js_split (CHR ''|'') (pin_text zs) = js_sort compare_lt (map pinKey zs)" if "list_all PartPin_ok zs" "zs \<noteq> []" for zs
    unfolding pin_text_def by (rule js_split_join) (use that PartPin_no_bar in \<open>auto simp: list_all_iff\<close>)
  have "js_sort compare_lt (map pinKey xs) = js_sort compare_lt (map pinKey ys)"
    using split [OF assms(1,3)] split [OF assms(2,4)] eq by simp
  then have "image_mset pinKey (mset xs) = image_mset pinKey (mset ys)" by (metis mset_js_sort mset_map)
  moreover have "image_mset (inv_into {p. PartPin_ok p} pinKey) (image_mset pinKey (mset zs)) = mset zs" if "list_all PartPin_ok zs" for zs
    using that by (simp add: multiset.map_comp comp_def inv_into_f_f [OF pinKey_inj_ok] list_all_iff flip: mset_map cong: map_cong)
  ultimately show ?thesis using assms(1,2) by metis
qed

subsection \<open>What a selection guarantees\<close>

definition fits :: "NumericCandidate \<Rightarrow> WiringEdge \<Rightarrow> PeripheralOption \<Rightarrow> bool" where
  "fits candidate edge opt \<longleftrightarrow>
     opt \<in> set (nc_peripherals candidate) \<and> po_part opt = edge_part edge \<and> edge_connector edge \<in> set (po_connectors opt)"

lemma choose_options_Inr:
  "choose_options candidate wired chosen = Inr res \<Longrightarrow> distinct chosen \<Longrightarrow>
    \<exists>opts. res = chosen @ opts \<and> list_all2 (fits candidate) wired opts \<and> distinct res"
proof (induction candidate wired chosen rule: choose_options.induct)
  case (2 candidate edge wired chosen)
  from "2.prems"(1) obtain opt where opt: "List.find (\<lambda>p. po_part p = edge_part edge) (nc_peripherals candidate) = Some opt"
      "opt \<notin> set chosen" "edge_connector edge \<in> set (po_connectors opt)" "choose_options candidate wired (chosen @ [opt]) = Inr res"
    by (auto split: option.splits if_splits)
  have "fits candidate edge opt" using find_Some_set [OF opt(1)] opt(3) by (simp add: fits_def)
  moreover obtain opts where "res = (chosen @ [opt]) @ opts" "list_all2 (fits candidate) wired opts" "distinct res"
    using "2.IH" [of opt] opt "2.prems"(2) by auto
  ultimately show ?case by (auto intro!: exI [of _ "opt # opts"])
qed auto

lemma choose_options_fits:
  "choose_options candidate wired [] = Inr opts \<Longrightarrow> list_all2 (fits candidate) wired opts \<and> distinct opts"
  using choose_options_Inr [of candidate wired "[]" opts] by auto

lemma add_channels_Inr:
  "add_channels new channels = Inr res \<Longrightarrow> distinct (map fst channels) \<Longrightarrow> res = channels @ new \<and> distinct (map fst res)"
proof (induction new channels rule: add_channels.induct)
  case (2 key rng rest channels)
  from "2.prems"(1) have "map_of channels key = None" "add_channels rest (channels @ [(key, rng)]) = Inr res" by (auto split: if_splits)
  moreover from this(1) "2.prems"(2) have "distinct (map fst (channels @ [(key, rng)]))" by (simp add: map_of_eq_None_iff)
  ultimately have "res = (channels @ [(key, rng)]) @ rest \<and> distinct (map fst res)" by (intro "2.IH") simp_all
  then show ?case by (metis append_Cons append_Nil append_assoc)
qed simp

lemma interval_ok_iff: "interval_ok i \<longleftrightarrow> (\<exists>n::nat. i = Fin (of_nat n) \<and> 10 \<le> n \<and> n \<le> 86400)"
proof (cases i)
  case (Fin q)
  show ?thesis
  proof
    assume ok: "interval_ok i"
    then have "snd (quotient_of q) = 1" using Fin by (simp add: interval_ok_def)
    then have q: "q = of_int (fst (quotient_of q))" using quotient_of_div [of q] by (cases "quotient_of q") auto
    define z where "z = fst (quotient_of q)"
    from ok Fin q have "10 \<le> z" "z \<le> 86400" unfolding z_def [symmetric] by (auto simp: interval_ok_def not_less)
    moreover then have "i = Fin (of_nat (nat z))" using Fin q by (simp add: z_def [symmetric])
    ultimately show "\<exists>n::nat. i = Fin (of_nat n) \<and> 10 \<le> n \<and> n \<le> 86400" by (intro exI [of _ "nat z"]) auto
  next
    assume "\<exists>n::nat. i = Fin (of_nat n) \<and> 10 \<le> n \<and> n \<le> 86400"
    then obtain n where n: "i = Fin (of_int (int n))" "10 \<le> n" "n \<le> 86400" by auto
    then show "interval_ok i" by (simp add: interval_ok_def quotient_of_int del: of_int_of_nat_eq) 
  qed
qed (auto simp: interval_ok_def)

lemma lang_ILit: "s \<in> lang (ILit p) \<longleftrightarrow> map to_lower s = p"
proof (induction p arbitrary: s)
  case (Cons c p)
  show ?case unfolding ILit.simps in_lang_Seq_Cls Cons by (cases s) auto
qed simp

lemma selected:
  assumes "selectNumericCandidate https_url plan metadata spec = Inr sel"
  obtains chosen where "BuildPlanV1_ok plan" "BuildPlanMetadata_ok https_url metadata"
    "ns_candidate sel \<in> set NUMERIC_CANDIDATES" "nc_id (ns_candidate sel) = fst (plan_profile plan)"
    "list_all2 (fits (ns_candidate sel)) (graph_peripherals (wiring_graph plan)) chosen" "distinct chosen"
    "\<not> pins_differ (ns_candidate sel) chosen plan metadata"
    "\<not> list_ex (edge_unsupported (ns_candidate sel) (ev_profile (md_evidence metadata))) (graph_peripherals (wiring_graph plan))"
    "\<not> list_ex (driver_unsupported (ns_candidate sel) (md_evidence metadata)) chosen" "\<not> spec_unsupported spec"
    "ns_sensors sel = map po_sensor chosen" "distinct (map fst (ns_channels sel))"
    "ns_channels sel = concat (map (sd_channels \<circ> SENSORS) (ns_sensors sel))" "Some (ns_interval_s sel) = se_interval_s (sp_sense spec)"
proof -
  from assms obtain chosen where
      c: "List.find (\<lambda>c. nc_id c = fst (plan_profile plan)) NUMERIC_CANDIDATES = Some (ns_candidate sel)"
      "choose_options (ns_candidate sel) (graph_peripherals (wiring_graph plan)) [] = Inr chosen"
      "add_channels (concat (map (sd_channels \<circ> SENSORS) (map po_sensor chosen))) [] = Inr (ns_channels sel)"
      "\<not> spec_unsupported spec" "ns_sensors sel = map po_sensor chosen" "ns_interval_s sel = the (se_interval_s (sp_sense spec))"
      "\<not> pins_differ (ns_candidate sel) chosen plan metadata"
      "\<not> list_ex (edge_unsupported (ns_candidate sel) (ev_profile (md_evidence metadata))) (graph_peripherals (wiring_graph plan))"
      "\<not> list_ex (driver_unsupported (ns_candidate sel) (md_evidence metadata)) chosen"
      "BuildPlanV1_ok plan" "BuildPlanMetadata_ok https_url metadata"
    by (auto simp: selectNumericCandidate_def Let_def split: if_splits option.splits sum.splits)
  have "se_interval_s (sp_sense spec) \<noteq> None" using c(4) by (auto simp: spec_unsupported_def split: option.splits)
  with c add_channels_Inr [OF c(3)] choose_options_fits [OF c(2)] find_Some_set [OF c(1)] show thesis
    by (intro that [of chosen]) auto
qed

lemma candidate_pins_ok:
  assumes "c \<in> set NUMERIC_CANDIDATES"
  shows "PartPin_ok (nc_brain c)" "PartPin_ok (nc_source c)" "opt \<in> set (nc_peripherals c) \<Longrightarrow> PartPin_ok (po_part opt)"
proof -
  have "list_all (\<lambda>c. PartPin_ok (nc_brain c) \<and> PartPin_ok (nc_source c) \<and> list_all (PartPin_ok \<circ> po_part) (nc_peripherals c)) NUMERIC_CANDIDATES"
    by code_simp
  with assms show "PartPin_ok (nc_brain c)" "PartPin_ok (nc_source c)" "opt \<in> set (nc_peripherals c) \<Longrightarrow> PartPin_ok (po_part opt)"
    by (auto simp: list_all_iff)
qed

lemma channel_name_iff:
  "rx_full channel_name s \<longleftrightarrow> s \<noteq> [] \<and> lower (hd s) \<and> length s \<le> 64 \<and> list_all (\<lambda>c. lower c \<or> digit c \<or> c = CHR ''_'') (tl s)"
proof -
  have "rx_full channel_name s \<longleftrightarrow> s \<in> lang channel_name" by (rule rx_full_lang) (simp add: channel_name_def del: UpTo.simps)
  then show ?thesis by (simp add: channel_name_def lang_name del: UpTo.simps lang.simps)
qed

lemma profile_name_iff:
  "rx_full profile_name s \<longleftrightarrow>
     s \<noteq> [] \<and> (lower (hd s) \<or> digit (hd s)) \<and> length s \<le> 120 \<and> list_all (\<lambda>c. lower c \<or> digit c \<or> c = CHR ''-'') (tl s)"
proof -
  have "rx_full profile_name s \<longleftrightarrow> s \<in> lang profile_name" by (rule rx_full_lang) (simp add: profile_name_def del: UpTo.simps)
  then show ?thesis by (simp add: profile_name_def lang_name del: UpTo.simps lang.simps)
qed

lemma channel_names_ok: "rx_full channel_name (fst (hd (sd_channels (SENSORS k))))" "sd_channels (SENSORS k) \<noteq> []"
proof -
  have name: "rx_full channel_name n" if "n \<in> {''illuminance'', ''temperature'', ''soil_moisture''}" for n
    using that unfolding channel_name_iff by (elim insertE; simp; code_simp)
  show "rx_full channel_name (fst (hd (sd_channels (SENSORS k))))" by (rule name) (cases k; simp)
  show "sd_channels (SENSORS k) \<noteq> []" by (cases k) simp_all
qed

lemma profile_names_ok: "c \<in> set NUMERIC_CANDIDATES \<Longrightarrow> rx_full profile_name (nc_id c)"
proof -
  have "list_all (\<lambda>c. rx_full profile_name (nc_id c)) NUMERIC_CANDIDATES" unfolding profile_name_iff by code_simp
  then show "c \<in> set NUMERIC_CANDIDATES \<Longrightarrow> rx_full profile_name (nc_id c)" by (auto simp: list_all_iff)
qed

text \<open>
  C27. A plan reaches the compiler only as a reviewed board: its parts and those of its evidence are exactly the board's brain, source and
  one listed peripheral per wire, every wire runs on the board's bus through a connector the part allows, channels do not collide, the
  interval is a whole number of seconds from 10 to 86400, and the header for the selection is always generated.
\<close>

theorem selectNumericCandidate_sound:
  assumes "selectNumericCandidate https_url plan metadata spec = Inr sel"
  shows "\<exists>chosen. ns_candidate sel \<in> set NUMERIC_CANDIDATES \<and> chosen \<noteq> [] \<and> distinct chosen \<and> set chosen \<subseteq> set (nc_peripherals (ns_candidate sel)) \<and>
    mset (part_versions plan) = mset (nc_brain (ns_candidate sel) # nc_source (ns_candidate sel) # map po_part chosen) \<and>
    mset (map pin (ev_parts (md_evidence metadata))) = mset (part_versions plan) \<and>
    map edge_part (graph_peripherals (wiring_graph plan)) = map po_part chosen \<and>
    (\<forall>edge \<in> set (graph_peripherals (wiring_graph plan)). edge_rail edge = BrainRail \<and>
       js_join '','' (edge_resources edge) = js_join '','' (nc_resources (ns_candidate sel)) \<and>
       (\<exists>opt \<in> set chosen. po_part opt = edge_part edge \<and> edge_connector edge \<in> set (po_connectors opt))) \<and>
    distinct (map fst (ns_channels sel)) \<and> ns_channels sel = concat (map (sd_channels \<circ> SENSORS \<circ> po_sensor) chosen) \<and>
    (\<exists>n::nat. ns_interval_s sel = Fin (of_nat n) \<and> 10 \<le> n \<and> n \<le> 86400) \<and>
    (\<exists>header. numericProfileHeader sel = Inr header)"
proof -
  let ?c = "ns_candidate sel" and ?wired = "graph_peripherals (wiring_graph plan)"
  obtain chosen where s: "BuildPlanV1_ok plan" "BuildPlanMetadata_ok https_url metadata"
    "?c \<in> set NUMERIC_CANDIDATES" "list_all2 (fits ?c) ?wired chosen" "distinct chosen" "\<not> pins_differ ?c chosen plan metadata"
    "\<not> list_ex (edge_unsupported ?c (ev_profile (md_evidence metadata))) ?wired" "\<not> spec_unsupported spec"
    "ns_sensors sel = map po_sensor chosen" "distinct (map fst (ns_channels sel))"
    "ns_channels sel = concat (map (sd_channels \<circ> SENSORS) (ns_sensors sel))" "Some (ns_interval_s sel) = se_interval_s (sp_sense spec)"
    by (rule selected [OF assms])
  have sub: "set chosen \<subseteq> set (nc_peripherals ?c)" and parts: "map edge_part ?wired = map po_part chosen"
    using s(4) by (induction rule: list_all2_induct) (auto simp: fits_def)
  have edges: "\<exists>opt \<in> set chosen. po_part opt = edge_part e \<and> edge_connector e \<in> set (po_connectors opt)" if "e \<in> set ?wired" for e
    using s(4) that by (induction rule: list_all2_induct) (auto simp: fits_def)
  let ?want = "nc_brain ?c # nc_source ?c # map po_part chosen"
  have want: "list_all PartPin_ok ?want" using candidate_pins_ok [OF s(3)] sub by (auto simp: list_all_iff)
  have plan: "mset (part_versions plan) = mset ?want"
    using s(1,6) want by (intro pin_text_mset) (auto simp: BuildPlanV1_ok_def pins_differ_def expectedPins_def Let_def)
  have ev: "mset (map pin (ev_parts (md_evidence metadata))) = mset ?want"
  proof (rule pin_text_mset [OF _ want])
    from s(2) have "BuildPlanEvidence_ok https_url (md_evidence metadata)" by (simp add: BuildPlanMetadata_ok_def)
    then show "list_all PartPin_ok (map pin (ev_parts (md_evidence metadata)))" "map pin (ev_parts (md_evidence metadata)) \<noteq> []"
      by (auto simp: BuildPlanEvidence_ok_def PartDefinition_ok_def part_fields_ok_def PartPin_ok_def pin_def list_all_iff)
    show "pin_text (map pin (ev_parts (md_evidence metadata))) = pin_text ?want" using s(6) by (simp add: pins_differ_def expectedPins_def Let_def)
  qed simp
  have ne: "chosen \<noteq> []" using s(6) by (auto simp: pins_differ_def Let_def)
  have int: "\<exists>n::nat. ns_interval_s sel = Fin (of_nat n) \<and> 10 \<le> n \<and> n \<le> 86400"
    using s(8) unfolding spec_unsupported_def s(12) [symmetric] by (auto simp: interval_ok_iff)
  obtain k ks where k: "ns_sensors sel = k # ks" using ne s(9) by (cases chosen) auto
  obtain first rng rest where ch: "ns_channels sel = (first, rng) # rest" "first = fst (hd (sd_channels (SENSORS k)))"
    using channel_names_ok(2) [of k] s(11) k by (cases "sd_channels (SENSORS k)") auto
  have header: "\<exists>header. numericProfileHeader sel = Inr header"
    using channel_names_ok(1) [of k] profile_names_ok [OF s(3)] ch unfolding numericProfileHeader_def Let_def by simp
  have on_bus: "edge_rail e = BrainRail \<and> js_join '','' (edge_resources e) = js_join '','' (nc_resources ?c)" if "e \<in> set ?wired" for e
    using s(7) that by (auto simp: edge_unsupported_def list_ex_iff Let_def)
  have channels: "ns_channels sel = concat (map (sd_channels \<circ> SENSORS \<circ> po_sensor) chosen)" using s(9,11) by simp
  show ?thesis
    by (rule exI [of _ chosen]) (use s(3,5,10) sub parts edges plan ev ne int header on_bus channels in auto)
qed

subsection \<open>The supported edit\<close>

definition edit_heads :: "string set" where
  "edit_heads = (\<lambda>m. ''set '' @ m @ ''interval to '') ` {''sample '', ''upload '', []}"

lemma in_heads:
  "map f pre \<in> (\<lambda>m. x @ m @ z) ` M \<longleftrightarrow> (\<exists>a m c. pre = a @ m @ c \<and> map f a = x \<and> map f m \<in> M \<and> map f c = z)"
  by (auto simp: map_eq_append_conv image_iff dest!: sym [of "_ @ _" "map _ _"]) (metis map_append)+

lemma regroup:
  "(\<exists>a m c ds post. s = a @ m @ c @ ds @ post \<and> A a \<and> B m \<and> C c \<and> D ds \<and> E post) \<longleftrightarrow>
   (\<exists>pre ds post. s = pre @ ds @ post \<and> (\<exists>a m c. pre = a @ m @ c \<and> A a \<and> B m \<and> C c) \<and> D ds \<and> E post)"
  by (metis append.assoc)

lemma lang_edit:
  "s \<in> lang edit_pattern \<longleftrightarrow>
     (\<exists>pre ds post. s = pre @ ds @ post \<and> map to_lower pre \<in> edit_heads \<and>
        ds \<noteq> [] \<and> length ds \<le> 5 \<and> list_all digit ds \<and> map to_lower post = '' seconds'')"
proof -
  have ds: "ds \<in> lang (Seq (Cls digit) (UpTo 4 (Cls digit))) \<longleftrightarrow> ds \<noteq> [] \<and> length ds \<le> 5 \<and> list_all digit ds" for ds
    unfolding lang_name by (cases ds) auto
  let ?mid = "Opt (Alt (ILit ''sample '') (ILit ''upload ''))"
  have mid: "m \<in> lang ?mid \<longleftrightarrow> map to_lower m \<in> {''sample '', ''upload '', []}" for m
    by (auto simp: lang_ILit simp del: ILit.simps)
  have head: "map to_lower pre \<in> edit_heads \<longleftrightarrow>
      (\<exists>a m c. pre = a @ m @ c \<and> a \<in> lang (ILit ''set '') \<and> m \<in> lang ?mid \<and> c \<in> lang (ILit ''interval to ''))" for pre
    unfolding edit_heads_def in_heads mid lang_ILit ..
  have "s \<in> lang edit_pattern \<longleftrightarrow> (\<exists>a m c ds post. s = a @ m @ c @ ds @ post \<and> a \<in> lang (ILit ''set '') \<and> m \<in> lang ?mid \<and>
      c \<in> lang (ILit ''interval to '') \<and> ds \<in> lang (Seq (Cls digit) (UpTo 4 (Cls digit))) \<and> post \<in> lang (ILit '' seconds''))"
    unfolding edit_pattern_def lang_Seq5 ..
  also have "\<dots> \<longleftrightarrow> (\<exists>pre ds post. s = pre @ ds @ post \<and> map to_lower pre \<in> edit_heads \<and>
      ds \<in> lang (Seq (Cls digit) (UpTo 4 (Cls digit))) \<and> post \<in> lang (ILit '' seconds''))"
    unfolding head by (rule regroup)
  finally show ?thesis unfolding ds lang_ILit by (simp only: conj_assoc)
qed

lemma to_lower_digit: "digit c \<Longrightarrow> to_lower c = c"
  by (auto simp: to_lower_def upper_def between_def digit_def is_digit_def less_eq_char_def Let_def)

lemma no_digits: "digit c \<Longrightarrow> c \<in> set s \<Longrightarrow> c \<in> set (map to_lower s)"
  using to_lower_digit by force

lemma filter_digit_outside: "list_all (\<lambda>c. \<not> digit c) (map to_lower s) \<Longrightarrow> filter digit s = []"
  using no_digits by (fastforce simp: filter_empty_conv list_all_iff)

lemma edit_digits:
  assumes "map to_lower pre \<in> edit_heads" "map to_lower post = '' seconds''" "list_all digit ds"
  shows "filter digit (pre @ ds @ post) = ds"
proof -
  have nd: "list_all (\<lambda>c. \<not> digit c) p" if "p \<in> insert '' seconds'' edit_heads" for p
  proof -
    have "list_all (list_all (\<lambda>c. \<not> digit c)) ['' seconds'', ''set '', ''sample '', ''upload '', [], ''interval to '']" by code_simp
    with that show ?thesis unfolding edit_heads_def by auto
  qed
  have "filter digit pre = []" by (rule filter_digit_outside [OF nd [OF insertI2 [OF assms(1)]]])
  moreover have "filter digit post = []" by (rule filter_digit_outside) (simp only: assms(2), rule nd, rule insertI1)
  moreover have "filter digit ds = ds" using assms(3) by (simp add: filter_id_conv list_all_iff)
  ultimately show ?thesis by simp
qed

lemma length_nat_str: "n < 10 ^ Suc k \<Longrightarrow> length (nat_str n) \<le> Suc k"
proof (induction k arbitrary: n)
  case 0
  then show ?case by (simp add: nat_str.simps [of n])
next
  case (Suc k)
  have "n div 10 < 10 ^ Suc k" using Suc.prems by (simp add: less_mult_imp_div_less)
  with Suc.IH [of "n div 10"] show ?case by (subst nat_str.simps) simp
qed

lemma editInterval_accepts:
  "editInterval s = Inr v \<longleftrightarrow>
     (\<exists>pre ds post. js_trim s = pre @ ds @ post \<and> map to_lower pre \<in> edit_heads \<and> map to_lower post = '' seconds'' \<and>
        ds \<noteq> [] \<and> length ds \<le> 5 \<and> list_all digit ds \<and> v = int (digits_val ds) \<and> 10 \<le> v \<and> v \<le> 86400)"
proof -
  have full: "rx_full edit_pattern t \<longleftrightarrow> t \<in> lang edit_pattern" for t
    by (rule rx_full_lang) (simp add: edit_pattern_def Chr_def)
  have ok: "interval_ok (Fin (of_int (int n))) \<longleftrightarrow> 10 \<le> n \<and> n \<le> 86400" for n
    by (auto simp: interval_ok_iff)
  have "editInterval s = Inr v \<longleftrightarrow> js_trim s \<in> lang edit_pattern \<and> v = int (digits_val (filter digit (js_trim s))) \<and> 10 \<le> v \<and> v \<le> 86400"
    unfolding editInterval_def Let_def renderApp_def full by (auto simp: ok simp del: of_int_of_nat_eq)
  then show ?thesis unfolding lang_edit by (metis edit_digits)
qed

text \<open>
  The supported edit is exactly the documented sentence, in any case and with spaces around it, with an optional \<open>sample\<close> or
  \<open>upload\<close>, one to five digits and a value from 10 to 86400; written with a number in that range it yields that number.
\<close>

theorem editInterval_iff:
  "(editInterval s = Inr v \<longleftrightarrow>
     (\<exists>pre ds post. js_trim s = pre @ ds @ post \<and>
        map to_lower pre \<in> {''set interval to '', ''set sample interval to '', ''set upload interval to ''} \<and>
        map to_lower post = '' seconds'' \<and> ds \<noteq> [] \<and> length ds \<le> 5 \<and> list_all digit ds \<and>
        v = int (digits_val ds) \<and> 10 \<le> v \<and> v \<le> 86400)) \<and>
   (editInterval (''Set interval to '' @ nat_str n @ '' seconds'') = Inr (int n) \<longleftrightarrow> 10 \<le> n \<and> n \<le> 86400)"
proof
  have heads: "edit_heads = {''set interval to '', ''set sample interval to '', ''set upload interval to ''}"
    by (auto simp: edit_heads_def)
  show "editInterval s = Inr v \<longleftrightarrow>
     (\<exists>pre ds post. js_trim s = pre @ ds @ post \<and>
        map to_lower pre \<in> {''set interval to '', ''set sample interval to '', ''set upload interval to ''} \<and>
        map to_lower post = '' seconds'' \<and> ds \<noteq> [] \<and> length ds \<le> 5 \<and> list_all digit ds \<and>
        v = int (digits_val ds) \<and> 10 \<le> v \<and> v \<le> 86400)"
    unfolding editInterval_accepts heads ..
  let ?t = "''Set interval to '' @ nat_str n @ '' seconds''"
  have trim: "js_trim ?t = ?t" by (simp add: js_trim_def js_space_def)
  have lows: "map to_lower ''Set interval to '' = ''set interval to ''" "map to_lower '' seconds'' = '' seconds''" by code_simp+
  show "editInterval ?t = Inr (int n) \<longleftrightarrow> 10 \<le> n \<and> n \<le> 86400"
  proof
    assume n: "10 \<le> n \<and> n \<le> 86400"
    have "map to_lower ''Set interval to '' \<in> edit_heads" unfolding lows edit_heads_def by simp
    moreover have "length (nat_str n) \<le> 5" using n length_nat_str [of n 4] by simp
    moreover have "list_all digit (nat_str n)" by (simp add: list_all_iff digit_def nat_str_digits)
    moreover have "10 \<le> int n" "int n \<le> 86400" using n by simp_all
    ultimately show "editInterval ?t = Inr (int n)"
      unfolding editInterval_accepts trim using lows(2) nat_str_not_Nil digits_val_nat_str by metis
  qed (auto simp: editInterval_accepts)
qed

subsection \<open>An accepted plan\<close>

definition board_parts :: "PartDefinition list" where
  "board_parts =
     [bench_host, bench_battery\<lparr>part_id := ''E-005''\<rparr>,
      bench_sensor\<lparr>part_id := ''V-005'', category := Visual, software := (software bench_sensor)\<lparr>driver_pkg := Some ''hsx-driver-bh1750''\<rparr>\<rparr>]"

definition board_profile :: AssemblyProfile where
  "board_profile = bench_profile
     \<lparr>prof_id := ''esp32s3-bh1750-usb-v1'', source_pin := \<lparr>pin_id = ''E-005'', pin_version = ''1.0.0''\<rparr>,
      ports := [\<lparr>port_id = ''i2c'', port_interface = I2c, port_connector = ''hsx-i2c-4pin-v1'', port_rail = BrainRail,
                 max_current_ma = Fin 100, port_resources = [''GPIO8'', ''GPIO9''], port_capacity = 10\<rparr>]\<rparr>"

definition board_metadata :: BuildPlanMetadata where
  "board_metadata =
     \<lparr>md_schema_version = 1, md_runtime = ''0.1.0'', md_profile = (''esp32s3-bh1750-usb-v1'', ''1.0.0''), md_total_cost_usd = Fin 45,
      md_input_digest = replicate 64 (CHR ''a''),
      md_evidence = \<lparr>ev_parts = board_parts, ev_connectors = [], ev_profile = board_profile,
        ev_compat = [\<lparr>compat_pkg = ''hsx-driver-bh1750'', compat_driver_ver = ''0.1.0'', compat_runtime_ver = ''0.1.0'',
                      compat_brain = ''C-001'', compat_status = Passed\<rparr>]\<rparr>\<rparr>"

definition board_plan :: BuildPlan where
  "board_plan =
     \<lparr>part_versions = map pin board_parts, plan_runtime = ''0.1.0'', plan_profile = (''esp32s3-bh1750-usb-v1'', ''1.0.0''),
      wiring_graph =
        \<lparr>graph_source = \<lparr>pin_id = ''E-005'', pin_version = ''1.0.0''\<rparr>, graph_brain = \<lparr>pin_id = ''C-001'', pin_version = ''1.0.0''\<rparr>,
         graph_brain_input = ''primary'',
         graph_peripherals = [\<lparr>edge_part = \<lparr>pin_id = ''V-005'', pin_version = ''1.0.0''\<rparr>, edge_port = ''i2c'', edge_rail = BrainRail,
           edge_connector = ''hsx-i2c-4pin-v1'', edge_resources = [''GPIO8'', ''GPIO9'']\<rparr>]\<rparr>,
      power_budget = \<lparr>average_source_ma = Fin 1, peak_source_ma = Fin 2, peak_brain_rail_ma = Fin 2, usable_capacity_mah = None,
                      estimated_life_days = None\<rparr>,
      bom = map (\<lambda>p. \<lparr>bom_part = pin p, bom_quantity = 1, bom_unit_cost_usd = Fin 15\<rparr>) board_parts,
      total_cost_usd = Fin 45, solver_log = []\<rparr>"

definition board_spec :: Spec where
  "board_spec =
     \<lparr>sp_sense = \<lparr>se_what = [''light''], se_accuracy = None, se_interval_s = Some (Fin 60)\<rparr>, sp_act = None,
      sp_environment = \<lparr>env_location = ''desk'', env_flags = []\<rparr>, sp_connect = \<lparr>co_transport = Wifi, co_experience = []\<rparr>,
      sp_power = \<lparr>pw_source = FromUsb, pw_target_life_days = None\<rparr>, sp_experience = \<lparr>ex_alerts = None, ex_dashboard = None\<rparr>,
      sp_capabilities = [''read.illuminance_lux''], sp_assumptions = [], sp_open_questions = [], sp_settled = True\<rparr>"

lemma board_plan_ok: "BuildPlanV1_ok board_plan"
  by code_simp

lemma board_parts_ok: "list_all (PartDefinition_ok (\<lambda>_. True)) board_parts"
  by code_simp

lemma board_profile_ok: "AssemblyProfile_ok board_profile"
  by code_simp

lemma board_metadata_ok: "BuildPlanMetadata_ok (\<lambda>_. True) board_metadata"
proof -
  let ?hex = "Cls (\<lambda>c. between (CHR ''a'') (CHR ''f'') c \<or> digit c)"
  have "rx_full (Times 64 ?hex) (replicate 64 (CHR ''a''))"
    by (subst rx_full_lang) (simp_all add: lang_Times_Cls list_all_length between_def del: Times.simps)
  moreover have "SemVer ''0.1.0'' \<and> SemVer ''1.0.0'' \<and> list_all CompatEntry_ok (ev_compat (md_evidence board_metadata))" by code_simp
  ultimately show ?thesis using board_parts_ok board_profile_ok
    by (simp add: BuildPlanMetadata_ok_def BuildPlanEvidence_ok_def board_metadata_def board_parts_def z_nonnegative_def jle_def del: Times.simps)
qed

lemma board_selected: "\<exists>sel. selectNumericCandidate (\<lambda>_. True) board_plan board_metadata board_spec = Inr sel"
proof -
  note board = DEVKITC_CANDIDATE_def RUNTIME_def board_plan_def board_metadata_def board_profile_def board_parts_def bench_profile_def pin_def
    bench_host_def bench_battery_def bench_sensor_def bench_part_def
  let ?wired = "graph_peripherals (wiring_graph board_plan)"
  obtain chosen where c: "choose_options DEVKITC_CANDIDATE ?wired [] = Inr chosen" "chosen = nc_peripherals DEVKITC_CANDIDATE"
    by (simp add: board_plan_def DEVKITC_CANDIDATE_def)
  have "List.find (\<lambda>c. nc_id c = fst (plan_profile board_plan)) NUMERIC_CANDIDATES = Some DEVKITC_CANDIDATE"
    by (simp add: NUMERIC_CANDIDATES_def DEVKITC_CANDIDATE_def board_plan_def)
  moreover have "\<not> pins_differ DEVKITC_CANDIDATE chosen board_plan board_metadata" unfolding c(2)
    by (simp add: pins_differ_def expectedPins_def Let_def board)
  moreover have "\<not> list_ex (edge_unsupported DEVKITC_CANDIDATE (ev_profile (md_evidence board_metadata))) ?wired"
    by (simp add: edge_unsupported_def board)
  moreover have "\<not> list_ex (driver_unsupported DEVKITC_CANDIDATE (md_evidence board_metadata)) chosen" unfolding c(2)
    by (simp add: driver_unsupported_def board)
  moreover have "\<not> spec_unsupported board_spec" by code_simp
  ultimately show ?thesis using board_plan_ok board_metadata_ok c
    by (simp add: selectNumericCandidate_def Let_def DEVKITC_CANDIDATE_def)
qed

theorem selectNumericCandidate_sound_witness:
  "\<exists>sel (chosen :: PeripheralOption list). selectNumericCandidate (\<lambda>_. True) board_plan board_metadata board_spec = Inr sel \<and> chosen \<noteq> [] \<and>
     mset (part_versions board_plan) = mset (nc_brain (ns_candidate sel) # nc_source (ns_candidate sel) # map po_part chosen)"
proof -
  obtain sel where sel: "selectNumericCandidate (\<lambda>_. True) board_plan board_metadata board_spec = Inr sel" using board_selected by blast
  from selectNumericCandidate_sound [OF sel] sel show ?thesis by blast
qed

end
