(* ===== verification/Http.thy ===== *)
theory Http
  imports Plan_Schema
begin

text \<open>
  The errors a gateway route answers with, \<open>apps/gateway/src/http.ts\<close>: a status, a code, details and extra headers. The message
  text is left out; \<open>parse\<close> turns a value its schema refuses into \<open>bad_request\<close>.
\<close>

record HttpError =
  he_status :: nat
  he_code :: string
  he_details :: "(string \<times> jvalue) list"
  he_headers :: "(string \<times> string) list"

definition http_error :: "nat \<Rightarrow> string \<Rightarrow> HttpError" where
  "http_error st code = \<lparr>he_status = st, he_code = code, he_details = [], he_headers = []\<rparr>"

definition notFound :: HttpError where
  "notFound = http_error 404 ''NOT_FOUND''"

definition bad_request :: HttpError where
  "bad_request = http_error 400 ''BAD_REQUEST''"

end
