(* ===== verification/Workspace.thy ===== *)
theory Workspace
  imports Auth Http
begin
text \<open>
  Who may read and write in a workspace: \<open>apps/gateway/src/session.ts\<close>, \<open>authorized-read.ts\<close>, \<open>authorized-write.ts\<close>,
  \<open>provisioning-session.ts\<close> and \<open>mutation-origin.ts\<close>. Every handler of a signed-in person runs inside one of these. A handler is a
  function of the identity it is given; a write also takes and returns the tables, and an error rolls them back. The statement times
  that the expiry checks compare with are arguments. Base64url is Node's on the characters of its alphabet.
\<close>

subsection \<open>Base64url\<close>

definition b64_value :: "char \<Rightarrow> nat" where
  "b64_value c =
     (let n = (of_char c :: nat) in
      if upper c then n - 65 else if lower c then n - 71 else if digit c then n + 4 else if c = CHR ''-'' then 62 else 63)"

definition b64_digit :: "nat \<Rightarrow> char" where
  "b64_digit v =
     (if v < 26 then char_of (65 + v) else if v < 52 then char_of (71 + v) else if v < 62 then char_of (v - 4)
      else if v = 62 then CHR ''-'' else CHR ''_'')"

text \<open>\<open>Buffer.from(s, "base64url")\<close>: four characters make three bytes; a rest of two or three makes one or two.\<close>

fun from_base64url :: "string \<Rightarrow> nat list" where
  "from_base64url (a # b # c # d # rest) =
     (b64_value a * 4 + b64_value b div 16) # ((b64_value b mod 16) * 16 + b64_value c div 4) #
     ((b64_value c mod 4) * 64 + b64_value d) # from_base64url rest"
| "from_base64url [a, b, c] = [b64_value a * 4 + b64_value b div 16, (b64_value b mod 16) * 16 + b64_value c div 4]"
| "from_base64url [a, b] = [b64_value a * 4 + b64_value b div 16]"
| "from_base64url _ = []"

text \<open>\<open>buffer.toString("base64url")\<close>, without padding.\<close>

fun to_base64url :: "nat list \<Rightarrow> string" where
  "to_base64url (x # y # z # rest) =
     b64_digit (x div 4) # b64_digit ((x mod 4) * 16 + y div 16) # b64_digit ((y mod 16) * 4 + z div 64) # b64_digit (z mod 64) #
     to_base64url rest"
| "to_base64url [x, y] = [b64_digit (x div 4), b64_digit ((x mod 4) * 16 + y div 16), b64_digit ((y mod 16) * 4)]"
| "to_base64url [x] = [b64_digit (x div 4), b64_digit ((x mod 4) * 16)]"
| "to_base64url [] = []"

definition base64url_canonical :: "string \<Rightarrow> bool" where
  "base64url_canonical s \<longleftrightarrow> to_base64url (from_base64url s) = s"

subsection \<open>The session of a request\<close>

definition unauthorized :: HttpError where
  "unauthorized = http_error 401 ''UNAUTHORIZED''"

definition cookie_values :: "string option \<Rightarrow> string list" where
  "cookie_values cookie =
     concat (map (\<lambda>pair. if CHR ''='' \<in> set pair \<and> js_trim (takeWhile (\<lambda>c. c \<noteq> CHR ''='') pair) = SESSION_COOKIE
                         then [js_trim (tl (dropWhile (\<lambda>c. c \<noteq> CHR ''='') pair))] else [])
       (js_split (CHR '';'') (case cookie of None \<Rightarrow> [] | Some c \<Rightarrow> c)))"

definition session_token_ok :: "string \<Rightarrow> bool" where
  "session_token_ok token \<longleftrightarrow> token \<noteq> [] \<and> rx_full TOKEN_PATTERN token \<and> base64url_canonical token"

definition sessionTokenHash :: "(string \<Rightarrow> string) \<Rightarrow> string option \<Rightarrow> HttpError + string" where
  "sessionTokenHash sha256 cookie =
     (case cookie_values cookie of
        [token] \<Rightarrow> if session_token_ok token then Inr (hashSessionToken sha256 token) else Inl unauthorized
      | _ \<Rightarrow> Inl unauthorized)"

text \<open>\<open>host.toLowerCase().replace(/:\d+$/, "").replace(/\.$/, "")\<close>.\<close>

definition drop_port :: "string \<Rightarrow> string" where
  "drop_port host =
     (let r = rev host; port = takeWhile digit r in
      case dropWhile digit r of
        c # rest \<Rightarrow> if port \<noteq> [] \<and> c = CHR '':'' then rev rest else host
      | [] \<Rightarrow> host)"

definition drop_dot :: "string \<Rightarrow> string" where
  "drop_dot host = (if host \<noteq> [] \<and> last host = CHR ''.'' then butlast host else host)"

definition low_alnum :: "char \<Rightarrow> bool" where
  "low_alnum c \<longleftrightarrow> lower c \<or> digit c"

definition SLUG_PATTERN :: rx where
  "SLUG_PATTERN = Seq (Cls low_alnum) (Opt (Seq (Star (Cls (\<lambda>c. low_alnum c \<or> c = CHR ''-''))) (Cls low_alnum)))"

definition endsWith :: "string \<Rightarrow> string \<Rightarrow> bool" where
  "endsWith s t \<longleftrightarrow> length t \<le> length s \<and> drop (length s - length t) s = t"

definition unknown_tenant :: HttpError where
  "unknown_tenant = http_error 404 ''NOT_FOUND''"

definition tenantSlug :: "string \<Rightarrow> HttpError + string option" where
  "tenantSlug host =
     (let name = drop_dot (drop_port (map js_lower host)); domain = ''.albusforge.ai'' in
      if name = ''albusforge.ai'' \<or> name = ''staging.albusforge.ai'' then Inr None
      else if \<not> endsWith name domain then Inr None
      else (let slug = take (length name - length domain) name in
            if \<not> rx_full SLUG_PATTERN slug \<or> slug \<in> {''app'', ''api'', ''www'', ''ingest''} then Inl unknown_tenant
            else Inr (Some slug)))"

subsection \<open>Sessions and their ancestors\<close>

text \<open>The recursive query \<open>family\<close>: the session with this hash and its ancestors.\<close>

definition own_session :: "string \<Rightarrow> AuthDb \<Rightarrow> SessionRow option" where
  "own_session h db = List.find (\<lambda>s. ss_tokenHash s = h) (ad_sessions db)"

definition ancestry :: "string \<Rightarrow> AuthDb \<Rightarrow> SessionRow list" where
  "ancestry h db =
     (case own_session h db of
        None \<Rightarrow> []
      | Some s \<Rightarrow> up_chain (ad_sessions db) (length (ad_sessions db)) (ss_id s))"

definition unexpired :: "int \<Rightarrow> SessionRow list \<Rightarrow> bool" where
  "unexpired now fam \<longleftrightarrow> list_all (\<lambda>f. ss_expiresAt f > now) fam"

text \<open>The condition of \<open>withSession\<close> on the session row.\<close>

definition session_of :: "string \<Rightarrow> int \<Rightarrow> AuthDb \<Rightarrow> SessionRow option" where
  "session_of h now db =
     (case own_session h db of
        None \<Rightarrow> None
      | Some s \<Rightarrow>
          if list_ex (\<lambda>f. ss_revokedAt f \<noteq> None \<or> ss_expiresAt f \<le> now) (ancestry h db) \<or>
             list_ex (\<lambda>f. ss_userId f \<noteq> ss_userId s) (ancestry h db)
          then None else Some s)"

definition orphan :: "SessionRow list \<Rightarrow> SessionRow \<Rightarrow> bool" where
  "orphan fam f \<longleftrightarrow> (case ss_parentSessionId f of None \<Rightarrow> False | Some p \<Rightarrow> p \<notin> set (map ss_id fam))"

text \<open>That of \<open>withAuthorizedRead\<close>, which also refuses a broken chain.\<close>

definition strict_session :: "string \<Rightarrow> int \<Rightarrow> AuthDb \<Rightarrow> SessionRow option" where
  "strict_session h now db =
     (case own_session h db of
        None \<Rightarrow> None
      | Some s \<Rightarrow>
          if list_ex (\<lambda>f. ss_revokedAt f \<noteq> None \<or> ss_expiresAt f \<le> now \<or> ss_userId f \<noteq> ss_userId s \<or> orphan (ancestry h db) f)
               (ancestry h db)
          then None else Some s)"

text \<open>That of \<open>withAuthorizedWrite\<close>: the rows it has locked, without their expiry.\<close>

definition locked_session :: "string \<Rightarrow> AuthDb \<Rightarrow> SessionRow option" where
  "locked_session h db =
     (case own_session h db of
        None \<Rightarrow> None
      | Some s \<Rightarrow>
          if list_ex (\<lambda>f. ss_revokedAt f \<noteq> None \<or> ss_userId f \<noteq> ss_userId s \<or> orphan (ancestry h db) f) (ancestry h db)
          then None else Some s)"

definition tenant_row :: "string option \<Rightarrow> string \<Rightarrow> AuthDb \<Rightarrow> TenantRow option" where
  "tenant_row slug active db =
     List.find (\<lambda>t. case slug of None \<Rightarrow> tn_id t = active | Some g \<Rightarrow> tn_slug t = Some g) (ad_tenants db)"

definition role_in :: "AuthDb \<Rightarrow> string \<Rightarrow> string \<Rightarrow> TenantRole option" where
  "role_in db tenantId userId =
     map_option tm_role (List.find (\<lambda>m. tm_tenantId m = tenantId \<and> tm_userId m = userId) (ad_members db))"

subsection \<open>Reads\<close>

definition withSession ::
    "(string \<Rightarrow> string) \<Rightarrow> string option \<Rightarrow> string \<Rightarrow> int \<Rightarrow> AuthDb \<Rightarrow> (string \<Rightarrow> string \<Rightarrow> HttpError + 'a) \<Rightarrow> HttpError + 'a" where
  "withSession sha256 cookie host now db read =
     (case sessionTokenHash sha256 cookie of
        Inl e \<Rightarrow> Inl e
      | Inr h \<Rightarrow>
     (case tenantSlug host of
        Inl e \<Rightarrow> Inl e
      | Inr slug \<Rightarrow>
     (case session_of h now db of
        None \<Rightarrow> Inl unauthorized
      | Some s \<Rightarrow>
     (case tenant_row slug (ss_activeTenantId s) db of
        None \<Rightarrow> Inl unknown_tenant
      | Some t \<Rightarrow>
          if role_in db (tn_id t) (ss_userId s) = None then Inl (http_error 403 ''FORBIDDEN'')
          else read (tn_id t) (ss_userId s)))))"

definition withPublicTenant :: "string \<Rightarrow> AuthDb \<Rightarrow> (string \<Rightarrow> HttpError + 'a) \<Rightarrow> HttpError + 'a" where
  "withPublicTenant tenantId db read =
     (case List.find (\<lambda>t. tn_id t = tenantId) (ad_tenants db) of
        None \<Rightarrow> Inl unknown_tenant
      | Some t \<Rightarrow> read (tn_id t))"

record ReadIdentity =
  ri_tenantId :: string
  ri_userId :: string
  ri_role :: TenantRole

definition withAuthorizedRead ::
    "(string \<Rightarrow> string) \<Rightarrow> string option \<Rightarrow> string \<Rightarrow> int \<Rightarrow> AuthDb \<Rightarrow> (ReadIdentity \<Rightarrow> HttpError + 'a) \<Rightarrow> HttpError + 'a" where
  "withAuthorizedRead sha256 cookie host now db read =
     (case sessionTokenHash sha256 cookie of
        Inl e \<Rightarrow> Inl e
      | Inr h \<Rightarrow>
     (case tenantSlug host of
        Inl e \<Rightarrow> Inl e
      | Inr slug \<Rightarrow>
     (case strict_session h now db of
        None \<Rightarrow> Inl unauthorized
      | Some s \<Rightarrow>
     (case tenant_row slug (ss_activeTenantId s) db of
        None \<Rightarrow> Inl unknown_tenant
      | Some t \<Rightarrow>
     (case role_in db (tn_id t) (ss_userId s) of
        None \<Rightarrow> Inl (http_error 403 ''FORBIDDEN'')
      | Some role \<Rightarrow> read \<lparr>ri_tenantId = tn_id t, ri_userId = ss_userId s, ri_role = role\<rparr>)))))"

subsection \<open>Writes\<close>

text \<open>\<open>recheckExpiry\<close> reads the locked ancestry again at the time of its statement.\<close>

record WriteIdentity =
  wi_tenantId :: string
  wi_userId :: string
  wi_family :: "SessionRow list"

definition recheckExpiry :: "WriteIdentity \<Rightarrow> int \<Rightarrow> bool" where
  "recheckExpiry w now \<longleftrightarrow> unexpired now (wi_family w)"

definition may_write :: "TenantRole option \<Rightarrow> bool" where
  "may_write role \<longleftrightarrow> role \<in> {Some Admin, Some Operator}"

text \<open>Everything before the handler runs.\<close>

definition write_identity ::
    "(string \<Rightarrow> string) \<Rightarrow> string option \<Rightarrow> string \<Rightarrow> string option \<Rightarrow> int \<Rightarrow> AuthDb \<Rightarrow> HttpError + WriteIdentity" where
  "write_identity sha256 cookie host expected now db =
     (case sessionTokenHash sha256 cookie of
        Inl e \<Rightarrow> Inl e
      | Inr h \<Rightarrow>
     (case tenantSlug host of
        Inl e \<Rightarrow> Inl e
      | Inr slug \<Rightarrow>
     (case locked_session h db of
        None \<Rightarrow> Inl unauthorized
      | Some s \<Rightarrow>
          if \<not> unexpired now (ancestry h db) then Inl unauthorized
          else (case tenant_row slug (ss_activeTenantId s) db of
             None \<Rightarrow> Inl unknown_tenant
           | Some t \<Rightarrow>
               if (case expected of None \<Rightarrow> False | Some e \<Rightarrow> tn_id t \<noteq> e) then Inl (http_error 409 ''WORKSPACE_CHANGED'')
               else if \<not> may_write (role_in db (tn_id t) (ss_userId s)) then Inl (http_error 403 ''FORBIDDEN'')
               else Inr \<lparr>wi_tenantId = tn_id t, wi_userId = ss_userId s, wi_family = ancestry h db\<rparr>))))"

text \<open>One transaction: admission at \<open>t0\<close>, the handler, the last expiry check at \<open>t1\<close>. \<open>auth\<close> finds the sign-in tables in the whole.\<close>

definition withAuthorizedWrite ::
    "(string \<Rightarrow> string) \<Rightarrow> ('d \<Rightarrow> AuthDb) \<Rightarrow> string option \<Rightarrow> string \<Rightarrow> string option \<Rightarrow> int \<Rightarrow> int \<Rightarrow>
     (WriteIdentity \<Rightarrow> 'd \<Rightarrow> (HttpError + 'a) \<times> 'd) \<Rightarrow> 'd \<Rightarrow> (HttpError + 'a) \<times> 'd" where
  "withAuthorizedWrite sha256 auth cookie host expected t0 t1 act d =
     (case write_identity sha256 cookie host expected t0 (auth d) of
        Inl e \<Rightarrow> (Inl e, d)
      | Inr w \<Rightarrow>
     (case act w d of
        (Inl e, _) \<Rightarrow> (Inl e, d)
      | (Inr r, d') \<Rightarrow> if recheckExpiry w t1 then (Inr r, d') else (Inl unauthorized, d)))"

record ProvisioningSession =
  sn_tenantId :: string
  sn_userId :: string
  sn_rootSessionId :: string
  sn_identity :: WriteIdentity

definition family_roots :: "SessionRow list \<Rightarrow> string list" where
  "family_roots fam = map ss_id (filter (\<lambda>f. ss_parentSessionId f = None) fam)"

definition checkExpiry :: "ProvisioningSession \<Rightarrow> int \<Rightarrow> bool" where
  "checkExpiry s now \<longleftrightarrow> recheckExpiry (sn_identity s) now"

text \<open>The second recursive query reads the ancestry the first has locked.\<close>

definition withProvisioningSession ::
    "(string \<Rightarrow> string) \<Rightarrow> ('d \<Rightarrow> AuthDb) \<Rightarrow> string option \<Rightarrow> string \<Rightarrow> string \<Rightarrow> int \<Rightarrow> int \<Rightarrow> int \<Rightarrow>
     (ProvisioningSession \<Rightarrow> 'd \<Rightarrow> (HttpError + 'a) \<times> 'd) \<Rightarrow> 'd \<Rightarrow> (HttpError + 'a) \<times> 'd" where
  "withProvisioningSession sha256 auth cookie host expected t0 tr t1 act =
     withAuthorizedWrite sha256 auth cookie host (Some expected) t0 t1
       (\<lambda>w d. case family_roots (wi_family w) of
          [apex] \<Rightarrow>
            if recheckExpiry w tr
            then act \<lparr>sn_tenantId = wi_tenantId w, sn_userId = wi_userId w, sn_rootSessionId = apex, sn_identity = w\<rparr> d
            else (Inl unauthorized, d)
        | _ \<Rightarrow> (Inl unauthorized, d))"

subsection \<open>Same-origin requests\<close>

record UrlParts =
  url_protocol :: string
  url_hostname :: string
  url_host :: string
  url_origin :: string

text \<open>\<open>new URL(text)\<close> is the parameter \<open>parse_url\<close>, \<open>None\<close> when it throws.\<close>

definition assertSameOrigin :: "(string \<Rightarrow> UrlParts option) \<Rightarrow> string option \<Rightarrow> string option \<Rightarrow> HttpError option" where
  "assertSameOrigin parse_url origin host =
     (let refuse = Some (http_error 403 ''INVALID_ORIGIN'') in
      case (origin, host) of
        (Some o', Some h) \<Rightarrow>
          (case parse_url o' of
             None \<Rightarrow> refuse
           | Some url \<Rightarrow>
               (let is_local = url_hostname url \<in> {''localhost'', ''127.0.0.1'', ''[::1]''} in
                if url_origin url \<noteq> o' \<or> (url_protocol url \<noteq> ''https:'' \<and> \<not> (is_local \<and> url_protocol url = ''http:'')) then refuse
                else case parse_url (url_protocol url @ ''//'' @ h) of
                       None \<Rightarrow> refuse
                     | Some own \<Rightarrow> if url_host url \<noteq> url_host own then refuse else None))
      | _ \<Rightarrow> refuse)"


subsection \<open>Session tokens\<close>

lemma char_code_eq: "c = d \<longleftrightarrow> (of_char c :: nat) = of_char d"
  by simp

lemma token_char_code:
  "token_char c \<longleftrightarrow> (let n = (of_char c :: nat) in (65 \<le> n \<and> n \<le> 90) \<or> (97 \<le> n \<and> n \<le> 122) \<or> (48 \<le> n \<and> n \<le> 57) \<or> n = 95 \<or> n = 45)"
  by (simp add: token_char_def upper_def lower_def between_def is_digit_def less_eq_char_def Let_def char_code_eq [of c] del: of_char_eq_iff)

lemma b64_value_code:
  "b64_value c = (let n = (of_char c :: nat) in
     if 65 \<le> n \<and> n \<le> 90 then n - 65 else if 97 \<le> n \<and> n \<le> 122 then n - 71 else if 48 \<le> n \<and> n \<le> 57 then n + 4 else if n = 45 then 62 else 63)"
  by (simp add: b64_value_def upper_def lower_def between_def is_digit_def less_eq_char_def Let_def char_code_eq [of c] del: of_char_eq_iff)

lemma b64_value_less: "b64_value c < 64"
  by (auto simp: b64_value_code Let_def)

lemma b64_digit_code: "v < 64 \<Longrightarrow> (of_char (b64_digit v) :: nat) =
    (if v < 26 then 65 + v else if v < 52 then 71 + v else if v < 62 then v - 4 else if v = 62 then 45 else 95)"
  by (simp add: b64_digit_def)

lemma b64_digit_value [simp]: "token_char c \<Longrightarrow> b64_digit (b64_value c) = c"
  unfolding char_code_eq b64_digit_code [OF b64_value_less]
  by (auto simp: token_char_code b64_value_code Let_def)

lemma b64_value_digit [simp]: "v < 64 \<Longrightarrow> b64_value (b64_digit v) = v"
  by (cases "v < 52"; cases "v < 62"; cases "v = 62") (auto simp: b64_value_code b64_digit_code Let_def)

lemma b64_digit_eq: "token_char c \<Longrightarrow> v < 64 \<Longrightarrow> b64_digit v = c \<longleftrightarrow> v = b64_value c"
  by auto

text \<open>A group of four characters survives; of a rest of three, the last keeps the upper four of its six bits.\<close>

lemma canonical_four:
  assumes "token_char a" "token_char b" "token_char c" "token_char d"
  shows "base64url_canonical (a # b # c # d # rest) \<longleftrightarrow> base64url_canonical rest"
proof -
  note less = b64_value_less [of a] b64_value_less [of b] b64_value_less [of c] b64_value_less [of d]
  have split: "(x * 4 + y div 16) div 4 = x" "(x * 4 + y div 16) mod 4 * 16 + (y mod 16 * 16 + z div 4) div 16 = y"
      "(y mod 16 * 16 + z div 4) mod 16 * 4 + (z mod 4 * 64 + w) div 64 = z" "(z mod 4 * 64 + w) mod 64 = w"
    if "x < 64" "y < 64" "z < 64" "w < 64" for x y z w :: nat
    using that by (auto simp: div_mult2_eq)
  show ?thesis
    by (simp only: base64url_canonical_def from_base64url.simps to_base64url.simps split [OF less] assms [THEN b64_digit_value] list.inject simp_thms)
qed

lemma canonical_three:
  assumes "token_char a" "token_char b" "token_char c"
  shows "base64url_canonical [a, b, c] \<longleftrightarrow> b64_value c mod 4 = 0"
proof -
  note less = b64_value_less [of a] b64_value_less [of b] b64_value_less [of c]
  have split: "(x * 4 + y div 16) div 4 = x" "(x * 4 + y div 16) mod 4 * 16 + (y mod 16 * 16 + z div 4) div 16 = y"
      "(y mod 16 * 16 + z div 4) mod 16 * 4 = z div 4 * 4"
    if "x < 64" "y < 64" "z < 64" for x y z :: nat
    using that by (auto simp: div_mult2_eq)
  have last: "b64_digit (z div 4 * 4) = b64_digit z \<longleftrightarrow> z mod 4 = 0" if "z < 64" for z
    using that b64_value_digit [of "z div 4 * 4"] b64_value_digit [of z] by (metis div_mult_mod_eq add_cancel_left_right le_add1 order.strict_trans1)
  show ?thesis
    using last [OF less(3)] assms
    by (simp only: base64url_canonical_def from_base64url.simps to_base64url.simps split [OF less] b64_digit_value list.inject simp_thms)
qed

lemma canonical_rest:
  "list_all token_char s \<Longrightarrow> length s = 4 * k + 3 \<Longrightarrow>
   (base64url_canonical s \<longleftrightarrow> b64_value (last s) mod 4 = 0) \<and> length (from_base64url s) = 3 * k + 2"
proof (induction k arbitrary: s)
  case 0
  then obtain a b c where "s = [a, b, c]" by (auto simp: length_Suc_conv numeral_3_eq_3)
  with 0 show ?case by (simp add: canonical_three)
next
  case (Suc k)
  then obtain a b c d r where s: "s = a # b # c # d # r" "length r = 4 * k + 3"
    by (cases s rule: from_base64url.cases) auto
  then have "r \<noteq> []" by auto
  with Suc s show ?case by (simp add: canonical_four)
qed


lemma session_token_iff:
  "session_token_ok t \<longleftrightarrow> length t = 43 \<and> list_all token_char t \<and> b64_value (last t) mod 4 = 0"
  using canonical_rest [of t 10]
  by (auto simp: session_token_ok_def TOKEN_PATTERN_def rx_full_lang lang_Times_Cls simp del: Times.simps)

subsection \<open>Ancestors\<close>

lemma up_chain_sessions: "f \<in> set (up_chain ss n i) \<Longrightarrow> f \<in> set ss"
proof (induction n arbitrary: i)
  case (Suc n)
  then show ?case by (cases "List.find (\<lambda>s. ss_id s = i) ss") (auto split: option.splits dest: find_Some_set)
qed simp

lemma own_session_in: "own_session h db = Some s \<Longrightarrow> s \<in> set (ad_sessions db) \<and> ss_tokenHash s = h"
  unfolding own_session_def by (auto dest: find_Some_set)

text \<open>A session that changed elsewhere keeps its place in the chains.\<close>

lemma up_chain_map:
  assumes "\<And>s. ss_id (f s) = ss_id s" and "\<And>s. ss_parentSessionId (f s) = ss_parentSessionId s"
  shows "up_chain (map f ss) n i = map f (up_chain ss n i)"
proof (induction n arbitrary: i)
  case (Suc n)
  have "List.find (\<lambda>s. ss_id s = i) (map f ss) = map_option f (List.find (\<lambda>s. ss_id s = i) ss)"
    by (induction ss) (auto simp: assms)
  with Suc show ?case by (auto simp: assms split: option.split)
qed simp

lemma own_session_map:
  assumes "ad_sessions db' = map f (ad_sessions db)" and "\<And>s. ss_tokenHash (f s) = ss_tokenHash s"
  shows "own_session h db' = map_option f (own_session h db)"
proof -
  have "List.find (\<lambda>s. ss_tokenHash s = h) (map f ss) = map_option f (List.find (\<lambda>s. ss_tokenHash s = h) ss)" for ss
    by (induction ss) (auto simp: assms(2))
  then show ?thesis by (simp only: own_session_def assms(1))
qed

text \<open>In a forest the chain of a session starts with it, has no orphan, and is related to it.\<close>

lemma up_chain_forest:
  assumes "forest ss" and "k < length ss" and "k < n"
  shows "(\<exists>r. up_chain ss n (ss_id (ss ! k)) = ss ! k # r) \<and>
    (\<forall>f \<in> set (up_chain ss n (ss_id (ss ! k))). \<not> orphan (up_chain ss n (ss_id (ss ! k))) f \<and>
       (child_of ss)\<^sup>*\<^sup>* (ss_id (ss ! k)) (ss_id f))"
  using assms(2,3)
proof (induction k arbitrary: n rule: less_induct)
  case (less k)
  obtain n' where n: "n = Suc n'" using less.prems(2) by (cases n) auto
  note found = forest_find [OF assms(1) less.prems(1)]
  show ?case
  proof (cases "ss_parentSessionId (ss ! k)")
    case None
    then show ?thesis using n found by (simp add: orphan_def)
  next
    case (Some p)
    then obtain j where j: "j < k" "ss_id (ss ! j) = p" using assms(1) less.prems(1) by (auto simp: forest_def)
    let ?c = "up_chain ss n' p"
    have ih: "(\<exists>r. ?c = ss ! j # r) \<and> (\<forall>f \<in> set ?c. \<not> orphan ?c f \<and> (child_of ss)\<^sup>*\<^sup>* p (ss_id f))"
      using less.IH [OF j(1), of n'] less.prems n j by simp
    have up: "child_of ss (ss_id (ss ! k)) p" using Some less.prems(1) by (auto simp: child_of_def)
    have chain: "up_chain ss n (ss_id (ss ! k)) = ss ! k # ?c" using n found Some by simp
    have "\<not> orphan (ss ! k # ?c) (ss ! k)" using ih Some j(2) by (force simp: orphan_def)
    moreover have "\<not> orphan (ss ! k # ?c) f" if "f \<in> set ?c" for f using ih that by (auto simp: orphan_def split: option.splits)
    moreover have "(child_of ss)\<^sup>*\<^sup>* (ss_id (ss ! k)) (ss_id f)" if "f \<in> set ?c" for f
      using ih that up by (meson converse_rtranclp_into_rtranclp)
    ultimately show ?thesis unfolding chain by auto
  qed
qed

lemma ancestry_forest:
  assumes "forest (ad_sessions db)" and "own_session h db = Some s"
  shows "s \<in> set (ancestry h db)" and "f \<in> set (ancestry h db) \<Longrightarrow> \<not> orphan (ancestry h db) f"
    and "f \<in> set (ancestry h db) \<Longrightarrow> (child_of (ad_sessions db))\<^sup>*\<^sup>* (ss_id s) (ss_id f)"
    and "f \<in> set (ancestry h db) \<Longrightarrow> f \<in> set (ad_sessions db)"
proof -
  obtain k where k: "k < length (ad_sessions db)" "s = ad_sessions db ! k"
    using own_session_in [OF assms(2)] by (auto simp: in_set_conv_nth)
  note up = up_chain_forest [OF assms(1) k(1) k(1), folded k(2)]
  have a: "ancestry h db = up_chain (ad_sessions db) (length (ad_sessions db)) (ss_id s)" by (simp add: ancestry_def assms(2))
  show "s \<in> set (ancestry h db)" using up unfolding a by (metis list.set_intros(1))
  show "f \<in> set (ancestry h db) \<Longrightarrow> \<not> orphan (ancestry h db) f"
    "f \<in> set (ancestry h db) \<Longrightarrow> (child_of (ad_sessions db))\<^sup>*\<^sup>* (ss_id s) (ss_id f)"
    "f \<in> set (ancestry h db) \<Longrightarrow> f \<in> set (ad_sessions db)"
    using up unfolding a by (auto dest: up_chain_sessions)
qed

lemma child_path_related: "(child_of ss)\<^sup>*\<^sup>* a b \<Longrightarrow> related ss a b"
  unfolding related_def by (rule rtranclp_mono [THEN predicate2D, rotated]) auto

lemma related_sym: "related ss a b \<Longrightarrow> related ss b a"
proof -
  assume "related ss a b"
  then have "(\<lambda>a b. child_of ss a b \<or> child_of ss b a)\<inverse>\<inverse>\<^sup>*\<^sup>* b a" by (simp only: related_def rtranclp_conversep conversep_iff)
  moreover have "(\<lambda>a b. child_of ss a b \<or> child_of ss b a)\<inverse>\<inverse> = (\<lambda>a b. child_of ss a b \<or> child_of ss b a)" by (intro ext) auto
  ultimately show ?thesis by (simp only: related_def)
qed

subsection \<open>What a gate promises\<close>

text \<open>
  The three gates find the session of a request by different queries. What the handlers rely on is the same: the row is the token's
  own, and it and all its ancestors are live sessions of one person.
\<close>

locale session_gate =
  fixes valid :: "string \<Rightarrow> int \<Rightarrow> AuthDb \<Rightarrow> SessionRow option"
  assumes valid_own: "valid h now db = Some s \<Longrightarrow> own_session h db = Some s"
    and valid_family: "valid h now db = Some s \<Longrightarrow> f \<in> set (ancestry h db) \<Longrightarrow> session_live now f \<and> ss_userId f = ss_userId s"
begin

lemma ended_refused: "f \<in> set (ancestry h db) \<Longrightarrow> \<not> session_live now f \<Longrightarrow> valid h now db = None"
  using valid_family by (cases "valid h now db") auto

text \<open>After a family is signed out, no gate finds any of its sessions.\<close>

lemma signed_out:
  assumes "forest (ad_sessions db)" and "own_session h db = Some s"
    and "ad_sessions db' = map (\<lambda>s. if P s then s\<lparr>ss_revokedAt := Some t\<rparr> else s) (ad_sessions db)"
    and "P s \<or> ss_revokedAt s \<noteq> None"
  shows "valid h now db' = None"
proof -
  let ?f = "\<lambda>s. if P s then s\<lparr>ss_revokedAt := Some t\<rparr> else s"
  have own: "own_session h db' = Some (?f s)" using own_session_map [OF assms(3)] assms(2) by simp
  have "ancestry h db' = map ?f (ancestry h db)"
    unfolding ancestry_def own using assms(2,3) up_chain_map [of ?f] by simp
  then have "?f s \<in> set (ancestry h db')" using ancestry_forest(1) [OF assms(1,2)] by simp
  moreover have "\<not> session_live now (?f s)" using assms(4) by (auto simp: session_live_def)
  ultimately show ?thesis by (rule ended_refused)
qed

end

lemma session_of_family: "session_of h now db = Some s \<longleftrightarrow> own_session h db = Some s \<and>
    (\<forall>f \<in> set (ancestry h db). session_live now f \<and> ss_userId f = ss_userId s)"
  by (cases "own_session h db") (fastforce simp: session_of_def list_ex_iff session_live_def not_le split: if_splits)+

lemma strict_session_family: "strict_session h now db = Some s \<longleftrightarrow> session_of h now db = Some s \<and>
    (\<forall>f \<in> set (ancestry h db). \<not> orphan (ancestry h db) f)"
  unfolding session_of_family
  by (cases "own_session h db") (fastforce simp: strict_session_def list_ex_iff session_live_def not_le split: if_splits)+

text \<open>The write's own check with its first expiry check.\<close>

definition write_session :: "string \<Rightarrow> int \<Rightarrow> AuthDb \<Rightarrow> SessionRow option" where
  "write_session h now db = (case locked_session h db of None \<Rightarrow> None | Some s \<Rightarrow> if unexpired now (ancestry h db) then Some s else None)"

lemma write_session_strict: "write_session h now db = strict_session h now db"
proof -
  have "write_session h now db = Some s \<longleftrightarrow> strict_session h now db = Some s" for s
    unfolding strict_session_family session_of_family
    by (auto simp: write_session_def locked_session_def unexpired_def list_ex_iff list_all_iff session_live_def split: option.splits if_splits)
  then show ?thesis by (metis not_Some_eq)
qed

interpretation read_gate: session_gate session_of
  by unfold_locales (auto simp: session_of_family)

interpretation strict_gate: session_gate strict_session
  by unfold_locales (auto simp: strict_session_family session_of_family)

interpretation write_gate: session_gate write_session
  by unfold_locales (auto simp: write_session_strict strict_session_family session_of_family)


lemma write_identity_session:
  "write_identity sha256 cookie host expected now db =
     (case sessionTokenHash sha256 cookie of Inl e \<Rightarrow> Inl e
      | Inr h \<Rightarrow> (case tenantSlug host of Inl e \<Rightarrow> Inl e
      | Inr slug \<Rightarrow> (case write_session h now db of None \<Rightarrow> Inl unauthorized
      | Some s \<Rightarrow> (case tenant_row slug (ss_activeTenantId s) db of None \<Rightarrow> Inl unknown_tenant
      | Some t \<Rightarrow>
          if (case expected of None \<Rightarrow> False | Some e \<Rightarrow> tn_id t \<noteq> e) then Inl (http_error 409 ''WORKSPACE_CHANGED'')
          else if \<not> may_write (role_in db (tn_id t) (ss_userId s)) then Inl (http_error 403 ''FORBIDDEN'')
          else Inr \<lparr>wi_tenantId = tn_id t, wi_userId = ss_userId s, wi_family = ancestry h db\<rparr>))))"
  by (simp add: write_identity_def write_session_def split: sum.split option.split)

lemma refused_everywhere:
  assumes "sessionTokenHash sha256 cookie = Inr h" and "tenantSlug host = Inr slug"
    and "\<And>now. session_of h now db = None" and "\<And>now. strict_session h now db = None" and "\<And>now. write_session h now db = None"
  shows "withSession sha256 cookie host now db read = Inl unauthorized"
    and "withAuthorizedRead sha256 cookie host now db read' = Inl unauthorized"
    and "auth d = db \<Longrightarrow> withAuthorizedWrite sha256 auth cookie host expected t0 t1 act d = (Inl unauthorized, d)"
  using assms by (simp_all add: withSession_def withAuthorizedRead_def withAuthorizedWrite_def write_identity_session)

lemma same_everywhere:
  assumes "\<And>h. sessionTokenHash sha256 cookie = Inr h \<Longrightarrow> own_session h db' = own_session h db"
    and "\<And>h. sessionTokenHash sha256 cookie = Inr h \<Longrightarrow> ancestry h db' = ancestry h db"
    and "ad_tenants db' = ad_tenants db" and "ad_members db' = ad_members db"
  shows "withSession sha256 cookie host now db' read = withSession sha256 cookie host now db read"
    and "withAuthorizedRead sha256 cookie host now db' read' = withAuthorizedRead sha256 cookie host now db read'"
    and "write_identity sha256 cookie host expected now db' = write_identity sha256 cookie host expected now db"
proof -
  have rows: "tenant_row slug a db' = tenant_row slug a db" "role_in db' a b = role_in db a b" for slug a b
    using assms(3,4) by (simp_all add: tenant_row_def role_in_def)
  have gates: "session_of h now db' = session_of h now db" "strict_session h now db' = strict_session h now db"
      "write_session h now db' = write_session h now db" if "sessionTokenHash sha256 cookie = Inr h" for h
    unfolding session_of_def strict_session_def write_session_def locked_session_def assms(1,2) [OF that] by (rule refl)+
  show "withSession sha256 cookie host now db' read = withSession sha256 cookie host now db read"
    "withAuthorizedRead sha256 cookie host now db' read' = withAuthorizedRead sha256 cookie host now db read'"
    "write_identity sha256 cookie host expected now db' = write_identity sha256 cookie host expected now db"
    by (simp_all add: withSession_def withAuthorizedRead_def write_identity_session gates assms(2) rows split: sum.split option.split)
qed

lemma revoke_tables:
  assumes "revokeSessionFamily sha256 token t db = (n, db')" and "liveSession sha256 token t db = Some (x, u)"
  shows "ad_sessions db' = map (\<lambda>s. if ss_id s \<in> set (family (ad_sessions db) (ss_id x)) \<and> ss_revokedAt s = None
                                    then s\<lparr>ss_revokedAt := Some t\<rparr> else s) (ad_sessions db)"
    and "ad_tenants db' = ad_tenants db" and "ad_members db' = ad_members db"
  using assms by (auto simp: revokeSessionFamily_def Let_def)

text \<open>
  C17. Signing out ends every way in at once: after one session of a family is signed out, a request that carries the token of any
  session of that family is refused with 401 by reads, authorised reads and writes, whatever the host, the time and the handler, and a
  write leaves the tables alone; requests of other families are answered as before.
\<close>

theorem signed_out_everywhere:
  assumes "forest (ad_sessions db)" and "liveSession sha256 token t db = Some (x, u)"
    and "revokeSessionFamily sha256 token t db = (n, db')"
    and "sessionTokenHash sha256 cookie = Inr h" and "own_session h db = Some s" and "tenantSlug host = Inr slug"
  shows "if related (ad_sessions db) (ss_id x) (ss_id s)
         then withSession sha256 cookie host now db' read = Inl unauthorized \<and>
              withAuthorizedRead sha256 cookie host now db' read' = Inl unauthorized \<and>
              withAuthorizedWrite sha256 id cookie host expected t0 t1 act db' = (Inl unauthorized, db')
         else withSession sha256 cookie host now db' read = withSession sha256 cookie host now db read \<and>
              withAuthorizedRead sha256 cookie host now db' read' = withAuthorizedRead sha256 cookie host now db read' \<and>
              write_identity sha256 cookie host expected now db' = write_identity sha256 cookie host expected now db"
proof -
  note tables = revoke_tables [OF assms(3,2)]
  have x: "x \<in> set (ad_sessions db)" using assms(2) by (auto simp: liveSession_def split: option.splits dest: find_Some_set)
  note s = own_session_in [OF assms(5), THEN conjunct1]
  note fam = family_related [OF assms(1) x]
  let ?f = "\<lambda>s. if ss_id s \<in> set (family (ad_sessions db) (ss_id x)) \<and> ss_revokedAt s = None then s\<lparr>ss_revokedAt := Some t\<rparr> else s"
  show ?thesis
  proof (cases "related (ad_sessions db) (ss_id x) (ss_id s)")
    case True
    then have "ss_id s \<in> set (family (ad_sessions db) (ss_id x)) \<and> ss_revokedAt s = None \<or> ss_revokedAt s \<noteq> None"
      using fam [OF s] by blast
    note out = assms(1,5) tables(1) this
    have refused: "\<And>now. session_of h now db' = None" "\<And>now. strict_session h now db' = None" "\<And>now. write_session h now db' = None"
      by (rule read_gate.signed_out [OF out] strict_gate.signed_out [OF out] write_gate.signed_out [OF out])+
    show ?thesis using True by (simp add: refused_everywhere [OF assms(4,6) refused])
  next
    case False
    have kept: "?f f = f" if "f \<in> set (ancestry h db)" for f
    proof -
      note f = ancestry_forest(3,4) [OF assms(1,5) that]
      have "related (ad_sessions db) (ss_id f) (ss_id s)"
        by (rule related_sym) (rule child_path_related [OF f(1)])
      then have "\<not> related (ad_sessions db) (ss_id x) (ss_id f)"
        using False unfolding related_def by (meson rtranclp_trans)
      then show ?thesis using fam [OF f(2)] by simp
    qed
    have own: "own_session h db' = Some s"
      using own_session_map [OF tables(1)] assms(5) kept [OF ancestry_forest(1) [OF assms(1,5)]] by simp
    have "ancestry h db' = map ?f (ancestry h db)"
      unfolding ancestry_def own assms(5) option.case tables(1) length_map by (rule up_chain_map) auto
    also have "\<dots> = ancestry h db" by (rule map_idI) (rule kept)
    finally have "own_session h' db' = own_session h' db" "ancestry h' db' = ancestry h' db" if "sessionTokenHash sha256 cookie = Inr h'" for h'
      using that own assms(4,5) by simp_all
    note same = same_everywhere [OF this tables(2,3)]
    show ?thesis using False by (simp add: same)
  qed
qed

text \<open>
  The three gates agree. A request is let in to read as a person in a tenant by one read gate exactly when it is by the other, and
  it is let in to write exactly when the role read is one that may write and the tenant is the one the client expects.
\<close>

theorem gates_agree:
  assumes "forest (ad_sessions db)"
  shows "withSession sha256 cookie host now db (\<lambda>t u. Inr (t, u)) =
           map_sum id (\<lambda>i. (ri_tenantId i, ri_userId i)) (withAuthorizedRead sha256 cookie host now db Inr) \<and>
         ((\<exists>w. write_identity sha256 cookie host expected now db = Inr w \<and> wi_tenantId w = t \<and> wi_userId w = u) \<longleftrightarrow>
         (\<exists>role. withAuthorizedRead sha256 cookie host now db Inr = Inr \<lparr>ri_tenantId = t, ri_userId = u, ri_role = role\<rparr> \<and>
            role \<noteq> Viewer \<and> expected \<in> {None, Some t}))"
proof (rule conjI)
  have strict: "strict_session h now db = session_of h now db" for h
  proof -
    have "strict_session h now db = Some s \<longleftrightarrow> session_of h now db = Some s" for s
      unfolding strict_session_family using ancestry_forest(2) [OF assms] by (auto simp: session_of_family)
    then show ?thesis by (metis not_Some_eq)
  qed
  show "withSession sha256 cookie host now db (\<lambda>t u. Inr (t, u)) =
           map_sum id (\<lambda>i. (ri_tenantId i, ri_userId i)) (withAuthorizedRead sha256 cookie host now db Inr)"
    by (auto simp: withSession_def withAuthorizedRead_def strict split: sum.split option.split)
  have "may_write r \<longleftrightarrow> (\<exists>role. r = Some role \<and> role \<noteq> Viewer)" for r
    by (cases r) (auto simp: may_write_def intro: TenantRole.exhaust)
  then show "(\<exists>w. write_identity sha256 cookie host expected now db = Inr w \<and> wi_tenantId w = t \<and> wi_userId w = u) \<longleftrightarrow>
         (\<exists>role. withAuthorizedRead sha256 cookie host now db Inr = Inr \<lparr>ri_tenantId = t, ri_userId = u, ri_role = role\<rparr> \<and>
            role \<noteq> Viewer \<and> expected \<in> {None, Some t})"
    by (auto simp: write_identity_session withAuthorizedRead_def write_session_strict split: sum.splits option.splits)
qed


text \<open>
  C11. What a write that commits has behind it: exactly one session cookie with a canonical token whose hash is a stored session; that
  session and all its ancestors unrevoked, of one person, and unexpired at admission and again at the end; the tenant of the host, or
  the session's active one, equal to the one the client expects; and a membership of that person in it as admin or operator. A write
  that fails leaves every table as it was.
\<close>

theorem write_admission:
  assumes "withAuthorizedWrite sha256 auth cookie host expected t0 t1 act d = (r, d')"
  shows "case r of
      Inl e \<Rightarrow> d' = d
    | Inr a \<Rightarrow> \<exists>token s t m w.
        cookie_values cookie = [token] \<and> session_token_ok token \<and>
        s \<in> set (ad_sessions (auth d)) \<and> ss_tokenHash s = sha256 token \<and>
        (\<forall>f \<in> set (ancestry (sha256 token) (auth d)). ss_revokedAt f = None \<and> ss_userId f = ss_userId s \<and> ss_expiresAt f > max t0 t1) \<and>
        t \<in> set (ad_tenants (auth d)) \<and> expected \<in> {None, Some (tn_id t)} \<and>
        (tenantSlug host = Inr None \<and> tn_id t = ss_activeTenantId s \<or> tn_slug t \<noteq> None \<and> tenantSlug host = Inr (tn_slug t)) \<and>
        m \<in> set (ad_members (auth d)) \<and> tm_tenantId m = tn_id t \<and> tm_userId m = ss_userId s \<and> tm_role m \<in> {Admin, Operator} \<and>
        wi_tenantId w = tn_id t \<and> wi_userId w = ss_userId s \<and> act w d = (Inr a, d')"
proof (cases r)
  case (Inl e)
  with assms show ?thesis by (auto simp: withAuthorizedWrite_def split: sum.splits prod.splits if_splits)
next
  case (Inr a)
  from assms Inr obtain w where w: "write_identity sha256 cookie host expected t0 (auth d) = Inr w" "act w d = (Inr a, d')" "recheckExpiry w t1"
    by (auto simp: withAuthorizedWrite_def split: sum.splits prod.splits if_splits)
  from w(1) obtain h slug s t where h: "sessionTokenHash sha256 cookie = Inr h" "tenantSlug host = Inr slug"
      "write_session h t0 (auth d) = Some s" "tenant_row slug (ss_activeTenantId s) (auth d) = Some t"
      "expected \<in> {None, Some (tn_id t)}" "may_write (role_in (auth d) (tn_id t) (ss_userId s))"
      "w = \<lparr>wi_tenantId = tn_id t, wi_userId = ss_userId s, wi_family = ancestry h (auth d)\<rparr>"
    by (auto simp: write_identity_session split: sum.splits option.splits if_splits)
  from h(1) obtain token where token: "cookie_values cookie = [token]" "session_token_ok token" "h = sha256 token"
    by (auto simp: sessionTokenHash_def hashSessionToken_def split: list.splits if_splits)
  have s: "s \<in> set (ad_sessions (auth d))" "ss_tokenHash s = h"
    using own_session_in [OF write_gate.valid_own [OF h(3)]] by auto
  have fam: "ss_revokedAt f = None \<and> ss_userId f = ss_userId s \<and> ss_expiresAt f > max t0 t1" if "f \<in> set (ancestry h (auth d))" for f
    using write_gate.valid_family [OF h(3) that] w(3) that by (auto simp: session_live_def recheckExpiry_def unexpired_def h(7) list_all_iff)
  have t: "t \<in> set (ad_tenants (auth d))" "slug = None \<and> tn_id t = ss_activeTenantId s \<or> slug \<noteq> None \<and> slug = tn_slug t"
    using find_Some_set [OF h(4) [unfolded tenant_row_def]] by (auto split: option.splits)
  from h(6) obtain m where m: "List.find (\<lambda>m. tm_tenantId m = tn_id t \<and> tm_userId m = ss_userId s) (ad_members (auth d)) = Some m" "tm_role m \<in> {Admin, Operator}"
    by (auto simp: may_write_def role_in_def)
  from token s fam t h(2,5) m(2) find_Some_set [OF m(1)] w(2) h(7) show ?thesis
    unfolding Inr sum.case by (intro exI [of _ token] exI [of _ s] exI [of _ t] exI [of _ m] exI [of _ w]) auto
qed

subsection \<open>A signed-in family\<close>

text \<open>Two sessions of one sign-in and one of another person.\<close>

definition desk_token :: "char \<Rightarrow> string" where
  "desk_token c = replicate 42 (CHR ''A'') @ [c]"

definition desk_cookie :: "char \<Rightarrow> string option" where
  "desk_cookie c = Some (''theme=dark; '' @ SESSION_COOKIE @ ''='' @ desk_token c)"

definition desk_auth :: AuthDb where
  "desk_auth =
     (let s = (\<lambda>i c u p. \<lparr>ss_id = i, ss_tokenHash = desk_token c, ss_userId = u, ss_activeTenantId = ''t'', ss_parentSessionId = p,
                          ss_expiresAt = 9000, ss_revokedAt = None\<rparr>)
      in \<lparr>ad_codes = [], ad_users = [\<lparr>us_id = ''u'', us_email = ''ann@x.org''\<rparr>], ad_tenants = [\<lparr>tn_id = ''t'', tn_name = ''T'', tn_slug = None\<rparr>],
          ad_members = [\<lparr>tm_tenantId = ''t'', tm_userId = ''u'', tm_role = Admin, tm_createdAt = 1\<rparr>],
          ad_sessions = [s ''s1'' (CHR ''A'') ''u'' None, s ''s2'' (CHR ''E'') ''v'' None, s ''s3'' (CHR ''I'') ''u'' (Some ''s1'')],
          ad_builds = [], ad_calls = []\<rparr>)"

lemma desk_forest: "forest (ad_sessions desk_auth)"
  by (auto simp: forest_def desk_auth_def less_Suc_eq numeral_3_eq_3)

lemma desk_hash:
  assumes "c \<in> {CHR ''A'', CHR ''E'', CHR ''I''}"
  shows "sessionTokenHash id (desk_cookie c) = Inr (desk_token c)"
proof -
  have "cookie_values (desk_cookie c) = [desk_token c]"
    using assms by (auto simp: cookie_values_def desk_cookie_def desk_token_def SESSION_COOKIE_def numeral_eq_Suc js_trim_def js_space_def)
  moreover have "session_token_ok (desk_token c)"
    using assms by (auto simp: session_token_iff desk_token_def token_char_code b64_value_code Let_def list_all_iff)
  ultimately show ?thesis by (simp add: sessionTokenHash_def hashSessionToken_def)
qed

lemma desk_slug: "tenantSlug ''localhost:3000'' = Inr None"
  by code_simp

lemma desk_own: "own_session (desk_token (CHR ''I'')) desk_auth = Some (ad_sessions desk_auth ! 2)"
  by (simp add: own_session_def desk_auth_def desk_token_def Let_def)

lemma desk_live: "liveSession id (desk_token (CHR ''A'')) 1000 desk_auth = Some (hd (ad_sessions desk_auth), hd (ad_users desk_auth))"
  by (simp add: liveSession_def hashSessionToken_def session_live_def desk_auth_def desk_token_def Let_def)

theorem signed_out_everywhere_witness:
  "withAuthorizedRead id (desk_cookie (CHR ''I'')) ''localhost:3000'' 1000 (snd (revokeSessionFamily id (desk_token (CHR ''A'')) 1000 desk_auth)) Inr
   = Inl unauthorized"
proof -
  have "related (ad_sessions desk_auth) (ss_id (hd (ad_sessions desk_auth))) (ss_id (ad_sessions desk_auth ! 2))"
    unfolding related_def by (rule r_into_rtranclp) (simp add: child_of_def desk_auth_def Let_def)
  with signed_out_everywhere [OF desk_forest desk_live prod.collapse [symmetric] desk_hash desk_own desk_slug,
      where now = 1000 and read' = Inr and read = "\<lambda>_ _. Inr ()" and expected = None and ?t0.0 = 0 and ?t1.0 = 0 and act = "\<lambda>_ d. (Inr (), d)"]
  show ?thesis by simp
qed

theorem gates_agree_witness:
  "\<exists>w. write_identity id (desk_cookie (CHR ''I'')) ''localhost:3000'' None 1000 desk_auth = Inr w \<and> wi_tenantId w = ''t'' \<and> wi_userId w = ''u''"
proof -
  have "withAuthorizedRead id (desk_cookie (CHR ''I'')) ''localhost:3000'' 1000 desk_auth Inr =
      Inr \<lparr>ri_tenantId = ''t'', ri_userId = ''u'', ri_role = Admin\<rparr>"
    by (simp add: withAuthorizedRead_def desk_hash desk_slug strict_session_def desk_own ancestry_def)
       (simp add: desk_auth_def Let_def orphan_def tenant_row_def role_in_def numeral_2_eq_2 numeral_3_eq_3)
  with gates_agree [OF desk_forest, of id "desk_cookie (CHR ''I'')" "''localhost:3000''" 1000 None "''t''" "''u''"] show ?thesis by simp
qed

lemma desk_ancestry: "ancestry (desk_token (CHR ''I'')) desk_auth = [ad_sessions desk_auth ! 2, ad_sessions desk_auth ! 0]"
  by (simp add: desk_own ancestry_def) (simp add: desk_auth_def Let_def numeral_2_eq_2 numeral_3_eq_3)

lemma desk_write:
  "write_identity id (desk_cookie (CHR ''I'')) ''localhost:3000'' None 1000 desk_auth =
   Inr \<lparr>wi_tenantId = ''t'', wi_userId = ''u'', wi_family = [ad_sessions desk_auth ! 2, ad_sessions desk_auth ! 0]\<rparr>"
proof -
  have "strict_session (desk_token (CHR ''I'')) 1000 desk_auth = Some (ad_sessions desk_auth ! 2)"
    unfolding strict_session_def desk_own option.case desk_ancestry
    by (simp add: desk_auth_def Let_def orphan_def numeral_2_eq_2)
  moreover have "sessionTokenHash id (desk_cookie (CHR ''I'')) = Inr (desk_token (CHR ''I''))" by (simp add: desk_hash)
  ultimately show ?thesis
    unfolding write_identity_session write_session_strict by (simp only: desk_slug sum.case option.case desk_ancestry)
      (simp add: desk_auth_def Let_def tenant_row_def role_in_def may_write_def numeral_2_eq_2)
qed

theorem write_admission_witness:
  "\<exists>m \<in> set (ad_members desk_auth). tm_userId m = ''u'' \<and> tm_role m \<in> {Admin, Operator}"
proof -
  have "withAuthorizedWrite id id (desk_cookie (CHR ''I'')) ''localhost:3000'' None 1000 2000 (\<lambda>_ d. (Inr (), d\<lparr>ad_users := []\<rparr>)) desk_auth =
      (Inr (), desk_auth\<lparr>ad_users := []\<rparr>)"
    by (simp add: withAuthorizedWrite_def desk_write recheckExpiry_def unexpired_def) (simp add: desk_auth_def Let_def)
  from write_admission [OF this] show ?thesis by (auto simp: desk_auth_def Let_def)
qed


end
