(* ===== verification/Event_Stream.thy ===== *)
theory Event_Stream
  imports Chat Js_Date
begin
text \<open>
  The event stream of a build, \<open>apps/gateway/src/sse.ts\<close>: the registry that admits streams, and one stream's polling, sending,
  back-pressure and closing. What reaches a stream from outside (its timers, the bytes the socket takes, the result of a read, the end
  of the connection) is a value of \<open>StreamEvent\<close>, and a step answers one of them.
\<close>

subsection \<open>Options\<close>

record SseOptions =
  so_pollMs :: nat
  so_heartbeatMs :: nat
  so_maxMs :: nat
  so_lookbackMs :: nat
  so_maxBufferedBytes :: nat
  so_drainTimeoutMs :: nat

definition DEFAULT_SSE :: SseOptions where
  "DEFAULT_SSE = \<lparr>so_pollMs = 1000, so_heartbeatMs = 15000, so_maxMs = 10 * 60000, so_lookbackMs = 5000,
     so_maxBufferedBytes = 1024 * 1024, so_drainTimeoutMs = 30000\<rparr>"

record StreamLimits =
  sl_perOwner :: nat
  sl_perInstance :: nat

definition DEFAULT_STREAM_LIMITS :: StreamLimits where
  "DEFAULT_STREAM_LIMITS = \<lparr>sl_perOwner = 3, sl_perInstance = 100\<rparr>"

subsection \<open>The registry\<close>

text \<open>A lease is named by its number; \<open>le_closer\<close> says that it registered how to end its stream.\<close>

record Lease =
  le_owner :: string
  le_released :: bool
  le_closer :: bool

record StreamRegistry =
  sr_perOwner :: "(string \<times> nat) list"
  sr_total :: int
  sr_leases :: "Lease list"
  sr_closers :: "nat list"

definition new_registry :: StreamRegistry where
  "new_registry = \<lparr>sr_perOwner = [], sr_total = 0, sr_leases = [], sr_closers = []\<rparr>"

definition owned_streams :: "StreamRegistry \<Rightarrow> string \<Rightarrow> nat" where
  "owned_streams r owner = (case map_of (sr_perOwner r) owner of None \<Rightarrow> 0 | Some n \<Rightarrow> n)"

definition reserve :: "StreamLimits \<Rightarrow> string \<Rightarrow> StreamRegistry \<Rightarrow> nat option \<times> StreamRegistry" where
  "reserve limits owner r =
     (let owned = owned_streams r owner
      in if owned \<ge> sl_perOwner limits \<or> sr_total r \<ge> int (sl_perInstance limits) then (None, r)
         else (Some (length (sr_leases r)),
               r\<lparr>sr_perOwner := map_set owner (owned + 1) (sr_perOwner r), sr_total := sr_total r + 1,
                 sr_leases := sr_leases r @ [\<lparr>le_owner = owner, le_released = False, le_closer = False\<rparr>]\<rparr>))"

definition onClose :: "nat \<Rightarrow> StreamRegistry \<Rightarrow> StreamRegistry" where
  "onClose i r =
     (if i < length (sr_leases r)
      then r\<lparr>sr_leases := (sr_leases r)[i := (sr_leases r ! i)\<lparr>le_closer := True\<rparr>], 
          sr_closers := (if i \<in> set (sr_closers r) then sr_closers r else sr_closers r @ [i])\<rparr>
      else r)"

definition release :: "nat \<Rightarrow> StreamRegistry \<Rightarrow> StreamRegistry" where
  "release i r =
     (if i < length (sr_leases r) \<and> \<not> le_released (sr_leases r ! i) then
        (let lease = sr_leases r ! i; owner = le_owner lease;
             left = int (case map_of (sr_perOwner r) owner of None \<Rightarrow> 1 | Some n \<Rightarrow> n) - 1
         in r\<lparr>sr_leases := (sr_leases r)[i := lease\<lparr>le_released := True\<rparr>],
              sr_total := sr_total r - 1,
              sr_perOwner := (if left \<le> 0 then filter (\<lambda>e. fst e \<noteq> owner) (sr_perOwner r)
                              else map_set owner (nat left) (sr_perOwner r)),
              sr_closers := (if le_closer lease then removeAll i (sr_closers r) else sr_closers r)\<rparr>)
      else r)"

text \<open>Ending a stream releases its lease, so closing all of them is a release for each closer present at the start.\<close>

definition closeAll :: "StreamRegistry \<Rightarrow> StreamRegistry" where
  "closeAll r = fold release (sr_closers r) r"

subsection \<open>The socket\<close>

text \<open>
  A Node stream: \<open>write\<close> buffers the chunk and answers whether the buffer is still below the high-water mark; when it is not,
  the stream needs a drain, which comes when the buffer is empty. \<open>se_bytes\<close> is what a chunk takes on the wire.
\<close>

record ChatMessage =
  cm_id :: string
  cm_role :: ChatRole
  cm_text :: string
  cm_created_at :: string
  cm_client_message_id :: "string option"

datatype BuildEvent = BuildUpdatedEvent BuildStatus "nat option" | MessageCreatedEvent ChatMessage

datatype Chunk = RetryLine | PingComment | EventChunk "Cursor option" BuildEvent

record Socket =
  sk_length :: nat
  sk_needDrain :: bool
  sk_written :: "Chunk list"
  sk_ended :: bool
  sk_destroyed :: bool

record StreamEnv =
  se_options :: SseOptions
  se_highWaterMark :: nat
  se_bytes :: "string \<Rightarrow> nat"

definition toChatMessage :: "MessageRow \<Rightarrow> ChatMessage" where
  "toChatMessage row =
     \<lparr>cm_id = bm_id row, cm_role = bm_role row, cm_text = bm_text row,
      cm_created_at = toISOString (int (bm_createdAt row div 1000)), cm_client_message_id = bm_clientMessageId row\<rparr>"

fun role_name :: "ChatRole \<Rightarrow> string" where
  "role_name ChatUser = ''user''"
| "role_name ChatAssistant = ''assistant''"

fun event_name :: "BuildEvent \<Rightarrow> string" where
  "event_name (BuildUpdatedEvent _ _) = ''build.updated''"
| "event_name (MessageCreatedEvent _) = ''message.created''"

definition message_json :: "ChatMessage \<Rightarrow> jvalue" where
  "message_json m =
     JObj [(''id'', JStr (cm_id m)), (''role'', JStr (role_name (cm_role m))), (''text'', JStr (cm_text m)),
           (''created_at'', JStr (cm_created_at m)),
           (''client_message_id'', (case cm_client_message_id m of None \<Rightarrow> JNull | Some c \<Rightarrow> JStr c))]"

fun event_json :: "BuildEvent \<Rightarrow> jvalue" where
  "event_json (BuildUpdatedEvent st v) =
     JObj [(''status'', JStr (status_name st)), (''spec_version'', (case v of None \<Rightarrow> JNull | Some n \<Rightarrow> JNum (Fin (of_nat n))))]"
| "event_json (MessageCreatedEvent m) = JObj [(''message'', message_json m)]"

fun chunk_text :: "Chunk \<Rightarrow> string" where
  "chunk_text RetryLine = ''retry: 3000\<newline>\<newline>''"
| "chunk_text PingComment = '': ping\<newline>\<newline>''"
| "chunk_text (EventChunk i e) =
     (case i of None \<Rightarrow> [] | Some c \<Rightarrow> ''id: '' @ nat_str (cu_micros c) @ ''.'' @ cu_id c @ ''\<newline>'') @
     ''event: '' @ event_name e @ ''\<newline>data: '' @ (case json_stringify (event_json e) of None \<Rightarrow> ''undefined'' | Some t \<Rightarrow> t) @ ''\<newline>\<newline>''"

definition socket_write :: "StreamEnv \<Rightarrow> Chunk \<Rightarrow> Socket \<Rightarrow> bool \<times> Socket" where
  "socket_write env chunk s =
     (let n = sk_length s + se_bytes env (chunk_text chunk); ok = n < se_highWaterMark env
      in (ok, s\<lparr>sk_length := n, sk_needDrain := sk_needDrain s \<or> \<not> ok, sk_written := sk_written s @ [chunk]\<rparr>))"

subsection \<open>One stream\<close>

datatype DrainResult = Drained | DrainTimedOut

datatype DrainWait = Unsettled | Settled DrainResult

text \<open>Where \<open>loop\<close> stands: its timer is set, it awaits the drain, or it awaits the read.\<close>

datatype LoopPhase = TimerSet | AwaitingDrain | Reading

record BuildStream =
  st_closed :: bool
  st_drainWait :: "DrainWait option"
  st_cursor :: "Cursor option"
  st_lastState :: "(BuildStatus \<times> nat option) option"
  st_sent :: "(string \<times> nat) list"
  st_phase :: LoopPhase
  st_socket :: Socket
  st_releases :: nat

datatype CloseHow = EndStream | DestroyStream

definition close_stream :: "CloseHow \<Rightarrow> BuildStream \<Rightarrow> BuildStream" where
  "close_stream how st =
     (if st_closed st then st
      else st\<lparr>st_closed := True, st_drainWait := None, st_releases := st_releases st + 1,
              st_socket := (case how of EndStream \<Rightarrow> (st_socket st)\<lparr>sk_ended := True\<rparr>
                                      | DestroyStream \<Rightarrow> (st_socket st)\<lparr>sk_destroyed := True\<rparr>)\<rparr>)"

definition send :: "StreamEnv \<Rightarrow> Chunk \<Rightarrow> BuildStream \<Rightarrow> BuildStream" where
  "send env chunk st =
     (if st_closed st then st
      else (let (ok, sk) = socket_write env chunk (st_socket st);
                st1 = st\<lparr>st_socket := sk,
                  st_drainWait := (if \<not> ok \<and> st_drainWait st = None then Some Unsettled else st_drainWait st)\<rparr>
            in if sk_length sk > so_maxBufferedBytes (se_options env) then close_stream DestroyStream st1 else st1))"

definition later_cursor :: "Cursor option \<Rightarrow> Cursor \<Rightarrow> Cursor option" where
  "later_cursor cursor position =
     (case cursor of None \<Rightarrow> Some position | Some c \<Rightarrow> if compareCursors position c > 0 then Some position else Some c)"

text \<open>The body of the loop over a batch.\<close>

definition emit_row :: "StreamEnv \<Rightarrow> Cursor option \<Rightarrow> MessageRow \<Rightarrow> BuildStream \<Rightarrow> BuildStream" where
  "emit_row env resumeFrom row st =
     (case parseCursor (Some (message_cursor row)) of
        None \<Rightarrow> st
      | Some position \<Rightarrow>
          if map_of (st_sent st) (bm_id row) \<noteq> None then st
          else if (case resumeFrom of None \<Rightarrow> False | Some r \<Rightarrow> compareCursors position r \<le> 0) then st
          else send env (EventChunk (Some position) (MessageCreatedEvent (toChatMessage row)))
                 (st\<lparr>st_sent := map_set (bm_id row) (cu_micros position) (st_sent st),
                     st_cursor := later_cursor (st_cursor st) position\<rparr>))"

definition forget_sent :: "StreamEnv \<Rightarrow> BuildStream \<Rightarrow> BuildStream" where
  "forget_sent env st =
     (case st_cursor st of
        None \<Rightarrow> st
      | Some c \<Rightarrow>
          (let floor = int (cu_micros c) - int (so_lookbackMs (se_options env)) * 2000
           in st\<lparr>st_sent := filter (\<lambda>e. \<not> int (snd e) < floor) (st_sent st)\<rparr>))"

fun emit_rows :: "StreamEnv \<Rightarrow> Cursor option \<Rightarrow> MessageRow list \<Rightarrow> BuildStream \<Rightarrow> BuildStream" where
  "emit_rows env resumeFrom [] st = forget_sent env st"
| "emit_rows env resumeFrom (row # rows) st =
     (if st_closed st then st else emit_rows env resumeFrom rows (emit_row env resumeFrom row st))"

text \<open>\<open>poll\<close> after its read, with the \<open>catch\<close> of the loop.\<close>

definition poll_result ::
    "StreamEnv \<Rightarrow> Cursor option \<Rightarrow> js_error + ((BuildStatus \<times> nat option) \<times> MessageRow list) option \<Rightarrow> BuildStream \<Rightarrow> BuildStream" where
  "poll_result env resumeFrom result st =
     (case result of
        Inl _ \<Rightarrow> close_stream EndStream st
      | Inr None \<Rightarrow> close_stream EndStream st
      | Inr (Some (state, rows)) \<Rightarrow>
          (let st1 = (if st_lastState st \<noteq> Some state
                      then (send env (EventChunk (st_cursor st) (BuildUpdatedEvent (fst state) (snd state))) st)\<lparr>st_lastState := Some state\<rparr>
                      else st)
           in emit_rows env resumeFrom rows st1))"

datatype StreamEvent =
    LoopTimer
  | ReadDone "js_error + ((BuildStatus \<times> nat option) \<times> MessageRow list) option"
  | SocketTook nat
  | DrainTimer
  | HeartbeatTimer
  | MaxTimer
  | ConnectionClosed
  | RegistryClose

text \<open>\<open>loop\<close> up to its first wait.\<close>

definition loop_start :: "BuildStream \<Rightarrow> BuildStream" where
  "loop_start st =
     (case st_drainWait st of
        None \<Rightarrow> st\<lparr>st_phase := Reading\<rparr>
      | Some w \<Rightarrow>
          if \<not> sk_needDrain (st_socket st) then st\<lparr>st_drainWait := None, st_phase := Reading\<rparr>
          else (case w of
                  Unsettled \<Rightarrow> st\<lparr>st_phase := AwaitingDrain\<rparr>
                | Settled Drained \<Rightarrow> st\<lparr>st_drainWait := None, st_phase := Reading\<rparr>
                | Settled DrainTimedOut \<Rightarrow> close_stream DestroyStream (st\<lparr>st_drainWait := None\<rparr>)))"

text \<open>The waiter settles, and the loop goes on where it awaited it.\<close>

definition settle :: "DrainResult \<Rightarrow> BuildStream \<Rightarrow> BuildStream" where
  "settle result st =
     (if st_drainWait st \<noteq> Some Unsettled then st
      else if st_phase st \<noteq> AwaitingDrain then st\<lparr>st_drainWait := Some (Settled result)\<rparr>
      else (case result of
              Drained \<Rightarrow> st\<lparr>st_drainWait := None, st_phase := Reading\<rparr>
            | DrainTimedOut \<Rightarrow> close_stream DestroyStream (st\<lparr>st_drainWait := None\<rparr>)))"

definition socket_took :: "nat \<Rightarrow> BuildStream \<Rightarrow> BuildStream" where
  "socket_took n st =
     (let s = st_socket st; left = sk_length s - n; drain = (left = 0 \<and> sk_needDrain s);
          st1 = st\<lparr>st_socket := s\<lparr>sk_length := left, sk_needDrain := sk_needDrain s \<and> \<not> drain\<rparr>\<rparr>
      in if drain then settle Drained st1 else st1)"

fun stream_step :: "StreamEnv \<Rightarrow> Cursor option \<Rightarrow> StreamEvent \<Rightarrow> BuildStream \<Rightarrow> BuildStream" where
  "stream_step env resumeFrom LoopTimer st =
     (if st_closed st \<or> st_phase st \<noteq> TimerSet then st else loop_start st)"
| "stream_step env resumeFrom (ReadDone r) st =
     (if st_phase st \<noteq> Reading then st else (poll_result env resumeFrom r st)\<lparr>st_phase := TimerSet\<rparr>)"
| "stream_step env resumeFrom (SocketTook n) st = socket_took n st"
| "stream_step env resumeFrom DrainTimer st = settle DrainTimedOut st"
| "stream_step env resumeFrom HeartbeatTimer st =
     (if st_closed st \<or> sk_needDrain (st_socket st) then st else send env PingComment st)"
| "stream_step env resumeFrom MaxTimer st = close_stream EndStream st"
| "stream_step env resumeFrom ConnectionClosed st = close_stream EndStream st"
| "stream_step env resumeFrom RegistryClose st = close_stream EndStream st"

text \<open>\<open>streamBuildEvents\<close>: the headers and the retry line go out, and the loop starts.\<close>

definition streamBuildEvents :: "StreamEnv \<Rightarrow> string option \<Rightarrow> BuildStream" where
  "streamBuildEvents env lastEventId =
     (let st = send env RetryLine
        \<lparr>st_closed = False, st_drainWait = None, st_cursor = parseCursor lastEventId, st_lastState = None, st_sent = [],
         st_phase = TimerSet, st_socket = \<lparr>sk_length = 0, sk_needDrain = False, sk_written = [], sk_ended = False, sk_destroyed = False\<rparr>,
         st_releases = 0\<rparr>
      in if st_closed st then st else loop_start st)"

definition stream_run :: "StreamEnv \<Rightarrow> string option \<Rightarrow> StreamEvent list \<Rightarrow> BuildStream" where
  "stream_run env lastEventId es = fold (stream_step env (parseCursor lastEventId)) es (streamBuildEvents env lastEventId)"


subsection \<open>Admission\<close>

text \<open>What the registry stands for: the owners of the streams that are open, with multiplicity.\<close>

definition active :: "StreamRegistry \<Rightarrow> string multiset" where
  "active r = image_mset le_owner (filter_mset (\<lambda>l. \<not> le_released l) (mset (sr_leases r)))"

definition registry_ok :: "StreamLimits \<Rightarrow> StreamRegistry \<Rightarrow> bool" where
  "registry_ok limits r \<longleftrightarrow>
     sr_total r = int (size (active r)) \<and> distinct (map fst (sr_perOwner r)) \<and>
     (\<forall>owner. owned_streams r owner = count (active r) owner) \<and>
     (\<forall>owner. count (active r) owner \<le> sl_perOwner limits) \<and> size (active r) \<le> sl_perInstance limits"

lemma active_update:
  assumes "i < length ls"
  shows "image_mset le_owner (filter_mset (\<lambda>l. \<not> le_released l) (mset (ls[i := l]))) =
    image_mset le_owner (filter_mset (\<lambda>l. \<not> le_released l) (mset ls))
      - (if le_released (ls ! i) then {#} else {#le_owner (ls ! i)#}) + (if le_released l then {#} else {#le_owner l#})"
proof -
  have "mset ls = add_mset (ls ! i) (mset ls - {#ls ! i#})" using assms by simp
  then show ?thesis using assms by (subst mset_update) (auto simp: filter_diff_mset image_mset_Diff)
qed

lemma active_onClose [simp]: "active (onClose i r) = active r"
proof (cases "i < length (sr_leases r)")
  case True
  have "le_owner (sr_leases r ! i) \<in># active r" if "\<not> le_released (sr_leases r ! i)"
    using that True by (auto simp: active_def)
  with True show ?thesis by (auto simp: onClose_def active_def active_update)
qed (simp add: onClose_def)

lemma registry_ok_onClose: "registry_ok limits r \<Longrightarrow> registry_ok limits (onClose i r)"
  by (simp add: registry_ok_def) (simp add: onClose_def owned_streams_def)

lemma reserve_active:
  assumes "registry_ok limits r"
  shows "fst (reserve limits owner r) = None \<longleftrightarrow> sl_perOwner limits \<le> count (active r) owner \<or> sl_perInstance limits \<le> size (active r)"
    "active (snd (reserve limits owner r)) = (if fst (reserve limits owner r) = None then active r else add_mset owner (active r))"
    "registry_ok limits (snd (reserve limits owner r))"
proof -
  have own: "owned_streams r owner = count (active r) owner" and total: "sr_total r = int (size (active r))"
    using assms by (auto simp: registry_ok_def)
  show none: "fst (reserve limits owner r) = None \<longleftrightarrow> sl_perOwner limits \<le> count (active r) owner \<or> sl_perInstance limits \<le> size (active r)"
    by (auto simp: reserve_def Let_def own total)
  show act: "active (snd (reserve limits owner r)) = (if fst (reserve limits owner r) = None then active r else add_mset owner (active r))"
    by (auto simp: reserve_def Let_def active_def)
  show "registry_ok limits (snd (reserve limits owner r))"
  proof (cases "fst (reserve limits owner r) = None")
    case True
    then have "snd (reserve limits owner r) = r" by (auto simp: reserve_def Let_def split: if_splits)
    with assms show ?thesis by simp
  next
    case False
    with none have lt: "count (active r) owner < sl_perOwner limits" "size (active r) < sl_perInstance limits" by auto
    have "snd (reserve limits owner r) =
        r\<lparr>sr_perOwner := map_set owner (owned_streams r owner + 1) (sr_perOwner r), sr_total := sr_total r + 1,
          sr_leases := sr_leases r @ [\<lparr>le_owner = owner, le_released = False, le_closer = False\<rparr>]\<rparr>"
      using False by (auto simp: reserve_def Let_def split: if_splits)
    then show ?thesis
      using assms lt False act by (auto simp: registry_ok_def distinct_keys_map_set owned_streams_def)
  qed
qed

lemma release_active:
  assumes "registry_ok limits r"
  shows "active (release i r) =
      active r - (if i < length (sr_leases r) \<and> \<not> le_released (sr_leases r ! i) then {#le_owner (sr_leases r ! i)#} else {#})"
    "registry_ok limits (release i r)"
proof -
  let ?live = "i < length (sr_leases r) \<and> \<not> le_released (sr_leases r ! i)" and ?o = "le_owner (sr_leases r ! i)"
  show act: "active (release i r) = active r - (if ?live then {#?o#} else {#})"
    by (auto simp: release_def Let_def active_def active_update)
  show "registry_ok limits (release i r)"
  proof (cases ?live)
    case True
    then have mem: "?o \<in># active r" by (auto simp: active_def)
    have owned: "owned_streams r owner = count (active r) owner" for owner using assms by (auto simp: registry_ok_def)
    from mem obtain n where "count (active r) ?o = Suc n" by (metis count_greater_zero_iff gr0_conv_Suc)
    with owned [of ?o] have some: "map_of (sr_perOwner r) ?o = Some (count (active r) ?o)"
      by (cases "map_of (sr_perOwner r) ?o") (auto simp: owned_streams_def)
    have d: "distinct (map fst (sr_perOwner r))" using assms by (simp add: registry_ok_def)
    have "sr_perOwner (release i r) =
        (if n = 0 then filter (\<lambda>e. fst e \<noteq> ?o) (sr_perOwner r) else map_set ?o n (sr_perOwner r))"
      using True some \<open>count (active r) ?o = Suc n\<close> by (simp add: release_def Let_def)
    then have "owned_streams (release i r) owner = (if owner = ?o then n else owned_streams r owner)" for owner
      using d by (auto simp: owned_streams_def map_of_filter_distinct split: option.splits)
    then have "owned_streams (release i r) owner = count (active (release i r)) owner" for owner
      using True owned [of owner] \<open>count (active r) ?o = Suc n\<close> by (simp add: act)
    moreover have "distinct (map fst (sr_perOwner (release i r)))"
      using assms by (auto simp: release_def Let_def registry_ok_def distinct_keys_map_set distinct_map_filter)
    moreover have "sr_total (release i r) = int (size (active r - {#?o#}))"
      using True assms size_Suc_Diff1 [OF mem] by (simp add: release_def Let_def registry_ok_def)
    moreover have "count (active r - {#?o#}) owner \<le> sl_perOwner limits" for owner
      using assms by (auto simp: registry_ok_def intro: order.trans [OF diff_le_self])
    moreover have "size (active r - {#?o#}) \<le> sl_perInstance limits"
      using assms mem by (auto simp: registry_ok_def size_Diff_singleton)
    ultimately show ?thesis using True by (simp add: registry_ok_def act)
  next
    case False
    then have "release i r = r" by (auto simp: release_def)
    with assms show ?thesis by simp
  qed
qed

datatype RegistryOp = Reserve string | OnClose nat | Release nat | CloseAll

fun registry_op :: "StreamLimits \<Rightarrow> RegistryOp \<Rightarrow> StreamRegistry \<Rightarrow> StreamRegistry" where
  "registry_op limits (Reserve owner) r = snd (reserve limits owner r)"
| "registry_op limits (OnClose i) r = onClose i r"
| "registry_op limits (Release i) r = release i r"
| "registry_op limits CloseAll r = closeAll r"

definition registry_run :: "StreamLimits \<Rightarrow> RegistryOp list \<Rightarrow> StreamRegistry" where
  "registry_run limits ops = fold (registry_op limits) ops new_registry"

text \<open>A registered closer stays in the set until its lease is released.\<close>

definition closers_ok :: "StreamRegistry \<Rightarrow> bool" where
  "closers_ok r \<longleftrightarrow> (\<forall>i < length (sr_leases r). le_closer (sr_leases r ! i) \<and> \<not> le_released (sr_leases r ! i) \<longrightarrow> i \<in> set (sr_closers r))"

lemma release_leases:
  "sr_leases (release i r) =
     (if i < length (sr_leases r) then (sr_leases r)[i := (sr_leases r ! i)\<lparr>le_released := True\<rparr>] else sr_leases r)"
  by (auto simp: release_def Let_def intro!: nth_equalityI) (auto simp: nth_list_update)

lemma fold_release:
  "registry_ok limits r \<Longrightarrow> registry_ok limits (fold release is r)"
  "length (sr_leases (fold release is r)) = length (sr_leases r)"
  "j < length (sr_leases r) \<Longrightarrow> sr_leases (fold release is r) ! j =
     (sr_leases r ! j)\<lparr>le_released := le_released (sr_leases r ! j) \<or> j \<in> set is\<rparr>"
  by (induction "is" arbitrary: r) (auto simp: release_active(2) release_leases nth_list_update)

lemma closers_ok_release: "closers_ok r \<Longrightarrow> closers_ok (release i r)"
  by (auto simp: closers_ok_def release_def Let_def nth_list_update)

lemma registry_run_ok: "registry_ok limits (registry_run limits ops) \<and> closers_ok (registry_run limits ops)"
proof (induction ops rule: rev_induct)
  case Nil
  then show ?case by (simp add: registry_run_def new_registry_def registry_ok_def closers_ok_def active_def owned_streams_def)
next
  case (snoc op ops)
  define r where "r = registry_run limits ops"
  have ok: "registry_ok limits r" and closers: "closers_ok r" using snoc by (simp_all add: r_def)
  have "registry_ok limits (registry_op limits op r) \<and> closers_ok (registry_op limits op r)"
  proof (cases op)
    case (Reserve owner)
    have "closers_ok (snd (reserve limits owner r))"
      using closers by (auto simp: closers_ok_def reserve_def Let_def nth_append less_Suc_eq)
    with Reserve reserve_active(3) [OF ok] show ?thesis by simp
  next
    case (OnClose i)
    have "closers_ok (onClose i r)" using closers by (auto simp: closers_ok_def onClose_def nth_list_update)
    with OnClose registry_ok_onClose [OF ok] show ?thesis by simp
  next
    case (Release i)
    then show ?thesis using release_active(2) [OF ok] closers_ok_release [OF closers] by simp
  next
    case CloseAll
    have "closers_ok (fold release is r)" for "is"
      using closers by (induction "is" arbitrary: r) (auto simp: closers_ok_release)
    with CloseAll fold_release(1) [OF ok] show ?thesis by (simp add: closeAll_def)
  qed
  then show ?case by (simp add: registry_run_def r_def)
qed

text \<open>
  Whatever streams were admitted, released (more than once too) and closed, the registry behaves as the multiset of the
  owners of the open streams: it refuses an owner exactly when the owner or the instance is at its limit, admitting adds the owner,
  releasing takes it away once, the limits are never passed, and \<open>closeAll\<close> leaves no stream open that registered its end.
\<close>

theorem stream_admission:
  "let r = registry_run limits ops in
     (fst (reserve limits owner r) = None \<longleftrightarrow> count (active r) owner \<ge> sl_perOwner limits \<or> size (active r) \<ge> sl_perInstance limits) \<and>
     active (snd (reserve limits owner r)) = (if fst (reserve limits owner r) = None then active r else add_mset owner (active r)) \<and>
     active (release i r) =
       active r - (if i < length (sr_leases r) \<and> \<not> le_released (sr_leases r ! i) then {#le_owner (sr_leases r ! i)#} else {#}) \<and>
     release i (release i r) = release i r \<and>
     count (active r) owner \<le> sl_perOwner limits \<and> size (active r) \<le> sl_perInstance limits \<and>
     filter (\<lambda>l. le_closer l \<and> \<not> le_released l) (sr_leases (closeAll r)) = []"
proof -
  define r where "r = registry_run limits ops"
  have ok: "registry_ok limits r" and closers: "closers_ok r" using registry_run_ok by (auto simp: r_def)
  have "le_released l" if "l \<in> set (sr_leases (closeAll r))" "le_closer l" for l
  proof -
    from that obtain j where j: "j < length (sr_leases r)" "l = sr_leases (closeAll r) ! j"
      by (auto simp: in_set_conv_nth closeAll_def fold_release)
    with that(2) closers show ?thesis by (auto simp: closeAll_def fold_release closers_ok_def)
  qed
  then have "filter (\<lambda>l. le_closer l \<and> \<not> le_released l) (sr_leases (closeAll r)) = []" by (auto simp: filter_empty_conv)
  moreover have "release i (release i r) = release i r" by (auto simp: release_def Let_def)
  moreover have "count (active r) owner \<le> sl_perOwner limits" "size (active r) \<le> sl_perInstance limits"
    using ok by (auto simp: registry_ok_def)
  ultimately show ?thesis
    using reserve_active(1,2) [OF ok, of owner] release_active(1) [OF ok, of i] unfolding r_def [symmetric] Let_def by blast
qed

subsection \<open>Sending and closing\<close>

definition open_bounded :: "StreamEnv \<Rightarrow> BuildStream \<Rightarrow> bool" where
  "open_bounded env st \<longleftrightarrow>
     st_releases st = (if st_closed st then 1 else 0) \<and>
     (\<not> st_closed st \<longrightarrow> sk_length (st_socket st) \<le> so_maxBufferedBytes (se_options env) \<and>
        \<not> sk_ended (st_socket st) \<and> \<not> sk_destroyed (st_socket st))"

lemma open_bounded_close: "open_bounded env st \<Longrightarrow> open_bounded env (close_stream how st)"
  by (auto simp: open_bounded_def close_stream_def)

lemma close_closed [simp]: "st_closed (close_stream how st)"
  by (simp add: close_stream_def)

lemma open_bounded_drop: "open_bounded env st \<Longrightarrow> open_bounded env (st\<lparr>st_drainWait := w, st_phase := p\<rparr>)"
  "open_bounded env st \<Longrightarrow> open_bounded env (st\<lparr>st_drainWait := w\<rparr>)"
  "open_bounded env st \<Longrightarrow> open_bounded env (st\<lparr>st_phase := p\<rparr>)"
  "open_bounded env st \<Longrightarrow> open_bounded env (st\<lparr>st_lastState := l\<rparr>)"
  "open_bounded env st \<Longrightarrow> open_bounded env (st\<lparr>st_sent := x\<rparr>)"
  "open_bounded env st \<Longrightarrow> open_bounded env (st\<lparr>st_sent := x, st_cursor := c\<rparr>)"
  by (simp_all add: open_bounded_def)

lemma open_bounded_send: "open_bounded env st \<Longrightarrow> open_bounded env (send env chunk st)"
  by (auto simp: send_def Let_def case_prod_beta open_bounded_def socket_write_def close_stream_def)

lemma open_bounded_emit: "open_bounded env st \<Longrightarrow> open_bounded env (emit_row env rf row st)"
  by (auto simp: emit_row_def split: option.splits intro!: open_bounded_send open_bounded_drop)

lemma open_bounded_rows: "open_bounded env st \<Longrightarrow> open_bounded env (emit_rows env rf rows st)"
  by (induction env rf rows st rule: emit_rows.induct)
     (auto simp: open_bounded_emit forget_sent_def Let_def open_bounded_drop split: option.splits)

lemma open_bounded_step:
  assumes "open_bounded env st"
  shows "open_bounded env (stream_step env rf e st)"
proof -
  have settle: "open_bounded env (settle d st)" if "open_bounded env st" for d st
    using that by (auto simp: settle_def split: DrainResult.splits intro!: open_bounded_close open_bounded_drop)
  have start: "open_bounded env (loop_start st)"
    using assms by (auto simp: loop_start_def split: option.splits DrainWait.splits DrainResult.splits intro!: open_bounded_close open_bounded_drop)
  have took: "open_bounded env (socket_took n st)" for n
    using assms by (auto simp: socket_took_def Let_def intro!: settle) (auto simp: open_bounded_def)
  show ?thesis
    using assms start took settle
    by (cases e)
       (auto simp: poll_result_def Let_def open_bounded_close split: sum.splits option.splits prod.splits
          intro!: open_bounded_rows open_bounded_send open_bounded_drop)
qed

text \<open>
  C29. However its timers, reads, drains and disconnects interleave, a stream gives its lease back exactly when it closes and never
  twice, and while it is open its connection is neither ended nor destroyed and holds at most the buffered bytes the options allow.
\<close>

theorem stream_lease_and_buffer:
  "let st = stream_run env lastEventId es in
     st_releases st = (if st_closed st then 1 else 0) \<and>
     (if st_closed st then True
      else sk_length (st_socket st) \<le> so_maxBufferedBytes (se_options env) \<and> \<not> sk_ended (st_socket st) \<and> \<not> sk_destroyed (st_socket st))"
proof -
  have "open_bounded env (streamBuildEvents env lastEventId)"
    by (auto simp: streamBuildEvents_def send_def Let_def socket_write_def open_bounded_def close_stream_def loop_start_def
        split: option.splits DrainWait.splits DrainResult.splits)
  then have "open_bounded env (fold (stream_step env rf) es (streamBuildEvents env lastEventId))" for rf
    by (induction es rule: rev_induct) (auto simp: open_bounded_step)
  then show ?thesis by (simp add: stream_run_def open_bounded_def Let_def)
qed

subsection \<open>What a stream delivers\<close>

fun chunk_message :: "Chunk \<Rightarrow> string option" where
  "chunk_message (EventChunk _ (MessageCreatedEvent m)) = Some (cm_id m)"
| "chunk_message _ = None"

definition delivered :: "BuildStream \<Rightarrow> string list" where
  "delivered st = List.map_filter chunk_message (sk_written (st_socket st))"

definition resumes_after :: "Cursor option \<Rightarrow> MessageRow \<Rightarrow> bool" where
  "resumes_after rf m = (case rf of None \<Rightarrow> True | Some c \<Rightarrow> (cu_micros c, cu_id c) < message_key m)"

text \<open>The position of a message, and the cursors it is read with.\<close>

abbreviation position_of :: "MessageRow \<Rightarrow> Cursor" where
  "position_of m \<equiv> \<lparr>cu_micros = bm_createdAt m, cu_id = bm_id m\<rparr>"

definition lookback_window :: "StreamEnv \<Rightarrow> Cursor option \<Rightarrow> MessageRow \<Rightarrow> bool" where
  "lookback_window env cursor m =
     (case cursor of None \<Rightarrow> True
      | Some c \<Rightarrow> int (bm_createdAt m) > int (cu_micros c) - 1000 * int (so_lookbackMs (se_options env)))"

definition remembered :: "StreamEnv \<Rightarrow> Cursor option \<Rightarrow> MessageRow \<Rightarrow> bool" where
  "remembered env cursor m =
     (case cursor of None \<Rightarrow> True
      | Some c \<Rightarrow> \<not> int (bm_createdAt m) < int (cu_micros c) - int (so_lookbackMs (se_options env)) * 2000)"

text \<open>The tables a stream can read: keys unique, every message of the build at a position the cursor format can hold.\<close>

definition stream_db :: "ChatDb \<Rightarrow> string \<Rightarrow> bool" where
  "stream_db db b \<longleftrightarrow> distinct (map bm_id (cdb_messages db)) \<and>
     (\<forall>m \<in> set (cdb_messages db). bm_buildId m = b \<longrightarrow> rx_full (uuid_of hex_low) (bm_id m) \<and> bm_createdAt m < 10 ^ 19)"

lemma delivered_simps [simp]:
  "delivered (close_stream how st) = delivered st"
  "delivered (st\<lparr>st_closed := x1\<rparr>) = delivered st"
  "delivered (st\<lparr>st_drainWait := x2\<rparr>) = delivered st"
  "delivered (st\<lparr>st_cursor := x3\<rparr>) = delivered st"
  "delivered (st\<lparr>st_lastState := x4\<rparr>) = delivered st"
  "delivered (st\<lparr>st_sent := x5\<rparr>) = delivered st"
  "delivered (st\<lparr>st_phase := x6\<rparr>) = delivered st"
  by (auto simp: delivered_def close_stream_def split: CloseHow.splits)

lemma close_stream_fields [simp]:
  "st_cursor (close_stream how st) = st_cursor st" "st_sent (close_stream how st) = st_sent st"
  "st_phase (close_stream how st) = st_phase st"
  by (simp_all add: close_stream_def)

lemma send_fields [simp]:
  "st_cursor (send env chunk st) = st_cursor st" "st_sent (send env chunk st) = st_sent st"
  "st_phase (send env chunk st) = st_phase st"
  "delivered (send env chunk st) =
     delivered st @ (if st_closed st then [] else case chunk_message chunk of None \<Rightarrow> [] | Some i \<Rightarrow> [i])"
  by (auto simp: send_def Let_def socket_write_def close_stream_def delivered_def List.map_filter_def split: option.splits)

lemma send_closed: "st_closed st \<Longrightarrow> send env chunk st = st"
  by (simp add: send_def)

text \<open>
  The connection's bookkeeping against the messages \<open>M\<close> it may show: \<open>W\<close> says which delivered messages the batch at hand can show
  again, and those must still be among the ids sent.
\<close>

definition sent_inv :: "StreamEnv \<Rightarrow> Cursor option \<Rightarrow> MessageRow set \<Rightarrow> (MessageRow \<Rightarrow> bool) \<Rightarrow> BuildStream \<Rightarrow> bool" where
  "sent_inv env rf M W st \<longleftrightarrow>
     distinct (delivered st) \<and> distinct (map fst (st_sent st)) \<and>
     (\<forall>i \<in> set (delivered st). \<exists>m \<in> M. bm_id m = i \<and> resumes_after rf m) \<and>
     (\<forall>m \<in> M. bm_id m \<in> set (delivered st) \<and> (W m \<or> remembered env (st_cursor st) m) \<longrightarrow> map_of (st_sent st) (bm_id m) = Some (bm_createdAt m)) \<and>
     fst ` set (st_sent st) \<subseteq> set (delivered st) \<and>
     (st_cursor st = rf \<or> (\<exists>m \<in> M. bm_id m \<in> set (delivered st) \<and> st_cursor st = Some (position_of m)))"

lemma compareCursors_key:
  "compareCursors a c = compare_lt (cu_micros a, cu_id a) (cu_micros c, cu_id c)"
  by (auto simp: compareCursors_def compare_lt_def)

lemma remembered_later: "remembered env (later_cursor c p) m \<Longrightarrow> remembered env c m"
  by (auto simp: remembered_def later_cursor_def compareCursors_key compare_lt_def less_prod_def split: option.splits if_splits)

lemma emit_row_eq:
  assumes "rx_full (uuid_of hex_low) (bm_id m)" "bm_createdAt m < 10 ^ 19"
  shows "emit_row env rf m st =
    (if map_of (st_sent st) (bm_id m) \<noteq> None \<or> \<not> resumes_after rf m then st
     else send env (EventChunk (Some (position_of m)) (MessageCreatedEvent (toChatMessage m)))
            (st\<lparr>st_sent := map_set (bm_id m) (bm_createdAt m) (st_sent st), st_cursor := later_cursor (st_cursor st) (position_of m)\<rparr>))"
  unfolding emit_row_def parse_message_cursor [OF assms]
  by (auto simp: resumes_after_def compareCursors_key not_le split: option.splits)

lemma emit_row_inv:
  assumes inv: "sent_inv env rf M W st" and m: "m \<in> M" "W m" "rx_full (uuid_of hex_low) (bm_id m)" "bm_createdAt m < 10 ^ 19"
    and inj: "inj_on bm_id M" and "\<not> st_closed st"
  shows "sent_inv env rf M W (emit_row env rf m st)" "resumes_after rf m \<Longrightarrow> bm_id m \<in> set (delivered (emit_row env rf m st))"
    "set (delivered st) \<subseteq> set (delivered (emit_row env rf m st))"
proof -
  let ?st = "emit_row env rf m st"
  consider (old) "map_of (st_sent st) (bm_id m) \<noteq> None" | (before) "map_of (st_sent st) (bm_id m) = None" "\<not> resumes_after rf m"
    | (new) "map_of (st_sent st) (bm_id m) = None" "resumes_after rf m" by blast
  then have "sent_inv env rf M W ?st \<and> (resumes_after rf m \<longrightarrow> bm_id m \<in> set (delivered ?st)) \<and> set (delivered st) \<subseteq> set (delivered ?st)"
  proof cases
    case old
    then have eq: "?st = st" by (simp add: emit_row_eq [OF m(3,4)])
    from old have "bm_id m \<in> fst ` set (st_sent st)" by (auto simp: map_of_eq_None_iff)
    with inv eq show ?thesis by (auto simp: sent_inv_def)
  next
    case before
    then have eq: "?st = st" by (simp add: emit_row_eq [OF m(3,4)])
    with inv before show ?thesis by simp
  next
    case new
    have fresh: "bm_id m \<notin> set (delivered st)"
      using inv m new(1) unfolding sent_inv_def by (metis option.distinct(1))
    have eq: "delivered ?st = delivered st @ [bm_id m]" "st_sent ?st = map_set (bm_id m) (bm_createdAt m) (st_sent st)"
        "st_cursor ?st = later_cursor (st_cursor st) (position_of m)"
      using new \<open>\<not> st_closed st\<close> by (simp_all add: emit_row_eq [OF m(3,4)] toChatMessage_def)
    have known: "map_of (st_sent ?st) (bm_id x) = Some (bm_createdAt x)"
      if "x \<in> M" "bm_id x \<in> set (delivered ?st)" "W x \<or> remembered env (st_cursor ?st) x" for x
    proof (cases "x = m")
      case False
      then have "bm_id x \<noteq> bm_id m" using inj that(1) m(1) by (auto dest: inj_onD)
      with that inv eq remembered_later [of env "st_cursor st" "position_of m" x] show ?thesis by (auto simp: sent_inv_def)
    qed (simp add: eq)
    have cursor: "st_cursor ?st = rf \<or> (\<exists>x \<in> M. bm_id x \<in> set (delivered ?st) \<and> st_cursor ?st = Some (position_of x))"
      using inv m(1) by (auto simp: sent_inv_def eq later_cursor_def split: option.splits if_splits)
    have "fst ` set (st_sent ?st) \<subseteq> set (delivered ?st)"
      using inv unfolding eq keys_map_set by (auto simp: sent_inv_def)
    with known cursor inv fresh m(1) new(2) show ?thesis
      unfolding sent_inv_def by (auto simp: eq distinct_keys_map_set)
  qed
  then show "sent_inv env rf M W ?st" "resumes_after rf m \<Longrightarrow> bm_id m \<in> set (delivered ?st)"
    "set (delivered st) \<subseteq> set (delivered ?st)" by auto
qed

lemma forget_sent_inv:
  assumes "sent_inv env rf M W st"
  shows "sent_inv env rf M (\<lambda>_. False) (forget_sent env st)"
    "delivered (forget_sent env st) = delivered st" "st_cursor (forget_sent env st) = st_cursor st"
proof -
  show d: "delivered (forget_sent env st) = delivered st" and c: "st_cursor (forget_sent env st) = st_cursor st"
    by (simp_all add: forget_sent_def Let_def split: option.splits)
  have "map_of (st_sent (forget_sent env st)) (bm_id m) = Some (bm_createdAt m)"
    if "m \<in> M" "bm_id m \<in> set (delivered st)" "remembered env (st_cursor st) m" for m
  proof -
    have "map_of (st_sent st) (bm_id m) = Some (bm_createdAt m)" "distinct (map fst (st_sent st))"
      using assms that by (auto simp: sent_inv_def)
    with that(3) show ?thesis
      by (auto simp: forget_sent_def Let_def map_of_filter_distinct remembered_def split: option.splits)
  qed
  moreover have "fst ` set (st_sent (forget_sent env st)) \<subseteq> fst ` set (st_sent st)" "distinct (map fst (st_sent (forget_sent env st)))"
    using assms by (auto simp: forget_sent_def Let_def sent_inv_def distinct_map_filter split: option.splits)
  ultimately show "sent_inv env rf M (\<lambda>_. False) (forget_sent env st)"
    using assms unfolding sent_inv_def d c by blast
qed

lemma emit_rows_inv:
  assumes "sent_inv env rf M W st" "inj_on bm_id M"
    and "\<forall>m \<in> set rows. m \<in> M \<and> W m \<and> rx_full (uuid_of hex_low) (bm_id m) \<and> bm_createdAt m < 10 ^ 19"
  shows "sent_inv env rf M (\<lambda>_. False) (emit_rows env rf rows st)"
    "set (delivered st) \<subseteq> set (delivered (emit_rows env rf rows st))"
    "st_closed st \<Longrightarrow> st_closed (emit_rows env rf rows st)"
    "\<not> st_closed (emit_rows env rf rows st) \<Longrightarrow>
       \<forall>m \<in> set rows. resumes_after rf m \<longrightarrow> bm_id m \<in> set (delivered (emit_rows env rf rows st))"
proof -
  have "sent_inv env rf M (\<lambda>_. False) (emit_rows env rf rows st) \<and>
    set (delivered st) \<subseteq> set (delivered (emit_rows env rf rows st)) \<and>
    (st_closed st \<longrightarrow> st_closed (emit_rows env rf rows st)) \<and>
    (\<not> st_closed (emit_rows env rf rows st) \<longrightarrow>
       (\<forall>m \<in> set rows. resumes_after rf m \<longrightarrow> bm_id m \<in> set (delivered (emit_rows env rf rows st))))"
    using assms
  proof (induction rows arbitrary: st)
    case Nil
    from forget_sent_inv [OF Nil(1)] show ?case
      by (auto simp: forget_sent_def Let_def split: option.splits)
  next
    case (Cons m rows)
    show ?case
    proof (cases "st_closed st")
      case True
      with Cons.prems show ?thesis by (auto simp: sent_inv_def)
    next
      case False
      from Cons.prems(3) have m: "m \<in> M" "W m" "rx_full (uuid_of hex_low) (bm_id m)" "bm_createdAt m < 10 ^ 19" by auto
      note row = emit_row_inv [OF Cons.prems(1) m Cons.prems(2) False]
      have "\<forall>m \<in> set rows. m \<in> M \<and> W m \<and> rx_full (uuid_of hex_low) (bm_id m) \<and> bm_createdAt m < 10 ^ 19"
        using Cons.prems(3) by auto
      from Cons.IH [OF row(1) Cons.prems(2) this] row(2,3) False show ?thesis by auto
    qed
  qed
  then show "sent_inv env rf M (\<lambda>_. False) (emit_rows env rf rows st)"
    "set (delivered st) \<subseteq> set (delivered (emit_rows env rf rows st))"
    "st_closed st \<Longrightarrow> st_closed (emit_rows env rf rows st)"
    "\<not> st_closed (emit_rows env rf rows st) \<Longrightarrow>
       \<forall>m \<in> set rows. resumes_after rf m \<longrightarrow> bm_id m \<in> set (delivered (emit_rows env rf rows st))" by blast+
qed

lemma emit_rows_cursor:
  assumes "\<forall>m \<in> set rows. rx_full (uuid_of hex_low) (bm_id m) \<and> bm_createdAt m < 10 ^ 19"
  shows "st_cursor (emit_rows env rf rows st) = st_cursor st \<or> (\<exists>m \<in> set rows. st_cursor (emit_rows env rf rows st) = Some (position_of m))"
  using assms
proof (induction rows arbitrary: st)
  case Nil
  then show ?case by (simp add: forget_sent_def Let_def split: option.splits)
next
  case (Cons m rows)
  have "st_cursor (emit_row env rf m st) = st_cursor st \<or> st_cursor (emit_row env rf m st) = Some (position_of m)"
    using Cons.prems by (auto simp: emit_row_eq later_cursor_def split: option.splits)
  with Cons.IH [of "emit_row env rf m st"] Cons.prems show ?case by auto
qed

lemma sent_inv_window: "sent_inv env rf M (\<lambda>_. False) st \<Longrightarrow> sent_inv env rf M (lookback_window env (st_cursor st)) st"
proof -
  have "remembered env c m" if "lookback_window env c m" for c m
    using that by (auto simp: remembered_def lookback_window_def split: option.splits)
  then show "sent_inv env rf M (\<lambda>_. False) st \<Longrightarrow> sent_inv env rf M (lookback_window env (st_cursor st)) st"
    unfolding sent_inv_def by blast
qed

lemma sent_inv_cong:
  "delivered st' = delivered st \<Longrightarrow> st_sent st' = st_sent st \<Longrightarrow> st_cursor st' = st_cursor st \<Longrightarrow> sent_inv env rf M W st' = sent_inv env rf M W st"
  by (simp add: sent_inv_def)

text \<open>Events other than the end of a read deliver nothing.\<close>

lemma other_events:
  assumes "\<nexists>r. e = ReadDone r"
  shows "delivered (stream_step env rf e st) = delivered st" "st_sent (stream_step env rf e st) = st_sent st"
    "st_cursor (stream_step env rf e st) = st_cursor st"
    "st_phase st = Reading \<Longrightarrow> st_phase (stream_step env rf e st) = Reading"
    "st_closed st \<Longrightarrow> st_closed (stream_step env rf e st)"
proof -
  have settle: "delivered (settle d st) = delivered st" "st_sent (settle d st) = st_sent st" "st_cursor (settle d st) = st_cursor st"
      "st_phase st = Reading \<Longrightarrow> st_phase (settle d st) = Reading" "st_closed st \<Longrightarrow> st_closed (settle d st)" for d st
    by (auto simp: settle_def split: DrainResult.splits)
  have start: "delivered (loop_start st) = delivered st" "st_sent (loop_start st) = st_sent st" "st_cursor (loop_start st) = st_cursor st"
    by (auto simp: loop_start_def split: option.splits DrainWait.splits DrainResult.splits)
  have took: "delivered (socket_took n st) = delivered st" "st_sent (socket_took n st) = st_sent st" "st_cursor (socket_took n st) = st_cursor st"
      "st_phase st = Reading \<Longrightarrow> st_phase (socket_took n st) = Reading" "st_closed st \<Longrightarrow> st_closed (socket_took n st)" for n
    by (auto simp: socket_took_def Let_def settle) (simp_all add: delivered_def)
  from assms show "delivered (stream_step env rf e st) = delivered st" "st_sent (stream_step env rf e st) = st_sent st"
    "st_cursor (stream_step env rf e st) = st_cursor st"
    "st_phase st = Reading \<Longrightarrow> st_phase (stream_step env rf e st) = Reading"
    "st_closed st \<Longrightarrow> st_closed (stream_step env rf e st)"
    by (cases e; simp add: settle start took send_closed)+
qed

text \<open>The state event keeps the bookkeeping, and the rows follow.\<close>

definition announced :: "StreamEnv \<Rightarrow> BuildStatus \<times> nat option \<Rightarrow> BuildStream \<Rightarrow> BuildStream" where
  "announced env state st =
     (if st_lastState st \<noteq> Some state
      then (send env (EventChunk (st_cursor st) (BuildUpdatedEvent (fst state) (snd state))) st)\<lparr>st_lastState := Some state\<rparr>
      else st)"

lemma announced_fields [simp]:
  "delivered (announced env state st) = delivered st" "st_sent (announced env state st) = st_sent st"
  "st_cursor (announced env state st) = st_cursor st"
  by (simp_all add: announced_def)

lemma read_done_batch:
  "st_phase st = Reading \<Longrightarrow> stream_step env rf (ReadDone (Inr (Some (state, rows)))) st =
     (emit_rows env rf rows (announced env state st))\<lparr>st_phase := TimerSet\<rparr>"
  by (simp add: poll_result_def announced_def Let_def)

lemma announced_closed: "st_closed st \<Longrightarrow> st_closed (announced env state st)"
  by (simp add: announced_def send_closed)

subsection \<open>A stream beside its store\<close>

text \<open>
  The tables go on committing while a stream is open. A commit keeps every message of the build and may be late, that is ordered
  before messages already there, by less than the lookback. A read takes a snapshot, whose result arrives later.
\<close>

record StreamSystem =
  ss_db :: ChatDb
  ss_stream :: BuildStream
  ss_read :: "((BuildStatus \<times> nat option) \<times> MessageRow list) option option"

definition commits :: "StreamEnv \<Rightarrow> string \<Rightarrow> ChatDb \<Rightarrow> ChatDb \<Rightarrow> bool" where
  "commits env b db db' \<longleftrightarrow> stream_db db' b \<and> set (messages_of db b) \<subseteq> set (messages_of db' b) \<and>
     (\<forall>m' \<in> set (messages_of db' b) - set (messages_of db b). \<forall>m \<in> set (messages_of db b).
        lookback_window env (Some (position_of m)) m')"

inductive system_step :: "StreamEnv \<Rightarrow> string \<Rightarrow> string option \<Rightarrow> Cursor option \<Rightarrow> StreamSystem \<Rightarrow> StreamSystem \<Rightarrow> bool"
  for env b anonHash rf where
  commit: "commits env b (ss_db s) db' \<Longrightarrow> system_step env b anonHash rf s (s\<lparr>ss_db := db'\<rparr>)"
| read: "st_phase (ss_stream s) = Reading \<Longrightarrow> ss_read s = None \<Longrightarrow>
    batch = readEventBatch (ss_db s) b sessionTenant anonHash (st_cursor (ss_stream s)) (so_lookbackMs (se_options env)) \<Longrightarrow>
    system_step env b anonHash rf s (s\<lparr>ss_read := Some batch\<rparr>)"
| deliver: "ss_read s = Some batch \<Longrightarrow>
    system_step env b anonHash rf s (s\<lparr>ss_stream := stream_step env rf (ReadDone (Inr batch)) (ss_stream s), ss_read := None\<rparr>)"
| fail: "system_step env b anonHash rf s (s\<lparr>ss_stream := stream_step env rf (ReadDone (Inl e)) (ss_stream s), ss_read := None\<rparr>)"
| outside: "\<nexists>r. e = ReadDone r \<Longrightarrow> system_step env b anonHash rf s (s\<lparr>ss_stream := stream_step env rf e (ss_stream s)\<rparr>)"

inductive stream_reaches :: "StreamEnv \<Rightarrow> string \<Rightarrow> string option \<Rightarrow> string option \<Rightarrow> ChatDb \<Rightarrow> StreamSystem \<Rightarrow> bool"
  for env b anonHash lastEventId db where
  connect: "stream_reaches env b anonHash lastEventId db \<lparr>ss_db = db, ss_stream = streamBuildEvents env lastEventId, ss_read = None\<rparr>"
| step: "stream_reaches env b anonHash lastEventId db s \<Longrightarrow> system_step env b anonHash (parseCursor lastEventId) s s' \<Longrightarrow>
    stream_reaches env b anonHash lastEventId db s'"

definition still_readable :: "StreamEnv \<Rightarrow> StreamSystem \<Rightarrow> MessageRow \<Rightarrow> bool" where
  "still_readable env s m \<longleftrightarrow> lookback_window env (st_cursor (ss_stream s)) m \<and>
     (case ss_read s of
        Some (Some (_, rows)) \<Rightarrow> m \<in> set rows \<or> (\<forall>m' \<in> set rows. lookback_window env (Some (position_of m')) m)
      | _ \<Rightarrow> True)"

definition read_ok :: "StreamEnv \<Rightarrow> string \<Rightarrow> StreamSystem \<Rightarrow> bool" where
  "read_ok env b s \<longleftrightarrow>
     (ss_read s \<noteq> None \<longrightarrow> st_phase (ss_stream s) = Reading) \<and>
     (\<forall>state rows. ss_read s = Some (Some (state, rows)) \<longrightarrow>
        (\<forall>m \<in> set rows. m \<in> set (messages_of (ss_db s) b) \<and> lookback_window env (st_cursor (ss_stream s)) m))"

definition none_lost :: "StreamEnv \<Rightarrow> string \<Rightarrow> Cursor option \<Rightarrow> StreamSystem \<Rightarrow> bool" where
  "none_lost env b rf s \<longleftrightarrow>
     st_closed (ss_stream s) \<or>
     (\<forall>m \<in> set (messages_of (ss_db s) b). resumes_after rf m \<and> bm_id m \<notin> set (delivered (ss_stream s)) \<longrightarrow> still_readable env s m)"

definition system_inv :: "StreamEnv \<Rightarrow> string \<Rightarrow> Cursor option \<Rightarrow> StreamSystem \<Rightarrow> bool" where
  "system_inv env b rf s \<longleftrightarrow>
     stream_db (ss_db s) b \<and> sent_inv env rf (set (messages_of (ss_db s) b)) (\<lambda>_. False) (ss_stream s) \<and>
     read_ok env b s \<and> none_lost env b rf s"

lemma stream_db_inj: "stream_db db b \<Longrightarrow> inj_on bm_id (set (messages_of db b))"
  by (auto simp: stream_db_def distinct_map inj_on_def)

lemma stream_db_shape:
  "stream_db db b \<Longrightarrow> m \<in> set (messages_of db b) \<Longrightarrow> rx_full (uuid_of hex_low) (bm_id m) \<and> bm_createdAt m < 10 ^ 19"
  by (auto simp: stream_db_def)

lemma resumes_window: "0 < so_lookbackMs (se_options env) \<Longrightarrow> resumes_after rf m \<Longrightarrow> lookback_window env rf m"
  by (auto simp: resumes_after_def lookback_window_def less_prod_def split: option.splits)

lemma readEventBatch_rows:
  assumes "readEventBatch db b sessionTenant anonHash c l = Some (state, rows)"
  shows "set rows = {m \<in> set (messages_of db b). case c of None \<Rightarrow> True | Some x \<Rightarrow> int (bm_createdAt m) > int (cu_micros x) - 1000 * int l}"
proof -
  from assms obtain owner where "rows = messagesSince db b owner c l" "buildState db b owner \<noteq> None"
    by (auto simp: readEventBatch_def Let_def split: if_splits)
  moreover from this(2) have "list_ex (\<lambda>r. bd_id r = b \<and> ownedBy owner r) (cdb_builds db)"
    by (auto simp: buildState_def list_ex_iff find_None_iff)
  ultimately show ?thesis by (auto simp: messagesSince_def listMessages_def split: option.splits)
qed

lemma system_inv_start:
  assumes "0 < so_lookbackMs (se_options env)" "stream_db db b"
  shows "system_inv env b (parseCursor lastEventId) \<lparr>ss_db = db, ss_stream = streamBuildEvents env lastEventId, ss_read = None\<rparr>"
proof -
  have start: "delivered (loop_start st) = delivered st" "st_sent (loop_start st) = st_sent st" "st_cursor (loop_start st) = st_cursor st" for st
    by (auto simp: loop_start_def split: option.splits DrainWait.splits DrainResult.splits)
  have "delivered (streamBuildEvents env lastEventId) = []" "st_sent (streamBuildEvents env lastEventId) = []"
      "st_cursor (streamBuildEvents env lastEventId) = parseCursor lastEventId"
    by (simp_all add: streamBuildEvents_def Let_def start) (simp_all add: delivered_def List.map_filter_def)
  then show ?thesis using assms by (auto simp: system_inv_def sent_inv_def read_ok_def none_lost_def still_readable_def resumes_window)
qed

lemma system_inv_commit:
  assumes lb: "0 < so_lookbackMs (se_options env)" and inv: "system_inv env b rf s" and c: "commits env b (ss_db s) db'"
  shows "system_inv env b rf (s\<lparr>ss_db := db'\<rparr>)"
proof -
  let ?M = "set (messages_of (ss_db s) b)" and ?M' = "set (messages_of db' b)" and ?st = "ss_stream s"
  from c have db: "stream_db db' b" and sub: "?M \<subseteq> ?M'"
    and late: "\<And>m' m. m' \<in> ?M' \<Longrightarrow> m' \<notin> ?M \<Longrightarrow> m \<in> ?M \<Longrightarrow> lookback_window env (Some (position_of m)) m'"
    unfolding commits_def by blast+
  from inv have si: "sent_inv env rf ?M (\<lambda>_. False) ?st" and read: "read_ok env b s" and lost: "none_lost env b rf s"
    by (simp_all add: system_inv_def)
  have old: "m \<in> ?M" if "m \<in> ?M'" "bm_id m \<in> set (delivered ?st)" for m
  proof -
    from si that(2) obtain x where "x \<in> ?M" "bm_id x = bm_id m" unfolding sent_inv_def by blast
    with stream_db_inj [OF db] sub that(1) show ?thesis by (metis inj_onD subsetD)
  qed
  have "\<forall>m \<in> ?M'. bm_id m \<in> set (delivered ?st) \<and> (False \<or> remembered env (st_cursor ?st) m) \<longrightarrow> map_of (st_sent ?st) (bm_id m) = Some (bm_createdAt m)"
    using si old unfolding sent_inv_def by blast
  then have si': "sent_inv env rf ?M' (\<lambda>_. False) ?st"
    using si sub unfolding sent_inv_def by blast
  have new: "still_readable env s m" if m: "m \<in> ?M'" "m \<notin> ?M" "resumes_after rf m" for m
  proof -
    have "st_cursor ?st = rf \<or> (\<exists>m' \<in> ?M. st_cursor ?st = Some (position_of m'))"
      using si unfolding sent_inv_def by blast
    then have "lookback_window env (st_cursor ?st) m"
      using late [OF m(1,2)] resumes_window [OF lb m(3)] by (elim disjE bexE) simp_all
    moreover have "lookback_window env (Some (position_of m')) m" if "ss_read s = Some (Some (state, rows))" "m' \<in> set rows" for state rows m'
      using read that late [OF m(1,2)] unfolding read_ok_def by blast
    ultimately show ?thesis by (auto simp: still_readable_def split: option.splits)
  qed
  have same: "still_readable env (s\<lparr>ss_db := db'\<rparr>) m = still_readable env s m" for m by (simp add: still_readable_def)
  have "none_lost env b rf (s\<lparr>ss_db := db'\<rparr>)"
    unfolding none_lost_def same using lost new unfolding none_lost_def by auto
  moreover have "read_ok env b (s\<lparr>ss_db := db'\<rparr>)"
    using read sub unfolding read_ok_def by (simp del: set_messages_of) blast
  ultimately show ?thesis unfolding system_inv_def using db si' by simp
qed

lemma deliver_batch:
  assumes inv: "system_inv env b rf s" and read: "ss_read s = Some (Some (state, rows))"
  defines "st \<equiv> stream_step env rf (ReadDone (Inr (Some (state, rows)))) (ss_stream s)"
  shows "sent_inv env rf (set (messages_of (ss_db s) b)) (\<lambda>_. False) st"
    "set (delivered (ss_stream s)) \<subseteq> set (delivered st)"
    "\<not> st_closed st \<Longrightarrow> \<not> st_closed (ss_stream s)"
    "\<not> st_closed st \<Longrightarrow> \<forall>m \<in> set rows. resumes_after rf m \<longrightarrow> bm_id m \<in> set (delivered st)"
    "st_cursor st = st_cursor (ss_stream s) \<or> (\<exists>m \<in> set rows. st_cursor st = Some (position_of m))"
proof -
  let ?M = "set (messages_of (ss_db s) b)" and ?a = "announced env state (ss_stream s)"
  from inv read have db: "stream_db (ss_db s) b" and si: "sent_inv env rf ?M (\<lambda>_. False) (ss_stream s)"
    and phase: "st_phase (ss_stream s) = Reading"
    and rows: "\<forall>m \<in> set rows. m \<in> ?M \<and> lookback_window env (st_cursor (ss_stream s)) m"
    unfolding system_inv_def read_ok_def by auto
  have st: "st = (emit_rows env rf rows ?a)\<lparr>st_phase := TimerSet\<rparr>" unfolding st_def by (rule read_done_batch [OF phase])
  have a: "sent_inv env rf ?M (lookback_window env (st_cursor (ss_stream s))) ?a"
    using sent_inv_window [OF si] by (simp add: sent_inv_def)
  have r: "\<forall>m \<in> set rows. m \<in> ?M \<and> lookback_window env (st_cursor (ss_stream s)) m \<and> rx_full (uuid_of hex_low) (bm_id m) \<and> bm_createdAt m < 10 ^ 19"
    using rows stream_db_shape [OF db] by blast
  note emit = emit_rows_inv [OF a stream_db_inj [OF db] r]
  show "sent_inv env rf ?M (\<lambda>_. False) st" using emit(1) unfolding st by (simp add: sent_inv_def)
  show "set (delivered (ss_stream s)) \<subseteq> set (delivered st)" using emit(2) by (simp add: st)
  show "\<not> st_closed st \<Longrightarrow> \<not> st_closed (ss_stream s)" using emit(3) announced_closed [of "ss_stream s" env state] by (auto simp: st)
  show "\<not> st_closed st \<Longrightarrow> \<forall>m \<in> set rows. resumes_after rf m \<longrightarrow> bm_id m \<in> set (delivered st)" using emit(4) by (simp add: st)
  show "st_cursor st = st_cursor (ss_stream s) \<or> (\<exists>m \<in> set rows. st_cursor st = Some (position_of m))"
    using emit_rows_cursor [of rows env rf ?a] r by (simp add: st)
qed

lemma read_done_quiet:
  assumes "r = Inr None \<or> r = Inl e"
  shows "delivered (stream_step env rf (ReadDone r) st) = delivered st" "st_sent (stream_step env rf (ReadDone r) st) = st_sent st"
    "st_cursor (stream_step env rf (ReadDone r) st) = st_cursor st"
    "st_phase st = Reading \<Longrightarrow> st_closed (stream_step env rf (ReadDone r) st)"
    "st_phase st \<noteq> Reading \<Longrightarrow> stream_step env rf (ReadDone r) st = st"
  using assms by (auto simp: poll_result_def)

lemma system_inv_deliver:
  assumes inv: "system_inv env b rf s" and read: "ss_read s = Some batch"
  shows "system_inv env b rf (s\<lparr>ss_stream := stream_step env rf (ReadDone (Inr batch)) (ss_stream s), ss_read := None\<rparr>)"
proof (cases batch)
  case None
  from inv read have "st_phase (ss_stream s) = Reading" by (simp add: system_inv_def read_ok_def)
  with inv show ?thesis
    using read_done_quiet [where r = "Inr None" and env = env and rf = rf and st = "ss_stream s"]
    by (simp add: None system_inv_def read_ok_def none_lost_def sent_inv_def)
next
  case (Some p)
  obtain state rows where p: "p = (state, rows)" by (cases p)
  let ?st = "stream_step env rf (ReadDone (Inr (Some (state, rows)))) (ss_stream s)"
  have batch: "ss_read s = Some (Some (state, rows))" by (simp add: read Some p)
  note d = deliver_batch [OF inv batch]
  have "lookback_window env (st_cursor ?st) m"
    if m: "\<not> st_closed ?st" "m \<in> set (messages_of (ss_db s) b)" "resumes_after rf m" "bm_id m \<notin> set (delivered ?st)" for m
  proof -
    have "bm_id m \<notin> set (delivered (ss_stream s))" using d(2) m(4) by blast
    with inv m(2,3) d(3) [OF m(1)] have "still_readable env s m" unfolding system_inv_def none_lost_def by blast
    moreover have "m \<notin> set rows" using d(4) [OF m(1)] m(3,4) by blast
    ultimately show ?thesis using d(5) by (auto simp: still_readable_def batch)
  qed
  then have "none_lost env b rf (s\<lparr>ss_stream := ?st, ss_read := None\<rparr>)"
    unfolding none_lost_def still_readable_def by (simp del: set_messages_of stream_step.simps) blast
  with d(1) inv show ?thesis by (simp add: Some p system_inv_def read_ok_def del: stream_step.simps)
qed

lemma read_batch:
  assumes "readEventBatch db b sessionTenant anonHash c (so_lookbackMs (se_options env)) = Some (state, rows)"
  shows "m \<in> set rows \<longleftrightarrow> m \<in> set (messages_of db b) \<and> lookback_window env c m"
  using readEventBatch_rows [OF assms] by (auto simp: lookback_window_def split: option.splits)

lemma system_inv_quiet:
  assumes inv: "system_inv env b rf s"
    and "delivered st = delivered (ss_stream s)" "st_sent st = st_sent (ss_stream s)" "st_cursor st = st_cursor (ss_stream s)"
    and "st_closed (ss_stream s) \<Longrightarrow> st_closed st"
    and "r = None \<or> r = ss_read s \<and> (st_phase (ss_stream s) = Reading \<longrightarrow> st_phase st = Reading)"
  shows "system_inv env b rf (s\<lparr>ss_stream := st, ss_read := r\<rparr>)"
proof -
  have "still_readable env (s\<lparr>ss_stream := st, ss_read := r\<rparr>) m" if "still_readable env s m" for m
    using that assms(4,6) by (auto simp: still_readable_def)
  moreover have "sent_inv env rf M W st = sent_inv env rf M W (ss_stream s)" for M W by (rule sent_inv_cong [OF assms(2-4)])
  ultimately show ?thesis
    using inv assms(2,4-6) unfolding system_inv_def none_lost_def read_ok_def by (auto simp del: set_messages_of)
qed

lemma stream_system_step:
  assumes "0 < so_lookbackMs (se_options env)" "system_inv env b rf s" "system_step env b anonHash rf s s'"
  shows "system_inv env b rf s'"
  using assms(3)
proof cases
  case (commit db')
  with system_inv_commit [OF assms(1,2)] show ?thesis by simp
next
  case (read batch sessionTenant)
  have "read_ok env b s'"
    using read_batch [of "ss_db s" b sessionTenant anonHash "st_cursor (ss_stream s)" env] read(2,4)
    unfolding read_ok_def by (auto simp: read(1) simp del: set_messages_of)
  moreover have "still_readable env s' m" if "still_readable env s m" "m \<in> set (messages_of (ss_db s) b)" for m
    using that read_batch [of "ss_db s" b sessionTenant anonHash "st_cursor (ss_stream s)" env _ _ m] read(4)
    unfolding still_readable_def by (auto simp: read(1) simp del: set_messages_of split: option.splits)
  then have "none_lost env b rf s'" using assms(2) unfolding system_inv_def none_lost_def by (auto simp: read(1))
  ultimately show ?thesis using assms(2) by (simp add: system_inv_def read(1))
next
  case (deliver batch)
  with system_inv_deliver [OF assms(2)] show ?thesis by simp
next
  case (fail e)
  have "st_closed (stream_step env rf (ReadDone (Inl e)) (ss_stream s))" if "st_closed (ss_stream s)"
    using that by (simp add: poll_result_def)
  with system_inv_quiet [OF assms(2) read_done_quiet(1-3) [where r = "Inl e" and e = e], where r = None] show ?thesis unfolding fail by blast
next
  case (outside e)
  from outside(2) have "\<nexists>r. e = ReadDone r" by blast
  note o = other_events [OF this, where env = env and rf = rf and st = "ss_stream s"]
  from system_inv_quiet [OF assms(2) o(1-3), of "ss_read s"] o(4,5) show ?thesis by (simp add: outside(1))
qed

lemma stream_reaches_inv:
  assumes "stream_reaches env b anonHash lastEventId db s" "0 < so_lookbackMs (se_options env)" "stream_db db b"
  shows "system_inv env b (parseCursor lastEventId) s"
  using assms(1)
proof induction
  case connect
  show ?case by (rule system_inv_start [OF assms(2,3)])
next
  case (step s s')
  from stream_system_step [OF assms(2) step.IH step.hyps(2)] show ?case .
qed


text \<open>A stream of the store above with one message: connect, read, deliver.\<close>

definition desk_env :: StreamEnv where
  "desk_env = \<lparr>se_options = DEFAULT_SSE, se_highWaterMark = 16384, se_bytes = (\<lambda>_. 200)\<rparr>"

definition desk_stream :: BuildStream where
  "desk_stream = streamBuildEvents desk_env None"

lemma no_cursor: "parseCursor None = None"
  by code_simp

lemma desk_stream_fields [simp]:
  "sk_length (st_socket desk_stream) = 200"
  "st_phase desk_stream = Reading" "st_closed desk_stream = False" "st_cursor desk_stream = None"
  "st_sent desk_stream = []" "st_lastState desk_stream = None" "delivered desk_stream = []"
  by (simp_all add: desk_stream_def streamBuildEvents_def desk_env_def DEFAULT_SSE_def send_def socket_write_def Let_def loop_start_def
      no_cursor delivered_def List.map_filter_def)


end
