(* ===== verification/Accepted_Plan.thy ===== *)
theory Accepted_Plan
  imports Device_Schema Firmware_Candidate Workspace Event_Stream
begin
text \<open>
  Plans as the database keeps them, and the compiler's approval of one: the tables of \<open>packages/db/src/schema/builds.ts\<close> that plans and
  firmware use, \<open>apps/codegen/src/plan.ts\<close>, \<open>accepted-candidate.ts\<close> and \<open>camera-candidate.ts\<close>. A JSON column whose value has not the
  shape of its schema is \<open>None\<close>; one that has is the record, still to be checked. Outside the repository are SHA-256, URL syntax, and the
  two directions of JSON that the schemas do mechanically: the JSON value of an evidence object and reading a specification.
\<close>

subsection \<open>Tables\<close>

record Codec =
  cx_sha256 :: "string \<Rightarrow> string"
  cx_evidence_json :: "BuildPlanEvidence \<Rightarrow> jvalue"
  cx_spec :: "jvalue \<Rightarrow> Spec option"
  cx_https :: "string \<Rightarrow> bool"

record StoredSpec =
  sd_buildId :: string
  sd_version :: int
  sd_data :: jvalue

record PlanColumns =
  pl_part_versions :: "PartPin list"
  pl_wiring_graph :: WiringGraph
  pl_power_budget :: PowerBudget
  pl_bom :: "BomLine list"
  pl_solver_log :: "string list"

record PlanRow =
  pr_buildId :: string
  pr_version :: int
  pr_specVersion :: int
  pr_createdAt :: int
  pr_acceptedAt :: "int option"
  pr_acceptedBy :: "string option"
  pr_columns :: "PlanColumns option"
  pr_metadata :: "BuildPlanMetadata option"

datatype BundleStatus = BPending | BRunning | BPassed | BFailed

text \<open>What the compile log holds: the job with the worker's notes, the record of a passed compile, or something else.\<close>

record WorkLog =
  wl_job :: "FirmwareJobRequest option"
  wl_lease :: "string option"
  wl_error :: "string option"
  wl_diagnostics :: "string option"

datatype CompileLog = Work WorkLog | PassedLog FirmwarePassedRecord | Unreadable

record BundleRow =
  bu_buildId :: string
  bu_version :: int
  bu_planVersion :: int
  bu_status :: BundleStatus
  bu_storageRef :: "string option"
  bu_log :: CompileLog
  bu_createdAt :: int
  bu_updatedAt :: int

fun log_job :: "CompileLog \<Rightarrow> FirmwareJobRequest option" where
  "log_job (Work l) = wl_job l"
| "log_job (PassedLog r) = fp_job r"
| "log_job Unreadable = None"

text \<open>\<open>FirmwareJobRequest.safeParse\<close> and \<open>FirmwarePassedRecord.safeParse\<close> of a log.\<close>

definition job_of :: "CompileLog \<Rightarrow> FirmwareJobRequest option" where
  "job_of l = (case log_job l of None \<Rightarrow> None | Some j \<Rightarrow> if FirmwareJobRequest_ok j then Some j else None)"

fun passed_of :: "CompileLog \<Rightarrow> FirmwarePassedRecord option" where
  "passed_of (PassedLog r) = (if FirmwarePassedRecord_ok r then Some r else None)"
| "passed_of _ = None"

subsection \<open>Reading a plan\<close>

text \<open>The plan object the columns and the metadata make together.\<close>

definition plan_object :: "PlanColumns \<Rightarrow> BuildPlanMetadata \<Rightarrow> BuildPlan" where
  "plan_object c m =
     \<lparr>part_versions = pl_part_versions c, plan_runtime = md_runtime m, plan_profile = md_profile m, wiring_graph = pl_wiring_graph c,
      power_budget = pl_power_budget c, bom = pl_bom c, total_cost_usd = md_total_cost_usd m, solver_log = pl_solver_log c\<rparr>"

definition metadata_of :: "Codec \<Rightarrow> PlanRow \<Rightarrow> BuildPlanMetadata option" where
  "metadata_of cx row =
     (case pr_metadata row of
        None \<Rightarrow> None
      | Some m \<Rightarrow> if BuildPlanMetadata_ok (cx_https cx) m then Some m else None)"

definition plan_of_row :: "PlanRow \<Rightarrow> BuildPlanMetadata \<Rightarrow> BuildPlan option" where
  "plan_of_row row m =
     (case pr_columns row of
        None \<Rightarrow> None
      | Some c \<Rightarrow> if BuildPlanV1_ok (plan_object c m) then Some (plan_object c m) else None)"

text \<open>The digest that identifies a plan's input; \<open>Inl\<close> when the specification is not plain JSON.\<close>

definition planInputDigest :: "Codec \<Rightarrow> jvalue \<Rightarrow> string \<Rightarrow> BuildPlanEvidence \<Rightarrow> js_error + string" where
  "planInputDigest cx spec rt ev = map_sum id (cx_sha256 cx) (serializeBuildPlanInput spec rt (cx_evidence_json cx ev))"

subsection \<open>The camera candidate\<close>

definition CAMERA_CANDIDATE :: string where
  "CAMERA_CANDIDATE = ''freenove-esp32s3-n16r8-gc0308-usb-v1''"

definition CAMERA_RUNTIME :: string where
  "CAMERA_RUNTIME = ''0.3.0''"

definition CAMERA_CHANNELS :: Channels where
  "CAMERA_CHANNELS =
     [(''ambient_light_lux'', \<lparr>tc_unit = ''lux'', tc_min = Fin 0, tc_max = Fin 65535\<rparr>),
      (''air_temperature_c'', \<lparr>tc_unit = ''C'', tc_min = Fin (- 40), tc_max = Fin 85\<rparr>),
      (''air_pressure_hpa'', \<lparr>tc_unit = ''hPa'', tc_min = Fin 300, tc_max = Fin 1100\<rparr>),
      (''air_humidity_pct'', \<lparr>tc_unit = ''%'', tc_min = Fin 0, tc_max = Fin 100\<rparr>)]"

definition camera_base :: "string \<Rightarrow> CapabilityBase" where
  "camera_base i =
     \<lparr>cb_id = i, cb_profile_id = CAMERA_CANDIDATE, cb_profile_version = 1, cb_enabled = True, cb_required = True, cb_interval_s = 900\<rparr>"

definition CAMERA_CAPABILITIES :: "SensorCapability list" where
  "CAMERA_CAPABILITIES =
     [ImageCapability (camera_base ''camera'') 1048576 320 240, MeasurementCapability (camera_base ''environment'') CAMERA_CHANNELS]"

definition renderCameraApp :: "jsnum \<Rightarrow> js_error + string" where
  "renderCameraApp interval =
     (if interval \<noteq> Fin 900 then Inl (Thrown ''The reviewed camera capture interval is 900 seconds'')
      else Inr (''extern '' @ json_string ''C'' @ '' void hsx_camera_run(void);\<newline>extern '' @ json_string ''C'' @
             '' void app_main(void) { hsx_camera_run(); }\<newline>''))"

subsection \<open>Approval\<close>

record CameraPlanApproval =
  ca_candidate_id :: string
  ca_assembly_profile :: "string \<times> string"
  ca_part_versions :: "PartPin list"
  ca_evidence_sha256 :: string
  ca_wiring_sha256 :: string

definition approval_pin_ok :: "string \<Rightarrow> string \<Rightarrow> bool" where
  "approval_pin_ok i v \<longleftrightarrow> 1 \<le> length i \<and> length i \<le> 120 \<and> 1 \<le> length v \<and> length v \<le> 40"

definition CameraPlanApproval_ok :: "CameraPlanApproval \<Rightarrow> bool" where
  "CameraPlanApproval_ok a \<longleftrightarrow>
     ca_candidate_id a = CAMERA_CANDIDATE \<and> approval_pin_ok (fst (ca_assembly_profile a)) (snd (ca_assembly_profile a)) \<and>
     list_all (\<lambda>p. approval_pin_ok (pin_id p) (pin_version p)) (ca_part_versions a) \<and>
     1 \<le> length (ca_part_versions a) \<and> length (ca_part_versions a) \<le> 64 \<and>
     Sha256Hex (ca_evidence_sha256 a) \<and> Sha256Hex (ca_wiring_sha256 a) \<and>
     length (js_unique (map pinKey (ca_part_versions a))) = length (ca_part_versions a)"

text \<open>\<open>canonicalDigest\<close>: of the text with every object's keys sorted. It is taken of objects and arrays, which always have a text.\<close>

definition canonicalDigest :: "Codec \<Rightarrow> jvalue \<Rightarrow> string" where
  "canonicalDigest cx v = cx_sha256 cx (case json_stringify (sort_json v) of None \<Rightarrow> [] | Some t \<Rightarrow> t)"

fun rail_name :: "Rail \<Rightarrow> string" where
  "rail_name BrainRail = ''brain''"
| "rail_name SourceRail = ''source''"

definition pin_json :: "PartPin \<Rightarrow> jvalue" where
  "pin_json p = JObj [(''id'', JStr (pin_id p)), (''version'', JStr (pin_version p))]"

definition edge_json :: "WiringEdge \<Rightarrow> jvalue" where
  "edge_json e =
     JObj [(''part'', pin_json (edge_part e)), (''port'', JStr (edge_port e)), (''rail'', JStr (rail_name (edge_rail e))),
           (''connector'', JStr (edge_connector e)), (''resources'', JArr (map JStr (edge_resources e)))]"

definition wiring_json :: "WiringGraph \<Rightarrow> jvalue" where
  "wiring_json g =
     JObj [(''source'', pin_json (graph_source g)), (''brain'', pin_json (graph_brain g)), (''brain_input'', JStr (graph_brain_input g)),
           (''peripherals'', JArr (map edge_json (graph_peripherals g)))]"

datatype CandidateKind = Numeric | Camera

record AcceptedCandidate =
  ac_id :: string
  ac_kind :: CandidateKind
  ac_runtime :: string
  ac_interval_s :: jsnum
  ac_template :: string
  ac_channels :: Channels
  ac_capabilities :: "SensorCapability list option"
  ac_numeric :: "NumericSelection option"

text \<open>The same object as the sensor table has it.\<close>

definition channel_of :: "ChannelRange \<Rightarrow> TelemetryChannel" where
  "channel_of r = \<lparr>tc_unit = ch_unit r, tc_min = Fin (of_int (ch_min r)), tc_max = Fin (of_int (ch_max r))\<rparr>"

definition no_camera_profile :: js_error where
  "no_camera_profile = Thrown ''This accepted plan has no approved camera compiler profile''"

definition approved_for :: "BuildPlan \<Rightarrow> CameraPlanApproval \<Rightarrow> bool" where
  "approved_for plan a \<longleftrightarrow> ca_assembly_profile a = plan_profile plan \<and> pin_text (ca_part_versions a) = pin_text (part_versions plan)"

definition camera_refused :: "Codec \<Rightarrow> BuildPlan \<Rightarrow> BuildPlanMetadata \<Rightarrow> Spec \<Rightarrow> CameraPlanApproval \<Rightarrow> bool" where
  "camera_refused cx plan metadata spec approval \<longleftrightarrow>
     (let ev = md_evidence metadata; profile = ev_profile ev; wiring = wiring_graph plan in
      md_runtime metadata \<noteq> CAMERA_RUNTIME \<or> plan_runtime plan \<noteq> CAMERA_RUNTIME \<or>
      md_profile metadata \<noteq> plan_profile plan \<or>
      (prof_id profile, prof_version profile) \<noteq> plan_profile plan \<or>
      pin_text (map pin (ev_parts ev)) \<noteq> pin_text (part_versions plan) \<or> list_ex (\<lambda>p. status p \<noteq> Active) (ev_parts ev) \<or>
      canonicalDigest cx (cx_evidence_json cx ev) \<noteq> ca_evidence_sha256 approval \<or>
      canonicalDigest cx (wiring_json wiring) \<noteq> ca_wiring_sha256 approval \<or>
      pin_text [brain_pin profile, source_pin profile] \<noteq> pin_text [graph_brain wiring, graph_source wiring] \<or>
      pin_id (brain_pin profile) \<noteq> pin_id (graph_brain wiring) \<or> pin_id (source_pin profile) \<noteq> pin_id (graph_source wiring) \<or>
      list_ex (\<lambda>p. driver_pkg (software p) \<noteq> None \<and>
         \<not> list_ex (\<lambda>c. compat_status c = Passed \<and> compat_brain c = pin_id (graph_brain wiring) \<and> Some (compat_pkg c) = driver_pkg (software p) \<and>
              Some (compat_driver_ver c) = driver_version (software p) \<and> compat_runtime_ver c = CAMERA_RUNTIME) (ev_compat ev)) (ev_parts ev) \<or>
      co_transport (sp_connect spec) \<noteq> Wifi \<or> pw_source (sp_power spec) \<noteq> FromUsb \<or> se_interval_s (sp_sense spec) \<noteq> Some (Fin 900))"

definition resolveAcceptedCandidate ::
    "Codec \<Rightarrow> CameraPlanApproval list \<Rightarrow> BuildPlan \<Rightarrow> BuildPlanMetadata \<Rightarrow> Spec \<Rightarrow> js_error + AcceptedCandidate" where
  "resolveAcceptedCandidate cx approvals plan metadata spec =
     (if list_ex (\<lambda>c. nc_id c = fst (plan_profile plan)) NUMERIC_CANDIDATES
      then (case selectNumericCandidate (cx_https cx) plan metadata spec of
              Inl e \<Rightarrow> Inl e
            | Inr numeric \<Rightarrow>
                Inr \<lparr>ac_id = nc_id (ns_candidate numeric), ac_kind = Numeric, ac_runtime = nc_runtime (ns_candidate numeric),
                     ac_interval_s = ns_interval_s numeric, ac_template = ''esp32s3'',
                     ac_channels = map (\<lambda>(k, r). (k, channel_of r)) (ns_channels numeric), ac_capabilities = None, ac_numeric = Some numeric\<rparr>)
      else if \<not> list_all CameraPlanApproval_ok approvals then Inl (Thrown ''ZodError'')
      else (case filter (approved_for plan) approvals of
              [approval] \<Rightarrow>
                if camera_refused cx plan metadata spec approval then Inl no_camera_profile
                else Inr \<lparr>ac_id = CAMERA_CANDIDATE, ac_kind = Camera, ac_runtime = CAMERA_RUNTIME, ac_interval_s = Fin 900,
                          ac_template = ''esp32s3-camera'', ac_channels = CAMERA_CHANNELS, ac_capabilities = Some CAMERA_CAPABILITIES, ac_numeric = None\<rparr>
            | _ \<Rightarrow> Inl no_camera_profile))"

definition renderCandidate :: "AcceptedCandidate \<Rightarrow> jsnum \<Rightarrow> js_error + string" where
  "renderCandidate candidate interval = (if ac_kind candidate = Camera then renderCameraApp interval else renderApp interval)"

definition editCandidate :: "AcceptedCandidate \<Rightarrow> string \<Rightarrow> js_error + int" where
  "editCandidate candidate instruction =
     (case editInterval instruction of
        Inl e \<Rightarrow> Inl e
      | Inr interval \<Rightarrow> (case renderCandidate candidate (Fin (of_int interval)) of Inl e \<Rightarrow> Inl e | Inr _ \<Rightarrow> Inr interval))"

definition capabilities_json :: "SensorCapability list option \<Rightarrow> jvalue" where
  "capabilities_json caps = JArr (map capability_json (case caps of None \<Rightarrow> [] | Some cs \<Rightarrow> cs))"

definition candidateManifestMatches :: "Codec \<Rightarrow> AcceptedCandidate \<Rightarrow> FirmwareManifest \<Rightarrow> bool" where
  "candidateManifestMatches cx candidate manifest \<longleftrightarrow>
     mf_profile_id manifest = ac_id candidate \<and> mf_runtime manifest = ac_runtime candidate \<and>
     canonicalDigest cx (channels_json (mf_channels manifest)) = canonicalDigest cx (channels_json (ac_channels candidate)) \<and>
     canonicalDigest cx (capabilities_json (mf_capabilities manifest)) = canonicalDigest cx (capabilities_json (ac_capabilities candidate))"

text \<open>The approvals of the environment, read by the parameter \<open>parse\<close> from its JSON text.\<close>

definition cameraApprovalsFromEnv :: "(string \<Rightarrow> CameraPlanApproval list option) \<Rightarrow> string option \<Rightarrow> js_error + CameraPlanApproval list" where
  "cameraApprovalsFromEnv parse raw =
     (if (case raw of None \<Rightarrow> False | Some r \<Rightarrow> length r > 65536) then Inl (Thrown ''Camera approval configuration too large'')
      else (case (case raw of None \<Rightarrow> Some [] | Some r \<Rightarrow> parse r) of
              None \<Rightarrow> Inl SyntaxError
            | Some values \<Rightarrow>
                if \<not> list_all CameraPlanApproval_ok values \<or> length values > 32 then Inl (Thrown ''ZodError'')
                else if length (js_unique (map (\<lambda>v. fst (ca_assembly_profile v) @ ''@'' @ snd (ca_assembly_profile v)) values)) \<noteq> length values
                then Inl (Thrown ''Ambiguous camera plan approvals'')
                else Inr values))"

subsection \<open>Decoding an accepted plan\<close>

record DecodedPlan =
  dq_candidate :: AcceptedCandidate
  dq_plan :: BuildPlan
  dq_metadata :: BuildPlanMetadata
  dq_interval_s :: jsnum

definition decodePlan :: "Codec \<Rightarrow> CameraPlanApproval list \<Rightarrow> PlanRow \<Rightarrow> jvalue \<Rightarrow> js_error + DecodedPlan" where
  "decodePlan cx approvals row spec_data =
     (case metadata_of cx row of
        None \<Rightarrow> Inl (Thrown ''ZodError'')
      | Some metadata \<Rightarrow>
     (case plan_of_row row metadata of
        None \<Rightarrow> Inl (Thrown ''ZodError'')
      | Some plan \<Rightarrow>
     (case cx_spec cx spec_data of
        None \<Rightarrow> Inl (Thrown ''ZodError'')
      | Some spec \<Rightarrow>
          if \<not> Spec_ok spec then Inl (Thrown ''ZodError'')
          else (case planInputDigest cx spec_data (md_runtime metadata) (md_evidence metadata) of
             Inl e \<Rightarrow> Inl e
           | Inr digest \<Rightarrow>
               if digest \<noteq> md_input_digest metadata then Inl (Thrown ''Accepted plan input identity mismatch'')
               else (case resolveAcceptedCandidate cx approvals plan metadata spec of
                  Inl e \<Rightarrow> Inl e
                | Inr candidate \<Rightarrow>
                    Inr \<lparr>dq_candidate = candidate, dq_plan = plan, dq_metadata = metadata, dq_interval_s = ac_interval_s candidate\<rparr>)))))"


subsection \<open>What an approval guarantees\<close>

lemma decodePlan_Inr:
  assumes "decodePlan cx approvals row data = Inr d"
  obtains spec where "metadata_of cx row = Some (dq_metadata d)" "plan_of_row row (dq_metadata d) = Some (dq_plan d)"
    "cx_spec cx data = Some spec" "Spec_ok spec"
    "planInputDigest cx data (md_runtime (dq_metadata d)) (md_evidence (dq_metadata d)) = Inr (md_input_digest (dq_metadata d))"
    "resolveAcceptedCandidate cx approvals (dq_plan d) (dq_metadata d) spec = Inr (dq_candidate d)"
    "dq_interval_s d = ac_interval_s (dq_candidate d)"
  using assms by (auto simp: decodePlan_def split: option.splits sum.splits if_splits)

lemma channel_key_iff: "rx_full CHANNEL_KEY s \<longleftrightarrow> s \<noteq> [] \<and> lower (hd s) \<and> length s \<le> 64 \<and> list_all channel_char (tl s)"
proof -
  have "rx_full CHANNEL_KEY s \<longleftrightarrow> s \<in> lang CHANNEL_KEY" by (rule rx_full_lang) (simp add: CHANNEL_KEY_def del: UpTo.simps)
  then show ?thesis by (simp add: CHANNEL_KEY_def lang_name del: UpTo.simps lang.simps)
qed

lemma TelemetryChannel_ok_camera: "list_all (\<lambda>(k, c). TelemetryChannel_ok c) CAMERA_CHANNELS"
  by (simp add: CAMERA_CHANNELS_def TelemetryChannel_ok_def jle_def)

lemma camera_channels_ok: "ProvisionedChannels_ok CAMERA_CHANNELS" "CAMERA_CHANNELS \<noteq> []"
proof -
  have "list_all (\<lambda>(k, c). rx_full CHANNEL_KEY k) CAMERA_CHANNELS" unfolding channel_key_iff by code_simp
  moreover have "distinct (map fst CAMERA_CHANNELS)" "length CAMERA_CHANNELS \<le> 64" by (simp_all add: CAMERA_CHANNELS_def)
  ultimately show "ProvisionedChannels_ok CAMERA_CHANNELS"
    using TelemetryChannel_ok_camera by (auto simp: ProvisionedChannels_ok_def list_all_iff)
qed (simp add: CAMERA_CHANNELS_def)

lemma capability_id_iff:
  "rx_full SensorCapabilityId s \<longleftrightarrow> s \<noteq> [] \<and> lower (hd s) \<and> length s \<le> 64 \<and> list_all capability_char (tl s)"
proof -
  have "rx_full SensorCapabilityId s \<longleftrightarrow> s \<in> lang SensorCapabilityId" by (rule rx_full_lang) (simp add: SensorCapabilityId_def del: UpTo.simps)
  then show ?thesis by (simp add: SensorCapabilityId_def lang_name del: UpTo.simps lang.simps)
qed

lemma camera_base_ok: "i \<in> {''camera'', ''environment''} \<Longrightarrow> CapabilityBase_ok (camera_base i)"
proof -
  assume i: "i \<in> {''camera'', ''environment''}"
  have "list_all (\<lambda>i. i \<noteq> [] \<and> lower (hd i) \<and> length i \<le> 64 \<and> list_all capability_char (tl i)) [''camera'', ''environment'']" by code_simp
  with i have "rx_full SensorCapabilityId i" unfolding capability_id_iff by auto
  then show ?thesis by (simp add: CapabilityBase_ok_def camera_base_def CAMERA_CANDIDATE_def z_posint_def MAX_SAFE_INTEGER_def)
qed

lemma camera_capabilities_ok: "DeviceCapabilities_ok CAMERA_CAPABILITIES"
proof -
  have ok: "list_all SensorCapability_ok CAMERA_CAPABILITIES"
    using camera_channels_ok by (simp add: CAMERA_CAPABILITIES_def camera_base_ok TelemetryChannels_ok_def)
  moreover have "capability_issues CAMERA_CAPABILITIES [] [] = []"
    unfolding capability_issues_iff [OF ok] by (simp add: CAMERA_CAPABILITIES_def camera_base_def CAMERA_CHANNELS_def)
  ultimately show ?thesis by (simp add: DeviceCapabilities_ok_def) (simp add: CAMERA_CAPABILITIES_def)
qed

lemma sensor_channels_ok:
  "list_all (\<lambda>(k, r). rx_full CHANNEL_KEY k \<and> TelemetryChannel_ok (channel_of r)) (sd_channels (SENSORS key))"
proof -
  have key: "rx_full CHANNEL_KEY k" if "k \<in> set [''illuminance'', ''temperature'', ''humidity'', ''pressure'', ''soil_moisture'']" for k
  proof -
    have "list_all (\<lambda>i. i \<noteq> [] \<and> lower (hd i) \<and> length i \<le> 64 \<and> list_all channel_char (tl i))
        [''illuminance'', ''temperature'', ''humidity'', ''pressure'', ''soil_moisture'']" by code_simp
    then show ?thesis using that unfolding channel_key_iff list_all_iff [of _ "[''illuminance'', ''temperature'', ''humidity'', ''pressure'', ''soil_moisture'']"]
      by (rule bspec)
  qed
  show ?thesis by (cases key) (simp_all add: key channel_of_def TelemetryChannel_ok_def jle_def)
qed

lemma sensor_channel_names:
  "fst ` set (sd_channels (SENSORS key)) \<subseteq> set [''illuminance'', ''temperature'', ''humidity'', ''pressure'', ''soil_moisture'']"
  by (cases key) auto

lemma numeric_channels_ok:
  assumes "selectNumericCandidate u plan metadata spec = Inr sel"
  shows "ProvisionedChannels_ok (map (\<lambda>(k, r). (k, channel_of r)) (ns_channels sel))" and "ns_channels sel \<noteq> []"
    and "interval_ok (ns_interval_s sel)" and "ns_candidate sel \<in> set NUMERIC_CANDIDATES"
proof -
  obtain chosen where sel: "distinct (map fst (ns_channels sel))"
      "ns_channels sel = concat (map (sd_channels \<circ> SENSORS) (ns_sensors sel))" "\<not> spec_unsupported spec"
      "Some (ns_interval_s sel) = se_interval_s (sp_sense spec)" "ns_candidate sel \<in> set NUMERIC_CANDIDATES"
      "ns_sensors sel = map po_sensor chosen" "\<not> pins_differ (ns_candidate sel) chosen plan metadata"
    by (rule selected [OF assms]) blast
  let ?names = "[''illuminance'', ''temperature'', ''humidity'', ''pressure'', ''soil_moisture'']"
  have "set (map fst (ns_channels sel)) \<subseteq> set ?names"
    unfolding sel(2) using sensor_channel_names by fastforce
  then have "card (set (map fst (ns_channels sel))) \<le> card (set ?names)" by (intro card_mono List.finite_set)
  also have "\<dots> \<le> length ?names" by (rule card_length)
  finally have "length (map fst (ns_channels sel)) \<le> length ?names" unfolding distinct_card [OF sel(1)] .
  then have "length (ns_channels sel) \<le> 64" by simp
  moreover have "list_all (\<lambda>(k, r). rx_full CHANNEL_KEY k \<and> TelemetryChannel_ok (channel_of r)) (ns_channels sel)"
    unfolding sel(2) using sensor_channels_ok by (fastforce simp: list_all_iff)
  ultimately show "ProvisionedChannels_ok (map (\<lambda>(k, r). (k, channel_of r)) (ns_channels sel))"
    using sel(1) by (auto simp: ProvisionedChannels_ok_def list_all_iff comp_def case_prod_beta)
  have "chosen \<noteq> []" using sel(7) by (auto simp: pins_differ_def Let_def)
  then show "ns_channels sel \<noteq> []" using channel_names_ok(2) by (cases chosen) (auto simp: sel(2,6))
  show "interval_ok (ns_interval_s sel)" using sel(3,4) by (auto simp: spec_unsupported_def split: option.splits)
  show "ns_candidate sel \<in> set NUMERIC_CANDIDATES" by (fact sel(5))
qed

lemma numeric_identity_ok:
  "c \<in> set NUMERIC_CANDIDATES \<Longrightarrow> SemVer (nc_runtime c) \<and> 1 \<le> length (nc_id c) \<and> length (nc_id c) \<le> 120 \<and> nc_id c \<noteq> CAMERA_CANDIDATE"
proof -
  have "list_all (\<lambda>c. SemVer (nc_runtime c) \<and> 1 \<le> length (nc_id c) \<and> length (nc_id c) \<le> 120 \<and> nc_id c \<noteq> CAMERA_CANDIDATE) NUMERIC_CANDIDATES"
    by code_simp
  then show "c \<in> set NUMERIC_CANDIDATES \<Longrightarrow> ?thesis" by (simp add: list_all_iff)
qed

lemma resolved_candidate_typed:
  assumes r: "resolveAcceptedCandidate cx approvals plan metadata spec = Inr a"
  shows "SemVer (ac_runtime a) \<and> 1 \<le> length (ac_id a) \<and> length (ac_id a) \<le> 120 \<and> ProvisionedChannels_ok (ac_channels a) \<and>
    ac_channels a \<noteq> [] \<and> opt_ok DeviceCapabilities_ok (ac_capabilities a) \<and> interval_ok (ac_interval_s a) \<and>
    (\<exists>text. renderCandidate a (ac_interval_s a) = Inr text)"
proof (cases "list_ex (\<lambda>c. nc_id c = fst (plan_profile plan)) NUMERIC_CANDIDATES")
  case True
  with r obtain sel where sel: "selectNumericCandidate (cx_https cx) plan metadata spec = Inr sel"
      "a = \<lparr>ac_id = nc_id (ns_candidate sel), ac_kind = Numeric, ac_runtime = nc_runtime (ns_candidate sel),
         ac_interval_s = ns_interval_s sel, ac_template = ''esp32s3'',
         ac_channels = map (\<lambda>(k, r). (k, channel_of r)) (ns_channels sel), ac_capabilities = None, ac_numeric = Some sel\<rparr>"
    by (auto simp: resolveAcceptedCandidate_def split: sum.splits)
  note n = numeric_channels_ok [OF sel(1)]
  show ?thesis using n numeric_identity_ok [OF n(4)] by (simp add: sel(2) renderCandidate_def renderApp_def)
next
  case False
  with r have c: "a = \<lparr>ac_id = CAMERA_CANDIDATE, ac_kind = Camera, ac_runtime = CAMERA_RUNTIME, ac_interval_s = Fin 900,
      ac_template = ''esp32s3-camera'', ac_channels = CAMERA_CHANNELS, ac_capabilities = Some CAMERA_CAPABILITIES, ac_numeric = None\<rparr>"
    by (auto simp: resolveAcceptedCandidate_def split: list.splits if_splits)
  have "SemVer CAMERA_RUNTIME" by code_simp
  moreover have "interval_ok (Fin 900)" unfolding interval_ok_iff by (rule exI [of _ 900]) simp
  ultimately show ?thesis
    using camera_channels_ok camera_capabilities_ok
    by (simp add: c renderCandidate_def renderCameraApp_def) (simp add: CAMERA_CANDIDATE_def)
qed

text \<open>
  C23. Whatever the compiler approves has the type a firmware manifest demands: a semantic runtime version, a short id, valid channels with
  distinct keys and at least one of them, capabilities that pass their schema, and an interval the candidate's own template renders.
\<close>

theorem approved_candidate_typed:
  assumes "decodePlan cx approvals row data = Inr d"
  shows "SemVer (ac_runtime (dq_candidate d)) \<and> 1 \<le> length (ac_id (dq_candidate d)) \<and> length (ac_id (dq_candidate d)) \<le> 120 \<and>
    ProvisionedChannels_ok (ac_channels (dq_candidate d)) \<and> ac_channels (dq_candidate d) \<noteq> [] \<and>
    opt_ok DeviceCapabilities_ok (ac_capabilities (dq_candidate d)) \<and> interval_ok (dq_interval_s d) \<and>
    (\<exists>text. renderCandidate (dq_candidate d) (dq_interval_s d) = Inr text)"
proof -
  from assms obtain spec where r: "resolveAcceptedCandidate cx approvals (dq_plan d) (dq_metadata d) spec = Inr (dq_candidate d)"
      "dq_interval_s d = ac_interval_s (dq_candidate d)"
    by (rule decodePlan_Inr)
  show ?thesis unfolding r(2) by (rule resolved_candidate_typed [OF r(1)])
qed


subsection \<open>A stored plan\<close>

definition board_codec :: Codec where
  "board_codec =
     \<lparr>cx_sha256 = (\<lambda>_. md_input_digest board_metadata), cx_evidence_json = (\<lambda>_. JNull), cx_spec = (\<lambda>_. Some board_spec), cx_https = (\<lambda>_. True)\<rparr>"

definition board_row :: PlanRow where
  "board_row =
     \<lparr>pr_buildId = ''b'', pr_version = 1, pr_specVersion = 1, pr_createdAt = 10, pr_acceptedAt = Some 20, pr_acceptedBy = Some ''u'',
      pr_columns = Some \<lparr>pl_part_versions = part_versions board_plan, pl_wiring_graph = wiring_graph board_plan,
        pl_power_budget = power_budget board_plan, pl_bom = bom board_plan, pl_solver_log = solver_log board_plan\<rparr>,
      pr_metadata = Some board_metadata\<rparr>"

lemma board_codec_fields: "cx_https board_codec = (\<lambda>_. True)" "cx_spec board_codec data = Some board_spec"
  by (simp_all add: board_codec_def)

lemma board_object: "plan_object (the (pr_columns board_row)) board_metadata = board_plan"
  by (simp add: plan_object_def board_row_def board_plan_def board_metadata_def)

lemma board_spec_ok: "Spec_ok board_spec"
  by code_simp

lemma board_decoded: "\<exists>d. decodePlan board_codec [] board_row JNull = Inr d"
proof -
  have "metadata_of board_codec board_row = Some board_metadata"
    using board_metadata_ok by (simp add: metadata_of_def board_codec_def board_row_def)
  moreover have "plan_of_row board_row board_metadata = Some board_plan"
    using board_plan_ok board_object by (simp add: plan_of_row_def) (simp add: board_row_def)
  moreover have "planInputDigest board_codec JNull (md_runtime board_metadata) (md_evidence board_metadata) = Inr (md_input_digest board_metadata)"
    by (simp add: planInputDigest_def serializeBuildPlanInput_def board_codec_def json_field_def by_key_def compare_lt_def)
  moreover obtain sel where "selectNumericCandidate (\<lambda>_. True) board_plan board_metadata board_spec = Inr sel"
    using board_selected by blast
  moreover have "list_ex (\<lambda>c. nc_id c = fst (plan_profile board_plan)) NUMERIC_CANDIDATES"
    by (simp add: board_plan_def NUMERIC_CANDIDATES_def DEVKITC_CANDIDATE_def)
  ultimately show ?thesis
    using board_spec_ok by (simp add: decodePlan_def resolveAcceptedCandidate_def board_codec_fields)
qed

theorem approved_candidate_typed_witness:
  "\<exists>d. decodePlan board_codec [] board_row JNull = Inr d \<and> ac_channels (dq_candidate d) \<noteq> []"
proof -
  obtain d where d: "decodePlan board_codec [] board_row JNull = Inr d" using board_decoded by blast
  from approved_candidate_typed [OF d] d show ?thesis by blast
qed


end
