(* ===== verification/Firmware_Jobs.thy ===== *)
theory Firmware_Jobs
  imports Accepted_Plan
begin
text \<open>
  Firmware versions of a build, from request to download: the gateway's routes (\<open>apps/gateway/src/firmware-routes.ts\<close>), the worker that
  claims, compiles and publishes (\<open>apps/codegen/src/job.ts\<close>), the compiler around its toolchain (\<open>compiler.ts\<close>) and the artifact store
  (\<open>artifacts.ts\<close>). The toolchain, the bundler and the clock are parameters; a worker's run is cut where it talks to the database, so
  that runs, requests and retries may interleave as transitions of a step relation. Bytes are characters; times are milliseconds.
\<close>

subsection \<open>Artifacts\<close>

definition alnum :: "char \<Rightarrow> bool" where
  "alnum c \<longleftrightarrow> lower c \<or> upper c \<or> digit c"

definition ARTIFACT_KEY :: rx where
  "ARTIFACT_KEY =
     Seq (Cls alnum) (Seq (Star (Cls (\<lambda>c. alnum c \<or> c \<in> set ''/_-''))) (Seq (Chr (CHR ''.'')) (Plus (Cls (\<lambda>c. lower c \<or> digit c)))))"

definition artifact_key :: "string \<Rightarrow> bool" where
  "artifact_key key \<longleftrightarrow>
     rx_full ARTIFACT_KEY key \<and> length key \<le> 300 \<and> \<not> list_ex (\<lambda>x. x = ''..'' \<or> x = []) (js_split (CHR ''/'') key)"

definition MAX_ARTIFACT_BYTES :: nat where
  "MAX_ARTIFACT_BYTES = 6 * 1024 * 1024"

type_synonym Store = "string \<Rightarrow> string option"

text \<open>A file is created with the flag \<open>wx\<close>, so never replaced; the bucket's \<open>ifGenerationMatch=0\<close> says the same.\<close>

definition artifact_put :: "string \<Rightarrow> string \<Rightarrow> Store \<Rightarrow> js_error + Store" where
  "artifact_put key bytes store =
     (if length bytes > MAX_ARTIFACT_BYTES then Inl (Thrown ''Artifact exceeds size limit'')
      else if \<not> artifact_key key then Inl (Thrown ''Invalid artifact key'')
      else if store key \<noteq> None then Inl (Thrown ''EEXIST'')
      else Inr (store(key \<mapsto> bytes)))"

definition artifact_get :: "string \<Rightarrow> Store \<Rightarrow> js_error + string" where
  "artifact_get key store =
     (if \<not> artifact_key key then Inl (Thrown ''Invalid artifact key'')
      else case store key of
        None \<Rightarrow> Inl (Thrown ''ENOENT'')
      | Some bytes \<Rightarrow> if length bytes > MAX_ARTIFACT_BYTES then Inl (Thrown ''Invalid artifact file'') else Inr bytes)"

subsection \<open>Compiling\<close>

record CompileInput =
  ci_build_id :: string
  ci_plan_version :: int
  ci_code_version :: int
  ci_interval_s :: int
  ci_numeric :: "NumericSelection option"

record Compiled =
  co_manifest :: FirmwareManifest
  co_manifestBytes :: string
  co_manifest_digest :: string
  co_source :: string
  co_source_sha256 :: string
  co_files :: "(string \<times> string) list"
  co_bundle :: string
  co_diagnostics :: string

definition compile_input_ok :: "CompileInput \<Rightarrow> bool" where
  "compile_input_ok i \<longleftrightarrow>
     rx_full z_uuid (ci_build_id i) \<and> z_posint (ci_plan_version i) \<and> z_posint (ci_code_version i) \<and>
     10 \<le> ci_interval_s i \<and> ci_interval_s i \<le> 86400"

definition build_header :: "CompileInput \<Rightarrow> string" where
  "build_header i =
     ''#pragma once\<newline>#define HSX_BUILD_ID '' @ json_string (ci_build_id i) @ ''\<newline>#define HSX_PLAN_VERSION '' @ int_str (ci_plan_version i) @
     ''\<newline>#define HSX_CODE_VERSION '' @ int_str (ci_code_version i) @ ''\<newline>''"

definition default_channels :: Channels where
  "default_channels = map (\<lambda>(k, r). (k, channel_of r)) (sd_channels (SENSORS Bh1750))"

definition compile_manifest :: "Codec \<Rightarrow> bool \<Rightarrow> CompileInput \<Rightarrow> (string \<times> string) list \<Rightarrow> FirmwareManifest" where
  "compile_manifest cx camera i files =
     (let numeric = (if camera then None else ci_numeric i) in
      \<lparr>mf_v = 1, mf_build_id = ci_build_id i, mf_plan_version = ci_plan_version i, mf_code_version = ci_code_version i,
       mf_profile_id = (if camera then CAMERA_CANDIDATE else case numeric of None \<Rightarrow> nc_id DEVKITC_CANDIDATE | Some n \<Rightarrow> nc_id (ns_candidate n)),
       mf_runtime = (if camera then CAMERA_RUNTIME else case numeric of None \<Rightarrow> RUNTIME | Some n \<Rightarrow> nc_runtime (ns_candidate n)),
       mf_channels = (if camera then CAMERA_CHANNELS
                      else case numeric of None \<Rightarrow> default_channels | Some n \<Rightarrow> map (\<lambda>(k, r). (k, channel_of r)) (ns_channels n)),
       mf_capabilities = (if camera then Some CAMERA_CAPABILITIES else None),
       mf_files = map (\<lambda>(path, bytes). \<lparr>ff_path = path, ff_sha256 = cx_sha256 cx bytes, ff_size = int (length bytes)\<rparr>) files,
       mf_flash = \<lparr>fl_chip = ''esp32s3'', fl_config_offset = 36864, fl_config_size = 24576\<rparr>\<rparr>)"

text \<open>
  \<open>compileProfile\<close>: the toolchain is given the input with the generated texts and returns its log and the three images; the bundler is
  given the files of the download directory.
\<close>

record Toolchain =
  tl_build :: "CompileInput \<Rightarrow> string \<Rightarrow> string option \<Rightarrow> string \<Rightarrow> js_error + (string \<times> string \<times> string \<times> string)"
  tl_bundle :: "(string \<times> string) list \<Rightarrow> js_error + string"

definition compileProfile :: "Codec \<Rightarrow> Toolchain \<Rightarrow> bool \<Rightarrow> CompileInput \<Rightarrow> js_error + Compiled" where
  "compileProfile cx tc camera i =
     (let numeric = (if camera then None else ci_numeric i); interval = Fin (of_int (ci_interval_s i)) in
      if \<not> compile_input_ok i then Inl (Thrown ''ZodError'')
      else case (if camera then renderCameraApp interval else renderApp interval) of
        Inl e \<Rightarrow> Inl e
      | Inr source \<Rightarrow>
     (case (case numeric of None \<Rightarrow> Inr None | Some n \<Rightarrow> map_sum id Some (numericProfileHeader n)) of
        Inl e \<Rightarrow> Inl e
      | Inr header \<Rightarrow>
     (case tl_build tc i source header (build_header i) of
        Inl e \<Rightarrow> Inl e
      | Inr (diag, boot, table, app) \<Rightarrow>
          (let files = [(''bootloader.bin'', boot), (''partition-table.bin'', table), (''albusforge.bin'', app)];
               manifest = compile_manifest cx camera i files
           in if \<not> FirmwareManifest_ok manifest then Inl (Thrown ''ZodError'')
              else case serializeFirmwareManifest manifest of
                Inl e \<Rightarrow> Inl e
              | Inr text \<Rightarrow>
                  (case tl_bundle tc (files @ [(''manifest.json'', text), (''app.cpp'', source)]) of
                     Inl e \<Rightarrow> Inl e
                   | Inr bundle \<Rightarrow>
                       Inr \<lparr>co_manifest = manifest, co_manifestBytes = text, co_manifest_digest = cx_sha256 cx text, co_source = source,
                            co_source_sha256 = cx_sha256 cx source, co_files = files, co_bundle = bundle, co_diagnostics = diag\<rparr>)))))"

definition compileCameraCandidate :: "Codec \<Rightarrow> Toolchain \<Rightarrow> CompileInput \<Rightarrow> js_error + Compiled" where
  "compileCameraCandidate cx tc i =
     (case renderCameraApp (Fin (of_int (ci_interval_s i))) of Inl e \<Rightarrow> Inl e | Inr _ \<Rightarrow> compileProfile cx tc True i)"

subsection \<open>The tables around a version\<close>

record ForgeDb =
  fg_auth :: AuthDb
  fg_specs :: "StoredSpec list"
  fg_plans :: "PlanRow list"
  fg_bundles :: "BundleRow list"

definition latest_spec_version :: "ForgeDb \<Rightarrow> string \<Rightarrow> int option" where
  "latest_spec_version db b =
     (case map sd_version (filter (\<lambda>s. sd_buildId s = b) (fg_specs db)) of [] \<Rightarrow> None | v # vs \<Rightarrow> Some (fold max vs v))"

definition spec_data :: "ForgeDb \<Rightarrow> string \<Rightarrow> int \<Rightarrow> jvalue option" where
  "spec_data db b v = map_option sd_data (List.find (\<lambda>s. sd_buildId s = b \<and> sd_version s = v) (fg_specs db))"

definition owned :: "ForgeDb \<Rightarrow> string \<Rightarrow> string \<Rightarrow> bool" where
  "owned db b tenant \<longleftrightarrow> list_ex (\<lambda>r. bd_id r = b \<and> bd_tenantId r = Some tenant) (ad_builds (fg_auth db))"

text \<open>The accepted plan of this version, if it is for the newest specification, with that specification.\<close>

definition current_plan :: "ForgeDb \<Rightarrow> string \<Rightarrow> int \<Rightarrow> (PlanRow \<times> jvalue) option" where
  "current_plan db b v =
     (case List.find (\<lambda>p. pr_buildId p = b \<and> pr_version p = v \<and> pr_acceptedAt p \<noteq> None \<and> Some (pr_specVersion p) = latest_spec_version db b)
             (fg_plans db) of
        None \<Rightarrow> None
      | Some p \<Rightarrow> map_option (Pair p) (spec_data db b (pr_specVersion p)))"

definition accepted :: "Codec \<Rightarrow> CameraPlanApproval list \<Rightarrow> ForgeDb \<Rightarrow> string \<Rightarrow> int \<Rightarrow> HttpError + DecodedPlan" where
  "accepted cx approvals db b v =
     (case current_plan db b v of
        None \<Rightarrow> Inl (http_error 409 ''PLAN_CHANGED'')
      | Some (p, data) \<Rightarrow>
          (case decodePlan cx approvals p data of Inl _ \<Rightarrow> Inl (http_error 422 ''UNSUPPORTED_FIRMWARE'') | Inr d \<Rightarrow> Inr d))"

definition bundles_of :: "ForgeDb \<Rightarrow> string \<Rightarrow> BundleRow list" where
  "bundles_of db b = js_sort (\<lambda>x y. compare_lt (bu_version y) (bu_version x)) (filter (\<lambda>r. bu_buildId r = b) (fg_bundles db))"

definition in_progress :: "BundleRow \<Rightarrow> bool" where
  "in_progress r \<longleftrightarrow> bu_status r \<in> {BPending, BRunning}"

definition set_bundle :: "string \<Rightarrow> int \<Rightarrow> (BundleRow \<Rightarrow> BundleRow) \<Rightarrow> ForgeDb \<Rightarrow> ForgeDb" where
  "set_bundle b v f db = db\<lparr>fg_bundles := map (\<lambda>r. if bu_buildId r = b \<and> bu_version r = v then f r else r) (fg_bundles db)\<rparr>"

definition find_bundle :: "ForgeDb \<Rightarrow> string \<Rightarrow> int \<Rightarrow> BundleRow option" where
  "find_bundle db b v = List.find (\<lambda>r. bu_buildId r = b \<and> bu_version r = v) (fg_bundles db)"

definition new_work :: "FirmwareJobRequest \<Rightarrow> CompileLog" where
  "new_work j = Work \<lparr>wl_job = Some j, wl_lease = None, wl_error = None, wl_diagnostics = None\<rparr>"

subsection \<open>Requesting a version\<close>

definition internal_error :: HttpError where
  "internal_error = http_error 500 ''INTERNAL''"

record FirmwareOptions =
  fo_enabled :: bool
  fo_artifacts :: bool
  fo_approvals :: "CameraPlanApproval list"

record FirmwareRequest =
  fq_tenant_id :: string
  fq_plan_version :: int
  fq_request_id :: string
  fq_instruction :: "string option"
  fq_based_on :: "int option"

definition FirmwareRequest_ok :: "FirmwareRequest \<Rightarrow> bool" where
  "FirmwareRequest_ok q \<longleftrightarrow>
     rx_full z_uuid (fq_tenant_id q) \<and> z_posint (fq_plan_version q) \<and> rx_full z_uuid (fq_request_id q) \<and>
     opt_ok (\<lambda>s. js_trim s = s \<and> 1 \<le> length s \<and> length s \<le> 500) (fq_instruction q) \<and> opt_ok z_posint (fq_based_on q)"

fun int_of_num :: "jsnum \<Rightarrow> int option" where
  "int_of_num (Fin q) = (if snd (quotient_of q) = 1 then Some (fst (quotient_of q)) else None)"
| "int_of_num _ = None"

definition request_instruction :: "FirmwareRequest \<Rightarrow> string" where
  "request_instruction q = (case fq_instruction q of None \<Rightarrow> [] | Some s \<Rightarrow> s)"

definition same_request :: "FirmwareRequest \<Rightarrow> BundleRow \<Rightarrow> bool" where
  "same_request q r \<longleftrightarrow> (case log_job (bu_log r) of None \<Rightarrow> False | Some j \<Rightarrow> fj_request_id j = fq_request_id q)"

definition request_changed :: "FirmwareRequest \<Rightarrow> BundleRow \<Rightarrow> bool" where
  "request_changed q r \<longleftrightarrow>
     bu_planVersion r \<noteq> fq_plan_version q \<or>
     (case log_job (bu_log r) of None \<Rightarrow> True | Some j \<Rightarrow> fj_instruction j \<noteq> request_instruction q \<or> fj_based_on j \<noteq> fq_based_on q)"

text \<open>The interval of the new version: the plan's, or the one the instruction sets.\<close>

definition request_interval :: "DecodedPlan \<Rightarrow> FirmwareRequest \<Rightarrow> HttpError + jsnum" where
  "request_interval plan q =
     (case (case fq_instruction q of
              None \<Rightarrow> Inr (dq_interval_s plan)
            | Some s \<Rightarrow> (case editCandidate (dq_candidate plan) s of
                 Inl _ \<Rightarrow> Inl (http_error 400 ''UNSUPPORTED_EDIT'')
               | Inr n \<Rightarrow> Inr (Fin (of_int n)))) of
        Inl e \<Rightarrow> Inl e
      | Inr interval \<Rightarrow> if jless interval (dq_interval_s plan) then Inl (http_error 422 ''POWER_INTERVAL'') else Inr interval)"

definition next_version :: "BundleRow list \<Rightarrow> int" where
  "next_version previous = (case previous of [] \<Rightarrow> 1 | r # _ \<Rightarrow> bu_version r + 1)"

definition postCode ::
    "Codec \<Rightarrow> FirmwareOptions \<Rightarrow> string \<Rightarrow> FirmwareRequest \<Rightarrow> int \<Rightarrow> WriteIdentity \<Rightarrow> ForgeDb \<Rightarrow> (HttpError + int) \<times> ForgeDb" where
  "postCode cx fo b q now w db =
     (if \<not> owned db b (wi_tenantId w) then (Inl (http_error 404 ''NOT_FOUND''), db)
      else if \<not> recheckExpiry w now then (Inl unauthorized, db)
      else if \<not> (fo_enabled fo \<and> fo_artifacts fo) then (Inl (http_error 503 ''COMPILER_UNAVAILABLE''), db)
      else case accepted cx (fo_approvals fo) db b (fq_plan_version q) of
        Inl e \<Rightarrow> (Inl e, db)
      | Inr plan \<Rightarrow>
     (let previous = bundles_of db b in
      case List.find (same_request q) previous of
        Some duplicate \<Rightarrow>
          if request_changed q duplicate then (Inl (http_error 409 ''REQUEST_CONFLICT''), db) else (Inr (bu_version duplicate), db)
      | None \<Rightarrow>
          if list_ex in_progress previous then (Inl (http_error 409 ''COMPILE_PENDING''), db)
          else if length previous \<ge> 100 then (Inl (http_error 409 ''VERSION_LIMIT''), db)
          else if (fq_instruction q \<noteq> None) \<noteq> (fq_based_on q \<noteq> None) then (Inl (http_error 400 ''INVALID_EDIT''), db)
          else if (case fq_based_on q of None \<Rightarrow> False
                   | Some v \<Rightarrow> \<not> list_ex (\<lambda>r. bu_version r = v \<and> bu_planVersion r = fq_plan_version q \<and> bu_status r = BPassed) previous)
          then (Inl (http_error 409 ''SOURCE_CHANGED''), db)
          else (case request_interval plan q of
            Inl e \<Rightarrow> (Inl e, db)
          | Inr interval \<Rightarrow>
              (case int_of_num interval of
                 None \<Rightarrow> (Inl internal_error, db)
               | Some n \<Rightarrow>
                   (let job = \<lparr>fj_request_id = fq_request_id q, fj_interval_s = n, fj_instruction = request_instruction q,
                               fj_based_on = fq_based_on q, fj_attempts = 0\<rparr>;
                        v = next_version previous
                    in if \<not> FirmwareJobRequest_ok job then (Inl internal_error, db)
                       else (Inr v, db\<lparr>fg_bundles := fg_bundles db @
                         [\<lparr>bu_buildId = b, bu_version = v, bu_planVersion = fq_plan_version q, bu_status = BPending, bu_storageRef = None,
                           bu_log = new_work job, bu_createdAt = now, bu_updatedAt = now\<rparr>]\<rparr>))))))"

text \<open>Another attempt at a failed version.\<close>

definition retryCode ::
    "Codec \<Rightarrow> FirmwareOptions \<Rightarrow> string \<Rightarrow> int \<Rightarrow> int \<Rightarrow> WriteIdentity \<Rightarrow> ForgeDb \<Rightarrow> (HttpError + int) \<times> ForgeDb" where
  "retryCode cx fo b v now w db =
     (if \<not> owned db b (wi_tenantId w) then (Inl (http_error 404 ''NOT_FOUND''), db)
      else if \<not> recheckExpiry w now then (Inl unauthorized, db)
      else if \<not> (fo_enabled fo \<and> fo_artifacts fo) then (Inl (http_error 503 ''COMPILER_UNAVAILABLE''), db)
      else case find_bundle db b v of
        None \<Rightarrow> (Inl (http_error 404 ''NOT_FOUND''), db)
      | Some row \<Rightarrow>
     (case accepted cx (fo_approvals fo) db b (bu_planVersion row) of
        Inl e \<Rightarrow> (Inl e, db)
      | Inr _ \<Rightarrow>
     (case job_of (bu_log row) of
        None \<Rightarrow> (Inl (http_error 409 ''RETRY_UNAVAILABLE''), db)
      | Some job \<Rightarrow>
          if bu_status row \<noteq> BFailed \<or> fj_attempts job \<ge> 3 then (Inl (http_error 409 ''RETRY_UNAVAILABLE''), db)
          else if list_ex in_progress (bundles_of db b) then (Inl (http_error 409 ''COMPILE_PENDING''), db)
          else (Inr v, set_bundle b v (\<lambda>r. r\<lparr>bu_status := BPending, bu_log := new_work job, bu_updatedAt := now\<rparr>) db))))"

text \<open>Both inside the write gate.\<close>

definition postCodeRoute ::
    "Codec \<Rightarrow> FirmwareOptions \<Rightarrow> string option \<Rightarrow> string \<Rightarrow> string \<Rightarrow> FirmwareRequest \<Rightarrow> int \<Rightarrow> int \<Rightarrow> int \<Rightarrow> ForgeDb \<Rightarrow> (HttpError + int) \<times> ForgeDb" where
  "postCodeRoute cx fo cookie host b q t0 now t1 db =
     withAuthorizedWrite (cx_sha256 cx) fg_auth cookie host (Some (fq_tenant_id q)) t0 t1 (postCode cx fo b q now) db"

definition retryCodeRoute ::
    "Codec \<Rightarrow> FirmwareOptions \<Rightarrow> string option \<Rightarrow> string \<Rightarrow> string \<Rightarrow> int \<Rightarrow> string \<Rightarrow> int \<Rightarrow> int \<Rightarrow> int \<Rightarrow> ForgeDb \<Rightarrow> (HttpError + int) \<times> ForgeDb" where
  "retryCodeRoute cx fo cookie host b v tenant t0 now t1 db =
     withAuthorizedWrite (cx_sha256 cx) fg_auth cookie host (Some tenant) t0 t1 (retryCode cx fo b v now) db"

subsection \<open>Downloading\<close>

definition ARTIFACT_FILES :: "string list" where
  "ARTIFACT_FILES = [''manifest.json'', ''bootloader.bin'', ''partition-table.bin'', ''albusforge.bin'', ''app.cpp'', ''firmware.zip'']"

definition artifact_digest :: "FirmwarePassedRecord \<Rightarrow> string \<Rightarrow> string option" where
  "artifact_digest r file =
     (if file = ''manifest.json'' then Some (fp_manifest_digest r)
      else if file = ''app.cpp'' then Some (fp_source_sha256 r)
      else if file = ''firmware.zip'' then fp_bundle_sha256 r
      else map_option ff_sha256 (List.find (\<lambda>f. ff_path f = file) (mf_files (fp_manifest r))))"

definition artifact_location :: "string \<Rightarrow> int \<Rightarrow> string \<Rightarrow> ForgeDb \<Rightarrow> ReadIdentity \<Rightarrow> HttpError + (string \<times> string)" where
  "artifact_location b v file db who =
     (if \<not> owned db b (ri_tenantId who) then Inl (http_error 404 ''NOT_FOUND'')
      else case find_bundle db b v of
        None \<Rightarrow> Inl (http_error 404 ''NOT_FOUND'')
      | Some row \<Rightarrow>
     (case bu_storageRef row of
        None \<Rightarrow> Inl (http_error 404 ''NOT_FOUND'')
      | Some storage \<Rightarrow>
          if bu_status row \<noteq> BPassed \<or> storage = [] then Inl (http_error 404 ''NOT_FOUND'')
          else case passed_of (bu_log row) of
            None \<Rightarrow> Inl (http_error 503 ''ARTIFACT_UNAVAILABLE'')
          | Some record \<Rightarrow>
              (case artifact_digest record file of
                 None \<Rightarrow> Inl (http_error 503 ''ARTIFACT_UNAVAILABLE'')
               | Some digest \<Rightarrow> if digest = [] then Inl (http_error 503 ''ARTIFACT_UNAVAILABLE'') else Inr (storage @ ''/'' @ file, digest))))"

definition getArtifact ::
    "Codec \<Rightarrow> FirmwareOptions \<Rightarrow> string option \<Rightarrow> string \<Rightarrow> string \<Rightarrow> int \<Rightarrow> string \<Rightarrow> int \<Rightarrow> ForgeDb \<Rightarrow> Store \<Rightarrow> HttpError + string" where
  "getArtifact cx fo cookie host b v file now db store =
     (case withAuthorizedRead (cx_sha256 cx) cookie host now (fg_auth db) (artifact_location b v file db) of
        Inl e \<Rightarrow> Inl e
      | Inr (key, digest) \<Rightarrow>
          if \<not> fo_artifacts fo then Inl (http_error 503 ''ARTIFACT_UNAVAILABLE'')
          else case artifact_get key store of
            Inl _ \<Rightarrow> Inl internal_error
          | Inr bytes \<Rightarrow> if cx_sha256 cx bytes \<noteq> digest then Inl (http_error 503 ''ARTIFACT_UNAVAILABLE'') else Inr bytes)"


subsection \<open>The worker\<close>

definition LEASE_MS :: int where
  "LEASE_MS = 15 * 60000"

definition expired_lease :: "int \<Rightarrow> BundleRow \<Rightarrow> bool" where
  "expired_lease now r \<longleftrightarrow> bu_status r = BRunning \<and> bu_updatedAt r < now - LEASE_MS"

text \<open>\<open>(compile_log->'job'->>'attempts')::int\<close>, null when there is no job.\<close>

definition row_attempts :: "BundleRow \<Rightarrow> int option" where
  "row_attempts r = map_option fj_attempts (log_job (bu_log r))"

text \<open>\<open>compile_log || {...}\<close>: notes added to a record of another shape leave no shape.\<close>

fun log_note :: "string \<Rightarrow> CompileLog \<Rightarrow> CompileLog" where
  "log_note e (Work l) = Work (l\<lparr>wl_error := Some e\<rparr>)"
| "log_note e _ = Unreadable"

fun log_failure :: "string \<Rightarrow> string option \<Rightarrow> CompileLog \<Rightarrow> CompileLog" where
  "log_failure e d (Work l) = Work (l\<lparr>wl_error := Some e, wl_diagnostics := d\<rparr>)"
| "log_failure e d _ = Unreadable"

definition expire_leases :: "int \<Rightarrow> ForgeDb \<Rightarrow> ForgeDb" where
  "expire_leases now db =
     db\<lparr>fg_bundles := map (\<lambda>r. if expired_lease now r \<and> (case row_attempts r of None \<Rightarrow> False | Some n \<Rightarrow> n \<ge> 3)
          then r\<lparr>bu_status := BFailed, bu_log := log_note ''Worker lease expired after three attempts'' (bu_log r), bu_updatedAt := now\<rparr>
          else r) (fg_bundles db)\<rparr>"

definition claimable :: "int \<Rightarrow> BundleRow \<Rightarrow> bool" where
  "claimable now r \<longleftrightarrow> (bu_status r = BPending \<or> expired_lease now r) \<and> (case row_attempts r of None \<Rightarrow> False | Some n \<Rightarrow> n < 3)"

definition oldest :: "BundleRow list \<Rightarrow> BundleRow option" where
  "oldest rows = (case js_sort (\<lambda>x y. compare_lt (bu_createdAt x) (bu_createdAt y)) rows of [] \<Rightarrow> None | r # _ \<Rightarrow> Some r)"

definition lease_row :: "string \<Rightarrow> int \<Rightarrow> BundleRow \<Rightarrow> BundleRow" where
  "lease_row lease now r =
     r\<lparr>bu_status := BRunning, bu_updatedAt := now,
       bu_log := Work \<lparr>wl_job = map_option (\<lambda>j. j\<lparr>fj_attempts := fj_attempts j + 1\<rparr>) (log_job (bu_log r)), wl_lease = Some lease,
                       wl_error = None, wl_diagnostics = None\<rparr>\<rparr>"

record ClaimedRow =
  cr_bundle :: BundleRow
  cr_plan :: PlanRow
  cr_spec_data :: jvalue
  cr_tenant :: "string option"
  cr_latest_spec :: "int option"

text \<open>The claimed row joined with its plan, specification and build; without them there is nothing to do, though the row is leased.\<close>

definition joined :: "ForgeDb \<Rightarrow> BundleRow \<Rightarrow> ClaimedRow option" where
  "joined db r =
     (case (List.find (\<lambda>p. pr_buildId p = bu_buildId r \<and> pr_version p = bu_planVersion r) (fg_plans db),
            List.find (\<lambda>b. bd_id b = bu_buildId r) (ad_builds (fg_auth db))) of
        (Some p, Some b) \<Rightarrow>
          map_option (\<lambda>data. \<lparr>cr_bundle = r, cr_plan = p, cr_spec_data = data, cr_tenant = bd_tenantId b, cr_latest_spec = latest_spec_version db (bu_buildId r)\<rparr>)
            (spec_data db (bu_buildId r) (pr_specVersion p))
      | _ \<Rightarrow> None)"

definition claim_job :: "string \<Rightarrow> int \<Rightarrow> ForgeDb \<Rightarrow> ClaimedRow option \<times> ForgeDb" where
  "claim_job lease now db0 =
     (let db = expire_leases now db0 in
      case oldest (filter (claimable now) (fg_bundles db)) of
        None \<Rightarrow> (None, db)
      | Some r \<Rightarrow>
          (let db' = set_bundle (bu_buildId r) (bu_version r) (lease_row lease now) db
           in (joined db' (lease_row lease now r), db')))"

record JobOptions =
  jo_approvals :: "CameraPlanApproval list"
  jo_compile :: "CompileInput \<Rightarrow> js_error + Compiled"
  jo_compileCamera :: "(CompileInput \<Rightarrow> js_error + Compiled) option"

definition stale_plan :: js_error where
  "stale_plan = Thrown ''Accepted plan is no longer current''"

text \<open>From the claimed row to the compiler's output.\<close>

definition compile_claimed :: "Codec \<Rightarrow> JobOptions \<Rightarrow> ClaimedRow \<Rightarrow> js_error + (FirmwareJobRequest \<times> DecodedPlan \<times> Compiled)" where
  "compile_claimed cx jo row =
     (case job_of (bu_log (cr_bundle row)) of
        None \<Rightarrow> Inl (Thrown ''ZodError'')
      | Some job \<Rightarrow>
          if cr_tenant row = None \<or> pr_acceptedAt (cr_plan row) = None \<or> Some (pr_specVersion (cr_plan row)) \<noteq> cr_latest_spec row
          then Inl stale_plan
          else case decodePlan cx (jo_approvals jo) (cr_plan row) (cr_spec_data row) of
            Inl e \<Rightarrow> Inl e
          | Inr plan \<Rightarrow>
              if jless (Fin (of_int (fj_interval_s job))) (dq_interval_s plan) then Inl (Thrown ''Edit violates accepted power interval'')
              else case renderCandidate (dq_candidate plan) (Fin (of_int (fj_interval_s job))) of
                Inl e \<Rightarrow> Inl e
              | Inr _ \<Rightarrow>
                  (case (if ac_kind (dq_candidate plan) = Camera then jo_compileCamera jo else Some (jo_compile jo)) of
                     None \<Rightarrow> Inl (Thrown ''This accepted plan has no configured camera compiler'')
                   | Some run \<Rightarrow>
                       (case run \<lparr>ci_build_id = bu_buildId (cr_bundle row), ci_plan_version = bu_planVersion (cr_bundle row),
                                  ci_code_version = bu_version (cr_bundle row), ci_interval_s = fj_interval_s job,
                                  ci_numeric = ac_numeric (dq_candidate plan)\<rparr> of
                          Inl e \<Rightarrow> Inl e
                        | Inr compiled \<Rightarrow> Inr (job, plan, compiled))))"

text \<open>The checks on what the compiler returned.\<close>

definition file_differs :: "Codec \<Rightarrow> (string \<times> string) list \<Rightarrow> FirmwareFile \<Rightarrow> bool" where
  "file_differs cx files f \<longleftrightarrow>
     (case map_of files (ff_path f) of None \<Rightarrow> True | Some bytes \<Rightarrow> int (length bytes) \<noteq> ff_size f \<or> cx_sha256 cx bytes \<noteq> ff_sha256 f)"

definition identity_mismatch :: "Codec \<Rightarrow> BundleRow \<Rightarrow> FirmwareJobRequest \<Rightarrow> DecodedPlan \<Rightarrow> Compiled \<Rightarrow> bool" where
  "identity_mismatch cx r job plan c \<longleftrightarrow>
     (let m = co_manifest c in
      mf_build_id m \<noteq> bu_buildId r \<or> mf_plan_version m \<noteq> bu_planVersion r \<or> mf_code_version m \<noteq> bu_version r \<or>
      \<not> candidateManifestMatches cx (dq_candidate plan) m \<or>
      serializeFirmwareManifest m \<noteq> Inr (co_manifestBytes c) \<or> co_manifest_digest c \<noteq> cx_sha256 cx (co_manifestBytes c) \<or>
      renderCandidate (dq_candidate plan) (Fin (of_int (fj_interval_s job))) \<noteq> Inr (co_source c) \<or>
      co_source_sha256 c \<noteq> cx_sha256 cx (co_source c) \<or>
      length (co_files c) \<noteq> 3 \<or> list_ex (file_differs cx (co_files c)) (mf_files m))"

definition job_prefix :: "BundleRow \<Rightarrow> string \<Rightarrow> string" where
  "job_prefix r lease = ''builds/'' @ bu_buildId r @ ''/code/'' @ int_str (bu_version r) @ ''/'' @ lease"

text \<open>The six uploads in their order; the store keeps what was written before one fails.\<close>

definition uploads :: "Compiled \<Rightarrow> (string \<times> string) list" where
  "uploads c = co_files c @ [(''manifest.json'', co_manifestBytes c), (''app.cpp'', co_source c), (''firmware.zip'', co_bundle c)]"

fun put_all :: "(string \<Rightarrow> string \<Rightarrow> 's \<Rightarrow> 'e + 's) \<Rightarrow> string \<Rightarrow> (string \<times> string) list \<Rightarrow> 's \<Rightarrow> 'e option \<times> 's" where
  "put_all put dir [] store = (None, store)"
| "put_all put dir ((name, bytes) # rest) store =
     (case put (dir @ ''/'' @ name) bytes store of
        Inl e \<Rightarrow> (Some e, store)
      | Inr store' \<Rightarrow> put_all put dir rest store')"

definition passed_record :: "Codec \<Rightarrow> FirmwareJobRequest \<Rightarrow> DecodedPlan \<Rightarrow> Compiled \<Rightarrow> FirmwarePassedRecord" where
  "passed_record cx job plan c =
     \<lparr>fp_job = Some job, fp_candidate_id = ac_id (dq_candidate plan), fp_manifest = co_manifest c, fp_manifest_digest = co_manifest_digest c,
      fp_image_digest = COMPILER_IMAGE, fp_idf_version = ''5.5.3'', fp_bundle_sha256 = Some (cx_sha256 cx (co_bundle c)),
      fp_source_sha256 = co_source_sha256 c, fp_instruction = fj_instruction job, fp_diagnostics = co_diagnostics c\<rparr>"

record ReadyRun =
  rr_job :: FirmwareJobRequest
  rr_plan :: DecodedPlan
  rr_manifest :: FirmwareManifest
  rr_prefix :: string
  rr_passed :: FirmwarePassedRecord

text \<open>Everything between the claim and the publishing transaction.\<close>

definition prepare_job :: "Codec \<Rightarrow> JobOptions \<Rightarrow> string \<Rightarrow> ClaimedRow \<Rightarrow> Store \<Rightarrow> (js_error + ReadyRun) \<times> Store" where
  "prepare_job cx jo lease row store =
     (case compile_claimed cx jo row of
        Inl e \<Rightarrow> (Inl e, store)
      | Inr (job, plan, compiled) \<Rightarrow>
          if identity_mismatch cx (cr_bundle row) job plan compiled then (Inl (Thrown ''Compile manifest identity mismatch''), store)
          else (case put_all artifact_put (job_prefix (cr_bundle row) lease) (uploads compiled) store of
            (Some e, store') \<Rightarrow> (Inl e, store')
          | (None, store') \<Rightarrow>
              (let passed = passed_record cx job plan compiled in
               (if FirmwarePassedRecord_ok passed
                then Inr \<lparr>rr_job = job, rr_plan = plan, rr_manifest = co_manifest compiled, rr_prefix = job_prefix (cr_bundle row) lease, rr_passed = passed\<rparr>
                else Inl (Thrown ''ZodError''), store'))))"

definition holds_lease :: "string \<Rightarrow> BundleRow \<Rightarrow> bool" where
  "holds_lease lease r \<longleftrightarrow> bu_status r = BRunning \<and> (case bu_log r of Work l \<Rightarrow> wl_lease l = Some lease | _ \<Rightarrow> False)"

text \<open>The publishing transaction.\<close>

definition publish_job :: "Codec \<Rightarrow> JobOptions \<Rightarrow> string \<Rightarrow> BundleRow \<Rightarrow> ReadyRun \<Rightarrow> int \<Rightarrow> ForgeDb \<Rightarrow> js_error option \<times> ForgeDb" where
  "publish_job cx jo lease r run now db =
     (case current_plan db (bu_buildId r) (bu_planVersion r) of
        None \<Rightarrow> (Some stale_plan, db)
      | Some (p, data) \<Rightarrow>
     (case decodePlan cx (jo_approvals jo) p data of
        Inl e \<Rightarrow> (Some e, db)
      | Inr fresh \<Rightarrow>
          if md_input_digest (dq_metadata fresh) \<noteq> md_input_digest (dq_metadata (rr_plan run)) \<or>
             \<not> candidateManifestMatches cx (dq_candidate fresh) (rr_manifest run)
          then (Some (Thrown ''Accepted plan compiler approval changed before publication''), db)
          else case renderCandidate (dq_candidate fresh) (Fin (of_int (fj_interval_s (rr_job run)))) of
            Inl e \<Rightarrow> (Some e, db)
          | Inr _ \<Rightarrow>
              (case find_bundle db (bu_buildId r) (bu_version r) of
                 None \<Rightarrow> (Some (Thrown ''Compile lease changed before publication''), db)
               | Some row \<Rightarrow>
                   if \<not> holds_lease lease row then (Some (Thrown ''Compile lease changed before publication''), db)
                   else (None, set_bundle (bu_buildId r) (bu_version r)
                     (\<lambda>x. x\<lparr>bu_status := BPassed, bu_storageRef := Some (rr_prefix run), bu_log := PassedLog (rr_passed run), bu_updatedAt := now\<rparr>) db))))"

definition visible_failures :: "string list" where
  "visible_failures = [''Accepted plan'', ''This accepted plan'', ''Edit violates'', ''Compile deadline'', ''Compile lease'']"

fun error_message :: "js_error \<Rightarrow> string" where
  "error_message (Thrown m) = m"
| "error_message _ = []"

definition failure_message :: "js_error \<Rightarrow> string" where
  "failure_message e =
     (if list_ex (startsWith (error_message e)) visible_failures then error_message e
      else ''Firmware compilation failed; inspect the bounded compiler diagnostics and retry'')"

definition failure_diagnostics :: "js_error \<Rightarrow> string option" where
  "failure_diagnostics e =
     (if startsWith (error_message e) ''Compile failed:'' then Some (slice_last 20000 (error_message e)) else None)"

definition fail_job :: "string \<Rightarrow> BundleRow \<Rightarrow> js_error \<Rightarrow> int \<Rightarrow> ForgeDb \<Rightarrow> ForgeDb" where
  "fail_job lease r e now db =
     set_bundle (bu_buildId r) (bu_version r)
       (\<lambda>x. if holds_lease lease x
            then x\<lparr>bu_status := BFailed, bu_log := log_failure (failure_message e) (failure_diagnostics e) (bu_log x), bu_updatedAt := now\<rparr> else x) db"

text \<open>One run without interruption: \<open>False\<close> when there was nothing to do.\<close>

definition runClaimed :: "Codec \<Rightarrow> JobOptions \<Rightarrow> string \<Rightarrow> int \<Rightarrow> int \<Rightarrow> ForgeDb \<Rightarrow> Store \<Rightarrow> bool \<times> ForgeDb \<times> Store" where
  "runClaimed cx jo lease now later db store =
     (case claim_job lease now db of
        (None, db') \<Rightarrow> (False, db', store)
      | (Some row, db') \<Rightarrow>
          (case prepare_job cx jo lease row store of
             (Inl e, store') \<Rightarrow> (True, fail_job lease (cr_bundle row) e later db', store')
           | (Inr run, store') \<Rightarrow>
               (case publish_job cx jo lease (cr_bundle row) run later db' of
                  (Some e, _) \<Rightarrow> (True, fail_job lease (cr_bundle row) e later db', store')
                | (None, db'') \<Rightarrow> (True, db'', store'))))"


end
