(* ===== verification/Firmware_Queue.thy ===== *)
theory Firmware_Queue
  imports Firmware_Jobs
begin
text \<open>
  Firmware versions under concurrency: requests, retries and any number of worker runs as transitions on the tables, the artifact store
  and the runs in flight. Each label names the version a transition claims, if it claims one. The worker's advisory lock, which keeps runs
  apart in practice, is not assumed: the row leases alone are shown to be enough.
\<close>

subsection \<open>The artifact store as a client sees it\<close>

locale artifact_store =
  fixes put :: "string \<Rightarrow> string \<Rightarrow> 's \<Rightarrow> 'e + 's"
    and get :: "'s \<Rightarrow> string \<Rightarrow> string option"
  assumes put_get: "put key bytes s = Inr s' \<Longrightarrow> get s' key = Some bytes"
    and put_keeps: "put key bytes s = Inr s' \<Longrightarrow> get s k = Some b \<Longrightarrow> get s' k = Some b"
begin

lemma put_all_keeps: "put_all put dir files s = (r, s') \<Longrightarrow> get s k = Some b \<Longrightarrow> get s' k = Some b"
proof (induction files arbitrary: s)
  case (Cons f files)
  then obtain s1 where "put (dir @ ''/'' @ fst f) (snd f) s = Inr s1 \<and> put_all put dir files s1 = (r, s') \<or> s' = s"
    by (cases f) (auto split: sum.splits)
  with Cons.IH Cons.prems(2) put_keeps show ?case by blast
qed simp

lemma put_all_stored:
  "put_all put dir files s = (None, s') \<Longrightarrow> (name, bytes) \<in> set files \<Longrightarrow> get s' (dir @ ''/'' @ name) = Some bytes"
proof (induction files arbitrary: s)
  case (Cons f files)
  obtain n b where f: "f = (n, b)" by (cases f)
  with Cons.prems(1) obtain s1 where s1: "put (dir @ ''/'' @ n) b s = Inr s1" "put_all put dir files s1 = (None, s')"
    by (auto split: sum.splits)
  show ?case
  proof (cases "(name, bytes) = f")
    case True
    with put_all_keeps [OF s1(2) put_get [OF s1(1)]] f show ?thesis by simp
  next
    case False
    with Cons.prems(2) Cons.IH [OF s1(2)] show ?thesis by simp
  qed
qed simp

end

lemma artifact_put_Inr:
  "artifact_put key bytes s = Inr s' \<longleftrightarrow>
     length bytes \<le> MAX_ARTIFACT_BYTES \<and> artifact_key key \<and> s key = None \<and> s' = s(key \<mapsto> bytes)"
  by (auto simp: artifact_put_def)

interpretation artifacts: artifact_store artifact_put "\<lambda>s k. s k"
  by unfold_locales (auto simp: artifact_put_Inr)

text \<open>What has been written passes the checks of a read.\<close>

definition store_ok :: "Store \<Rightarrow> bool" where
  "store_ok s \<longleftrightarrow> (\<forall>k b. s k = Some b \<longrightarrow> artifact_key k \<and> length b \<le> MAX_ARTIFACT_BYTES)"

lemma store_ok_put: "store_ok s \<Longrightarrow> artifact_put key bytes s = Inr s' \<Longrightarrow> store_ok s'"
  by (auto simp: store_ok_def artifact_put_Inr)

lemma store_ok_put_all: "put_all artifact_put dir files s = (r, s') \<Longrightarrow> store_ok s \<Longrightarrow> store_ok s'"
proof (induction files arbitrary: s)
  case (Cons f files)
  then obtain s1 where "artifact_put (dir @ ''/'' @ fst f) (snd f) s = Inr s1 \<and> put_all artifact_put dir files s1 = (r, s') \<or> s' = s"
    by (cases f) (auto split: sum.splits)
  with Cons.IH Cons.prems(2) store_ok_put show ?case by blast
qed simp

lemma store_ok_get: "store_ok s \<Longrightarrow> s k = Some b \<Longrightarrow> artifact_get k s = Inr b"
  by (auto simp: store_ok_def artifact_get_def not_less)

subsection \<open>Transitions\<close>

record WorkRun =
  wr_lease :: string
  wr_row :: ClaimedRow
  wr_ready :: "ReadyRun option"

record Workshop =
  wk_db :: ForgeDb
  wk_store :: Store
  wk_runs :: "WorkRun list"

abbreviation wk_bundles :: "Workshop \<Rightarrow> BundleRow list" where
  "wk_bundles k \<equiv> fg_bundles (wk_db k)"

definition claim_target :: "int \<Rightarrow> ForgeDb \<Rightarrow> BundleRow option" where
  "claim_target now db = oldest (filter (claimable now) (fg_bundles (expire_leases now db)))"

definition fresh_lease :: "string \<Rightarrow> Workshop \<Rightarrow> bool" where
  "fresh_lease lease k \<longleftrightarrow> (\<forall>r \<in> set (wk_bundles k). \<not> holds_lease lease r) \<and> lease \<notin> set (map wr_lease (wk_runs k))"

inductive firmware_step :: "Codec \<Rightarrow> (string \<times> int) option \<Rightarrow> Workshop \<Rightarrow> Workshop \<Rightarrow> bool" for cx :: Codec where
  fs_request: "postCode cx fo b q now w (wk_db k) = (Inr v, db') \<Longrightarrow> firmware_step cx None k (k\<lparr>wk_db := db'\<rparr>)"
| fs_retry: "retryCode cx fo b v now w (wk_db k) = (Inr v', db') \<Longrightarrow> firmware_step cx None k (k\<lparr>wk_db := db'\<rparr>)"
| fs_claim: "fresh_lease lease k \<Longrightarrow> claim_job lease now (wk_db k) = (row, db') \<Longrightarrow>
    firmware_step cx (map_option (\<lambda>r. (bu_buildId r, bu_version r)) (claim_target now (wk_db k))) k
      (k\<lparr>wk_db := db', wk_runs := wk_runs k @ (case row of None \<Rightarrow> [] | Some r \<Rightarrow> [\<lparr>wr_lease = lease, wr_row = r, wr_ready = None\<rparr>])\<rparr>)"
| fs_prepare: "run \<in> set (wk_runs k) \<Longrightarrow> prepare_job cx jo (wr_lease run) (wr_row run) (wk_store k) = (Inr ready, s') \<Longrightarrow>
    firmware_step cx None k (k\<lparr>wk_store := s', wk_runs := remove1 run (wk_runs k) @ [run\<lparr>wr_ready := Some ready\<rparr>]\<rparr>)"
| fs_upload: "artifact_put key bytes (wk_store k) = Inr s' \<Longrightarrow> firmware_step cx None k (k\<lparr>wk_store := s'\<rparr>)"
| fs_publish: "run \<in> set (wk_runs k) \<Longrightarrow> wr_ready run = Some ready \<Longrightarrow>
    publish_job cx jo (wr_lease run) (cr_bundle (wr_row run)) ready now (wk_db k) = (None, db') \<Longrightarrow>
    firmware_step cx None k (k\<lparr>wk_db := db', wk_runs := remove1 run (wk_runs k)\<rparr>)"
| fs_fail: "run \<in> set (wk_runs k) \<Longrightarrow>
    firmware_step cx None k (k\<lparr>wk_db := fail_job (wr_lease run) (cr_bundle (wr_row run)) e now (wk_db k), wk_runs := remove1 run (wk_runs k)\<rparr>)"
| fs_lost: "run \<in> set (wk_runs k) \<Longrightarrow> firmware_step cx None k (k\<lparr>wk_runs := remove1 run (wk_runs k)\<rparr>)"
| fs_world: "fg_bundles db' = wk_bundles k \<Longrightarrow> firmware_step cx None k (k\<lparr>wk_db := db'\<rparr>)"

inductive firmware_run :: "Codec \<Rightarrow> Workshop \<Rightarrow> (string \<times> int) option list \<Rightarrow> Workshop \<Rightarrow> bool" for cx :: Codec and k0 :: Workshop where
  run_start: "firmware_run cx k0 [] k0"
| run_step: "firmware_run cx k0 ls k \<Longrightarrow> firmware_step cx l k k' \<Longrightarrow> firmware_run cx k0 (ls @ [l]) k'"

definition workshop_start :: "Workshop \<Rightarrow> bool" where
  "workshop_start k \<longleftrightarrow> wk_bundles k = [] \<and> wk_runs k = [] \<and> store_ok (wk_store k)"

subsection \<open>How a transition changes the rows\<close>

definition bundle_key :: "BundleRow \<Rightarrow> string \<times> int" where
  "bundle_key r = (bu_buildId r, bu_version r)"

text \<open>A row's history: its identity stays, and a passed row does not change at all.\<close>

definition row_after :: "BundleRow \<Rightarrow> BundleRow \<Rightarrow> bool" where
  "row_after r r' \<longleftrightarrow> bundle_key r' = bundle_key r \<and> bu_planVersion r' = bu_planVersion r \<and> (bu_status r = BPassed \<longrightarrow> r' = r)"

definition work_row :: "BundleRow \<Rightarrow> bool" where
  "work_row r \<longleftrightarrow> (\<exists>l j. bu_log r = Work l \<and> wl_job l = Some j \<and> FirmwareJobRequest_ok j) \<and> (bu_status r = BRunning \<longrightarrow> (\<exists>lease. holds_lease lease r))"

definition row_ok :: "BundleRow \<Rightarrow> bool" where
  "row_ok r \<longleftrightarrow> (if bu_status r = BPassed then bu_log r \<in> range PassedLog \<and> (\<exists>j. log_job (bu_log r) = Some j \<and> FirmwareJobRequest_ok j) else work_row r)"

lemma row_after_refl: "row_after r r"
  by (simp add: row_after_def)

lemma row_after_trans: "row_after a b \<Longrightarrow> row_after b c \<Longrightarrow> row_after a c"
  by (auto simp: row_after_def)

lemma row_ok_attempts: "row_ok r \<Longrightarrow> \<exists>n. row_attempts r = Some n \<and> 0 \<le> n \<and> n \<le> 3"
  by (auto simp: row_ok_def work_row_def row_attempts_def FirmwareJobRequest_ok_def split: if_splits)

text \<open>The rows change one by one; those of \<open>P\<close> count one attempt more.\<close>

definition rows_change :: "(BundleRow \<Rightarrow> bool) \<Rightarrow> BundleRow list \<Rightarrow> BundleRow list \<Rightarrow> bool" where
  "rows_change P rows rows' \<longleftrightarrow>
     (\<exists>g. rows' = map g rows \<and> (\<forall>r \<in> set rows. row_after r (g r) \<and> (bu_status (g r) = BPassed \<longleftrightarrow> bu_status r = BPassed) \<and>
        row_attempts (g r) = (if P r then map_option (\<lambda>n. n + 1) (row_attempts r) else row_attempts r)))"

text \<open>The rows of a build carry the versions 1, 2, \<dots> in the order of their insertion; there are at most a hundred, at most one in progress.\<close>

definition build_rows :: "string \<Rightarrow> BundleRow list \<Rightarrow> BundleRow list" where
  "build_rows b rows = filter (\<lambda>r. bu_buildId r = b) rows"

definition rows_ok :: "BundleRow list \<Rightarrow> bool" where
  "rows_ok rows \<longleftrightarrow>
     (\<forall>b. map bu_version (build_rows b rows) = map int [1..<Suc (length (build_rows b rows))] \<and> length (build_rows b rows) \<le> 100 \<and>
          length (filter in_progress (build_rows b rows)) \<le> 1) \<and>
     (\<forall>r \<in> set rows. row_ok r)"

lemma rows_ok_versions:
  assumes "rows_ok rows"
  shows "distinct (map bu_version (build_rows b rows))"
proof -
  have "distinct (map int [1..<Suc (length (build_rows b rows))])" by (simp add: distinct_map)
  then show ?thesis using assms by (simp add: rows_ok_def)
qed

lemma rows_ok_keys: "rows_ok rows \<Longrightarrow> r \<in> set rows \<Longrightarrow> r' \<in> set rows \<Longrightarrow> bundle_key r = bundle_key r' \<Longrightarrow> r = r'"
proof -
  assume a: "rows_ok rows" "r \<in> set rows" "r' \<in> set rows" "bundle_key r = bundle_key r'"
  then have "r \<in> set (build_rows (bu_buildId r) rows)" "r' \<in> set (build_rows (bu_buildId r) rows)" by (auto simp: build_rows_def bundle_key_def)
  with rows_ok_versions [OF a(1), of "bu_buildId r"] a(4) show "r = r'" by (auto simp: distinct_map bundle_key_def inj_on_def)
qed

text \<open>A change row by row that keeps every row's identity.\<close>

lemma rows_ok_map:
  assumes ok: "rows_ok rows" and key: "\<And>r. r \<in> set rows \<Longrightarrow> bundle_key (g r) = bundle_key r" and row: "\<And>r. r \<in> set rows \<Longrightarrow> row_ok (g r)"
    and progress: "\<And>r. r \<in> set rows \<Longrightarrow> in_progress (g r) \<Longrightarrow> in_progress r \<or> \<not> list_ex in_progress (build_rows (bu_buildId r) rows) \<and> bundle_key r = i"
  shows "rows_ok (map g rows)"
proof -
  have b: "build_rows b (map g rows) = map g (build_rows b rows)" for b
    unfolding build_rows_def filter_map comp_def
    by (rule arg_cong [where f = "map g"], rule filter_cong) (use key in \<open>auto simp: bundle_key_def\<close>)
  have v: "map bu_version (map g (build_rows b rows)) = map bu_version (build_rows b rows)" for b
    using key by (auto simp: build_rows_def bundle_key_def)
  have p: "length (filter in_progress (map g (build_rows b rows))) \<le> 1" for b
  proof (cases "list_ex in_progress (build_rows b rows)")
    case True
    have "filter (in_progress \<circ> g) (build_rows b rows) = filter (\<lambda>r. in_progress r \<and> in_progress (g r)) (build_rows b rows)"
      by (rule filter_cong) (use progress True in \<open>auto simp: build_rows_def\<close>)
    also have "length \<dots> \<le> length (filter in_progress (build_rows b rows))"
      unfolding filter_filter [symmetric] by (rule length_filter_le)
    also have "\<dots> \<le> 1" using ok by (simp add: rows_ok_def)
    finally show ?thesis by (simp add: filter_map)
  next
    case False
    let ?q = "filter (in_progress \<circ> g) (build_rows b rows)"
    have "bundle_key r = i" if "r \<in> set ?q" for r
      using that progress [of r] False by (auto simp: build_rows_def list_ex_iff)
    then have "set (map bundle_key ?q) \<subseteq> {i}" by auto
    moreover have "distinct (map bundle_key ?q)"
    proof -
      have "map snd (map bundle_key ?q) = map bu_version ?q" by (simp add: bundle_key_def)
      then have "distinct (map snd (map bundle_key ?q))" using distinct_map_filter [OF rows_ok_versions [OF ok]] by (simp only:)
      then show ?thesis by (rule distinct_map [THEN iffD1, THEN conjunct1])
    qed
    ultimately have "length (map bundle_key ?q) \<le> card {i}"
      by (metis card_mono distinct_card finite.emptyI finite_insert)
    then show ?thesis by (simp add: filter_map)
  qed
  show ?thesis using ok p row unfolding rows_ok_def b v by (simp del: upt_Suc)
qed


lemma rows_ok_snoc:
  assumes ok: "rows_ok rows" and r: "row_ok r" "bu_version r = 1 + int (length (build_rows (bu_buildId r) rows))"
    "length (build_rows (bu_buildId r) rows) < 100" "\<not> list_ex in_progress (build_rows (bu_buildId r) rows)"
  shows "rows_ok (rows @ [r])"
proof -
  have b: "build_rows b (rows @ [r]) = build_rows b rows @ (if bu_buildId r = b then [r] else [])" for b by (simp add: build_rows_def)
  have "filter in_progress (build_rows (bu_buildId r) rows) = []" using r(4) by (auto simp: filter_empty_conv list_ex_iff)
  then show ?thesis using ok r by (auto simp: rows_ok_def b)
qed

text \<open>The newest version of a build heads the sorted list.\<close>

lemma desc_comparator: "comparator (\<lambda>x y. compare_lt (bu_version (y :: BundleRow)) (bu_version x)) (\<lambda>_. True)"
proof -
  have eq: "(\<lambda>x y. compare_lt (bu_version (y :: BundleRow)) (bu_version x)) = (\<lambda>x y. compare_lt (- bu_version x) (- bu_version y))"
    by (intro ext) (simp add: compare_lt_def)
  show ?thesis unfolding eq by (rule compare_lt_key_comparator)
qed

lemma bundles_of_rows: "set (bundles_of db b) = set (build_rows b (fg_bundles db))" "length (bundles_of db b) = length (build_rows b (fg_bundles db))"
  by (simp_all add: bundles_of_def build_rows_def)

lemma next_version_rows:
  assumes "rows_ok (fg_bundles db)"
  shows "next_version (bundles_of db b) = 1 + int (length (build_rows b (fg_bundles db)))"
proof (cases "bundles_of db b")
  case Nil
  then show ?thesis using bundles_of_rows(2) [of db b] by (simp add: next_version_def)
next
  case (Cons r rest)
  let ?rows = "build_rows b (fg_bundles db)" and ?n = "length (build_rows b (fg_bundles db))"
  have v: "map bu_version ?rows = map int [1..<Suc ?n]" using assms by (simp add: rows_ok_def)
  have "sorted_by (\<lambda>x y. compare_lt (bu_version y) (bu_version x)) (bundles_of db b)"
    unfolding bundles_of_def by (rule comparator.sorted_js_sort [OF desc_comparator]) simp
  then have top: "bu_version r' \<le> bu_version r" if "r' \<in> set ?rows" for r'
    using that Cons bundles_of_rows(1) [of db b] by auto
  have n: "?n \<ge> 1" using Cons bundles_of_rows(2) [of db b] by simp
  then have "int ?n \<in> set (map bu_version ?rows)" unfolding v by simp
  then have "int ?n \<le> bu_version r" using top by auto
  moreover have "bu_version r \<in> set (map bu_version ?rows)" using Cons bundles_of_rows(1) [of db b] by auto
  then have "bu_version r \<le> int ?n" unfolding v by auto
  ultimately show ?thesis by (simp add: next_version_def Cons)
qed

subsection \<open>Requests and retries\<close>

lemma postCode_rows:
  assumes "postCode cx fo b q now w db = (Inr v, db')" and ok: "rows_ok (fg_bundles db)"
  shows "rows_ok (fg_bundles db')" and "\<exists>new. fg_bundles db' = fg_bundles db @ new \<and> (\<forall>r \<in> set new. row_attempts r = Some 0 \<and> bu_status r = BPending)"
proof -
  from assms(1) consider "db' = db"
    | job where "\<not> list_ex in_progress (bundles_of db b)" "length (bundles_of db b) < 100" "FirmwareJobRequest_ok job" "fj_attempts job = 0"
        "db' = db\<lparr>fg_bundles := fg_bundles db @ [\<lparr>bu_buildId = b, bu_version = next_version (bundles_of db b), bu_planVersion = fq_plan_version q,
           bu_status = BPending, bu_storageRef = None, bu_log = new_work job, bu_createdAt = now, bu_updatedAt = now\<rparr>]\<rparr>"
    by (auto simp: postCode_def Let_def not_le split: if_splits sum.splits option.splits)
  then show "rows_ok (fg_bundles db')" "\<exists>new. fg_bundles db' = fg_bundles db @ new \<and> (\<forall>r \<in> set new. row_attempts r = Some 0 \<and> bu_status r = BPending)"
  proof (atomize (full), cases)
    case 2
    have "\<not> list_ex in_progress (build_rows b (fg_bundles db))" using 2(1) bundles_of_rows(1) [of db b] by (simp add: list_ex_iff)
    then have "rows_ok (fg_bundles db')" using 2 next_version_rows [OF ok, of b] bundles_of_rows(2) [of db b]
      by (auto intro!: rows_ok_snoc [OF ok] simp: row_ok_def work_row_def new_work_def)
    then show "rows_ok (fg_bundles db') \<and> (\<exists>new. fg_bundles db' = fg_bundles db @ new \<and> (\<forall>r \<in> set new. row_attempts r = Some 0 \<and> bu_status r = BPending))"
      using 2 by (simp add: row_attempts_def new_work_def)
  qed (use ok in auto)
qed

lemma set_bundle_rows: "fg_bundles (set_bundle b v f db) = map (\<lambda>r. if bu_buildId r = b \<and> bu_version r = v then f r else r) (fg_bundles db)"
  by (simp add: set_bundle_def)

lemma find_bundle_Some: "find_bundle db b v = Some r \<Longrightarrow> r \<in> set (fg_bundles db) \<and> bundle_key r = (b, v)"
  unfolding find_bundle_def bundle_key_def by (auto dest: find_Some_set)

lemma bundle_key_eq: "bu_buildId r = b \<and> bu_version r = v \<longleftrightarrow> bundle_key r = (b, v)"
  by (auto simp: bundle_key_def)

text \<open>A change of the one row of a key.\<close>

lemma rows_ok_set:
  assumes ok: "rows_ok (fg_bundles db)" and row: "row \<in> set (fg_bundles db)" "bundle_key row = (b, v)"
    and f: "bundle_key (f row) = (b, v)" "row_ok (f row)" "in_progress (f row) \<Longrightarrow> in_progress row \<or> \<not> list_ex in_progress (bundles_of db b)"
  shows "rows_ok (fg_bundles (set_bundle b v f db))"
  unfolding set_bundle_rows bundle_key_eq
proof (rule rows_ok_map [OF ok])
  fix r assume r: "r \<in> set (fg_bundles db)"
  have same: "r = row" if "bundle_key r = (b, v)" using rows_ok_keys [OF ok r row(1)] that row(2) by simp
  show "bundle_key (if bundle_key r = (b, v) then f r else r) = bundle_key r" using same f(1) by auto
  show "row_ok (if bundle_key r = (b, v) then f r else r)" using same f(2) ok r by (auto simp: rows_ok_def)
  assume p: "in_progress (if bundle_key r = (b, v) then f r else r)"
  show "in_progress r \<or> \<not> list_ex in_progress (build_rows (bu_buildId r) (fg_bundles db)) \<and> bundle_key r = (b, v)"
  proof (cases "bundle_key r = (b, v)")
    case True
    then have "bu_buildId r = b" by (simp add: bundle_key_def)
    with True same p f(3) show ?thesis using bundles_of_rows(1) [of db b] by (auto simp: list_ex_iff)
  qed (use p in simp)
qed

lemma retryCode_rows:
  assumes "retryCode cx fo b v now w db = (Inr v', db')" and ok: "rows_ok (fg_bundles db)"
  obtains row job where "row \<in> set (fg_bundles db)" "bundle_key row = (b, v)" "bu_status row = BFailed" "log_job (bu_log row) = Some job"
    "db' = set_bundle b v (\<lambda>r. r\<lparr>bu_status := BPending, bu_log := new_work job, bu_updatedAt := now\<rparr>) db" "rows_ok (fg_bundles db')"
proof -
  from assms(1) obtain row job where r: "find_bundle db b v = Some row" "job_of (bu_log row) = Some job" "bu_status row = BFailed"
      "\<not> list_ex in_progress (bundles_of db b)" "db' = set_bundle b v (\<lambda>r. r\<lparr>bu_status := BPending, bu_log := new_work job, bu_updatedAt := now\<rparr>) db"
    by (auto simp: retryCode_def split: if_splits sum.splits option.splits)
  note row = find_bundle_Some [OF r(1)]
  from r(2) have job: "log_job (bu_log row) = Some job" "FirmwareJobRequest_ok job" by (auto simp: job_of_def split: option.splits if_splits)
  have "rows_ok (fg_bundles db')" unfolding r(5)
    by (rule rows_ok_set [OF ok]) (use row job r(4) in \<open>auto simp: row_ok_def work_row_def new_work_def bundle_key_def\<close>)
  with row r job show thesis by (intro that [of row job]) auto
qed


subsection \<open>Claims\<close>

definition expire_row :: "int \<Rightarrow> BundleRow \<Rightarrow> BundleRow" where
  "expire_row now r =
     (if expired_lease now r \<and> (case row_attempts r of None \<Rightarrow> False | Some n \<Rightarrow> n \<ge> 3)
      then r\<lparr>bu_status := BFailed, bu_log := log_note ''Worker lease expired after three attempts'' (bu_log r), bu_updatedAt := now\<rparr>
      else r)"

lemma expire_leases_rows: "fg_bundles (expire_leases now db) = map (expire_row now) (fg_bundles db)"
  by (simp add: expire_leases_def expire_row_def cong: map_cong)

lemma expire_row_facts:
  assumes "row_ok r"
  shows "row_ok (expire_row now r)" "row_after r (expire_row now r)" "in_progress (expire_row now r) \<Longrightarrow> in_progress r"
    "row_attempts (expire_row now r) = row_attempts r" "bu_status (expire_row now r) = BPassed \<longleftrightarrow> bu_status r = BPassed"
proof -
  show "row_ok (expire_row now r)" "row_after r (expire_row now r)" "in_progress (expire_row now r) \<Longrightarrow> in_progress r"
    "bu_status (expire_row now r) = BPassed \<longleftrightarrow> bu_status r = BPassed"
    using assms by (auto simp: expire_row_def expired_lease_def row_ok_def work_row_def row_after_def bundle_key_def in_progress_def holds_lease_def)
  have "row_attempts (r\<lparr>bu_status := BFailed, bu_log := log_note e (bu_log r), bu_updatedAt := now\<rparr>) = row_attempts r" if "bu_status r = BRunning" for e
    using assms that by (auto simp: row_attempts_def row_ok_def work_row_def)
  then show "row_attempts (expire_row now r) = row_attempts r" by (simp add: expire_row_def expired_lease_def)
qed

lemma oldest_in: "oldest rows = Some r \<Longrightarrow> r \<in> set rows"
  unfolding oldest_def by (metis (no_types, lifting) list.case_eq_if list.set_sel(1) not_Some_eq option.inject set_js_sort)

lemma lease_attempts: "row_attempts (lease_row lease now r) = map_option (\<lambda>n. n + 1) (row_attempts r)"
  by (simp add: row_attempts_def lease_row_def option.map_comp comp_def)

text \<open>The new rows of a claim: expired leases noted, and the target leased with one attempt more.\<close>

lemma claim_rows:
  assumes "claim_job lease now db = (row, db')" and ok: "rows_ok (fg_bundles db)"
  shows "rows_ok (fg_bundles db')"
    and "rows_change (\<lambda>r. map_option bundle_key (claim_target now db) = Some (bundle_key r)) (fg_bundles db) (fg_bundles db')"
    and "row = Some c \<Longrightarrow> cr_bundle c \<in> set (fg_bundles db') \<and> holds_lease lease (cr_bundle c)"
    and "claim_target now db = Some t \<Longrightarrow> bundle_key t \<in> bundle_key ` set (fg_bundles db)"
proof -
  define db1 where "db1 = expire_leases now db"
  have rows1: "fg_bundles db1 = map (expire_row now) (fg_bundles db)" by (simp add: db1_def expire_leases_rows)
  have rok: "row_ok r" if "r \<in> set (fg_bundles db)" for r using ok that by (simp add: rows_ok_def)
  note ex = expire_row_facts [OF rok]
  have ok1: "rows_ok (fg_bundles db1)" unfolding rows1
    by (rule rows_ok_map [OF ok, where i = undefined]) (use ex in \<open>auto simp: row_after_def\<close>)
  show key: "claim_target now db = Some t \<Longrightarrow> bundle_key t \<in> bundle_key ` set (fg_bundles db)" for t
  proof -
    assume "claim_target now db = Some t"
    then have "t \<in> set (fg_bundles db1)" using oldest_in by (fastforce simp: claim_target_def db1_def)
    then show "bundle_key t \<in> bundle_key ` set (fg_bundles db)" using ex(2) by (fastforce simp: rows1 row_after_def)
  qed
  have "rows_ok (fg_bundles db') \<and>
    rows_change (\<lambda>r. map_option bundle_key (claim_target now db) = Some (bundle_key r)) (fg_bundles db) (fg_bundles db') \<and>
    (\<forall>c. row = Some c \<longrightarrow> cr_bundle c \<in> set (fg_bundles db') \<and> holds_lease lease (cr_bundle c))"
  proof (cases "claim_target now db")
    case None
    with assms(1) have "db' = db1" "row = None" by (auto simp: claim_job_def claim_target_def db1_def)
    then show ?thesis using ok1 ex None by (auto simp: rows1 rows_change_def)
  next
    case (Some t)
    then have t: "t \<in> set (fg_bundles db1)" "claimable now t" using oldest_in by (fastforce simp: claim_target_def db1_def)+
    from assms(1) Some have db': "db' = set_bundle (bu_buildId t) (bu_version t) (lease_row lease now) db1" "row = joined db' (lease_row lease now t)"
      by (auto simp: claim_job_def claim_target_def db1_def Let_def)
    have tk: "bundle_key t = (bu_buildId t, bu_version t)" by (simp add: bundle_key_def)
    have tok: "row_ok t" using ok1 t(1) by (simp add: rows_ok_def)
    have st: "in_progress t" "bu_status t \<noteq> BPassed" using t(2) by (auto simp: claimable_def expired_lease_def in_progress_def)
    from tok st obtain l j where lj: "bu_log t = Work l" "wl_job l = Some j" "FirmwareJobRequest_ok j"
      by (auto simp: row_ok_def work_row_def)
    with t(2) have "fj_attempts j < 3" by (simp add: claimable_def row_attempts_def)
    then have lok: "row_ok (lease_row lease now t)" using lj
      by (auto simp: row_ok_def work_row_def lease_row_def holds_lease_def FirmwareJobRequest_ok_def)
    have lk: "bundle_key (lease_row lease now r) = bundle_key r" for r by (simp add: bundle_key_def lease_row_def)
    have "rows_ok (fg_bundles db')" unfolding db'(1)
      by (rule rows_ok_set [OF ok1 t(1) tk]) (use lk lok st tk in auto)
    moreover have "lease_row lease now t \<in> set (fg_bundles db')" using t(1) by (force simp: db'(1) set_bundle_rows)
    moreover have "holds_lease lease (lease_row lease now t)" by (simp add: holds_lease_def lease_row_def)
    moreover have "cr_bundle c = lease_row lease now t" if "row = Some c" for c
      using that by (auto simp: db'(2) joined_def split: option.splits)
    moreover have "rows_change (\<lambda>r. map_option bundle_key (claim_target now db) = Some (bundle_key r)) (fg_bundles db) (fg_bundles db')"
    proof (unfold rows_change_def, intro exI conjI ballI)
      let ?g = "\<lambda>r. if bundle_key (expire_row now r) = bundle_key t then lease_row lease now (expire_row now r) else expire_row now r"
      show "fg_bundles db' = map ?g (fg_bundles db)"
        by (simp add: db'(1) set_bundle_rows rows1 bundle_key_eq tk)
      fix r assume r: "r \<in> set (fg_bundles db)"
      have k: "bundle_key (expire_row now r) = bundle_key r" using ex(2) [OF r] by (simp add: row_after_def)
      have same: "expire_row now r = t" if "bundle_key r = bundle_key t"
        using rows_ok_keys [OF ok1, of "expire_row now r" t] r t(1) k that by (simp add: rows1)
      show "row_after r (?g r)"
        using ex(2) [OF r] same k st(2) ex(5) [OF r] by (auto simp: row_after_def lk) (auto simp: lease_row_def)
      show "bu_status (?g r) = BPassed \<longleftrightarrow> bu_status r = BPassed"
        using ex(5) [OF r] same k st(2) by (auto simp: lease_row_def)
      show "row_attempts (?g r) = (if map_option bundle_key (claim_target now db) = Some (bundle_key r) then map_option (\<lambda>n. n + 1) (row_attempts r) else row_attempts r)"
        using ex(4) [OF r] k by (auto simp: Some lease_attempts)
    qed
    ultimately show ?thesis by simp
  qed
  then show "rows_ok (fg_bundles db')"
    "rows_change (\<lambda>r. map_option bundle_key (claim_target now db) = Some (bundle_key r)) (fg_bundles db) (fg_bundles db')"
    "row = Some c \<Longrightarrow> cr_bundle c \<in> set (fg_bundles db') \<and> holds_lease lease (cr_bundle c)" by blast+
qed


subsection \<open>Failing and publishing\<close>

lemma fail_rows:
  assumes ok: "rows_ok (fg_bundles db)"
  shows "rows_ok (fg_bundles (fail_job lease r0 e now db))"
    and "rows_change (\<lambda>_. False) (fg_bundles db) (fg_bundles (fail_job lease r0 e now db))"
proof -
  define g where "g = (\<lambda>x. if bundle_key x = bundle_key r0 \<and> holds_lease lease x
      then x\<lparr>bu_status := BFailed, bu_log := log_failure (failure_message e) (failure_diagnostics e) (bu_log x), bu_updatedAt := now\<rparr> else x)"
  have rows: "fg_bundles (fail_job lease r0 e now db) = map g (fg_bundles db)"
    by (auto simp: fail_job_def set_bundle_rows g_def bundle_key_def)
  have facts: "row_ok (g r) \<and> row_after r (g r) \<and> (in_progress (g r) \<longrightarrow> in_progress r) \<and> (bu_status (g r) = BPassed \<longleftrightarrow> bu_status r = BPassed) \<and>
      row_attempts (g r) = row_attempts r" if "r \<in> set (fg_bundles db)" for r
  proof -
    have "row_ok r" using ok that by (simp add: rows_ok_def)
    moreover have "holds_lease lease r \<Longrightarrow> \<exists>l. bu_log r = Work l" by (auto simp: holds_lease_def split: CompileLog.splits)
    ultimately show ?thesis
      by (auto simp: g_def row_after_def bundle_key_def row_ok_def work_row_def holds_lease_def in_progress_def row_attempts_def split: if_splits)
  qed
  show "rows_ok (fg_bundles (fail_job lease r0 e now db))" unfolding rows
    by (rule rows_ok_map [OF ok, where i = undefined]) (use facts in \<open>auto simp: row_after_def\<close>)
  show "rows_change (\<lambda>_. False) (fg_bundles db) (fg_bundles (fail_job lease r0 e now db))"
    unfolding rows rows_change_def using facts by (intro exI [of _ g]) simp
qed

text \<open>The facts a passed version rests on: whose it is, the canonical manifest, and every file in the store with its recorded digest.\<close>

definition record_ok :: "Codec \<Rightarrow> Store \<Rightarrow> BundleRow \<Rightarrow> string \<Rightarrow> FirmwarePassedRecord \<Rightarrow> bool" where
  "record_ok cx s r dir rec \<longleftrightarrow>
     FirmwarePassedRecord_ok rec \<and> dir \<noteq> [] \<and> (\<exists>j. fp_job rec = Some j) \<and>
     mf_build_id (fp_manifest rec) = bu_buildId r \<and> mf_plan_version (fp_manifest rec) = bu_planVersion r \<and>
     mf_code_version (fp_manifest rec) = bu_version r \<and>
     (\<exists>text. serializeFirmwareManifest (fp_manifest rec) = Inr text \<and> fp_manifest_digest rec = cx_sha256 cx text) \<and>
     (\<forall>file \<in> set ARTIFACT_FILES. \<exists>bytes. s (dir @ ''/'' @ file) = Some bytes \<and> artifact_digest rec file = Some (cx_sha256 cx bytes))"

lemma record_ok_mono: "record_ok cx s r dir rec \<Longrightarrow> (\<And>k b. s k = Some b \<Longrightarrow> s' k = Some b) \<Longrightarrow> record_ok cx s' r dir rec"
  unfolding record_ok_def by blast

lemma record_ok_same: "record_ok cx s r dir rec \<Longrightarrow> bundle_key r' = bundle_key r \<Longrightarrow> bu_planVersion r' = bu_planVersion r \<Longrightarrow> record_ok cx s r' dir rec"
  by (simp add: record_ok_def bundle_key_def)

lemma manifest_binaries:
  assumes "FirmwareManifest_ok m" and "name \<in> {''bootloader.bin'', ''partition-table.bin'', ''albusforge.bin''}"
  shows "\<exists>f \<in> set (mf_files m). ff_path f = name"
proof -
  let ?names = "{''bootloader.bin'', ''partition-table.bin'', ''albusforge.bin''}" and ?paths = "set (map ff_path (mf_files m))"
  have sub: "?paths \<subseteq> ?names" using assms(1) by (auto simp: FirmwareManifest_ok_def list_all_iff FirmwareFile_ok_def)
  have "length (mf_files m) = 3" "length (js_unique (map ff_path (mf_files m))) = length (map ff_path (mf_files m))"
    using assms(1) by (simp_all add: FirmwareManifest_ok_def)
  then have "card ?paths = 3" by (metis distinct_card length_js_unique_eq_iff length_map)
  moreover have "card ?names = 3" by simp
  ultimately have "?paths = ?names" by (intro card_subset_eq sub) simp_all
  then have "name \<in> ?paths" using assms(2) by (simp only:)
  then show ?thesis by auto
qed

lemma prepared_record:
  assumes "prepare_job cx jo lease row s = (Inr ready, s')"
  shows "record_ok cx s' (cr_bundle row) (rr_prefix ready) (rr_passed ready)" and "store_ok s \<Longrightarrow> store_ok s'"
    and "s k = Some b \<Longrightarrow> s' k = Some b"
proof -
  from assms obtain job plan c where p: "\<not> identity_mismatch cx (cr_bundle row) job plan c"
      "put_all artifact_put (job_prefix (cr_bundle row) lease) (uploads c) s = (None, s')" "FirmwarePassedRecord_ok (passed_record cx job plan c)"
      "rr_prefix ready = job_prefix (cr_bundle row) lease" "rr_passed ready = passed_record cx job plan c"
  proof -
    from assms obtain job plan c where c: "compile_claimed cx jo row = Inr (job, plan, c)"
      by (cases "compile_claimed cx jo row") (auto simp: prepare_job_def)
    note u = assms [unfolded prepare_job_def c sum.case prod.case]
    have n: "\<not> identity_mismatch cx (cr_bundle row) job plan c" using u by (rule_tac notI) simp
    obtain r s1 where put: "put_all artifact_put (job_prefix (cr_bundle row) lease) (uploads c) s = (r, s1)"
      by (cases "put_all artifact_put (job_prefix (cr_bundle row) lease) (uploads c) s")
    have "r = None" using u n put by (cases r) simp_all
    with u n put show thesis by (intro that [of job plan c]) (auto simp: Let_def split: if_splits)
  qed
  show "store_ok s \<Longrightarrow> store_ok s'" using store_ok_put_all [OF p(2)] .
  show "s k = Some b \<Longrightarrow> s' k = Some b" using artifacts.put_all_keeps [OF p(2)] .
  let ?m = "co_manifest c" and ?dir = "job_prefix (cr_bundle row) lease" and ?rec = "passed_record cx job plan c"
  have m: "FirmwareManifest_ok ?m" using p(3) by (simp add: FirmwarePassedRecord_ok_def passed_record_def)
  note stored = artifacts.put_all_stored [OF p(2)]
  have made: "serializeFirmwareManifest ?m = Inr (co_manifestBytes c)" "co_manifest_digest c = cx_sha256 cx (co_manifestBytes c)"
      "co_source_sha256 c = cx_sha256 cx (co_source c)" "\<And>f. f \<in> set (mf_files ?m) \<Longrightarrow> \<not> file_differs cx (co_files c) f"
    using p(1) by (auto simp: identity_mismatch_def Let_def list_ex_iff)
  have binary: "\<exists>bytes. s' (?dir @ ''/'' @ name) = Some bytes \<and> artifact_digest ?rec name = Some (cx_sha256 cx bytes)"
    if name: "name \<in> {''bootloader.bin'', ''partition-table.bin'', ''albusforge.bin''}" for name
  proof -
    have "List.find (\<lambda>f. ff_path f = name) (mf_files ?m) \<noteq> None"
      using manifest_binaries [OF m name] by (auto simp: find_None_iff)
    then obtain f where f: "List.find (\<lambda>f. ff_path f = name) (mf_files ?m) = Some f" by auto
    then have fin: "f \<in> set (mf_files ?m)" "ff_path f = name" using find_Some_set [OF f] by auto
    with made(4) [OF fin(1)] obtain bytes where b: "map_of (co_files c) name = Some bytes" "cx_sha256 cx bytes = ff_sha256 f"
      by (auto simp: file_differs_def split: option.splits)
    then have "(name, bytes) \<in> set (uploads c)" by (auto simp: uploads_def dest: map_of_SomeD)
    from stored [OF this] f b(2) name show ?thesis by (auto simp: artifact_digest_def passed_record_def)
  qed
  define P where "P f \<longleftrightarrow> (\<exists>bytes. s' (?dir @ ''/'' @ f) = Some bytes \<and> artifact_digest ?rec f = Some (cx_sha256 cx bytes))" for f
  have "P ''bootloader.bin''" "P ''partition-table.bin''" "P ''albusforge.bin''" unfolding P_def by (rule binary, simp)+
  moreover have "P ''manifest.json''" unfolding P_def
    using stored [of "''manifest.json''" "co_manifestBytes c"] by (simp add: uploads_def artifact_digest_def passed_record_def made(2))
  moreover have "P ''app.cpp''" unfolding P_def
    using stored [of "''app.cpp''" "co_source c"] by (simp add: uploads_def artifact_digest_def passed_record_def made(3))
  moreover have "P ''firmware.zip''" unfolding P_def
    using stored [of "''firmware.zip''" "co_bundle c"] by (simp add: uploads_def artifact_digest_def passed_record_def)
  ultimately have "\<forall>f \<in> set ARTIFACT_FILES. P f" by (simp add: ARTIFACT_FILES_def)
  then show "record_ok cx s' (cr_bundle row) (rr_prefix ready) (rr_passed ready)"
    using p(1,3) made(1,2) unfolding p(4,5) P_def record_ok_def
    by (simp add: identity_mismatch_def Let_def job_prefix_def passed_record_def)
qed

lemma publish_rows:
  assumes "publish_job cx jo lease r0 ready now db = (None, db')" and ok: "rows_ok (fg_bundles db)"
    and rec: "record_ok cx s r0 (rr_prefix ready) (rr_passed ready)"
    and known: "\<exists>r \<in> set (fg_bundles db). bundle_key r = bundle_key r0 \<and> bu_planVersion r = bu_planVersion r0"
  shows "\<exists>row \<in> set (fg_bundles db). bundle_key row = bundle_key r0 \<and> holds_lease lease row \<and> bu_planVersion row = bu_planVersion r0 \<and>
    fg_bundles db' = map (\<lambda>r. if r = row then row\<lparr>bu_status := BPassed, bu_storageRef := Some (rr_prefix ready), bu_log := PassedLog (rr_passed ready), bu_updatedAt := now\<rparr> else r) (fg_bundles db)"
proof -
  from assms(1) obtain row where row: "find_bundle db (bu_buildId r0) (bu_version r0) = Some row" "holds_lease lease row"
      "db' = set_bundle (bu_buildId r0) (bu_version r0)
         (\<lambda>x. x\<lparr>bu_status := BPassed, bu_storageRef := Some (rr_prefix ready), bu_log := PassedLog (rr_passed ready), bu_updatedAt := now\<rparr>) db"
  proof -
    from assms(1) obtain p where p: "current_plan db (bu_buildId r0) (bu_planVersion r0) = Some p"
      by (cases "current_plan db (bu_buildId r0) (bu_planVersion r0)") (simp_all add: publish_job_def)
    obtain pl data where pl: "p = (pl, data)" by (cases p)
    note u = assms(1) [unfolded publish_job_def p option.case pl prod.case]
    obtain fresh where fresh: "decodePlan cx (jo_approvals jo) pl data = Inr fresh"
      using u by (cases "decodePlan cx (jo_approvals jo) pl data") simp_all
    note v = u [unfolded fresh sum.case]
    obtain row where "find_bundle db (bu_buildId r0) (bu_version r0) = Some row"
      using v by (cases "find_bundle db (bu_buildId r0) (bu_version r0)") (auto split: if_splits sum.splits)
    with v show thesis by (intro that [of row]) (auto split: if_splits sum.splits)
  qed
  note r = find_bundle_Some [OF row(1)]
  then have key: "bundle_key row = bundle_key r0" by (simp add: bundle_key_def)
  have same: "x = row" if "x \<in> set (fg_bundles db)" "bundle_key x = bundle_key r0" for x
    using rows_ok_keys [OF ok that(1)] r that(2) key by simp
  have "fg_bundles db' = map (\<lambda>r. if r = row then row\<lparr>bu_status := BPassed, bu_storageRef := Some (rr_prefix ready), bu_log := PassedLog (rr_passed ready), bu_updatedAt := now\<rparr> else r) (fg_bundles db)"
    unfolding row(3) set_bundle_rows bundle_key_eq
  proof (rule map_cong [OF refl])
    fix x assume "x \<in> set (fg_bundles db)"
    then have "bundle_key x = (bu_buildId r0, bu_version r0) \<longleftrightarrow> x = row" using same key by (metis bundle_key_def)
    then show "(if bundle_key x = (bu_buildId r0, bu_version r0)
        then x\<lparr>bu_status := BPassed, bu_storageRef := Some (rr_prefix ready), bu_log := PassedLog (rr_passed ready), bu_updatedAt := now\<rparr> else x) =
      (if x = row then row\<lparr>bu_status := BPassed, bu_storageRef := Some (rr_prefix ready), bu_log := PassedLog (rr_passed ready), bu_updatedAt := now\<rparr> else x)" by simp
  qed
  moreover have "bu_planVersion row = bu_planVersion r0" using known same by auto
  ultimately show ?thesis using r key row(2) by blast
qed


lemma claim_target_row:
  assumes "claim_target now db = Some t" and ok: "rows_ok (fg_bundles db)" and r: "r \<in> set (fg_bundles db)" "bundle_key r = bundle_key t"
  shows "bu_status r \<noteq> BPassed"
proof -
  have rok: "row_ok r" if "r \<in> set (fg_bundles db)" for r using ok that by (simp add: rows_ok_def)
  note ex = expire_row_facts [OF rok]
  have "t \<in> set (filter (claimable now) (map (expire_row now) (fg_bundles db)))"
    using assms(1) oldest_in unfolding claim_target_def expire_leases_rows by blast
  then obtain r' where r': "r' \<in> set (fg_bundles db)" "t = expire_row now r'" "claimable now t" by auto
  then have "bundle_key r' = bundle_key r" using ex(2) [OF r'(1)] r(2) by (simp add: row_after_def)
  then have "r' = r" using rows_ok_keys [OF ok r'(1) r(1)] by simp
  moreover have "bu_status t \<noteq> BPassed" using r'(3) by (auto simp: claimable_def expired_lease_def)
  ultimately show ?thesis using ex(5) [OF r'(1)] r'(2) by simp
qed

subsection \<open>The invariant\<close>

definition passed_row :: "Codec \<Rightarrow> Store \<Rightarrow> BundleRow \<Rightarrow> bool" where
  "passed_row cx s r \<longleftrightarrow>
     (bu_status r = BPassed \<longrightarrow> (\<exists>rec dir. bu_log r = PassedLog rec \<and> bu_storageRef r = Some dir \<and> record_ok cx s r dir rec))"

definition run_ok :: "Codec \<Rightarrow> Store \<Rightarrow> BundleRow list \<Rightarrow> WorkRun \<Rightarrow> bool" where
  "run_ok cx s rows run \<longleftrightarrow>
     (\<exists>r \<in> set rows. bundle_key r = bundle_key (cr_bundle (wr_row run)) \<and> bu_planVersion r = bu_planVersion (cr_bundle (wr_row run))) \<and>
     (\<forall>x. wr_ready run = Some x \<longrightarrow> record_ok cx s (cr_bundle (wr_row run)) (rr_prefix x) (rr_passed x))"

definition workshop_ok :: "Codec \<Rightarrow> Workshop \<Rightarrow> bool" where
  "workshop_ok cx k \<longleftrightarrow>
     rows_ok (wk_bundles k) \<and> store_ok (wk_store k) \<and> (\<forall>r \<in> set (wk_bundles k). passed_row cx (wk_store k) r) \<and>
     (\<forall>run \<in> set (wk_runs k). run_ok cx (wk_store k) (wk_bundles k) run)"

text \<open>What one transition may do to the rows: each evolves, new ones start without an attempt, and only the claimed one counts an attempt.\<close>

definition rows_step :: "(string \<times> int) option \<Rightarrow> BundleRow list \<Rightarrow> BundleRow list \<Rightarrow> bool" where
  "rows_step l rows rows' \<longleftrightarrow>
     (\<exists>g new. rows' = map g rows @ new \<and>
        (\<forall>r \<in> set rows. row_after r (g r) \<and> (bu_status (g r) = BPassed \<longrightarrow> l \<noteq> Some (bundle_key r)) \<and>
           (bu_status (g r) \<noteq> BPassed \<longrightarrow>
              row_attempts (g r) = (if l = Some (bundle_key r) then map_option (\<lambda>n. n + 1) (row_attempts r) else row_attempts r))) \<and>
        (\<forall>r \<in> set new. row_attempts r = Some 0 \<and> bu_status r = BPending)) \<and>
     (\<forall>key. l = Some key \<longrightarrow> key \<in> bundle_key ` set rows)"

lemma rows_change_step:
  "rows_change (\<lambda>_. False) rows rows' \<Longrightarrow> rows_step None rows rows'"
  unfolding rows_change_def rows_step_def by (elim exE conjE, rule conjI, rule_tac x = g in exI, rule_tac x = "[]" in exI) auto

lemma rows_step_same: "rows_step None rows rows"
  unfolding rows_step_def by (rule conjI, rule exI [of _ id], rule exI [of _ "[]"]) (auto simp: row_after_refl)

lemma rows_step_after: "rows_step l rows rows' \<Longrightarrow> r \<in> set rows \<Longrightarrow> \<exists>r' \<in> set rows'. row_after r r'"
  unfolding rows_step_def by fastforce

lemma rows_step_before:
  "rows_step l rows rows' \<Longrightarrow> r' \<in> set rows' \<Longrightarrow> bu_status r' = BPending \<or> (\<exists>r \<in> set rows. row_after r r')"
  unfolding rows_step_def by fastforce

lemma run_ok_mono:
  assumes "run_ok cx s rows run" and "rows_step l rows rows'" and "\<And>k b. s k = Some b \<Longrightarrow> s' k = Some b"
  shows "run_ok cx s' rows' run"
proof -
  from assms(1) obtain r where r: "r \<in> set rows" "bundle_key r = bundle_key (cr_bundle (wr_row run))" "bu_planVersion r = bu_planVersion (cr_bundle (wr_row run))"
    by (auto simp: run_ok_def)
  from rows_step_after [OF assms(2) r(1)] obtain r' where "r' \<in> set rows'" "row_after r r'" by blast
  with r have "\<exists>r \<in> set rows'. bundle_key r = bundle_key (cr_bundle (wr_row run)) \<and> bu_planVersion r = bu_planVersion (cr_bundle (wr_row run))"
    by (intro bexI [of _ r']) (simp_all add: row_after_def)
  moreover have "record_ok cx s' x dir y" if "record_ok cx s x dir y" for x dir y by (rule record_ok_mono [OF that]) (rule assms(3))
  ultimately show ?thesis using assms(1) by (simp add: run_ok_def)
qed

lemma passed_row_mono: "passed_row cx s r \<Longrightarrow> (\<And>k b. s k = Some b \<Longrightarrow> s' k = Some b) \<Longrightarrow> passed_row cx s' r"
  unfolding passed_row_def using record_ok_mono by meson

text \<open>Transitions that publish nothing.\<close>

lemma workshop_ok_quiet:
  assumes ok: "workshop_ok cx k" and rows: "rows_ok rows'" "rows_step l (wk_bundles k) rows'"
    and quiet: "\<And>r'. r' \<in> set rows' \<Longrightarrow> bu_status r' = BPassed \<Longrightarrow> r' \<in> set (wk_bundles k)"
    and k': "wk_bundles k' = rows'" "wk_store k' = wk_store k" "\<And>run. run \<in> set (wk_runs k') \<Longrightarrow> run \<in> set (wk_runs k) \<or> run_ok cx (wk_store k) rows' run"
  shows "workshop_ok cx k'"
  using ok rows k' run_ok_mono [OF _ rows(2), of cx "wk_store k" _ "wk_store k"] quiet
  by (fastforce simp: workshop_ok_def passed_row_def)

lemma quiet_change:
  assumes "rows_change P rows rows'" and "r' \<in> set rows'" and "bu_status r' = BPassed"
  shows "r' \<in> set rows"
proof -
  from assms obtain g r where "r \<in> set rows" "r' = g r" "row_after r (g r)" "bu_status (g r) = BPassed \<longleftrightarrow> bu_status r = BPassed"
    unfolding rows_change_def by auto
  with assms(3) show ?thesis by (auto simp: row_after_def)
qed

lemma workshop_ok_grow:
  assumes ok: "workshop_ok cx k" and mono: "\<And>key b. wk_store k key = Some b \<Longrightarrow> s' key = Some b" and s': "store_ok s'"
    and k': "wk_bundles k' = wk_bundles k" "wk_store k' = s'"
    and runs: "\<And>run. run \<in> set (wk_runs k') \<Longrightarrow> run \<in> set (wk_runs k) \<or> run_ok cx s' (wk_bundles k) run"
  shows "workshop_ok cx k'"
proof -
  have r: "run_ok cx s' (wk_bundles k) run" if "run_ok cx (wk_store k) (wk_bundles k) run" for run
    by (rule run_ok_mono [OF that rows_step_same]) (rule mono)
  have p: "passed_row cx s' r" if "passed_row cx (wk_store k) r" for r by (rule passed_row_mono [OF that]) (rule mono)
  show ?thesis using ok s' runs r p unfolding workshop_ok_def k' by blast
qed

text \<open>Every transition keeps the invariant and changes the rows as described; the store only grows.\<close>

lemma workshop_step:
  assumes "firmware_step cx l k k'" and ok: "workshop_ok cx k"
  shows "workshop_ok cx k' \<and> rows_step l (wk_bundles k) (wk_bundles k') \<and> (\<forall>key b. wk_store k key = Some b \<longrightarrow> wk_store k' key = Some b)"
  using assms(1)
proof cases
  have rows: "rows_ok (wk_bundles k)" using ok by (simp add: workshop_ok_def)
  case (fs_request fo b q now w v db')
  note p = postCode_rows [OF fs_request(3) rows]
  from p(2) obtain new where new: "fg_bundles db' = wk_bundles k @ new" "\<forall>r \<in> set new. row_attempts r = Some 0 \<and> bu_status r = BPending" by blast
  have "rows_step None (wk_bundles k) (fg_bundles db')" unfolding rows_step_def
    by (rule conjI, rule exI [of _ id], rule exI [of _ new]) (use new in \<open>auto simp: row_after_refl\<close>)
  moreover have "workshop_ok cx k'" unfolding fs_request(2)
    by (rule workshop_ok_quiet [OF ok p(1) calculation]) (use new in auto)
  ultimately show ?thesis using fs_request by simp
next
  have rows: "rows_ok (wk_bundles k)" using ok by (simp add: workshop_ok_def)
  case (fs_retry fo b v now w v' db')
  from retryCode_rows [OF fs_retry(3) rows] obtain row job where r: "row \<in> set (wk_bundles k)" "bundle_key row = (b, v)" "bu_status row = BFailed"
      "log_job (bu_log row) = Some job" "db' = set_bundle b v (\<lambda>r. r\<lparr>bu_status := BPending, bu_log := new_work job, bu_updatedAt := now\<rparr>) (wk_db k)"
      "rows_ok (fg_bundles db')" .
  have change: "rows_change (\<lambda>_. False) (wk_bundles k) (fg_bundles db')"
    unfolding rows_change_def r(5) set_bundle_rows bundle_key_eq
  proof (rule exI [of _ "\<lambda>r. if bundle_key r = (b, v) then r\<lparr>bu_status := BPending, bu_log := new_work job, bu_updatedAt := now\<rparr> else r"],
      intro conjI ballI refl)
    fix x assume x: "x \<in> set (wk_bundles k)"
    have same: "x = row" if "bundle_key x = (b, v)" using rows_ok_keys [OF rows x r(1)] that r(2) by simp
    let ?x = "if bundle_key x = (b, v) then x\<lparr>bu_status := BPending, bu_log := new_work job, bu_updatedAt := now\<rparr> else x"
    show "row_after x ?x" "bu_status ?x = BPassed \<longleftrightarrow> bu_status x = BPassed"
        "row_attempts ?x = (if False then map_option (\<lambda>n. n + 1) (row_attempts x) else row_attempts x)"
      using same r(3,4) by (auto simp: row_after_def bundle_key_def row_attempts_def new_work_def)
  qed
  have "workshop_ok cx k'" unfolding fs_retry(2)
    by (rule workshop_ok_quiet [OF ok r(6) rows_change_step [OF change]]) (use quiet_change [OF change] in auto)
  with fs_retry rows_change_step [OF change] show ?thesis by simp
next
  have rows: "rows_ok (wk_bundles k)" using ok by (simp add: workshop_ok_def)
  case (fs_claim lease now row db')
  note c = claim_rows [OF fs_claim(4) rows]
  have l: "l = Some (bundle_key r) \<longleftrightarrow> map_option bundle_key (claim_target now (wk_db k)) = Some (bundle_key r)" for r
    by (simp add: fs_claim(1) bundle_key_def)
  have step: "rows_step l (wk_bundles k) (fg_bundles db')"
  proof -
    from c(2) obtain g where g: "fg_bundles db' = map g (wk_bundles k)" "\<And>r. r \<in> set (wk_bundles k) \<Longrightarrow> row_after r (g r) \<and> (bu_status (g r) = BPassed \<longleftrightarrow> bu_status r = BPassed) \<and>
        row_attempts (g r) = (if l = Some (bundle_key r) then map_option (\<lambda>n. n + 1) (row_attempts r) else row_attempts r)"
      unfolding rows_change_def l by blast
    have np: "bu_status r \<noteq> BPassed" if "r \<in> set (wk_bundles k)" "l = Some (bundle_key r)" for r
    proof -
      from that(2) obtain t where "claim_target now (wk_db k) = Some t" "bundle_key r = bundle_key t" unfolding l by auto
      then show ?thesis by (rule claim_target_row [OF _ rows that(1)])
    qed
    have "key \<in> bundle_key ` set (wk_bundles k)" if "l = Some key" for key
      using that c(4) by (auto simp: fs_claim(1) bundle_key_def image_iff)
    then show ?thesis unfolding rows_step_def
      by (intro conjI exI [of _ g] exI [of _ "[]"]) (use g np in auto)
  qed
  have "workshop_ok cx k'" unfolding fs_claim(2)
  proof (rule workshop_ok_quiet [OF ok c(1) step])
    show "r' \<in> set (wk_bundles k)" if "r' \<in> set (fg_bundles db')" "bu_status r' = BPassed" for r' using quiet_change [OF c(2) that] .
    fix run assume "run \<in> set (wk_runs (k\<lparr>wk_db := db', wk_runs := wk_runs k @ (case row of None \<Rightarrow> [] | Some r \<Rightarrow> [\<lparr>wr_lease = lease, wr_row = r, wr_ready = None\<rparr>])\<rparr>))"
    then show "run \<in> set (wk_runs k) \<or> run_ok cx (wk_store k) (fg_bundles db') run"
      using c(3) by (auto simp: run_ok_def split: option.splits)
  qed simp_all
  with fs_claim step show ?thesis by simp
next
  case (fs_prepare run jo ready s')
  have mono: "\<And>key b. wk_store k key = Some b \<Longrightarrow> s' key = Some b" using prepared_record(3) [OF fs_prepare(4)] .
  have "run_ok cx s' (wk_bundles k) (run\<lparr>wr_ready := Some ready\<rparr>)"
    using ok fs_prepare(3) prepared_record(1) [OF fs_prepare(4)] by (auto simp: workshop_ok_def run_ok_def)
  then have "workshop_ok cx k'"
    by (intro workshop_ok_grow [OF ok mono prepared_record(2) [OF fs_prepare(4)]])
      (use ok in \<open>auto simp: fs_prepare(2) workshop_ok_def dest: set_remove1_subset [THEN subsetD]\<close>)
  with fs_prepare mono show ?thesis by (simp add: rows_step_same)
next
  case (fs_upload key bytes s')
  have mono: "\<And>key b. wk_store k key = Some b \<Longrightarrow> s' key = Some b" using artifacts.put_keeps [OF fs_upload(3)] .
  have "workshop_ok cx k'"
    by (intro workshop_ok_grow [OF ok mono store_ok_put [OF _ fs_upload(3)]]) (use ok in \<open>auto simp: fs_upload(2) workshop_ok_def\<close>)
  with fs_upload mono show ?thesis by (simp add: rows_step_same)
next
  have rows: "rows_ok (wk_bundles k)" using ok by (simp add: workshop_ok_def)
  case (fs_publish run ready jo now db')
  have run: "run_ok cx (wk_store k) (wk_bundles k) run" using ok fs_publish(3) by (simp add: workshop_ok_def)
  then have rec: "record_ok cx (wk_store k) (cr_bundle (wr_row run)) (rr_prefix ready) (rr_passed ready)" using fs_publish(4) by (simp add: run_ok_def)
  let ?new = "\<lambda>row. row\<lparr>bu_status := BPassed, bu_storageRef := Some (rr_prefix ready), bu_log := PassedLog (rr_passed ready), bu_updatedAt := now\<rparr>"
  from publish_rows [OF fs_publish(5) rows rec] run obtain row where row: "row \<in> set (wk_bundles k)" "bundle_key row = bundle_key (cr_bundle (wr_row run))"
      "holds_lease (wr_lease run) row" "bu_planVersion row = bu_planVersion (cr_bundle (wr_row run))"
      "fg_bundles db' = map (\<lambda>r. if r = row then ?new row else r) (wk_bundles k)"
    unfolding run_ok_def by blast
  have running: "bu_status row = BRunning" using row(3) by (simp add: holds_lease_def)
  have key: "bundle_key (?new row) = bundle_key row" by (simp add: bundle_key_def)
  have "\<exists>j. fp_job (rr_passed ready) = Some j \<and> FirmwareJobRequest_ok j" using rec by (auto simp: record_ok_def FirmwarePassedRecord_ok_def)
  then have "row_ok (?new row)" by (simp add: row_ok_def)
  moreover have "row_ok r" if "r \<in> set (wk_bundles k)" for r using rows that by (simp add: rows_ok_def)
  ultimately have rows': "rows_ok (fg_bundles db')" unfolding row(5)
    by (intro rows_ok_map [OF rows, where i = undefined]) (auto simp: key in_progress_def split: if_splits)
  have step: "rows_step None (wk_bundles k) (fg_bundles db')" unfolding rows_step_def row(5)
    by (intro conjI exI [of _ "\<lambda>r. if r = row then ?new row else r"] exI [of _ "[]"]) (use running key in \<open>auto simp: row_after_def\<close>)
  have "passed_row cx (wk_store k) r" if "r \<in> set (fg_bundles db')" for r
  proof (cases "r = ?new row")
    case True
    have "record_ok cx (wk_store k) (?new row) (rr_prefix ready) (rr_passed ready)"
      by (rule record_ok_same [OF rec]) (use row(2,4) key in simp_all)
    then show ?thesis by (simp add: True passed_row_def)
  next
    case False
    then show ?thesis using that ok by (auto simp: row(5) workshop_ok_def)
  qed
  then have "workshop_ok cx k'"
    using ok rows' run_ok_mono [OF _ step, of cx "wk_store k" _ "wk_store k"] by (auto simp: workshop_ok_def fs_publish(2) dest: set_remove1_subset [THEN subsetD])
  with fs_publish step show ?thesis by simp
next
  have rows: "rows_ok (wk_bundles k)" using ok by (simp add: workshop_ok_def)
  case (fs_fail run e now)
  note f = fail_rows [OF rows, of "wr_lease run" "cr_bundle (wr_row run)" e now]
  have "workshop_ok cx k'" unfolding fs_fail(2)
    by (rule workshop_ok_quiet [OF ok f(1) rows_change_step [OF f(2)]]) (use quiet_change [OF f(2)] in \<open>auto dest: set_remove1_subset [THEN subsetD]\<close>)
  with fs_fail rows_change_step [OF f(2)] show ?thesis by simp
next
  case (fs_lost run)
  then have "workshop_ok cx k'" using ok by (auto simp: workshop_ok_def dest: set_remove1_subset [THEN subsetD])
  with fs_lost show ?thesis by (simp add: rows_step_same)
next
  case (fs_world db')
  then have "workshop_ok cx k'" using ok by (simp add: workshop_ok_def)
  with fs_world show ?thesis by (simp add: rows_step_same)
qed


end
