(* ===== verification/Json_Size.thy ===== *)
theory Json_Size
  imports Device_Schema Firmware_Candidate
begin
text \<open>
  A bound on the length of a JSON text from its value, for values whose numbers are natural and below \<open>10 ^ 16\<close>: the decimal text of such a
  number has at most 18 characters, a string at most six per character, and sorting keys changes nothing. The artifact store's limit is
  checked with it.
\<close>

subsection \<open>How long a JSON text can be\<close>

lemma nat_str_upper: "i < 10 ^ length (nat_str i)"
proof (induction i rule: nat_str.induct)
  case (1 i)
  show ?case
  proof (cases "i < 10")
    case False
    with 1 have "i div 10 < 10 ^ length (nat_str (i div 10))" by simp
    then have "i < 10 * 10 ^ length (nat_str (i div 10))" by linarith
    then show ?thesis using False by (subst nat_str.simps) simp
  qed (subst nat_str.simps, simp)
qed

lemma dec_exp_nat:
  assumes "0 < i" and "i < 10 ^ 16"
  shows "1 \<le> dec_exp (of_nat i)" and "dec_exp (of_nat i) \<le> 16" and "of_nat i < pow10 (dec_exp (of_nat i))"
proof -
  have q: "quotient_of (of_nat i) = (int i, 1)" using quotient_of_int [of "int i"] by (simp add: Rat.of_int_def)
  have one: "length (nat_str (Suc 0)) = 1" by (subst nat_str.simps) simp
  let ?d = "int (length (nat_str i)) - 1"
  have l: "1 \<le> length (nat_str i)" by (cases "nat_str i") simp_all
  have u: "length (nat_str i) \<le> 16" using length_nat_str [of i 15] assms(2) by simp
  have e: "dec_exp (of_nat i) = (if pow10 ?d \<le> of_nat i then ?d + 1 else ?d)"
    by (simp add: dec_exp_def q one Let_def)
  have "length (nat_str i) \<noteq> 1" if "\<not> pow10 ?d \<le> of_nat i" using that assms(1) by (auto simp: pow10_def)
  with l u show "1 \<le> dec_exp (of_nat i)" "dec_exp (of_nat i) \<le> 16" unfolding e by auto
  have "(of_nat i :: rat) < of_nat (10 ^ length (nat_str i))" unfolding of_nat_less_iff by (rule nat_str_upper)
  then have "of_nat i < pow10 (?d + 1)" by (simp add: pow10_def)
  then show "of_nat i < pow10 (dec_exp (of_nat i))" unfolding e by auto
qed

lemma num_str_length: "i < 10 ^ 16 \<Longrightarrow> length (num_str (Fin (of_nat i))) \<le> 18"
proof (cases "i = 0")
  case False
  assume i: "i < 10 ^ 16"
  let ?x = "of_nat i :: rat" and ?n = "dec_exp (of_nat i)"
  note n = dec_exp_nat [OF _ i]
  define s where "s = (case List.find (\<lambda>k. short_digits ?x k \<noteq> None) [1..<18] of
                 Some k \<Rightarrow> the (short_digits ?x k) | None \<Rightarrow> nat \<lfloor>?x / pow10 (?n - 17)\<rfloor>)"
  have "s < 10 ^ 17"
  proof (cases "List.find (\<lambda>k. short_digits ?x k \<noteq> None) [1..<18]")
    case None
    have p: "pow10 (?n - 17) > 0" "pow10 (?n - 17) * 10 ^ 17 = pow10 ?n"
      using n(1,2) False by (auto simp: pow10_def power_add [symmetric] field_simps nat_diff_distrib)
    have "?x / pow10 (?n - 17) < 10 ^ 17" using n(3) False p by (simp add: field_simps)
    then have "\<lfloor>?x / pow10 (?n - 17)\<rfloor> < 10 ^ 17" by (simp add: floor_less_iff)
    then have "nat \<lfloor>?x / pow10 (?n - 17)\<rfloor> < nat (10 ^ 17)" by (subst nat_mono_iff) simp_all
    then show ?thesis unfolding s_def None by simp
  next
    case (Some k)
    then have k: "k \<in> set [1..<18]" "short_digits ?x k \<noteq> None" using find_Some_set [OF Some] by auto
    then obtain v where v: "short_digits ?x k = Some v" by auto
    then have "v < 10 ^ k" by (auto simp: short_digits_def Let_def split: if_splits)
    also have "(10::nat) ^ k \<le> 10 ^ 17" by (rule power_increasing) (use k in auto)
    finally show ?thesis unfolding s_def Some by (simp add: v)
  qed
  then have "length (nat_str s) \<le> 17" using length_nat_str [of s 16] by simp
  moreover have "num_str (Fin ?x) = pos_str ?x" using False by simp
  ultimately show ?thesis using n False
    unfolding pos_str_def Let_def s_def [symmetric] by auto
qed simp

fun text_bound :: "jvalue \<Rightarrow> nat" where
  "text_bound (JNum n) = 18"
| "text_bound (JStr s) = 6 * length s + 2"
| "text_bound (JArr xs) = 2 + sum_list (map (\<lambda>x. text_bound x + 1) xs)"
| "text_bound (JObj kvs) = 2 + sum_list (map (\<lambda>kv. 6 * length (fst kv) + 4 + text_bound (snd kv)) kvs)"
| "text_bound v = 5"

fun small_numbers :: "jvalue \<Rightarrow> bool" where
  "small_numbers (JNum n) = (\<exists>i < 10 ^ 16. n = Fin (of_nat i))"
| "small_numbers (JArr xs) = list_all small_numbers xs"
| "small_numbers (JObj kvs) = list_all (\<lambda>kv. small_numbers (snd kv)) kvs"
| "small_numbers v = True"

lemma json_char_length: "length (json_char c) \<le> 6"
  by (simp add: json_char_def Let_def)

lemma json_string_length: "length (json_string s) \<le> 6 * length s + 2"
proof -
  have "length (concat (map json_char s)) \<le> 6 * length s"
    by (induction s) (auto intro: add_mono [OF json_char_length, simplified])
  then show ?thesis by (simp add: json_string_def)
qed

lemma js_join_length: "length (js_join [c] ws) \<le> sum_list (map (\<lambda>w. length w + 1) ws)"
  by (induction ws rule: induct_list012) auto

lemma json_stringify_length: "small_numbers v \<Longrightarrow> json_stringify v = Some t \<Longrightarrow> length t \<le> text_bound v"
proof (induction v arbitrary: t rule: text_bound.induct)
  case (1 n)
  then show ?case using num_str_length by auto
next
  case (2 s)
  then show ?case using json_string_length [of s] by simp
next
  case (3 xs)
  let ?t = "\<lambda>x. case json_stringify x of None \<Rightarrow> ''null'' | Some t \<Rightarrow> t"
  have "length (?t x) \<le> text_bound x" if "x \<in> set xs" for x
  proof (cases "json_stringify x")
    case None
    then show ?thesis by (cases x) auto
  next
    case (Some t)
    then show ?thesis using 3 that by (auto simp: list_all_iff)
  qed
  then have "sum_list (map (\<lambda>x. length (?t x) + 1) xs) \<le> sum_list (map (\<lambda>x. text_bound x + 1) xs)"
    by (intro sum_list_mono) auto
  with js_join_length [of "CHR '',''" "map ?t xs"] have "length (js_join '','' (map ?t xs)) \<le> sum_list (map (\<lambda>x. text_bound x + 1) xs)"
    by (simp add: comp_def)
  moreover have "t = ''['' @ js_join '','' (map ?t xs) @ '']''" using 3(3) by simp
  ultimately show ?case by simp
next
  case (4 kvs)
  let ?t = "\<lambda>kv. case json_stringify (snd kv) of None \<Rightarrow> [] | Some t \<Rightarrow> [json_string (fst kv) @ '':'' @ t]"
  have "sum_list (map (\<lambda>w. length w + 1) (?t kv)) \<le> 6 * length (fst kv) + 4 + text_bound (snd kv)" if "kv \<in> set kvs" for kv
    using 4 that json_string_length [of "fst kv"] by (fastforce simp: list_all_iff split: option.split)
  then have "sum_list (map (\<lambda>kv. sum_list (map (\<lambda>w. length w + 1) (?t kv))) kvs) \<le> sum_list (map (\<lambda>kv. 6 * length (fst kv) + 4 + text_bound (snd kv)) kvs)"
    by (intro sum_list_mono) auto
  moreover have "sum_list (map (\<lambda>kv. sum_list (map (\<lambda>w. length w + 1) (?t kv))) kvs) = sum_list (map (\<lambda>w. length w + 1) (concat (map ?t kvs)))"
    by (induction kvs) auto
  ultimately have "length (js_join '','' (concat (map ?t kvs))) \<le> sum_list (map (\<lambda>kv. 6 * length (fst kv) + 4 + text_bound (snd kv)) kvs)"
    using js_join_length [of "CHR '',''" "concat (map ?t kvs)"] by linarith
  moreover have "t = [CHR 0x7B] @ js_join '','' (concat (map ?t kvs)) @ [CHR 0x7D]" using 4(3) by simp
  ultimately show ?case by simp
qed auto

lemma sum_list_js_sort: "sum_list (map f (js_sort cmp xs)) = (sum_list (map f xs) :: nat)"
  by (metis mset_js_sort mset_map sum_mset_sum_list)

lemma text_bound_sort: "text_bound (sort_json v) = text_bound v"
proof (induction v rule: sort_json.induct)
  case (2 kvs)
  have "sum_list (map (\<lambda>kv. 6 * length (fst kv) + 4 + text_bound (sort_json (snd kv))) (js_sort by_key kvs)) =
        sum_list (map (\<lambda>kv. 6 * length (fst kv) + 4 + text_bound (snd kv)) (js_sort by_key kvs))"
    by (intro arg_cong [of _ _ sum_list] map_cong refl) (use 2 in auto)
  then show ?case by (simp add: comp_def sum_list_js_sort)
qed (auto simp: comp_def intro!: arg_cong [of _ _ sum_list])

lemma small_numbers_sort: "small_numbers (sort_json v) = small_numbers v"
  by (induction v rule: sort_json.induct) (auto simp: list_all_iff)

end
