(* ===== verification/Firmware_Progress.thy ===== *)
theory Firmware_Progress
  imports Firmware_Queue Json_Size
begin
text \<open>
  The worker's run when nothing goes wrong: the repository's own compiler passes the worker's identity check, and a job that is approved and
  current, with a toolchain that works and a lease nobody used, is published. A worked build, used for concrete instances, goes the whole way.
\<close>

subsection \<open>The compiler's output passes the worker's checks\<close>

lemma compileProfile_Inr:
  assumes "compileProfile cx tc camera i = Inr c"
  shows "\<exists>boot tbl app. co_files c = [(''bootloader.bin'', boot), (''partition-table.bin'', tbl), (''albusforge.bin'', app)]"
    and "(if camera then renderCameraApp else renderApp) (Fin (of_int (ci_interval_s i))) = Inr (co_source c)"
    and "co_manifest c = compile_manifest cx camera i (co_files c)" and "serializeFirmwareManifest (co_manifest c) = Inr (co_manifestBytes c)"
    and "co_manifest_digest c = cx_sha256 cx (co_manifestBytes c)" and "co_source_sha256 c = cx_sha256 cx (co_source c)"
  using assms unfolding compileProfile_def Let_def by (auto split: if_splits sum.splits)

lemma compileCameraCandidate_Inr: "compileCameraCandidate cx tc i = Inr c \<Longrightarrow> compileProfile cx tc True i = Inr c"
  by (auto simp: compileCameraCandidate_def split: sum.splits)

lemma resolved_candidate:
  assumes "resolveAcceptedCandidate cx approvals plan metadata spec = Inr a"
  shows "(\<exists>sel. ac_kind a = Numeric \<and> ac_numeric a = Some sel \<and> ac_id a = nc_id (ns_candidate sel) \<and> ac_runtime a = nc_runtime (ns_candidate sel) \<and>
            ac_channels a = map (\<lambda>(k, r). (k, channel_of r)) (ns_channels sel) \<and> ac_capabilities a = None) \<or>
         ac_kind a = Camera \<and> ac_numeric a = None \<and> ac_id a = CAMERA_CANDIDATE \<and> ac_runtime a = CAMERA_RUNTIME \<and> ac_channels a = CAMERA_CHANNELS \<and>
            ac_capabilities a = Some CAMERA_CAPABILITIES"
  using assms by (auto simp: resolveAcceptedCandidate_def split: if_splits sum.splits list.splits)

lemma compile_manifest_candidate:
  assumes "resolveAcceptedCandidate cx approvals plan metadata spec = Inr a" and "ci_numeric i = ac_numeric a"
  shows "candidateManifestMatches cx a (compile_manifest cx (ac_kind a = Camera) i files)"
  using resolved_candidate [OF assms(1)] assms(2) by (auto simp: candidateManifestMatches_def compile_manifest_def)

lemma compile_manifest_numeric:
  "ci_numeric i = Some sel \<Longrightarrow> mf_profile_id (compile_manifest cx False i files) = nc_id (ns_candidate sel) \<and>
     mf_runtime (compile_manifest cx False i files) = nc_runtime (ns_candidate sel) \<and>
     mf_channels (compile_manifest cx False i files) = map (\<lambda>(k, r). (k, channel_of r)) (ns_channels sel) \<and>
     mf_capabilities (compile_manifest cx False i files) = None"
  by (simp add: compile_manifest_def)

lemma compile_manifest_camera:
  "mf_profile_id (compile_manifest cx True i files) = CAMERA_CANDIDATE \<and> mf_runtime (compile_manifest cx True i files) = CAMERA_RUNTIME \<and>
     mf_channels (compile_manifest cx True i files) = CAMERA_CHANNELS \<and> mf_capabilities (compile_manifest cx True i files) = Some CAMERA_CAPABILITIES"
  by (simp add: compile_manifest_def)

lemma compile_manifest_fields:
  assumes "resolveAcceptedCandidate cx approvals plan metadata spec = Inr a" and "ci_numeric i = ac_numeric a"
  shows "mf_profile_id (compile_manifest cx (ac_kind a = Camera) i files) = ac_id a \<and>
    mf_runtime (compile_manifest cx (ac_kind a = Camera) i files) = ac_runtime a \<and>
    mf_channels (compile_manifest cx (ac_kind a = Camera) i files) = ac_channels a \<and>
    mf_capabilities (compile_manifest cx (ac_kind a = Camera) i files) = ac_capabilities a"
  using resolved_candidate [OF assms(1)]
proof (elim disjE exE conjE)
  fix sel assume "ac_kind a = Numeric" and s: "ac_numeric a = Some sel" "ac_id a = nc_id (ns_candidate sel)" "ac_runtime a = nc_runtime (ns_candidate sel)"
    "ac_channels a = map (\<lambda>(k, r). (k, channel_of r)) (ns_channels sel)" "ac_capabilities a = None"
  then have k: "(ac_kind a = Camera) = False" by simp
  from assms(2) s(1) have "ci_numeric i = Some sel" by simp
  from compile_manifest_numeric [OF this] show ?thesis unfolding k s(2-5) .
next
  assume "ac_kind a = Camera" and s: "ac_id a = CAMERA_CANDIDATE" "ac_runtime a = CAMERA_RUNTIME" "ac_channels a = CAMERA_CHANNELS"
    "ac_capabilities a = Some CAMERA_CAPABILITIES"
  then have k: "(ac_kind a = Camera) = True" by simp
  show ?thesis unfolding k s by (rule compile_manifest_camera)
qed

lemma compile_manifest_ok:
  assumes r: "resolveAcceptedCandidate cx approvals plan metadata spec = Inr a" and n: "ci_numeric i = ac_numeric a" and i: "compile_input_ok i"
    and hex: "\<And>s. Sha256Hex (cx_sha256 cx s)"
    and files: "files = [(''bootloader.bin'', boot), (''partition-table.bin'', tbl), (''albusforge.bin'', app)]"
      "\<And>f. f \<in> set files \<Longrightarrow> snd f \<noteq> [] \<and> length (snd f) \<le> 3 * 1024 * 1024"
  shows "FirmwareManifest_ok (compile_manifest cx (ac_kind a = Camera) i files)"
proof -
  let ?m = "compile_manifest cx (ac_kind a = Camera) i files"
  have f: "mf_files ?m = map (\<lambda>(path, bytes). \<lparr>ff_path = path, ff_sha256 = cx_sha256 cx bytes, ff_size = int (length bytes)\<rparr>) files"
    by (simp add: compile_manifest_def Let_def)
  have size: "0 < length (snd e) \<and> length (snd e) \<le> 3145728" if "e \<in> set [(''bootloader.bin'', boot), (''partition-table.bin'', tbl), (''albusforge.bin'', app)]" for e
    using files(2) [of e] that unfolding files(1) by simp
  have "list_all FirmwareFile_ok (mf_files ?m)"
    using size [of "(''bootloader.bin'', boot)"] size [of "(''partition-table.bin'', tbl)"] size [of "(''albusforge.bin'', app)"] hex
    unfolding f unfolding files(1) by (simp add: FirmwareFile_ok_def)
  moreover have "length (mf_files ?m) = 3" "length (js_unique (map ff_path (mf_files ?m))) = 3" unfolding f unfolding files(1) by simp_all
  moreover have "mf_v ?m = 1" "mf_build_id ?m = ci_build_id i" "mf_plan_version ?m = ci_plan_version i" "mf_code_version ?m = ci_code_version i"
      "mf_flash ?m = \<lparr>fl_chip = ''esp32s3'', fl_config_offset = 36864, fl_config_size = 24576\<rparr>" by (simp_all add: compile_manifest_def Let_def)
  ultimately show ?thesis
    using resolved_candidate_typed [OF r] i compile_manifest_fields [OF r n, of files]
    unfolding FirmwareManifest_ok_def compile_input_ok_def by simp
qed

lemma compile_claimed_Inr:
  assumes "compile_claimed cx jo row = Inr (job, plan, c)"
  obtains run where "job_of (bu_log (cr_bundle row)) = Some job" "decodePlan cx (jo_approvals jo) (cr_plan row) (cr_spec_data row) = Inr plan"
    "(if ac_kind (dq_candidate plan) = Camera then jo_compileCamera jo else Some (jo_compile jo)) = Some run"
    "run \<lparr>ci_build_id = bu_buildId (cr_bundle row), ci_plan_version = bu_planVersion (cr_bundle row), ci_code_version = bu_version (cr_bundle row),
          ci_interval_s = fj_interval_s job, ci_numeric = ac_numeric (dq_candidate plan)\<rparr> = Inr c"
  using assms unfolding compile_claimed_def by (auto split: option.splits if_splits sum.splits)

text \<open>
  The worker's identity check never refuses the repository's own compiler: whenever \<open>compileProfile\<close> or the camera compiler returns for
  a claimed row, its manifest names the row's build, plan and version and the approved candidate, its digests and sizes are those of the
  bytes returned, and its source is the approved template; so the check only guards against a foreign or broken compiler.
\<close>

lemma identity_own_compiler:
  assumes "compile_claimed cx jo row = Inr (job, plan, c)"
    and "jo_compile jo = compileProfile cx tc False" and "jo_compileCamera jo = Some (compileCameraCandidate cx tc)"
  shows "\<not> identity_mismatch cx (cr_bundle row) job plan c"
proof -
  let ?a = "dq_candidate plan" and ?camera = "ac_kind (dq_candidate plan) = Camera"
  let ?i = "\<lparr>ci_build_id = bu_buildId (cr_bundle row), ci_plan_version = bu_planVersion (cr_bundle row), ci_code_version = bu_version (cr_bundle row),
          ci_interval_s = fj_interval_s job, ci_numeric = ac_numeric (dq_candidate plan)\<rparr>"
  from compile_claimed_Inr [OF assms(1)] obtain run where run: "decodePlan cx (jo_approvals jo) (cr_plan row) (cr_spec_data row) = Inr plan"
      "(if ?camera then jo_compileCamera jo else Some (jo_compile jo)) = Some run" "run ?i = Inr c" by metis
  have compiled: "compileProfile cx tc ?camera ?i = Inr c"
    using run(2,3) assms(2,3) compileCameraCandidate_Inr by (auto split: if_splits)
  note c = compileProfile_Inr [OF compiled]
  from c(1) obtain boot tbl app where files: "co_files c = [(''bootloader.bin'', boot), (''partition-table.bin'', tbl), (''albusforge.bin'', app)]"
    by blast
  from decodePlan_Inr [OF run(1)] obtain spec where
    "resolveAcceptedCandidate cx (jo_approvals jo) (dq_plan plan) (dq_metadata plan) spec = Inr ?a" by metis
  from compile_manifest_candidate [OF this, of ?i "co_files c"] have m: "candidateManifestMatches cx ?a (co_manifest c)" by (simp add: c(3))
  have "renderCandidate ?a (Fin (of_int (fj_interval_s job))) = Inr (co_source c)" using c(2) by (auto simp: renderCandidate_def split: if_splits)
  moreover have "\<not> list_ex (file_differs cx (co_files c)) (mf_files (co_manifest c))"
    by (simp add: c(3)) (simp add: compile_manifest_def files file_differs_def Let_def)
  moreover have "mf_build_id (co_manifest c) = bu_buildId (cr_bundle row)" "mf_plan_version (co_manifest c) = bu_planVersion (cr_bundle row)"
      "mf_code_version (co_manifest c) = bu_version (cr_bundle row)" by (simp_all add: c(3)) (simp_all add: compile_manifest_def Let_def)
  ultimately show ?thesis using m c(4-6) by (simp add: identity_mismatch_def Let_def files)
qed



subsection \<open>Artifact keys\<close>

lemma z_uuid_chars:
  assumes "rx_full z_uuid s"
  shows "length s = 36 \<and> list_all (\<lambda>c. hex_any c \<or> c = CHR ''-'') s"
proof -
  have nb: "no_boundary z_uuid" by (simp add: z_uuid_def)
  have "s \<in> lang z_uuid" using assms unfolding rx_full_lang [OF nb] .
  then have "s = ''00000000-0000-0000-0000-000000000000'' \<or> s = ''ffffffff-ffff-ffff-ffff-ffffffffffff'' \<or>
      (\<exists>a b c d e f g. s = a @ ''-'' @ b @ ''-'' @ [c] @ d @ ''-'' @ [e] @ f @ ''-'' @ g \<and> length a = 8 \<and> length b = 4 \<and> length d = 3 \<and> length f = 3 \<and>
         length g = 12 \<and> between (CHR ''1'') (CHR ''8'') c \<and> one_of ''89abAB'' e \<and> list_all hex_any (a @ b @ d @ f @ g))"
    unfolding z_uuid_def by (auto simp: lang_Times_Cls simp del: Times.simps)
  moreover have "\<forall>c. between (CHR ''1'') (CHR ''8'') c \<or> one_of ''89abAB'' c \<longrightarrow> hex_any c" by code_simp
  moreover have "list_all (\<lambda>c. hex_any c \<or> c = CHR ''-'') (''00000000-0000-0000-0000-000000000000'' @ ''ffffffff-ffff-ffff-ffff-ffffffffffff'')"
    by code_simp
  ultimately show ?thesis by (elim disjE exE conjE) (simp, simp, force simp: list_all_iff)
qed

definition key_char :: "char \<Rightarrow> bool" where
  "key_char c \<longleftrightarrow> alnum c \<or> c \<in> set ''/_-''"

lemma uuid_key_chars: "rx_full z_uuid s \<Longrightarrow> length s = 36 \<and> list_all key_char s \<and> CHR ''/'' \<notin> set s \<and> CHR ''.'' \<notin> set s"
proof -
  assume u: "rx_full z_uuid s"
  have "\<forall>c. hex_any c \<or> c = CHR ''-'' \<longrightarrow> key_char c \<and> c \<noteq> CHR ''/'' \<and> c \<noteq> CHR ''.''" by code_simp
  with z_uuid_chars [OF u] show ?thesis by (auto simp: list_all_iff)
qed

definition artifact_names :: "string list" where
  "artifact_names = [''bootloader.bin'', ''partition-table.bin'', ''albusforge.bin'', ''manifest.json'', ''app.cpp'', ''firmware.zip'']"

definition plain_name :: "string \<Rightarrow> bool" where
  "plain_name name \<longleftrightarrow>
     (\<exists>stem ext. name = stem @ CHR ''.'' # ext \<and> list_all key_char stem \<and> ext \<noteq> [] \<and> list_all lower ext \<and> CHR ''/'' \<notin> set name) \<and> length name \<le> 19"

lemma plain_names: "name \<in> set artifact_names \<Longrightarrow> plain_name name"
proof -
  have split: "plain_name (stem @ CHR ''.'' # ext)"
    if "list_all key_char stem \<and> ext \<noteq> [] \<and> list_all lower ext \<and> CHR ''/'' \<notin> set (stem @ CHR ''.'' # ext) \<and> length (stem @ CHR ''.'' # ext) \<le> 19" for stem ext
    using that unfolding plain_name_def by blast
  have "plain_name (''bootloader'' @ CHR ''.'' # ''bin'')" "plain_name (''partition-table'' @ CHR ''.'' # ''bin'')"
    "plain_name (''albusforge'' @ CHR ''.'' # ''bin'')" "plain_name (''manifest'' @ CHR ''.'' # ''json'')"
    "plain_name (''app'' @ CHR ''.'' # ''cpp'')" "plain_name (''firmware'' @ CHR ''.'' # ''zip'')"
    by (rule split; code_simp)+
  then have "list_all plain_name artifact_names" unfolding artifact_names_def by simp
  then show "name \<in> set artifact_names \<Longrightarrow> plain_name name" by (simp add: list_all_iff)
qed

lemma ARTIFACT_KEY_lang:
  assumes "alnum c" and "list_all key_char body" and "ext \<noteq> []" and "list_all lower ext"
  shows "rx_full ARTIFACT_KEY (c # body @ CHR ''.'' # ext)"
proof -
  have nb: "no_boundary ARTIFACT_KEY" by (simp add: ARTIFACT_KEY_def Plus_def)
  obtain e es where e: "ext = e # es" using assms(3) by (cases ext) auto
  let ?low = "\<lambda>c. lower c \<or> digit c"
  have "e # es \<in> lang (Plus (Cls ?low))"
  proof -
    have "[e] @ es \<in> lang (Plus (Cls ?low))" unfolding Plus_def lang.simps lang_Star_Cls
      by (rule CollectI, rule exI [of _ "[e]"], rule exI [of _ es]) (use assms(4) in \<open>auto simp: e list_all_iff star_lang_Cls\<close>)
    then show ?thesis by simp
  qed
  then have "[CHR ''.''] @ e # es \<in> lang (Seq (Chr (CHR ''.'')) (Plus (Cls ?low)))"
    unfolding lang.simps(3) lang_Chr by (intro CollectI exI conjI refl) auto
  moreover have "body \<in> lang (Star (Cls (\<lambda>c. alnum c \<or> c \<in> set ''/_-'')))" using assms(2) unfolding key_char_def lang_Star_Cls by simp
  ultimately have "body @ [CHR ''.''] @ e # es \<in> lang (Seq (Star (Cls (\<lambda>c. alnum c \<or> c \<in> set ''/_-''))) (Seq (Chr (CHR ''.'')) (Plus (Cls ?low))))"
    unfolding lang.simps(3) [of "Star _"] by blast
  then have "[c] @ body @ [CHR ''.''] @ e # es \<in> lang ARTIFACT_KEY"
    unfolding ARTIFACT_KEY_def lang.simps(3) [of "Cls alnum"] using assms(1) by (intro CollectI exI conjI refl) auto
  then show ?thesis unfolding rx_full_lang [OF nb] by (simp add: e)
qed

lemma artifact_key_job:
  assumes "rx_full z_uuid b" and "rx_full z_uuid lease" and "z_posint v" and "name \<in> set artifact_names"
  shows "artifact_key ((''builds/'' @ b @ ''/code/'' @ int_str v @ ''/'' @ lease) @ ''/'' @ name)"
proof -
  note b = uuid_key_chars [OF assms(1)] and l = uuid_key_chars [OF assms(2)]
  from plain_names [OF assms(4)] obtain stem ext where n: "name = stem @ CHR ''.'' # ext" "list_all key_char stem" "ext \<noteq> []" "list_all lower ext"
      "CHR ''/'' \<notin> set name" "length name \<le> 19" unfolding plain_name_def by blast
  from assms(3) obtain k where k: "v = int k" "k < 10 ^ Suc 15" by (cases v) (auto simp: z_posint_def MAX_SAFE_INTEGER_def)
  have v: "int_str v = nat_str k" by (simp add: k(1) int_str_def)
  have vc: "list_all key_char (nat_str k)" "CHR ''/'' \<notin> set (nat_str k)"
  proof -
    have "\<forall>c. is_digit c \<longrightarrow> key_char c \<and> c \<noteq> CHR ''/''" by code_simp
    with nat_str_digits [of _ k] show "list_all key_char (nat_str k)" "CHR ''/'' \<notin> set (nat_str k)" by (auto simp: list_all_iff)
  qed
  have "rx_full ARTIFACT_KEY (CHR ''b'' # (''uilds/'' @ b @ ''/code/'' @ nat_str k @ ''/'' @ lease @ ''/'' @ stem) @ CHR ''.'' # ext)"
    by (rule ARTIFACT_KEY_lang) (use b l n vc in \<open>simp_all add: list_all_append, auto simp: key_char_def alnum_def lower_def between_def\<close>)
  moreover have "js_split (CHR ''/'') (''builds'' @ CHR ''/'' # b @ CHR ''/'' # ''code'' @ CHR ''/'' # nat_str k @ CHR ''/'' # lease @ CHR ''/'' # name) =
      [''builds'', b, ''code'', nat_str k, lease, name]"
    using b l n(5) vc(2) by (simp add: js_split_append_sep js_split_no_sep)
  moreover have "length (nat_str k) \<le> Suc 15" by (rule length_nat_str [OF k(2)])
  moreover have "\<not> list_ex (\<lambda>x. x = ''..'' \<or> x = []) [''builds'', b, ''code'', nat_str k, lease, name]"
  proof -
    have dot: "\<not> key_char (CHR ''.'')" "\<not> lower (CHR ''.'')" by code_simp+
    have "name \<noteq> ''..''"
    proof
      assume "name = ''..''"
      then have "last (stem @ CHR ''.'' # ext) = CHR ''.''" by (simp only: n(1)) simp
      with n(3,4) dot(2) show False by (auto simp: list_all_iff dest: last_in_set)
    qed
    moreover have "nat_str k \<noteq> ''..''" using vc(1) dot(1) by (auto simp: list_all_iff)
    ultimately show ?thesis using b l n(1) by auto
  qed
  ultimately show ?thesis using b l n by (simp add: artifact_key_def v)
qed

subsection \<open>An approved job is published\<close>

lemma put_all_fresh:
  "distinct (map fst files) \<Longrightarrow> (\<And>n bytes. (n, bytes) \<in> set files \<Longrightarrow>
     length bytes \<le> MAX_ARTIFACT_BYTES \<and> artifact_key (dir @ ''/'' @ n) \<and> s (dir @ ''/'' @ n) = None) \<Longrightarrow>
   \<exists>s'. put_all artifact_put dir files s = (None, s')"
proof (induction files arbitrary: s)
  case (Cons f files)
  obtain n bytes where f: "f = (n, bytes)" by (cases f)
  have "artifact_put (dir @ ''/'' @ n) bytes s = Inr (s(dir @ ''/'' @ n \<mapsto> bytes))"
    using Cons.prems(2) [of n bytes] by (simp add: f artifact_put_Inr)
  then have put: "put_all artifact_put dir (f # files) s = put_all artifact_put dir files (s(dir @ ''/'' @ n \<mapsto> bytes))"
    by (simp only: f put_all.simps sum.case)
  have "\<exists>s'. put_all artifact_put dir files (s(dir @ ''/'' @ n \<mapsto> bytes)) = (None, s')"
  proof (rule Cons.IH)
    show "distinct (map fst files)" using Cons.prems(1) by simp
    fix m b assume m: "(m, b) \<in> set files"
    then have "m \<noteq> n" using Cons.prems(1) by (force simp: f)
    then show "length b \<le> MAX_ARTIFACT_BYTES \<and> artifact_key (dir @ ''/'' @ m) \<and> (s(dir @ ''/'' @ n \<mapsto> bytes)) (dir @ ''/'' @ m) = None"
      using Cons.prems(2) [of m b] m by simp
  qed
  then show ?case unfolding put .
qed simp

lemma find_stronger: "List.find P xs = Some x \<Longrightarrow> Q x \<Longrightarrow> (\<And>y. Q y \<Longrightarrow> P y) \<Longrightarrow> List.find Q xs = Some x"
  by (induction xs) (auto split: if_splits)

lemma compile_claimed_current:
  assumes "compile_claimed cx jo row = Inr (job, plan, c)" and "joined db r = Some row"
  shows "current_plan db (bu_buildId r) (bu_planVersion r) = Some (cr_plan row, cr_spec_data row)" and "cr_bundle row = r"
proof -
  from assms(2) obtain p data where p: "List.find (\<lambda>p. pr_buildId p = bu_buildId r \<and> pr_version p = bu_planVersion r) (fg_plans db) = Some p"
      "spec_data db (bu_buildId r) (pr_specVersion p) = Some data" "cr_plan row = p" "cr_spec_data row = data" "cr_bundle row = r"
      "cr_latest_spec row = latest_spec_version db (bu_buildId r)"
    by (auto simp: joined_def split: option.splits)
  have "pr_acceptedAt p \<noteq> None \<and> Some (pr_specVersion p) = latest_spec_version db (bu_buildId r)"
    using assms(1) p(3,6) unfolding compile_claimed_def by (auto split: option.splits if_splits)
  then have "List.find (\<lambda>p. pr_buildId p = bu_buildId r \<and> pr_version p = bu_planVersion r \<and> pr_acceptedAt p \<noteq> None \<and>
      Some (pr_specVersion p) = latest_spec_version db (bu_buildId r)) (fg_plans db) = Some p"
    using find_Some_set [OF p(1)] by (intro find_stronger [OF p(1)]) auto
  then show "current_plan db (bu_buildId r) (bu_planVersion r) = Some (cr_plan row, cr_spec_data row)"
    by (simp add: current_plan_def p(2-4))
  show "cr_bundle row = r" by (fact p(5))
qed

lemma find_map_same: "(\<And>x. P (g x) = P x) \<Longrightarrow> List.find P (map g xs) = map_option g (List.find P xs)"
  by (induction xs) auto

lemma find_set_bundle:
  assumes "\<And>x. bundle_key (f x) = bundle_key x"
  shows "find_bundle (set_bundle b v f d) b v = map_option f (find_bundle d b v)"
proof -
  have p: "bu_buildId (f x) = b \<and> bu_version (f x) = v \<longleftrightarrow> bu_buildId x = b \<and> bu_version x = v" for x using assms [of x] by (simp add: bundle_key_def)
  show ?thesis unfolding find_bundle_def set_bundle_rows
    by (subst find_map_same) (use p in \<open>auto simp: find_Some_iff intro!: map_option_cong dest: find_Some_set\<close>)
qed

lemma find_own_key: "distinct (map k xs) \<Longrightarrow> x \<in> set xs \<Longrightarrow> List.find (\<lambda>y. k y = k x) xs = Some x"
  by (induction xs) auto

lemma find_bundle_key: "distinct (map bundle_key (fg_bundles d)) \<Longrightarrow> r \<in> set (fg_bundles d) \<Longrightarrow> find_bundle d (bu_buildId r) (bu_version r) = Some r"
  using find_own_key [of bundle_key "fg_bundles d" r] by (simp add: find_bundle_def bundle_key_def)

lemma expire_leases_keys: "map bundle_key (fg_bundles (expire_leases now db)) = map bundle_key (fg_bundles db)"
  by (simp add: expire_leases_def bundle_key_def)

lemma COMPILER_IMAGE_ok: "startsWith COMPILER_IMAGE ''espressif/idf@sha256:'' \<and> Sha256Hex (drop 21 COMPILER_IMAGE)"
proof -
  have "list_all hex_low (drop 21 COMPILER_IMAGE) \<and> length (drop 21 COMPILER_IMAGE) = 64 \<and> startsWith COMPILER_IMAGE ''espressif/idf@sha256:''" by code_simp
  moreover have "no_boundary (Times 64 (Cls hex_low))" by simp
  ultimately show ?thesis unfolding Sha256Hex_def by (simp add: rx_full_lang lang_Times_Cls del: Times.simps)
qed

lemma resolved_id:
  "decodePlan cx approvals row data = Inr plan \<Longrightarrow> 1 \<le> length (ac_id (dq_candidate plan)) \<and> length (ac_id (dq_candidate plan)) \<le> 120"
  by (erule decodePlan_Inr) (use resolved_candidate_typed in blast)

lemma approved_job_steps:
  assumes claim: "claim_job lease now db = (Some row, db')" and compiled: "compile_claimed cx jo row = Inr (job, plan, c)"
    and own: "jo_compile jo = compileProfile cx tc False" "jo_compileCamera jo = Some (compileCameraCandidate cx tc)"
    and limits: "length (co_diagnostics c) \<le> 20000" "\<And>f. f \<in> set (uploads c) \<Longrightarrow> length (snd f) \<le> MAX_ARTIFACT_BYTES"
    and hex: "\<And>s. Sha256Hex (cx_sha256 cx s)"
    and key: "distinct (map bundle_key (fg_bundles db))"
    and lease: "rx_full z_uuid lease" "\<And>n. store (job_prefix (cr_bundle row) lease @ ''/'' @ n) = None"
  shows "\<exists>ready store' db'' r.
    prepare_job cx jo lease row store = (Inr ready, store') \<and> publish_job cx jo lease (cr_bundle row) ready later db' = (None, db'') \<and>
    find_bundle db'' (bu_buildId (cr_bundle row)) (bu_version (cr_bundle row)) = Some r \<and> bu_status r = BPassed \<and>
    bu_log r = PassedLog (rr_passed ready) \<and> bu_storageRef r = Some (job_prefix (cr_bundle row) lease) \<and> fg_auth db'' = fg_auth db' \<and>
    record_ok cx store' r (job_prefix (cr_bundle row) lease) (rr_passed ready)"
proof -
  let ?r = "cr_bundle row" and ?dir = "job_prefix (cr_bundle row) lease" and ?rec = "passed_record cx job plan c"
  let ?camera = "ac_kind (dq_candidate plan) = Camera"
  from claim obtain t where t: "db' = set_bundle (bu_buildId t) (bu_version t) (lease_row lease now) (expire_leases now db)"
      "joined db' (lease_row lease now t) = Some row" "t \<in> set (fg_bundles (expire_leases now db))"
    by (auto simp: claim_job_def Let_def split: option.splits dest!: oldest_in)
  note cur = compile_claimed_current [OF compiled t(2)]
  from compile_claimed_Inr [OF compiled] obtain run where run: "job_of (bu_log ?r) = Some job"
      "decodePlan cx (jo_approvals jo) (cr_plan row) (cr_spec_data row) = Inr plan"
      "(if ?camera then jo_compileCamera jo else Some (jo_compile jo)) = Some run"
      "run \<lparr>ci_build_id = bu_buildId ?r, ci_plan_version = bu_planVersion ?r, ci_code_version = bu_version ?r,
         ci_interval_s = fj_interval_s job, ci_numeric = ac_numeric (dq_candidate plan)\<rparr> = Inr c" by metis
  have cp: "compileProfile cx tc ?camera \<lparr>ci_build_id = bu_buildId ?r, ci_plan_version = bu_planVersion ?r, ci_code_version = bu_version ?r,
         ci_interval_s = fj_interval_s job, ci_numeric = ac_numeric (dq_candidate plan)\<rparr> = Inr c"
    using run(3,4) own compileCameraCandidate_Inr by (auto split: if_splits)
  have inp: "rx_full z_uuid (bu_buildId ?r)" "z_posint (bu_version ?r)" "FirmwareManifest_ok (co_manifest c)"
    using cp by (auto simp: compileProfile_def Let_def compile_input_ok_def split: if_splits sum.splits)
  have same: "\<not> identity_mismatch cx ?r job plan c" by (rule identity_own_compiler [OF compiled own])
  obtain boot tbl app where files: "co_files c = [(''bootloader.bin'', boot), (''partition-table.bin'', tbl), (''albusforge.bin'', app)]"
    using compileProfile_Inr(1) [OF cp] by blast
  have "\<exists>store'. put_all artifact_put ?dir (uploads c) store = (None, store')"
  proof (rule put_all_fresh)
    show "distinct (map fst (uploads c))" by (simp add: uploads_def files)
    fix n bytes assume n: "(n, bytes) \<in> set (uploads c)"
    then have "n \<in> set artifact_names" by (auto simp: uploads_def files artifact_names_def)
    from artifact_key_job [OF inp(1) lease(1) inp(2) this] limits(2) [OF n] lease(2)
    show "length bytes \<le> MAX_ARTIFACT_BYTES \<and> artifact_key (?dir @ ''/'' @ n) \<and> store (?dir @ ''/'' @ n) = None"
      by (simp add: job_prefix_def)
  qed
  then obtain store' where put: "put_all artifact_put ?dir (uploads c) store = (None, store')" ..
  have job: "FirmwareJobRequest_ok job" using run(1) by (auto simp: job_of_def split: option.splits if_splits)
  have "FirmwarePassedRecord_ok ?rec"
    using job inp(3) limits(1) COMPILER_IMAGE_ok resolved_id [OF run(2)] hex compileProfile_Inr(5,6) [OF cp]
    by (simp add: FirmwarePassedRecord_ok_def passed_record_def) (simp add: FirmwareJobRequest_ok_def)
  with compiled same put have prep: "prepare_job cx jo lease row store =
      (Inr \<lparr>rr_job = job, rr_plan = plan, rr_manifest = co_manifest c, rr_prefix = ?dir, rr_passed = ?rec\<rparr>, store')" (is "_ = (Inr ?run, _)")
    by (simp add: prepare_job_def Let_def)
  let ?b = "bu_buildId ?r" and ?v = "bu_version ?r" and ?d = "expire_leases now db"
  have r: "?r = lease_row lease now t" by (fact cur(2))
  then have ids: "?b = bu_buildId t" "?v = bu_version t" by (simp_all add: lease_row_def)
  have "find_bundle ?d (bu_buildId t) (bu_version t) = Some t"
    by (rule find_bundle_key [OF _ t(3)]) (simp add: expire_leases_keys key)
  then have here: "find_bundle db' ?b ?v = Some ?r" unfolding t(1) ids r
    by (simp add: find_set_bundle [of "lease_row lease now"] lease_row_def bundle_key_def)
  have holds: "holds_lease lease ?r" unfolding r by (simp add: holds_lease_def lease_row_def)
  let ?f = "\<lambda>x. x\<lparr>bu_status := BPassed, bu_storageRef := Some ?dir, bu_log := PassedLog ?rec, bu_updatedAt := later\<rparr>"
  obtain shown where render: "renderCandidate (dq_candidate plan) (Fin (of_int (fj_interval_s job))) = Inr shown"
    using same by (auto simp: identity_mismatch_def Let_def)
  have matches: "candidateManifestMatches cx (dq_candidate plan) (co_manifest c)" using same by (simp add: identity_mismatch_def Let_def)
  have cur': "current_plan db' ?b (bu_planVersion ?r) = Some (cr_plan row, cr_spec_data row)" using cur(1) unfolding r .
  have pub: "publish_job cx jo lease ?r ?run later db' = (None, set_bundle ?b ?v ?f db')"
    unfolding publish_job_def cur' option.case prod.case run(2) sum.case by (simp add: render matches here holds)
  have "find_bundle (set_bundle ?b ?v ?f db') ?b ?v = Some (?f ?r)" using here by (simp add: find_set_bundle [of ?f] bundle_key_def)
  moreover have "record_ok cx store' (?f ?r) ?dir ?rec"
    by (rule record_ok_same [OF prepared_record(1) [OF prep, unfolded ReadyRun.simps]]) (simp_all add: bundle_key_def)
  moreover have "fg_auth (set_bundle ?b ?v ?f db') = fg_auth db'" by (simp add: set_bundle_def)
  ultimately show ?thesis using prep pub
    by (intro exI [of _ ?run] exI [of _ store'] exI [of _ "set_bundle ?b ?v ?f db'"] exI [of _ "?f ?r"]) simp
qed

text \<open>
  C15. A job that reaches the compiler gets published: with this repository's compiler around a toolchain whose log and images are within the
  limits, a fresh lease, and no change of the build meanwhile, the worker's run ends with the claimed version passed, its record naming the
  stored files by their digests; no check, upload or schema on the way refuses it.
\<close>

theorem approved_job_passes:
  assumes claim: "claim_job lease now db = (Some row, db')" and compiled: "compile_claimed cx jo row = Inr (job, plan, c)"
    and own: "jo_compile jo = compileProfile cx tc False" "jo_compileCamera jo = Some (compileCameraCandidate cx tc)"
    and limits: "length (co_diagnostics c) \<le> 20000" "\<And>f. f \<in> set (uploads c) \<Longrightarrow> length (snd f) \<le> MAX_ARTIFACT_BYTES"
    and hex: "\<And>s. Sha256Hex (cx_sha256 cx s)"
    and key: "distinct (map bundle_key (fg_bundles db))"
    and lease: "rx_full z_uuid lease" "\<And>n. store (job_prefix (cr_bundle row) lease @ ''/'' @ n) = None"
  shows "\<exists>db'' store' r record.
    runClaimed cx jo lease now later db store = (True, db'', store') \<and>
    find_bundle db'' (bu_buildId (cr_bundle row)) (bu_version (cr_bundle row)) = Some r \<and> bu_status r = BPassed \<and>
    bu_log r = PassedLog record \<and> bu_storageRef r = Some (job_prefix (cr_bundle row) lease) \<and>
    record_ok cx store' r (job_prefix (cr_bundle row) lease) record"
proof -
  from approved_job_steps [where store = store and later = later, OF assms] obtain ready store' db'' r where steps:
      "prepare_job cx jo lease row store = (Inr ready, store')" "publish_job cx jo lease (cr_bundle row) ready later db' = (None, db'')"
      "find_bundle db'' (bu_buildId (cr_bundle row)) (bu_version (cr_bundle row)) = Some r" "bu_status r = BPassed"
      "bu_log r = PassedLog (rr_passed ready)" "bu_storageRef r = Some (job_prefix (cr_bundle row) lease)"
      "record_ok cx store' r (job_prefix (cr_bundle row) lease) (rr_passed ready)" by blast
  have "runClaimed cx jo lease now later db store = (True, db'', store')"
    unfolding runClaimed_def by (simp only: claim steps(1,2) prod.case option.case sum.case)
  with steps(3-7) show ?thesis by blast
qed

subsection \<open>A worked build\<close>

definition shop_build :: string where
  "shop_build = ''10000000-0000-4000-8000-000000000000''"

definition shop_hash :: string where
  "shop_hash = md_input_digest board_metadata"

definition shop_auth :: AuthDb where
  "shop_auth =
     \<lparr>ad_codes = [], ad_users = [\<lparr>us_id = ''u'', us_email = ''ann@x.org''\<rparr>], ad_tenants = [\<lparr>tn_id = ''t'', tn_name = ''T'', tn_slug = None\<rparr>],
      ad_members = [\<lparr>tm_tenantId = ''t'', tm_userId = ''u'', tm_role = Admin, tm_createdAt = 1\<rparr>],
      ad_sessions = [\<lparr>ss_id = ''s1'', ss_tokenHash = shop_hash, ss_userId = ''u'', ss_activeTenantId = ''t'', ss_parentSessionId = None,
                      ss_expiresAt = 9000, ss_revokedAt = None\<rparr>],
      ad_builds = [\<lparr>bd_id = shop_build, bd_tenantId = Some ''t'', bd_anonOwnerHash = None, bd_status = StCoding, bd_askText = ''light'', bd_createdAt = 1, bd_updatedAt = 1\<rparr>], ad_calls = []\<rparr>"

definition shop_db :: ForgeDb where
  "shop_db =
     \<lparr>fg_auth = shop_auth, fg_specs = [\<lparr>sd_buildId = shop_build, sd_version = 1, sd_data = JNull\<rparr>],
      fg_plans = [board_row\<lparr>pr_buildId := shop_build\<rparr>], fg_bundles = []\<rparr>"

definition shop_start :: Workshop where
  "shop_start = \<lparr>wk_db = shop_db, wk_store = (\<lambda>_. None), wk_runs = []\<rparr>"

definition shop_tools :: Toolchain where
  "shop_tools = \<lparr>tl_build = (\<lambda>_ _ _ _. Inr (''ok'', ''b'', ''t'', ''a'')), tl_bundle = (\<lambda>_. Inr ''z'')\<rparr>"

definition shop_options :: FirmwareOptions where
  "shop_options = \<lparr>fo_enabled = True, fo_artifacts = True, fo_approvals = []\<rparr>"

definition shop_jobs :: JobOptions where
  "shop_jobs = \<lparr>jo_approvals = [], jo_compile = compileProfile board_codec shop_tools False,
     jo_compileCamera = Some (compileCameraCandidate board_codec shop_tools)\<rparr>"

definition shop_request :: FirmwareRequest where
  "shop_request = \<lparr>fq_tenant_id = shop_build, fq_plan_version = 1, fq_request_id = shop_build, fq_instruction = None, fq_based_on = None\<rparr>"

definition shop_writer :: WriteIdentity where
  "shop_writer = \<lparr>wi_tenantId = ''t'', wi_userId = ''u'', wi_family = []\<rparr>"

lemma shop_uuid: "rx_full z_uuid shop_build"
  by code_simp

lemma shop_decodable:
  obtains d where "\<And>b. decodePlan board_codec [] (board_row\<lparr>pr_buildId := b\<rparr>) JNull = Inr d"
proof -
  obtain d where d: "decodePlan board_codec [] board_row JNull = Inr d" using board_decoded by blast
  have "decodePlan board_codec [] (board_row\<lparr>pr_buildId := b\<rparr>) JNull = decodePlan board_codec [] board_row JNull" for b
  proof -
    have "metadata_of board_codec (board_row\<lparr>pr_buildId := b\<rparr>) = metadata_of board_codec board_row"
      "plan_of_row (board_row\<lparr>pr_buildId := b\<rparr>) = plan_of_row board_row" by (simp_all add: metadata_of_def plan_of_row_def fun_eq_iff)
    then show ?thesis unfolding decodePlan_def by (simp only:)
  qed
  with d that show thesis by simp
qed

lemma shop_accepted:
  assumes "decodePlan board_codec [] (board_row\<lparr>pr_buildId := shop_build\<rparr>) JNull = Inr d" and "fg_specs db = fg_specs shop_db" and "fg_plans db = fg_plans shop_db"
  shows "current_plan db shop_build 1 = Some (board_row\<lparr>pr_buildId := shop_build\<rparr>, JNull)"
    and "accepted board_codec [] db shop_build 1 = Inr d"
proof -
  show c: "current_plan db shop_build 1 = Some (board_row\<lparr>pr_buildId := shop_build\<rparr>, JNull)"
    using assms(2,3) by (simp add: current_plan_def shop_db_def latest_spec_version_def spec_data_def board_row_def)
  then show "accepted board_codec [] db shop_build 1 = Inr d" using assms(1) by (simp add: accepted_def)
qed


definition shop_lease :: string where
  "shop_lease = ''20000000-0000-4000-8000-000000000000''"

lemma shop_sha: "cx_sha256 board_codec s = shop_hash" "Sha256Hex shop_hash"
proof -
  have m: "shop_hash = replicate 64 (CHR ''a'')" by (simp add: shop_hash_def board_metadata_def)
  show "cx_sha256 board_codec s = shop_hash" by (simp add: board_codec_def shop_hash_def)
  have "hex_low (CHR ''a'')" by code_simp
  moreover have "no_boundary (Times 64 (Cls hex_low))" by simp
  ultimately show "Sha256Hex shop_hash" unfolding Sha256Hex_def m by (simp add: rx_full_lang lang_Times_Cls list_all_length del: Times.simps)
qed


definition shop_selection :: NumericSelection where
  "shop_selection =
     \<lparr>ns_candidate = DEVKITC_CANDIDATE, ns_sensors = [Bh1750], ns_channels = sd_channels (SENSORS Bh1750), ns_interval_s = Fin 60\<rparr>"

lemma shop_selected: "selectNumericCandidate (\<lambda>_. True) board_plan board_metadata board_spec = Inr shop_selection"
proof -
  obtain sel where sel: "selectNumericCandidate (\<lambda>_. True) board_plan board_metadata board_spec = Inr sel" using board_selected by blast
  have c: "choose_options DEVKITC_CANDIDATE (graph_peripherals (wiring_graph board_plan)) [] = Inr (nc_peripherals DEVKITC_CANDIDATE)"
    by (simp add: board_plan_def DEVKITC_CANDIDATE_def)
  have f: "List.find (\<lambda>c. nc_id c = fst (plan_profile board_plan)) NUMERIC_CANDIDATES = Some DEVKITC_CANDIDATE"
    by (simp add: NUMERIC_CANDIDATES_def DEVKITC_CANDIDATE_def board_plan_def)
  have "sel = shop_selection"
    using sel c unfolding selectNumericCandidate_def f option.case Let_def
    by (auto simp: shop_selection_def board_spec_def DEVKITC_CANDIDATE_def split: if_splits sum.splits)
  with sel show ?thesis by simp
qed

definition shop_candidate :: AcceptedCandidate where
  "shop_candidate =
     \<lparr>ac_id = nc_id DEVKITC_CANDIDATE, ac_kind = Numeric, ac_runtime = nc_runtime DEVKITC_CANDIDATE, ac_interval_s = Fin 60,
      ac_template = ''esp32s3'', ac_channels = map (\<lambda>(k, r). (k, channel_of r)) (sd_channels (SENSORS Bh1750)), ac_capabilities = None,
      ac_numeric = Some shop_selection\<rparr>"

definition shop_decoded :: DecodedPlan where
  "shop_decoded = \<lparr>dq_candidate = shop_candidate, dq_plan = board_plan, dq_metadata = board_metadata, dq_interval_s = Fin 60\<rparr>"

lemma shop_decodes: "decodePlan board_codec [] (board_row\<lparr>pr_buildId := b\<rparr>) JNull = Inr shop_decoded"
proof -
  obtain d where d: "decodePlan board_codec [] (board_row\<lparr>pr_buildId := b\<rparr>) JNull = Inr d" by (rule shop_decodable) blast
  then obtain spec where s: "metadata_of board_codec (board_row\<lparr>pr_buildId := b\<rparr>) = Some (dq_metadata d)"
      "plan_of_row (board_row\<lparr>pr_buildId := b\<rparr>) (dq_metadata d) = Some (dq_plan d)" "cx_spec board_codec JNull = Some spec"
      "resolveAcceptedCandidate board_codec [] (dq_plan d) (dq_metadata d) spec = Inr (dq_candidate d)"
      "dq_interval_s d = ac_interval_s (dq_candidate d)" by (rule decodePlan_Inr)
  have m: "dq_metadata d = board_metadata" using s(1) by (auto simp: metadata_of_def board_row_def split: if_splits)
  have p: "dq_plan d = board_plan" using s(2) board_object unfolding m by (auto simp: plan_of_row_def board_row_def split: if_splits)
  have sp: "spec = board_spec" using s(3) by (simp add: board_codec_def)
  have "list_ex (\<lambda>c. nc_id c = fst (plan_profile board_plan)) NUMERIC_CANDIDATES"
    by (simp add: board_plan_def NUMERIC_CANDIDATES_def DEVKITC_CANDIDATE_def)
  then have "dq_candidate d = shop_candidate"
    using s(4) shop_selected unfolding m p sp resolveAcceptedCandidate_def board_codec_fields
    by (simp add: shop_candidate_def) (simp add: shop_selection_def)
  then have "d = shop_decoded" using m p s(5) by (cases d) (simp add: shop_decoded_def shop_candidate_def)
  with d show ?thesis by simp
qed

definition shop_job :: FirmwareJobRequest where
  "shop_job = \<lparr>fj_request_id = shop_build, fj_interval_s = 60, fj_instruction = [], fj_based_on = None, fj_attempts = 0\<rparr>"

lemma shop_job_ok: "FirmwareJobRequest_ok shop_job" "FirmwareJobRequest_ok (shop_job\<lparr>fj_attempts := 1\<rparr>)"
  using shop_uuid by (simp_all add: FirmwareJobRequest_ok_def shop_job_def)

definition shop_row :: BundleRow where
  "shop_row = \<lparr>bu_buildId = shop_build, bu_version = 1, bu_planVersion = 1, bu_status = BPending, bu_storageRef = None,
     bu_log = new_work shop_job, bu_createdAt = 100, bu_updatedAt = 100\<rparr>"

definition shop_posted :: ForgeDb where
  "shop_posted = shop_db\<lparr>fg_bundles := [shop_row]\<rparr>"

lemma shop_posts: "postCode board_codec shop_options shop_build shop_request 100 shop_writer shop_db = (Inr 1, shop_posted)"
proof -
  have o: "owned shop_db shop_build (wi_tenantId shop_writer)" by (simp add: owned_def shop_db_def shop_auth_def shop_writer_def)
  have x: "recheckExpiry shop_writer 100" by (simp add: recheckExpiry_def unexpired_def shop_writer_def)
  have a: "accepted board_codec (fo_approvals shop_options) shop_db shop_build (fq_plan_version shop_request) = Inr shop_decoded"
    using shop_accepted(2) [OF shop_decodes] by (simp add: shop_options_def shop_request_def)
  have i: "request_interval shop_decoded shop_request = Inr (Fin 60)" by (simp add: request_interval_def shop_decoded_def shop_request_def)
  have n: "int_of_num (Fin 60) = Some 60" using quotient_of_int [of 60] by (simp add: Rat.of_int_def)
  have b: "bundles_of shop_db shop_build = []" by (simp add: bundles_of_def shop_db_def)
  show ?thesis unfolding postCode_def a sum.case b
    by (simp add: o x i n shop_options_def) (use shop_job_ok(1) in \<open>simp add: shop_request_def request_instruction_def shop_posted_def shop_row_def
      shop_db_def shop_job_def next_version_def\<close>)
qed

definition shop_claimed :: ClaimedRow where
  "shop_claimed = \<lparr>cr_bundle = lease_row shop_lease 200 shop_row, cr_plan = board_row\<lparr>pr_buildId := shop_build\<rparr>, cr_spec_data = JNull,
     cr_tenant = Some ''t'', cr_latest_spec = Some 1\<rparr>"

definition shop_leased :: ForgeDb where
  "shop_leased = shop_db\<lparr>fg_bundles := [lease_row shop_lease 200 shop_row]\<rparr>"

lemma shop_claims: "claim_job shop_lease 200 shop_posted = (Some shop_claimed, shop_leased)"
    "claim_target 200 shop_posted = Some shop_row"
proof -
  have e: "expire_leases 200 shop_posted = shop_posted"
    by (simp add: expire_leases_def shop_posted_def expired_lease_def shop_row_def)
  have t: "oldest (filter (claimable 200) (fg_bundles shop_posted)) = Some shop_row"
    by (simp add: oldest_def shop_posted_def claimable_def) (simp add: shop_row_def row_attempts_def new_work_def shop_job_def)
  show "claim_target 200 shop_posted = Some shop_row" unfolding claim_target_def e t ..
  have s: "set_bundle (bu_buildId shop_row) (bu_version shop_row) (lease_row shop_lease 200) shop_posted = shop_leased"
    by (simp add: set_bundle_def shop_posted_def shop_leased_def)
  have j: "joined shop_leased (lease_row shop_lease 200 shop_row) = Some shop_claimed"
    by (simp add: joined_def shop_leased_def shop_claimed_def lease_row_def shop_row_def shop_db_def shop_auth_def board_row_def spec_data_def
      latest_spec_version_def)
  show "claim_job shop_lease 200 shop_posted = (Some shop_claimed, shop_leased)"
    unfolding claim_job_def Let_def e t option.case s j ..
qed

definition shop_files :: "(string \<times> string) list" where
  "shop_files = [(''bootloader.bin'', ''b''), (''partition-table.bin'', ''t''), (''albusforge.bin'', ''a'')]"

definition shop_input :: CompileInput where
  "shop_input = \<lparr>ci_build_id = shop_build, ci_plan_version = 1, ci_code_version = 1, ci_interval_s = 60, ci_numeric = Some shop_selection\<rparr>"

definition shop_manifest :: FirmwareManifest where
  "shop_manifest = compile_manifest board_codec False shop_input shop_files"

lemma shop_manifest_ok: "FirmwareManifest_ok shop_manifest"
proof -
  from decodePlan_Inr [OF shop_decodes] obtain spec where
    r: "resolveAcceptedCandidate board_codec [] (dq_plan shop_decoded) (dq_metadata shop_decoded) spec = Inr shop_candidate"
    by (metis DecodedPlan.select_convs(1) shop_decoded_def)
  have "FirmwareManifest_ok (compile_manifest board_codec (ac_kind shop_candidate = Camera) shop_input shop_files)"
    by (rule compile_manifest_ok [OF r])
      (use shop_uuid shop_sha in \<open>auto simp: shop_input_def shop_candidate_def compile_input_ok_def z_posint_def MAX_SAFE_INTEGER_def shop_files_def\<close>)
  then show ?thesis by (simp add: shop_manifest_def shop_candidate_def)
qed

lemma shop_text:
  obtains msg where "serializeFirmwareManifest shop_manifest = Inr msg" "length msg \<le> MAX_ARTIFACT_BYTES"
proof -
  obtain msg where m: "json_stringify (sort_json (manifest_json shop_manifest)) = Some msg"
    by (simp add: manifest_json_def)
  have n: "\<exists>i < 10 ^ 16. Fin q = Fin (of_nat i)" if "q \<in> of_nat ` {0, 1, 65535, 36864, 24576}" for q
    using that by auto
  have num: "small_numbers (JNum (Fin q))" if "q \<in> {0, 1, 65535, 36864, 24576}" for q
    unfolding small_numbers.simps by (rule n) (use that in auto)
  have "small_numbers (manifest_json shop_manifest)"
    by (simp add: manifest_json_def shop_manifest_def compile_manifest_def shop_input_def shop_selection_def shop_files_def Let_def jint_def channels_json_def
      channel_json_def channel_of_def file_json_def num del: small_numbers.simps(1))
  then have "length msg \<le> text_bound (sort_json (manifest_json shop_manifest))" using m by (intro json_stringify_length) (simp_all add: small_numbers_sort)
  also have "\<dots> = text_bound (manifest_json shop_manifest)" by (rule text_bound_sort)
  also have "\<dots> \<le> MAX_ARTIFACT_BYTES"
    by (simp add: manifest_json_def shop_manifest_def compile_manifest_def shop_input_def shop_selection_def shop_files_def Let_def channels_json_def
      channel_json_def channel_of_def file_json_def jint_def shop_sha shop_hash_def board_metadata_def shop_build_def MAX_ARTIFACT_BYTES_def DEVKITC_CANDIDATE_def RUNTIME_def)
  finally show thesis using m shop_manifest_ok by (intro that) (simp_all add: serializeFirmwareManifest_def)
qed

lemma shop_compiles:
  obtains c where "compile_claimed board_codec shop_jobs shop_claimed = Inr (shop_job\<lparr>fj_attempts := 1\<rparr>, shop_decoded, c)"
    "length (co_diagnostics c) \<le> 20000" "\<And>f. f \<in> set (uploads c) \<Longrightarrow> length (snd f) \<le> MAX_ARTIFACT_BYTES"
proof -
  obtain msg where t: "serializeFirmwareManifest shop_manifest = Inr msg" "length msg \<le> MAX_ARTIFACT_BYTES" by (rule shop_text)
  have iv: "interval_ok (Fin 60)" unfolding interval_ok_iff by (rule exI [of _ 60]) simp
  obtain source where src: "renderApp (Fin 60) = Inr source" "length source \<le> MAX_ARTIFACT_BYTES"
  proof -
    have "length (num_str (Fin (of_nat 60))) \<le> 18" by (rule num_str_length) simp
    then have n: "length (num_str (Fin 60)) \<le> 18" by simp
    have "length (json_string ''hsx-sdk.h'') \<le> 56" "length (json_string ''C'') \<le> 8" using json_string_length [of "''hsx-sdk.h''"] json_string_length [of "''C''"] by simp_all
    let ?src = "''#include '' @ json_string ''hsx-sdk.h'' @ ''\<newline>extern '' @ json_string ''C'' @ '' void app_main(void) { hsx_run('' @ num_str (Fin 60) @ ''); }\<newline>''"
    have "length ?src \<le> MAX_ARTIFACT_BYTES"
      using n \<open>length (json_string ''hsx-sdk.h'') \<le> 56\<close> \<open>length (json_string ''C'') \<le> 8\<close> unfolding length_append MAX_ARTIFACT_BYTES_def by simp
    moreover have "renderApp (Fin 60) = Inr ?src" unfolding renderApp_def using iv by (simp only: if_False not_True_eq_False simp_thms)
    ultimately show thesis by (rule that [rotated])
  qed
  obtain header where h: "numericProfileHeader shop_selection = Inr header"
  proof -
    have "rx_full channel_name ''illuminance''" using channel_names_ok(1) [of Bh1750] by simp
    moreover have "rx_full profile_name (nc_id DEVKITC_CANDIDATE)" by (rule profile_names_ok) (simp add: NUMERIC_CANDIDATES_def)
    ultimately show thesis by (intro that) (simp add: numericProfileHeader_def shop_selection_def)
  qed
  let ?c = "\<lparr>co_manifest = shop_manifest, co_manifestBytes = msg, co_manifest_digest = shop_hash, co_source = source, co_source_sha256 = shop_hash,
     co_files = shop_files, co_bundle = ''z'', co_diagnostics = ''ok''\<rparr>"
  have ok: "compile_input_ok shop_input" using shop_uuid by (simp add: shop_input_def compile_input_ok_def z_posint_def MAX_SAFE_INTEGER_def)
  have "compileProfile board_codec shop_tools False shop_input = Inr ?c"
    using ok src(1) h t(1) shop_manifest_ok unfolding compileProfile_def
    by (simp add: shop_input_def shop_tools_def shop_manifest_def shop_files_def shop_sha Let_def)
  moreover have "job_of (bu_log (cr_bundle shop_claimed)) = Some (shop_job\<lparr>fj_attempts := 1\<rparr>)"
    using shop_job_ok(2) by (simp add: shop_claimed_def lease_row_def job_of_def shop_row_def new_work_def) (simp add: shop_job_def)
  moreover have "decodePlan board_codec (jo_approvals shop_jobs) (cr_plan shop_claimed) (cr_spec_data shop_claimed) = Inr shop_decoded"
    using shop_decodes by (simp add: shop_jobs_def shop_claimed_def)
  ultimately have "compile_claimed board_codec shop_jobs shop_claimed = Inr (shop_job\<lparr>fj_attempts := 1\<rparr>, shop_decoded, ?c)"
    using src(1) unfolding compile_claimed_def
    by (simp add: shop_job_def) (simp add: shop_claimed_def board_row_def shop_decoded_def shop_candidate_def renderCandidate_def shop_jobs_def shop_input_def
      lease_row_def shop_row_def)
  then show thesis
  proof (rule that)
    fix f assume "f \<in> set (uploads ?c)"
    then show "length (snd f) \<le> MAX_ARTIFACT_BYTES"
      using t(2) src(2) by (auto simp: uploads_def shop_files_def MAX_ARTIFACT_BYTES_def)
  qed simp
qed

lemma shop_lease_uuid: "rx_full z_uuid shop_lease"
  by code_simp

lemma shop_keys: "distinct (map bundle_key (fg_bundles shop_posted))"
  by (simp add: shop_posted_def)

theorem approved_job_passes_witness:
  "\<exists>db'' store' r. runClaimed board_codec shop_jobs shop_lease 200 300 shop_posted (\<lambda>_. None) = (True, db'', store') \<and>
     find_bundle db'' shop_build 1 = Some r \<and> bu_status r = BPassed"
proof -
  have own: "jo_compile shop_jobs = compileProfile board_codec shop_tools False"
      "jo_compileCamera shop_jobs = Some (compileCameraCandidate board_codec shop_tools)" by (simp_all add: shop_jobs_def)
  have hex: "Sha256Hex (cx_sha256 board_codec s)" for s using shop_sha by simp
  obtain c where c: "compile_claimed board_codec shop_jobs shop_claimed = Inr (shop_job\<lparr>fj_attempts := 1\<rparr>, shop_decoded, c)"
      "length (co_diagnostics c) \<le> 20000" "\<And>f. f \<in> set (uploads c) \<Longrightarrow> length (snd f) \<le> MAX_ARTIFACT_BYTES" by (rule shop_compiles) blast
  have "bu_buildId (cr_bundle shop_claimed) = shop_build" "bu_version (cr_bundle shop_claimed) = 1"
    by (simp_all add: shop_claimed_def lease_row_def shop_row_def)
  with approved_job_passes [where store = "\<lambda>_. None" and later = 300, OF shop_claims(1) c(1) own c(2,3) hex shop_keys shop_lease_uuid refl]
  show ?thesis by auto
qed

text \<open>The same run in four transitions.\<close>

lemma shop_run:
  obtains k row where "firmware_run board_codec shop_start [None, Some (shop_build, 1), None, None] k" "row \<in> set (wk_bundles k)"
    "bu_status row = BPassed" "bu_buildId row = shop_build" "bu_version row = 1" "fg_auth (wk_db k) = shop_auth"
proof -
  have own: "jo_compile shop_jobs = compileProfile board_codec shop_tools False"
      "jo_compileCamera shop_jobs = Some (compileCameraCandidate board_codec shop_tools)" by (simp_all add: shop_jobs_def)
  have hex: "Sha256Hex (cx_sha256 board_codec s)" for s using shop_sha by simp
  obtain c where c: "compile_claimed board_codec shop_jobs shop_claimed = Inr (shop_job\<lparr>fj_attempts := 1\<rparr>, shop_decoded, c)"
      "length (co_diagnostics c) \<le> 20000" "\<And>f. f \<in> set (uploads c) \<Longrightarrow> length (snd f) \<le> MAX_ARTIFACT_BYTES" by (rule shop_compiles) blast
  have ids: "bu_buildId (cr_bundle shop_claimed) = shop_build" "bu_version (cr_bundle shop_claimed) = 1"
    by (simp_all add: shop_claimed_def lease_row_def shop_row_def)
  obtain ready store' db'' r where s:
      "prepare_job board_codec shop_jobs shop_lease shop_claimed (\<lambda>_. None) = (Inr ready, store')"
      "publish_job board_codec shop_jobs shop_lease (cr_bundle shop_claimed) ready 300 shop_leased = (None, db'')"
      "find_bundle db'' shop_build 1 = Some r" "bu_status r = BPassed" "fg_auth db'' = fg_auth shop_leased"
    using approved_job_steps [where store = "\<lambda>_. None" and later = 300, OF shop_claims(1) c(1) own c(2,3) hex shop_keys shop_lease_uuid refl]
    unfolding ids by blast
  let ?k1 = "shop_start\<lparr>wk_db := shop_posted\<rparr>"
  let ?run = "\<lparr>wr_lease = shop_lease, wr_row = shop_claimed, wr_ready = None\<rparr>"
  let ?k2 = "?k1\<lparr>wk_db := shop_leased, wk_runs := wk_runs ?k1 @ (case Some shop_claimed of None \<Rightarrow> [] | Some r \<Rightarrow> [\<lparr>wr_lease = shop_lease, wr_row = r, wr_ready = None\<rparr>])\<rparr>"
  let ?k3 = "?k2\<lparr>wk_store := store', wk_runs := remove1 ?run (wk_runs ?k2) @ [?run\<lparr>wr_ready := Some ready\<rparr>]\<rparr>"
  let ?k4 = "?k3\<lparr>wk_db := db'', wk_runs := remove1 (?run\<lparr>wr_ready := Some ready\<rparr>) (wk_runs ?k3)\<rparr>"
  have "postCode board_codec shop_options shop_build shop_request 100 shop_writer (wk_db shop_start) = (Inr 1, shop_posted)"
    using shop_posts by (simp add: shop_start_def)
  then have 1: "firmware_step board_codec None shop_start ?k1" by (rule fs_request)
  have "firmware_step board_codec (map_option (\<lambda>r. (bu_buildId r, bu_version r)) (claim_target 200 (wk_db ?k1))) ?k1 ?k2"
  proof (rule fs_claim)
    show "fresh_lease shop_lease ?k1" by (simp add: fresh_lease_def shop_start_def shop_posted_def shop_row_def holds_lease_def)
    show "claim_job shop_lease 200 (wk_db ?k1) = (Some shop_claimed, shop_leased)" using shop_claims(1) by simp
  qed
  then have 2: "firmware_step board_codec (Some (shop_build, 1)) ?k1 ?k2" by (simp add: shop_claims(2)) (simp add: shop_row_def)
  have 3: "firmware_step board_codec None ?k2 ?k3"
    by (rule fs_prepare) (use s(1) in \<open>simp_all add: shop_start_def\<close>)
  have 4: "firmware_step board_codec None ?k3 ?k4"
    by (rule fs_publish) (use s(2) in \<open>simp_all add: shop_start_def\<close>)
  have "firmware_run board_codec shop_start ((([] @ [None]) @ [Some (shop_build, 1)]) @ [None] @ [None]) ?k4"
    unfolding append_assoc [symmetric] by (intro run_step [OF _ 4] run_step [OF _ 3] run_step [OF _ 2] run_step [OF _ 1] run_start)
  moreover have "r \<in> set (wk_bundles ?k4)" "bu_buildId r = shop_build" "bu_version r = 1" using find_bundle_Some [OF s(3)] by (simp_all add: bundle_key_def)
  moreover have "fg_auth (wk_db ?k4) = shop_auth" using s(5) by (simp add: shop_leased_def shop_db_def)
  ultimately show thesis using s(4) by (intro that [of ?k4 r]) simp_all
qed

lemma shop_start_ok: "workshop_start shop_start"
  by (simp add: workshop_start_def shop_start_def shop_db_def store_ok_def)


end
