(* ===== verification/Firmware_Release.thy ===== *)
theory Firmware_Release
  imports Firmware_Progress
begin
text \<open>
  What the owner of a build may rely on, for every interleaving of requests, retries, worker runs and other changes of the database: a
  passed version can be downloaded and never changes, and the attempts at a version are bounded. A worked build goes the whole way.
\<close>

subsection \<open>Runs keep the invariant\<close>

lemma workshop_start_ok: "workshop_start k \<Longrightarrow> workshop_ok cx k"
  by (simp add: workshop_start_def workshop_ok_def rows_ok_def build_rows_def)

lemma workshop_run_ok: "firmware_run cx k ls k' \<Longrightarrow> workshop_ok cx k \<Longrightarrow> workshop_ok cx k'"
  by (induction rule: firmware_run.induct) (blast dest: workshop_step)+

lemma workshop_run_keeps:
  "firmware_run cx k ls k' \<Longrightarrow> workshop_ok cx k \<Longrightarrow>
   (\<forall>key b. wk_store k key = Some b \<longrightarrow> wk_store k' key = Some b) \<and> {r \<in> set (wk_bundles k). bu_status r = BPassed} \<subseteq> set (wk_bundles k')"
proof (induction rule: firmware_run.induct)
  case (run_step ls k' l k'')
  note s = workshop_step [OF run_step.hyps(2) workshop_run_ok [OF run_step.hyps(1) run_step.prems]]
  have "r \<in> set (wk_bundles k'')" if r: "r \<in> set (wk_bundles k)" "bu_status r = BPassed" for r
  proof -
    from r run_step.IH [OF run_step.prems] have "r \<in> set (wk_bundles k')" by blast
    with s rows_step_after obtain r' where "r' \<in> set (wk_bundles k'')" "row_after r r'" by blast
    with r(2) show ?thesis by (simp add: row_after_def)
  qed
  with s run_step.IH [OF run_step.prems] show ?case by blast
qed auto

subsection \<open>Downloads\<close>

lemma read_gate_identity:
  "withAuthorizedRead h cookie host now db read =
     (case withAuthorizedRead h cookie host now db Inr of Inl e \<Rightarrow> Inl e | Inr who \<Rightarrow> read who)"
  by (simp add: withAuthorizedRead_def split: sum.split option.split)

definition reader :: "Codec \<Rightarrow> string option \<Rightarrow> string \<Rightarrow> int \<Rightarrow> ForgeDb \<Rightarrow> HttpError + ReadIdentity" where
  "reader cx cookie host now db = withAuthorizedRead (cx_sha256 cx) cookie host now (fg_auth db) Inr"

text \<open>The way to an artifact once the reader owns the build.\<close>

definition served :: "Codec \<Rightarrow> BundleRow \<Rightarrow> Store \<Rightarrow> string \<Rightarrow> string \<Rightarrow> bool" where
  "served cx r s file bytes \<longleftrightarrow>
     bu_status r = BPassed \<and>
     (\<exists>dir rec. bu_storageRef r = Some dir \<and> dir \<noteq> [] \<and> passed_of (bu_log r) = Some rec \<and> artifact_digest rec file = Some (cx_sha256 cx bytes) \<and>
        cx_sha256 cx bytes \<noteq> [] \<and> artifact_get (dir @ ''/'' @ file) s = Inr bytes)"

lemma getArtifact_iff:
  "getArtifact cx fo cookie host b v file now db s = Inr bytes \<longleftrightarrow>
     (\<exists>who r. reader cx cookie host now db = Inr who \<and> owned db b (ri_tenantId who) \<and> fo_artifacts fo \<and>
        find_bundle db b v = Some r \<and> served cx r s file bytes)"
  unfolding getArtifact_def reader_def read_gate_identity [of _ _ _ _ _ "artifact_location b v file db"]
  by (auto simp: artifact_location_def served_def split: sum.splits option.splits if_splits)

lemma find_bundle_row:
  assumes "rows_ok (fg_bundles db)" and "r \<in> set (fg_bundles db)"
  shows "find_bundle db (bu_buildId r) (bu_version r) = Some r"
proof -
  have "find_bundle db (bu_buildId r) (bu_version r) \<noteq> None" using assms(2) by (auto simp: find_bundle_def find_None_iff)
  then obtain r' where f: "find_bundle db (bu_buildId r) (bu_version r) = Some r'" by auto
  from find_bundle_Some [OF f] have "r' = r" by (intro rows_ok_keys [OF assms(1) _ assms(2)]) (auto simp: bundle_key_def)
  with f show ?thesis by simp
qed

lemma Sha256Hex_nonempty: "Sha256Hex s \<Longrightarrow> s \<noteq> []"
  unfolding Sha256Hex_def by (subst (asm) rx_full_lang) (auto simp: lang_Times_Cls simp del: Times.simps)

lemma artifact_digest_hex:
  assumes "FirmwarePassedRecord_ok rec" and "artifact_digest rec file = Some d"
  shows "d \<noteq> []"
proof -
  have "Sha256Hex (ff_sha256 f)" if "List.find (\<lambda>f. ff_path f = file) (mf_files (fp_manifest rec)) = Some f" for f
    using find_Some_set [OF that] assms(1)
    by (auto simp: FirmwarePassedRecord_ok_def FirmwareManifest_ok_def list_all_iff FirmwareFile_ok_def)
  with assms show ?thesis
    by (auto simp: artifact_digest_def FirmwarePassedRecord_ok_def intro!: Sha256Hex_nonempty split: if_splits)
qed

lemma record_served:
  assumes "record_ok cx s r dir rec" and "store_ok s" and "file \<in> set ARTIFACT_FILES"
    and "bu_status r = BPassed" "bu_log r = PassedLog rec" "bu_storageRef r = Some dir"
  shows "\<exists>bytes. served cx r s file bytes"
proof -
  from assms(1,3) obtain bytes where b: "s (dir @ ''/'' @ file) = Some bytes" "artifact_digest rec file = Some (cx_sha256 cx bytes)"
    and ok: "FirmwarePassedRecord_ok rec" "dir \<noteq> []" unfolding record_ok_def by blast
  from store_ok_get [OF assms(2) b(1)] artifact_digest_hex [OF ok(1) b(2)] b(2) ok assms(4-6)
  have "served cx r s file bytes" by (simp add: served_def)
  then show ?thesis ..
qed

text \<open>
  C4. A version that has passed can be downloaded: from an empty queue, whatever requests, retries and workers did, every one of its files
  reaches a reader who owns the build, with the digest its record holds; the record's manifest names this build, plan and version.
\<close>

theorem passed_firmware_downloadable:
  assumes "workshop_start k0" and "firmware_run cx k0 ls k"
    and "row \<in> set (wk_bundles k)" and "bu_status row = BPassed"
    and "reader cx cookie host now (wk_db k) = Inr who" and "owned (wk_db k) (bu_buildId row) (ri_tenantId who)" and "fo_artifacts fo"
    and "file \<in> set ARTIFACT_FILES"
  shows "\<exists>record bytes.
    getArtifact cx fo cookie host (bu_buildId row) (bu_version row) file now (wk_db k) (wk_store k) = Inr bytes \<and>
    passed_of (bu_log row) = Some record \<and> artifact_digest record file = Some (cx_sha256 cx bytes) \<and>
    mf_build_id (fp_manifest record) = bu_buildId row \<and> mf_plan_version (fp_manifest record) = bu_planVersion row \<and>
    mf_code_version (fp_manifest record) = bu_version row \<and>
    (\<exists>text. serializeFirmwareManifest (fp_manifest record) = Inr text \<and> fp_manifest_digest record = cx_sha256 cx text)"
proof -
  have ok: "workshop_ok cx k" by (rule workshop_run_ok [OF assms(2) workshop_start_ok [OF assms(1)]])
  then have rows: "rows_ok (wk_bundles k)" and store: "store_ok (wk_store k)" by (simp_all add: workshop_ok_def)
  from ok assms(3,4) obtain rec dir where rec: "bu_log row = PassedLog rec" "bu_storageRef row = Some dir" "record_ok cx (wk_store k) row dir rec"
    unfolding workshop_ok_def passed_row_def by blast
  from record_served [OF rec(3) store assms(8,4) rec(1,2)] obtain bytes where b: "served cx row (wk_store k) file bytes" ..
  with find_bundle_row [OF rows assms(3)] assms(5-7)
  have "getArtifact cx fo cookie host (bu_buildId row) (bu_version row) file now (wk_db k) (wk_store k) = Inr bytes"
    unfolding getArtifact_iff by blast
  moreover have "passed_of (bu_log row) = Some rec" using rec(1,3) by (simp add: record_ok_def)
  moreover have "artifact_digest rec file = Some (cx_sha256 cx bytes)" using b calculation(2) by (auto simp: served_def)
  ultimately show ?thesis using rec(3) unfolding record_ok_def by blast
qed

text \<open>
  C5. What has been released stays as it is: if a file of a version was downloaded once, then after any further requests, retries, worker
  runs and uploads every reader who owns the build downloads the same bytes; the row of the version is unchanged.
\<close>

theorem released_firmware_immutable:
  assumes "workshop_start k0" and "firmware_run cx k0 ls k" and "firmware_run cx k ls' k'"
    and "getArtifact cx fo cookie host b v file now (wk_db k) (wk_store k) = Inr bytes"
    and "reader cx cookie' host' now' (wk_db k') = Inr who" and "owned (wk_db k') b (ri_tenantId who)" and "fo_artifacts fo'"
  shows "getArtifact cx fo' cookie' host' b v file now' (wk_db k') (wk_store k') = Inr bytes \<and>
    find_bundle (wk_db k') b v = find_bundle (wk_db k) b v"
proof -
  have ok: "workshop_ok cx k" by (rule workshop_run_ok [OF assms(2) workshop_start_ok [OF assms(1)]])
  have rows': "rows_ok (wk_bundles k')" using workshop_run_ok [OF assms(3) ok] by (simp add: workshop_ok_def)
  note keeps = workshop_run_keeps [OF assms(3) ok]
  from assms(4) obtain r where r: "find_bundle (wk_db k) b v = Some r" "served cx r (wk_store k) file bytes"
    unfolding getArtifact_iff by blast
  have "r \<in> set (wk_bundles k')" using find_bundle_Some [OF r(1)] keeps r(2) by (auto simp: served_def)
  then have f: "find_bundle (wk_db k') b v = Some r"
    using find_bundle_row [OF rows'] find_bundle_Some [OF r(1)] by (auto simp: bundle_key_def)
  have "served cx r (wk_store k') file bytes"
    using r(2) keeps by (fastforce simp: served_def artifact_get_def split: if_splits option.splits)
  with f assms(5-7) have "getArtifact cx fo' cookie' host' b v file now' (wk_db k') (wk_store k') = Inr bytes"
    unfolding getArtifact_iff by blast
  with f r(1) show ?thesis by simp
qed

subsection \<open>Attempts\<close>

lemma count_list_filter: "P x \<Longrightarrow> count_list (filter P xs) x = count_list xs x"
  by (induction xs) auto

definition attempts_inv :: "(string \<times> int) option list \<Rightarrow> BundleRow list \<Rightarrow> bool" where
  "attempts_inv ls rows \<longleftrightarrow>
     (\<forall>r \<in> set rows. count_list ls (Some (bundle_key r)) \<le> 3 \<and>
        (bu_status r \<noteq> BPassed \<longrightarrow> row_attempts r = Some (int (count_list ls (Some (bundle_key r)))))) \<and>
     (\<forall>key. key \<notin> bundle_key ` set rows \<longrightarrow> count_list ls (Some key) = 0)"

lemma attempts_inv_step:
  assumes inv: "attempts_inv ls rows" and step: "rows_step l rows rows'" and ok: "rows_ok rows" "rows_ok rows'"
  shows "attempts_inv (ls @ [l]) rows'"
proof -
  from step obtain g new where g: "rows' = map g rows @ new"
      "\<And>r. r \<in> set rows \<Longrightarrow> row_after r (g r) \<and> (bu_status (g r) = BPassed \<longrightarrow> l \<noteq> Some (bundle_key r)) \<and>
         (bu_status (g r) \<noteq> BPassed \<longrightarrow>
            row_attempts (g r) = (if l = Some (bundle_key r) then map_option (\<lambda>n. n + 1) (row_attempts r) else row_attempts r))"
      "\<And>r. r \<in> set new \<Longrightarrow> row_attempts r = Some 0 \<and> bu_status r = BPending"
      "\<And>key. l = Some key \<Longrightarrow> key \<in> bundle_key ` set rows"
    unfolding rows_step_def by blast
  have keys: "bundle_key (g r) = bundle_key r" if "r \<in> set rows" for r using g(2) [OF that] by (simp add: row_after_def)
  have fresh: "bundle_key r \<notin> bundle_key ` set rows" if r: "r \<in> set new" for r
  proof
    assume "bundle_key r \<in> bundle_key ` set rows"
    then obtain r0 where r0: "r0 \<in> set rows" "bundle_key (g r0) = bundle_key r" using keys by force
    have "build_rows (bu_buildId r) rows' = build_rows (bu_buildId r) (map g rows) @ build_rows (bu_buildId r) new"
      by (simp add: g(1) build_rows_def)
    with rows_ok_versions [OF ok(2), of "bu_buildId r"]
    have "set (map bu_version (build_rows (bu_buildId r) (map g rows))) \<inter> set (map bu_version (build_rows (bu_buildId r) new)) = {}"
      by simp
    moreover have "g r0 \<in> set (build_rows (bu_buildId r) (map g rows))" "r \<in> set (build_rows (bu_buildId r) new)"
      "bu_version (g r0) = bu_version r" using r0 r by (auto simp: build_rows_def bundle_key_def)
    ultimately show False by auto
  qed
  have old: "count_list (ls @ [l]) (Some (bundle_key (g r))) \<le> 3 \<and>
      (bu_status (g r) \<noteq> BPassed \<longrightarrow> row_attempts (g r) = Some (int (count_list (ls @ [l]) (Some (bundle_key (g r))))))"
    if r: "r \<in> set rows" for r
  proof (cases "bu_status (g r) = BPassed")
    case True
    with g(2) [OF r] have "count_list (ls @ [l]) (Some (bundle_key (g r))) = count_list ls (Some (bundle_key r))" by (simp add: keys [OF r])
    with True inv r show ?thesis by (simp add: attempts_inv_def)
  next
    case False
    with g(2) [OF r] have np: "bu_status r \<noteq> BPassed" by (auto simp: row_after_def)
    with inv r have "row_attempts r = Some (int (count_list ls (Some (bundle_key r))))" by (simp add: attempts_inv_def)
    with False g(2) [OF r] have a: "row_attempts (g r) = Some (int (count_list (ls @ [l]) (Some (bundle_key (g r)))))"
      by (simp add: keys [OF r])
    have "row_ok (g r)" using ok(2) r by (simp add: rows_ok_def g(1))
    from row_ok_attempts [OF this] a show ?thesis by auto
  qed
  have none: "count_list (ls @ [l]) (Some key) = 0" if "key \<notin> bundle_key ` set rows" for key
  proof -
    have "l \<noteq> Some key" using g(4) that by blast
    moreover have "count_list ls (Some key) = 0" using inv that unfolding attempts_inv_def by blast
    ultimately show ?thesis by simp
  qed
  have keys': "bundle_key ` set rows \<subseteq> bundle_key ` set rows'"
  proof (rule image_subsetI)
    fix r assume r: "r \<in> set rows"
    then have "g r \<in> set rows'" by (simp add: g(1))
    then show "bundle_key r \<in> bundle_key ` set rows'" unfolding keys [OF r, symmetric] by (rule imageI)
  qed
  have "count_list (ls @ [l]) (Some (bundle_key r)) = 0" if "r \<in> set new" for r by (rule none [OF fresh [OF that]])
  then have new: "count_list (ls @ [l]) (Some (bundle_key r)) \<le> 3 \<and>
      (bu_status r \<noteq> BPassed \<longrightarrow> row_attempts r = Some (int (count_list (ls @ [l]) (Some (bundle_key r)))))" if "r \<in> set new" for r
    using that g(3) [OF that] by (simp del: count_list_append)
  show ?thesis unfolding attempts_inv_def
  proof (intro conjI ballI allI impI)
    fix r assume "r \<in> set rows'"
    then consider r0 where "r0 \<in> set rows" "r = g r0" | "r \<in> set new" by (auto simp: g(1))
    then have *: "count_list (ls @ [l]) (Some (bundle_key r)) \<le> 3 \<and>
      (bu_status r \<noteq> BPassed \<longrightarrow> row_attempts r = Some (int (count_list (ls @ [l]) (Some (bundle_key r)))))"
      using old new by cases blast+
    show "count_list (ls @ [l]) (Some (bundle_key r)) \<le> 3" using * ..
    show "bu_status r \<noteq> BPassed \<Longrightarrow> row_attempts r = Some (int (count_list (ls @ [l]) (Some (bundle_key r))))" using * by blast
  next
    fix key assume "key \<notin> bundle_key ` set rows'"
    then show "count_list (ls @ [l]) (Some key) = 0" using keys' none by blast
  qed
qed

lemma attempts_run: "firmware_run cx k0 ls k \<Longrightarrow> workshop_start k0 \<Longrightarrow> attempts_inv ls (wk_bundles k)"
proof (induction rule: firmware_run.induct)
  case run_start
  then show ?case by (simp add: attempts_inv_def workshop_start_def)
next
  case (run_step ls k l k')
  have ok: "workshop_ok cx k" by (rule workshop_run_ok [OF run_step.hyps(1) workshop_start_ok [OF run_step.prems]])
  note s = workshop_step [OF run_step.hyps(2) ok]
  show ?case by (rule attempts_inv_step [OF run_step.IH [OF run_step.prems]]) (use s ok in \<open>simp_all add: workshop_ok_def\<close>)
qed

lemma rows_ok_range:
  assumes "rows_ok rows" and "r \<in> set rows"
  shows "1 \<le> bu_version r \<and> bu_version r \<le> 100"
proof -
  let ?b = "build_rows (bu_buildId r) rows"
  have ok: "map bu_version ?b = map int [1..<Suc (length ?b)]" "length ?b \<le> 100"
    using assms(1) [unfolded rows_ok_def, THEN conjunct1, rule_format, of "bu_buildId r"] by (rule conjunct1, rule conjunct2 [THEN conjunct1])
  have "bu_version r \<in> bu_version ` set ?b" using assms(2) by (simp add: build_rows_def)
  also have "\<dots> = set (map int [1..<Suc (length ?b)])" unfolding ok(1) [symmetric] by simp
  finally have "1 \<le> bu_version r \<and> bu_version r \<le> int (length ?b)" by (auto simp del: upt_Suc)
  with ok(2) show ?thesis by linarith
qed

text \<open>
  C12. The work on a build ends: over any run from an empty queue, with any number of workers, requests and retries, a version is claimed for
  compilation at most three times, only versions 1 to 100 are claimed, so a build causes at most 300 claims in all; and at no time is more
  than one of its versions waiting or being compiled.
\<close>

theorem compile_attempts:
  assumes "workshop_start k0" and "firmware_run cx k0 ls k"
  shows "count_list ls (Some (b, v)) \<le> 3 \<and> (Some (b, v) \<in> set ls \<longrightarrow> 1 \<le> v \<and> v \<le> 100) \<and>
    length (filter (\<lambda>l. \<exists>v. l = Some (b, v)) ls) \<le> 300 \<and> length (filter in_progress (build_rows b (wk_bundles k))) \<le> 1"
proof -
  have inv: "attempts_inv ls (wk_bundles k)" by (rule attempts_run [OF assms(2,1)])
  have rows: "rows_ok (wk_bundles k)"
    using workshop_run_ok [OF assms(2) workshop_start_ok [OF assms(1)]] by (simp add: workshop_ok_def)
  note none = inv [unfolded attempts_inv_def, THEN conjunct2, rule_format]
  have three: "count_list ls (Some (b, v)) \<le> 3" for v
  proof (cases "(b, v) \<in> bundle_key ` set (wk_bundles k)")
    case True
    then obtain r where "r \<in> set (wk_bundles k)" "(b, v) = bundle_key r" by auto
    with inv show ?thesis by (simp add: attempts_inv_def)
  next
    case False
    from none [OF this] show ?thesis by simp
  qed
  have known: "1 \<le> v \<and> v \<le> 100" if "Some (b, v) \<in> set ls" for v
  proof -
    from that have "count_list ls (Some (b, v)) \<noteq> 0" by (simp add: count_list_0_iff)
    then have "(b, v) \<in> bundle_key ` set (wk_bundles k)" using none by metis
    then obtain r where "r \<in> set (wk_bundles k)" "bu_version r = v" unfolding bundle_key_def by blast
    with rows_ok_range [OF rows] show ?thesis by blast
  qed
  let ?xs = "filter (\<lambda>l. \<exists>v. l = Some (b, v)) ls" and ?X = "(\<lambda>v. Some (b, v)) ` {1..100 :: int}"
  have "length ?xs = sum (count_list ?xs) ?X"
  proof (rule sum_count_set [symmetric])
    show "set ?xs \<subseteq> ?X"
    proof
      fix l assume "l \<in> set ?xs"
      then obtain v where l: "l = Some (b, v)" "Some (b, v) \<in> set ls" by auto
      show "l \<in> ?X" unfolding l(1) by (rule imageI) (use known [OF l(2)] in simp)
    qed
  qed simp
  also have "\<dots> \<le> (\<Sum>l \<in> ?X. 3)"
  proof (rule sum_mono)
    fix l assume "l \<in> ?X"
    then obtain v where l: "l = Some (b, v)" by blast
    have "count_list ?xs l = count_list ls l" unfolding l by (rule count_list_filter) blast
    with three show "count_list ?xs l \<le> 3" by (simp add: l)
  qed
  also have "\<dots> = 300" by (simp add: card_image inj_on_def)
  finally have "length ?xs \<le> 300" .
  moreover have "length (filter in_progress (build_rows b (wk_bundles k))) \<le> 1" using rows unfolding rows_ok_def by blast
  ultimately show ?thesis using three known by blast
qed

subsection \<open>The worked build, downloaded\<close>

lemma shop_reader:
  assumes "fg_auth db = shop_auth"
  shows "reader board_codec (desk_cookie (CHR ''A'')) ''localhost:3000'' 1000 db = Inr \<lparr>ri_tenantId = ''t'', ri_userId = ''u'', ri_role = Admin\<rparr>"
proof -
  have "cookie_values (desk_cookie (CHR ''A'')) = [desk_token (CHR ''A'')]"
    by (auto simp: cookie_values_def desk_cookie_def desk_token_def SESSION_COOKIE_def numeral_eq_Suc js_trim_def js_space_def)
  moreover have "session_token_ok (desk_token (CHR ''A''))"
    by (auto simp: session_token_iff desk_token_def token_char_code b64_value_code Let_def list_all_iff)
  ultimately have h: "sessionTokenHash (cx_sha256 board_codec) (desk_cookie (CHR ''A'')) = Inr shop_hash"
    by (simp add: sessionTokenHash_def hashSessionToken_def shop_sha)
  have own: "own_session shop_hash shop_auth = Some (hd (ad_sessions shop_auth))" by (simp add: own_session_def shop_auth_def)
  have "strict_session shop_hash 1000 shop_auth = Some (hd (ad_sessions shop_auth))"
    unfolding strict_session_def own option.case ancestry_def by (simp add: shop_auth_def orphan_def)
  then show ?thesis unfolding reader_def withAuthorizedRead_def assms h desk_slug sum.case
    by (simp add: shop_auth_def tenant_row_def role_in_def)
qed

lemma shop_owned: "fg_auth db = shop_auth \<Longrightarrow> owned db shop_build ''t''"
  by (simp add: owned_def shop_auth_def)

theorem passed_firmware_downloadable_witness:
  "\<exists>k bytes. firmware_run board_codec shop_start [None, Some (shop_build, 1), None, None] k \<and>
     getArtifact board_codec shop_options (desk_cookie (CHR ''A'')) ''localhost:3000'' shop_build 1 ''firmware.zip'' 1000 (wk_db k) (wk_store k) = Inr bytes"
proof -
  obtain k row where k: "firmware_run board_codec shop_start [None, Some (shop_build, 1), None, None] k" "row \<in> set (wk_bundles k)"
      "bu_status row = BPassed" "bu_buildId row = shop_build" "bu_version row = 1" "fg_auth (wk_db k) = shop_auth" by (rule shop_run)
  have "owned (wk_db k) (bu_buildId row) (ri_tenantId \<lparr>ri_tenantId = ''t'', ri_userId = ''u'', ri_role = Admin\<rparr>)" using shop_owned [OF k(6)] k(4) by simp
  moreover have "fo_artifacts shop_options" by (simp add: shop_options_def)
  moreover have "''firmware.zip'' \<in> set ARTIFACT_FILES" by (simp add: ARTIFACT_FILES_def)
  ultimately show ?thesis
    using passed_firmware_downloadable [OF shop_start_ok k(1-3) shop_reader [OF k(6)]] k(1,4,5) by metis
qed

theorem released_firmware_immutable_witness:
  "\<exists>k k' bytes. firmware_run board_codec k [None] k' \<and> fg_plans (wk_db k') = [] \<and>
     getArtifact board_codec shop_options (desk_cookie (CHR ''A'')) ''localhost:3000'' shop_build 1 ''app.cpp'' 1000 (wk_db k') (wk_store k') = Inr bytes"
proof -
  obtain k row where k: "firmware_run board_codec shop_start [None, Some (shop_build, 1), None, None] k" "row \<in> set (wk_bundles k)"
      "bu_status row = BPassed" "bu_buildId row = shop_build" "bu_version row = 1" "fg_auth (wk_db k) = shop_auth" by (rule shop_run)
  have ok: "workshop_ok board_codec k" by (rule workshop_run_ok [OF k(1) workshop_start_ok [OF shop_start_ok]])
  from ok k(2,3) obtain rec dir where rec: "bu_log row = PassedLog rec" "bu_storageRef row = Some dir" "record_ok board_codec (wk_store k) row dir rec"
    unfolding workshop_ok_def passed_row_def by blast
  have "''app.cpp'' \<in> set ARTIFACT_FILES" by (simp add: ARTIFACT_FILES_def)
  then obtain bytes where b: "served board_codec row (wk_store k) ''app.cpp'' bytes" using record_served [OF rec(3) _ _ k(3) rec(1,2)] ok unfolding workshop_ok_def by blast
  have f: "find_bundle (wk_db k) shop_build 1 = Some row" using find_bundle_row [OF _ k(2)] ok k(4,5) by (simp add: workshop_ok_def)
  have o: "fo_artifacts shop_options" "owned (wk_db k) shop_build (ri_tenantId \<lparr>ri_tenantId = ''t'', ri_userId = ''u'', ri_role = Admin\<rparr>)"
    using shop_owned [OF k(6)] by (simp_all add: shop_options_def)
  have get: "getArtifact board_codec shop_options (desk_cookie (CHR ''A'')) ''localhost:3000'' shop_build 1 ''app.cpp'' 1000 (wk_db k) (wk_store k) = Inr bytes"
    unfolding getArtifact_iff using shop_reader [OF k(6)] o f b by blast
  let ?k = "k\<lparr>wk_db := (wk_db k)\<lparr>fg_plans := []\<rparr>\<rparr>"
  have "firmware_step board_codec None k ?k" by (rule fs_world) simp
  from run_step [OF run_start this] have r: "firmware_run board_codec k ([] @ [None]) ?k" .
  have a: "fg_auth (wk_db ?k) = shop_auth" using k(6) by simp
  have "owned (wk_db ?k) shop_build (ri_tenantId \<lparr>ri_tenantId = ''t'', ri_userId = ''u'', ri_role = Admin\<rparr>)" using shop_owned [OF a] by simp
  from released_firmware_immutable [OF shop_start_ok k(1) r get shop_reader [OF a] this o(1)] r show ?thesis
    by (intro exI [of _ k] exI [of _ ?k] exI [of _ bytes]) simp
qed

theorem compile_attempts_witness:
  "\<exists>k. firmware_run board_codec shop_start [None, Some (shop_build, 1), None, None] k \<and>
     count_list [None, Some (shop_build, 1), None, None] (Some (shop_build, 1 :: int)) \<le> 3"
proof -
  obtain k where k: "firmware_run board_codec shop_start [None, Some (shop_build, 1), None, None] k" by (rule shop_run)
  from compile_attempts [OF shop_start_ok k] k show ?thesis by blast
qed


end
