(* ===== verification/Rate_Limit.thy ===== *)
theory Rate_Limit
  imports Prelude
begin
text \<open>
  The gateway's in-memory sliding-window limiter, \<open>apps/gateway/src/rate-limit.ts\<close>, which the chat, sign-in and ask routes
  consult before they do anything that costs. Times are milliseconds. The reference it is compared with is stateless: it looks at
  the whole history of admitted hits and knows nothing of the periodic sweep.
\<close>

subsection \<open>The limiter\<close>

record Limiter =
  rl_hits :: "(string \<times> int list) list"
  rl_takes :: nat

record LimiterConfig =
  rl_limit :: nat
  rl_windowMs :: int

definition new_limiter :: Limiter where
  "new_limiter = \<lparr>rl_hits = [], rl_takes = 0\<rparr>"

definition hits_of :: "Limiter \<Rightarrow> string \<Rightarrow> int list" where
  "hits_of l key = (case map_of (rl_hits l) key of None \<Rightarrow> [] | Some ts \<Rightarrow> ts)"

definition sweep :: "LimiterConfig \<Rightarrow> int \<Rightarrow> Limiter \<Rightarrow> Limiter" where
  "sweep cfg now l =
     l\<lparr>rl_hits := filter (\<lambda>(key, ts). \<not> list_all (\<lambda>t. t \<le> now - rl_windowMs cfg) ts) (rl_hits l)\<rparr>"

text \<open>\<open>None\<close> is the \<open>NaN\<close> that \<open>recent[0]!\<close> makes of an empty window, which only a limit of zero reaches.\<close>

definition take_hit :: "LimiterConfig \<Rightarrow> string \<Rightarrow> int \<Rightarrow> Limiter \<Rightarrow> int option \<times> Limiter" where
  "take_hit cfg key now l0 =
     (let l1 = l0\<lparr>rl_takes := Suc (rl_takes l0)\<rparr>;
          l = (if rl_takes l1 mod 1000 = 0 then sweep cfg now l1 else l1);
          recent = filter (\<lambda>t. t > now - rl_windowMs cfg) (hits_of l key)
      in if length recent \<ge> rl_limit cfg
         then (map_option (\<lambda>t. t + rl_windowMs cfg - now) (case recent of [] \<Rightarrow> None | t # _ \<Rightarrow> Some t),
               l\<lparr>rl_hits := map_set key recent (rl_hits l)\<rparr>)
         else (Some 0, l\<lparr>rl_hits := map_set key (recent @ [now]) (rl_hits l)\<rparr>))"

text \<open>How every caller reads the result: \<open>retryMs > 0\<close> refuses.\<close>

definition limited :: "int option \<Rightarrow> bool" where
  "limited retry = (case retry of None \<Rightarrow> False | Some ms \<Rightarrow> ms > 0)"

text \<open>A run of calls; the answers in order.\<close>

fun take_run :: "LimiterConfig \<Rightarrow> (string \<times> int) list \<Rightarrow> Limiter \<Rightarrow> int option list \<times> Limiter" where
  "take_run cfg [] l = ([], l)"
| "take_run cfg ((key, now) # calls) l =
     (let (r, l1) = take_hit cfg key now l; (rs, l2) = take_run cfg calls l1 in (r # rs, l2))"

subsection \<open>The reference\<close>

definition window_hits :: "LimiterConfig \<Rightarrow> (string \<times> int) list \<Rightarrow> string \<Rightarrow> int \<Rightarrow> int list" where
  "window_hits cfg history key now = map snd (filter (\<lambda>(k, t). k = key \<and> t > now - rl_windowMs cfg) history)"

definition reference_take :: "LimiterConfig \<Rightarrow> (string \<times> int) list \<Rightarrow> string \<Rightarrow> int \<Rightarrow> int option" where
  "reference_take cfg history key now =
     (let recent = window_hits cfg history key now
      in if length recent < rl_limit cfg then Some 0
         else (case recent of [] \<Rightarrow> None | t # _ \<Rightarrow> Some (t + rl_windowMs cfg - now)))"

fun reference_run :: "LimiterConfig \<Rightarrow> (string \<times> int) list \<Rightarrow> (string \<times> int) list \<Rightarrow> int option list" where
  "reference_run cfg [] history = []"
| "reference_run cfg ((key, now) # calls) history =
     (let r = reference_take cfg history key now
      in r # reference_run cfg calls
           (if length (window_hits cfg history key now) < rl_limit cfg then history @ [(key, now)] else history))"

text \<open>The calls a run admitted, with their times.\<close>

definition admitted :: "(string \<times> int) list \<Rightarrow> int option list \<Rightarrow> (string \<times> int) list" where
  "admitted calls answers = map fst (filter (\<lambda>(c, r). \<not> limited r) (zip calls answers))"

subsection \<open>The limiter refines the reference\<close>

text \<open>The window of every key agrees with the history, from the last call's clock on.\<close>

definition tracks :: "LimiterConfig \<Rightarrow> int \<Rightarrow> (string \<times> int) list \<Rightarrow> Limiter \<Rightarrow> bool" where
  "tracks cfg now history l \<longleftrightarrow> distinct (map fst (rl_hits l)) \<and>
     (\<forall>key. filter (\<lambda>t. t > now - rl_windowMs cfg) (hits_of l key) = window_hits cfg history key now)"

lemma hits_of_takes [simp]: "hits_of (l\<lparr>rl_takes := n\<rparr>) key = hits_of l key"
  by (simp add: hits_of_def)

lemma hits_of_set: "hits_of (l\<lparr>rl_hits := map_set key ts (rl_hits l)\<rparr>) k = (if k = key then ts else hits_of l k)"
  by (simp add: hits_of_def)

lemma hits_of_sweep:
  "distinct (map fst (rl_hits l)) \<Longrightarrow>
   filter (\<lambda>t. t > now - rl_windowMs cfg) (hits_of (sweep cfg now l) key) = filter (\<lambda>t. t > now - rl_windowMs cfg) (hits_of l key)"
  by (auto simp: hits_of_def sweep_def map_of_filter_distinct list_all_iff filter_empty_conv not_less split: option.splits)

lemma tracks_later:
  assumes "tracks cfg now history l" "now \<le> now'"
  shows "tracks cfg now' history l"
proof -
  have "filter (\<lambda>t. t > now' - rl_windowMs cfg) (hits_of l key) =
      filter (\<lambda>t. t > now' - rl_windowMs cfg) (filter (\<lambda>t. t > now - rl_windowMs cfg) (hits_of l key))" for key
    using assms(2) by (auto simp: intro: filter_cong)
  also have "\<dots> key = window_hits cfg history key now'" for key
    using assms by (auto simp: tracks_def window_hits_def filter_map o_def case_prod_beta intro!: arg_cong [where f = "map snd"] filter_cong)
  finally show ?thesis using assms(1) by (simp add: tracks_def)
qed

lemma tracks_swept: "tracks cfg now history l \<Longrightarrow> tracks cfg now history (sweep cfg now l)"
  unfolding tracks_def by (simp add: hits_of_sweep) (simp add: sweep_def distinct_map_filter)

lemma tracks_takes [simp]: "tracks cfg now history (l\<lparr>rl_takes := n\<rparr>) = tracks cfg now history l"
  by (simp add: tracks_def)

lemma window_hits_append:
  "window_hits cfg (history @ [(k, t)]) key now =
     window_hits cfg history key now @ (if k = key \<and> t > now - rl_windowMs cfg then [t] else [])"
  by (simp add: window_hits_def)

lemma tracks_set:
  assumes "tracks cfg now history l" "0 < rl_windowMs cfg"
  shows "tracks cfg now history (l\<lparr>rl_hits := map_set key (window_hits cfg history key now) (rl_hits l)\<rparr>)"
    "tracks cfg now (history @ [(key, now)])
       (l\<lparr>rl_hits := map_set key (window_hits cfg history key now @ [now]) (rl_hits l)\<rparr>)"
proof -
  have *: "filter (\<lambda>t. t > now - rl_windowMs cfg) (window_hits cfg history key now) = window_hits cfg history key now"
    by (auto simp: window_hits_def filter_id_conv)
  show "tracks cfg now history (l\<lparr>rl_hits := map_set key (window_hits cfg history key now) (rl_hits l)\<rparr>)"
    "tracks cfg now (history @ [(key, now)])
       (l\<lparr>rl_hits := map_set key (window_hits cfg history key now @ [now]) (rl_hits l)\<rparr>)"
    using assms * by (auto simp: tracks_def distinct_keys_map_set hits_of_set window_hits_append)
qed

lemma take_hit_reference:
  assumes "tracks cfg before history l0" "before \<le> now" "0 < rl_windowMs cfg"
  shows "fst (take_hit cfg key now l0) = reference_take cfg history key now"
    "tracks cfg now (if length (window_hits cfg history key now) < rl_limit cfg then history @ [(key, now)] else history)
       (snd (take_hit cfg key now l0))"
proof -
  define l where "l = (if Suc (rl_takes l0) mod 1000 = 0 then sweep cfg now (l0\<lparr>rl_takes := Suc (rl_takes l0)\<rparr>) else l0\<lparr>rl_takes := Suc (rl_takes l0)\<rparr>)"
  have t: "tracks cfg now history l"
    using tracks_later [OF assms(1,2)] by (simp add: l_def tracks_swept)
  then have recent: "filter (\<lambda>t. t > now - rl_windowMs cfg) (hits_of l key) = window_hits cfg history key now"
    by (simp add: tracks_def)
  have eq: "take_hit cfg key now l0 =
     (if rl_limit cfg \<le> length (window_hits cfg history key now)
      then (map_option (\<lambda>t. t + rl_windowMs cfg - now) (case window_hits cfg history key now of [] \<Rightarrow> None | t # _ \<Rightarrow> Some t),
            l\<lparr>rl_hits := map_set key (window_hits cfg history key now) (rl_hits l)\<rparr>)
      else (Some 0, l\<lparr>rl_hits := map_set key (window_hits cfg history key now @ [now]) (rl_hits l)\<rparr>))"
    unfolding take_hit_def Let_def using recent by (simp add: l_def)
  show "fst (take_hit cfg key now l0) = reference_take cfg history key now"
    by (auto simp: eq reference_take_def Let_def split: list.splits)
  show "tracks cfg now (if length (window_hits cfg history key now) < rl_limit cfg then history @ [(key, now)] else history)
       (snd (take_hit cfg key now l0))"
    using tracks_set [OF t assms(3), of key] by (simp add: eq)
qed

lemma take_run_reference:
  assumes "tracks cfg before history l" "0 < rl_windowMs cfg" "sorted (before # map snd calls)"
  shows "fst (take_run cfg calls l) = reference_run cfg calls history"
  using assms
proof (induction calls arbitrary: before history l)
  case (Cons call calls)
  obtain key now where [simp]: "call = (key, now)" by force
  from Cons.prems have le: "before \<le> now" by simp
  note step = take_hit_reference [OF Cons.prems(1) le Cons.prems(2), of key]
  from Cons.IH [OF step(2) Cons.prems(2)] Cons.prems(3) step(1) show ?case
    by (simp add: Let_def case_prod_beta)
qed simp

lemma tracks_new: "tracks cfg now [] new_limiter"
  by (simp add: tracks_def new_limiter_def hits_of_def window_hits_def)

text \<open>The reference admits at most the limit in any window.\<close>

definition within_limit :: "LimiterConfig \<Rightarrow> (string \<times> int) list \<Rightarrow> bool" where
  "within_limit cfg history \<longleftrightarrow>
     (\<forall>key t. length (filter (\<lambda>(k, u). k = key \<and> t - rl_windowMs cfg < u \<and> u \<le> t) history) \<le> rl_limit cfg)"

lemma reference_take_limited:
  assumes "0 < rl_limit cfg" "\<forall>h \<in> set history. snd h \<le> now"
  shows "limited (reference_take cfg history key now) \<longleftrightarrow> \<not> length (window_hits cfg history key now) < rl_limit cfg"
proof -
  have "t + rl_windowMs cfg - now > 0" if "window_hits cfg history key now = t # ts" for t ts
  proof -
    have "t \<in> set (window_hits cfg history key now)" using that by simp
    then show ?thesis by (auto simp: window_hits_def)
  qed
  with assms(1) show ?thesis by (auto simp: limited_def reference_take_def Let_def split: list.splits)
qed

lemma within_limit_snoc:
  assumes "within_limit cfg history" "\<forall>h \<in> set history. snd h \<le> now"
    and "length (window_hits cfg history key now) < rl_limit cfg"
  shows "within_limit cfg (history @ [(key, now)])"
proof -
  have "length (filter (\<lambda>(k, u). k = key \<and> t - rl_windowMs cfg < u \<and> u \<le> t) history) < rl_limit cfg"
    if "t - rl_windowMs cfg < now" "now \<le> t" for t
  proof -
    have "length (filter (\<lambda>(k, u). k = key \<and> t - rl_windowMs cfg < u \<and> u \<le> t) history) \<le>
        length (filter (\<lambda>(k, u). k = key \<and> u > now - rl_windowMs cfg) history)"
      using that by (induction history) auto
    with assms(3) show ?thesis by (simp add: window_hits_def)
  qed
  with assms(1) show ?thesis unfolding within_limit_def by (auto simp: Suc_le_eq)
qed

lemma reference_run_within:
  assumes "0 < rl_limit cfg" "within_limit cfg history" "\<forall>h \<in> set history. snd h \<le> before" "sorted (before # map snd calls)"
  shows "within_limit cfg (history @ admitted calls (reference_run cfg calls history))"
  using assms
proof (induction calls arbitrary: before history)
  case (Cons call calls)
  obtain key now where [simp]: "call = (key, now)" by force
  let ?h = "if length (window_hits cfg history key now) < rl_limit cfg then history @ [(key, now)] else history"
  have past: "\<forall>h \<in> set history. snd h \<le> now" using Cons.prems(3,4) by force
  have "within_limit cfg ?h" using within_limit_snoc [OF Cons.prems(2) past] Cons.prems(2) by simp
  moreover have "\<forall>h \<in> set ?h. snd h \<le> now" using past by simp
  moreover have "sorted (now # map snd calls)" using Cons.prems(4) by simp
  ultimately have "within_limit cfg (?h @ admitted calls (reference_run cfg calls ?h))"
    by (rule Cons.IH [OF Cons.prems(1)])
  moreover have "history @ admitted (call # calls) (reference_run cfg (call # calls) history) =
      ?h @ admitted calls (reference_run cfg calls ?h)"
    using reference_take_limited [OF Cons.prems(1) past] by (simp add: admitted_def Let_def)
  ultimately show ?case by simp
qed (simp add: admitted_def)

text \<open>
  C18. The rate limiter answers every call as the stateless reference does, sweeps included, when the clock does not go back; so
  over any run no key is admitted more often than the limit within any window, wherever that window lies.
\<close>

theorem rate_limit_window:
  assumes "sorted (map snd calls)" "0 < rl_windowMs cfg" "0 < rl_limit cfg"
  shows "fst (take_run cfg calls new_limiter) = reference_run cfg calls [] \<and>
    length (filter (\<lambda>(k, u). k = key \<and> t - rl_windowMs cfg < u \<and> u \<le> t)
      (admitted calls (fst (take_run cfg calls new_limiter)))) \<le> rl_limit cfg"
proof -
  define start where "start = (case calls of [] \<Rightarrow> 0 | c # _ \<Rightarrow> snd c)"
  have s: "sorted (start # map snd calls)" using assms(1) by (cases calls) (force simp: start_def)+
  have eq: "fst (take_run cfg calls new_limiter) = reference_run cfg calls []"
    by (rule take_run_reference [OF tracks_new assms(2) s])
  have "within_limit cfg ([] @ admitted calls (reference_run cfg calls []))"
    by (rule reference_run_within [OF assms(3) _ _ s]) (simp_all add: within_limit_def)
  with eq show ?thesis by (simp add: within_limit_def)
qed

theorem rate_limit_window_witness:
  "admitted [(''a'', 0), (''a'', 1), (''a'', 2), (''b'', 2), (''a'', 10)]
      (fst (take_run \<lparr>rl_limit = 2, rl_windowMs = 10\<rparr> [(''a'', 0), (''a'', 1), (''a'', 2), (''b'', 2), (''a'', 10)] new_limiter)) =
    [(''a'', 0), (''a'', 1), (''b'', 2), (''a'', 10)]"
proof -
  let ?calls = "[(''a'', 0), (''a'', 1), (''a'', 2), (''b'', 2), (''a'', 10)] :: (string \<times> int) list"
  have "fst (take_run \<lparr>rl_limit = 2, rl_windowMs = 10\<rparr> ?calls new_limiter) = reference_run \<lparr>rl_limit = 2, rl_windowMs = 10\<rparr> ?calls []"
    using rate_limit_window [of ?calls "\<lparr>rl_limit = 2, rl_windowMs = 10\<rparr>"] by simp
  then show ?thesis by (simp add: admitted_def reference_take_def window_hits_def limited_def Let_def)
qed

end
