(* ===== verification/Build_Routes.thy ===== *)
theory Build_Routes
  imports Http Catalogue Auth Intake_Service Rate_Limit Event_Stream
begin
text \<open>
  The chat routes of the gateway, \<open>apps/gateway/src/build-routes.ts\<close>, over the chat store, the limiters, the turn scheduler and the
  stream registry, with the cookies of \<open>owner.ts\<close>, the candidate parts of \<open>candidates.ts\<close> and the parts query of \<open>parts.ts\<close>. A route maps
  the gateway's state to an answer or an \<open>HttpError\<close> and the state after it; what the clocks, the token and the id sources return for one
  request is \<open>Draws\<close>. Log lines are left out.
\<close>

subsection \<open>Parts\<close>

record PartSummary =
  su_id :: string
  su_version :: string
  su_name :: string
  su_category :: PartCategory
  su_status :: PartStatus
  su_successor :: "string option"
  su_interface :: PartInterface
  su_capabilities :: "string list"
  su_unit_cost_usd :: "jsnum option"

definition summarizePart :: "PartDefinition \<Rightarrow> PartSummary" where
  "summarizePart part =
     \<lparr>su_id = part_id part, su_version = part_version part, su_name = part_name part, su_category = category part,
      su_status = status part, su_successor = successor part, su_interface = part_interface (electrical part),
      su_capabilities = capabilities (software part), su_unit_cost_usd = unit_cost_usd (commerce part)\<rparr>"

definition keep_highest :: "PartDefinition \<Rightarrow> (string \<times> PartDefinition) list \<Rightarrow> (string \<times> PartDefinition) list" where
  "keep_highest row latest =
     (case map_of latest (part_id row) of
        None \<Rightarrow> map_set (part_id row) row latest
      | Some current \<Rightarrow> (if compareSemver (part_version row) (part_version current) > 0 then map_set (part_id row) row latest else latest))"

definition latestPerId :: "PartDefinition list \<Rightarrow> PartDefinition list" where
  "latestPerId rows = js_sort (\<lambda>a b. compare_lt (part_id a) (part_id b)) (map snd (fold keep_highest rows []))"

text \<open>\<open>PartsStore.latest\<close>: the rows of \<open>registry.parts\<close> hold definitions that parse.\<close>

definition parts_latest :: "PartStatus list \<Rightarrow> PartCategory option \<Rightarrow> string option \<Rightarrow> PartDefinition list \<Rightarrow> PartDefinition list" where
  "parts_latest statuses cat i rows =
     (if statuses = [] then []
      else filter (\<lambda>p. case cat of None \<Rightarrow> True | Some c \<Rightarrow> category p = c)
             (latestPerId (filter (\<lambda>p. status p \<in> set statuses \<and> (case i of None \<Rightarrow> True | Some x \<Rightarrow> part_id p = x)) rows)))"

definition DEFAULT_PART_STATUSES :: "PartStatus list" where
  "DEFAULT_PART_STATUSES = [Draft, Active, Deprecated]"

record CandidatePart =
  cp_summary :: PartSummary
  cp_matched :: "string list"

definition specCapabilities :: "Spec option \<Rightarrow> string list" where
  "specCapabilities data = (case data of None \<Rightarrow> [] | Some s \<Rightarrow> sp_capabilities s)"

definition matchCandidates :: "PartDefinition list \<Rightarrow> string list \<Rightarrow> CandidatePart list" where
  "matchCandidates parts wanted =
     (if wanted = [] then []
      else map (\<lambda>(part, matched). \<lparr>cp_summary = summarizePart part, cp_matched = matched\<rparr>)
             (js_sort (\<lambda>a b. compare_lt (part_id (fst a)) (part_id (fst b)))
               (filter (\<lambda>(part, matched). matched \<noteq> [])
                 (map (\<lambda>part. (part, js_sort compare_lt (js_unique (filter (\<lambda>c. c \<in> set wanted) (capabilities (software part)))))) parts))))"

subsection \<open>The anonymous owner\<close>

definition ANON_COOKIE_MAX_AGE_S :: nat where
  "ANON_COOKIE_MAX_AGE_S = 30 * 24 * 60 * 60"

fun find_anon :: "string list \<Rightarrow> string option" where
  "find_anon [] = None"
| "find_anon (pair # rest) =
     (if CHR ''='' \<notin> set pair then find_anon rest
      else if js_trim (takeWhile (\<lambda>c. c \<noteq> CHR ''='') pair) \<noteq> ANON_OWNER_COOKIE then find_anon rest
      else (let value = js_trim (tl (dropWhile (\<lambda>c. c \<noteq> CHR ''='') pair))
            in if rx_full TOKEN_PATTERN value then Some value else find_anon rest))"

definition anonTokenFromCookieHeader :: "CookieHeader \<Rightarrow> string option" where
  "anonTokenFromCookieHeader header =
     (let raw = raw_cookie header in if raw = [] then None else find_anon (js_split (CHR '';'') raw))"

definition anonOwnerSetCookie :: "string \<Rightarrow> string" where
  "anonOwnerSetCookie token =
     ANON_OWNER_COOKIE @ ''='' @ token @ ''; Path=/; Secure; HttpOnly; SameSite=Lax; Max-Age='' @ nat_str ANON_COOKIE_MAX_AGE_S"

subsection \<open>Requests\<close>

definition text_char :: "char \<Rightarrow> bool" where
  "text_char c \<longleftrightarrow>
     (let n = (of_char c :: nat) in \<not> (n \<le> 8 \<or> n = 11 \<or> n = 12 \<or> (14 \<le> n \<and> n \<le> 31) \<or> n = 127))"

definition PersonText :: "nat \<Rightarrow> jvalue \<Rightarrow> string option" where
  "PersonText limit v =
     (case v of
        JStr s \<Rightarrow> (let t = js_trim s in if t \<noteq> [] \<and> length t \<le> limit \<and> list_all text_char t then Some t else None)
      | _ \<Rightarrow> None)"

definition optional_uuid :: "jvalue \<Rightarrow> string option option" where
  "optional_uuid v =
     (case v of JUndefined \<Rightarrow> Some None | JStr s \<Rightarrow> if rx_full z_uuid s then Some (Some s) else None | _ \<Rightarrow> None)"

text \<open>The workspace the caller saw: absent, anonymous, or a tenant.\<close>

definition nullable_uuid :: "jvalue \<Rightarrow> string option option option" where
  "nullable_uuid v =
     (case v of JUndefined \<Rightarrow> Some None | JNull \<Rightarrow> Some (Some None)
      | JStr s \<Rightarrow> if rx_full z_uuid s then Some (Some (Some s)) else None | _ \<Rightarrow> None)"

record CreateRequest =
  cr_ask_text :: string
  cr_expected_tenant_id :: "string option option"
  cr_client_message_id :: "string option"

fun CreateBuildRequest :: "jvalue \<Rightarrow> CreateRequest option" where
  "CreateBuildRequest (JObj kvs) =
     (case (PersonText 2000 (member_of ''ask_text'' kvs), nullable_uuid (member_of ''expected_tenant_id'' kvs),
            optional_uuid (member_of ''client_message_id'' kvs)) of
        (Some ask, Some tenant, Some client) \<Rightarrow>
          Some \<lparr>cr_ask_text = ask, cr_expected_tenant_id = tenant, cr_client_message_id = client\<rparr>
      | _ \<Rightarrow> None)"
| "CreateBuildRequest _ = None"

text \<open>\<open>PostMessageRequest\<close> with the client id required.\<close>

fun PostMessageBody :: "jvalue \<Rightarrow> (string \<times> string) option" where
  "PostMessageBody (JObj kvs) =
     (case (PersonText 4000 (member_of ''text'' kvs), optional_uuid (member_of ''client_message_id'' kvs)) of
        (Some t, Some (Some c)) \<Rightarrow> Some (t, c)
      | _ \<Rightarrow> None)"
| "PostMessageBody _ = None"

subsection \<open>Answers\<close>

text \<open>\<open>Math.max(1, Math.ceil(retryMs / 1000))\<close>.\<close>

definition retry_after_s :: "int \<Rightarrow> nat" where
  "retry_after_s retryMs = nat (max 1 (- ((- retryMs) div 1000)))"

definition rateLimited :: "int \<Rightarrow> HttpError" where
  "rateLimited retryMs =
     (let s = retry_after_s retryMs
      in \<lparr>he_status = 429, he_code = ''RATE_LIMITED'', he_details = [(''retry_after_s'', JNum (Fin (of_nat s)))],
          he_headers = [(''retry-after'', nat_str s)]\<rparr>)"

definition TURN_IN_PROGRESS_S :: nat where
  "TURN_IN_PROGRESS_S = 60"

definition RECOVERY_INTERVAL_MS :: int where
  "RECOVERY_INTERVAL_MS = 60000"

definition STREAM_RETRY_S :: nat where
  "STREAM_RETRY_S = 5"

definition ANON_OWNERS_KEY :: string where
  "ANON_OWNERS_KEY = ''instance''"

definition NAME_LENGTH :: nat where
  "NAME_LENGTH = 60"

definition trimEnd :: "string \<Rightarrow> string" where
  "trimEnd s = rev (dropWhile js_space (rev s))"

text \<open>The ellipsis is outside the modelled code units, so it is an argument.\<close>

definition nameFromAsk :: "string \<Rightarrow> string \<Rightarrow> string" where
  "nameFromAsk ellipsis askText =
     (let line = js_trim (hd (js_split (CHR ''\<newline>'') (js_trim askText)))
      in if length line \<le> NAME_LENGTH then line else trimEnd (take (NAME_LENGTH - 1) line) @ ellipsis)"

record BuildSummary =
  de_id :: string
  de_name :: string
  de_description :: string
  de_display_status :: string
  de_device_count :: nat
  de_updated_at :: string

record BuildDetail = BuildSummary +
  de_status :: BuildStatus
  de_spec_version :: "nat option"
  de_spec :: "Spec option"
  de_candidate_parts :: "CandidatePart list"

subsection \<open>The gateway\<close>

record RouteConfig =
  rc_builds :: LimiterConfig
  rc_messages :: LimiterConfig
  rc_anonOwners :: LimiterConfig
  rc_includeDrafts :: bool
  rc_streams :: StreamLimits
  rc_sha256 :: "string \<Rightarrow> string"
  rc_tenantOf :: "(string \<Rightarrow> string option) option"
  rc_parts :: "PartDefinition list"
  rc_ellipsis :: string

record Gateway =
  gw_db :: ChatDb
  gw_builds :: Limiter
  gw_messages :: Limiter
  gw_anonOwners :: Limiter
  gw_recoveredAt :: "(string \<times> int) list"
  gw_sched :: Scheduler
  gw_streams :: StreamRegistry

record Draws =
  dw_nowMs :: int
  dw_nowUs :: nat
  dw_token :: string
  dw_buildId :: string
  dw_messageId :: string

record 'a Reply =
  re_status :: nat
  re_body :: 'a
  re_setCookie :: "string option"

definition reply :: "nat \<Rightarrow> 'a \<Rightarrow> 'a Reply" where
  "reply st body = \<lparr>re_status = st, re_body = body, re_setCookie = None\<rparr>"

definition ownerOf :: "RouteConfig \<Rightarrow> CookieHeader \<Rightarrow> Owner option" where
  "ownerOf cfg header =
     (let anonHash = map_option (rc_sha256 cfg) (anonTokenFromCookieHeader header);
          tenant = (case rc_tenantOf cfg of
              None \<Rightarrow> None
            | Some tenantOf \<Rightarrow> (case sessionTokenFromCookieHeader header of None \<Rightarrow> None | Some t \<Rightarrow> tenantOf t))
      in if tenant = None \<and> anonHash = None then None else Some \<lparr>ow_tenantId = tenant, ow_anonHash = anonHash\<rparr>)"

definition ownedBuild :: "RouteConfig \<Rightarrow> CookieHeader \<Rightarrow> string \<Rightarrow> Gateway \<Rightarrow> HttpError + BuildRow \<times> Owner" where
  "ownedBuild cfg header i gw =
     (if i = [] \<or> length i > 100 then Inl bad_request
      else case ownerOf cfg header of
             None \<Rightarrow> Inl notFound
           | Some owner \<Rightarrow>
               (case findOwnedBuild (gw_db gw) i owner of
                  None \<Rightarrow> Inl notFound
                | Some b \<Rightarrow> Inr (b, owner)))"

definition summary :: "RouteConfig \<Rightarrow> BuildRow \<Rightarrow> BuildSummary" where
  "summary cfg b =
     \<lparr>de_id = bd_id b, de_name = nameFromAsk (rc_ellipsis cfg) (bd_askText b), de_description = bd_askText b,
      de_display_status = ''designing'', de_device_count = 0, de_updated_at = toISOString (int (bd_updatedAt b div 1000))\<rparr>"

definition detail :: "RouteConfig \<Rightarrow> ChatDb \<Rightarrow> BuildRow \<Rightarrow> BuildDetail" where
  "detail cfg db b =
     (let spec = latest_spec db (bd_id b); data = map_option sv_data spec; capabilities = specCapabilities data;
          statuses = (if rc_includeDrafts cfg then [Active, Draft] else [Active])
      in BuildSummary.extend (summary cfg b) (BuildDetail.fields (bd_status b) (map_option sv_version spec) data
           (if capabilities = [] then [] else matchCandidates (parts_latest statuses None None (rc_parts cfg)) capabilities)))"

subsection \<open>Recovery of lost turns\<close>

text \<open>Whether a read starts a turn, and the claims it leaves.\<close>

definition recovery :: "bool \<Rightarrow> string \<Rightarrow> int \<Rightarrow> (MessageRow \<times> bool) option \<Rightarrow> (string \<times> int) list \<Rightarrow> bool \<times> (string \<times> int) list" where
  "recovery running b now newest claims =
     (if running then (False, claims)
      else if (case map_of claims b of None \<Rightarrow> False | Some last_at \<Rightarrow> now - last_at < RECOVERY_INTERVAL_MS) then (False, claims)
      else (let c1 = map_set b now claims;
                c2 = (if length c1 > 10000 then filter (\<lambda>e. \<not> now - snd e \<ge> RECOVERY_INTERVAL_MS) c1 else c1)
            in case newest of
                 None \<Rightarrow> (False, filter (\<lambda>e. fst e \<noteq> b) c2)
               | Some (m, recent) \<Rightarrow>
                   if bm_role m \<noteq> ChatUser \<or> recent then (False, filter (\<lambda>e. fst e \<noteq> b) c2) else (True, c2)))"

definition recoverLostTurn :: "string \<Rightarrow> Draws \<Rightarrow> Gateway \<Rightarrow> Gateway" where
  "recoverLostTurn b dw gw =
     (let (lost, claims) = recovery (isRunning b (gw_sched gw)) b (dw_nowMs dw)
            (lastMessageOf (gw_db gw) b TURN_IN_PROGRESS_S (dw_nowUs dw)) (gw_recoveredAt gw);
          gw1 = gw\<lparr>gw_recoveredAt := claims\<rparr>
      in if lost then gw1\<lparr>gw_sched := trigger b (gw_sched gw1)\<rparr> else gw1)"

subsection \<open>The routes\<close>

text \<open>
  \<open>admit\<close> of a new build: the cap on new anonymous owners, then the owner's own limit. It runs inside the creating transaction,
  after the replay check, so its hits count exactly when the build was not replayed.
\<close>

definition admit_build :: "RouteConfig \<Rightarrow> Owner \<Rightarrow> int \<Rightarrow> bool \<Rightarrow> Gateway \<Rightarrow> HttpError option \<times> Gateway" where
  "admit_build cfg owner now isNewOwner gw =
     (let (cap, anon) = (if isNewOwner then take_hit (rc_anonOwners cfg) ANON_OWNERS_KEY now (gw_anonOwners gw) else (Some 0, gw_anonOwners gw));
          gw1 = gw\<lparr>gw_anonOwners := anon\<rparr>
      in if limited cap then (Some (rateLimited (the cap)), gw1)
         else (let (retry, own) = take_hit (rc_builds cfg) (ownerKey owner) now (gw_builds gw1);
                   gw2 = gw1\<lparr>gw_builds := own\<rparr>
               in if limited retry then (Some (rateLimited (the retry)), gw2) else (None, gw2)))"

definition is_new_owner :: "Owner \<Rightarrow> ChatDb \<Rightarrow> bool" where
  "is_new_owner owner db \<longleftrightarrow> ow_tenantId owner = None \<and>
     \<not> list_ex (\<lambda>b. ow_anonHash owner \<noteq> None \<and> bd_anonOwnerHash b = ow_anonHash owner) (cdb_builds db)"

text \<open>The owner of a new build: the session's tenant, else the anonymous cookie, the one sent or a new one.\<close>

definition request_owner :: "RouteConfig \<Rightarrow> CookieHeader \<Rightarrow> Draws \<Rightarrow> Owner \<times> string option" where
  "request_owner cfg header dw =
     (case (case ownerOf cfg header of None \<Rightarrow> None | Some o' \<Rightarrow> ow_tenantId o') of
        Some tenant \<Rightarrow> (\<lparr>ow_tenantId = Some tenant, ow_anonHash = None\<rparr>, None)
      | None \<Rightarrow>
          (let token = (case anonTokenFromCookieHeader header of Some t \<Rightarrow> t | None \<Rightarrow> dw_token dw)
           in (\<lparr>ow_tenantId = None, ow_anonHash = Some (rc_sha256 cfg token)\<rparr>, Some token)))"

definition postBuild :: "RouteConfig \<Rightarrow> CookieHeader \<Rightarrow> jvalue \<Rightarrow> Draws \<Rightarrow> Gateway \<Rightarrow> (HttpError + BuildDetail Reply) \<times> Gateway" where
  "postBuild cfg header body dw gw =
     (case CreateBuildRequest body of
        None \<Rightarrow> (Inl bad_request, gw)
      | Some req \<Rightarrow>
          (let tenant = (case ownerOf cfg header of None \<Rightarrow> None | Some o' \<Rightarrow> ow_tenantId o') in
           if cr_expected_tenant_id req \<noteq> None \<and> cr_expected_tenant_id req \<noteq> Some tenant
           then (Inl (http_error 409 ''WORKSPACE_CHANGED''), gw)
           else
             (let existing = anonTokenFromCookieHeader header;
                  (owner, token) = request_owner cfg header dw;
                  (refusal, charged) = admit_build cfg owner (dw_nowMs dw) (is_new_owner owner (gw_db gw)) gw;
                  (result, db) = createBuild owner (cr_ask_text req) (cr_client_message_id req)
                     (\<lambda>isNew. map_option (\<lambda>_. Thrown ''RATE_LIMITED'') (fst (admit_build cfg owner (dw_nowMs dw) isNew gw)))
                     (dw_buildId dw) (dw_messageId dw) (dw_nowUs dw) (gw_db gw)
              in case result of
                   Inl _ \<Rightarrow> (Inl (the refusal), charged\<lparr>gw_db := db\<rparr>)
                 | Inr (BuildReplayed b) \<Rightarrow> (Inr (reply 200 (detail cfg db b)), gw\<lparr>gw_db := db\<rparr>)
                 | Inr (BuildCreated b m) \<Rightarrow>
                     (Inr \<lparr>re_status = 201, re_body = detail cfg db b,
                           re_setCookie = (if existing = None then map_option anonOwnerSetCookie token else None)\<rparr>,
                      charged\<lparr>gw_db := db, gw_sched := trigger (bd_id b) (gw_sched charged)\<rparr>))))"

definition getBuilds :: "RouteConfig \<Rightarrow> CookieHeader \<Rightarrow> string option \<Rightarrow> Gateway \<Rightarrow> HttpError + BuildSummary list" where
  "getBuilds cfg header wanted gw =
     (if wanted \<notin> {None, Some ''designing'', Some ''parts_picked'', Some ''kit_shipped'', Some ''live''} then Inl bad_request
      else case ownerOf cfg header of
             None \<Rightarrow> Inl (http_error 401 ''UNAUTHENTICATED'')
           | Some owner \<Rightarrow>
               (case ow_tenantId owner of
                  None \<Rightarrow> Inl (http_error 401 ''UNAUTHENTICATED'')
                | Some t \<Rightarrow> Inr (filter (\<lambda>r. wanted = None \<or> wanted = Some (de_display_status r))
                    (map (summary cfg) (listBuilds (gw_db gw) t)))))"

definition getBuild :: "RouteConfig \<Rightarrow> CookieHeader \<Rightarrow> string \<Rightarrow> Draws \<Rightarrow> Gateway \<Rightarrow> (HttpError + BuildDetail) \<times> Gateway" where
  "getBuild cfg header i dw gw =
     (case ownedBuild cfg header i gw of
        Inl e \<Rightarrow> (Inl e, gw)
      | Inr (b, _) \<Rightarrow> (let gw1 = recoverLostTurn (bd_id b) dw gw in (Inr (detail cfg (gw_db gw1) b), gw1)))"

definition getMessages :: "RouteConfig \<Rightarrow> CookieHeader \<Rightarrow> string \<Rightarrow> Draws \<Rightarrow> Gateway \<Rightarrow> (HttpError + ChatMessage list) \<times> Gateway" where
  "getMessages cfg header i dw gw =
     (case ownedBuild cfg header i gw of
        Inl e \<Rightarrow> (Inl e, gw)
      | Inr (b, owner) \<Rightarrow>
          (let gw1 = recoverLostTurn (bd_id b) dw gw in (Inr (map toChatMessage (listMessages (gw_db gw1) (bd_id b) owner)), gw1)))"

definition admit_message :: "RouteConfig \<Rightarrow> Owner \<Rightarrow> int \<Rightarrow> Gateway \<Rightarrow> HttpError option \<times> Gateway" where
  "admit_message cfg owner now gw =
     (let (retry, own) = take_hit (rc_messages cfg) (ownerKey owner) now (gw_messages gw);
          gw1 = gw\<lparr>gw_messages := own\<rparr>
      in if limited retry then (Some (rateLimited (the retry)), gw1) else (None, gw1))"

definition postMessage :: "RouteConfig \<Rightarrow> CookieHeader \<Rightarrow> string \<Rightarrow> jvalue \<Rightarrow> Draws \<Rightarrow> Gateway \<Rightarrow> (HttpError + ChatMessage Reply) \<times> Gateway" where
  "postMessage cfg header i body dw gw =
     (case ownedBuild cfg header i gw of
        Inl e \<Rightarrow> (Inl e, gw)
      | Inr (b, owner) \<Rightarrow>
          (case PostMessageBody body of
             None \<Rightarrow> (Inl bad_request, gw)
           | Some (text, client) \<Rightarrow>
               (let (refusal, charged) = admit_message cfg owner (dw_nowMs dw) gw;
                    (result, db) = submitUserMessage (bd_id b) owner text client TURN_IN_PROGRESS_S
                      (map_option (\<lambda>_. Thrown ''RATE_LIMITED'') refusal) (dw_messageId dw) (dw_nowUs dw) (gw_db gw)
                in case result of
                     Inl _ \<Rightarrow> (Inl (the refusal), charged\<lparr>gw_db := db\<rparr>)
                   | Inr MessageNotFound \<Rightarrow> (Inl notFound, gw\<lparr>gw_db := db\<rparr>)
                   | Inr (MessageReplayed m) \<Rightarrow> (Inr (reply 200 (toChatMessage m)), gw\<lparr>gw_db := db\<rparr>)
                   | Inr (MessagePending p) \<Rightarrow>
                       (Inl \<lparr>he_status = 409, he_code = ''TURN_IN_PROGRESS'',
                             he_details = [(''pending_message_id'', JStr p), (''retry_after_s'', JNum (Fin (of_nat TURN_IN_PROGRESS_S)))],
                             he_headers = []\<rparr>, gw\<lparr>gw_db := db\<rparr>)
                   | Inr (MessageCreated m) \<Rightarrow>
                       (Inr (reply 202 (toChatMessage m)), charged\<lparr>gw_db := db, gw_sched := trigger (bd_id b) (gw_sched charged)\<rparr>))))"

text \<open>The events route up to the start of its stream; the lease is the stream's.\<close>

definition getEvents :: "RouteConfig \<Rightarrow> CookieHeader \<Rightarrow> string \<Rightarrow> StreamEnv \<Rightarrow> string option \<Rightarrow> Gateway \<Rightarrow>
    (HttpError + nat \<times> BuildStream) \<times> Gateway" where
  "getEvents cfg header i env lastEventId gw =
     (case ownedBuild cfg header i gw of
        Inl e \<Rightarrow> (Inl e, gw)
      | Inr (b, owner) \<Rightarrow>
          (case reserve (rc_streams cfg) (ownerKey owner) (gw_streams gw) of
             (None, r) \<Rightarrow>
               (Inl \<lparr>he_status = 429, he_code = ''RATE_LIMITED'', he_details = [(''retry_after_s'', JNum (Fin (of_nat STREAM_RETRY_S)))],
                     he_headers = [(''retry-after'', nat_str STREAM_RETRY_S)]\<rparr>, gw\<lparr>gw_streams := r\<rparr>)
           | (Some lease, r) \<Rightarrow> (Inr (lease, streamBuildEvents env lastEventId), gw\<lparr>gw_streams := onClose lease r\<rparr>)))"


subsection \<open>The parts the gateway and the catalogue show\<close>

lemma keep_latest_highest:
  "fold (keep_latest statuses) rows m = fold keep_highest (filter (\<lambda>p. status p \<in> set statuses) rows) m"
proof (induction rows arbitrary: m)
  case (Cons p rows)
  have "keep_latest statuses p m = (if status p \<in> set statuses then keep_highest p m else m)"
    by (simp add: keep_latest_def keep_highest_def)
  with Cons.IH show ?case by simp
qed simp

text \<open>
  The parts query of the gateway picks the same versions as the parts catalogue shown to the model: for any set of statuses, the
  highest version of each part among them, in id order, and an id or category only narrows that list.
\<close>

theorem parts_latest_chosen:
  "parts_latest statuses cat None rows =
    filter (\<lambda>p. case cat of None \<Rightarrow> True | Some c \<Rightarrow> category p = c) (chosen_parts statuses rows)"
proof -
  have "byString = compare_lt" by (simp add: fun_eq_iff byString_def compare_lt_def)
  then have "latestPerId (filter (\<lambda>p. status p \<in> set statuses) rows) = chosen_parts statuses rows"
    by (simp add: latestPerId_def chosen_parts_def keep_latest_highest)
  moreover have "chosen_parts [] rows = []"
  proof -
    have "fold (keep_latest []) rows m = m" for m by (induction rows arbitrary: m) (simp_all add: keep_latest_def)
    then show ?thesis by (simp add: chosen_parts_def)
  qed
  ultimately show ?thesis by (auto simp: parts_latest_def)
qed

subsection \<open>How often a lost turn is recovered\<close>

text \<open>Reads of builds: the build, the instance's clock, whether a turn runs, and its newest message.\<close>

record ReadCall =
  rr_build :: string
  rr_now :: int
  rr_running :: bool
  rr_newest :: "(MessageRow \<times> bool) option"

fun recovery_run :: "ReadCall list \<Rightarrow> (string \<times> int) list \<Rightarrow> bool list" where
  "recovery_run [] claims = []"
| "recovery_run (c # calls) claims =
     (let (fired, claims') = recovery (rr_running c) (rr_build c) (rr_now c) (rr_newest c) claims
      in fired # recovery_run calls claims')"

definition claims_hold :: "(string \<times> int) set \<Rightarrow> int \<Rightarrow> (string \<times> int) list \<Rightarrow> bool" where
  "claims_hold fired now claims \<longleftrightarrow> distinct (map fst claims) \<and>
     (\<forall>(b, t) \<in> fired. now - t \<ge> RECOVERY_INTERVAL_MS \<or> (\<exists>t' \<ge> t. map_of claims b = Some t'))"

lemma recovery_fired:
  "fst (recovery running b now newest claims) \<Longrightarrow>
     \<not> running \<and> (\<exists>m. newest = Some (m, False) \<and> bm_role m = ChatUser) \<and>
     (case map_of claims b of None \<Rightarrow> True | Some t \<Rightarrow> now - t \<ge> RECOVERY_INTERVAL_MS)"
  by (auto simp: recovery_def Let_def split: if_splits option.splits)

lemma recovery_claims:
  assumes "claims_hold F before claims" "before \<le> now" "\<And>b' t. (b', t) \<in> F \<Longrightarrow> t \<le> before"
  shows "claims_hold (if fst (recovery running b now newest claims) then insert (b, now) F else F) now
           (snd (recovery running b now newest claims))"
    "fst (recovery running b now newest claims) \<Longrightarrow> (b, t) \<in> F \<Longrightarrow> now - t \<ge> RECOVERY_INTERVAL_MS"
proof -
  have hold: "now - t \<ge> RECOVERY_INTERVAL_MS \<or> (\<exists>t' \<ge> t. map_of claims b' = Some t')" if "(b', t) \<in> F" for b' t
    using assms(1,2) that by (fastforce simp: claims_hold_def)
  have d: "distinct (map fst claims)" using assms(1) by (simp add: claims_hold_def)
  show "now - t \<ge> RECOVERY_INTERVAL_MS" if "fst (recovery running b now newest claims)" "(b, t) \<in> F" for t
    using recovery_fired [OF that(1)] hold [OF that(2)] by auto
  note due = this
  let ?c = "snd (recovery running b now newest claims)" and ?pass = "\<not> (running \<or> (\<exists>t. map_of claims b = Some t \<and> now - t < RECOVERY_INTERVAL_MS))"
  have quiet: "recovery running b now newest claims = (False, claims)" if "\<not> ?pass"
    using that by (auto simp: recovery_def)
  show "claims_hold (if fst (recovery running b now newest claims) then insert (b, now) F else F) now ?c"
  proof (cases ?pass)
    case False
    with quiet [OF False] hold d show ?thesis by (auto simp: claims_hold_def)
  next
    case True
    define c2 where "c2 = (if length (map_set b now claims) > 10000
        then filter (\<lambda>e. \<not> now - snd e \<ge> RECOVERY_INTERVAL_MS) (map_set b now claims) else map_set b now claims)"
    have shape: "?c = (if fst (recovery running b now newest claims) then c2 else filter (\<lambda>e. fst e \<noteq> b) c2)"
      using True by (auto simp: recovery_def Let_def c2_def split: option.splits)
    have dc: "distinct (map fst c2)" using d by (auto simp: c2_def distinct_keys_map_set distinct_map_filter)
    have other: "now - t \<ge> RECOVERY_INTERVAL_MS \<or> (\<exists>t' \<ge> t. map_of c2 b' = Some t')" if "(b', t) \<in> F" "b' \<noteq> b" for b' t
      using hold [OF that(1)] that(2) d
      by (auto simp: c2_def map_of_filter_distinct distinct_keys_map_set split: if_splits)
    have own: "now - t \<ge> RECOVERY_INTERVAL_MS" if "(b, t) \<in> F" for t
      using True hold [OF that] by auto
    have self: "map_of c2 b = Some now"
      using d by (auto simp: c2_def map_of_filter_distinct distinct_keys_map_set RECOVERY_INTERVAL_MS_def)
    show ?thesis unfolding shape
      using other own self dc by (fastforce simp: claims_hold_def map_of_filter_distinct distinct_map_filter)
  qed
qed

lemma length_recovery_run [simp]: "length (recovery_run calls claims) = length calls"
  by (induction calls claims rule: recovery_run.induct) (auto simp: Let_def split: prod.splits)

lemma recovery_run_past:
  assumes "claims_hold F before claims" "sorted (before # map rr_now calls)" "\<And>b t. (b, t) \<in> F \<Longrightarrow> t \<le> before"
    and "j < length calls" "recovery_run calls claims ! j"
  shows "\<not> rr_running (calls ! j) \<and> (\<exists>m. rr_newest (calls ! j) = Some (m, False) \<and> bm_role m = ChatUser) \<and>
    (\<forall>t. (rr_build (calls ! j), t) \<in> F \<longrightarrow> rr_now (calls ! j) - t \<ge> RECOVERY_INTERVAL_MS)"
  using assms
proof (induction calls arbitrary: F before claims j)
  case (Cons c calls)
  let ?r = "recovery (rr_running c) (rr_build c) (rr_now c) (rr_newest c) claims"
  let ?F = "if fst ?r then insert (rr_build c, rr_now c) F else F"
  have le: "before \<le> rr_now c" "sorted (rr_now c # map rr_now calls)" using Cons.prems(2) by simp_all
  note step = recovery_claims [OF Cons.prems(1) le(1) Cons.prems(3), where running = "rr_running c" and b = "rr_build c" and newest = "rr_newest c"]
  have F: "t \<le> rr_now c" if "(b, t) \<in> ?F" for b t
  proof (cases "(b, t) \<in> F")
    case True
    from Cons.prems(3) [OF True] le(1) show ?thesis by linarith
  next
    case False
    with that show ?thesis by (simp split: if_splits)
  qed
  show ?case
  proof (cases j)
    case 0
    with Cons.prems(5) have "fst ?r" by (simp add: Let_def case_prod_beta)
    with recovery_fired [OF this] step(2) 0 show ?thesis by auto
  next
    case (Suc j')
    with Cons.prems(4,5) have "recovery_run calls (snd ?r) ! j'" "j' < length calls" by (simp_all add: Let_def case_prod_beta)
    from Cons.IH [OF step(1) le(2) F this(2,1)] Suc show ?thesis by auto
  qed
qed simp

lemma recovery_run_spacing:
  assumes "claims_hold F before claims" "sorted (before # map rr_now calls)" "\<And>b t. (b, t) \<in> F \<Longrightarrow> t \<le> before"
    and "i < j" "j < length calls" "recovery_run calls claims ! i" "recovery_run calls claims ! j"
    and "rr_build (calls ! i) = rr_build (calls ! j)"
  shows "rr_now (calls ! j) - rr_now (calls ! i) \<ge> RECOVERY_INTERVAL_MS"
  using assms
proof (induction calls arbitrary: F before claims i j)
  case (Cons c calls)
  let ?r = "recovery (rr_running c) (rr_build c) (rr_now c) (rr_newest c) claims"
  let ?F = "if fst ?r then insert (rr_build c, rr_now c) F else F"
  have le: "before \<le> rr_now c" "sorted (rr_now c # map rr_now calls)" using Cons.prems(2) by simp_all
  note step = recovery_claims [OF Cons.prems(1) le(1) Cons.prems(3), where running = "rr_running c" and b = "rr_build c" and newest = "rr_newest c"]
  have F: "t \<le> rr_now c" if "(b, t) \<in> ?F" for b t
  proof (cases "(b, t) \<in> F")
    case True
    from Cons.prems(3) [OF True] le(1) show ?thesis by linarith
  next
    case False
    with that show ?thesis by (simp split: if_splits)
  qed
  from Cons.prems(4) obtain j' where j: "j = Suc j'" by (cases j) auto
  with Cons.prems have fire: "j' < length calls" "recovery_run calls (snd ?r) ! j'" by (simp_all add: Let_def case_prod_beta)
  show ?case
  proof (cases i)
    case 0
    with Cons.prems(6,8) j have "(rr_build (calls ! j'), rr_now c) \<in> ?F" by (simp add: Let_def case_prod_beta)
    with recovery_run_past [OF step(1) le(2) F fire] j 0 show ?thesis by auto
  next
    case (Suc i')
    with Cons.prems j have "i' < j'" "recovery_run calls (snd ?r) ! i'" "rr_build (calls ! i') = rr_build (calls ! j')"
      by (simp_all add: Let_def case_prod_beta)
    from Cons.IH [OF step(1) le(2) F this(1) fire(1) this(2) fire(2) this(3)] j Suc show ?thesis by simp
  qed
qed simp

text \<open>
  However often a build is read, two turns recovered for it on one instance are at least a minute apart, and a turn is recovered
  only for a user message that is the newest, older than a minute, and has no turn running.
\<close>

theorem recovery_interval:
  assumes "sorted (map rr_now calls)" "j < length calls" "recovery_run calls [] ! j"
  shows "\<not> rr_running (calls ! j) \<and> (\<exists>m. rr_newest (calls ! j) = Some (m, False) \<and> bm_role m = ChatUser) \<and>
    (\<forall>i < j. recovery_run calls [] ! i \<and> rr_build (calls ! i) = rr_build (calls ! j) \<longrightarrow>
       rr_now (calls ! j) - rr_now (calls ! i) \<ge> RECOVERY_INTERVAL_MS)"
proof -
  define start where "start = (case calls of [] \<Rightarrow> 0 | c # _ \<Rightarrow> rr_now c)"
  have s: "sorted (start # map rr_now calls)" using assms(1) by (cases calls) (force simp: start_def)+
  have c: "claims_hold {} start []" by (simp add: claims_hold_def)
  have F: "\<And>b t. (b, t) \<in> {} \<Longrightarrow> t \<le> start" by simp
  show ?thesis
    using recovery_run_spacing [OF c s F _ assms(2) _ assms(3)] recovery_run_past [OF c s F assms(2,3)] by blast
qed

theorem recovery_interval_witness:
  "recovery_run
     [\<lparr>rr_build = ''b'', rr_now = 0, rr_running = False, rr_newest = Some (desk_message, False)\<rparr>,
      \<lparr>rr_build = ''b'', rr_now = 30000, rr_running = False, rr_newest = Some (desk_message, False)\<rparr>,
      \<lparr>rr_build = ''b'', rr_now = 60000, rr_running = False, rr_newest = Some (desk_message, False)\<rparr>] [] = [True, False, True] \<and>
   (60000 :: int) - 0 \<ge> RECOVERY_INTERVAL_MS"
proof -
  let ?calls = "[\<lparr>rr_build = ''b'', rr_now = 0, rr_running = False, rr_newest = Some (desk_message, False)\<rparr>,
      \<lparr>rr_build = ''b'', rr_now = 30000, rr_running = False, rr_newest = Some (desk_message, False)\<rparr>,
      \<lparr>rr_build = ''b'', rr_now = 60000, rr_running = False, rr_newest = Some (desk_message, False)\<rparr>]"
  have r: "recovery_run ?calls [] = [True, False, True]"
    by (simp add: recovery_def RECOVERY_INTERVAL_MS_def desk_message_def Let_def)
  with recovery_interval [of ?calls 2] have "\<forall>i < 2. [True, False, True] ! i \<and> rr_build (?calls ! i) = ''b'' \<longrightarrow>
      60000 - rr_now (?calls ! i) \<ge> RECOVERY_INTERVAL_MS" by simp
  from this [rule_format, of 0] r show ?thesis by simp
qed

subsection \<open>What the writing routes change\<close>

lemma admit_build_leaves:
  "gw_db (snd (admit_build cfg owner now n gw)) = gw_db gw" "gw_sched (snd (admit_build cfg owner now n gw)) = gw_sched gw"
  "gw_streams (snd (admit_build cfg owner now n gw)) = gw_streams gw"
  by (simp_all add: admit_build_def Let_def case_prod_beta)

lemma admit_build_refusal: "fst (admit_build cfg owner now n gw) = Some e \<Longrightarrow> he_status e = 429"
  by (auto simp: admit_build_def Let_def case_prod_beta rateLimited_def split: if_splits)

lemma createBuild_refused:
  "createBuild owner ask c admit nb nm now db = (Inl e, db') \<Longrightarrow> db' = db \<and> admit (is_new_owner owner db) = Some e"
  by (auto simp: createBuild_def is_new_owner_def Let_def split: option.splits)

lemma createBuild_replayed:
  "createBuild owner ask c admit nb nm now db = (Inr (BuildReplayed b), db') \<Longrightarrow>
     db' = db \<and> b \<in> set (cdb_builds db) \<and> ownedBy owner b"
proof -
  assume a: "createBuild owner ask c admit nb nm now db = (Inr (BuildReplayed b), db')"
  have "\<exists>x. findBuildByFirstMessage db owner x = Some b \<and> db' = db"
  proof (cases c)
    case None
    with a show ?thesis by (simp add: createBuild_def Let_def split: option.splits)
  next
    case (Some x)
    with a have "findBuildByFirstMessage db owner x = Some b \<and> db' = db"
      by (cases "findBuildByFirstMessage db owner x") (simp_all add: createBuild_def Let_def split: option.splits)
    then show ?thesis by blast
  qed
  then obtain x where x: "findBuildByFirstMessage db owner x = Some b" and db: "db' = db" by blast
  have "b \<in> set xs" if "(case js_sort f xs of [] \<Rightarrow> None | y # _ \<Rightarrow> Some y) = Some b" for f xs
  proof -
    have "b \<in> set (js_sort f xs)" using that by (cases "js_sort f xs") simp_all
    then show ?thesis by simp
  qed
  from this [OF x [unfolded findBuildByFirstMessage_def]] db show ?thesis by simp
qed

definition created_build :: "RouteConfig \<Rightarrow> CookieHeader \<Rightarrow> Draws \<Rightarrow> Gateway \<Rightarrow> BuildDetail Reply \<Rightarrow> Gateway \<Rightarrow> bool" where
  "created_build cfg header dw gw rep gw' \<longleftrightarrow>
     (\<exists>b m. gw_db gw' = (gw_db gw)\<lparr>cdb_builds := cdb_builds (gw_db gw) @ [b], cdb_messages := cdb_messages (gw_db gw) @ [m]\<rparr> \<and>
        bd_id b = dw_buildId dw \<and> ownedBy (fst (request_owner cfg header dw)) b \<and> bm_buildId m = bd_id b \<and>
        bm_role m = ChatUser \<and> bm_text m = bd_askText b \<and> de_id (re_body rep) = bd_id b) \<and>
     isRunning (dw_buildId dw) (gw_sched gw') \<and> gw_streams gw' = gw_streams gw \<and> gw_recoveredAt gw' = gw_recoveredAt gw \<and>
     re_setCookie rep = (if anonTokenFromCookieHeader header = None then map_option anonOwnerSetCookie (snd (request_owner cfg header dw)) else None)"

lemma request_owner_named: "ow_tenantId (fst (request_owner cfg header dw)) \<noteq> None \<or> ow_anonHash (fst (request_owner cfg header dw)) \<noteq> None"
  by (simp add: request_owner_def Let_def split: option.splits)

lemma detail_id [simp]: "de_id (detail cfg db b) = bd_id b"
  by (simp add: detail_def Let_def summary_def BuildSummary.defs)

lemma trigger_running: "isRunning b (trigger b s)"
  by (cases "sc_running s b") (simp_all add: isRunning_def trigger_def)

abbreviation caller_tenant :: "RouteConfig \<Rightarrow> CookieHeader \<Rightarrow> string option" where
  "caller_tenant cfg header \<equiv> (case ownerOf cfg header of None \<Rightarrow> None | Some o' \<Rightarrow> ow_tenantId o')"

lemma postBuild_admitted:
  assumes "CreateBuildRequest body = Some req" "cr_expected_tenant_id req = None \<or> cr_expected_tenant_id req = Some (caller_tenant cfg header)"
    and "request_owner cfg header dw = (owner, token)"
    and "admit_build cfg owner (dw_nowMs dw) (is_new_owner owner (gw_db gw)) gw = (refusal, charged)"
    and "createBuild owner (cr_ask_text req) (cr_client_message_id req)
        (\<lambda>n. map_option (\<lambda>_. Thrown ''RATE_LIMITED'') (fst (admit_build cfg owner (dw_nowMs dw) n gw)))
        (dw_buildId dw) (dw_messageId dw) (dw_nowUs dw) (gw_db gw) = (result, db)"
  shows "postBuild cfg header body dw gw =
      (case result of
         Inl _ \<Rightarrow> (Inl (the refusal), charged\<lparr>gw_db := db\<rparr>)
       | Inr (BuildReplayed b) \<Rightarrow> (Inr (reply 200 (detail cfg db b)), gw\<lparr>gw_db := db\<rparr>)
       | Inr (BuildCreated b m) \<Rightarrow>
           (Inr \<lparr>re_status = 201, re_body = detail cfg db b,
                 re_setCookie = (if anonTokenFromCookieHeader header = None then map_option anonOwnerSetCookie token else None)\<rparr>,
            charged\<lparr>gw_db := db, gw_sched := trigger (bd_id b) (gw_sched charged)\<rparr>))"
  using assms by (auto simp: postBuild_def Let_def)

text \<open>
  Creating a build: a malformed request or a changed workspace changes nothing at all; a refusal by a limit leaves the
  tables and the scheduler as they were; a replay answers with the owner's existing build and counts no hit, starts no turn and sets no
  cookie; a creation stores one build for the caller with its first message, starts its turn, and hands out a new anonymous cookie exactly
  when the caller has neither a tenant nor one already.
\<close>

theorem postBuild_effects:
  "case postBuild cfg header body dw gw of
     (Inl e, gw') \<Rightarrow> gw_db gw' = gw_db gw \<and> gw_sched gw' = gw_sched gw \<and> gw_streams gw' = gw_streams gw \<and>
       (he_status e = 429 \<or> he_status e \<in> {400, 409} \<and> gw' = gw)
   | (Inr rep, gw') \<Rightarrow>
       re_status rep = 200 \<and> gw' = gw \<and> re_setCookie rep = None \<and>
         (\<exists>b \<in> set (cdb_builds (gw_db gw)). ownedBy (fst (request_owner cfg header dw)) b \<and> bd_id b = de_id (re_body rep)) \<or>
       re_status rep = 201 \<and> created_build cfg header dw gw rep gw'"
proof (cases "CreateBuildRequest body")
  case None
  then show ?thesis by (simp add: postBuild_def bad_request_def http_error_def)
next
  case (Some req)
  let ?tenant = "case ownerOf cfg header of None \<Rightarrow> None | Some o' \<Rightarrow> ow_tenantId o'"
  show ?thesis
  proof (cases "cr_expected_tenant_id req \<noteq> None \<and> cr_expected_tenant_id req \<noteq> Some ?tenant")
    case True
    then show ?thesis by (simp add: postBuild_def Some http_error_def)
  next
    case False
    obtain owner token where ro: "request_owner cfg header dw = (owner, token)" by (cases "request_owner cfg header dw")
    let ?admit = "\<lambda>n. admit_build cfg owner (dw_nowMs dw) n gw" and ?n = "is_new_owner owner (gw_db gw)"
    let ?create = "createBuild owner (cr_ask_text req) (cr_client_message_id req) (\<lambda>n. map_option (\<lambda>_. Thrown ''RATE_LIMITED'') (fst (?admit n)))
        (dw_buildId dw) (dw_messageId dw) (dw_nowUs dw) (gw_db gw)"
    obtain refusal charged where adm: "?admit ?n = (refusal, charged)" by (cases "?admit ?n")
    obtain result db where res: "?create = (result, db)" by (cases ?create)
    note leaves = admit_build_leaves [of cfg owner "dw_nowMs dw" ?n gw, unfolded adm snd_conv]
    have more: "gw_recoveredAt charged = gw_recoveredAt gw"
      using adm by (auto simp: admit_build_def Let_def case_prod_beta split: if_splits)
    have "cr_expected_tenant_id req = None \<or> cr_expected_tenant_id req = Some ?tenant" using False by blast
    note eq = postBuild_admitted [OF Some this ro adm res]
    show ?thesis
    proof (cases result)
      case (Inl e)
      from createBuild_refused [OF res [unfolded Inl]] adm obtain r where "db = gw_db gw" "refusal = Some r" by auto
      with leaves admit_build_refusal [of cfg owner "dw_nowMs dw" ?n gw r] adm show ?thesis by (simp add: eq Inl)
    next
      case (Inr r)
      show ?thesis
      proof (cases r)
        case (BuildReplayed b)
        from createBuild_replayed [OF res [unfolded Inr BuildReplayed]] show ?thesis
          by (auto simp: eq Inr BuildReplayed reply_def ro)
      next
        case (BuildCreated b m)
        note new = createBuild_created [OF res [unfolded Inr BuildCreated]]
        have "ownedBy owner b" using request_owner_named [of cfg header dw] by (auto simp: new(4) ownedBy_def ro)
        moreover have "db = (gw_db gw)\<lparr>cdb_builds := cdb_builds (gw_db gw) @ [b], cdb_messages := cdb_messages (gw_db gw) @ [m]\<rparr>"
          using new(1-3) by simp
        moreover have "bd_id b = dw_buildId dw" "bm_buildId m = bd_id b" "bm_role m = ChatUser" "bm_text m = bd_askText b"
          by (simp_all add: new(4,5))
        ultimately have "created_build cfg header dw gw
            \<lparr>re_status = 201, re_body = detail cfg db b,
              re_setCookie = (if anonTokenFromCookieHeader header = None then map_option anonOwnerSetCookie token else None)\<rparr>
            (charged\<lparr>gw_db := db, gw_sched := trigger (bd_id b) (gw_sched charged)\<rparr>)"
          unfolding created_build_def ro using leaves more trigger_running [of "bd_id b" "gw_sched charged"]
          by (intro conjI exI [of _ b] exI [of _ m]) simp_all
        then show ?thesis by (simp add: eq Inr BuildCreated)
      qed
    qed
  qed
qed

lemma request_owner_tenant: "ow_tenantId (fst (request_owner cfg header dw)) = caller_tenant cfg header"
  by (simp add: request_owner_def Let_def split: option.splits)

text \<open>
  C19. Retrying a creation is safe through the whole route: once a request with a client id created a build, the same request from
  the same owner (a session of the tenant, or the cookie that was handed out) is answered 200 with that build and leaves the whole gateway,
  limiters and scheduler included, as it was.
\<close>

theorem postBuild_retry:
  assumes "postBuild cfg header body dw gw = (Inr rep, gw')" "re_status rep = 201"
    and "CreateBuildRequest body = Some req" "cr_client_message_id req = Some c"
    and "dw_buildId dw \<notin> bd_id ` set (cdb_builds (gw_db gw))"
    and "fst (request_owner cfg header' dw') = fst (request_owner cfg header dw)"
  shows "\<exists>rep'. postBuild cfg header' body dw' gw' = (Inr rep', gw') \<and> re_status rep' = 200 \<and>
    de_id (re_body rep') = de_id (re_body rep) \<and> re_setCookie rep' = None"
proof -
  obtain owner token where ro: "request_owner cfg header dw = (owner, token)" by (cases "request_owner cfg header dw")
  obtain token' where ro': "request_owner cfg header' dw' = (owner, token')"
    using assms(6) ro by (cases "request_owner cfg header' dw'") simp
  have tenant: "caller_tenant cfg header' = caller_tenant cfg header"
    using request_owner_tenant [of cfg header' dw'] request_owner_tenant [of cfg header dw] by (simp add: assms(6))
  have ok: "cr_expected_tenant_id req = None \<or> cr_expected_tenant_id req = Some (caller_tenant cfg header)"
    using assms(1,3) by (auto simp: postBuild_def Let_def split: if_splits)
  obtain refusal charged where adm: "admit_build cfg owner (dw_nowMs dw) (is_new_owner owner (gw_db gw)) gw = (refusal, charged)"
    by (cases "admit_build cfg owner (dw_nowMs dw) (is_new_owner owner (gw_db gw)) gw")
  obtain result db where res: "createBuild owner (cr_ask_text req) (cr_client_message_id req)
        (\<lambda>n. map_option (\<lambda>_. Thrown ''RATE_LIMITED'') (fst (admit_build cfg owner (dw_nowMs dw) n gw)))
        (dw_buildId dw) (dw_messageId dw) (dw_nowUs dw) (gw_db gw) = (result, db)" by fastforce
  note eq = postBuild_admitted [OF assms(3) ok ro adm res]
  from assms(1,2) eq obtain b m where created: "result = Inr (BuildCreated b m)"
      and after: "gw' = charged\<lparr>gw_db := db, gw_sched := trigger (bd_id b) (gw_sched charged)\<rparr>" "de_id (re_body rep) = bd_id b"
    by (auto simp: reply_def split: sum.splits CreateBuildResult.splits)
  have "ow_tenantId owner \<noteq> None \<or> ow_anonHash owner \<noteq> None" using request_owner_named [of cfg header dw] by (simp add: ro)
  from createBuild_replay [OF assms(5) this res [unfolded created assms(4)]]
  have found: "findBuildByFirstMessage (gw_db gw') owner c = Some b" by (simp add: after)
  have ok': "cr_expected_tenant_id req = None \<or> cr_expected_tenant_id req = Some (caller_tenant cfg header')" using ok by (simp add: tenant)
  obtain refusal' charged' where adm': "admit_build cfg owner (dw_nowMs dw') (is_new_owner owner (gw_db gw')) gw' = (refusal', charged')"
    by (cases "admit_build cfg owner (dw_nowMs dw') (is_new_owner owner (gw_db gw')) gw'")
  have res': "createBuild owner (cr_ask_text req) (cr_client_message_id req)
        (\<lambda>n. map_option (\<lambda>_. Thrown ''RATE_LIMITED'') (fst (admit_build cfg owner (dw_nowMs dw') n gw')))
        (dw_buildId dw') (dw_messageId dw') (dw_nowUs dw') (gw_db gw') = (Inr (BuildReplayed b), gw_db gw')"
    by (simp add: createBuild_def assms(4) found)
  from postBuild_admitted [OF assms(3) ok' ro' adm' res'] show ?thesis by (simp add: reply_def after(2))
qed

lemma submit_db:
  assumes "submitUserMessage b owner text c within_s admit i now db = (r, db')"
  shows "(\<nexists>m. r = Inr (MessageCreated m)) \<Longrightarrow> db' = db" "r = Inl e \<Longrightarrow> admit = Some e"
    "r = Inr (MessageReplayed m) \<Longrightarrow> m \<in> set (cdb_messages db) \<and> bm_buildId m = b \<and> bm_clientMessageId m = Some c"
  using assms by (auto simp: submitUserMessage_def insert_user_message_def Let_def split: if_splits option.splits dest: find_Some_set)

lemma admit_message_leaves:
  assumes "admit_message cfg owner now gw = (refusal, charged)"
  shows "gw_db charged = gw_db gw" "gw_sched charged = gw_sched gw" "gw_streams charged = gw_streams gw"
    "refusal = Some e \<Longrightarrow> he_status e = 429"
  using assms by (auto simp: admit_message_def Let_def case_prod_beta rateLimited_def split: if_splits)

text \<open>
  C30. Posting a message: for a build the caller does not hold (404), a malformed body, a pending turn (409) or a replayed client
  id nothing in the gateway changes; a limit (429) leaves tables and scheduler; a stored message becomes the newest of that build and a turn
  for the build runs or is queued.
\<close>

theorem postMessage_effects:
  "case postMessage cfg header i body dw gw of
     (Inl e, gw') \<Rightarrow> gw_db gw' = gw_db gw \<and> gw_sched gw' = gw_sched gw \<and>
       (he_status e = 429 \<or> he_status e \<in> {400, 404, 409} \<and> gw' = gw)
   | (Inr rep, gw') \<Rightarrow>
       (\<exists>b owner. ownedBuild cfg header i gw = Inr (b, owner) \<and> ownedBy owner b \<and> bd_id b = i \<and>
          (re_status rep = 200 \<and> gw' = gw \<and> (\<exists>m \<in> set (cdb_messages (gw_db gw)). bm_buildId m = i \<and> re_body rep = toChatMessage m) \<or>
           re_status rep = 202 \<and> isRunning i (gw_sched gw') \<and>
             (\<exists>m. cdb_messages (gw_db gw') = cdb_messages (gw_db gw) @ [m] \<and> latest_message (gw_db gw') i = Some m \<and>
                bm_role m = ChatUser \<and> re_body rep = toChatMessage m)))"
proof (cases "ownedBuild cfg header i gw")
  case (Inl e)
  then have "he_status e \<in> {400, 404}"
    by (auto simp: ownedBuild_def bad_request_def notFound_def http_error_def split: if_splits option.splits)
  then show ?thesis by (auto simp: postMessage_def Inl)
next
  case (Inr p)
  obtain b owner where p: "p = (b, owner)" by (cases p)
  from Inr have own: "ownedBy owner b" "bd_id b = i"
    by (auto simp: p ownedBuild_def findOwnedBuild_def split: if_splits option.splits dest: find_Some_set)
  show ?thesis
  proof (cases "PostMessageBody body")
    case None
    then show ?thesis by (simp add: postMessage_def Inr p bad_request_def http_error_def)
  next
    case (Some tc)
    obtain content client where tc: "tc = (content, client)" by (cases tc)
    obtain refusal charged where adm: "admit_message cfg owner (dw_nowMs dw) gw = (refusal, charged)"
      by (cases "admit_message cfg owner (dw_nowMs dw) gw")
    obtain result db where res: "submitUserMessage i owner content client TURN_IN_PROGRESS_S (map_option (\<lambda>_. Thrown ''RATE_LIMITED'') refusal)
        (dw_messageId dw) (dw_nowUs dw) (gw_db gw) = (result, db)" by fastforce
    note a = admit_message_leaves [OF adm]
    note r = submit_db [OF res]
    have eq: "postMessage cfg header i body dw gw =
        (case result of
           Inl _ \<Rightarrow> (Inl (the refusal), charged\<lparr>gw_db := db\<rparr>)
         | Inr MessageNotFound \<Rightarrow> (Inl notFound, gw\<lparr>gw_db := db\<rparr>)
         | Inr (MessageReplayed m) \<Rightarrow> (Inr (reply 200 (toChatMessage m)), gw\<lparr>gw_db := db\<rparr>)
         | Inr (MessagePending q) \<Rightarrow>
             (Inl \<lparr>he_status = 409, he_code = ''TURN_IN_PROGRESS'',
                   he_details = [(''pending_message_id'', JStr q), (''retry_after_s'', JNum (Fin (of_nat TURN_IN_PROGRESS_S)))],
                   he_headers = []\<rparr>, gw\<lparr>gw_db := db\<rparr>)
         | Inr (MessageCreated m) \<Rightarrow>
             (Inr (reply 202 (toChatMessage m)), charged\<lparr>gw_db := db, gw_sched := trigger i (gw_sched charged)\<rparr>))"
      using res adm by (simp add: postMessage_def Inr p Some tc own(2)) (simp add: own(2) split: sum.splits SubmitMessageResult.splits)
    show ?thesis
    proof (cases result)
      case (Inl e)
      from r(2) [OF Inl] obtain x where "refusal = Some x" by auto
      with a r(1) Inl show ?thesis by (simp add: eq Inl)
    next
      case R: (Inr s)
      show ?thesis
      proof (cases s)
        case (MessageCreated m)
        note c = submit_created [OF res [unfolded R MessageCreated]]
        note ins = insert_user_message_latest [OF c(1)]
        show ?thesis
          using ins(1,3,5) trigger_running [of i "gw_sched charged"] own by (auto simp: eq R MessageCreated reply_def Inr p)
      next
        case (MessageReplayed m)
        with r(1,3) R own show ?thesis by (auto simp: eq reply_def Inr p)
      next
        case (MessagePending q)
        with r(1) R show ?thesis by (simp add: eq)
      next
        case MessageNotFound
        with r(1) R show ?thesis by (simp add: eq notFound_def http_error_def)
      qed
    qed
  qed
qed

text \<open>A gateway with an empty store, a fixed hash and a session-less caller.\<close>

definition desk_config :: RouteConfig where
  "desk_config = \<lparr>rc_builds = \<lparr>rl_limit = 10, rl_windowMs = 3600000\<rparr>, rc_messages = \<lparr>rl_limit = 30, rl_windowMs = 600000\<rparr>,
     rc_anonOwners = \<lparr>rl_limit = 60, rl_windowMs = 3600000\<rparr>, rc_includeDrafts = False, rc_streams = DEFAULT_STREAM_LIMITS,
     rc_sha256 = (\<lambda>_. ''h''), rc_tenantOf = None, rc_parts = [], rc_ellipsis = ''...''\<rparr>"

definition desk_gateway :: Gateway where
  "desk_gateway = \<lparr>gw_db = \<lparr>cdb_builds = [], cdb_messages = [], cdb_specs = []\<rparr>, gw_builds = new_limiter, gw_messages = new_limiter,
     gw_anonOwners = new_limiter, gw_recoveredAt = [], gw_sched = sched_init, gw_streams = new_registry\<rparr>"

definition desk_draws :: Draws where
  "desk_draws = \<lparr>dw_nowMs = 5, dw_nowUs = 5000, dw_token = ''t'', dw_buildId = ''n'', dw_messageId = ''m''\<rparr>"

definition desk_client :: string where
  "desk_client = ''00000000-0000-4000-8000-0000000000c1''"

definition desk_body :: jvalue where
  "desk_body = JObj [(''ask_text'', JStr ''Fan''), (''client_message_id'', JStr desk_client)]"

lemma desk_request: "CreateBuildRequest desk_body =
    Some \<lparr>cr_ask_text = ''Fan'', cr_expected_tenant_id = None, cr_client_message_id = Some desk_client\<rparr>"
proof -
  have "PersonText 2000 (JStr ''Fan'') = Some ''Fan''" by code_simp
  moreover have "rx_full z_uuid desk_client" by code_simp
  ultimately show ?thesis by (simp add: desk_body_def member_of_def nullable_uuid_def optional_uuid_def)
qed

theorem postBuild_retry_witness:
  "\<exists>rep gw'. postBuild desk_config NoCookie desk_body desk_draws desk_gateway = (Inr rep, gw') \<and> re_status rep = 201 \<and>
     (\<exists>rep'. postBuild desk_config NoCookie desk_body desk_draws gw' = (Inr rep', gw') \<and> re_status rep' = 200)"
proof -
  have owner: "request_owner desk_config NoCookie desk_draws = (\<lparr>ow_tenantId = None, ow_anonHash = Some ''h''\<rparr>, Some ''t'')"
    by (simp add: request_owner_def ownerOf_def desk_config_def anonTokenFromCookieHeader_def desk_draws_def)
  obtain rep gw' where post: "postBuild desk_config NoCookie desk_body desk_draws desk_gateway = (Inr rep, gw')" "re_status rep = 201"
  proof -
    let ?o = "\<lparr>ow_tenantId = None, ow_anonHash = Some ''h''\<rparr>"
    let ?create = "createBuild ?o ''Fan'' (Some desk_client)
        (\<lambda>n. map_option (\<lambda>_. Thrown ''RATE_LIMITED'') (fst (admit_build desk_config ?o (dw_nowMs desk_draws) n desk_gateway)))
        (dw_buildId desk_draws) (dw_messageId desk_draws) (dw_nowUs desk_draws) (gw_db desk_gateway)"
    have "\<exists>b m db. ?create = (Inr (BuildCreated b m), db)"
      by (simp add: createBuild_def findBuildByFirstMessage_def desk_gateway_def admit_build_def desk_config_def take_hit_def
          new_limiter_def hits_of_def limited_def Let_def)
    then obtain b m db where res: "?create = (Inr (BuildCreated b m), db)" by blast
    obtain refusal charged where adm:
        "admit_build desk_config ?o (dw_nowMs desk_draws) (is_new_owner ?o (gw_db desk_gateway)) desk_gateway = (refusal, charged)"
      by (cases "admit_build desk_config ?o (dw_nowMs desk_draws) (is_new_owner ?o (gw_db desk_gateway)) desk_gateway")
    from postBuild_admitted [OF desk_request _ owner adm, of "Inr (BuildCreated b m)" db] res show ?thesis
      using that by simp
  qed
  have "dw_buildId desk_draws \<notin> bd_id ` set (cdb_builds (gw_db desk_gateway))" by (simp add: desk_gateway_def)
  from postBuild_retry [OF post desk_request _ this, of desk_client NoCookie desk_draws] post show ?thesis by auto
qed

end
