(* ===== verification/Provisioning.thy ===== *)
theory Provisioning
  imports Firmware_Progress
begin
text \<open>
  What entitles a device to a credential: \<open>apps/gateway/src/provisioning-profile.ts\<close> (the reviewed server configuration and its match with
  an accepted plan), \<open>provisioning-firmware.ts\<close> (a passed compile record against that match) and \<open>provisioning-authority.ts\<close> (the two over
  the tables of a build). An object keyed by channel names is an association list, as in the schema of channels.
\<close>

subsection \<open>Profiles\<close>

record HealthSource =
  hs_part :: PartPin
  hs_telemetry_schema :: string

record CapabilitySource =
  cs_capability_id :: string
  cs_part :: PartPin
  cs_telemetry_schema :: string

record ProfileChannel =
  pc_key :: string
  pc_range :: TelemetryChannel
  pc_part :: PartPin
  pc_telemetry_schema :: string

record ProvisioningProfile =
  pp_id :: string
  pp_version :: string
  pp_assembly_profile :: PartPin
  pp_runtime :: string
  pp_part_versions :: "PartPin list"
  pp_firmware_profile_id :: string
  pp_health_sources :: "HealthSource list"
  pp_capabilities :: "SensorCapability list option"
  pp_capability_sources :: "CapabilitySource list option"
  pp_channels :: "ProfileChannel list"

definition Pin_ok :: "PartPin \<Rightarrow> bool" where
  "Pin_ok p \<longleftrightarrow> 1 \<le> length (pin_id p) \<and> 1 \<le> length (pin_version p)"

definition short :: "nat \<Rightarrow> string \<Rightarrow> bool" where
  "short n s \<longleftrightarrow> 1 \<le> length s \<and> length s \<le> n"

definition ProfileChannel_ok :: "ProfileChannel \<Rightarrow> bool" where
  "ProfileChannel_ok c \<longleftrightarrow>
     rx_full CHANNEL_KEY (pc_key c) \<and> TelemetryChannel_ok (pc_range c) \<and> Pin_ok (pc_part c) \<and> short 100 (pc_telemetry_schema c)"

definition cap_enabled :: "SensorCapability \<Rightarrow> bool" where
  "cap_enabled c = cb_enabled (cap_base c)"

text \<open>The \<open>superRefine\<close> of a profile, issue by issue.\<close>

definition profile_capability_issues :: "ProvisioningProfile \<Rightarrow> string list" where
  "profile_capability_issues p =
     (case pp_capabilities p of
        None \<Rightarrow> issue_if (case pp_capability_sources p of None \<Rightarrow> False | Some s \<Rightarrow> s \<noteq> []) ''Capability sources require capabilities''
      | Some caps \<Rightarrow>
          (let numeric = numeric_channels caps; sources = (case pp_capability_sources p of None \<Rightarrow> [] | Some s \<Rightarrow> s) in
           issue_if (length numeric \<noteq> length (pp_channels p) \<or>
               list_ex (\<lambda>c. map_of numeric (pc_key c) \<noteq> Some (pc_range c)) (pp_channels p)) ''Capability channels must match approved channel profile'' @
           issue_if (length sources \<noteq> length caps \<or> length (js_unique (map cs_capability_id sources)) \<noteq> length sources \<or>
               list_ex (\<lambda>c. \<not> list_ex (\<lambda>s. cs_capability_id s = cb_id (cap_base c)) sources) caps)
             ''Capabilities require unique pinned source evidence''))"

definition provisioning_issues :: "ProvisioningProfile \<Rightarrow> string list" where
  "provisioning_issues p =
     issue_if (pp_channels p = [] \<and> \<not> (case pp_capabilities p of None \<Rightarrow> False | Some caps \<Rightarrow> list_ex (\<lambda>c. is_image c \<and> cap_enabled c) caps))
       ''Profile requires an enabled source'' @
     issue_if (case pp_capabilities p of None \<Rightarrow> False | Some caps \<Rightarrow> \<not> list_ex cap_enabled caps) ''Profile requires an enabled source'' @
     profile_capability_issues p @
     issue_if (length (js_unique (map pinKey (pp_part_versions p))) \<noteq> length (pp_part_versions p)) ''Profile entries must be unique'' @
     issue_if (length (js_unique (map pc_key (pp_channels p))) \<noteq> length (pp_channels p)) ''Profile entries must be unique''"

definition ProvisioningProfile_ok :: "ProvisioningProfile \<Rightarrow> bool" where
  "ProvisioningProfile_ok p \<longleftrightarrow>
     short 100 (pp_id p) \<and> short 40 (pp_version p) \<and> Pin_ok (pp_assembly_profile p) \<and> short 40 (pp_runtime p) \<and>
     list_all Pin_ok (pp_part_versions p) \<and> 1 \<le> length (pp_part_versions p) \<and> length (pp_part_versions p) \<le> 64 \<and>
     short 100 (pp_firmware_profile_id p) \<and>
     list_all (\<lambda>h. Pin_ok (hs_part h) \<and> hs_telemetry_schema h = ''device_health.v1'') (pp_health_sources p) \<and> length (pp_health_sources p) \<le> 1 \<and>
     opt_ok DeviceCapabilities_ok (pp_capabilities p) \<and>
     opt_ok (\<lambda>s. list_all (\<lambda>c. Pin_ok (cs_part c) \<and> 1 \<le> length (cs_telemetry_schema c)) s \<and> length s \<le> 64) (pp_capability_sources p) \<and>
     list_all ProfileChannel_ok (pp_channels p) \<and> length (pp_channels p) \<le> 64 \<and> provisioning_issues p = []"

definition ProvisioningProfiles_ok :: "ProvisioningProfile list \<Rightarrow> bool" where
  "ProvisioningProfiles_ok ps \<longleftrightarrow>
     list_all ProvisioningProfile_ok ps \<and> length ps \<le> 64 \<and>
     length (js_unique (map (\<lambda>p. pp_id p @ ''@'' @ pp_version p) ps)) = length ps"

subsection \<open>The profile of an accepted plan\<close>

record Provisioned =
  po_profile :: ProvisioningProfile
  po_channels :: Channels
  po_capabilities :: "SensorCapability list"

definition part_at :: "PartDefinition list \<Rightarrow> PartPin \<Rightarrow> PartDefinition option" where
  "part_at parts p = List.find (\<lambda>q. part_id q = pin_id p \<and> part_version q = pin_version p) parts"

definition profile_for :: "BuildPlan \<Rightarrow> string \<Rightarrow> ProvisioningProfile \<Rightarrow> bool" where
  "profile_for plan firmware p \<longleftrightarrow>
     pin_id (pp_assembly_profile p) = fst (plan_profile plan) \<and> pin_version (pp_assembly_profile p) = snd (plan_profile plan) \<and>
     pp_runtime p = plan_runtime plan \<and> pin_text (pp_part_versions p) = pin_text (part_versions plan) \<and> pp_firmware_profile_id p = firmware"

text \<open>The three loops, each with the parts it covers, \<open>None\<close> when it returns null.\<close>

fun channel_parts :: "PartDefinition list \<Rightarrow> ProfileChannel list \<Rightarrow> string list option" where
  "channel_parts parts [] = Some []"
| "channel_parts parts (c # cs) =
     (case part_at parts (pc_part c) of
        None \<Rightarrow> None
      | Some p \<Rightarrow>
          if pc_telemetry_schema c = ''device_health.v1'' \<or> telemetry_schema (cloud p) \<noteq> Some (pc_telemetry_schema c) then None
          else map_option ((#) (pinKey (pin p))) (channel_parts parts cs))"

definition source_supplies :: "ProvisioningProfile \<Rightarrow> CapabilitySource \<Rightarrow> SensorCapability \<Rightarrow> bool" where
  "source_supplies profile src cap \<longleftrightarrow>
     list_all (\<lambda>(k, _). list_ex (\<lambda>c. pc_key c = k \<and> pc_part c = cs_part src \<and> pc_telemetry_schema c = cs_telemetry_schema src) (pp_channels profile))
       (cap_channels cap)"

fun capability_parts :: "ProvisioningProfile \<Rightarrow> PartDefinition list \<Rightarrow> CapabilitySource list \<Rightarrow> string list option" where
  "capability_parts profile parts [] = Some []"
| "capability_parts profile parts (src # rest) =
     (case part_at parts (cs_part src) of
        None \<Rightarrow> None
      | Some p \<Rightarrow>
          if telemetry_schema (cloud p) \<noteq> Some (cs_telemetry_schema src) then None
          else (case List.find (\<lambda>c. cb_id (cap_base c) = cs_capability_id src) (case pp_capabilities profile of None \<Rightarrow> [] | Some cs \<Rightarrow> cs) of
                  None \<Rightarrow> None
                | Some cap \<Rightarrow>
                    if \<not> source_supplies profile src cap then None
                    else map_option ((#) (pinKey (pin p))) (capability_parts profile parts rest)))"

fun health_parts :: "PartDefinition list \<Rightarrow> HealthSource list \<Rightarrow> string list option" where
  "health_parts parts [] = Some []"
| "health_parts parts (h # hs) =
     (case part_at parts (hs_part h) of
        None \<Rightarrow> None
      | Some p \<Rightarrow>
          if part_interface (electrical p) \<noteq> HostIf \<or> telemetry_schema (cloud p) \<noteq> Some (hs_telemetry_schema h) then None
          else map_option ((#) (pinKey (pin p))) (health_parts parts hs))"

text \<open>\<open>Object.fromEntries\<close>: a repeated key takes the later value in the place of the first.\<close>

definition profile_channels :: "ProvisioningProfile \<Rightarrow> Channels" where
  "profile_channels p = fold (\<lambda>c. map_set (pc_key c) (pc_range c)) (pp_channels p) []"

definition resolveProvisioningProfile ::
    "ProvisioningProfile list \<Rightarrow> BuildPlan \<Rightarrow> PartDefinition list \<Rightarrow> string \<Rightarrow> Provisioned option" where
  "resolveProvisioningProfile profiles plan parts firmware =
     (if pin_text (map pin parts) \<noteq> pin_text (part_versions plan) \<or> list_ex (\<lambda>p. status p \<noteq> Active) parts then None
      else case filter (profile_for plan firmware) profiles of
        [profile] \<Rightarrow>
          (case (channel_parts parts (pp_channels profile),
                 capability_parts profile parts (case pp_capability_sources profile of None \<Rightarrow> [] | Some s \<Rightarrow> s),
                 health_parts parts (pp_health_sources profile)) of
             (Some a, Some b, Some c) \<Rightarrow>
               if list_ex (\<lambda>p. telemetry_schema (cloud p) \<noteq> None \<and> pinKey (pin p) \<notin> set (a @ b @ c)) parts then None
               else if \<not> ProvisionedChannels_ok (profile_channels profile) then None
               else Some \<lparr>po_profile = profile, po_channels = profile_channels profile,
                          po_capabilities = (case pp_capabilities profile of None \<Rightarrow> [] | Some cs \<Rightarrow> cs)\<rparr>
           | _ \<Rightarrow> None)
      | _ \<Rightarrow> None)"

subsection \<open>The firmware of a plan\<close>

record FirmwareIdentity =
  fi_buildId :: string
  fi_planVersion :: int
  fi_codeVersion :: int
  fi_runtime :: string
  fi_firmwareProfileId :: string
  fi_channels :: Channels
  fi_capabilities :: "SensorCapability list"

definition channels_differ :: "Channels \<Rightarrow> Channels \<Rightarrow> bool" where
  "channels_differ expected actual \<longleftrightarrow>
     length expected \<noteq> length actual \<or> list_ex (\<lambda>(k, c). map_of actual k \<noteq> Some c) expected"

definition capabilities_text :: "SensorCapability list option \<Rightarrow> string option" where
  "capabilities_text caps = (case caps of None \<Rightarrow> None | Some cs \<Rightarrow> json_stringify (JArr (map capability_json cs)))"

text \<open>\<open>Inl\<close> when a schema's \<open>parse\<close> throws.\<close>

definition verifyProvisioningFirmware :: "Codec \<Rightarrow> CompileLog \<Rightarrow> FirmwareIdentity \<Rightarrow> js_error + FirmwarePassedRecord option" where
  "verifyProvisioningFirmware cx stored identity =
     (case passed_of stored of
        None \<Rightarrow> Inr None
      | Some record \<Rightarrow>
     (let m = fp_manifest record; expected = (if fi_capabilities identity = [] then None else Some (fi_capabilities identity)) in
      if fp_candidate_id record \<noteq> mf_profile_id m \<or> mf_build_id m \<noteq> fi_buildId identity \<or> mf_plan_version m \<noteq> fi_planVersion identity \<or>
         mf_code_version m \<noteq> fi_codeVersion identity \<or> mf_runtime m \<noteq> fi_runtime identity \<or> mf_profile_id m \<noteq> fi_firmwareProfileId identity
      then Inr None
      else if channels_differ (fi_channels identity) (mf_channels m) then Inr None
      else if \<not> opt_ok DeviceCapabilities_ok expected then Inl (Thrown ''ZodError'')
      else if capabilities_text (mf_capabilities m) \<noteq> capabilities_text expected then Inr None
      else case serializeFirmwareManifest m of
        Inl e \<Rightarrow> Inl e
      | Inr text \<Rightarrow> Inr (if cx_sha256 cx text = fp_manifest_digest record then Some record else None)))"

subsection \<open>The authority\<close>

record ProvisioningSource =
  so_build_id :: string
  so_plan_version :: int
  so_code_version :: int
  so_input_digest :: string
  so_part_versions :: "PartPin list"
  so_assembly_profile :: "string \<times> string"
  so_channel_profile :: ProvisioningProfile
  so_manifest_digest :: string

record Authority =
  au_channels :: Channels
  au_capabilities :: "SensorCapability list"
  au_nextS :: int
  au_firmware :: FirmwarePassedRecord
  au_source :: ProvisioningSource

definition no_evidence :: HttpError where
  "no_evidence = http_error 409 ''PROVISIONING_UNAVAILABLE''"

definition firmware_not_ready :: HttpError where
  "firmware_not_ready = http_error 409 ''FIRMWARE_NOT_READY''"

definition evidence_differs :: "BuildPlan \<Rightarrow> BuildPlanEvidence \<Rightarrow> bool" where
  "evidence_differs plan ev \<longleftrightarrow>
     (let prof = ev_profile ev; wiring = wiring_graph plan in
      (prof_id prof, prof_version prof) \<noteq> plan_profile plan \<or>
      brain_pin prof \<noteq> graph_brain wiring \<or> source_pin prof \<noteq> graph_source wiring \<or>
      list_ex (\<lambda>p. driver_pkg (software p) \<noteq> None \<and>
         \<not> list_ex (\<lambda>c. compat_status c = Passed \<and> Some (compat_pkg c) = driver_pkg (software p) \<and>
              Some (compat_driver_ver c) = driver_version (software p) \<and> compat_brain c = pin_id (graph_brain wiring) \<and>
              compat_runtime_ver c = plan_runtime plan) (ev_compat ev)) (ev_parts ev))"

text \<open>The interval of the stored specification, when it is one the device supports.\<close>

definition spec_interval :: "Codec \<Rightarrow> jvalue \<Rightarrow> int option" where
  "spec_interval cx stored =
     (case cx_spec cx stored of
        None \<Rightarrow> None
      | Some spec \<Rightarrow>
          if \<not> Spec_ok spec then None
          else (case se_interval_s (sp_sense spec) of
             None \<Rightarrow> None
           | Some x \<Rightarrow> (case int_of_num x of None \<Rightarrow> None | Some n \<Rightarrow> if n < 1 \<or> n > 86400 then None else Some n)))"

text \<open>The stored plan with its metadata, after the checks on their evidence.\<close>

definition plan_evidence :: "Codec \<Rightarrow> PlanRow \<Rightarrow> jvalue \<Rightarrow> HttpError + (BuildPlanMetadata \<times> BuildPlan)" where
  "plan_evidence cx row stored =
     (case metadata_of cx row of
        None \<Rightarrow> Inl no_evidence
      | Some metadata \<Rightarrow>
     (case planInputDigest cx stored (md_runtime metadata) (md_evidence metadata) of
        Inl _ \<Rightarrow> Inl internal_error
      | Inr digest \<Rightarrow>
          if md_input_digest metadata \<noteq> digest then Inl no_evidence
          else (case plan_of_row row metadata of
             None \<Rightarrow> Inl no_evidence
           | Some plan \<Rightarrow> if evidence_differs plan (md_evidence metadata) then Inl no_evidence else Inr (metadata, plan))))"

definition plan_bundle :: "ForgeDb \<Rightarrow> string \<Rightarrow> int \<Rightarrow> int \<Rightarrow> BundleRow option" where
  "plan_bundle db b v c = List.find (\<lambda>r. bu_buildId r = b \<and> bu_planVersion r = v \<and> bu_version r = c) (fg_bundles db)"

definition bundle_ready :: "BundleRow option \<Rightarrow> (BundleRow \<times> FirmwarePassedRecord) option" where
  "bundle_ready bundle =
     (case bundle of
        None \<Rightarrow> None
      | Some r \<Rightarrow>
          if bu_status r \<noteq> BPassed \<or> (case bu_storageRef r of None \<Rightarrow> True | Some s \<Rightarrow> s = []) then None
          else map_option (Pair r) (passed_of (bu_log r)))"

text \<open>From the plan, its interval and the bundle to the authority.\<close>

definition firmware_authority ::
    "Codec \<Rightarrow> ProvisioningProfile list \<Rightarrow> ForgeDb \<Rightarrow> string \<Rightarrow> int \<Rightarrow> int \<Rightarrow> int \<Rightarrow> BuildPlanMetadata \<Rightarrow> BuildPlan \<Rightarrow> HttpError + Authority" where
  "firmware_authority cx profiles db b v c interval metadata plan =
     (case bundle_ready (plan_bundle db b v c) of
        None \<Rightarrow> Inl firmware_not_ready
      | Some (bundle, preliminary) \<Rightarrow>
     (case resolveProvisioningProfile profiles plan (ev_parts (md_evidence metadata)) (mf_profile_id (fp_manifest preliminary)) of
        None \<Rightarrow> Inl no_evidence
      | Some p \<Rightarrow>
          if list_ex (\<lambda>cap. cap_enabled cap \<and> cb_interval_s (cap_base cap) < interval) (po_capabilities p) then Inl no_evidence
          else (case verifyProvisioningFirmware cx (bu_log bundle)
                       \<lparr>fi_buildId = b, fi_planVersion = v, fi_codeVersion = c, fi_runtime = plan_runtime plan,
                        fi_firmwareProfileId = pp_firmware_profile_id (po_profile p), fi_channels = po_channels p,
                        fi_capabilities = po_capabilities p\<rparr> of
             Inl _ \<Rightarrow> Inl internal_error
           | Inr None \<Rightarrow> Inl firmware_not_ready
           | Inr (Some firmware) \<Rightarrow>
               (let compiled = (case fp_job firmware of None \<Rightarrow> interval | Some j \<Rightarrow> fj_interval_s j) in
                if compiled < interval then Inl firmware_not_ready
                else Inr \<lparr>au_channels = po_channels p, au_capabilities = po_capabilities p, au_nextS = compiled, au_firmware = firmware,
                          au_source = \<lparr>so_build_id = b, so_plan_version = v, so_code_version = c, so_input_digest = md_input_digest metadata,
                            so_part_versions = part_versions plan, so_assembly_profile = plan_profile plan, so_channel_profile = po_profile p,
                            so_manifest_digest = fp_manifest_digest firmware\<rparr>\<rparr>))))"

definition loadProvisioningAuthority ::
    "Codec \<Rightarrow> ForgeDb \<Rightarrow> string \<Rightarrow> string \<Rightarrow> int \<Rightarrow> int \<Rightarrow> ProvisioningProfile list \<Rightarrow> bool \<Rightarrow> HttpError + Authority" where
  "loadProvisioningAuthority cx db tenant b v c profiles requireCurrent =
     (if \<not> owned db b tenant then Inl notFound
      else case List.find (\<lambda>p. pr_buildId p = b \<and> pr_version p = v) (fg_plans db) of
        None \<Rightarrow> Inl (http_error 409 ''PLAN_NOT_ACCEPTED'')
      | Some row \<Rightarrow>
          if pr_acceptedAt row = None then Inl (http_error 409 ''PLAN_NOT_ACCEPTED'')
          else if requireCurrent \<and> latest_spec_version db b \<noteq> Some (pr_specVersion row) then Inl (http_error 409 ''PLAN_STALE'')
          else (case spec_data db b (pr_specVersion row) of
             None \<Rightarrow> Inl no_evidence
           | Some stored \<Rightarrow>
          (case spec_interval cx stored of
             None \<Rightarrow> Inl no_evidence
           | Some interval \<Rightarrow>
          (case plan_evidence cx row stored of
             Inl e \<Rightarrow> Inl e
           | Inr (metadata, plan) \<Rightarrow> firmware_authority cx profiles db b v c interval metadata plan))))"

subsection \<open>What an authority rests on\<close>

lemma channel_parts_Some:
  "channel_parts parts cs = Some ks \<Longrightarrow> c \<in> set cs \<Longrightarrow>
   \<exists>p \<in> set parts. pin p = pc_part c \<and> telemetry_schema (cloud p) = Some (pc_telemetry_schema c) \<and> pc_telemetry_schema c \<noteq> ''device_health.v1'' \<and>
      pinKey (pin p) \<in> set ks"
proof (induction cs arbitrary: ks)
  case (Cons d cs)
  from Cons.prems(1) obtain p r where p: "part_at parts (pc_part d) = Some p" "channel_parts parts cs = Some r" "ks = pinKey (pin p) # r"
      "pc_telemetry_schema d \<noteq> ''device_health.v1''" "telemetry_schema (cloud p) = Some (pc_telemetry_schema d)"
    by (auto split: option.splits if_splits)
  have "p \<in> set parts \<and> pin p = pc_part d" using find_Some_set [OF p(1) [unfolded part_at_def]] by (cases "pc_part d") (auto simp: pin_def)
  with Cons p show ?case by auto
qed simp

lemma resolved_profile:
  assumes "resolveProvisioningProfile profiles plan parts firmware = Some r"
  shows "po_profile r \<in> set profiles" "profile_for plan firmware (po_profile r)"
    "\<And>p. p \<in> set profiles \<Longrightarrow> profile_for plan firmware p \<Longrightarrow> p = po_profile r"
    "po_channels r = profile_channels (po_profile r)" "ProvisionedChannels_ok (po_channels r)"
    "po_capabilities r = (case pp_capabilities (po_profile r) of None \<Rightarrow> [] | Some cs \<Rightarrow> cs)"
    "pin_text (map pin parts) = pin_text (part_versions plan)" "\<And>p. p \<in> set parts \<Longrightarrow> status p = Active"
    "\<And>c. c \<in> set (pp_channels (po_profile r)) \<Longrightarrow>
       \<exists>p \<in> set parts. pin p = pc_part c \<and> telemetry_schema (cloud p) = Some (pc_telemetry_schema c)"
proof -
  from assms obtain profile a b c where r: "filter (profile_for plan firmware) profiles = [profile]"
      "channel_parts parts (pp_channels profile) = Some a"
      "ProvisionedChannels_ok (profile_channels profile)"
      "r = \<lparr>po_profile = profile, po_channels = profile_channels profile,
            po_capabilities = (case pp_capabilities profile of None \<Rightarrow> [] | Some cs \<Rightarrow> cs)\<rparr>"
      "pin_text (map pin parts) = pin_text (part_versions plan)" "\<not> list_ex (\<lambda>p. status p \<noteq> Active) parts"
    by (auto simp: resolveProvisioningProfile_def split: list.splits option.splits if_splits)
  have s: "set (filter (profile_for plan firmware) profiles) = {profile}" by (simp add: r(1))
  show "po_profile r \<in> set profiles" "profile_for plan firmware (po_profile r)"
    "\<And>p. p \<in> set profiles \<Longrightarrow> profile_for plan firmware p \<Longrightarrow> p = po_profile r"
    using s by (auto simp: r(4))
  show "po_channels r = profile_channels (po_profile r)" "ProvisionedChannels_ok (po_channels r)"
    "po_capabilities r = (case pp_capabilities (po_profile r) of None \<Rightarrow> [] | Some cs \<Rightarrow> cs)"
    using r(3) by (simp_all add: r(4))
  show "pin_text (map pin parts) = pin_text (part_versions plan)" by (fact r(5))
  show "\<And>p. p \<in> set parts \<Longrightarrow> status p = Active" using r(6) by (auto simp: list_ex_iff)
  show "\<And>c. c \<in> set (pp_channels (po_profile r)) \<Longrightarrow>
       \<exists>p \<in> set parts. pin p = pc_part c \<and> telemetry_schema (cloud p) = Some (pc_telemetry_schema c)"
    using channel_parts_Some [OF r(2)] by (fastforce simp: r(4))
qed

lemma verified_firmware:
  assumes "verifyProvisioningFirmware cx l i = Inr (Some r)"
  shows "passed_of l = Some r" "fp_candidate_id r = mf_profile_id (fp_manifest r)" "mf_build_id (fp_manifest r) = fi_buildId i"
    "mf_plan_version (fp_manifest r) = fi_planVersion i" "mf_code_version (fp_manifest r) = fi_codeVersion i"
    "mf_runtime (fp_manifest r) = fi_runtime i" "mf_profile_id (fp_manifest r) = fi_firmwareProfileId i"
    "\<not> channels_differ (fi_channels i) (mf_channels (fp_manifest r))"
    "capabilities_text (mf_capabilities (fp_manifest r)) = capabilities_text (if fi_capabilities i = [] then None else Some (fi_capabilities i))"
    "opt_ok DeviceCapabilities_ok (if fi_capabilities i = [] then None else Some (fi_capabilities i))"
    "\<exists>text. serializeFirmwareManifest (fp_manifest r) = Inr text \<and> cx_sha256 cx text = fp_manifest_digest r"
  using assms unfolding verifyProvisioningFirmware_def Let_def by (auto split: option.splits sum.splits if_splits)

lemma firmware_authority_Inr:
  assumes "firmware_authority cx profiles db b v c n metadata plan = Inr a"
  shows "\<exists>bdl first r. bundle_ready (plan_bundle db b v c) = Some (bdl, first) \<and>
    resolveProvisioningProfile profiles plan (ev_parts (md_evidence metadata)) (mf_profile_id (fp_manifest first)) = Some r \<and>
    \<not> list_ex (\<lambda>cap. cap_enabled cap \<and> cb_interval_s (cap_base cap) < n) (po_capabilities r) \<and>
    verifyProvisioningFirmware cx (bu_log bdl) \<lparr>fi_buildId = b, fi_planVersion = v, fi_codeVersion = c, fi_runtime = plan_runtime plan,
      fi_firmwareProfileId = pp_firmware_profile_id (po_profile r), fi_channels = po_channels r, fi_capabilities = po_capabilities r\<rparr> =
    Inr (Some (au_firmware a)) \<and> au_channels a = po_channels r \<and> au_capabilities a = po_capabilities r \<and> n \<le> au_nextS a"
  using assms unfolding firmware_authority_def Let_def by (auto split: option.splits sum.splits if_splits prod.splits)

lemma channels_same:
  assumes "\<not> channels_differ xs ys" and "distinct (map fst xs)" and "distinct (map fst ys)"
  shows "mset xs = mset ys"
proof -
  have sub: "set xs \<subseteq> set ys" using assms(1) by (fastforce simp: channels_differ_def list_ex_iff dest: map_of_SomeD)
  have d: "distinct xs" "distinct ys" using assms(2,3) by (auto simp: distinct_map)
  have "card (set xs) = card (set ys)" using assms(1) d by (simp add: channels_differ_def distinct_card)
  with sub have "set xs = set ys" by (meson List.finite_set card_subset_eq)
  with d show ?thesis by (simp add: set_eq_iff_mset_eq_distinct)
qed

text \<open>
  C20. A device is provisioned only on matching evidence. The build is the tenant's; the plan of this version is accepted, for the newest
  specification where that is asked; its stored input hashes to the digest it was accepted with; its parts are active and the plan's. The
  firmware is the passed record of exactly this build, plan and code version, of the profile's candidate and the plan's runtime, and its
  manifest has the recorded digest and the device's very channels; each channel is measured by a part of the plan. The upload interval
  is not shorter than the specification's, nor is that of an enabled capability.
\<close>

theorem authority_sound:
  assumes "loadProvisioningAuthority cx db tenant b v c profiles requireCurrent = Inr a"
  shows "\<exists>row stored spec n metadata plan bundle profile.
    owned db b tenant \<and> row \<in> set (fg_plans db) \<and> pr_buildId row = b \<and> pr_version row = v \<and> pr_acceptedAt row \<noteq> None \<and>
    (requireCurrent \<longrightarrow> latest_spec_version db b = Some (pr_specVersion row)) \<and>
    spec_data db b (pr_specVersion row) = Some stored \<and> cx_spec cx stored = Some spec \<and> se_interval_s (sp_sense spec) = Some (Fin (of_int n)) \<and>
    metadata_of cx row = Some metadata \<and> plan_of_row row metadata = Some plan \<and>
    planInputDigest cx stored (md_runtime metadata) (md_evidence metadata) = Inr (md_input_digest metadata) \<and>
    mset (map pin (ev_parts (md_evidence metadata))) = mset (part_versions plan) \<and>
    (\<forall>p \<in> set (ev_parts (md_evidence metadata)). status p = Active) \<and>
    bundle \<in> set (fg_bundles db) \<and> bu_buildId bundle = b \<and> bu_planVersion bundle = v \<and> bu_version bundle = c \<and> bu_status bundle = BPassed \<and>
    passed_of (bu_log bundle) = Some (au_firmware a) \<and>
    profile \<in> set profiles \<and> fp_candidate_id (au_firmware a) = pp_firmware_profile_id profile \<and>
    (let m = fp_manifest (au_firmware a) in
       mf_build_id m = b \<and> mf_plan_version m = v \<and> mf_code_version m = c \<and> mf_runtime m = plan_runtime plan \<and>
       mset (mf_channels m) = mset (au_channels a) \<and>
       map_sum id (cx_sha256 cx) (serializeFirmwareManifest m) = Inr (fp_manifest_digest (au_firmware a))) \<and>
    (\<forall>ch \<in> set (pp_channels profile). \<exists>p \<in> set (ev_parts (md_evidence metadata)). pin p = pc_part ch \<and> telemetry_schema (cloud p) = Some (pc_telemetry_schema ch)) \<and>
    n \<le> au_nextS a \<and> (\<forall>cap \<in> set (au_capabilities a). cap_enabled cap \<longrightarrow> n \<le> cb_interval_s (cap_base cap))"
proof -
  from assms obtain row stored n metadata plan where load: "owned db b tenant"
      "List.find (\<lambda>p. pr_buildId p = b \<and> pr_version p = v) (fg_plans db) = Some row" "pr_acceptedAt row \<noteq> None"
      "requireCurrent \<longrightarrow> latest_spec_version db b = Some (pr_specVersion row)" "spec_data db b (pr_specVersion row) = Some stored"
      "spec_interval cx stored = Some n" "plan_evidence cx row stored = Inr (metadata, plan)"
      "firmware_authority cx profiles db b v c n metadata plan = Inr a"
    by (auto simp: loadProvisioningAuthority_def split: option.splits sum.splits if_splits prod.splits)
  note row = find_Some_set [OF load(2)]
  from load(6) obtain spec x where spec: "cx_spec cx stored = Some spec" "se_interval_s (sp_sense spec) = Some x" "int_of_num x = Some n"
    by (auto simp: spec_interval_def split: option.splits if_splits)
  have x: "x = Fin (of_int n)"
    using spec(3) by (cases x) (auto split: if_splits simp: quotient_of_denom_pos' Rat.of_int_def intro!: quotient_of_inject prod_eqI)
  from load(7) have ev: "metadata_of cx row = Some metadata" "plan_of_row row metadata = Some plan"
      "planInputDigest cx stored (md_runtime metadata) (md_evidence metadata) = Inr (md_input_digest metadata)"
    by (auto simp: plan_evidence_def split: option.splits sum.splits if_splits)
  from firmware_authority_Inr [OF load(8)] obtain bdl first r where fw: "bundle_ready (plan_bundle db b v c) = Some (bdl, first)"
      "resolveProvisioningProfile profiles plan (ev_parts (md_evidence metadata)) (mf_profile_id (fp_manifest first)) = Some r"
      "\<not> list_ex (\<lambda>cap. cap_enabled cap \<and> cb_interval_s (cap_base cap) < n) (po_capabilities r)"
      "verifyProvisioningFirmware cx (bu_log bdl) \<lparr>fi_buildId = b, fi_planVersion = v, fi_codeVersion = c, fi_runtime = plan_runtime plan,
         fi_firmwareProfileId = pp_firmware_profile_id (po_profile r), fi_channels = po_channels r, fi_capabilities = po_capabilities r\<rparr> =
       Inr (Some (au_firmware a))" "au_channels a = po_channels r" "au_capabilities a = po_capabilities r" "n \<le> au_nextS a"
    by blast
  have rowb: "bdl \<in> set (fg_bundles db)" "bu_buildId bdl = b" "bu_planVersion bdl = v" "bu_version bdl = c" "bu_status bdl = BPassed"
    using fw(1) by (auto simp: bundle_ready_def plan_bundle_def split: option.splits if_splits dest!: find_Some_set)
  note prof = resolved_profile [OF fw(2)]
  note ver = verified_firmware [OF fw(4), simplified]
  have "FirmwareManifest_ok (fp_manifest (au_firmware a))"
    using ver(1) by (cases "bu_log bdl") (auto simp: FirmwarePassedRecord_ok_def split: if_splits)
  then have "mset (po_channels r) = mset (mf_channels (fp_manifest (au_firmware a)))"
    using prof(5) by (intro channels_same [OF ver(8)]) (auto simp: ProvisionedChannels_ok_def FirmwareManifest_ok_def)
  moreover have "mset (map pin (ev_parts (md_evidence metadata))) = mset (part_versions plan)"
  proof (rule pin_text_mset [OF _ _ _ _ prof(7)])
    have m: "BuildPlanEvidence_ok (cx_https cx) (md_evidence metadata)" and p: "BuildPlanV1_ok plan"
      using ev(1,2) by (auto simp: metadata_of_def plan_of_row_def BuildPlanMetadata_ok_def split: option.splits if_splits)
    then show "list_all PartPin_ok (map pin (ev_parts (md_evidence metadata)))"
      by (auto simp: BuildPlanEvidence_ok_def list_all_iff PartDefinition_ok_def part_fields_ok_def PartPin_ok_def pin_def)
    show "list_all PartPin_ok (part_versions plan)" "part_versions plan \<noteq> []" using p by (auto simp: BuildPlanV1_ok_def)
    show "map pin (ev_parts (md_evidence metadata)) \<noteq> []" using m by (auto simp: BuildPlanEvidence_ok_def)
  qed
  ultimately show ?thesis
    using load(1,3,4,5) row spec(1,2) x ev rowb ver fw(3,5,6,7) prof(1,8,9)
    by (intro exI [of _ row] exI [of _ stored] exI [of _ spec] exI [of _ n] exI [of _ metadata] exI [of _ plan] exI [of _ bdl]
        exI [of _ "po_profile r"]) (auto simp: list_ex_iff Let_def not_less)
qed

subsection \<open>The worked build, compiled\<close>

definition shop_record :: FirmwarePassedRecord where
  "shop_record =
     \<lparr>fp_job = Some (shop_job\<lparr>fj_attempts := 1\<rparr>), fp_candidate_id = nc_id DEVKITC_CANDIDATE, fp_manifest = shop_manifest,
      fp_manifest_digest = shop_hash, fp_image_digest = ''espressif/idf@sha256:'' @ shop_hash, fp_idf_version = ''5.5.3'',
      fp_bundle_sha256 = None, fp_source_sha256 = shop_hash, fp_instruction = [], fp_diagnostics = ''ok''\<rparr>"

definition shop_passed :: ForgeDb where
  "shop_passed = shop_db\<lparr>fg_bundles := [shop_row\<lparr>bu_status := BPassed, bu_storageRef := Some ''build/x'', bu_log := PassedLog shop_record\<rparr>]\<rparr>"

definition shop_profile :: ProvisioningProfile where
  "shop_profile =
     \<lparr>pp_id = ''lux'', pp_version = ''1.0.0'', pp_assembly_profile = \<lparr>pin_id = ''esp32s3-bh1750-usb-v1'', pin_version = ''1.0.0''\<rparr>,
      pp_runtime = ''0.1.0'', pp_part_versions = map pin board_parts, pp_firmware_profile_id = nc_id DEVKITC_CANDIDATE,
      pp_health_sources = [], pp_capabilities = None, pp_capability_sources = None,
      pp_channels = [\<lparr>pc_key = ''illuminance'', pc_range = channel_of \<lparr>ch_unit = ''lux'', ch_min = 0, ch_max = 65535\<rparr>,
        pc_part = \<lparr>pin_id = ''V-005'', pin_version = ''1.0.0''\<rparr>, pc_telemetry_schema = ''climate.v1''\<rparr>]\<rparr>"

lemma shop_channel_ok: "rx_full CHANNEL_KEY ''illuminance''" "TelemetryChannel_ok (channel_of \<lparr>ch_unit = ''lux'', ch_min = 0, ch_max = 65535\<rparr>)"
  using sensor_channels_ok [of Bh1750] by simp_all

lemma shop_profile_ok: "ProvisioningProfiles_ok [shop_profile]"
proof -
  have "map pin board_parts = [\<lparr>pin_id = ''C-001'', pin_version = ''1.0.0''\<rparr>, \<lparr>pin_id = ''E-005'', pin_version = ''1.0.0''\<rparr>, \<lparr>pin_id = ''V-005'', pin_version = ''1.0.0''\<rparr>]"
    by code_simp
  then show ?thesis
    using shop_channel_ok
    by (simp add: ProvisioningProfiles_ok_def ProvisioningProfile_ok_def shop_profile_def Pin_ok_def short_def ProfileChannel_ok_def DEVKITC_CANDIDATE_def
      provisioning_issues_def profile_capability_issues_def pinKey_def)
qed

lemma shop_profile_fields:
  "pp_capabilities shop_profile = None" "pp_capability_sources shop_profile = None" "pp_health_sources shop_profile = []"
  "pp_firmware_profile_id shop_profile = nc_id DEVKITC_CANDIDATE"
  by (simp_all add: shop_profile_def)

lemma shop_resolved:
  "resolveProvisioningProfile [shop_profile] board_plan board_parts (nc_id DEVKITC_CANDIDATE) =
   Some \<lparr>po_profile = shop_profile, po_channels = [(''illuminance'', channel_of \<lparr>ch_unit = ''lux'', ch_min = 0, ch_max = 65535\<rparr>)], po_capabilities = []\<rparr>"
proof -
  have f: "profile_for board_plan (nc_id DEVKITC_CANDIDATE) shop_profile"
    by (simp add: profile_for_def shop_profile_def board_plan_def)
  have ch: "profile_channels shop_profile = [(''illuminance'', channel_of \<lparr>ch_unit = ''lux'', ch_min = 0, ch_max = 65535\<rparr>)]"
    by (simp add: profile_channels_def shop_profile_def)
  have ok: "ProvisionedChannels_ok (profile_channels shop_profile)" using shop_channel_ok by (simp add: ch ProvisionedChannels_ok_def)
  have parts: "channel_parts board_parts (pp_channels shop_profile) = Some [''V-005@1.0.0'']" by code_simp
  have covered: "\<not> list_ex (\<lambda>p. telemetry_schema (cloud p) \<noteq> None \<and> pinKey (pin p) \<notin> set [''V-005@1.0.0'']) board_parts"
    "\<not> list_ex (\<lambda>p. status p \<noteq> Active) board_parts" by code_simp+
  have "pin_text (map pin board_parts) = pin_text (part_versions board_plan)" by (simp add: board_plan_def)
  with f ok parts covered show ?thesis
    by (simp add: resolveProvisioningProfile_def ch shop_profile_fields)
qed

lemma shop_record_ok: "passed_of (PassedLog shop_record) = Some shop_record"
proof -
  have "length (nc_id DEVKITC_CANDIDATE) \<le> 120" "Suc 0 \<le> length (nc_id DEVKITC_CANDIDATE)" by (simp_all add: DEVKITC_CANDIDATE_def)
  then have "FirmwarePassedRecord_ok shop_record"
    using shop_job_ok(2) shop_manifest_ok shop_sha(2) by (simp add: FirmwarePassedRecord_ok_def shop_record_def)
  then show ?thesis by simp
qed

lemma shop_verified:
  "verifyProvisioningFirmware board_codec (PassedLog shop_record)
     \<lparr>fi_buildId = shop_build, fi_planVersion = 1, fi_codeVersion = 1, fi_runtime = ''0.1.0'', fi_firmwareProfileId = nc_id DEVKITC_CANDIDATE,
      fi_channels = [(''illuminance'', channel_of \<lparr>ch_unit = ''lux'', ch_min = 0, ch_max = 65535\<rparr>)], fi_capabilities = []\<rparr> =
   Inr (Some shop_record)"
proof -
  obtain msg where t: "serializeFirmwareManifest shop_manifest = Inr msg" by (rule shop_text)
  have m: "mf_build_id shop_manifest = shop_build" "mf_plan_version shop_manifest = 1" "mf_code_version shop_manifest = 1"
    "mf_runtime shop_manifest = ''0.1.0''" "mf_profile_id shop_manifest = nc_id DEVKITC_CANDIDATE" "mf_capabilities shop_manifest = None"
    "mf_channels shop_manifest = [(''illuminance'', channel_of \<lparr>ch_unit = ''lux'', ch_min = 0, ch_max = 65535\<rparr>)]"
    by (simp_all add: shop_manifest_def compile_manifest_def shop_input_def shop_selection_def Let_def DEVKITC_CANDIDATE_def RUNTIME_def)
  have r: "fp_manifest shop_record = shop_manifest" "fp_candidate_id shop_record = nc_id DEVKITC_CANDIDATE" "fp_manifest_digest shop_record = shop_hash"
    by (simp_all add: shop_record_def)
  show ?thesis
    unfolding verifyProvisioningFirmware_def shop_record_ok option.case Let_def r
    by (simp add: m t shop_sha channels_differ_def capabilities_text_def)
qed

lemma shop_authority:
  "loadProvisioningAuthority board_codec shop_passed ''t'' shop_build 1 1 [shop_profile] requireCurrent =
   Inr \<lparr>au_channels = [(''illuminance'', channel_of \<lparr>ch_unit = ''lux'', ch_min = 0, ch_max = 65535\<rparr>)], au_capabilities = [], au_nextS = 60,
        au_firmware = shop_record, au_source = \<lparr>so_build_id = shop_build, so_plan_version = 1, so_code_version = 1,
          so_input_digest = shop_hash, so_part_versions = part_versions board_plan, so_assembly_profile = plan_profile board_plan,
          so_channel_profile = shop_profile, so_manifest_digest = shop_hash\<rparr>\<rparr>"
proof -
  have o: "owned shop_passed shop_build ''t''" by (simp add: owned_def shop_passed_def shop_db_def shop_auth_def)
  have p: "List.find (\<lambda>p. pr_buildId p = shop_build \<and> pr_version p = 1) (fg_plans shop_passed) = Some (board_row\<lparr>pr_buildId := shop_build\<rparr>)"
    by (simp add: shop_passed_def shop_db_def board_row_def)
  have l: "latest_spec_version shop_passed shop_build = Some 1" by (simp add: latest_spec_version_def shop_passed_def shop_db_def)
  have d: "spec_data shop_passed shop_build 1 = Some JNull" by (simp add: spec_data_def shop_passed_def shop_db_def)
  have n: "int_of_num (Fin 60) = Some 60" using quotient_of_int [of 60] by (simp add: Rat.of_int_def)
  have i: "spec_interval board_codec JNull = Some 60"
    using board_spec_ok by (simp add: spec_interval_def board_codec_fields) (simp add: board_spec_def n)
  from decodePlan_Inr [OF shop_decodes [of shop_build]] have e:
    "metadata_of board_codec (board_row\<lparr>pr_buildId := shop_build\<rparr>) = Some board_metadata"
    "plan_of_row (board_row\<lparr>pr_buildId := shop_build\<rparr>) board_metadata = Some board_plan"
    "planInputDigest board_codec JNull (md_runtime board_metadata) (md_evidence board_metadata) = Inr (md_input_digest board_metadata)"
    by (auto simp: shop_decoded_def)
  have x: "\<not> evidence_differs board_plan (md_evidence board_metadata)" by code_simp
  have pe: "plan_evidence board_codec (board_row\<lparr>pr_buildId := shop_build\<rparr>) JNull = Inr (board_metadata, board_plan)"
    using e x by (simp add: plan_evidence_def)
  have b: "bundle_ready (plan_bundle shop_passed shop_build 1 1) =
      Some (shop_row\<lparr>bu_status := BPassed, bu_storageRef := Some ''build/x'', bu_log := PassedLog shop_record\<rparr>, shop_record)"
    using shop_record_ok by (simp add: bundle_ready_def plan_bundle_def shop_passed_def del: passed_of.simps) (simp add: shop_row_def del: passed_of.simps)
  have rt: "plan_runtime board_plan = ''0.1.0''" "ev_parts (md_evidence board_metadata) = board_parts" "md_input_digest board_metadata = shop_hash"
    "mf_profile_id (fp_manifest shop_record) = nc_id DEVKITC_CANDIDATE" "pp_firmware_profile_id shop_profile = nc_id DEVKITC_CANDIDATE"
    "fp_job shop_record = Some (shop_job\<lparr>fj_attempts := 1\<rparr>)" "fj_interval_s (shop_job\<lparr>fj_attempts := 1\<rparr>) = 60" "fp_manifest_digest shop_record = shop_hash"
    by (simp_all add: board_plan_def board_metadata_def shop_hash_def shop_record_def shop_manifest_def compile_manifest_def shop_input_def
      shop_selection_def Let_def shop_profile_def shop_job_def)
  have fa: "firmware_authority board_codec [shop_profile] shop_passed shop_build 1 1 60 board_metadata board_plan =
   Inr \<lparr>au_channels = [(''illuminance'', channel_of \<lparr>ch_unit = ''lux'', ch_min = 0, ch_max = 65535\<rparr>)], au_capabilities = [], au_nextS = 60,
        au_firmware = shop_record, au_source = \<lparr>so_build_id = shop_build, so_plan_version = 1, so_code_version = 1,
          so_input_digest = shop_hash, so_part_versions = part_versions board_plan, so_assembly_profile = plan_profile board_plan,
          so_channel_profile = shop_profile, so_manifest_digest = shop_hash\<rparr>\<rparr>"
    unfolding firmware_authority_def b option.case prod.case rt(2,4) shop_resolved Let_def by (simp add: rt shop_verified)
  have row: "pr_acceptedAt (board_row\<lparr>pr_buildId := shop_build\<rparr>) \<noteq> None" "pr_specVersion (board_row\<lparr>pr_buildId := shop_build\<rparr>) = 1"
    by (simp_all add: board_row_def)
  show ?thesis
    unfolding loadProvisioningAuthority_def p option.case row(2) d i pe sum.case prod.case fa using o row(1) l by simp
qed

theorem authority_sound_witness:
  "\<exists>p \<in> set board_parts. telemetry_schema (cloud p) = Some ''climate.v1''"
proof -
  from authority_sound [OF shop_authority [of True]] obtain metadata :: BuildPlanMetadata and row where m:
    "row \<in> set (fg_plans shop_passed)" "metadata_of board_codec row = Some metadata"
    "\<forall>ch \<in> set (pp_channels shop_profile). \<exists>p \<in> set (ev_parts (md_evidence metadata)). pin p = pc_part ch \<and>
       telemetry_schema (cloud p) = Some (pc_telemetry_schema ch)" by auto
  then have "metadata = board_metadata" by (auto simp: shop_passed_def shop_db_def board_row_def metadata_of_def split: if_splits)
  with m(3) show ?thesis by (auto simp: shop_profile_def board_metadata_def)
qed


end
