(* ===== verification/Device_Credential.thy ===== *)
theory Device_Credential
  imports Workspace
begin
text \<open>
  The encrypted handoff of a device credential: \<open>apps/gateway/src/device-credential.ts\<close>. The cipher is a parameter: AES-256-GCM of
  \<open>node:crypto\<close> as a pair of functions on bytes. \<open>JSON.parse\<close> is the parameter \<open>json_parse\<close>. The texts that become bytes are of ASCII
  characters, whose code is their UTF-8.
\<close>

subsection \<open>Keys and bindings\<close>

record CredentialBinding =
  cn_deviceId :: string
  cn_tenantId :: string
  cn_buildId :: string
  cn_planVersion :: int
  cn_handoffVersion :: int

record SealedCredential =
  sl_keyId :: string
  sl_nonce :: string
  sl_ciphertext :: string
  sl_tag :: string

record HandoffKeys =
  hk_active :: string
  hk_keys :: "(string \<times> nat list) list"

definition b64_canonical :: "string \<Rightarrow> nat \<Rightarrow> bool" where
  "b64_canonical value n \<longleftrightarrow>
     rx_full (Plus (Cls token_char)) value \<and> length (from_base64url value) = n \<and> to_base64url (from_base64url value) = value"

definition bytes_of :: "string \<Rightarrow> nat list" where
  "bytes_of s = map of_char s"

definition text_of :: "nat list \<Rightarrow> string" where
  "text_of bs = map char_of bs"

text \<open>The additional data: the JSON text of an array, whose numbers and strings always have one.\<close>

definition aad :: "CredentialBinding \<Rightarrow> nat list" where
  "aad b = bytes_of (case json_stringify (JArr [JStr ''albusforge/device-handoff/v1'', JStr (cn_tenantId b), JStr (cn_buildId b),
       JNum (Fin (of_int (cn_planVersion b))), JStr (cn_deviceId b), JNum (Fin (of_int (cn_handoffVersion b)))]) of None \<Rightarrow> [] | Some t \<Rightarrow> t)"

definition key_id_char :: "char \<Rightarrow> bool" where
  "key_id_char c \<longleftrightarrow> lower c \<or> upper c \<or> digit c \<or> c = CHR ''_'' \<or> c = CHR ''-''"

definition KEY_ID :: rx where
  "KEY_ID = Seq (Cls key_id_char) (UpTo 39 (Cls key_id_char))"

fun handoff_key :: "string \<times> jvalue \<Rightarrow> (string \<times> nat list) option" where
  "handoff_key (i, JStr value) = (if rx_full KEY_ID i \<and> b64_canonical value 32 then Some (i, from_base64url value) else None)"
| "handoff_key _ = None"

fun handoff_keys :: "(string \<times> jvalue) list \<Rightarrow> (string \<times> nat list) list option" where
  "handoff_keys [] = Some []"
| "handoff_keys (e # es) = (case (handoff_key e, handoff_keys es) of (Some k, Some ks) \<Rightarrow> Some (k # ks) | _ \<Rightarrow> None)"

text \<open>The en dash of the message is written as a hyphen.\<close>

definition invalid_keys :: js_error where
  "invalid_keys = Thrown ''Invalid DEVICE_HANDOFF_KEYS; expected an active key ID and 1-4 canonical 256-bit keys''"

definition key_ring :: "jvalue \<Rightarrow> HandoffKeys option" where
  "key_ring parsed =
     (case parsed of
        JObj kvs \<Rightarrow>
          (if js_join '','' (js_sort compare_lt (map fst kvs)) \<noteq> ''active,keys'' then None
           else (case (map_of kvs ''active'', map_of kvs ''keys'') of
              (Some (JStr active), Some (JObj entries)) \<Rightarrow>
                (if \<not> rx_full KEY_ID active \<or> entries = [] \<or> length entries > 4 then None
                 else (case handoff_keys entries of
                    None \<Rightarrow> None
                  | Some ks \<Rightarrow> if map_of ks active = None then None else Some \<lparr>hk_active = active, hk_keys = ks\<rparr>))
            | _ \<Rightarrow> None))
      | _ \<Rightarrow> None)"

definition parseHandoffKeys :: "(string \<Rightarrow> jvalue option) \<Rightarrow> string option \<Rightarrow> js_error + HandoffKeys option" where
  "parseHandoffKeys json_parse input =
     (case input of
        None \<Rightarrow> Inr None
      | Some s \<Rightarrow>
          if s = [] then Inr None
          else (case json_parse s of
                  None \<Rightarrow> Inl invalid_keys
                | Some parsed \<Rightarrow> (case key_ring parsed of None \<Rightarrow> Inl invalid_keys | Some ring \<Rightarrow> Inr (Some ring))))"

subsection \<open>Sealing and opening\<close>

text \<open>\<open>gcm_seal key nonce aad plain\<close> is the ciphertext with its tag; \<open>gcm_open\<close> is \<open>None\<close> when \<open>final\<close> throws.\<close>

record Aead =
  gcm_seal :: "nat list \<Rightarrow> nat list \<Rightarrow> nat list \<Rightarrow> nat list \<Rightarrow> nat list \<times> nat list"
  gcm_open :: "nat list \<Rightarrow> nat list \<Rightarrow> nat list \<Rightarrow> nat list \<Rightarrow> nat list \<Rightarrow> nat list option"

text \<open>\<open>nonce\<close> is what \<open>randomBytes(12)\<close> returned.\<close>

definition sealCredential :: "Aead \<Rightarrow> nat list \<Rightarrow> string \<Rightarrow> CredentialBinding \<Rightarrow> HandoffKeys \<Rightarrow> js_error + SealedCredential" where
  "sealCredential ae nonce token binding ring =
     (case map_of (hk_keys ring) (hk_active ring) of
        None \<Rightarrow> Inl (Thrown ''Device handoff encryption unavailable'')
      | Some key \<Rightarrow>
          if \<not> b64_canonical token 32 then Inl (Thrown ''Device handoff encryption unavailable'')
          else (let (ciphertext, tag) = gcm_seal ae key nonce (aad binding) (bytes_of token)
                in Inr \<lparr>sl_keyId = hk_active ring, sl_nonce = to_base64url nonce, sl_ciphertext = to_base64url ciphertext,
                        sl_tag = to_base64url tag\<rparr>))"

definition cannot_open :: js_error where
  "cannot_open = Thrown ''Device handoff cannot be decrypted''"

definition openCredential :: "Aead \<Rightarrow> SealedCredential \<Rightarrow> CredentialBinding \<Rightarrow> HandoffKeys \<Rightarrow> js_error + string" where
  "openCredential ae sealed binding ring =
     (case map_of (hk_keys ring) (sl_keyId sealed) of
        None \<Rightarrow> Inl cannot_open
      | Some key \<Rightarrow>
          if \<not> b64_canonical (sl_nonce sealed) 12 \<or> \<not> b64_canonical (sl_tag sealed) 16 \<or> \<not> b64_canonical (sl_ciphertext sealed) 43
          then Inl cannot_open
          else (case gcm_open ae key (from_base64url (sl_nonce sealed)) (aad binding) (from_base64url (sl_ciphertext sealed))
                       (from_base64url (sl_tag sealed)) of
             None \<Rightarrow> Inl cannot_open
           | Some plain \<Rightarrow> if b64_canonical (text_of plain) 32 then Inr (text_of plain) else Inl cannot_open))"

subsection \<open>Base64url of bytes\<close>

definition bytes_ok :: "nat list \<Rightarrow> bool" where
  "bytes_ok bs \<longleftrightarrow> list_all (\<lambda>b. b < 256) bs"

lemma token_char_digit: "v < 64 \<Longrightarrow> token_char (b64_digit v)"
  unfolding token_char_code by (auto simp: b64_digit_code Let_def)

lemma byte_split:
  fixes x y z :: nat
  assumes "x < 256" "y < 256" "z < 256"
  shows "x div 4 < 64" "x mod 4 * 16 + y div 16 < 64" "y mod 16 * 4 + z div 64 < 64" "z mod 64 < 64" "x mod 4 * 16 < 64" "y mod 16 * 4 < 64"
    and "x div 4 * 4 + (x mod 4 * 16 + y div 16) div 16 = x" "(x mod 4 * 16 + y div 16) mod 16 * 16 + (y mod 16 * 4 + z div 64) div 4 = y"
    "(y mod 16 * 4 + z div 64) mod 4 * 64 + z mod 64 = z" "x div 4 * 4 + (x mod 4 * 16) div 16 = x"
    "(x mod 4 * 16 + y div 16) mod 16 * 16 + (y mod 16 * 4) div 4 = y"
proof -
  have q: "y div 16 < 16" "z div 64 < 4" using assms by auto
  show "x div 4 < 64" "z mod 64 < 64" using assms by auto
  have m: "x mod 4 < 4" "y mod 16 < 16" by auto
  show "x mod 4 * 16 + y div 16 < 64" "y mod 16 * 4 + z div 64 < 64" "x mod 4 * 16 < 64" "y mod 16 * 4 < 64" using q m by linarith+
  have a: "(x mod 4 * 16 + y div 16) div 16 = x mod 4" "(x mod 4 * 16 + y div 16) mod 16 = y div 16"
      "(y mod 16 * 4 + z div 64) div 4 = y mod 16" "(y mod 16 * 4 + z div 64) mod 4 = z div 64"
    using q by simp_all
  show "x div 4 * 4 + (x mod 4 * 16 + y div 16) div 16 = x" "(x mod 4 * 16 + y div 16) mod 16 * 16 + (y mod 16 * 4 + z div 64) div 4 = y"
    "(y mod 16 * 4 + z div 64) mod 4 * 64 + z mod 64 = z" "(x mod 4 * 16 + y div 16) mod 16 * 16 + (y mod 16 * 4) div 4 = y"
    unfolding a by simp_all
  show "x div 4 * 4 + (x mod 4 * 16) div 16 = x" by simp
qed

lemma base64url_round: "bytes_ok bs \<Longrightarrow> from_base64url (to_base64url bs) = bs"
proof (induction bs rule: to_base64url.induct)
  case (1 x y z r)
  then have x: "x < 256" "y < 256" "z < 256" and r: "from_base64url (to_base64url r) = r" by (auto simp: bytes_ok_def)
  note sp = byte_split [OF x]
  show ?case by (simp only: to_base64url.simps from_base64url.simps sp(1-6) [THEN b64_value_digit] sp(7-) r)
next
  case (2 x y)
  then have x: "x < 256" "y < 256" by (auto simp: bytes_ok_def)
  note sp = byte_split [OF x, of 0]
  show ?case by (simp only: to_base64url.simps from_base64url.simps sp(1-6) [THEN b64_value_digit] sp(7-))
next
  case (3 x)
  then have x: "x < 256" by (auto simp: bytes_ok_def)
  note sp = byte_split [OF x x x]
  show ?case by (simp only: to_base64url.simps from_base64url.simps sp(1-6) [THEN b64_value_digit] sp(7-))
qed simp

lemma base64url_chars: "bytes_ok bs \<Longrightarrow> list_all token_char (to_base64url bs)"
proof (induction bs rule: to_base64url.induct)
  case (1 x y z r)
  then have x: "x < 256" "y < 256" "z < 256" and r: "list_all token_char (to_base64url r)" by (auto simp: bytes_ok_def)
  show ?case by (simp only: to_base64url.simps list.pred_inject byte_split(1-6) [OF x, THEN token_char_digit] r simp_thms)
next
  case (2 x y)
  then have x: "x < 256" "y < 256" by (auto simp: bytes_ok_def)
  show ?case by (simp only: to_base64url.simps list.pred_inject byte_split(1-6) [OF x x(1), THEN token_char_digit] byte_split(6) [OF x x(1), THEN token_char_digit] simp_thms)
next
  case (3 x)
  then have x: "x < 256" by (auto simp: bytes_ok_def)
  show ?case by (simp only: to_base64url.simps list.pred_inject byte_split(1-6) [OF x x x, THEN token_char_digit] simp_thms)
qed simp

lemma base64url_nonempty: "bs \<noteq> [] \<Longrightarrow> to_base64url bs \<noteq> []"
  by (cases bs rule: to_base64url.cases) auto

lemma length_to_base64url: "length (to_base64url bs) = (4 * length bs + 2) div 3"
  by (induction bs rule: to_base64url.induct) auto

lemma from_base64url_ok: "bytes_ok (from_base64url s)"
proof (induction s rule: from_base64url.induct)
  case (1 a b c d r)
  have "b64_value a * 4 + b64_value b div 16 < 256" "b64_value b mod 16 * 16 + b64_value c div 4 < 256" "b64_value c mod 4 * 64 + b64_value d < 256"
    using b64_value_less [of a] b64_value_less [of b] b64_value_less [of c] b64_value_less [of d] by auto
  with 1 show ?case by (simp add: bytes_ok_def)
next
  case (2 a b c)
  have "b64_value a * 4 + b64_value b div 16 < 256" "b64_value b mod 16 * 16 + b64_value c div 4 < 256"
    using b64_value_less [of a] b64_value_less [of b] b64_value_less [of c] by auto
  then show ?case by (simp add: bytes_ok_def)
next
  case (3 a b)
  have "b64_value a * 4 + b64_value b div 16 < 256"
    using b64_value_less [of a] b64_value_less [of b] by auto
  then show ?case by (simp add: bytes_ok_def)
qed (simp_all add: bytes_ok_def)

lemma plain_token: "rx_full (Plus (Cls token_char)) s \<longleftrightarrow> s \<noteq> [] \<and> list_all token_char s"
proof -
  have "rx_full (Plus (Cls token_char)) s \<longleftrightarrow> s \<in> lang (Plus (Cls token_char))" by (rule rx_full_lang) (simp add: Plus_def)
  then show ?thesis by simp
qed

text \<open>The canonical texts of a length are the texts of that many bytes.\<close>

lemma b64_canonical_iff:
  assumes "0 < n"
  shows "b64_canonical s n \<longleftrightarrow> (\<exists>bs. bytes_ok bs \<and> length bs = n \<and> s = to_base64url bs)"
proof
  assume "b64_canonical s n"
  then have "bytes_ok (from_base64url s) \<and> length (from_base64url s) = n \<and> s = to_base64url (from_base64url s)"
    using from_base64url_ok [of s] by (simp add: b64_canonical_def)
  then show "\<exists>bs. bytes_ok bs \<and> length bs = n \<and> s = to_base64url bs" by blast
next
  assume "\<exists>bs. bytes_ok bs \<and> length bs = n \<and> s = to_base64url bs"
  then obtain bs where "bytes_ok bs" "length bs = n" "s = to_base64url bs" by blast
  with assms show "b64_canonical s n"
    by (auto simp: b64_canonical_def plain_token base64url_round base64url_chars dest: base64url_nonempty)
qed

lemma b64_canonical_length: "0 < n \<Longrightarrow> b64_canonical s n \<Longrightarrow> length s = (4 * n + 2) div 3"
  by (auto simp: b64_canonical_iff length_to_base64url)

lemma token_length: "b64_canonical t 32 \<Longrightarrow> length t = 43"
  by (drule b64_canonical_length [rotated]) simp_all

lemma text_bytes [simp]: "text_of (bytes_of s) = s"
  by (simp add: text_of_def bytes_of_def comp_def)

lemma bytes_text: "bytes_ok bs \<Longrightarrow> bytes_of (text_of bs) = bs"
  by (induction bs) (auto simp: text_of_def bytes_of_def bytes_ok_def of_char_of)

lemma bytes_of_ok [simp]: "bytes_ok (bytes_of s)"
  by (simp add: bytes_ok_def bytes_of_def list_all_iff)

lemma length_bytes_of [simp]: "length (bytes_of s) = length s"
  by (simp add: bytes_of_def)

subsection \<open>What the cipher is relied on for\<close>

text \<open>
  Documented of AES-256-GCM with a 96-bit nonce and a 128-bit tag: the ciphertext is as long as the plain text, the tag has 16 bytes, and
  opening verifies the tag, so it gives back exactly a plain text that seals to the two.
\<close>

definition aead_ok :: "Aead \<Rightarrow> bool" where
  "aead_ok ae \<longleftrightarrow>
     (\<forall>key nonce a plain ciphertext tag. length key = 32 \<and> length nonce = 12 \<longrightarrow>
        (bytes_ok plain \<and> gcm_seal ae key nonce a plain = (ciphertext, tag) \<longrightarrow>
           bytes_ok ciphertext \<and> bytes_ok tag \<and> length ciphertext = length plain \<and> length tag = 16) \<and>
        (gcm_open ae key nonce a ciphertext tag = Some plain \<longleftrightarrow> bytes_ok plain \<and> gcm_seal ae key nonce a plain = (ciphertext, tag)))"

definition ring_ok :: "HandoffKeys \<Rightarrow> bool" where
  "ring_ok ring \<longleftrightarrow>
     map_of (hk_keys ring) (hk_active ring) \<noteq> None \<and> 1 \<le> length (hk_keys ring) \<and> length (hk_keys ring) \<le> 4 \<and>
     list_all (\<lambda>(i, key). length key = 32 \<and> bytes_ok key) (hk_keys ring)"

lemma handoff_keys_ok:
  "handoff_keys es = Some ks \<Longrightarrow> length ks = length es \<and> list_all (\<lambda>(i, key). length key = 32 \<and> bytes_ok key) ks"
proof (induction es arbitrary: ks)
  case (Cons e es)
  from Cons.prems obtain k r where k: "handoff_key e = Some k" "handoff_keys es = Some r" "ks = k # r" by (auto split: option.splits)
  from k(1) have "length (snd k) = 32 \<and> bytes_ok (snd k)"
    by (cases e rule: handoff_key.cases) (auto simp: b64_canonical_def from_base64url_ok split: if_splits)
  with Cons.IH [OF k(2)] k(3) show ?case by auto
qed simp

text \<open>The keys of the environment are usable: every one has 256 bits and the active one is among them.\<close>

lemma parsed_ring_ok: "parseHandoffKeys json_parse input = Inr (Some ring) \<Longrightarrow> ring_ok ring"
proof -
  assume "parseHandoffKeys json_parse input = Inr (Some ring)"
  then obtain parsed where "key_ring parsed = Some ring" by (auto simp: parseHandoffKeys_def split: option.splits if_splits)
  then obtain entries ks active where "handoff_keys entries = Some ks" "entries \<noteq> []" "length entries \<le> 4" "map_of ks active \<noteq> None"
      "ring = \<lparr>hk_active = active, hk_keys = ks\<rparr>"
    by (auto simp: key_ring_def split: jvalue.splits if_splits option.splits)
  with handoff_keys_ok [of entries ks] show ?thesis by (cases entries) (auto simp: ring_ok_def)
qed

lemma ring_key: "ring_ok ring \<Longrightarrow> map_of (hk_keys ring) i = Some key \<Longrightarrow> length key = 32"
  by (auto simp: ring_ok_def list_all_iff dest!: map_of_SomeD)

lemma open_iff_sealed_lemma:
  assumes "aead_ok ae" and "ring_ok ring"
  shows "openCredential ae sealed binding ring = Inr token \<longleftrightarrow>
    (\<exists>nonce. length nonce = 12 \<and> bytes_ok nonce \<and>
       sealCredential ae nonce token binding (ring\<lparr>hk_active := sl_keyId sealed\<rparr>) = Inr sealed)"
proof
  assume "openCredential ae sealed binding ring = Inr token"
  then obtain key plain where key: "map_of (hk_keys ring) (sl_keyId sealed) = Some key"
      and can: "b64_canonical (sl_nonce sealed) 12" "b64_canonical (sl_tag sealed) 16" "b64_canonical (sl_ciphertext sealed) 43"
      and plain: "gcm_open ae key (from_base64url (sl_nonce sealed)) (aad binding) (from_base64url (sl_ciphertext sealed))
                    (from_base64url (sl_tag sealed)) = Some plain"
      and token: "b64_canonical (text_of plain) 32" "token = text_of plain"
    by (auto simp: openCredential_def split: option.splits if_splits)
  have nonce: "length (from_base64url (sl_nonce sealed)) = 12" using can(1) by (simp add: b64_canonical_def)
  from assms(1) ring_key [OF assms(2) key] nonce plain
  have p: "bytes_ok plain" "gcm_seal ae key (from_base64url (sl_nonce sealed)) (aad binding) plain =
      (from_base64url (sl_ciphertext sealed), from_base64url (sl_tag sealed))"
    unfolding aead_ok_def by blast+
  have "sealCredential ae (from_base64url (sl_nonce sealed)) token binding (ring\<lparr>hk_active := sl_keyId sealed\<rparr>) = Inr sealed"
    using can token p by (simp add: sealCredential_def key bytes_text) (simp add: b64_canonical_def)
  with nonce from_base64url_ok show "\<exists>nonce. length nonce = 12 \<and> bytes_ok nonce \<and>
      sealCredential ae nonce token binding (ring\<lparr>hk_active := sl_keyId sealed\<rparr>) = Inr sealed" by blast
next
  assume "\<exists>nonce. length nonce = 12 \<and> bytes_ok nonce \<and>
      sealCredential ae nonce token binding (ring\<lparr>hk_active := sl_keyId sealed\<rparr>) = Inr sealed"
  then obtain nonce where nonce: "length nonce = 12" "bytes_ok nonce"
      and s: "sealCredential ae nonce token binding (ring\<lparr>hk_active := sl_keyId sealed\<rparr>) = Inr sealed" by blast
  from s obtain key ciphertext tag where key: "map_of (hk_keys ring) (sl_keyId sealed) = Some key" and token: "b64_canonical token 32"
      and g: "gcm_seal ae key nonce (aad binding) (bytes_of token) = (ciphertext, tag)"
      and sealed: "sl_nonce sealed = to_base64url nonce" "sl_ciphertext sealed = to_base64url ciphertext" "sl_tag sealed = to_base64url tag"
    by (cases sealed) (auto simp: sealCredential_def split: option.splits if_splits prod.splits)
  have law: "(bytes_ok (bytes_of token) \<and> gcm_seal ae key nonce (aad binding) (bytes_of token) = (ciphertext, tag) \<longrightarrow>
         bytes_ok ciphertext \<and> bytes_ok tag \<and> length ciphertext = length (bytes_of token) \<and> length tag = 16) \<and>
      (gcm_open ae key nonce (aad binding) ciphertext tag = Some (bytes_of token) \<longleftrightarrow>
         bytes_ok (bytes_of token) \<and> gcm_seal ae key nonce (aad binding) (bytes_of token) = (ciphertext, tag))"
    using assms(1) ring_key [OF assms(2) key] nonce(1) unfolding aead_ok_def by blast
  have c: "bytes_ok ciphertext" "bytes_ok tag" "length ciphertext = 43" "length tag = 16"
      and o: "gcm_open ae key nonce (aad binding) ciphertext tag = Some (bytes_of token)"
    using law g token_length [OF token] by simp_all
  have "b64_canonical (sl_nonce sealed) 12" "b64_canonical (sl_tag sealed) 16" "b64_canonical (sl_ciphertext sealed) 43"
    unfolding sealed using nonce c by (auto simp: b64_canonical_iff)
  then show "openCredential ae sealed binding ring = Inr token"
    using key o token nonce c by (simp add: openCredential_def sealed base64url_round)
qed


text \<open>A cipher with these laws, for evaluation: the tag is the key's first half.\<close>

definition plain_aead :: Aead where
  "plain_aead =
     \<lparr>gcm_seal = (\<lambda>key nonce a p. (p, map (\<lambda>b. b mod 256) (take 16 key))),
      gcm_open = (\<lambda>key nonce a c t. if bytes_ok c \<and> t = map (\<lambda>b. b mod 256) (take 16 key) then Some c else None)\<rparr>"

lemma plain_aead_ok: "aead_ok plain_aead"
  by (auto simp: aead_ok_def plain_aead_def bytes_ok_def list_all_iff)

definition desk_ring :: HandoffKeys where
  "desk_ring = \<lparr>hk_active = ''k1'', hk_keys = [(''k0'', replicate 32 7), (''k1'', replicate 32 9)]\<rparr>"

lemma desk_ring_ok: "ring_ok desk_ring"
  by (simp add: ring_ok_def desk_ring_def bytes_ok_def list_all_iff)

definition desk_binding :: CredentialBinding where
  "desk_binding = \<lparr>cn_deviceId = ''d'', cn_tenantId = ''t'', cn_buildId = ''b'', cn_planVersion = 1, cn_handoffVersion = 1\<rparr>"

lemma desk_token_canonical: "b64_canonical (to_base64url (replicate 32 5)) 32"
  by (subst b64_canonical_iff) (auto simp: bytes_ok_def list_all_iff intro!: exI [of _ "replicate 32 5"])



end
