(* ===== verification/Device_Provisioning.thy ===== *)
theory Device_Provisioning
  imports Provisioning Device_Credential
begin
text \<open>
  Devices and their credentials: \<open>apps/gateway/src/device-provisioning-store.ts\<close> over the tables \<open>telemetry.devices\<close>,
  \<open>device_capabilities\<close> and \<open>device_provisionings\<close>, and its routes (\<open>device-provisioning-routes.ts\<close>). A device is claimed for an accepted
  plan with passed firmware; its secret configuration waits encrypted for one download by the person and sign-in that asked for it, can
  be replaced, and the credential can be revoked. A request is one transaction under row locks, given the times of its statements in
  milliseconds and the random values it draws.
\<close>

subsection \<open>Tables\<close>

text \<open>The display name of a device and its version are left out. A \<open>source\<close> of another kind than \<open>self_flash\<close> is \<open>None\<close>.\<close>

record DeviceRow =
  dv_id :: string
  dv_tenantId :: string
  dv_tokenHash :: string
  dv_revokedAt :: "int option"
  dv_channels :: Channels
  dv_source :: "ProvisioningSource option"
  dv_nextS :: int
  dv_lastSeenAt :: "int option"
  dv_lastSeq :: "int option"
  dv_status :: "EnvelopeStatus option"
  dv_createdAt :: int

record CapabilityRow =
  cp_deviceId :: string
  cp_capability :: SensorCapability

text \<open>The four sealed columns are null together, by a check of the table.\<close>

record ProvisioningRow =
  pv_deviceId :: string
  pv_tenantId :: string
  pv_buildId :: string
  pv_planVersion :: int
  pv_codeVersion :: int
  pv_claimRequestId :: string
  pv_createdBy :: "string option"
  pv_createdAt :: int
  pv_manifestDigest :: string
  pv_ingestUrl :: string
  pv_credentialVersion :: int
  pv_seqStart :: int
  pv_handoffUserId :: "string option"
  pv_handoffSessionRoot :: "string option"
  pv_handoffExpiresAt :: int
  pv_handoffConsumedAt :: "int option"
  pv_sealed :: "SealedCredential option"
  pv_reissueRequestId :: "string option"
  pv_reissueFromVersion :: "int option"

record DeviceDb =
  dd_forge :: ForgeDb
  dd_devices :: "DeviceRow list"
  dd_capabilities :: "CapabilityRow list"
  dd_provisionings :: "ProvisioningRow list"

definition set_device :: "string \<Rightarrow> (DeviceRow \<Rightarrow> DeviceRow) \<Rightarrow> DeviceDb \<Rightarrow> DeviceDb" where
  "set_device d f db = db\<lparr>dd_devices := map (\<lambda>r. if dv_id r = d then f r else r) (dd_devices db)\<rparr>"

definition set_provisioning :: "string \<Rightarrow> (ProvisioningRow \<Rightarrow> ProvisioningRow) \<Rightarrow> DeviceDb \<Rightarrow> DeviceDb" where
  "set_provisioning d f db = db\<lparr>dd_provisionings := map (\<lambda>r. if pv_deviceId r = d then f r else r) (dd_provisionings db)\<rparr>"

subsection \<open>What the operations are given\<close>

record Platform =
  pf_codec :: Codec
  pf_aead :: Aead
  pf_url :: "string \<Rightarrow> bool"

record DeviceProvisioningOptions =
  op_keys :: "HandoffKeys option"
  op_ingestUrl :: "string option"
  op_profiles :: "ProvisioningProfile list"

text \<open>The times of a transaction's statements, in their order, and the random values.\<close>

record Ticks =
  tk_begin :: int
  tk_admit :: int
  tk_roots :: int
  tk_read :: int
  tk_check :: int
  tk_recheck :: int
  tk_write :: int
  tk_again :: int
  tk_end :: int

record Fresh =
  fr_deviceId :: string
  fr_token :: "nat list"
  fr_nonce :: "nat list"

definition HANDOFF_MS :: int where
  "HANDOFF_MS = 10 * 60000"

definition configured :: "DeviceProvisioningOptions \<Rightarrow> HttpError + (HandoffKeys \<times> string)" where
  "configured o' =
     (case (op_keys o', op_ingestUrl o') of
        (Some keys, Some url) \<Rightarrow> if url = [] then Inl (http_error 503 ''PROVISIONING_UNAVAILABLE'') else Inr (keys, url)
      | _ \<Rightarrow> Inl (http_error 503 ''PROVISIONING_UNAVAILABLE''))"

definition config_changed :: HttpError where
  "config_changed = http_error 409 ''CONFIGURATION_CHANGED''"

definition handoff_gone :: HttpError where
  "handoff_gone = http_error 410 ''HANDOFF_UNAVAILABLE''"

definition device_revoked :: HttpError where
  "device_revoked = http_error 409 ''DEVICE_REVOKED''"

definition row_binding :: "ProvisioningRow \<Rightarrow> string \<Rightarrow> CredentialBinding" where
  "row_binding r tenant =
     \<lparr>cn_deviceId = pv_deviceId r, cn_tenantId = tenant, cn_buildId = pv_buildId r, cn_planVersion = pv_planVersion r,
      cn_handoffVersion = pv_credentialVersion r\<rparr>"

subsection \<open>The public status\<close>

text \<open>\<open>DeviceProvisioning.parse\<close>; the two times are texts of \<open>toISOString\<close>, which have the date-time format.\<close>

definition DeviceProvisioning_ok :: "DeviceProvisioning \<Rightarrow> bool" where
  "DeviceProvisioning_ok p \<longleftrightarrow>
     rx_full z_uuid (dp_device_id p) \<and> rx_full z_uuid (dp_build_id p) \<and> z_posint (dp_plan_version p) \<and> z_posint (dp_code_version p) \<and>
     z_posint (dp_credential_version p)"

definition provisioning_state :: "ProvisioningRow \<Rightarrow> DeviceRow \<Rightarrow> int \<Rightarrow> ProvisioningState" where
  "provisioning_state r d now =
     (if dv_revokedAt d \<noteq> None then Credential_revoked
      else if pv_handoffConsumedAt r \<noteq> None then Configuration_downloaded
      else if pv_handoffExpiresAt r \<le> now then Configuration_expired else Configuration_ready)"

definition provisioning_status :: "ProvisioningRow \<times> DeviceRow \<Rightarrow> int \<Rightarrow> string \<Rightarrow> string \<Rightarrow> bool \<Rightarrow> HttpError + DeviceProvisioning" where
  "provisioning_status rd now user apex mayDownload =
     (let r = fst rd; d = snd rd;
          p = \<lparr>dp_device_id = pv_deviceId r, dp_build_id = pv_buildId r, dp_plan_version = pv_planVersion r, dp_code_version = pv_codeVersion r,
               dp_credential_version = pv_credentialVersion r, dp_state = provisioning_state r d now,
               dp_handoff_expires_at = toISOString (pv_handoffExpiresAt r),
               dp_handoff_available = (dv_revokedAt d = None \<and> pv_handoffConsumedAt r = None \<and> pv_handoffExpiresAt r > now \<and> pv_sealed r \<noteq> None \<and>
                 pv_handoffUserId r = Some user \<and> pv_handoffSessionRoot r = Some apex \<and> mayDownload),
               dp_created_at = toISOString (pv_createdAt r)\<rparr>
      in if DeviceProvisioning_ok p then Inr p else Inl internal_error)"

definition session_status :: "ProvisioningRow \<times> DeviceRow \<Rightarrow> int \<Rightarrow> ProvisioningSession \<Rightarrow> HttpError + DeviceProvisioning" where
  "session_status rd now s = provisioning_status rd now (sn_userId s) (sn_rootSessionId s) True"

text \<open>The rows of a device, each lock a check that its row exists in the tenant.\<close>

definition device_pair :: "DeviceDb \<Rightarrow> string \<Rightarrow> string \<Rightarrow> (ProvisioningRow \<times> DeviceRow) option" where
  "device_pair db tenant d =
     (case (List.find (\<lambda>r. pv_tenantId r = tenant \<and> pv_deviceId r = d) (dd_provisionings db),
            List.find (\<lambda>r. dv_id r = d \<and> dv_tenantId r = tenant) (dd_devices db)) of
        (Some r, Some dev) \<Rightarrow> Some (r, dev)
      | _ \<Rightarrow> None)"

definition locked_device :: "DeviceDb \<Rightarrow> string \<Rightarrow> string \<Rightarrow> HttpError + (ProvisioningRow \<times> DeviceRow)" where
  "locked_device db tenant d =
     (case device_pair db tenant d of
        None \<Rightarrow> Inl notFound
      | Some (r, dev) \<Rightarrow> if owned (dd_forge db) (pv_buildId r) tenant then Inr (r, dev) else Inl notFound)"

definition device_status :: "DeviceDb \<Rightarrow> string \<Rightarrow> int \<Rightarrow> ProvisioningSession \<Rightarrow> HttpError + DeviceProvisioning" where
  "device_status db d now s =
     (case locked_device db (sn_tenantId s) d of Inl e \<Rightarrow> Inl e | Inr rd \<Rightarrow> session_status rd now s)"

subsection \<open>Reading\<close>

definition getProvisioning ::
    "(string \<Rightarrow> string) \<Rightarrow> string option \<Rightarrow> string \<Rightarrow> int \<Rightarrow> string \<Rightarrow> DeviceDb \<Rightarrow> HttpError + DeviceProvisioning" where
  "getProvisioning sha256 cookie host now d db =
     withAuthorizedRead sha256 cookie host now (fg_auth (dd_forge db))
       (\<lambda>who. case device_pair db (ri_tenantId who) d of
          None \<Rightarrow> Inl notFound
        | Some rd \<Rightarrow>
            (let apex = (case sessionTokenHash sha256 cookie of
                           Inl _ \<Rightarrow> []
                         | Inr h \<Rightarrow> (case family_roots (ancestry h (fg_auth (dd_forge db))) of [x] \<Rightarrow> x | _ \<Rightarrow> []))
             in provisioning_status rd now (ri_userId who) apex (ri_role who \<in> {Admin, Operator})))"

subsection \<open>Claiming\<close>

definition new_device :: "string \<Rightarrow> Ticks \<Rightarrow> Fresh \<Rightarrow> string \<Rightarrow> Authority \<Rightarrow> DeviceRow" where
  "new_device tenant tk fr hash a =
     \<lparr>dv_id = fr_deviceId fr, dv_tenantId = tenant, dv_tokenHash = hash, dv_revokedAt = None, dv_channels = au_channels a,
      dv_source = Some (au_source a), dv_nextS = au_nextS a, dv_lastSeenAt = None, dv_lastSeq = None, dv_status = None, dv_createdAt = tk_begin tk\<rparr>"

definition new_provisioning ::
    "ProvisioningSession \<Rightarrow> Ticks \<Rightarrow> Fresh \<Rightarrow> DeviceClaimRequest \<Rightarrow> Authority \<Rightarrow> string \<Rightarrow> SealedCredential \<Rightarrow> ProvisioningRow" where
  "new_provisioning s tk fr body a url sealed =
     \<lparr>pv_deviceId = fr_deviceId fr, pv_tenantId = sn_tenantId s, pv_buildId = dc_build_id body, pv_planVersion = dc_plan_version body,
      pv_codeVersion = dc_code_version body, pv_claimRequestId = dc_request_id body, pv_createdBy = Some (sn_userId s), pv_createdAt = tk_begin tk,
      pv_manifestDigest = fp_manifest_digest (au_firmware a), pv_ingestUrl = url, pv_credentialVersion = 1, pv_seqStart = 0,
      pv_handoffUserId = Some (sn_userId s), pv_handoffSessionRoot = Some (sn_rootSessionId s), pv_handoffExpiresAt = tk_write tk + HANDOFF_MS,
      pv_handoffConsumedAt = None, pv_sealed = Some sealed, pv_reissueRequestId = None, pv_reissueFromVersion = None\<rparr>"

text \<open>The inserts, refused by a primary key or unique constraint.\<close>

definition insert_device :: "DeviceRow \<Rightarrow> ProvisioningRow \<Rightarrow> SensorCapability list \<Rightarrow> DeviceDb \<Rightarrow> DeviceDb option" where
  "insert_device dev r caps db =
     (if list_ex (\<lambda>x. dv_id x = dv_id dev \<or> dv_tokenHash x = dv_tokenHash dev) (dd_devices db) \<or>
         list_ex (\<lambda>x. pv_deviceId x = pv_deviceId r \<or> (pv_buildId x = pv_buildId r \<and> pv_planVersion x = pv_planVersion r) \<or>
           (pv_tenantId x = pv_tenantId r \<and> pv_claimRequestId x = pv_claimRequestId r)) (dd_provisionings db)
      then None
      else Some (db\<lparr>dd_devices := dd_devices db @ [dev], dd_provisionings := dd_provisionings db @ [r],
             dd_capabilities := dd_capabilities db @ map (\<lambda>c. \<lparr>cp_deviceId = dv_id dev, cp_capability = c\<rparr>) caps\<rparr>))"

definition claim_fresh ::
    "Platform \<Rightarrow> DeviceProvisioningOptions \<Rightarrow> Ticks \<Rightarrow> Fresh \<Rightarrow> DeviceClaimRequest \<Rightarrow> ProvisioningSession \<Rightarrow> DeviceDb \<Rightarrow>
     (HttpError + DeviceProvisioning) \<times> DeviceDb" where
  "claim_fresh pf o' tk fr body s db =
     (case loadProvisioningAuthority (pf_codec pf) (dd_forge db) (sn_tenantId s) (dc_build_id body) (dc_plan_version body) (dc_code_version body)
             (op_profiles o') True of
        Inl e \<Rightarrow> (Inl e, db)
      | Inr a \<Rightarrow>
     (case configured o' of
        Inl e \<Rightarrow> (Inl e, db)
      | Inr (keys, url) \<Rightarrow>
     (let token = to_base64url (fr_token fr) in
      case sealCredential (pf_aead pf) (fr_nonce fr) token
             \<lparr>cn_deviceId = fr_deviceId fr, cn_tenantId = sn_tenantId s, cn_buildId = dc_build_id body, cn_planVersion = dc_plan_version body,
              cn_handoffVersion = 1\<rparr> keys of
        Inl _ \<Rightarrow> (Inl internal_error, db)
      | Inr sealed \<Rightarrow>
          if \<not> checkExpiry s (tk_check tk) then (Inl unauthorized, db)
          else (case insert_device (new_device (sn_tenantId s) tk fr (cx_sha256 (pf_codec pf) token) a) (new_provisioning s tk fr body a url sealed)
                       (au_capabilities a) db of
             None \<Rightarrow> (Inl internal_error, db)
           | Some db' \<Rightarrow> (device_status db' (fr_deviceId fr) (tk_again tk) s, db')))))"

definition claimDevice ::
    "Platform \<Rightarrow> DeviceProvisioningOptions \<Rightarrow> Ticks \<Rightarrow> Fresh \<Rightarrow> DeviceClaimRequest \<Rightarrow> ProvisioningSession \<Rightarrow> DeviceDb \<Rightarrow>
     (HttpError + DeviceProvisioning) \<times> DeviceDb" where
  "claimDevice pf o' tk fr body s db =
     (if \<not> owned (dd_forge db) (dc_build_id body) (sn_tenantId s) then (Inl notFound, db)
      else if (case List.find (\<lambda>r. pv_tenantId r = sn_tenantId s \<and> pv_claimRequestId r = dc_request_id body) (dd_provisionings db) of
                 None \<Rightarrow> False
               | Some r \<Rightarrow> pv_buildId r \<noteq> dc_build_id body \<or> pv_planVersion r \<noteq> dc_plan_version body \<or> pv_codeVersion r \<noteq> dc_code_version body)
      then (Inl config_changed, db)
      else case List.find (\<lambda>r. pv_tenantId r = sn_tenantId s \<and> pv_buildId r = dc_build_id body \<and> pv_planVersion r = dc_plan_version body)
                  (dd_provisionings db) of
        Some existing \<Rightarrow>
          (case locked_device db (sn_tenantId s) (pv_deviceId existing) of
             Inl e \<Rightarrow> (Inl e, db)
           | Inr rd \<Rightarrow>
               if pv_codeVersion (fst rd) \<noteq> dc_code_version body then (Inl config_changed, db)
               else if \<not> checkExpiry s (tk_check tk) then (Inl unauthorized, db)
               else (session_status rd (tk_read tk) s, db))
      | None \<Rightarrow> claim_fresh pf o' tk fr body s db)"

subsection \<open>Downloading\<close>

definition device_config :: "string \<Rightarrow> string \<Rightarrow> ProvisioningRow \<Rightarrow> Authority \<Rightarrow> DeviceConfig" where
  "device_config d token r a =
     (let m = fp_manifest (au_firmware a); caps = au_capabilities a in
      \<lparr>cf_v = (if caps \<noteq> [] then 2 else 1), cf_device_id = d, cf_token = token, cf_ingest_url = pv_ingestUrl r, cf_seq_start = pv_seqStart r,
       cf_profile_id = mf_profile_id m, cf_runtime = mf_runtime m, cf_channels = au_channels a, cf_build_id = pv_buildId r,
       cf_plan_version = pv_planVersion r, cf_code_version = pv_codeVersion r, cf_manifest_digest = pv_manifestDigest r,
       cf_capabilities = (if caps \<noteq> [] then Some caps else None),
       cf_observation_url = (if caps \<noteq> [] then Some (observation_url_of (pv_ingestUrl r) d) else None)\<rparr>)"

text \<open>The stored secret, or that it is gone: \<open>configured()\<close> may throw inside the \<open>try\<close> as well.\<close>

definition stored_token :: "Platform \<Rightarrow> DeviceProvisioningOptions \<Rightarrow> string \<Rightarrow> ProvisioningRow \<times> DeviceRow \<Rightarrow> string option" where
  "stored_token pf o' tenant rd =
     (case (pv_sealed (fst rd), configured o') of
        (Some sealed, Inr (keys, _)) \<Rightarrow>
          (case openCredential (pf_aead pf) sealed (row_binding (fst rd) tenant) keys of
             Inl _ \<Rightarrow> None
           | Inr token \<Rightarrow> if cx_sha256 (pf_codec pf) token \<noteq> dv_tokenHash (snd rd) then None else Some token)
      | _ \<Rightarrow> None)"

definition consume_handoff :: "string \<Rightarrow> int \<Rightarrow> DeviceDb \<Rightarrow> DeviceDb option" where
  "consume_handoff d now db =
     (if list_ex (\<lambda>r. pv_deviceId r = d \<and> pv_handoffExpiresAt r > now) (dd_provisionings db)
      then Some (set_provisioning d (\<lambda>r. if pv_handoffExpiresAt r > now then r\<lparr>pv_handoffConsumedAt := Some now, pv_sealed := None\<rparr> else r) db)
      else None)"

text \<open>What a download checks before it loads the authority.\<close>

definition handoff_refused :: "ProvisioningSession \<Rightarrow> DeviceHandoffRequest \<Rightarrow> int \<Rightarrow> int \<Rightarrow> ProvisioningRow \<times> DeviceRow \<Rightarrow> HttpError option" where
  "handoff_refused s body now check rd =
     (let r = fst rd in
      if \<not> checkExpiry s check then Some unauthorized
      else if pv_credentialVersion r \<noteq> dh_expected_version body then Some config_changed
      else if dv_revokedAt (snd rd) \<noteq> None then Some device_revoked
      else if pv_handoffUserId r \<noteq> Some (sn_userId s) \<or> pv_handoffSessionRoot r \<noteq> Some (sn_rootSessionId s)
      then Some (http_error 403 ''HANDOFF_OWNER_REQUIRED'')
      else if pv_handoffConsumedAt r \<noteq> None \<or> pv_handoffExpiresAt r \<le> now \<or> pv_sealed r = None then Some handoff_gone
      else None)"

definition downloadConfig ::
    "Platform \<Rightarrow> DeviceProvisioningOptions \<Rightarrow> Ticks \<Rightarrow> string \<Rightarrow> DeviceHandoffRequest \<Rightarrow> ProvisioningSession \<Rightarrow> DeviceDb \<Rightarrow>
     (HttpError + DeviceConfig) \<times> DeviceDb" where
  "downloadConfig pf o' tk d body s db =
     (case locked_device db (sn_tenantId s) d of
        Inl e \<Rightarrow> (Inl e, db)
      | Inr rd \<Rightarrow>
     (case handoff_refused s body (tk_read tk) (tk_check tk) rd of
        Some e \<Rightarrow> (Inl e, db)
      | None \<Rightarrow>
     (let r = fst rd in
      case loadProvisioningAuthority (pf_codec pf) (dd_forge db) (sn_tenantId s) (pv_buildId r) (pv_planVersion r) (pv_codeVersion r) (op_profiles o') False of
        Inl e \<Rightarrow> (Inl e, db)
      | Inr a \<Rightarrow>
          if fp_manifest_digest (au_firmware a) \<noteq> pv_manifestDigest r then (Inl config_changed, db)
          else (case stored_token pf o' (sn_tenantId s) rd of
             None \<Rightarrow> (Inl handoff_gone, db)
           | Some token \<Rightarrow>
               if \<not> DeviceConfig_ok (pf_url pf) (device_config d token r a) then (Inl handoff_gone, db)
               else if \<not> checkExpiry s (tk_recheck tk) then (Inl unauthorized, db)
               else (case consume_handoff d (tk_write tk) db of
                  None \<Rightarrow> (Inl handoff_gone, db)
                | Some db' \<Rightarrow> (Inr (device_config d token r a), db'))))))"

subsection \<open>Replacing and revoking\<close>

definition next_seq :: "DeviceRow \<Rightarrow> int" where
  "next_seq dev = (case dv_lastSeq dev of None \<Rightarrow> 0 | Some n \<Rightarrow> n + 1)"

definition reissued :: "Ticks \<Rightarrow> DeviceReissueRequest \<Rightarrow> ProvisioningSession \<Rightarrow> int \<Rightarrow> int \<Rightarrow> string \<Rightarrow> SealedCredential \<Rightarrow> ProvisioningRow \<Rightarrow> ProvisioningRow" where
  "reissued tk body s version seq url sealed r =
     r\<lparr>pv_credentialVersion := version, pv_seqStart := seq, pv_ingestUrl := url, pv_handoffUserId := Some (sn_userId s),
       pv_handoffSessionRoot := Some (sn_rootSessionId s), pv_handoffExpiresAt := tk_write tk + HANDOFF_MS, pv_handoffConsumedAt := None,
       pv_sealed := Some sealed, pv_reissueRequestId := Some (dx_request_id body), pv_reissueFromVersion := Some (dx_expected_version body)\<rparr>"

definition reissueConfig ::
    "Platform \<Rightarrow> DeviceProvisioningOptions \<Rightarrow> Ticks \<Rightarrow> Fresh \<Rightarrow> string \<Rightarrow> DeviceReissueRequest \<Rightarrow> ProvisioningSession \<Rightarrow> DeviceDb \<Rightarrow>
     (HttpError + DeviceProvisioning) \<times> DeviceDb" where
  "reissueConfig pf o' tk fr d body s db =
     (case locked_device db (sn_tenantId s) d of
        Inl e \<Rightarrow> (Inl e, db)
      | Inr (r, dev) \<Rightarrow>
          if \<not> checkExpiry s (tk_check tk) then (Inl unauthorized, db)
          else if dv_revokedAt dev \<noteq> None then (Inl device_revoked, db)
          else if pv_reissueRequestId r = Some (dx_request_id body) \<and> pv_reissueFromVersion r = Some (dx_expected_version body)
          then (session_status (r, dev) (tk_read tk) s, db)
          else if pv_credentialVersion r \<noteq> dx_expected_version body \<or> pv_reissueRequestId r = Some (dx_request_id body)
          then (Inl config_changed, db)
          else case loadProvisioningAuthority (pf_codec pf) (dd_forge db) (sn_tenantId s) (pv_buildId r) (pv_planVersion r) (pv_codeVersion r)
                      (op_profiles o') False of
            Inl e \<Rightarrow> (Inl e, db)
          | Inr a \<Rightarrow>
              if fp_manifest_digest (au_firmware a) \<noteq> pv_manifestDigest r then (Inl config_changed, db)
              else (case configured o' of
                 Inl e \<Rightarrow> (Inl e, db)
               | Inr (keys, url) \<Rightarrow>
              (let version = pv_credentialVersion r + 1; seq = next_seq dev; token = to_base64url (fr_token fr) in
               if \<bar>seq\<bar> > MAX_SAFE_INTEGER \<or> version > 2147483647 then (Inl (http_error 409 ''IDENTITY_EXHAUSTED''), db)
               else (case sealCredential (pf_aead pf) (fr_nonce fr) token (row_binding (r\<lparr>pv_credentialVersion := version\<rparr>) (sn_tenantId s)) keys of
                  Inl _ \<Rightarrow> (Inl internal_error, db)
                | Inr sealed \<Rightarrow>
                    if \<not> checkExpiry s (tk_recheck tk) then (Inl unauthorized, db)
                    else if list_ex (\<lambda>x. dv_id x \<noteq> d \<and> dv_tokenHash x = cx_sha256 (pf_codec pf) token) (dd_devices db)
                    then (Inl internal_error, db)
                    else (let db' = set_provisioning d (reissued tk body s version seq url sealed)
                                      (set_device d (\<lambda>x. x\<lparr>dv_tokenHash := cx_sha256 (pf_codec pf) token\<rparr>) db)
                          in (device_status db' d (tk_again tk) s, db'))))))"

definition revokeDevice ::
    "Ticks \<Rightarrow> string \<Rightarrow> DeviceHandoffRequest \<Rightarrow> ProvisioningSession \<Rightarrow> DeviceDb \<Rightarrow> (HttpError + DeviceProvisioning) \<times> DeviceDb" where
  "revokeDevice tk d body s db =
     (case locked_device db (sn_tenantId s) d of
        Inl e \<Rightarrow> (Inl e, db)
      | Inr (r, dev) \<Rightarrow>
          if \<not> checkExpiry s (tk_check tk) then (Inl unauthorized, db)
          else if pv_credentialVersion r \<noteq> dh_expected_version body then (Inl config_changed, db)
          else (let db' = set_provisioning d (\<lambda>r. r\<lparr>pv_sealed := None\<rparr>)
                            (set_device d (\<lambda>x. x\<lparr>dv_revokedAt := (case dv_revokedAt x of None \<Rightarrow> Some (tk_write tk) | Some t \<Rightarrow> Some t)\<rparr>) db)
                in (device_status db' d (tk_again tk) s, db')))"

subsection \<open>The routes\<close>

definition device_auth :: "DeviceDb \<Rightarrow> AuthDb" where
  "device_auth db = fg_auth (dd_forge db)"

text \<open>The checks before the transaction, then the transaction of a session.\<close>

definition provisioning_route ::
    "Platform \<Rightarrow> (string \<Rightarrow> UrlParts option) \<Rightarrow> string option \<Rightarrow> string option \<Rightarrow> string option \<Rightarrow> string \<Rightarrow> bool \<Rightarrow> string \<Rightarrow> Ticks \<Rightarrow>
     (ProvisioningSession \<Rightarrow> DeviceDb \<Rightarrow> (HttpError + 'a) \<times> DeviceDb) \<Rightarrow> DeviceDb \<Rightarrow> (HttpError + 'a) \<times> DeviceDb" where
  "provisioning_route pf parse_url origin header cookie host valid expected tk act db =
     (case assertSameOrigin parse_url origin header of
        Some e \<Rightarrow> (Inl e, db)
      | None \<Rightarrow>
          if \<not> valid then (Inl bad_request, db)
          else withProvisioningSession (cx_sha256 (pf_codec pf)) device_auth cookie host expected (tk_admit tk) (tk_roots tk) (tk_end tk) act db)"

definition claimRoute where
  "claimRoute pf o' parse_url origin header cookie host tk fr body =
     provisioning_route pf parse_url origin header cookie host (DeviceClaimRequest_ok body) (dc_expected_tenant_id body) tk
       (claimDevice pf o' tk fr body)"

definition downloadRoute where
  "downloadRoute pf o' parse_url origin header cookie host tk d body =
     provisioning_route pf parse_url origin header cookie host (rx_full z_uuid d \<and> DeviceHandoffRequest_ok body) (dh_expected_tenant_id body) tk
       (downloadConfig pf o' tk d body)"

definition reissueRoute where
  "reissueRoute pf o' parse_url origin header cookie host tk fr d body =
     provisioning_route pf parse_url origin header cookie host (rx_full z_uuid d \<and> DeviceReissueRequest_ok body) (dx_expected_tenant_id body) tk
       (reissueConfig pf o' tk fr d body)"

definition revokeRoute where
  "revokeRoute pf parse_url origin header cookie host tk d body =
     provisioning_route pf parse_url origin header cookie host (rx_full z_uuid d \<and> DeviceHandoffRequest_ok body) (dh_expected_tenant_id body) tk
       (revokeDevice tk d body)"

subsection \<open>What a request did\<close>

lemma claim_cases:
  assumes "claimDevice pf o' tk fr body s db = (Inr p, db')"
  shows "db' = db \<or> (\<exists>a keys url sealed. configured o' = Inr (keys, url) \<and>
    loadProvisioningAuthority (pf_codec pf) (dd_forge db) (sn_tenantId s) (dc_build_id body) (dc_plan_version body) (dc_code_version body)
      (op_profiles o') True = Inr a \<and>
    sealCredential (pf_aead pf) (fr_nonce fr) (to_base64url (fr_token fr)) (row_binding (new_provisioning s tk fr body a url sealed) (sn_tenantId s)) keys = Inr sealed \<and>
    insert_device (new_device (sn_tenantId s) tk fr (cx_sha256 (pf_codec pf) (to_base64url (fr_token fr))) a)
      (new_provisioning s tk fr body a url sealed) (au_capabilities a) db = Some db')"
proof (cases "claim_fresh pf o' tk fr body s db = (Inr p, db')")
  case True
  then show ?thesis
    unfolding claim_fresh_def Let_def
    by (auto simp: row_binding_def new_provisioning_def split: sum.splits option.splits if_splits prod.splits)
next
  case False
  with assms show ?thesis
    unfolding claimDevice_def by (auto split: sum.splits option.splits if_splits)
qed

lemma download_cases:
  assumes "downloadConfig pf o' tk d body s db = (Inr c, db')"
  obtains r dev a token where "locked_device db (sn_tenantId s) d = Inr (r, dev)" "handoff_refused s body (tk_read tk) (tk_check tk) (r, dev) = None"
    "loadProvisioningAuthority (pf_codec pf) (dd_forge db) (sn_tenantId s) (pv_buildId r) (pv_planVersion r) (pv_codeVersion r) (op_profiles o') False = Inr a"
    "fp_manifest_digest (au_firmware a) = pv_manifestDigest r" "stored_token pf o' (sn_tenantId s) (r, dev) = Some token"
    "c = device_config d token r a" "DeviceConfig_ok (pf_url pf) c" "consume_handoff d (tk_write tk) db = Some db'"
  using assms unfolding downloadConfig_def Let_def by (auto split: sum.splits option.splits if_splits prod.splits)

lemma reissue_cases:
  assumes "reissueConfig pf o' tk fr d body s db = (Inr p, db')"
  shows "db' = db \<or> (\<exists>r dev keys url sealed. locked_device db (sn_tenantId s) d = Inr (r, dev) \<and> dv_revokedAt dev = None \<and>
    pv_credentialVersion r = dx_expected_version body \<and>
    db' = set_provisioning d (reissued tk body s (pv_credentialVersion r + 1) (next_seq dev) url sealed)
            (set_device d (\<lambda>x. x\<lparr>dv_tokenHash := cx_sha256 (pf_codec pf) (to_base64url (fr_token fr))\<rparr>) db) \<and>
    configured o' = Inr (keys, url) \<and>
    sealCredential (pf_aead pf) (fr_nonce fr) (to_base64url (fr_token fr))
      (row_binding (reissued tk body s (pv_credentialVersion r + 1) (next_seq dev) url sealed r) (sn_tenantId s)) keys = Inr sealed)"
  using assms unfolding reissueConfig_def Let_def
  by (auto simp: row_binding_def reissued_def split: sum.splits option.splits if_splits prod.splits)

lemma revoke_cases:
  assumes "revokeDevice tk d body s db = (Inr p, db')"
  obtains r dev where "locked_device db (sn_tenantId s) d = Inr (r, dev)" "pv_credentialVersion r = dh_expected_version body"
    "db' = set_provisioning d (\<lambda>r. r\<lparr>pv_sealed := None\<rparr>)
       (set_device d (\<lambda>x. x\<lparr>dv_revokedAt := (case dv_revokedAt x of None \<Rightarrow> Some (tk_write tk) | Some t \<Rightarrow> Some t)\<rparr>) db)"
  using assms unfolding revokeDevice_def Let_def by (auto split: sum.splits option.splits if_splits prod.splits)

lemma locked_rows:
  assumes "locked_device db tenant d = Inr (r, dev)"
  shows "r \<in> set (dd_provisionings db) \<and> pv_deviceId r = d \<and> pv_tenantId r = tenant \<and> dev \<in> set (dd_devices db) \<and> dv_id dev = d \<and> dv_tenantId dev = tenant"
  using assms by (auto simp: locked_device_def device_pair_def split: option.splits if_splits dest!: find_Some_set)

subsection \<open>Histories\<close>

text \<open>
  What happened to credentials, newest first: a credential issued to a person and sign-in until a time, with the hash of its token; its
  configuration downloaded by a person and sign-in at a time; a revocation.
\<close>

datatype HandoffEvent =
    Issued string int string string int string
  | Downloaded string int string string int DeviceConfig
  | Revoked string

text \<open>Everything else: builds, sessions and telemetry change, and a deleted user or session leaves a null column.\<close>

definition other_change :: "DeviceDb \<Rightarrow> DeviceDb \<Rightarrow> bool" where
  "other_change db db' \<longleftrightarrow>
     (\<exists>f g. dd_devices db' = map f (dd_devices db) \<and> dd_provisionings db' = map g (dd_provisionings db) \<and>
       (\<forall>x. dv_id (f x) = dv_id x \<and> dv_tenantId (f x) = dv_tenantId x \<and> dv_tokenHash (f x) = dv_tokenHash x \<and> dv_revokedAt (f x) = dv_revokedAt x) \<and>
       (\<forall>r. g r \<in> {r, r\<lparr>pv_handoffUserId := None\<rparr>, r\<lparr>pv_handoffSessionRoot := None\<rparr>, r\<lparr>pv_handoffUserId := None, pv_handoffSessionRoot := None\<rparr>}))"

inductive device_run :: "Platform \<Rightarrow> DeviceDb \<Rightarrow> HandoffEvent list \<Rightarrow> DeviceDb \<Rightarrow> bool" for pf db0 where
  dr_start: "device_run pf db0 [] db0"
| dr_other: "device_run pf db0 es db \<Longrightarrow> other_change db db' \<Longrightarrow> device_run pf db0 es db'"
| dr_claim: "device_run pf db0 es db \<Longrightarrow> claimDevice pf o' tk fr body s db = (Inr p, db') \<Longrightarrow> db' \<noteq> db \<Longrightarrow>
    device_run pf db0 (Issued (fr_deviceId fr) 1 (sn_userId s) (sn_rootSessionId s) (tk_write tk + HANDOFF_MS)
      (cx_sha256 (pf_codec pf) (to_base64url (fr_token fr))) # es) db'"
| dr_download: "device_run pf db0 es db \<Longrightarrow> downloadConfig pf o' tk d body' s db = (Inr c, db') \<Longrightarrow>
    device_run pf db0 (Downloaded d (dh_expected_version body') (sn_userId s) (sn_rootSessionId s) (tk_write tk) c # es) db'"
| dr_reissue: "device_run pf db0 es db \<Longrightarrow> reissueConfig pf o' tk fr d body'' s db = (Inr p, db') \<Longrightarrow> db' \<noteq> db \<Longrightarrow>
    device_run pf db0 (Issued d (dx_expected_version body'' + 1) (sn_userId s) (sn_rootSessionId s) (tk_write tk + HANDOFF_MS)
      (cx_sha256 (pf_codec pf) (to_base64url (fr_token fr))) # es) db'"
| dr_revoke: "device_run pf db0 es db \<Longrightarrow> revokeDevice tk d body' s db = (Inr p, db') \<Longrightarrow> device_run pf db0 (Revoked d # es) db'"

fun last_issue :: "string \<Rightarrow> HandoffEvent list \<Rightarrow> (int \<times> string \<times> string \<times> int \<times> string) option" where
  "last_issue d [] = None"
| "last_issue d (Issued d' v u a x h # es) = (if d' = d then Some (v, u, a, x, h) else last_issue d es)"
| "last_issue d (_ # es) = last_issue d es"

fun downloaded :: "string \<Rightarrow> int \<Rightarrow> HandoffEvent \<Rightarrow> bool" where
  "downloaded d v (Downloaded d' v' _ _ _ _) \<longleftrightarrow> d' = d \<and> v' = v"
| "downloaded d v _ \<longleftrightarrow> False"

subsection \<open>The tables stay consistent\<close>

definition handoff_row_ok :: "DeviceDb \<Rightarrow> ProvisioningRow \<Rightarrow> bool" where
  "handoff_row_ok db r \<longleftrightarrow>
     (\<exists>dev \<in> set (dd_devices db). dv_id dev = pv_deviceId r \<and> dv_tenantId dev = pv_tenantId r \<and>
        (pv_handoffConsumedAt r \<noteq> None \<or> dv_revokedAt dev \<noteq> None \<longrightarrow> pv_sealed r = None))"

definition devices_ok :: "DeviceDb \<Rightarrow> bool" where
  "devices_ok db \<longleftrightarrow>
     distinct (map dv_id (dd_devices db)) \<and> distinct (map pv_deviceId (dd_provisionings db)) \<and>
     distinct (map (\<lambda>r. (pv_buildId r, pv_planVersion r)) (dd_provisionings db)) \<and>
     distinct (map (\<lambda>r. (pv_tenantId r, pv_claimRequestId r)) (dd_provisionings db)) \<and>
     list_all (handoff_row_ok db) (dd_provisionings db)"

lemma device_unique: "devices_ok db \<Longrightarrow> x \<in> set (dd_devices db) \<Longrightarrow> y \<in> set (dd_devices db) \<Longrightarrow> dv_id x = dv_id y \<Longrightarrow> x = y"
  by (auto simp: devices_ok_def distinct_map inj_on_def)

lemma provisioning_unique:
  "devices_ok db \<Longrightarrow> x \<in> set (dd_provisionings db) \<Longrightarrow> y \<in> set (dd_provisionings db) \<Longrightarrow> pv_deviceId x = pv_deviceId y \<Longrightarrow> x = y"
  by (auto simp: devices_ok_def distinct_map inj_on_def)

lemma devices_ok_map:
  assumes "devices_ok db" and "dd_devices db' = map f (dd_devices db)" and "dd_provisionings db' = map g (dd_provisionings db)"
    and f: "\<And>x. dv_id (f x) = dv_id x \<and> dv_tenantId (f x) = dv_tenantId x"
    and g: "\<And>r. pv_deviceId (g r) = pv_deviceId r \<and> pv_tenantId (g r) = pv_tenantId r \<and> pv_buildId (g r) = pv_buildId r \<and>
              pv_planVersion (g r) = pv_planVersion r \<and> pv_claimRequestId (g r) = pv_claimRequestId r"
    and sealed: "\<And>r x. r \<in> set (dd_provisionings db) \<Longrightarrow> x \<in> set (dd_devices db) \<Longrightarrow> dv_id x = pv_deviceId r \<Longrightarrow>
              pv_handoffConsumedAt r \<noteq> None \<or> dv_revokedAt x \<noteq> None \<longrightarrow> pv_sealed r = None \<Longrightarrow>
              pv_handoffConsumedAt (g r) \<noteq> None \<or> dv_revokedAt (f x) \<noteq> None \<longrightarrow> pv_sealed (g r) = None"
  shows "devices_ok db'"
proof -
  have "handoff_row_ok db' (g r)" if "r \<in> set (dd_provisionings db)" for r
  proof -
    from assms(1) that obtain x where x: "x \<in> set (dd_devices db)" "dv_id x = pv_deviceId r" "dv_tenantId x = pv_tenantId r"
        "pv_handoffConsumedAt r \<noteq> None \<or> dv_revokedAt x \<noteq> None \<longrightarrow> pv_sealed r = None"
      by (auto simp: devices_ok_def list_all_iff handoff_row_ok_def)
    from x f [of x] g [of r] sealed [OF that x(1,2,4)] show ?thesis
      unfolding handoff_row_ok_def assms(2) by (intro bexI [of _ "f x"]) auto
  qed
  with assms(1) show ?thesis
    by (auto simp: devices_ok_def assms(2,3) f g comp_def list_all_iff)
qed

lemma set_device_fields [simp]:
  "dd_devices (set_device d f db) = map (\<lambda>r. if dv_id r = d then f r else r) (dd_devices db)"
  "dd_provisionings (set_device d f db) = dd_provisionings db"
  by (simp_all add: set_device_def)

lemma set_provisioning_fields [simp]:
  "dd_provisionings (set_provisioning d g db) = map (\<lambda>r. if pv_deviceId r = d then g r else r) (dd_provisionings db)"
  "dd_devices (set_provisioning d g db) = dd_devices db"
  by (simp_all add: set_provisioning_def)

lemma insert_device_ok:
  assumes "devices_ok db" and "insert_device dev r caps db = Some db'" and "dv_id dev = pv_deviceId r" and "dv_tenantId dev = pv_tenantId r"
    and "pv_handoffConsumedAt r = None" and "dv_revokedAt dev = None"
  shows "devices_ok db'"
proof -
  from assms(2) have n: "\<forall>x \<in> set (dd_devices db). dv_id x \<noteq> dv_id dev"
      "\<forall>x \<in> set (dd_provisionings db). pv_deviceId x \<noteq> pv_deviceId r \<and> \<not> (pv_buildId x = pv_buildId r \<and> pv_planVersion x = pv_planVersion r) \<and>
         \<not> (pv_tenantId x = pv_tenantId r \<and> pv_claimRequestId x = pv_claimRequestId r)"
      and d: "dd_devices db' = dd_devices db @ [dev]" "dd_provisionings db' = dd_provisionings db @ [r]"
    by (auto simp: insert_device_def list_ex_iff split: if_splits)
  have "handoff_row_ok db' x" if "x \<in> set (dd_provisionings db)" for x
    using assms(1) that unfolding devices_ok_def list_all_iff handoff_row_ok_def d(1) by auto
  moreover have "handoff_row_ok db' r" using assms(3-6) by (auto simp: handoff_row_ok_def d(1))
  ultimately show ?thesis
    using assms(1) n by (auto simp: devices_ok_def d list_all_iff)
qed

lemma consume_handoff_Some:
  "consume_handoff d now db = Some db' \<Longrightarrow>
   dd_devices db' = dd_devices db \<and>
   dd_provisionings db' = map (\<lambda>r. if pv_deviceId r = d \<and> pv_handoffExpiresAt r > now then r\<lparr>pv_handoffConsumedAt := Some now, pv_sealed := None\<rparr> else r)
      (dd_provisionings db)"
  by (auto simp: consume_handoff_def split: if_splits)

lemma other_change_ok: "devices_ok db \<Longrightarrow> other_change db db' \<Longrightarrow> devices_ok db'"
proof -
  assume ok: "devices_ok db" and "other_change db db'"
  then obtain f g where fg: "dd_devices db' = map f (dd_devices db)" "dd_provisionings db' = map g (dd_provisionings db)"
      "\<And>x. dv_id (f x) = dv_id x \<and> dv_tenantId (f x) = dv_tenantId x \<and> dv_tokenHash (f x) = dv_tokenHash x \<and> dv_revokedAt (f x) = dv_revokedAt x"
      and g: "\<And>r. g r \<in> {r, r\<lparr>pv_handoffUserId := None\<rparr>, r\<lparr>pv_handoffSessionRoot := None\<rparr>, r\<lparr>pv_handoffUserId := None, pv_handoffSessionRoot := None\<rparr>}"
    unfolding other_change_def by blast
  have same: "pv_deviceId (g r) = pv_deviceId r \<and> pv_tenantId (g r) = pv_tenantId r \<and> pv_buildId (g r) = pv_buildId r \<and>
      pv_planVersion (g r) = pv_planVersion r \<and> pv_claimRequestId (g r) = pv_claimRequestId r" for r
    using g [of r] by auto
  have sealed: "pv_handoffConsumedAt (g r) = pv_handoffConsumedAt r \<and> pv_sealed (g r) = pv_sealed r" for r using g [of r] by auto
  show ?thesis by (rule devices_ok_map [OF ok fg(1,2)]) (use fg(3) same sealed in auto)
qed

lemma claim_ok: "devices_ok db \<Longrightarrow> claimDevice pf o' tk fr body s db = (Inr p, db') \<Longrightarrow> devices_ok db'"
  by (drule claim_cases) (auto elim!: insert_device_ok simp: new_device_def new_provisioning_def)

lemma download_ok: "devices_ok db \<Longrightarrow> downloadConfig pf o' tk d body s db = (Inr c, db') \<Longrightarrow> devices_ok db'"
proof -
  assume ok: "devices_ok db" and "downloadConfig pf o' tk d body s db = (Inr c, db')"
  then have "consume_handoff d (tk_write tk) db = Some db'" by (auto elim: download_cases)
  note c = consume_handoff_Some [OF this]
  show ?thesis
    by (rule devices_ok_map [OF ok, where f = id and
        g = "\<lambda>r. if pv_deviceId r = d \<and> pv_handoffExpiresAt r > tk_write tk then r\<lparr>pv_handoffConsumedAt := Some (tk_write tk), pv_sealed := None\<rparr> else r"])
      (use c in auto)
qed

lemma reissue_ok: "devices_ok db \<Longrightarrow> reissueConfig pf o' tk fr d body s db = (Inr p, db') \<Longrightarrow> devices_ok db'"
proof -
  assume ok: "devices_ok db" and "reissueConfig pf o' tk fr d body s db = (Inr p, db')"
  from reissue_cases [OF this(2)] show ?thesis
  proof (elim disjE exE conjE)
    fix r dev keys url sealed
    assume l: "locked_device db (sn_tenantId s) d = Inr (r, dev)" "dv_revokedAt dev = None"
      and db': "db' = set_provisioning d (reissued tk body s (pv_credentialVersion r + 1) (next_seq dev) url sealed)
        (set_device d (\<lambda>x. x\<lparr>dv_tokenHash := cx_sha256 (pf_codec pf) (to_base64url (fr_token fr))\<rparr>) db)"
    note rows = locked_rows [OF l(1)]
    have live: "dv_revokedAt x = None" if "x \<in> set (dd_devices db)" "dv_id x = d" for x
      using device_unique [OF ok that(1), of dev] rows that(2) l(2) by simp
    show ?thesis
      by (rule devices_ok_map [OF ok, where f = "\<lambda>x. if dv_id x = d then x\<lparr>dv_tokenHash := cx_sha256 (pf_codec pf) (to_base64url (fr_token fr))\<rparr> else x"
          and g = "\<lambda>x. if pv_deviceId x = d then reissued tk body s (pv_credentialVersion r + 1) (next_seq dev) url sealed x else x"])
        (use live in \<open>auto simp: db' reissued_def\<close>)
  qed (use ok in simp)
qed

lemma revoke_ok: "devices_ok db \<Longrightarrow> revokeDevice tk d body s db = (Inr p, db') \<Longrightarrow> devices_ok db'"
proof -
  assume ok: "devices_ok db" and "revokeDevice tk d body s db = (Inr p, db')"
  then have db': "db' = set_provisioning d (\<lambda>r. r\<lparr>pv_sealed := None\<rparr>)
       (set_device d (\<lambda>x. x\<lparr>dv_revokedAt := (case dv_revokedAt x of None \<Rightarrow> Some (tk_write tk) | Some t \<Rightarrow> Some t)\<rparr>) db)"
    by (auto elim: revoke_cases)
  show ?thesis
    by (rule devices_ok_map [OF ok, where f = "\<lambda>x. if dv_id x = d then x\<lparr>dv_revokedAt := (case dv_revokedAt x of None \<Rightarrow> Some (tk_write tk) | Some t \<Rightarrow> Some t)\<rparr> else x"
        and g = "\<lambda>x. if pv_deviceId x = d then x\<lparr>pv_sealed := None\<rparr> else x"]) (auto simp: db')
qed

lemma device_run_ok: "device_run pf db0 es db \<Longrightarrow> devices_ok db0 \<Longrightarrow> devices_ok db"
  by (induction rule: device_run.induct) (auto intro: other_change_ok claim_ok download_ok reissue_ok revoke_ok)

subsection \<open>What the history says of a row\<close>

fun event_device :: "HandoffEvent \<Rightarrow> string" where
  "event_device (Issued d _ _ _ _ _) = d"
| "event_device (Downloaded d _ _ _ _ _) = d"
| "event_device (Revoked d) = d"

definition row_history :: "HandoffEvent list \<Rightarrow> ProvisioningRow \<Rightarrow> DeviceRow \<Rightarrow> bool" where
  "row_history es r x \<longleftrightarrow>
     (\<exists>u a. last_issue (pv_deviceId r) es = Some (pv_credentialVersion r, u, a, pv_handoffExpiresAt r, dv_tokenHash x) \<and>
        pv_handoffUserId r \<in> {None, Some u} \<and> pv_handoffSessionRoot r \<in> {None, Some a}) \<and>
     (Revoked (pv_deviceId r) \<in> set es \<longleftrightarrow> dv_revokedAt x \<noteq> None) \<and>
     (\<forall>e \<in> set es. \<forall>v. downloaded (pv_deviceId r) v e \<longrightarrow>
        v \<le> pv_credentialVersion r \<and> (v = pv_credentialVersion r \<longrightarrow> pv_handoffConsumedAt r \<noteq> None))"

definition history_ok :: "HandoffEvent list \<Rightarrow> DeviceDb \<Rightarrow> bool" where
  "history_ok es db \<longleftrightarrow>
     event_device ` set es \<subseteq> pv_deviceId ` set (dd_provisionings db) \<and>
     (\<forall>r \<in> set (dd_provisionings db). \<forall>x \<in> set (dd_devices db). dv_id x = pv_deviceId r \<longrightarrow> row_history es r x)"

lemma last_issue_other: "event_device e \<noteq> d \<Longrightarrow> last_issue d (e # es) = last_issue d es"
  by (cases e) auto

lemma downloaded_device: "downloaded d v e \<Longrightarrow> event_device e = d"
  by (cases e) auto

lemma row_history_other: "event_device e \<noteq> pv_deviceId r \<Longrightarrow> row_history (e # es) r x = row_history es r x"
  by (cases e) (auto simp: row_history_def)

lemma last_issue_unknown: "d \<notin> event_device ` set es \<Longrightarrow> last_issue d es = None"
  by (induction d es rule: last_issue.induct) auto

text \<open>An event of one device, whose row changes by \<open>g\<close> and \<open>f\<close>.\<close>

lemma history_step:
  assumes h: "history_ok es db" and "event_device e = d"
    and d: "dd_devices db' = map (\<lambda>x. if dv_id x = d then f x else x) (dd_devices db)" "\<And>x. dv_id (f x) = dv_id x"
    and p: "dd_provisionings db' = map (\<lambda>r. if pv_deviceId r = d then g r else r) (dd_provisionings db)" "\<And>r. pv_deviceId (g r) = pv_deviceId r"
    and known: "d \<in> pv_deviceId ` set (dd_provisionings db)"
    and row: "\<And>r x. r \<in> set (dd_provisionings db) \<Longrightarrow> x \<in> set (dd_devices db) \<Longrightarrow> pv_deviceId r = d \<Longrightarrow> dv_id x = d \<Longrightarrow>
        row_history es r x \<Longrightarrow> row_history (e # es) (g r) (f x)"
  shows "history_ok (e # es) db'"
proof -
  have ids: "pv_deviceId ` set (dd_provisionings db') = pv_deviceId ` set (dd_provisionings db)"
    unfolding p(1) set_map image_image by (rule image_cong) (auto simp: p(2))
  have "row_history (e # es) r' x'"
    if in': "r' \<in> set (dd_provisionings db')" "x' \<in> set (dd_devices db')" "dv_id x' = pv_deviceId r'" for r' x'
  proof -
    from in'(1) obtain r where r: "r \<in> set (dd_provisionings db)" "r' = (if pv_deviceId r = d then g r else r)" by (auto simp: p(1))
    from in'(2) obtain x where x: "x \<in> set (dd_devices db)" "x' = (if dv_id x = d then f x else x)" by (auto simp: d(1))
    have "pv_deviceId r' = pv_deviceId r" "dv_id x' = dv_id x" using r(2) x(2) p(2) d(2) by auto
    with in'(3) h r(1) x(1) have old: "row_history es r x" "dv_id x = pv_deviceId r" by (auto simp: history_ok_def)
    show ?thesis
    proof (cases "pv_deviceId r = d")
      case True
      then show ?thesis using row [OF r(1) x(1) _ _ old(1)] old(2) r(2) x(2) by simp
    next
      case False
      then show ?thesis using old r(2) x(2) row_history_other [of e r es x] assms(2) by simp
    qed
  qed
  with h ids known assms(2) show ?thesis by (auto simp: history_ok_def)
qed

lemma history_claim:
  assumes ok: "devices_ok db" and h: "history_ok es db" and c: "claimDevice pf o' tk fr body s db = (Inr p, db')" and n: "db' \<noteq> db"
  shows "history_ok (Issued (fr_deviceId fr) 1 (sn_userId s) (sn_rootSessionId s) (tk_write tk + HANDOFF_MS)
      (cx_sha256 (pf_codec pf) (to_base64url (fr_token fr))) # es) db'"
proof -
  let ?e = "Issued (fr_deviceId fr) 1 (sn_userId s) (sn_rootSessionId s) (tk_write tk + HANDOFF_MS) (cx_sha256 (pf_codec pf) (to_base64url (fr_token fr)))"
  from claim_cases [OF c] n obtain a url sealed where i: "insert_device (new_device (sn_tenantId s) tk fr (cx_sha256 (pf_codec pf) (to_base64url (fr_token fr))) a)
      (new_provisioning s tk fr body a url sealed) (au_capabilities a) db = Some db'" by blast
  let ?x = "new_device (sn_tenantId s) tk fr (cx_sha256 (pf_codec pf) (to_base64url (fr_token fr))) a"
  let ?r = "new_provisioning s tk fr body a url sealed"
  from i have d: "dd_devices db' = dd_devices db @ [?x]" "dd_provisionings db' = dd_provisionings db @ [?r]"
      and new: "\<forall>x \<in> set (dd_devices db). dv_id x \<noteq> fr_deviceId fr" "\<forall>r \<in> set (dd_provisionings db). pv_deviceId r \<noteq> fr_deviceId fr"
    by (auto simp: insert_device_def list_ex_iff new_device_def new_provisioning_def split: if_splits)
  have ids: "dv_id ?x = fr_deviceId fr" "pv_deviceId ?r = fr_deviceId fr" by (simp_all add: new_device_def new_provisioning_def)
  have unseen: "fr_deviceId fr \<notin> event_device ` set es" using h new(2) by (auto simp: history_ok_def)
  have seen: "\<forall>e \<in> set es. event_device e \<noteq> fr_deviceId fr" using unseen by (metis imageI)
  then have "row_history (?e # es) ?r ?x"
    by (force simp: row_history_def new_provisioning_def new_device_def dest: downloaded_device)
  moreover have "row_history (?e # es) r x" if "r \<in> set (dd_provisionings db)" "x \<in> set (dd_devices db)" "dv_id x = pv_deviceId r" for r x
    using h that new(2) row_history_other [of ?e r es x] by (auto simp: history_ok_def)
  ultimately show ?thesis
    using h new ids unfolding history_ok_def d by auto
qed

lemma history_other:
  assumes "history_ok es db" and "other_change db db'"
  shows "history_ok es db'"
proof -
  from assms(2) obtain f g where fg: "dd_devices db' = map f (dd_devices db)" "dd_provisionings db' = map g (dd_provisionings db)"
      "\<And>x. dv_id (f x) = dv_id x \<and> dv_tenantId (f x) = dv_tenantId x \<and> dv_tokenHash (f x) = dv_tokenHash x \<and> dv_revokedAt (f x) = dv_revokedAt x"
      and g: "\<And>r. g r \<in> {r, r\<lparr>pv_handoffUserId := None\<rparr>, r\<lparr>pv_handoffSessionRoot := None\<rparr>, r\<lparr>pv_handoffUserId := None, pv_handoffSessionRoot := None\<rparr>}"
    unfolding other_change_def by blast
  have same: "pv_deviceId (g r) = pv_deviceId r \<and> pv_credentialVersion (g r) = pv_credentialVersion r \<and> pv_handoffExpiresAt (g r) = pv_handoffExpiresAt r \<and>
      pv_handoffConsumedAt (g r) = pv_handoffConsumedAt r \<and> pv_handoffUserId (g r) \<in> {None, pv_handoffUserId r} \<and>
      pv_handoffSessionRoot (g r) \<in> {None, pv_handoffSessionRoot r}" for r
    using g [of r] by auto
  have "row_history es (g r) (f x)" if "row_history es r x" for r x
    using that same [of r] fg(3) [of x] by (auto simp: row_history_def)
  moreover have "pv_deviceId ` g ` X = pv_deviceId ` X" for X using same by (auto simp: image_image)
  ultimately show ?thesis using assms(1) fg(3) same by (auto simp: history_ok_def fg(1,2))
qed

text \<open>What a successful download found.\<close>

lemma download_state:
  assumes ok: "devices_ok db" and h: "history_ok es db" and c: "downloadConfig pf o' tk d body s db = (Inr c, db')"
  shows "(\<exists>x. last_issue d es = Some (dh_expected_version body, sn_userId s, sn_rootSessionId s, x, cx_sha256 (pf_codec pf) (cf_token c)) \<and> tk_write tk < x) \<and>
    Revoked d \<notin> set es \<and> (\<forall>e \<in> set es. \<not> downloaded d (dh_expected_version body) e) \<and> cf_device_id c = d"
    and "history_ok (Downloaded d (dh_expected_version body) (sn_userId s) (sn_rootSessionId s) (tk_write tk) c # es) db'"
proof -
  from c obtain r dev a token where l: "locked_device db (sn_tenantId s) d = Inr (r, dev)"
      and fine: "handoff_refused s body (tk_read tk) (tk_check tk) (r, dev) = None"
      and token: "stored_token pf o' (sn_tenantId s) (r, dev) = Some token" and conf: "c = device_config d token r a"
      and used: "consume_handoff d (tk_write tk) db = Some db'" by (rule download_cases)
  note rows = locked_rows [OF l]
  from rows h have row: "row_history es r dev" by (auto simp: history_ok_def)
  from fine have f: "pv_credentialVersion r = dh_expected_version body" "dv_revokedAt dev = None"
      "pv_handoffUserId r = Some (sn_userId s)" "pv_handoffSessionRoot r = Some (sn_rootSessionId s)" "pv_handoffConsumedAt r = None"
    by (auto simp: handoff_refused_def Let_def split: if_splits)
  have tok: "cx_sha256 (pf_codec pf) token = dv_tokenHash dev" "cf_token c = token" "cf_device_id c = d"
    using token by (auto simp: stored_token_def conf device_config_def Let_def split: option.splits sum.splits if_splits)
  from used obtain r' where "r' \<in> set (dd_provisionings db)" "pv_deviceId r' = d" "pv_handoffExpiresAt r' > tk_write tk"
    by (auto simp: consume_handoff_def list_ex_iff split: if_splits)
  with provisioning_unique [OF ok, of r' r] rows have live: "tk_write tk < pv_handoffExpiresAt r" by auto
  show "(\<exists>x. last_issue d es = Some (dh_expected_version body, sn_userId s, sn_rootSessionId s, x, cx_sha256 (pf_codec pf) (cf_token c)) \<and> tk_write tk < x) \<and>
      Revoked d \<notin> set es \<and> (\<forall>e \<in> set es. \<not> downloaded d (dh_expected_version body) e) \<and> cf_device_id c = d"
    using row f rows live tok by (auto simp: row_history_def)
  have used': "dd_devices db' = dd_devices db"
      "dd_provisionings db' = map (\<lambda>r. if pv_deviceId r = d then
         (if pv_handoffExpiresAt r > tk_write tk then r\<lparr>pv_handoffConsumedAt := Some (tk_write tk), pv_sealed := None\<rparr> else r) else r) (dd_provisionings db)"
    using consume_handoff_Some [OF used] by (auto intro!: map_cong)
  show "history_ok (Downloaded d (dh_expected_version body) (sn_userId s) (sn_rootSessionId s) (tk_write tk) c # es) db'"
  proof (rule history_step [OF h, where f = "\<lambda>x. x" and d = d and
      g = "\<lambda>r. if pv_handoffExpiresAt r > tk_write tk then r\<lparr>pv_handoffConsumedAt := Some (tk_write tk), pv_sealed := None\<rparr> else r"])
    fix r' x assume in': "r' \<in> set (dd_provisionings db)" "pv_deviceId r' = d" and old: "row_history es r' x"
    have "r' = r" using provisioning_unique [OF ok in'(1), of r] rows in'(2) by simp
    with old live f(1) rows show "row_history (Downloaded d (dh_expected_version body) (sn_userId s) (sn_rootSessionId s) (tk_write tk) c # es)
        (if pv_handoffExpiresAt r' > tk_write tk then r'\<lparr>pv_handoffConsumedAt := Some (tk_write tk), pv_sealed := None\<rparr> else r') x"
      by (auto simp: row_history_def)
  qed (use used' rows in auto)
qed

lemma history_reissue:
  assumes ok: "devices_ok db" and h: "history_ok es db" and c: "reissueConfig pf o' tk fr d body s db = (Inr p, db')" and n: "db' \<noteq> db"
  shows "history_ok (Issued d (dx_expected_version body + 1) (sn_userId s) (sn_rootSessionId s) (tk_write tk + HANDOFF_MS)
      (cx_sha256 (pf_codec pf) (to_base64url (fr_token fr))) # es) db'"
proof -
  from reissue_cases [OF c] n obtain r dev url sealed where l: "locked_device db (sn_tenantId s) d = Inr (r, dev)" "dv_revokedAt dev = None"
      "pv_credentialVersion r = dx_expected_version body"
      and db': "db' = set_provisioning d (reissued tk body s (pv_credentialVersion r + 1) (next_seq dev) url sealed)
        (set_device d (\<lambda>x. x\<lparr>dv_tokenHash := cx_sha256 (pf_codec pf) (to_base64url (fr_token fr))\<rparr>) db)" by blast
  note rows = locked_rows [OF l(1)]
  show ?thesis
  proof (rule history_step [OF h, where d = d])
    fix r' x assume in': "r' \<in> set (dd_provisionings db)" "pv_deviceId r' = d" and old: "row_history es r' x"
    have "r' = r" using provisioning_unique [OF ok in'(1), of r] rows in'(2) by simp
    with old l(3) rows show "row_history (Issued d (dx_expected_version body + 1) (sn_userId s) (sn_rootSessionId s) (tk_write tk + HANDOFF_MS)
        (cx_sha256 (pf_codec pf) (to_base64url (fr_token fr))) # es)
        (reissued tk body s (pv_credentialVersion r + 1) (next_seq dev) url sealed r')
        (x\<lparr>dv_tokenHash := cx_sha256 (pf_codec pf) (to_base64url (fr_token fr))\<rparr>)"
      by (fastforce simp: row_history_def reissued_def)
  qed (use db' rows in \<open>auto simp: reissued_def\<close>)
qed

lemma history_revoke:
  assumes h: "history_ok es db" and c: "revokeDevice tk d body s db = (Inr p, db')"
  shows "history_ok (Revoked d # es) db'"
proof -
  from c obtain r dev where l: "locked_device db (sn_tenantId s) d = Inr (r, dev)" and db': "db' = set_provisioning d (\<lambda>r. r\<lparr>pv_sealed := None\<rparr>)
       (set_device d (\<lambda>x. x\<lparr>dv_revokedAt := (case dv_revokedAt x of None \<Rightarrow> Some (tk_write tk) | Some t \<Rightarrow> Some t)\<rparr>) db)" by (rule revoke_cases)
  note rows = locked_rows [OF l]
  show ?thesis
  proof (rule history_step [OF h, where d = d])
    fix r' x assume "pv_deviceId r' = d" "row_history es r' x"
    then show "row_history (Revoked d # es) (r'\<lparr>pv_sealed := None\<rparr>)
        (x\<lparr>dv_revokedAt := (case dv_revokedAt x of None \<Rightarrow> Some (tk_write tk) | Some t \<Rightarrow> Some t)\<rparr>)"
      by (auto simp: row_history_def split: option.splits)
  qed (use db' rows in auto)
qed

lemma device_run_history:
  assumes "device_run pf db0 es db" and "devices_ok db0" and "dd_provisionings db0 = []"
  shows "history_ok es db"
  using assms
proof (induction rule: device_run.induct)
  case dr_start
  then show ?case by (simp add: history_ok_def)
qed (auto intro: history_other history_claim download_state(2) history_reissue history_revoke device_run_ok)

lemma device_run_download:
  assumes "device_run pf db0 es db" and "es = post @ Downloaded d v u a t c # pre"
  obtains o' tk body s db1 db2 where "device_run pf db0 pre db1" "downloadConfig pf o' tk d body s db1 = (Inr c, db2)"
    "v = dh_expected_version body" "u = sn_userId s" "a = sn_rootSessionId s" "t = tk_write tk"
  using assms
proof (induction arbitrary: post thesis rule: device_run.induct)
  case (dr_download es db o' tk d' body' s c' db')
  show ?case
  proof (cases post)
    case Nil
    with dr_download.prems(2) have "d' = d" "c' = c" "es = pre" "v = dh_expected_version body'" "u = sn_userId s" "a = sn_rootSessionId s" "t = tk_write tk"
      by auto
    with dr_download.hyps dr_download.prems(1) show ?thesis by blast
  next
    case (Cons e rest)
    with dr_download.prems(2) have "es = rest @ Downloaded d v u a t c # pre" by simp
    with dr_download.IH dr_download.prems(1) show ?thesis by blast
  qed
qed (auto simp: Cons_eq_append_conv)

text \<open>
  C6. From tables without provisioned devices, whatever is claimed, downloaded, replaced, revoked or changed elsewhere, and in whatever
  order, a secret configuration leaves only as follows: to the person and the sign-in the device's newest credential was issued to, before
  that issue expired, for the version asked, with the token whose hash is stored; never after the device was revoked, and never a second
  time for the same version.
\<close>

theorem handoff_once:
  assumes "device_run pf db0 es db" and "devices_ok db0" and "dd_provisionings db0 = []"
    and "es = post @ Downloaded d v u a t c # pre"
  shows "(\<exists>x. last_issue d pre = Some (v, u, a, x, cx_sha256 (pf_codec pf) (cf_token c)) \<and> t < x) \<and> cf_device_id c = d \<and>
    Revoked d \<notin> set pre \<and> (\<forall>e \<in> set pre. \<not> downloaded d v e)"
proof -
  obtain o' tk body s db1 db2 where r: "device_run pf db0 pre db1"
      "downloadConfig pf o' tk d body s db1 = (Inr c, db2)" "v = dh_expected_version body" "u = sn_userId s" "a = sn_rootSessionId s" "t = tk_write tk"
    by (rule device_run_download [OF assms(1,4)])
  from download_state(1) [OF device_run_ok [OF r(1) assms(2)] device_run_history [OF r(1) assms(2,3)] r(2)] show ?thesis
    unfolding r(3-6) by blast
qed

text \<open>
  C22. In every such history the tables stay consistent: one row per device and provisioning, at most one device for a plan and for a claim
  request of a tenant, every provisioning with its device in the same tenant, and no ciphertext left once the configuration was downloaded
  or the credential revoked.
\<close>

theorem device_tables_consistent:
  assumes "device_run pf db0 es db" and "devices_ok db0"
  shows "distinct (map dv_id (dd_devices db)) \<and> distinct (map pv_deviceId (dd_provisionings db)) \<and>
    distinct (map (\<lambda>r. (pv_buildId r, pv_planVersion r)) (dd_provisionings db)) \<and>
    distinct (map (\<lambda>r. (pv_tenantId r, pv_claimRequestId r)) (dd_provisionings db)) \<and>
    (\<forall>r \<in> set (dd_provisionings db). \<exists>x \<in> set (dd_devices db). dv_id x = pv_deviceId r \<and> dv_tenantId x = pv_tenantId r \<and>
       (pv_handoffConsumedAt r \<noteq> None \<or> dv_revokedAt x \<noteq> None \<longrightarrow> pv_sealed r = None))"
  using device_run_ok [OF assms] by (auto simp: devices_ok_def handoff_row_ok_def list_all_iff)

subsection \<open>An issued configuration can be downloaded\<close>

lemma last_char_values:
  "map b64_value ''AEIMQUYcgkosw048'' = map ((*) 4) [0..<16]" "list_all token_char ''AEIMQUYcgkosw048''"
  by (simp_all add: b64_value_code token_char_code Let_def upt_rec)

lemma last_token_char:
  assumes "token_char c" and "b64_value c mod 4 = 0"
  shows "one_of ''AEIMQUYcgkosw048'' c"
proof -
  obtain i where i: "b64_value c = 4 * i" using assms(2) by auto
  then have "i < 16" using b64_value_less [of c] by auto
  then have "b64_value c \<in> set (map b64_value ''AEIMQUYcgkosw048'')" unfolding last_char_values(1) i by simp
  then obtain d where d: "d \<in> set ''AEIMQUYcgkosw048''" "b64_value c = b64_value d" unfolding set_map by blast
  have "token_char d" using last_char_values(2) d(1) unfolding list_all_iff by (rule bspec)
  then have "c = d" using assms(1) d(2) by (metis b64_digit_value)
  with d(1) show ?thesis unfolding one_of_def by blast
qed
lemma token_canonical:
  assumes "bytes_ok bs" and "length bs = 32"
  shows "rx_full CanonicalToken (to_base64url bs)"
proof -
  let ?t = "to_base64url bs"
  have chars: "list_all token_char ?t" and len: "length ?t = 43" using assms by (simp_all add: base64url_chars length_to_base64url)
  have "session_token_ok ?t"
    unfolding session_token_ok_def TOKEN_PATTERN_def base64url_canonical_def
    using chars len assms by (auto simp: rx_full_lang lang_Times_Cls base64url_round simp del: Times.simps)
  then have four: "b64_value (last ?t) mod 4 = 0" by (simp add: session_token_iff)
  have ne: "?t \<noteq> []" using len by auto
  then have split: "?t = butlast ?t @ [last ?t]" by simp
  have tc: "token_char (last ?t)" using chars ne by (metis last_in_set list_all_iff)
  have l: "one_of ''AEIMQUYcgkosw048'' (last ?t)" by (rule last_token_char [OF tc four])
  have b: "list_all token_char (butlast ?t)" "length (butlast ?t) = 42" using chars len by (auto simp: list_all_iff dest: in_set_butlastD)
  have "rx_full CanonicalToken ?t \<longleftrightarrow> ?t \<in> lang CanonicalToken"
    by (rule rx_full_lang) (simp add: CanonicalToken_def del: Times.simps)
  moreover have "butlast ?t @ [last ?t] \<in> lang CanonicalToken"
    using b l unfolding CanonicalToken_def lang.simps lang_Times_Cls by blast
  ultimately show ?thesis using split by simp
qed

lemma authority_current:
  "loadProvisioningAuthority cx db tenant b v c profiles True = Inr a \<Longrightarrow> loadProvisioningAuthority cx db tenant b v c profiles False = Inr a"
  by (auto simp: loadProvisioningAuthority_def split: option.splits if_splits)

text \<open>What the profile's checks say of the channels of the authority.\<close>

lemma authority_typed:
  assumes "loadProvisioningAuthority cx db tenant b v c profiles rc = Inr a" and "ProvisioningProfiles_ok profiles"
  shows "ProvisionedChannels_ok (au_channels a)" "FirmwarePassedRecord_ok (au_firmware a)" "au_capabilities a = [] \<Longrightarrow> au_channels a \<noteq> []"
    "au_capabilities a \<noteq> [] \<Longrightarrow> DeviceCapabilities_ok (au_capabilities a) \<and> length (au_channels a) = length (numeric_channels (au_capabilities a)) \<and>
       list_all (\<lambda>(k, ch). map_of (numeric_channels (au_capabilities a)) k = Some ch) (au_channels a)"
    "fp_candidate_id (au_firmware a) = mf_profile_id (fp_manifest (au_firmware a))"
proof -
  from assms(1) obtain n metadata plan where "firmware_authority cx profiles db b v c n metadata plan = Inr a"
    by (auto simp: loadProvisioningAuthority_def split: option.splits sum.splits if_splits prod.splits)
  from firmware_authority_Inr [OF this] obtain bdl :: BundleRow and first :: FirmwarePassedRecord and r where fw:
      "resolveProvisioningProfile profiles plan (ev_parts (md_evidence metadata)) (mf_profile_id (fp_manifest first)) = Some r"
      "verifyProvisioningFirmware cx (bu_log bdl) \<lparr>fi_buildId = b, fi_planVersion = v, fi_codeVersion = c, fi_runtime = plan_runtime plan,
         fi_firmwareProfileId = pp_firmware_profile_id (po_profile r), fi_channels = po_channels r, fi_capabilities = po_capabilities r\<rparr> =
       Inr (Some (au_firmware a))" "au_channels a = po_channels r" "au_capabilities a = po_capabilities r"
    by blast
  note prof = resolved_profile [OF fw(1)]
  note ver = verified_firmware [OF fw(2), simplified]
  show "ProvisionedChannels_ok (au_channels a)" using prof(5) fw(3) by simp
  show "FirmwarePassedRecord_ok (au_firmware a)" using ver(1) by (cases "bu_log bdl") (auto split: if_splits)
  show "fp_candidate_id (au_firmware a) = mf_profile_id (fp_manifest (au_firmware a))" by (fact ver(2))
  let ?p = "po_profile r"
  have p: "ProvisioningProfile_ok ?p" using assms(2) prof(1) by (auto simp: ProvisioningProfiles_ok_def list_all_iff)
  have keys: "distinct (map pc_key (pp_channels ?p))"
    using p length_js_unique_eq_iff [of "map pc_key (pp_channels ?p)"] by (simp add: ProvisioningProfile_ok_def provisioning_issues_def)
  have ch: "po_channels r = map (\<lambda>c. (pc_key c, pc_range c)) (pp_channels ?p)"
  proof -
    have "fold (\<lambda>c. map_set (pc_key c) (pc_range c)) cs acc = acc @ map (\<lambda>c. (pc_key c, pc_range c)) cs"
      if "distinct (map fst acc @ map pc_key cs)" for cs acc
      using that
    proof (induction cs arbitrary: acc)
      case (Cons c cs)
      have "map_set k x m = m @ [(k, x)]" if "k \<notin> fst ` set m" for k x and m :: Channels
        using that by (induction k x m rule: map_set.induct) auto
      with Cons show ?case by (auto simp: image_iff)
    qed simp
    from this [of "[]"] keys show ?thesis by (simp add: prof(4) profile_channels_def)
  qed
  show "au_channels a \<noteq> []" if "au_capabilities a = []"
  proof -
    have "\<not> (case pp_capabilities ?p of None \<Rightarrow> False | Some caps \<Rightarrow> list_ex (\<lambda>c. is_image c \<and> cap_enabled c) caps)"
      using that by (auto simp: fw(4) prof(6) split: option.splits)
    then have "pp_channels ?p \<noteq> []" using p by (auto simp: ProvisioningProfile_ok_def provisioning_issues_def)
    then show ?thesis by (simp add: fw(3) ch)
  qed
  show "DeviceCapabilities_ok (au_capabilities a) \<and> length (au_channels a) = length (numeric_channels (au_capabilities a)) \<and>
       list_all (\<lambda>(k, ch). map_of (numeric_channels (au_capabilities a)) k = Some ch) (au_channels a)" if "au_capabilities a \<noteq> []"
  proof -
    from that obtain caps where caps: "pp_capabilities ?p = Some caps" "au_capabilities a = caps" by (auto simp: fw(4) prof(6) split: option.splits)
    then have "DeviceCapabilities_ok caps" "profile_capability_issues ?p = []"
      using p by (simp_all add: ProvisioningProfile_ok_def provisioning_issues_def)
    with caps show ?thesis
      by (auto simp: profile_capability_issues_def Let_def fw(3) ch list_all_iff list_ex_iff)
  qed
qed

lemma insert_device_forge: "insert_device dev r caps db = Some db' \<Longrightarrow> dd_forge db' = dd_forge db"
  by (auto simp: insert_device_def split: if_splits)

lemma find_last: "\<forall>x \<in> set xs. \<not> P x \<Longrightarrow> P y \<Longrightarrow> List.find P (xs @ [y]) = Some y"
  by (induction xs) auto

lemma claim_locked:
  assumes "insert_device (new_device tenant tk fr h a) (new_provisioning s tk fr body a url sealed) caps db = Some db'" and "tenant = sn_tenantId s"
    and "owned (dd_forge db) (dc_build_id body) tenant"
  shows "locked_device db' tenant (fr_deviceId fr) = Inr (new_provisioning s tk fr body a url sealed, new_device tenant tk fr h a)"
proof -
  let ?x = "new_device tenant tk fr h a" and ?r = "new_provisioning s tk fr body a url sealed"
  have f: "dv_id ?x = fr_deviceId fr" "dv_tenantId ?x = tenant" "pv_deviceId ?r = fr_deviceId fr" "pv_tenantId ?r = sn_tenantId s"
    "pv_buildId ?r = dc_build_id body" by (simp_all add: new_device_def new_provisioning_def)
  from assms(1) have n: "dd_devices db' = dd_devices db @ [?x]" "dd_provisionings db' = dd_provisionings db @ [?r]"
      "\<forall>x \<in> set (dd_devices db). dv_id x \<noteq> fr_deviceId fr" "\<forall>r \<in> set (dd_provisionings db). pv_deviceId r \<noteq> fr_deviceId fr"
    by (auto simp: insert_device_def list_ex_iff f split: if_splits)
  have "List.find (\<lambda>r. pv_tenantId r = tenant \<and> pv_deviceId r = fr_deviceId fr) (dd_provisionings db @ [?r]) = Some ?r"
    "List.find (\<lambda>x. dv_id x = fr_deviceId fr \<and> dv_tenantId x = tenant) (dd_devices db @ [?x]) = Some ?x"
    using n f assms(2) by (auto intro!: find_last)
  then show ?thesis
    using assms(3) insert_device_forge [OF assms(1)] by (simp add: locked_device_def device_pair_def n f)
qed

lemma authority_identity:
  assumes "loadProvisioningAuthority cx db tenant b v c profiles rc = Inr a"
  shows "owned db b tenant"
  using assms by (auto simp: loadProvisioningAuthority_def split: if_splits)

lemma claim_config_ok:
  assumes load: "loadProvisioningAuthority cx db tenant (dc_build_id body) (dc_plan_version body) (dc_code_version body) profiles rc = Inr a"
    and p: "ProvisioningProfiles_ok profiles" and url: "is_url url" "rx_full INGEST_URL url" "is_url (observation_url_of url (fr_deviceId fr))"
    and ids: "DeviceClaimRequest_ok body" "rx_full z_uuid (fr_deviceId fr)" and token: "bytes_ok (fr_token fr)" "length (fr_token fr) = 32"
  shows "DeviceConfig_ok is_url (device_config (fr_deviceId fr) (to_base64url (fr_token fr)) (new_provisioning s tk fr body a url sealed) a)"
proof -
  note typed = authority_typed [OF load p]
  have rec: "FirmwareManifest_ok (fp_manifest (au_firmware a))" "Sha256Hex (fp_manifest_digest (au_firmware a))"
    using typed(2) by (simp_all add: FirmwarePassedRecord_ok_def)
  have base: "config_base_ok is_url (device_config (fr_deviceId fr) (to_base64url (fr_token fr)) (new_provisioning s tk fr body a url sealed) a)"
    using rec url(1,2) ids token_canonical [OF token]
    by (simp add: config_base_ok_def device_config_def Let_def new_provisioning_def FirmwareManifest_ok_def DeviceClaimRequest_ok_def MAX_SAFE_INTEGER_def)
  show ?thesis
  proof (cases "au_capabilities a = []")
    case True
    then have "DeviceConfigV1_ok is_url (device_config (fr_deviceId fr) (to_base64url (fr_token fr)) (new_provisioning s tk fr body a url sealed) a)"
      using base typed(1,3) by (simp add: DeviceConfigV1_ok_def) (simp add: device_config_def TelemetryChannels_ok_def Let_def)
    then show ?thesis by (simp add: DeviceConfig_ok_def)
  next
    case False
    then have "DeviceConfigV2_ok is_url (device_config (fr_deviceId fr) (to_base64url (fr_token fr)) (new_provisioning s tk fr body a url sealed) a)"
      using base typed(1,4) url(3) by (simp add: DeviceConfigV2_ok_def) (simp add: device_config_def Let_def new_provisioning_def)
    then show ?thesis by (simp add: DeviceConfig_ok_def)
  qed
qed

lemma claimed_downloads:
  assumes crypto: "aead_ok (pf_aead pf)" "op_keys o' = Some keys" "ring_ok keys" "bytes_ok (fr_token fr)" "length (fr_token fr) = 32"
      "bytes_ok (fr_nonce fr)" "length (fr_nonce fr) = 12"
    and urls: "op_ingestUrl o' = Some url" "pf_url pf url" "rx_full INGEST_URL url" "pf_url pf (observation_url_of url (fr_deviceId fr))"
    and given: "ProvisioningProfiles_ok (op_profiles o')" "DeviceClaimRequest_ok body" "rx_full z_uuid (fr_deviceId fr)"
    and claim: "claimDevice pf o' tk fr body s db = (Inr p, db')" "db' \<noteq> db"
    and request: "dh_expected_version again = 1"
    and timely: "checkExpiry s (tk_check tk')" "checkExpiry s (tk_recheck tk')" "tk_read tk' < tk_write tk + HANDOFF_MS" "tk_write tk' < tk_write tk + HANDOFF_MS"
  shows "\<exists>c db''. downloadConfig pf o' tk' (fr_deviceId fr) again s db' = (Inr c, db'') \<and> DeviceConfig_ok (pf_url pf) c \<and>
    cf_device_id c = fr_deviceId fr \<and> cf_token c = to_base64url (fr_token fr) \<and>
    (\<exists>x \<in> set (dd_devices db''). dv_id x = fr_deviceId fr \<and> dv_tokenHash x = cx_sha256 (pf_codec pf) (cf_token c) \<and> dv_revokedAt x = None) \<and>
    downloadConfig pf o' tk' (fr_deviceId fr) again s db'' = (Inl handoff_gone, db'')"
proof -
  have "\<not> rx_full INGEST_URL []" by code_simp
  then have "url \<noteq> []" using urls(3) by auto
  then have conf: "configured o' = Inr (keys, url)" using crypto(2) urls(1) by (simp add: configured_def)
  from claim_cases [OF claim(1)] claim(2) conf obtain a sealed where
      load: "loadProvisioningAuthority (pf_codec pf) (dd_forge db) (sn_tenantId s) (dc_build_id body) (dc_plan_version body) (dc_code_version body)
        (op_profiles o') True = Inr a"
      and seal: "sealCredential (pf_aead pf) (fr_nonce fr) (to_base64url (fr_token fr)) (row_binding (new_provisioning s tk fr body a url sealed) (sn_tenantId s)) keys = Inr sealed"
      and ins: "insert_device (new_device (sn_tenantId s) tk fr (cx_sha256 (pf_codec pf) (to_base64url (fr_token fr))) a)
        (new_provisioning s tk fr body a url sealed) (au_capabilities a) db = Some db'" by auto
  let ?r = "new_provisioning s tk fr body a url sealed" and ?token = "to_base64url (fr_token fr)"
  let ?x = "new_device (sn_tenantId s) tk fr (cx_sha256 (pf_codec pf) ?token) a"
  note forge = insert_device_forge [OF ins]
  note own = authority_identity [OF load]
  have l: "locked_device db' (sn_tenantId s) (fr_deviceId fr) = Inr (?r, ?x)" by (rule claim_locked [OF ins refl own])
  have row: "pv_credentialVersion ?r = 1" "pv_handoffUserId ?r = Some (sn_userId s)" "pv_handoffSessionRoot ?r = Some (sn_rootSessionId s)"
    "pv_handoffConsumedAt ?r = None" "pv_handoffExpiresAt ?r = tk_write tk + HANDOFF_MS" "pv_sealed ?r = Some sealed" "pv_buildId ?r = dc_build_id body"
    "pv_planVersion ?r = dc_plan_version body" "pv_codeVersion ?r = dc_code_version body" "pv_manifestDigest ?r = fp_manifest_digest (au_firmware a)"
    "pv_deviceId ?r = fr_deviceId fr" "pv_ingestUrl ?r = url"
    by (simp_all add: new_provisioning_def)
  have dev: "dv_revokedAt ?x = None" "dv_tokenHash ?x = cx_sha256 (pf_codec pf) ?token" "dv_id ?x = fr_deviceId fr" by (simp_all add: new_device_def)
  have fine: "handoff_refused s again (tk_read tk') (tk_check tk') (?r, ?x) = None"
    using timely request by (simp add: handoff_refused_def row dev)
  have same: "keys\<lparr>hk_active := sl_keyId sealed\<rparr> = keys"
    using seal by (auto simp: sealCredential_def split: option.splits if_splits prod.splits)
  then have "openCredential (pf_aead pf) sealed (row_binding ?r (sn_tenantId s)) keys = Inr ?token"
    using seal crypto(6,7) unfolding open_iff_sealed_lemma [OF crypto(1,3)] by auto
  then have token: "stored_token pf o' (sn_tenantId s) (?r, ?x) = Some ?token" by (simp add: stored_token_def conf row dev)
  have ok: "DeviceConfig_ok (pf_url pf) (device_config (fr_deviceId fr) ?token ?r a)"
    by (rule claim_config_ok [OF load given(1) urls(2-4) given(2,3) crypto(4,5)])
  have mine: "r = ?r" if "r \<in> set (dd_provisionings db')" "pv_deviceId r = fr_deviceId fr" for r
    using ins that by (auto simp: insert_device_def list_ex_iff row split: if_splits)
  have "?r \<in> set (dd_provisionings db')" "?x \<in> set (dd_devices db')" using locked_rows [OF l] by simp_all
  then have "list_ex (\<lambda>r. pv_deviceId r = fr_deviceId fr \<and> pv_handoffExpiresAt r > tk_write tk') (dd_provisionings db')"
    unfolding list_ex_iff using timely(4) row by (intro bexI [of _ ?r]) simp_all
  then obtain db'' where used: "consume_handoff (fr_deviceId fr) (tk_write tk') db' = Some db''"
    unfolding consume_handoff_def by (simp only: if_True)
  have down: "downloadConfig pf o' tk' (fr_deviceId fr) again s db' = (Inr (device_config (fr_deviceId fr) ?token ?r a), db'')"
    unfolding downloadConfig_def l sum.case fine option.case Let_def fst_conv forge row authority_current [OF load]
    using ok timely(2) by (simp add: token used)
  note used' = consume_handoff_Some [OF used]
  have "dd_forge db'' = dd_forge db'" using used by (auto simp: consume_handoff_def set_provisioning_def split: if_splits)
  then have l2: "locked_device db'' (sn_tenantId s) (fr_deviceId fr) = Inr (?r\<lparr>pv_handoffConsumedAt := Some (tk_write tk'), pv_sealed := None\<rparr>, ?x)"
  proof -
    let ?g = "\<lambda>r. if pv_deviceId r = fr_deviceId fr \<and> pv_handoffExpiresAt r > tk_write tk' then r\<lparr>pv_handoffConsumedAt := Some (tk_write tk'), pv_sealed := None\<rparr> else r"
    have moved: "List.find (\<lambda>r. pv_tenantId r = t \<and> pv_deviceId r = i) (map ?g rs) = map_option ?g (List.find (\<lambda>r. pv_tenantId r = t \<and> pv_deviceId r = i) rs)" for rs t i
      by (induction rs) auto
    from l have old: "List.find (\<lambda>r. pv_tenantId r = sn_tenantId s \<and> pv_deviceId r = fr_deviceId fr) (dd_provisionings db') = Some ?r"
        "List.find (\<lambda>x. dv_id x = fr_deviceId fr \<and> dv_tenantId x = sn_tenantId s) (dd_devices db') = Some ?x" "owned (dd_forge db') (dc_build_id body) (sn_tenantId s)"
      by (auto simp: locked_device_def device_pair_def row split: option.splits if_splits)
    have g: "?g ?r = ?r\<lparr>pv_handoffConsumedAt := Some (tk_write tk'), pv_sealed := None\<rparr>" using timely(4) row(5,11) by simp
    have "List.find (\<lambda>r. pv_tenantId r = sn_tenantId s \<and> pv_deviceId r = fr_deviceId fr) (dd_provisionings db'') =
        Some (?r\<lparr>pv_handoffConsumedAt := Some (tk_write tk'), pv_sealed := None\<rparr>)"
      unfolding conjunct2 [OF used'] moved old(1) option.map g ..
    then show ?thesis
      using old(2,3) \<open>dd_forge db'' = dd_forge db'\<close> row by (simp add: locked_device_def device_pair_def used')
  qed
  have again: "handoff_refused s again (tk_read tk') (tk_check tk') (?r\<lparr>pv_handoffConsumedAt := Some (tk_write tk'), pv_sealed := None\<rparr>, ?x) = Some handoff_gone"
    using timely request by (simp add: handoff_refused_def row dev)
  have "downloadConfig pf o' tk' (fr_deviceId fr) again s db'' = (Inl handoff_gone, db'')"
    unfolding downloadConfig_def l2 sum.case again option.case ..
  with down ok dev used' \<open>?x \<in> set (dd_devices db')\<close> show ?thesis
    by (intro exI [of _ "device_config (fr_deviceId fr) ?token ?r a"] exI [of _ db'']) (auto simp: device_config_def Let_def)
qed

text \<open>
  C13. What was claimed can be downloaded, once. After a claim that made a device, the same person and sign-in obtains its configuration
  within ten minutes: the sealed token opens, the configuration has its schema's form, and its token is the one drawn, whose hash is the
  device's. A second download is answered that it is gone, and changes nothing.
\<close>

theorem claimed_configuration_downloads:
  assumes crypto: "aead_ok (pf_aead pf)" "op_keys o' = Some keys" "ring_ok keys" "bytes_ok (fr_token fr)" "length (fr_token fr) = 32"
      "bytes_ok (fr_nonce fr)" "length (fr_nonce fr) = 12"
    and urls: "op_ingestUrl o' = Some url" "pf_url pf url" "rx_full INGEST_URL url" "pf_url pf (observation_url_of url (fr_deviceId fr))"
    and given: "ProvisioningProfiles_ok (op_profiles o')" "DeviceClaimRequest_ok body" "rx_full z_uuid (fr_deviceId fr)"
    and claim: "claimDevice pf o' tk fr body s db = (Inr p, db')" "db' \<noteq> db"
    and request: "dh_expected_version again = 1"
    and timely: "checkExpiry s (tk_check tk')" "checkExpiry s (tk_recheck tk')" "tk_read tk' < tk_write tk + HANDOFF_MS" "tk_write tk' < tk_write tk + HANDOFF_MS"
  shows "\<exists>c db''. downloadConfig pf o' tk' (fr_deviceId fr) again s db' = (Inr c, db'') \<and> DeviceConfig_ok (pf_url pf) c \<and>
    cf_device_id c = fr_deviceId fr \<and> cf_token c = to_base64url (fr_token fr) \<and>
    (\<exists>x \<in> set (dd_devices db''). dv_id x = fr_deviceId fr \<and> dv_tokenHash x = cx_sha256 (pf_codec pf) (cf_token c) \<and> dv_revokedAt x = None) \<and>
    downloadConfig pf o' tk' (fr_deviceId fr) again s db'' = (Inl handoff_gone, db'')"
  by (rule claimed_downloads [OF assms])

subsection \<open>The worked build, claimed\<close>

definition desk_platform :: Platform where
  "desk_platform = \<lparr>pf_codec = board_codec, pf_aead = plain_aead, pf_url = (\<lambda>_. True)\<rparr>"

definition desk_options :: DeviceProvisioningOptions where
  "desk_options = \<lparr>op_keys = Some desk_ring, op_ingestUrl = Some ''https://in.example/ingest/v1'', op_profiles = [shop_profile]\<rparr>"

definition desk_fresh :: Fresh where
  "desk_fresh = \<lparr>fr_deviceId = shop_lease, fr_token = replicate 32 5, fr_nonce = replicate 12 3\<rparr>"

definition desk_claim :: DeviceClaimRequest where
  "desk_claim = \<lparr>dc_expected_tenant_id = shop_build, dc_build_id = shop_build, dc_plan_version = 1, dc_code_version = 1, dc_request_id = shop_build\<rparr>"

definition desk_handoff :: DeviceHandoffRequest where
  "desk_handoff = \<lparr>dh_expected_tenant_id = shop_build, dh_expected_version = 1\<rparr>"

definition desk_ticks :: Ticks where
  "desk_ticks = \<lparr>tk_begin = 1, tk_admit = 2, tk_roots = 3, tk_read = 4, tk_check = 5, tk_recheck = 6, tk_write = 7, tk_again = 8, tk_end = 9\<rparr>"

definition desk_session :: ProvisioningSession where
  "desk_session = \<lparr>sn_tenantId = ''t'', sn_userId = ''u'', sn_rootSessionId = ''s1'',
     sn_identity = \<lparr>wi_tenantId = ''t'', wi_userId = ''u'', wi_family = ad_sessions shop_auth\<rparr>\<rparr>"

definition desk_devices :: DeviceDb where
  "desk_devices = \<lparr>dd_forge = shop_passed, dd_devices = [], dd_capabilities = [], dd_provisionings = []\<rparr>"

lemma desk_check: "checkExpiry desk_session (tk_check desk_ticks)" "checkExpiry desk_session (tk_recheck desk_ticks)"
  by (simp_all add: checkExpiry_def recheckExpiry_def unexpired_def desk_session_def desk_ticks_def shop_auth_def)

lemma desk_claim_ok: "DeviceClaimRequest_ok desk_claim"
  using shop_uuid by (simp add: DeviceClaimRequest_ok_def desk_claim_def z_posint_def MAX_SAFE_INTEGER_def)

lemma desk_url: "rx_full INGEST_URL ''https://in.example/ingest/v1''"
  by code_simp

lemma desk_drawn: "bytes_ok (fr_token desk_fresh)" "length (fr_token desk_fresh) = 32" "bytes_ok (fr_nonce desk_fresh)" "length (fr_nonce desk_fresh) = 12"
  by (simp_all add: desk_fresh_def bytes_ok_def list_all_iff)

lemma desk_device:
  obtains p db' x where "claimDevice desk_platform desk_options desk_ticks desk_fresh desk_claim desk_session desk_devices = (Inr p, db')"
    "dd_devices db' = [x]" "dd_capabilities db' = []" "map pv_deviceId (dd_provisionings db') = [shop_lease]"
    "dv_id x = shop_lease" "dv_tokenHash x = shop_hash" "dv_revokedAt x = None" "dv_nextS x = 60"
    "dv_channels x = [(''illuminance'', channel_of \<lparr>ch_unit = ''lux'', ch_min = 0, ch_max = 65535\<rparr>)]"
    "dv_lastSeenAt x = None" "dv_lastSeq x = None" "dv_status x = None"
proof -
  have own: "owned (dd_forge desk_devices) (dc_build_id desk_claim) (sn_tenantId desk_session)"
    by (simp add: owned_def desk_devices_def desk_claim_def desk_session_def shop_passed_def shop_db_def shop_auth_def)
  obtain a where load: "loadProvisioningAuthority (pf_codec desk_platform) (dd_forge desk_devices) (sn_tenantId desk_session) (dc_build_id desk_claim)
      (dc_plan_version desk_claim) (dc_code_version desk_claim) (op_profiles desk_options) True = Inr a" "au_nextS a = 60" "au_capabilities a = []"
      "au_channels a = [(''illuminance'', channel_of \<lparr>ch_unit = ''lux'', ch_min = 0, ch_max = 65535\<rparr>)]"
    using shop_authority [of True] by (simp add: desk_platform_def desk_devices_def desk_session_def desk_claim_def desk_options_def)
  have conf: "configured desk_options = Inr (desk_ring, ''https://in.example/ingest/v1'')" by (simp add: configured_def desk_options_def)
  let ?token = "to_base64url (fr_token desk_fresh)"
  let ?b = "\<lparr>cn_deviceId = fr_deviceId desk_fresh, cn_tenantId = sn_tenantId desk_session, cn_buildId = dc_build_id desk_claim,
      cn_planVersion = dc_plan_version desk_claim, cn_handoffVersion = 1\<rparr>"
  have "b64_canonical ?token 32" using desk_token_canonical by (simp add: desk_fresh_def)
  then obtain sealed where seal: "sealCredential (pf_aead desk_platform) (fr_nonce desk_fresh) ?token ?b desk_ring = Inr sealed"
    by (simp add: sealCredential_def desk_ring_def desk_platform_def plain_aead_def)
  let ?x = "new_device (sn_tenantId desk_session) desk_ticks desk_fresh (cx_sha256 (pf_codec desk_platform) ?token) a"
  let ?r = "new_provisioning desk_session desk_ticks desk_fresh desk_claim a ''https://in.example/ingest/v1'' sealed"
  obtain db' where ins: "insert_device ?x ?r (au_capabilities a) desk_devices = Some db'" "dd_devices db' = [?x]" "dd_capabilities db' = []" "dd_provisionings db' = [?r]"
    by (simp add: insert_device_def desk_devices_def load(3))
  have l: "locked_device db' (sn_tenantId desk_session) (fr_deviceId desk_fresh) = Inr (?r, ?x)" by (rule claim_locked [OF ins(1) refl own])
  obtain p where "session_status (?r, ?x) (tk_again desk_ticks) desk_session = Inr p"
    using shop_uuid shop_lease_uuid
    by (simp add: session_status_def provisioning_status_def Let_def DeviceProvisioning_ok_def new_provisioning_def desk_fresh_def
      desk_claim_def z_posint_def MAX_SAFE_INTEGER_def)
  then have st: "device_status db' (fr_deviceId desk_fresh) (tk_again desk_ticks) desk_session = Inr p"
    unfolding device_status_def l sum.case .
  have "claim_fresh desk_platform desk_options desk_ticks desk_fresh desk_claim desk_session desk_devices = (Inr p, db')"
    unfolding claim_fresh_def load(1) sum.case conf prod.case Let_def seal ins(1) option.case st using desk_check(1) by simp
  then have "claimDevice desk_platform desk_options desk_ticks desk_fresh desk_claim desk_session desk_devices = (Inr p, db')"
    using own unfolding claimDevice_def by (simp add: desk_devices_def)
  from this ins(2,3) show thesis
    by (rule that) (simp_all add: ins(4) new_device_def new_provisioning_def desk_fresh_def desk_platform_def shop_sha load(2,4))
qed

lemma desk_claimed:
  obtains p db' where "claimDevice desk_platform desk_options desk_ticks desk_fresh desk_claim desk_session desk_devices = (Inr p, db')" "db' \<noteq> desk_devices"
proof -
  obtain p db' x where c: "claimDevice desk_platform desk_options desk_ticks desk_fresh desk_claim desk_session desk_devices = (Inr p, db')" "dd_devices db' = [x]"
    by (rule desk_device)
  from c(2) have "db' \<noteq> desk_devices" by (auto simp: desk_devices_def)
  with c(1) show thesis by (rule that)
qed

lemma desk_facts:
  "aead_ok (pf_aead desk_platform)" "op_keys desk_options = Some desk_ring" "op_ingestUrl desk_options = Some ''https://in.example/ingest/v1''"
  "pf_url desk_platform x" "ProvisioningProfiles_ok (op_profiles desk_options)" "rx_full z_uuid (fr_deviceId desk_fresh)" "dh_expected_version desk_handoff = 1"
  "tk_read desk_ticks < tk_write desk_ticks + HANDOFF_MS" "tk_write desk_ticks < tk_write desk_ticks + HANDOFF_MS"
  using plain_aead_ok shop_profile_ok shop_lease_uuid
  by (simp_all add: desk_platform_def desk_options_def desk_fresh_def desk_handoff_def desk_ticks_def HANDOFF_MS_def)

theorem claimed_configuration_downloads_witness:
  "\<exists>c db'' db'. downloadConfig desk_platform desk_options desk_ticks shop_lease desk_handoff desk_session db' = (Inr c, db'') \<and>
     cf_token c = to_base64url (replicate 32 5)"
proof -
  obtain p db' where c: "claimDevice desk_platform desk_options desk_ticks desk_fresh desk_claim desk_session desk_devices = (Inr p, db')" "db' \<noteq> desk_devices"
    by (rule desk_claimed)
  from claimed_configuration_downloads [OF desk_facts(1,2) desk_ring_ok desk_drawn desk_facts(3,4) desk_url desk_facts(4,5) desk_claim_ok desk_facts(6) c
      desk_facts(7) desk_check desk_facts(8,9)]
  show ?thesis unfolding desk_fresh_def by auto
qed

lemma desk_history:
  obtains c db where "device_run desk_platform desk_devices
    [Downloaded shop_lease 1 ''u'' ''s1'' 7 c, Issued shop_lease 1 ''u'' ''s1'' 600007 shop_hash] db"
proof -
  obtain p db' where c: "claimDevice desk_platform desk_options desk_ticks desk_fresh desk_claim desk_session desk_devices = (Inr p, db')" "db' \<noteq> desk_devices"
    by (rule desk_claimed)
  obtain conf db'' where d: "downloadConfig desk_platform desk_options desk_ticks (fr_deviceId desk_fresh) desk_handoff desk_session db' = (Inr conf, db'')"
    using claimed_downloads [OF desk_facts(1,2) desk_ring_ok desk_drawn desk_facts(3,4) desk_url desk_facts(4,5) desk_claim_ok desk_facts(6) c
      desk_facts(7) desk_check desk_facts(8,9)] by blast
  from dr_download [OF dr_claim [OF dr_start c] d] have "device_run desk_platform desk_devices
      [Downloaded shop_lease 1 ''u'' ''s1'' 7 conf, Issued shop_lease 1 ''u'' ''s1'' 600007 shop_hash] db''"
    by (simp add: desk_fresh_def desk_handoff_def desk_session_def desk_ticks_def HANDOFF_MS_def desk_platform_def shop_sha)
  then show thesis by (rule that)
qed

lemma desk_devices_ok: "devices_ok desk_devices" "dd_provisionings desk_devices = []"
  by (simp_all add: devices_ok_def desk_devices_def)

theorem handoff_once_witness:
  "\<exists>c :: DeviceConfig. cf_device_id c = shop_lease \<and> shop_hash = cx_sha256 (pf_codec desk_platform) (cf_token c)"
proof -
  obtain c db where r: "device_run desk_platform desk_devices
      [Downloaded shop_lease 1 ''u'' ''s1'' 7 c, Issued shop_lease 1 ''u'' ''s1'' 600007 shop_hash] db" by (rule desk_history)
  from handoff_once [OF r desk_devices_ok, of "[]"] show ?thesis by auto
qed

theorem device_tables_consistent_witness:
  "\<exists>es db. es \<noteq> [] \<and> device_run desk_platform desk_devices es db \<and> distinct (map pv_deviceId (dd_provisionings db))"
proof -
  obtain c db where r: "device_run desk_platform desk_devices
      [Downloaded shop_lease 1 ''u'' ''s1'' 7 c, Issued shop_lease 1 ''u'' ''s1'' 600007 shop_hash] db" by (rule desk_history)
  from device_tables_consistent [OF r desk_devices_ok(1)] r show ?thesis by blast
qed


end
