(* ===== verification/Telemetry_Ingest.thy ===== *)
theory Telemetry_Ingest
  imports Device_Provisioning
begin
text \<open>
  What devices upload: \<open>apps/cloudlink/src/routes.ts\<close> with \<open>device-auth.ts\<close>, over the tables of \<open>packages/db/src/schema/telemetry.ts\<close> and
  the retention bound its insert trigger checks. A packet is one transaction under the device's lock. Times of readings are milliseconds
  in the tables and seconds on the wire. The tables that only background jobs read are left out.
\<close>

subsection \<open>Credentials\<close>

definition BEARER :: rx where
  "BEARER = Seq (Lit ''Bearer '') (Times 43 (Cls token_char))"

definition bearerHash :: "(string \<Rightarrow> string) \<Rightarrow> string option \<Rightarrow> string option" where
  "bearerHash sha256 authorization =
     (case authorization of None \<Rightarrow> None | Some a \<Rightarrow> if rx_full BEARER a then Some (sha256 (drop 7 a)) else None)"

definition authenticate :: "DeviceDb \<Rightarrow> string \<Rightarrow> string \<Rightarrow> DeviceRow option" where
  "authenticate db dev h = List.find (\<lambda>d. dv_id d = dev \<and> dv_tokenHash d = h \<and> dv_revokedAt d = None) (dd_devices db)"

subsection \<open>Tables\<close>

record TelemetryAck =
  ta_ok :: nat
  ta_next_s :: int

definition TelemetryAck_ok :: "TelemetryAck \<Rightarrow> bool" where
  "TelemetryAck_ok a \<longleftrightarrow> 1 \<le> ta_ok a \<and> ta_ok a \<le> 500 \<and> 1 \<le> ta_next_s a \<and> ta_next_s a \<le> 86400"

record PacketRow =
  pk_deviceId :: string
  pk_seq :: int
  pk_fingerprint :: string
  pk_response :: TelemetryAck

record Sample =
  sm_channel :: string
  sm_ts :: int
  sm_seq :: int
  sm_ordinal :: nat
  sm_value :: jsnum

record UsageRow =
  ug_readings :: int
  ug_bytes :: int

record PresenceRow =
  ps_lastCapture :: int
  ps_lastReceived :: int

record IngestDb =
  ig_devices :: DeviceDb
  ig_packets :: "PacketRow list"
  ig_readings :: "(string \<times> Sample) list"
  ig_latest :: "((string \<times> string) \<times> Sample) list"
  ig_usage :: "((string \<times> string) \<times> UsageRow) list"
  ig_presence :: "((string \<times> string) \<times> PresenceRow) list"
  ig_rawBefore :: int

subsection \<open>The canonical packet\<close>

definition opt_field :: "string \<Rightarrow> int option \<Rightarrow> (string \<times> jvalue) list" where
  "opt_field k x = (case x of None \<Rightarrow> [] | Some n \<Rightarrow> [(k, jint n)])"

definition envelope_json :: "TelemetryEnvelope \<Rightarrow> jvalue" where
  "envelope_json e =
     JObj [(''v'', jint (te_v e)), (''dev'', JStr (te_dev e)), (''seq'', jint (te_seq e)), (''ts'', jint (te_ts e)),
       (''r'', JArr (map (\<lambda>r. JObj [(''c'', JStr (er_c r)), (''t'', jint (er_t r)), (''v'', JNum (er_v r))]) (te_r e))),
       (''st'', JObj (opt_field ''batt_mv'' (es_batt_mv (te_st e)) @ opt_field ''rssi'' (es_rssi (te_st e)) @
          [(''up_s'', jint (es_up_s (te_st e))), (''health'', JArr (map JStr (es_health (te_st e))))]))]"

definition canonical :: "TelemetryEnvelope \<Rightarrow> string" where
  "canonical e = (case json_stringify (envelope_json e) of None \<Rightarrow> [] | Some t \<Rightarrow> t)"

text \<open>\<open>Buffer.byteLength\<close>, of characters below 256.\<close>

definition byteLength :: "string \<Rightarrow> nat" where
  "byteLength s = sum_list (map (\<lambda>c. if (of_char c :: nat) < 128 then 1 else 2) s)"

subsection \<open>Admitting a packet\<close>

definition ingest_error :: "nat \<Rightarrow> string \<Rightarrow> HttpError" where
  "ingest_error = http_error"

definition storage_unavailable :: HttpError where
  "storage_unavailable = http_error 503 ''storage_unavailable''"

text \<open>The channels a device's enabled measurements allow; \<open>None\<close> when a stored one fails its schema.\<close>

definition device_caps :: "DeviceDb \<Rightarrow> string \<Rightarrow> SensorCapability list" where
  "device_caps db dev = map cp_capability (filter (\<lambda>c. cp_deviceId c = dev) (dd_capabilities db))"

definition measuring :: "SensorCapability \<Rightarrow> bool" where
  "measuring c \<longleftrightarrow> cap_enabled c \<and> \<not> is_image c"

definition authorized_channels :: "SensorCapability list \<Rightarrow> string list option" where
  "authorized_channels caps =
     (if list_all (\<lambda>c. TelemetryChannels_ok (cap_channels c)) (filter measuring caps)
      then Some (concat (map (\<lambda>c. map fst (cap_channels c)) (filter measuring caps))) else None)"

definition capability_refused :: "DeviceDb \<Rightarrow> TelemetryEnvelope \<Rightarrow> HttpError option" where
  "capability_refused db e =
     (let caps = device_caps db (te_dev e) in
      if caps = [] then None
      else case authorized_channels caps of
        None \<Rightarrow> Some storage_unavailable
      | Some ks \<Rightarrow> if list_ex (\<lambda>r. er_c r \<notin> set ks) (te_r e) then Some (ingest_error 403 ''capability_forbidden'') else None)"

definition valid_time :: "int \<Rightarrow> int \<Rightarrow> bool" where
  "valid_time seconds t \<longleftrightarrow> seconds - 90 * 86400 \<le> t \<and> t \<le> seconds + 300"

definition time_error :: HttpError where
  "time_error = ingest_error 422 ''timestamp_out_of_range''"

fun normalized_readings :: "Channels \<Rightarrow> int \<Rightarrow> TelemetryEnvelope \<Rightarrow> nat \<Rightarrow> EnvelopeReading list \<Rightarrow> HttpError + Sample list" where
  "normalized_readings channels seconds e n [] = Inr []"
| "normalized_readings channels seconds e n (r # rs) =
     (case map_of channels (er_c r) of
        None \<Rightarrow> Inl (ingest_error 422 ''unknown_channel'')
      | Some c \<Rightarrow>
          if jless (er_v r) (tc_min c) \<or> jless (tc_max c) (er_v r) then Inl (ingest_error 422 ''value_out_of_range'')
          else (let ts = (if er_t r < 0 then te_ts e + er_t r else er_t r) in
                if \<not> valid_time seconds ts \<or> ts > te_ts e then Inl time_error
                else (case normalized_readings channels seconds e (Suc n) rs of
                   Inl err \<Rightarrow> Inl err
                 | Inr ss \<Rightarrow> Inr (\<lparr>sm_channel = er_c r, sm_ts = ts * 1000, sm_seq = te_seq e, sm_ordinal = n, sm_value = er_v r\<rparr> # ss))))"

subsection \<open>Storing a packet\<close>

definition later_sample :: "Sample \<Rightarrow> Sample \<Rightarrow> bool" where
  "later_sample a b \<longleftrightarrow>
     sm_ts a > sm_ts b \<or> (sm_ts a = sm_ts b \<and> (sm_seq a > sm_seq b \<or> (sm_seq a = sm_seq b \<and> sm_ordinal a > sm_ordinal b)))"

text \<open>\<open>DISTINCT ON (channel)\<close>, ordered by time and ordinal: the first row of each channel.\<close>

definition newest :: "Sample \<Rightarrow> Sample \<Rightarrow> int" where
  "newest a b =
     (if sm_ts a \<noteq> sm_ts b then compare_lt (sm_ts b) (sm_ts a) else compare_lt (sm_ordinal b) (sm_ordinal a))"

definition newest_of :: "Sample list \<Rightarrow> string \<Rightarrow> Sample" where
  "newest_of ss c = hd (js_sort newest (filter (\<lambda>s. sm_channel s = c) ss))"

definition upsert_latest :: "string \<Rightarrow> Sample \<Rightarrow> ((string \<times> string) \<times> Sample) list \<Rightarrow> ((string \<times> string) \<times> Sample) list" where
  "upsert_latest dev s rows =
     (case map_of rows (dev, sm_channel s) of
        None \<Rightarrow> map_set (dev, sm_channel s) s rows
      | Some old \<Rightarrow> if later_sample s old then map_set (dev, sm_channel s) s rows else rows)"

definition store_latest :: "string \<Rightarrow> Sample list \<Rightarrow> ((string \<times> string) \<times> Sample) list \<Rightarrow> ((string \<times> string) \<times> Sample) list" where
  "store_latest dev ss rows = fold (\<lambda>c. upsert_latest dev (newest_of ss c)) (js_unique (map sm_channel ss)) rows"

text \<open>\<open>GREATEST\<close> ignores nulls.\<close>

definition greatest :: "int option \<Rightarrow> int \<Rightarrow> int option" where
  "greatest old x = Some (case old of None \<Rightarrow> x | Some y \<Rightarrow> max y x)"

definition seen_device :: "int \<Rightarrow> TelemetryEnvelope \<Rightarrow> DeviceRow \<Rightarrow> DeviceRow" where
  "seen_device received e d =
     d\<lparr>dv_lastSeenAt := greatest (dv_lastSeenAt d) received,
       dv_status := (if (case dv_lastSeq d of None \<Rightarrow> True | Some n \<Rightarrow> n < te_seq e) then Some (te_st e) else dv_status d),
       dv_lastSeq := greatest (dv_lastSeq d) (te_seq e)\<rparr>"

definition store_usage :: "string \<Rightarrow> string \<Rightarrow> nat \<Rightarrow> nat \<Rightarrow> ((string \<times> string) \<times> UsageRow) list \<Rightarrow> ((string \<times> string) \<times> UsageRow) list" where
  "store_usage dev period n bytes rows =
     (let old = (case map_of rows (dev, period) of None \<Rightarrow> \<lparr>ug_readings = 0, ug_bytes = 0\<rparr> | Some u \<Rightarrow> u)
      in map_set (dev, period) \<lparr>ug_readings = ug_readings old + int n, ug_bytes = ug_bytes old + int bytes\<rparr> rows)"

definition store_presence ::
    "string \<Rightarrow> SensorCapability list \<Rightarrow> int \<Rightarrow> Sample list \<Rightarrow> ((string \<times> string) \<times> PresenceRow) list \<Rightarrow> ((string \<times> string) \<times> PresenceRow) list" where
  "store_presence dev caps received ss rows =
     fold (\<lambda>c rows.
       (case map sm_ts (filter (\<lambda>s. sm_channel s \<in> set (map fst (cap_channels c))) ss) of
          [] \<Rightarrow> rows
        | t # ts \<Rightarrow>
            (let k = (dev, cb_id (cap_base c)); captured = fold max ts t in
             case map_of rows k of
               None \<Rightarrow> map_set k \<lparr>ps_lastCapture = captured, ps_lastReceived = received\<rparr> rows
             | Some p \<Rightarrow> map_set k \<lparr>ps_lastCapture = max (ps_lastCapture p) captured, ps_lastReceived = max (ps_lastReceived p) received\<rparr> rows)))
       (filter measuring caps) rows"

definition store_packet :: "Codec \<Rightarrow> int \<Rightarrow> TelemetryEnvelope \<Rightarrow> TelemetryAck \<Rightarrow> Sample list \<Rightarrow> IngestDb \<Rightarrow> IngestDb" where
  "store_packet cx received e ack ss g =
     (let dev = te_dev e in
      g\<lparr>ig_packets := ig_packets g @ [\<lparr>pk_deviceId = dev, pk_seq = te_seq e, pk_fingerprint = cx_sha256 cx (canonical e), pk_response = ack\<rparr>],
        ig_readings := ig_readings g @ map (Pair dev) ss,
        ig_latest := store_latest dev ss (ig_latest g),
        ig_devices := set_device dev (seen_device received e) (ig_devices g),
        ig_usage := store_usage dev (take 7 (toISOString received)) (length ss) (byteLength (canonical e)) (ig_usage g),
        ig_presence := store_presence dev (device_caps (ig_devices g) dev) received ss (ig_presence g)\<rparr>)"

definition find_packet :: "IngestDb \<Rightarrow> string \<Rightarrow> int \<Rightarrow> PacketRow option" where
  "find_packet g dev n = List.find (\<lambda>p. pk_deviceId p = dev \<and> pk_seq p = n) (ig_packets g)"

text \<open>A packet not seen before.\<close>

definition ingest_new :: "Codec \<Rightarrow> int \<Rightarrow> TelemetryEnvelope \<Rightarrow> DeviceRow \<Rightarrow> IngestDb \<Rightarrow> (HttpError + TelemetryAck) \<times> IngestDb" where
  "ingest_new cx received e d g =
     (let seconds = received div 1000 in
      if \<not> TelemetryChannels_ok (dv_channels d) then (Inl storage_unavailable, g)
      else if \<not> valid_time seconds (te_ts e) then (Inl time_error, g)
      else case normalized_readings (dv_channels d) seconds e 0 (te_r e) of
        Inl err \<Rightarrow> (Inl err, g)
      | Inr ss \<Rightarrow>
          (let ack = \<lparr>ta_ok = length ss, ta_next_s = dv_nextS d\<rparr> in
           if \<not> TelemetryAck_ok ack then (Inl storage_unavailable, g)
           else if list_ex (\<lambda>s. sm_ts s < ig_rawBefore g) ss then (Inl time_error, g)
           else (Inr ack, store_packet cx received e ack ss g)))"

text \<open>The handler, given the body's value when it has the packet's shape, and the time of its arrival.\<close>

definition ingest ::
    "Codec \<Rightarrow> string option \<Rightarrow> TelemetryEnvelope option \<Rightarrow> int \<Rightarrow> IngestDb \<Rightarrow> (HttpError + TelemetryAck) \<times> IngestDb" where
  "ingest cx authorization body received g =
     (case bearerHash (cx_sha256 cx) authorization of
        None \<Rightarrow> (Inl (ingest_error 401 ''unauthorized''), g)
      | Some h \<Rightarrow>
     (case body of
        None \<Rightarrow> (Inl (ingest_error 400 ''invalid_envelope''), g)
      | Some e \<Rightarrow>
          if \<not> TelemetryEnvelope_ok e then (Inl (ingest_error 400 ''invalid_envelope''), g)
          else (case authenticate (ig_devices g) (te_dev e) h of
             None \<Rightarrow> (Inl (ingest_error 401 ''unauthorized''), g)
           | Some d \<Rightarrow>
          (case capability_refused (ig_devices g) e of
             Some err \<Rightarrow> (Inl err, g)
           | None \<Rightarrow>
          (case find_packet g (te_dev e) (te_seq e) of
             Some prior \<Rightarrow>
               if pk_fingerprint prior \<noteq> cx_sha256 cx (canonical e) then (Inl (ingest_error 409 ''sequence_conflict''), g)
               else if \<not> TelemetryAck_ok (pk_response prior) then (Inl storage_unavailable, g)
               else (Inr (pk_response prior), g)
           | None \<Rightarrow> ingest_new cx received e d g)))))"

text \<open>The process budget of \<open>admission.ts\<close>: a count of packets in work; a release counts once.\<close>

record IngestAdmission =
  ia_maximum :: nat
  ia_active :: nat

definition new_admission :: "nat \<Rightarrow> js_error + IngestAdmission" where
  "new_admission n = (if n < 1 then Inl (Thrown ''Invalid ingestion admission limit'') else Inr \<lparr>ia_maximum = n, ia_active = 0\<rparr>)"

definition acquire :: "IngestAdmission \<Rightarrow> (bool \<times> IngestAdmission) option" where
  "acquire a = (if ia_active a \<ge> ia_maximum a then None else Some (False, a\<lparr>ia_active := ia_active a + 1\<rparr>))"

definition release_lease :: "bool \<Rightarrow> IngestAdmission \<Rightarrow> bool \<times> IngestAdmission" where
  "release_lease released a = (if released then (True, a) else (True, a\<lparr>ia_active := ia_active a - 1\<rparr>))"

text \<open>The route, for a request that runs alone: the lease is taken before and given back after the handler, whatever it answers.\<close>

definition ingestRoute ::
    "Codec \<Rightarrow> string option \<Rightarrow> TelemetryEnvelope option \<Rightarrow> int \<Rightarrow> IngestAdmission \<Rightarrow> IngestDb \<Rightarrow>
     (HttpError + TelemetryAck) \<times> IngestAdmission \<times> IngestDb" where
  "ingestRoute cx authorization body received adm g =
     (case acquire adm of
        None \<Rightarrow> (Inl (http_error 503 ''busy''), adm, g)
      | Some (released, adm') \<Rightarrow>
          (let (r, g') = ingest cx authorization body received g in (r, snd (release_lease released adm'), g')))"

text \<open>Requests interleave between taking and giving back: the leases in the order they were taken, each with its \<open>released\<close> flag.\<close>

inductive admission_run :: "IngestAdmission \<Rightarrow> bool list \<Rightarrow> IngestAdmission \<Rightarrow> bool" for a0 where
  ad_start: "admission_run a0 [] a0"
| ad_acquire: "admission_run a0 ls a \<Longrightarrow> acquire a = Some (l, a') \<Longrightarrow> admission_run a0 (ls @ [l]) a'"
| ad_release: "admission_run a0 ls a \<Longrightarrow> i < length ls \<Longrightarrow> release_lease (ls ! i) a = (l, a') \<Longrightarrow> admission_run a0 (ls[i := l]) a'"

lemma release_one:
  "i < length ls \<Longrightarrow> length (filter Not ls) = length (filter Not (ls[i := True])) + (if ls ! i then 0 else 1)"
  by (induction ls arbitrary: i) (auto simp: nth_Cons split: nat.splits)

lemma admission_counts_leases:
  "admission_run a0 ls a \<Longrightarrow> new_admission n = Inr a0 \<Longrightarrow>
   ia_active a = length (filter Not ls) \<and> ia_maximum a = n \<and> ia_active a \<le> n"
proof (induction rule: admission_run.induct)
  case ad_start
  then show ?case by (auto simp: new_admission_def split: if_splits)
next
  case (ad_acquire ls a l a')
  then show ?case by (auto simp: acquire_def split: if_splits)
next
  case (ad_release ls a i l a')
  with release_one [OF ad_release.hyps(2)] show ?case by (auto simp: release_lease_def split: if_splits)
qed

lemma ingestRoute_gives_back:
  assumes "ingestRoute cx authorization body received adm g = (r, adm', g')"
  shows "adm' = adm \<and> (g' = g \<or> (r, g') = ingest cx authorization body received g)"
  using assms unfolding ingestRoute_def
  by (auto simp: acquire_def release_lease_def split: if_splits prod.splits)

subsection \<open>Histories of packets\<close>

text \<open>The samples of a packet, and those of a device's channel in a list of packets with their arrival times.\<close>

definition reading_ts :: "TelemetryEnvelope \<Rightarrow> EnvelopeReading \<Rightarrow> int" where
  "reading_ts e r = (if er_t r < 0 then te_ts e + er_t r else er_t r)"

definition packet_samples :: "TelemetryEnvelope \<Rightarrow> Sample list" where
  "packet_samples e =
     map (\<lambda>(n, r). \<lparr>sm_channel = er_c r, sm_ts = reading_ts e r * 1000, sm_seq = te_seq e, sm_ordinal = n, sm_value = er_v r\<rparr>)
       (List.enumerate 0 (te_r e))"

definition of_device :: "string \<Rightarrow> (TelemetryEnvelope \<times> int) list \<Rightarrow> (TelemetryEnvelope \<times> int) list" where
  "of_device dev es = filter (\<lambda>(e, _). te_dev e = dev) es"

definition channel_samples :: "string \<Rightarrow> string \<Rightarrow> (TelemetryEnvelope \<times> int) list \<Rightarrow> Sample list" where
  "channel_samples dev c es = filter (\<lambda>s. sm_channel s = c) (concat (map (\<lambda>(e, _). packet_samples e) (of_device dev es)))"

definition in_period :: "string \<Rightarrow> (TelemetryEnvelope \<times> int) list \<Rightarrow> (TelemetryEnvelope \<times> int) list" where
  "in_period p es = filter (\<lambda>(_, t). take 7 (toISOString t) = p) es"

text \<open>What other requests and jobs may change: devices outside the columns that packets write, and readings that are retired.\<close>

definition telemetry_columns :: "DeviceRow \<Rightarrow> int option \<times> int option \<times> EnvelopeStatus option" where
  "telemetry_columns d = (dv_lastSeenAt d, dv_lastSeq d, dv_status d)"

definition devices_change :: "DeviceDb \<Rightarrow> DeviceDb \<Rightarrow> bool" where
  "devices_change db db' \<longleftrightarrow>
     (\<forall>x \<in> set (dd_devices db'). (\<exists>y \<in> set (dd_devices db). dv_id y = dv_id x \<and> telemetry_columns y = telemetry_columns x) \<or>
        (dv_id x \<notin> dv_id ` set (dd_devices db) \<and> telemetry_columns x = (None, None, None))) \<and>
     dv_id ` set (dd_devices db) \<subseteq> dv_id ` set (dd_devices db')"

definition accepted_packet :: "IngestDb \<Rightarrow> TelemetryEnvelope option \<Rightarrow> int \<Rightarrow> HttpError + TelemetryAck \<Rightarrow> (TelemetryEnvelope \<times> int) list" where
  "accepted_packet g body t r =
     (case (body, r) of (Some e, Inr _) \<Rightarrow> if find_packet g (te_dev e) (te_seq e) = None then [(e, t)] else [] | _ \<Rightarrow> [])"

text \<open>The packets accepted for the first time, newest first.\<close>

inductive ingest_run :: "Codec \<Rightarrow> IngestDb \<Rightarrow> (TelemetryEnvelope \<times> int) list \<Rightarrow> IngestDb \<Rightarrow> bool" for cx g0 where
  ir_start: "ingest_run cx g0 [] g0"
| ir_request: "ingest_run cx g0 es g \<Longrightarrow> ingest cx authorization body t g = (r, g') \<Longrightarrow> ingest_run cx g0 (accepted_packet g body t r @ es) g'"
| ir_devices: "ingest_run cx g0 es g \<Longrightarrow> devices_change (ig_devices g) db \<Longrightarrow> ingest_run cx g0 es (g\<lparr>ig_devices := db\<rparr>)"
| ir_retire: "ingest_run cx g0 es g \<Longrightarrow> ingest_run cx g0 es (g\<lparr>ig_readings := filter P (ig_readings g), ig_rawBefore := b\<rparr>)"

definition ingest_start :: "IngestDb \<Rightarrow> bool" where
  "ingest_start g \<longleftrightarrow> ig_packets g = [] \<and> ig_readings g = [] \<and> ig_latest g = [] \<and> ig_usage g = [] \<and> ig_presence g = [] \<and>
     list_all (\<lambda>x. telemetry_columns x = (None, None, None)) (dd_devices (ig_devices g))"

subsection \<open>What a request did\<close>

lemma normalized_samples:
  "normalized_readings channels seconds e n rs = Inr ss \<Longrightarrow>
   ss = map (\<lambda>(n, r). \<lparr>sm_channel = er_c r, sm_ts = reading_ts e r * 1000, sm_seq = te_seq e, sm_ordinal = n, sm_value = er_v r\<rparr>) (List.enumerate n rs)"
  by (induction channels seconds e n rs arbitrary: ss rule: normalized_readings.induct)
    (auto simp: Let_def reading_ts_def split: option.splits if_splits sum.splits)

lemma ingest_cases:
  assumes "ingest cx authorization body t g = (r, g')"
  obtains (Same) "g' = g" "accepted_packet g body t r = []"
  | (New) e d ack where "body = Some e" "r = Inr ack" "find_packet g (te_dev e) (te_seq e) = None" "d \<in> set (dd_devices (ig_devices g))"
      "dv_id d = te_dev e" "TelemetryAck_ok ack" "ack = \<lparr>ta_ok = length (packet_samples e), ta_next_s = dv_nextS d\<rparr>"
      "g' = store_packet cx t e ack (packet_samples e) g" "accepted_packet g body t r = [(e, t)]"
proof -
  consider "\<exists>x. r = Inl x \<and> g' = g" | "\<exists>e p. body = Some e \<and> find_packet g (te_dev e) (te_seq e) = Some p \<and> g' = g"
    | "\<exists>e d h. body = Some e \<and> find_packet g (te_dev e) (te_seq e) = None \<and> authenticate (ig_devices g) (te_dev e) h = Some d \<and>
         ingest_new cx t e d g = (r, g')"
    using assms unfolding ingest_def by (auto split: option.splits if_splits)
  then show thesis
  proof cases
    case 1
    then show ?thesis by (intro Same) (auto simp: accepted_packet_def split: option.splits)
  next
    case 2
    then show ?thesis by (intro Same) (auto simp: accepted_packet_def split: sum.splits)
  next
    case 3
    then obtain e d h where e: "body = Some e" "find_packet g (te_dev e) (te_seq e) = None" "authenticate (ig_devices g) (te_dev e) h = Some d"
        "ingest_new cx t e d g = (r, g')" by blast
    note d = find_Some_set [OF e(3) [unfolded authenticate_def]]
    show ?thesis
    proof (cases "\<exists>x. r = Inl x \<and> g' = g")
      case True
      then show ?thesis by (intro Same) (auto simp: accepted_packet_def split: option.splits)
    next
      case False
      with e(4) obtain ss where n: "normalized_readings (dv_channels d) (t div 1000) e 0 (te_r e) = Inr ss" "r = Inr \<lparr>ta_ok = length ss, ta_next_s = dv_nextS d\<rparr>"
          "TelemetryAck_ok \<lparr>ta_ok = length ss, ta_next_s = dv_nextS d\<rparr>" "g' = store_packet cx t e \<lparr>ta_ok = length ss, ta_next_s = dv_nextS d\<rparr> ss g"
        unfolding ingest_new_def Let_def by (auto split: sum.splits if_splits)
      have "ss = packet_samples e" using normalized_samples [OF n(1)] by (simp add: packet_samples_def)
      with n e(1,2) d show ?thesis by (intro New) (auto simp: accepted_packet_def)
    qed
  qed
qed

subsection \<open>The newest sample\<close>

interpretation newest_cmp: comparator newest "\<lambda>_. True"
  by unfold_locales (auto simp: newest_def compare_lt_def sgn_if split: if_splits)

lemma newest_of_max:
  assumes "s \<in> set ss" and "sm_channel s = c"
  shows "newest_of ss c \<in> set ss" "sm_channel (newest_of ss c) = c"
    "sm_ts s < sm_ts (newest_of ss c) \<or> (sm_ts s = sm_ts (newest_of ss c) \<and> sm_ordinal s \<le> sm_ordinal (newest_of ss c))"
proof -
  let ?f = "filter (\<lambda>s. sm_channel s = c) ss"
  have s: "s \<in> set (js_sort newest ?f)" using assms by simp
  then obtain x xs where x: "js_sort newest ?f = x # xs" by (cases "js_sort newest ?f") auto
  have n: "newest_of ss c = x" by (simp add: newest_of_def x)
  have "x \<in> set (js_sort newest ?f)" by (simp add: x)
  then show "newest_of ss c \<in> set ss" "sm_channel (newest_of ss c) = c" by (simp_all add: n)
  have "sorted_by newest (x # xs)" unfolding x [symmetric] by (rule newest_cmp.sorted_js_sort) simp
  then have "newest x s \<le> 0" using s newest_cmp.refl_zero [of x] by (auto simp: x)
  then show "sm_ts s < sm_ts (newest_of ss c) \<or> (sm_ts s = sm_ts (newest_of ss c) \<and> sm_ordinal s \<le> sm_ordinal (newest_of ss c))"
    by (auto simp: n newest_def compare_lt_def split: if_splits)
qed

definition best :: "Sample option \<Rightarrow> Sample list \<Rightarrow> bool" where
  "best b xs \<longleftrightarrow> (case b of None \<Rightarrow> xs = [] | Some s \<Rightarrow> s \<in> set xs \<and> (\<forall>x \<in> set xs. x = s \<or> later_sample s x))"

lemma later_trans: "later_sample a b \<Longrightarrow> later_sample b c \<Longrightarrow> later_sample a c"
  by (auto simp: later_sample_def)

lemma packet_sample_facts: "s \<in> set (packet_samples e) \<Longrightarrow> sm_seq s = te_seq e"
  by (auto simp: packet_samples_def)

lemma packet_samples_unique:
  "s \<in> set (packet_samples e) \<Longrightarrow> x \<in> set (packet_samples e) \<Longrightarrow> sm_ordinal s = sm_ordinal x \<Longrightarrow> s = x"
  by (auto simp: packet_samples_def in_set_enumerate_eq)

lemma newest_best:
  assumes "c \<in> sm_channel ` set (packet_samples e)"
  shows "best (Some (newest_of (packet_samples e) c)) (filter (\<lambda>s. sm_channel s = c) (packet_samples e))"
proof -
  let ?n = "newest_of (packet_samples e) c"
  from assms obtain s0 where "s0 \<in> set (packet_samples e)" "sm_channel s0 = c" by auto
  note n = newest_of_max [OF this]
  have "x = ?n \<or> later_sample ?n x" if x: "x \<in> set (packet_samples e)" "sm_channel x = c" for x
    using newest_of_max(3) [OF x] packet_sample_facts [OF x(1)] packet_sample_facts [OF n(1)] packet_samples_unique [OF x(1) n(1)]
    by (auto simp: later_sample_def le_less)
  with n(1,2) show ?thesis by (auto simp: best_def)
qed

text \<open>The tables by key.\<close>

lemma map_of_upsert_latest:
  "map_of (upsert_latest dev s rows) k =
   (if k = (dev, sm_channel s) \<and> (case map_of rows k of None \<Rightarrow> True | Some old \<Rightarrow> later_sample s old) then Some s else map_of rows k)"
  by (auto simp: upsert_latest_def split: option.splits)

lemma map_of_store_latest:
  assumes "\<And>c. c \<in> set cs \<Longrightarrow> sm_channel (f c) = c" and "distinct cs"
  shows "map_of (fold (\<lambda>c. upsert_latest dev (f c)) cs rows) (dev', c) =
    (if dev' = dev \<and> c \<in> set cs \<and> (case map_of rows (dev', c) of None \<Rightarrow> True | Some old \<Rightarrow> later_sample (f c) old) then Some (f c)
     else map_of rows (dev', c))"
  using assms
proof (induction cs arbitrary: rows)
  case (Cons b cs)
  then show ?case by (auto simp: map_of_upsert_latest)
qed simp

subsection \<open>The tables are those of the history\<close>

definition opt_max :: "int option \<Rightarrow> int list \<Rightarrow> bool" where
  "opt_max m xs \<longleftrightarrow> (case m of None \<Rightarrow> xs = [] | Some n \<Rightarrow> n \<in> set xs \<and> (\<forall>x \<in> set xs. x \<le> n))"

definition device_history :: "(TelemetryEnvelope \<times> int) list \<Rightarrow> DeviceRow \<Rightarrow> bool" where
  "device_history es d \<longleftrightarrow>
     (let ps = of_device (dv_id d) es in
      opt_max (dv_lastSeq d) (map (te_seq \<circ> fst) ps) \<and> opt_max (dv_lastSeenAt d) (map snd ps) \<and>
      (case dv_status d of None \<Rightarrow> ps = [] | Some st \<Rightarrow> \<exists>(e, t) \<in> set ps. te_st e = st \<and> Some (te_seq e) = dv_lastSeq d))"

definition period_usage :: "(TelemetryEnvelope \<times> int) list \<Rightarrow> UsageRow option" where
  "period_usage ps =
     (if ps = [] then None
      else Some \<lparr>ug_readings = int (sum_list (map (\<lambda>(e, _). length (te_r e)) ps)), ug_bytes = int (sum_list (map (\<lambda>(e, _). byteLength (canonical e)) ps))\<rparr>)"

definition ingest_ok :: "(TelemetryEnvelope \<times> int) list \<Rightarrow> IngestDb \<Rightarrow> bool" where
  "ingest_ok es g \<longleftrightarrow>
     map (\<lambda>p. (pk_deviceId p, pk_seq p)) (ig_packets g) = rev (map (\<lambda>(e, _). (te_dev e, te_seq e)) es) \<and>
     distinct (map (\<lambda>(e, _). (te_dev e, te_seq e)) es) \<and> (te_dev \<circ> fst) ` set es \<subseteq> dv_id ` set (dd_devices (ig_devices g)) \<and>
     (\<forall>dev c. best (map_of (ig_latest g) (dev, c)) (channel_samples dev c es)) \<and>
     (\<forall>d \<in> set (dd_devices (ig_devices g)). device_history es d) \<and>
     (\<forall>dev p. map_of (ig_usage g) (dev, p) = period_usage (in_period p (of_device dev es)))"

lemma best_merge:
  assumes "best (Some n) xs" and "best b ys" and "\<And>x y. x \<in> set xs \<Longrightarrow> y \<in> set ys \<Longrightarrow> sm_seq x \<noteq> sm_seq y"
  shows "best (if (case b of None \<Rightarrow> True | Some old \<Rightarrow> later_sample n old) then Some n else b) (xs @ ys)"
proof (cases b)
  case None
  with assms(1,2) show ?thesis by (auto simp: best_def)
next
  case (Some old)
  with assms have m: "n \<in> set xs" "old \<in> set ys" "\<forall>x \<in> set xs. x = n \<or> later_sample n x" "\<forall>y \<in> set ys. y = old \<or> later_sample old y"
    by (auto simp: best_def)
  show ?thesis
  proof (cases "later_sample n old")
    case True
    with m Some show ?thesis by (auto simp: best_def intro: later_trans)
  next
    case False
    then have "later_sample old n" using assms(3) [OF m(1,2)] by (auto simp: later_sample_def)
    with m Some False show ?thesis by (auto simp: best_def intro: later_trans)
  qed
qed

lemma store_latest_best:
  assumes old: "best (map_of rows (dev, c)) (channel_samples dev c es)"
    and new: "\<And>e' t. (e', t) \<in> set es \<Longrightarrow> te_dev e' = te_dev e \<Longrightarrow> te_seq e' \<noteq> te_seq e"
  shows "best (map_of (store_latest (te_dev e) (packet_samples e) rows) (dev, c)) (channel_samples dev c ((e, t) # es))"
proof -
  let ?ss = "packet_samples e"
  have f: "sm_channel (newest_of ?ss c') = c'" if "c' \<in> set (js_unique (map sm_channel ?ss))" for c'
    using that newest_of_max(2) [of _ ?ss c'] by auto
  have m: "map_of (store_latest (te_dev e) ?ss rows) (dev, c) =
      (if dev = te_dev e \<and> c \<in> sm_channel ` set ?ss \<and> (case map_of rows (dev, c) of None \<Rightarrow> True | Some old \<Rightarrow> later_sample (newest_of ?ss c) old)
       then Some (newest_of ?ss c) else map_of rows (dev, c))"
    unfolding store_latest_def using map_of_store_latest [where f = "newest_of ?ss" and cs = "js_unique (map sm_channel ?ss)" and dev = "te_dev e" and rows = rows
        and dev' = dev and c = c, OF f distinct_js_unique] by simp
  show ?thesis
  proof (cases "dev = te_dev e \<and> c \<in> sm_channel ` set ?ss")
    case True
    let ?xs = "filter (\<lambda>s. sm_channel s = c) ?ss"
    have split: "channel_samples dev c ((e, t) # es) = ?xs @ channel_samples dev c es"
      using True by (simp add: channel_samples_def of_device_def)
    have b: "best (Some (newest_of ?ss c)) ?xs" using True by (intro newest_best) simp
    have "sm_seq x \<noteq> sm_seq y" if "x \<in> set ?xs" "y \<in> set (channel_samples dev c es)" for x y
    proof -
      from that(2) obtain e' t' where e': "(e', t') \<in> set es" "te_dev e' = dev" "y \<in> set (packet_samples e')"
        by (auto simp: channel_samples_def of_device_def)
      with new [of e' t'] True that(1) packet_sample_facts [of y e'] packet_sample_facts [of x e] show ?thesis by auto
    qed
    from best_merge [OF b old this] True show ?thesis unfolding split m by auto
  next
    case False
    then have "channel_samples dev c ((e, t) # es) = channel_samples dev c es"
      by (auto simp: channel_samples_def of_device_def filter_empty_conv)
    moreover have "map_of (store_latest (te_dev e) ?ss rows) (dev, c) = map_of rows (dev, c)"
      using False unfolding m by auto
    ultimately show ?thesis using old by simp
  qed
qed

lemma opt_max_greatest: "opt_max m xs \<Longrightarrow> opt_max (greatest m x) (x # xs)"
  by (cases m) (auto simp: opt_max_def greatest_def max_def)

lemma seen_history:
  assumes "device_history es d" and "te_dev e = dv_id d" and "\<And>e' t. (e', t) \<in> set es \<Longrightarrow> te_dev e' = te_dev e \<Longrightarrow> te_seq e' \<noteq> te_seq e"
  shows "device_history ((e, t) # es) (seen_device t e d)"
proof -
  let ?ps = "of_device (dv_id d) es"
  from assms(1) have h: "opt_max (dv_lastSeq d) (map (te_seq \<circ> fst) ?ps)" "opt_max (dv_lastSeenAt d) (map snd ?ps)"
      "case dv_status d of None \<Rightarrow> ?ps = [] | Some st \<Rightarrow> \<exists>(e, t) \<in> set ?ps. te_st e = st \<and> Some (te_seq e) = dv_lastSeq d"
    by (simp_all add: device_history_def Let_def)
  have ps: "of_device (dv_id d) ((e, t) # es) = (e, t) # ?ps" using assms(2) by (simp add: of_device_def)
  let ?d = "seen_device t e d"
  have "\<exists>st e' t'. dv_status ?d = Some st \<and> (e', t') \<in> set ((e, t) # ?ps) \<and> te_st e' = st \<and> Some (te_seq e') = dv_lastSeq ?d"
  proof (cases "case dv_lastSeq d of None \<Rightarrow> True | Some n \<Rightarrow> n < te_seq e")
    case True
    then show ?thesis by (auto simp: seen_device_def greatest_def max_def split: option.splits)
  next
    case False
    then obtain n where n: "dv_lastSeq d = Some n" "te_seq e \<le> n" by (auto split: option.splits)
    with h(1) have "?ps \<noteq> []" by (auto simp: opt_max_def)
    with h(3) n(1) obtain st e' t' where "dv_status d = Some st" "(e', t') \<in> set ?ps" "te_st e' = st" "te_seq e' = n" by (auto split: option.splits)
    with n show ?thesis by (auto simp: seen_device_def greatest_def max_def)
  qed
  then obtain st e' t' where st: "dv_status ?d = Some st" "(e', t') \<in> set ((e, t) # ?ps)" "te_st e' = st" "Some (te_seq e') = dv_lastSeq ?d" by blast
  have "\<exists>(e, t) \<in> set ((e, t) # ?ps). te_st e = st \<and> Some (te_seq e) = dv_lastSeq ?d" using st(2-4) by (intro bexI [of _ "(e', t')"]) auto
  moreover have "opt_max (dv_lastSeq ?d) (map (te_seq \<circ> fst) ((e, t) # ?ps))" "opt_max (dv_lastSeenAt ?d) (map snd ((e, t) # ?ps))" "dv_id ?d = dv_id d"
    using opt_max_greatest [OF h(1), of "te_seq e"] opt_max_greatest [OF h(2), of t] by (simp_all add: seen_device_def)
  ultimately show ?thesis by (simp only: device_history_def Let_def ps st(1) option.case simp_thms)
qed

lemma other_history: "te_dev e \<noteq> dv_id d \<Longrightarrow> device_history ((e, t) # es) d = device_history es d"
  by (simp add: device_history_def of_device_def)

lemma usage_step:
  assumes "\<forall>dev p. map_of rows (dev, p) = period_usage (in_period p (of_device dev es))"
  shows "map_of (store_usage (te_dev e) (take 7 (toISOString t)) (length (packet_samples e)) (byteLength (canonical e)) rows) (dev, p) =
    period_usage (in_period p (of_device dev ((e, t) # es)))"
proof (cases "dev = te_dev e \<and> p = take 7 (toISOString t)")
  case True
  then have "in_period p (of_device dev ((e, t) # es)) = (e, t) # in_period p (of_device dev es)" by (simp add: in_period_def of_device_def)
  then show ?thesis using True assms by (auto simp: store_usage_def period_usage_def packet_samples_def)
next
  case False
  then have "in_period p (of_device dev ((e, t) # es)) = in_period p (of_device dev es)" by (auto simp: in_period_def of_device_def)
  then show ?thesis using False assms by (auto simp: store_usage_def Let_def)
qed

lemma find_packet_None: "find_packet g dev n = None \<longleftrightarrow> (dev, n) \<notin> set (map (\<lambda>p. (pk_deviceId p, pk_seq p)) (ig_packets g))"
  by (auto simp: find_packet_def find_None_iff)

lemma store_packet_ok:
  assumes ok: "ingest_ok es g" and none: "find_packet g (te_dev e) (te_seq e) = None" and known: "te_dev e \<in> dv_id ` set (dd_devices (ig_devices g))"
  shows "ingest_ok ((e, t) # es) (store_packet cx t e ack (packet_samples e) g)"
proof -
  let ?g = "store_packet cx t e ack (packet_samples e) g"
  from ok have keys: "map (\<lambda>p. (pk_deviceId p, pk_seq p)) (ig_packets g) = rev (map (\<lambda>(e, _). (te_dev e, te_seq e)) es)" by (simp add: ingest_ok_def)
  have fresh: "(te_dev e, te_seq e) \<notin> set (map (\<lambda>(e, _). (te_dev e, te_seq e)) es)"
    using none unfolding find_packet_None keys by simp
  then have new: "te_seq e' \<noteq> te_seq e" if "(e', t') \<in> set es" "te_dev e' = te_dev e" for e' t'
    using that by force
  have dev: "dd_devices (ig_devices ?g) = map (\<lambda>d. if dv_id d = te_dev e then seen_device t e d else d) (dd_devices (ig_devices g))"
    by (simp add: store_packet_def Let_def)
  have id: "dv_id (seen_device t e d) = dv_id d" for d by (simp add: seen_device_def)
  have ids: "dv_id ` set (dd_devices (ig_devices ?g)) = dv_id ` set (dd_devices (ig_devices g))"
    unfolding dev set_map image_image by (rule image_cong) (auto simp: id)
  have "device_history ((e, t) # es) d" if "d \<in> set (dd_devices (ig_devices ?g))" for d
  proof -
    from that obtain d' where d': "d' \<in> set (dd_devices (ig_devices g))" "d = (if dv_id d' = te_dev e then seen_device t e d' else d')" by (auto simp: dev)
    with ok have "device_history es d'" by (simp add: ingest_ok_def)
    with d' seen_history [of es d' e t, OF _ _ new] other_history [of e d' t es] show ?thesis by auto
  qed
  moreover have "best (map_of (ig_latest ?g) (dev, c)) (channel_samples dev c ((e, t) # es))" for dev c
    using ok store_latest_best [of "ig_latest g" dev c es e t, OF _ new] by (simp add: ingest_ok_def store_packet_def Let_def)
  moreover have "map_of (ig_usage ?g) (dev, p) = period_usage (in_period p (of_device dev ((e, t) # es)))" for dev p
    using ok usage_step [of "ig_usage g" es e t dev p] by (simp add: ingest_ok_def store_packet_def Let_def)
  moreover have "map (\<lambda>p. (pk_deviceId p, pk_seq p)) (ig_packets ?g) = rev (map (\<lambda>(e, _). (te_dev e, te_seq e)) ((e, t) # es))"
    using keys by (simp add: store_packet_def Let_def)
  ultimately show ?thesis
    using ok fresh known unfolding ingest_ok_def ids by auto
qed

subsection \<open>Every history\<close>

lemma devices_change_ok: "ingest_ok es g \<Longrightarrow> devices_change (ig_devices g) db \<Longrightarrow> ingest_ok es (g\<lparr>ig_devices := db\<rparr>)"
proof -
  assume ok: "ingest_ok es g" and ch: "devices_change (ig_devices g) db"
  have h: "device_history es x" if x: "x \<in> set (dd_devices db)" for x
  proof -
    from ch x consider y where "y \<in> set (dd_devices (ig_devices g))" "dv_id y = dv_id x" "telemetry_columns y = telemetry_columns x"
      | "dv_id x \<notin> dv_id ` set (dd_devices (ig_devices g))" "telemetry_columns x = (None, None, None)" by (auto simp: devices_change_def)
    then show ?thesis
    proof cases
      case 1
      with ok have "device_history es y" by (simp add: ingest_ok_def)
      moreover have "dv_lastSeenAt y = dv_lastSeenAt x" "dv_lastSeq y = dv_lastSeq x" "dv_status y = dv_status x"
        using 1(3) by (simp_all add: telemetry_columns_def)
      ultimately show ?thesis using 1(2) by (simp only: device_history_def)
    next
      case 2
      have none: "of_device (dv_id x) es = []"
      proof (rule ccontr)
        assume "of_device (dv_id x) es \<noteq> []"
        then obtain e t where "(e, t) \<in> set es" "te_dev e = dv_id x" by (auto simp: of_device_def filter_empty_conv)
        then have "dv_id x \<in> (te_dev \<circ> fst) ` set es" by force
        with ok 2(1) show False by (auto simp: ingest_ok_def)
      qed
      from 2(2) have "dv_lastSeenAt x = None" "dv_lastSeq x = None" "dv_status x = None" by (simp_all add: telemetry_columns_def)
      then show ?thesis by (simp add: device_history_def none opt_max_def)
    qed
  qed
  have "(te_dev \<circ> fst) ` set es \<subseteq> dv_id ` set (dd_devices (ig_devices g))" using ok by (simp only: ingest_ok_def)
  also have "\<dots> \<subseteq> dv_id ` set (dd_devices db)" using ch by (simp only: devices_change_def)
  finally have ids: "(te_dev \<circ> fst) ` set es \<subseteq> dv_id ` set (dd_devices db)" .
  show ?thesis using ok h ids unfolding ingest_ok_def by simp
qed

lemma ingest_start_ok: "ingest_start g \<Longrightarrow> ingest_ok [] g"
  by (auto simp: ingest_start_def ingest_ok_def best_def channel_samples_def of_device_def device_history_def opt_max_def list_all_iff
    telemetry_columns_def period_usage_def in_period_def)

lemma ingest_run_ok: "ingest_run cx g0 es g \<Longrightarrow> ingest_start g0 \<Longrightarrow> ingest_ok es g"
proof (induction rule: ingest_run.induct)
  case ir_start
  then show ?case by (rule ingest_start_ok)
next
  case (ir_request es g authorization body t r g')
  from ir_request.hyps(2) show ?case
  proof (cases rule: ingest_cases)
    case Same
    with ir_request show ?thesis by simp
  next
    case (New e d ack)
    then have "te_dev e \<in> dv_id ` set (dd_devices (ig_devices g))" by (metis imageI)
    with New ir_request show ?thesis by (simp add: store_packet_ok)
  qed
next
  case (ir_devices es g db)
  then show ?case by (simp add: devices_change_ok)
next
  case (ir_retire es g P b)
  then show ?case by (simp add: ingest_ok_def)
qed

text \<open>
  C7. Whatever order packets arrive in, however often they are repeated or refused, and whatever happens to devices and retired readings
  in between, the tables are a function of the set of packets accepted for the first time: each is stored once per device and sequence
  number; the latest row of a channel is the greatest of all its samples by time, sequence and position (and missing only without one);
  a device shows the highest sequence number, the status that came with it and the last arrival; and the usage of a month is the number of
  readings and bytes of the packets that arrived in it.
\<close>

theorem tables_follow_packets:
  assumes "ingest_run cx g0 es g" and "ingest_start g0"
  shows "mset (map (\<lambda>p. (pk_deviceId p, pk_seq p)) (ig_packets g)) = mset (map (\<lambda>(e, _). (te_dev e, te_seq e)) es) \<and>
    distinct (map (\<lambda>p. (pk_deviceId p, pk_seq p)) (ig_packets g)) \<and>
    (\<forall>dev c. case map_of (ig_latest g) (dev, c) of
        None \<Rightarrow> channel_samples dev c es = []
      | Some s \<Rightarrow> s \<in> set (channel_samples dev c es) \<and> (\<forall>x \<in> set (channel_samples dev c es). x = s \<or> later_sample s x)) \<and>
    (\<forall>d \<in> set (dd_devices (ig_devices g)). device_history es d) \<and>
    (\<forall>dev p. map_of (ig_usage g) (dev, p) = period_usage (in_period p (of_device dev es)))"
proof -
  note ok = ingest_run_ok [OF assms]
  have "distinct (rev (map (\<lambda>p. (pk_deviceId p, pk_seq p)) (ig_packets g)))" using ok by (simp add: ingest_ok_def del: distinct_rev)
  with ok show ?thesis by (simp add: ingest_ok_def best_def)
qed

subsection \<open>Repeating a packet\<close>

lemma ingest_keeps_packet:
  assumes "ingest_run cx g es g'" and "find_packet g dev n = Some p"
  shows "find_packet g' dev n = Some p"
  using assms
proof (induction rule: ingest_run.induct)
  case (ir_request es h authorization body t r h')
  have app: "List.find P xs = Some y \<Longrightarrow> List.find P (xs @ ys) = Some y" for P and y :: PacketRow and xs ys
    by (induction xs) (auto split: if_splits)
  from ir_request.hyps(2) show ?case
  proof (cases rule: ingest_cases)
    case Same
    with ir_request show ?thesis by simp
  next
    case (New e d ack)
    with ir_request.IH ir_request.prems show ?thesis by (simp add: store_packet_def Let_def find_packet_def app)
  qed
qed (simp_all add: find_packet_def)

lemma accepted_row:
  assumes "ingest cx authorization (Some e) t g = (Inr ack, g')"
  obtains p where "find_packet g' (te_dev e) (te_seq e) = Some p" "pk_fingerprint p = cx_sha256 cx (canonical e)" "pk_response p = ack" "TelemetryAck_ok ack"
proof (cases "find_packet g (te_dev e) (te_seq e)")
  case None
  from assms obtain ack' where a: "ack = ack'" "TelemetryAck_ok ack'" "g' = store_packet cx t e ack' (packet_samples e) g"
  proof (cases rule: ingest_cases)
    case Same
    with None show ?thesis by (simp add: accepted_packet_def)
  next
    case (New e' d ack')
    with that show ?thesis by simp
  qed
  have last: "List.find P xs = None \<Longrightarrow> P y \<Longrightarrow> List.find P (xs @ [y]) = Some y" for P and y :: PacketRow and xs
    by (induction xs) (auto split: if_splits)
  have "find_packet g' (te_dev e) (te_seq e) =
      Some \<lparr>pk_deviceId = te_dev e, pk_seq = te_seq e, pk_fingerprint = cx_sha256 cx (canonical e), pk_response = ack'\<rparr>"
    using None by (simp add: a(3) store_packet_def Let_def find_packet_def last)
  then show ?thesis by (rule that) (simp_all add: a)
next
  case (Some p)
  with assms have "g' = g" "pk_fingerprint p = cx_sha256 cx (canonical e)" "pk_response p = ack" "TelemetryAck_ok ack"
    unfolding ingest_def by (auto split: option.splits if_splits)
  with Some that show ?thesis by simp
qed


subsection \<open>Packets and credentials\<close>

lemma ingest_other_change: "ingest cx authorization body t g = (r, g') \<Longrightarrow> other_change (ig_devices g) (ig_devices g')"
proof -
  assume "ingest cx authorization body t g = (r, g')"
  then show ?thesis
  proof (cases rule: ingest_cases)
    case Same
    then show ?thesis unfolding other_change_def by (intro exI [of _ id]) auto
  next
    case (New e d ack)
    have "ig_devices g' = set_device (te_dev e) (seen_device t e) (ig_devices g)" by (simp add: New(8) store_packet_def Let_def)
    then show ?thesis unfolding other_change_def
      by (intro exI [of _ "\<lambda>d. if dv_id d = te_dev e then seen_device t e d else d"] exI [of _ id]) (auto simp: seen_device_def)
  qed
qed

lemma ingest_authentic:
  assumes "ingest cx authorization (Some e) t g = (Inr ack, g')"
  obtains token d where "authorization = Some (''Bearer '' @ token)" "authenticate (ig_devices g) (te_dev e) (cx_sha256 cx token) = Some d"
proof -
  from assms obtain a h d where a: "authorization = Some a" "rx_full BEARER a" "h = cx_sha256 cx (drop 7 a)" "authenticate (ig_devices g) (te_dev e) h = Some d"
    unfolding ingest_def bearerHash_def by (auto split: option.splits if_splits)
  have "no_boundary BEARER" by (simp add: BEARER_def)
  then have "a \<in> lang BEARER" using a(2) by (simp add: rx_full_lang)
  then obtain token where "a = ''Bearer '' @ token" unfolding BEARER_def lang_Seq_Lit by blast
  with a that show ?thesis by simp
qed

text \<open>
  C8. Devices and ingestion together. In any history of claims, downloads, replacements and revocations from tables without provisioned
  devices, a packet of a provisioned device is accepted only with the token of its newest issued credential, so no longer after it was
  replaced, and never after it was revoked; and accepting it is part of that history as a change that leaves credentials alone.
\<close>

theorem packets_need_newest_credential:
  assumes "device_run pf db0 hs (ig_devices g)" and "devices_ok db0" and "dd_provisionings db0 = []"
    and "ingest (pf_codec pf) authorization (Some e) t g = (Inr ack, g')" and "te_dev e \<in> pv_deviceId ` set (dd_provisionings (ig_devices g))"
  shows "(\<exists>token v u a x. authorization = Some (''Bearer '' @ token) \<and> last_issue (te_dev e) hs = Some (v, u, a, x, cx_sha256 (pf_codec pf) token)) \<and>
    Revoked (te_dev e) \<notin> set hs \<and> device_run pf db0 hs (ig_devices g')"
proof -
  obtain token d where d: "authorization = Some (''Bearer '' @ token)" "authenticate (ig_devices g) (te_dev e) (cx_sha256 (pf_codec pf) token) = Some d"
    by (rule ingest_authentic [OF assms(4)])
  note d2 = find_Some_set [OF d(2) [unfolded authenticate_def]]
  from assms(5) obtain r where r: "r \<in> set (dd_provisionings (ig_devices g))" "pv_deviceId r = te_dev e" by auto
  have "row_history hs r d" using device_run_history [OF assms(1-3)] r d2 by (simp add: history_ok_def)
  then have "\<exists>v u a x. last_issue (te_dev e) hs = Some (v, u, a, x, cx_sha256 (pf_codec pf) token)" "Revoked (te_dev e) \<notin> set hs"
    using r(2) d2 by (auto simp: row_history_def)
  then show ?thesis using d(1) dr_other [OF assms(1) ingest_other_change [OF assms(4)]] by blast
qed

subsection \<open>A packet of the worked device\<close>

definition desk_packet :: TelemetryEnvelope where
  "desk_packet = \<lparr>te_v = 1, te_dev = shop_lease, te_seq = 0, te_ts = 100, te_r = [\<lparr>er_c = ''illuminance'', er_t = -5, er_v = Fin 7\<rparr>],
     te_st = \<lparr>es_batt_mv = None, es_rssi = Some (-60), es_up_s = 9, es_health = []\<rparr>\<rparr>"

definition desk_bearer :: string where
  "desk_bearer = ''Bearer '' @ replicate 43 CHR ''A''"

lemma desk_bearer_hash: "bearerHash (cx_sha256 board_codec) (Some desk_bearer) = Some shop_hash"
proof -
  have "rx_full BEARER desk_bearer" by code_simp
  then show ?thesis by (simp add: bearerHash_def shop_sha)
qed

lemma desk_packet_ok: "TelemetryEnvelope_ok desk_packet"
  using shop_lease_uuid shop_channel_ok(1)
  by (simp add: TelemetryEnvelope_ok_def desk_packet_def EnvelopeReading_ok_def EnvelopeStatus_ok_def MAX_SAFE_INTEGER_def opt_ok_def)

definition desk_tables :: "DeviceDb \<Rightarrow> IngestDb" where
  "desk_tables db = \<lparr>ig_devices = db, ig_packets = [], ig_readings = [], ig_latest = [], ig_usage = [], ig_presence = [], ig_rawBefore = 0\<rparr>"

lemma desk_ingested:
  obtains db g' where "device_run desk_platform desk_devices [Issued shop_lease 1 ''u'' ''s1'' 600007 shop_hash] db" "ingest_start (desk_tables db)"
    "shop_lease \<in> pv_deviceId ` set (dd_provisionings db)"
    "ingest board_codec (Some desk_bearer) (Some desk_packet) 101000 (desk_tables db) = (Inr \<lparr>ta_ok = 1, ta_next_s = 60\<rparr>, g')"
    "accepted_packet (desk_tables db) (Some desk_packet) 101000 (Inr \<lparr>ta_ok = 1, ta_next_s = 60\<rparr>) = [(desk_packet, 101000)]"
proof -
  obtain p db x where c: "claimDevice desk_platform desk_options desk_ticks desk_fresh desk_claim desk_session desk_devices = (Inr p, db)"
    "dd_devices db = [x]" "dd_capabilities db = []" "map pv_deviceId (dd_provisionings db) = [shop_lease]"
    "dv_id x = shop_lease" "dv_tokenHash x = shop_hash" "dv_revokedAt x = None" "dv_nextS x = 60"
    "dv_channels x = [(''illuminance'', channel_of \<lparr>ch_unit = ''lux'', ch_min = 0, ch_max = 65535\<rparr>)]"
    "dv_lastSeenAt x = None" "dv_lastSeq x = None" "dv_status x = None" by (rule desk_device)
  have "db \<noteq> desk_devices" using c(2) by (auto simp: desk_devices_def)
  from dr_claim [OF dr_start c(1) this] have run: "device_run desk_platform desk_devices [Issued shop_lease 1 ''u'' ''s1'' 600007 shop_hash] db"
    by (simp add: desk_fresh_def desk_session_def desk_ticks_def HANDOFF_MS_def desk_platform_def shop_sha)
  have start: "ingest_start (desk_tables db)" by (simp add: ingest_start_def desk_tables_def c telemetry_columns_def)
  have mem: "shop_lease \<in> pv_deviceId ` set (dd_provisionings db)" using c(4) by (metis list.set_intros(1) set_map)
  have n: "normalized_readings (dv_channels x) 101 desk_packet 0 (te_r desk_packet) = Inr (packet_samples desk_packet)"
    by (simp add: desk_packet_def packet_samples_def channel_of_def valid_time_def reading_ts_def c(9))
  have len: "length (packet_samples desk_packet) = 1" by (simp add: packet_samples_def desk_packet_def)
  have ok: "TelemetryChannels_ok (dv_channels x)" using shop_channel_ok by (simp add: c(9) TelemetryChannels_ok_def ProvisionedChannels_ok_def)
  have times: "valid_time 101 (te_ts desk_packet)" "\<not> list_ex (\<lambda>s. sm_ts s < ig_rawBefore (desk_tables db)) (packet_samples desk_packet)"
    by (simp_all add: valid_time_def desk_packet_def packet_samples_def desk_tables_def reading_ts_def)
  have new: "ingest_new board_codec 101000 desk_packet x (desk_tables db) =
      (Inr \<lparr>ta_ok = 1, ta_next_s = 60\<rparr>, store_packet board_codec 101000 desk_packet \<lparr>ta_ok = 1, ta_next_s = 60\<rparr> (packet_samples desk_packet) (desk_tables db))"
    unfolding ingest_new_def Let_def using n len ok times by (simp add: c(8) TelemetryAck_ok_def)
  have none: "find_packet (desk_tables db) n m = None" for n m by (simp add: find_packet_def desk_tables_def)
  have auth: "authenticate (ig_devices (desk_tables db)) (te_dev desk_packet) shop_hash = Some x"
    by (simp add: authenticate_def desk_tables_def c desk_packet_def)
  have caps: "capability_refused (ig_devices (desk_tables db)) desk_packet = None"
    by (simp add: capability_refused_def device_caps_def desk_tables_def c)
  have "ingest board_codec (Some desk_bearer) (Some desk_packet) 101000 (desk_tables db) = (Inr \<lparr>ta_ok = 1, ta_next_s = 60\<rparr>,
      store_packet board_codec 101000 desk_packet \<lparr>ta_ok = 1, ta_next_s = 60\<rparr> (packet_samples desk_packet) (desk_tables db))"
    using desk_packet_ok by (simp add: ingest_def desk_bearer_hash auth caps none new)
  from that [OF run start mem this] show thesis by (simp add: accepted_packet_def none)
qed

theorem tables_follow_packets_witness:
  "\<exists>g0 g. ingest_run board_codec g0 [(desk_packet, 101000)] g \<and>
     mset (map (\<lambda>p. (pk_deviceId p, pk_seq p)) (ig_packets g)) = {#(shop_lease, 0)#}"
proof -
  obtain db g' where d: "ingest_start (desk_tables db)"
    "ingest board_codec (Some desk_bearer) (Some desk_packet) 101000 (desk_tables db) = (Inr \<lparr>ta_ok = 1, ta_next_s = 60\<rparr>, g')"
    "accepted_packet (desk_tables db) (Some desk_packet) 101000 (Inr \<lparr>ta_ok = 1, ta_next_s = 60\<rparr>) = [(desk_packet, 101000)]"
    by (rule desk_ingested)
  from ir_request [OF ir_start d(2), unfolded d(3)] have r: "ingest_run board_codec (desk_tables db) [(desk_packet, 101000)] g'" by simp
  from tables_follow_packets [OF r d(1)] r show ?thesis by (auto simp: desk_packet_def)
qed


theorem packets_need_newest_credential_witness:
  "\<exists>db (g' :: IngestDb). device_run desk_platform desk_devices [Issued shop_lease 1 ''u'' ''s1'' 600007 shop_hash] db \<and>
     device_run desk_platform desk_devices [Issued shop_lease 1 ''u'' ''s1'' 600007 shop_hash] (ig_devices g')"
proof -
  obtain db g' where d: "device_run desk_platform desk_devices [Issued shop_lease 1 ''u'' ''s1'' 600007 shop_hash] db"
    "shop_lease \<in> pv_deviceId ` set (dd_provisionings db)"
    "ingest board_codec (Some desk_bearer) (Some desk_packet) 101000 (desk_tables db) = (Inr \<lparr>ta_ok = 1, ta_next_s = 60\<rparr>, g')"
    by (rule desk_ingested)
  have g: "ig_devices (desk_tables db) = db" "pf_codec desk_platform = board_codec" "te_dev desk_packet = shop_lease"
    by (simp_all add: desk_tables_def desk_platform_def desk_packet_def)
  from packets_need_newest_credential [of desk_platform desk_devices _ "desk_tables db", unfolded g, OF d(1) desk_devices_ok d(3), unfolded g, OF d(2)] d(1)
  show ?thesis by blast
qed


end
